(* ===== verification/Prelude.thy ===== *)
theory Prelude
  imports Main "HOL-Library.Word"
begin

text \<open>
  The shared base of the development: the ways an operation of the program can end, the
  width of its unsigned size type, and the list lemmas the component theories use.

  \<^item> \<open>fault\<close> is what happens instead of a result. \<open>Fatal\<close> is the exception \<open>fatal_error\<close>
    that \<open>NamedLogger::error_quit\<close> throws (\<open>src/src/common/log.h\<close>), \<open>Aborted\<close> a call of
    \<open>abort()\<close>, and \<open>Undef\<close> a step the C++ standard leaves undefined: a failed \<open>assert\<close>, an
    access outside its block, a null dereference, a signed overflow. \<open>Blocked\<close> is a call that
    has not returned: the transport or the operating system owes it an answer.
  \<^item> \<open>'a res\<close> is \<open>fault + 'a\<close>, and \<open>rbind\<close> its sequencing: the first fault ends the run.
  \<^item> \<open>sz_add\<close>, \<open>sz_sub\<close> and \<open>sz_mul\<close> are the 64-bit \<open>size_t\<close> operations on naturals,
    wrap-around written out.
\<close>

subsection \<open>Faults and results\<close>

datatype fault = Fatal string | Aborted | Undef | Blocked

type_synonym 'a res = "fault + 'a"

named_theorems res_simps \<open>evaluation of result sequencing\<close>

definition rbind :: "'a res \<Rightarrow> ('a \<Rightarrow> 'b res) \<Rightarrow> 'b res" where
  "rbind m f = (case m of Inl e \<Rightarrow> Inl e | Inr x \<Rightarrow> f x)"

lemma rbind_Inl [simp, res_simps]: "rbind (Inl e) f = Inl e"
  by (simp add: rbind_def)

lemma rbind_Inr [simp, res_simps]: "rbind (Inr x) f = f x"
  by (simp add: rbind_def)

lemma rbind_eq_Inr: "rbind m f = Inr y \<longleftrightarrow> (\<exists>x. m = Inr x \<and> f x = Inr y)"
  by (cases m) auto

lemma rbind_InrE [elim]:
  assumes "rbind m f = Inr y"
  obtains x where "m = Inr x" and "f x = Inr y"
  using assms by (auto simp: rbind_eq_Inr)

lemma rbind_eq_Inl: "rbind m f = Inl e \<longleftrightarrow> m = Inl e \<or> (\<exists>x. m = Inr x \<and> f x = Inl e)"
  by (cases m) auto

lemma rbind_assoc: "rbind (rbind m f) g = rbind m (\<lambda>x. rbind (f x) g)"
  by (cases m) auto

lemma rbind_cong [fundef_cong]:
  "m = m' \<Longrightarrow> (\<And>x. m' = Inr x \<Longrightarrow> f x = f' x) \<Longrightarrow> rbind m f = rbind m' f'"
  by (cases m') (auto simp: rbind_def)

text \<open>\<open>NamedLogger::error_quit\<close> logs and throws; \<open>assert_quit\<close> does so unless the condition holds.\<close>

definition error_quit :: "string \<Rightarrow> 'a res" where
  "error_quit msg = Inl (Fatal msg)"

definition assert_quit :: "bool \<Rightarrow> string \<Rightarrow> unit res" where
  "assert_quit assertion msg = (if assertion then Inr () else error_quit msg)"

lemma assert_quit_simps [simp, res_simps]:
  "assert_quit True msg = Inr ()"
  "assert_quit False msg = Inl (Fatal msg)"
  by (simp_all add: assert_quit_def error_quit_def)

lemma assert_quit_Inr_iff [simp]: "assert_quit b msg = Inr u \<longleftrightarrow> b"
  by (cases b) auto

lemma assert_quit_Inl: "assert_quit b msg = Inl e \<longleftrightarrow> \<not> b \<and> e = Fatal msg"
  by (auto simp: assert_quit_def error_quit_def)

text \<open>The C macro \<open>assert\<close>: a failed one has no defined continuation.\<close>

definition c_assert :: "bool \<Rightarrow> unit res" where
  "c_assert b = (if b then Inr () else Inl Undef)"

lemma c_assert_simps [simp, res_simps]:
  "c_assert True = Inr ()"
  "c_assert False = Inl Undef"
  by (simp_all add: c_assert_def)

lemma c_assert_Inr_iff [simp]: "c_assert b = Inr u \<longleftrightarrow> b"
  by (cases b) auto

subsection \<open>Threads\<close>

text \<open>
  A \<open>std::thread\<close> member is \<open>Idle\<close> when it stands for no thread, \<open>Working\<close> while its function runs and \<open>Ended\<close>
  when the function has returned and nobody has joined it. \<open>join_thread\<close> is \<open>if (t.joinable()) t.join()\<close>,
  \<open>join_or_throw\<close> a bare \<open>t.join()\<close>, which throws when there is nothing to join, and \<open>spawn_thread\<close> the assignment
  of a new thread, which terminates the program when the old one is joinable.
\<close>

datatype thread_state = Idle | Working | Ended

definition join_thread :: "thread_state \<Rightarrow> thread_state res" where
  "join_thread t = (if t = Working then Inl Blocked else Inr Idle)"

definition join_or_throw :: "thread_state \<Rightarrow> thread_state res" where
  "join_or_throw t = (if t = Idle then Inl Aborted else join_thread t)"

definition spawn_thread :: "thread_state \<Rightarrow> thread_state res" where
  "spawn_thread t = (if t = Idle then Inr Working else Inl Aborted)"

lemma join_thread_Inl: "join_thread t = Inl e \<longleftrightarrow> t = Working \<and> e = Blocked"
  by (auto simp: join_thread_def)

subsection \<open>Sizes\<close>

definition SIZE_T_MOD :: nat where
  "SIZE_T_MOD = 2 ^ 64"

definition sz_add :: "nat \<Rightarrow> nat \<Rightarrow> nat" where
  "sz_add a b = (a + b) mod SIZE_T_MOD"

definition sz_sub :: "nat \<Rightarrow> nat \<Rightarrow> nat" where
  "sz_sub a b = (if b \<le> a then a - b else SIZE_T_MOD - (b - a) mod SIZE_T_MOD)"

definition sz_mul :: "nat \<Rightarrow> nat \<Rightarrow> nat" where
  "sz_mul a b = (a * b) mod SIZE_T_MOD"

lemma sz_add_small [simp]: "a + b < SIZE_T_MOD \<Longrightarrow> sz_add a b = a + b"
  by (simp add: sz_add_def)

lemma sz_sub_small [simp]: "b \<le> a \<Longrightarrow> sz_sub a b = a - b"
  by (simp add: sz_sub_def)

lemma sz_mul_small [simp]: "a * b < SIZE_T_MOD \<Longrightarrow> sz_mul a b = a * b"
  by (simp add: sz_mul_def)

text \<open>A signed \<open>int\<close> assigned to a \<open>size_t\<close>.\<close>

definition sz_of_int :: "int \<Rightarrow> nat" where
  "sz_of_int i = nat (i mod 2 ^ 64)"

lemma sz_of_int_nonneg [simp]: "0 \<le> i \<Longrightarrow> i < 2 ^ 64 \<Longrightarrow> sz_of_int i = nat i"
  by (simp add: sz_of_int_def)

type_synonym u8 = "8 word"
type_synonym u16 = "16 word"
type_synonym u32 = "32 word"
type_synonym u64 = "64 word"
type_synonym bytes = "u8 list"

subsection \<open>Signed integers and division\<close>

text \<open>C++ integer division truncates towards zero; \<open>int32\<close> and \<open>int64\<close> say what fits.\<close>

definition c_div :: "int \<Rightarrow> int \<Rightarrow> int" where
  "c_div a b = sgn a * sgn b * (\<bar>a\<bar> div \<bar>b\<bar>)"

definition c_mod :: "int \<Rightarrow> int \<Rightarrow> int" where
  "c_mod a b = a - c_div a b * b"

definition fits32 :: "int \<Rightarrow> bool" where
  "fits32 x \<longleftrightarrow> - (2 ^ 31) \<le> x \<and> x < 2 ^ 31"

definition fits64 :: "int \<Rightarrow> bool" where
  "fits64 x \<longleftrightarrow> - (2 ^ 63) \<le> x \<and> x < 2 ^ 63"

text \<open>Narrowing to \<open>int\<close>, an update of a 64-bit atomic, and a step of signed 64-bit arithmetic.\<close>

definition wrap32 :: "int \<Rightarrow> int" where
  "wrap32 x = (x + 2 ^ 31) mod 2 ^ 32 - 2 ^ 31"

definition wrap64 :: "int \<Rightarrow> int" where
  "wrap64 x = (x + 2 ^ 63) mod 2 ^ 64 - 2 ^ 63"

definition i64 :: "int \<Rightarrow> int res" where
  "i64 x = (if fits64 x then Inr x else Inl Undef)"

lemma wrap32_id: "wrap32 x = x \<longleftrightarrow> fits32 x"
proof
  assume w: "wrap32 x = x"
  define m where "m = (x + 2 ^ 31) mod 2 ^ 32"
  have "0 \<le> m" "m < 2 ^ 32" "m - 2 ^ 31 = x" using w by (simp_all add: m_def wrap32_def)
  then show "fits32 x" by (simp add: fits32_def)
next
  assume "fits32 x"
  then show "wrap32 x = x" by (simp add: wrap32_def fits32_def)
qed

lemma wrap64_id: "fits64 x \<Longrightarrow> wrap64 x = x"
  by (simp add: wrap64_def fits64_def)

lemma i64_Inr: "i64 x = Inr y \<longleftrightarrow> y = x \<and> fits64 x"
  by (auto simp: i64_def)

lemma c_div_nonneg: "0 \<le> a \<Longrightarrow> 0 < b \<Longrightarrow> c_div a b = a div b"
  by (auto simp: c_div_def sgn_if)

lemma c_mod_nonneg: "0 \<le> a \<Longrightarrow> 0 < b \<Longrightarrow> c_mod a b = a mod b"
  by (simp add: c_mod_def c_div_nonneg minus_div_mult_eq_mod)

lemma c_div_abs_le: "0 < b \<Longrightarrow> \<bar>c_div a b\<bar> * b \<le> \<bar>a\<bar>"
proof -
  assume b: "0 < b"
  have "\<bar>c_div a b\<bar> \<le> \<bar>a\<bar> div b"
    using b by (auto simp: c_div_def abs_mult sgn_if pos_imp_zdiv_nonneg_iff)
  then have "\<bar>c_div a b\<bar> * b \<le> (\<bar>a\<bar> div b) * b"
    using b by (simp add: mult_right_mono)
  also have "\<dots> \<le> \<bar>a\<bar>"
    using b by (simp add: minus_mod_eq_div_mult [symmetric])
  finally show ?thesis .
qed

subsection \<open>Lists as memory\<close>

text \<open>\<open>overwrite xs off ys\<close> is \<open>xs\<close> with \<open>ys\<close> copied over it from index \<open>off\<close> on.\<close>

definition overwrite :: "'a list \<Rightarrow> nat \<Rightarrow> 'a list \<Rightarrow> 'a list" where
  "overwrite xs off ys = take off xs @ ys @ drop (off + length ys) xs"

lemma length_overwrite [simp]:
  "off + length ys \<le> length xs \<Longrightarrow> length (overwrite xs off ys) = length xs"
  by (simp add: overwrite_def)

lemma overwrite_Nil [simp]: "overwrite xs off [] = xs"
  by (simp add: overwrite_def)

lemma take_overwrite_end [simp]:
  "off \<le> length xs \<Longrightarrow> take (off + length ys) (overwrite xs off ys) = take off xs @ ys"
  by (simp add: overwrite_def)

lemma take_overwrite_before:
  "n \<le> off \<Longrightarrow> n \<le> length xs \<Longrightarrow> take n (overwrite xs off ys) = take n xs"
  by (simp add: overwrite_def min_def)

lemma nth_overwrite:
  assumes "off + length ys \<le> length xs" and "i < length xs"
  shows "overwrite xs off ys ! i =
    (if off \<le> i \<and> i < off + length ys then ys ! (i - off) else xs ! i)"
  using assms by (auto simp: overwrite_def nth_append)

text \<open>\<open>blit dst off src\<close> is \<open>memcpy(dst + off, src, n)\<close>: undefined outside the block \<open>dst\<close>.\<close>

definition blit :: "'a list \<Rightarrow> nat \<Rightarrow> 'a list \<Rightarrow> 'a list res" where
  "blit dst off src = (if off + length src \<le> length dst then Inr (overwrite dst off src) else Inl Undef)"

lemma blit_Inr: "off + length src \<le> length dst \<Longrightarrow> blit dst off src = Inr (overwrite dst off src)"
  by (simp add: blit_def)

text \<open>Positions of a circular block: indices stay below twice its length.\<close>

lemma mod_below_twice: "x < 2 * n \<Longrightarrow> x mod n = (if x < n then x else x - n)" for x n :: nat
  by (simp add: le_mod_geq)

text \<open>
  \<open>take_first P xs\<close> is the first element of \<open>xs\<close> that satisfies \<open>P\<close> and the list without it:
  the "walk the deque, move the match out, erase it" loop that the encoders and decoders share.
\<close>

fun take_first :: "('a \<Rightarrow> bool) \<Rightarrow> 'a list \<Rightarrow> ('a \<times> 'a list) option" where
  "take_first P [] = None"
| "take_first P (x # xs) =
     (if P x then Some (x, xs)
      else (case take_first P xs of None \<Rightarrow> None | Some (y, ys) \<Rightarrow> Some (y, x # ys)))"

lemma take_first_None_iff: "take_first P xs = None \<longleftrightarrow> (\<forall>x\<in>set xs. \<not> P x)"
  by (induction xs) (auto split: option.splits)

lemma take_first_SomeD:
  "take_first P xs = Some (y, ys) \<Longrightarrow>
     P y \<and> (\<exists>us vs. xs = us @ y # vs \<and> ys = us @ vs \<and> (\<forall>u\<in>set us. \<not> P u))"
proof (induction xs arbitrary: ys)
  case Nil
  then show ?case by simp
next
  case (Cons x xs)
  show ?case
  proof (cases "P x")
    case True
    with Cons.prems show ?thesis by (auto intro: exI [of _ "[]"])
  next
    case False
    with Cons.prems obtain zs where z: "take_first P xs = Some (y, zs)" and ys: "ys = x # zs"
      by (auto split: option.splits)
    from Cons.IH [OF z] obtain us vs where
      "P y" "xs = us @ y # vs" "zs = us @ vs" "\<forall>u\<in>set us. \<not> P u" by blast
    then have "x # xs = (x # us) @ y # vs" "ys = (x # us) @ vs" "\<forall>u\<in>set (x # us). \<not> P u"
      using False ys by auto
    with \<open>P y\<close> show ?thesis by blast
  qed
qed

lemma take_first_set: "take_first P xs = Some (y, ys) \<Longrightarrow> set xs = insert y (set ys)"
  by (auto dest!: take_first_SomeD)

lemma take_first_length: "take_first P xs = Some (y, ys) \<Longrightarrow> length xs = Suc (length ys)"
  by (auto dest!: take_first_SomeD)

text \<open>Writing one place of a list.\<close>

lemma count_list_update:
  "i < length xs \<Longrightarrow> count_list (xs[i := y]) x + (if xs ! i = x then 1 else 0) = count_list xs x + (if y = x then 1 else 0)"
proof (induction xs arbitrary: i)
  case (Cons a xs)
  show ?case
  proof (cases i)
    case (Suc j)
    then show ?thesis using Cons.IH [of j] Cons.prems by (simp split: if_splits)
  qed auto
qed simp

end
