(* ===== verification/ByteBuffer.thy ===== *)
theory ByteBuffer
  imports Prelude
begin

text \<open>
  \<open>ByteBuffer\<close> of \<open>src/src/common/ByteBuffer.h\<close>: the growable byte array every message,
  frame and key of the program lives in.

  The model keeps the three fields of the class. The block \<open>ptr\<close> points to is a list of
  cells; a cell is \<open>None\<close> while its byte is indeterminate (fresh from \<open>malloc\<close>). \<open>capacity_\<close>
  and \<open>size_\<close> are numbers of their own, as in the class, and \<open>bb_inv\<close> says how they agree
  with the block. The allocator is the parameter \<open>mem\<close>: \<open>mem n\<close> says whether
  \<open>malloc\<close>/\<open>realloc\<close> returns a non-null pointer for \<open>n\<close> bytes. \<open>bb_holds b xs\<close> is the
  abstraction: \<open>b\<close> is well formed and holds the byte sequence \<open>xs\<close>.
\<close>

subsection \<open>The class and its operations\<close>

type_synonym cell = "u8 option"

record byte_buffer =
  buf_ptr :: "cell list option"
  buf_capacity :: nat
  buf_size :: nat

definition bb_empty :: byte_buffer where
  "bb_empty = \<lparr>buf_ptr = None, buf_capacity = 0, buf_size = 0\<rparr>"

definition block :: "byte_buffer \<Rightarrow> cell list" where
  "block b = (case buf_ptr b of None \<Rightarrow> [] | Some m \<Rightarrow> m)"

text \<open>\<open>memcpy(ptr + off, src, len)\<close> and \<open>memmove\<close> within the block; out of the block is undefined.\<close>

definition copy_into :: "byte_buffer \<Rightarrow> nat \<Rightarrow> cell list \<Rightarrow> byte_buffer res" where
  "copy_into b off src =
     (if src = [] then Inr b
      else if off + length src \<le> length (block b)
      then Inr (b\<lparr>buf_ptr := Some (overwrite (block b) off src)\<rparr>)
      else Inl Undef)"

definition reserve :: "(nat \<Rightarrow> bool) \<Rightarrow> nat \<Rightarrow> byte_buffer \<Rightarrow> byte_buffer res" where
  "reserve mem newCapacity b =
     (if buf_capacity b < newCapacity
      then (if \<not> mem newCapacity then error_quit ''Failed to allocate memory''
            else Inr (b\<lparr>buf_ptr := Some (take newCapacity (block b)
                                     @ replicate (newCapacity - length (block b)) None),
                       buf_capacity := newCapacity\<rparr>))
      else Inr b)"

definition resize :: "(nat \<Rightarrow> bool) \<Rightarrow> nat \<Rightarrow> byte_buffer \<Rightarrow> byte_buffer res" where
  "resize mem newSize b =
     (if newSize = 0 then Inr (b\<lparr>buf_ptr := None, buf_size := 0, buf_capacity := 0\<rparr>)
      else if newSize \<le> buf_capacity b then Inr (b\<lparr>buf_size := newSize\<rparr>)
      else rbind (reserve mem newSize b) (\<lambda>b'. Inr (b'\<lparr>buf_size := newSize\<rparr>)))"

definition bb_new :: "(nat \<Rightarrow> bool) \<Rightarrow> nat \<Rightarrow> byte_buffer res" where
  "bb_new mem initialSize = resize mem initialSize bb_empty"

definition bb_clone :: "(nat \<Rightarrow> bool) \<Rightarrow> byte_buffer \<Rightarrow> byte_buffer res" where
  "bb_clone mem b =
     (if buf_size b \<noteq> 0
      then rbind (resize mem (buf_size b) bb_empty) (\<lambda>ret. copy_into ret 0 (take (buf_size b) (block b)))
      else Inr bb_empty)"

text \<open>\<open>realloc(ptr, 0)\<close> may return null, which the code takes for a failed allocation.\<close>

definition shrinkToFit :: "(nat \<Rightarrow> bool) \<Rightarrow> byte_buffer \<Rightarrow> byte_buffer res" where
  "shrinkToFit mem b =
     (if buf_capacity b = buf_size b \<or> buf_ptr b = None then Inr b
      else if \<not> mem (buf_size b) then error_quit ''Failed to allocate memory''
      else Inr (b\<lparr>buf_ptr := Some (take (buf_size b) (block b)), buf_capacity := buf_size b\<rparr>))"

definition bb_get :: "byte_buffer \<Rightarrow> nat \<Rightarrow> u8 res" where
  "bb_get b idx =
     (if idx < length (block b)
      then (case block b ! idx of None \<Rightarrow> Inl Undef | Some v \<Rightarrow> Inr v) else Inl Undef)"

definition HEX_DIGITS :: string where
  "HEX_DIGITS = ''0123456789ABCDEF''"

fun hex_loop :: "byte_buffer \<Rightarrow> nat \<Rightarrow> nat \<Rightarrow> string \<Rightarrow> string res" where
  "hex_loop b i 0 ret = Inr ret"
| "hex_loop b i (Suc n) ret =
     rbind (bb_get b i) (\<lambda>val.
       hex_loop b (Suc i) n
         (ret @ [HEX_DIGITS ! (unat val div 16)] @ [HEX_DIGITS ! (unat val mod 16)]))"

definition intoHexString :: "byte_buffer \<Rightarrow> string res" where
  "intoHexString b = hex_loop b 0 (buf_size b) []"

definition shiftTowardBegin :: "nat \<Rightarrow> byte_buffer \<Rightarrow> byte_buffer res" where
  "shiftTowardBegin amount b =
     (if amount \<noteq> 0
      then (let n = sz_sub (buf_size b) amount in
            if amount + n \<le> length (block b)
            then copy_into b 0 (take n (drop amount (block b))) else Inl Undef)
      else Inr b)"

definition shiftTowardEnd :: "nat \<Rightarrow> byte_buffer \<Rightarrow> byte_buffer res" where
  "shiftTowardEnd amount b =
     (if amount \<noteq> 0
      then (let n = sz_sub (buf_size b) amount in
            if n \<le> length (block b)
            then copy_into b amount (take n (block b)) else Inl Undef)
      else Inr b)"

definition write_at :: "(nat \<Rightarrow> bool) \<Rightarrow> nat \<Rightarrow> cell list \<Rightarrow> byte_buffer \<Rightarrow> byte_buffer res" where
  "write_at mem dstOffset src b =
     (let newSize = max (buf_size b) (sz_add dstOffset (length src))
      in rbind (reserve mem newSize b) (\<lambda>b'.
         rbind (copy_into b' dstOffset src) (\<lambda>b''. Inr (b''\<lparr>buf_size := newSize\<rparr>))))"

definition append_raw :: "(nat \<Rightarrow> bool) \<Rightarrow> cell list \<Rightarrow> byte_buffer \<Rightarrow> byte_buffer res" where
  "append_raw mem src b =
     rbind (reserve mem (sz_add (buf_size b) (length src)) b) (\<lambda>b'.
     rbind (copy_into b' (buf_size b') src) (\<lambda>b''.
       Inr (b''\<lparr>buf_size := sz_add (buf_size b'') (length src)\<rparr>)))"

definition append_buffer :: "(nat \<Rightarrow> bool) \<Rightarrow> byte_buffer \<Rightarrow> byte_buffer \<Rightarrow> byte_buffer res" where
  "append_buffer mem other b =
     rbind (reserve mem (sz_add (buf_size b) (buf_size other)) b) (\<lambda>b'.
     rbind (copy_into b' (buf_size b') (take (buf_size other) (block other))) (\<lambda>b''.
       Inr (b''\<lparr>buf_size := sz_add (buf_size b'') (buf_size other)\<rparr>)))"

definition append_byte :: "(nat \<Rightarrow> bool) \<Rightarrow> u8 \<Rightarrow> byte_buffer \<Rightarrow> byte_buffer res" where
  "append_byte mem data b =
     rbind (reserve mem (sz_add (buf_size b) 1) b) (\<lambda>b'.
     rbind (copy_into b' (buf_size b') [Some data]) (\<lambda>b''.
       Inr (b''\<lparr>buf_size := sz_add (buf_size b'') 1\<rparr>)))"

text \<open>Move construction and move assignment both swap: the source keeps the target's old block.\<close>

definition bb_swap :: "byte_buffer \<times> byte_buffer \<Rightarrow> byte_buffer \<times> byte_buffer" where
  "bb_swap p = (snd p, fst p)"

definition bb_move_construct :: "byte_buffer \<Rightarrow> byte_buffer \<times> byte_buffer" where
  "bb_move_construct m = bb_swap (bb_empty, m)"

definition bb_move_assign :: "byte_buffer \<Rightarrow> byte_buffer \<Rightarrow> byte_buffer \<times> byte_buffer" where
  "bb_move_assign this m = bb_swap (this, m)"

subsection \<open>Well-formed buffers and what they hold\<close>

definition bb_inv :: "byte_buffer \<Rightarrow> bool" where
  "bb_inv b \<longleftrightarrow> length (block b) = buf_capacity b \<and> buf_size b \<le> buf_capacity b"

definition bb_cells :: "byte_buffer \<Rightarrow> cell list" where
  "bb_cells b = take (buf_size b) (block b)"

definition bb_holds :: "byte_buffer \<Rightarrow> bytes \<Rightarrow> bool" where
  "bb_holds b xs \<longleftrightarrow> bb_inv b \<and> bb_cells b = map Some xs"

named_theorems bb_defs \<open>definitions of the buffer's state predicates\<close>

lemmas bb_state_defs [bb_defs] = bb_inv_def bb_cells_def block_def

lemma block_simps [simp]:
  "block (b\<lparr>buf_ptr := Some m\<rparr>) = m"
  "block (b\<lparr>buf_ptr := None\<rparr>) = []"
  "block (b\<lparr>buf_size := n\<rparr>) = block b"
  "block (b\<lparr>buf_capacity := n\<rparr>) = block b"
  "block bb_empty = []"
  by (simp_all add: block_def bb_empty_def)

lemma bb_empty_inv [simp]: "bb_inv bb_empty"
  by (simp add: bb_inv_def bb_empty_def block_def)

lemma bb_holds_inv: "bb_holds b xs \<Longrightarrow> bb_inv b"
  by (simp add: bb_holds_def)

lemma bb_holds_size: "bb_holds b xs \<Longrightarrow> buf_size b = length xs"
proof -
  assume h: "bb_holds b xs"
  then have "length (take (buf_size b) (block b)) = length xs"
    by (simp add: bb_holds_def bb_cells_def)
  with h show ?thesis by (simp add: bb_holds_def bb_inv_def)
qed

lemma bb_holds_cells: "bb_holds b xs \<Longrightarrow> take (buf_size b) (block b) = map Some xs"
  by (simp add: bb_holds_def bb_cells_def)

lemma bb_holds_empty [simp]: "bb_holds bb_empty []"
  by (simp add: bb_holds_def bb_cells_def)

lemma bb_holds_unique: "bb_holds b xs \<Longrightarrow> bb_holds b ys \<Longrightarrow> xs = ys"
  by (simp add: bb_holds_def inj_map_eq_map)

text \<open>Allocation: \<open>grants mem n\<close> says the allocator serves every request up to \<open>n\<close> bytes.\<close>

definition grants :: "(nat \<Rightarrow> bool) \<Rightarrow> nat \<Rightarrow> bool" where
  "grants mem n \<longleftrightarrow> (\<forall>k\<le>n. mem k)"

lemma grantsD: "grants mem n \<Longrightarrow> k \<le> n \<Longrightarrow> mem k"
  by (simp add: grants_def)

lemma reserve_Inr:
  assumes "bb_inv b" and "reserve mem n b = Inr b'"
  shows "bb_inv b' \<and> buf_size b' = buf_size b \<and> n \<le> buf_capacity b'
    \<and> buf_capacity b \<le> buf_capacity b' \<and> take (buf_capacity b) (block b') = block b"
  using assms by (auto simp: reserve_def bb_inv_def error_quit_def split: if_splits)

lemma reserve_total: "grants mem n \<Longrightarrow> \<exists>b'. reserve mem n b = Inr b'"
  by (auto simp: reserve_def grants_def)

lemma reserve_cells:
  assumes "bb_inv b" and "reserve mem n b = Inr b'"
  shows "take (buf_size b') (block b') = take (buf_size b) (block b)"
proof -
  from reserve_Inr [OF assms] have s: "buf_size b' = buf_size b"
    and t: "take (buf_capacity b) (block b') = block b" by simp_all
  have "take (buf_size b) (block b') = take (buf_size b) (take (buf_capacity b) (block b'))"
    using assms(1) by (simp add: bb_inv_def min_absorb1)
  with s t show ?thesis by simp
qed

lemma reserve_holds:
  assumes "bb_holds b xs" and "grants mem n"
  obtains b' where "reserve mem n b = Inr b'" and "bb_holds b' xs" and "n \<le> buf_capacity b'"
proof -
  from reserve_total [OF assms(2)] obtain b' where r: "reserve mem n b = Inr b'" by blast
  from assms(1) have i: "bb_inv b" by (rule bb_holds_inv)
  have "bb_holds b' xs"
    using reserve_Inr [OF i r] reserve_cells [OF i r] assms(1)
    by (simp add: bb_holds_def bb_cells_def)
  with r reserve_Inr [OF i r] that show ?thesis by blast
qed

text \<open>Writing at the end of what a buffer holds, with room in the block.\<close>

lemma copy_at_end_holds:
  assumes "bb_holds b xs" and "length xs + length ys \<le> buf_capacity b"
  shows "\<exists>b'. copy_into b (buf_size b) (map Some ys) = Inr b' \<and>
              bb_holds (b'\<lparr>buf_size := length xs + length ys\<rparr>) (xs @ ys) \<and>
              buf_size b' = length xs"
proof -
  from assms(1) have s: "buf_size b = length xs" by (rule bb_holds_size)
  from assms(1) have c: "take (length xs) (block b) = map Some xs"
    using bb_holds_cells [OF assms(1)] s by simp
  from assms(1) have l: "length (block b) = buf_capacity b" by (simp add: bb_holds_def bb_inv_def)
  let ?m = "overwrite (block b) (length xs) (map Some ys)"
  have t: "take (length xs + length ys) ?m = map Some (xs @ ys)"
    using assms(2) l c take_overwrite_end [of "length xs" "block b" "map Some ys"] by simp
  show ?thesis
    using assms(2) s l c t
    by (cases "ys = []") (auto simp: copy_into_def bb_holds_def bb_inv_def bb_cells_def)
qed

lemma append_raw_holds:
  assumes h: "bb_holds b xs" and g: "grants mem (length xs + length ys)"
    and lt: "length xs + length ys < SIZE_T_MOD"
  shows "\<exists>b'. append_raw mem (map Some ys) b = Inr b' \<and> bb_holds b' (xs @ ys)"
proof -
  from h have s: "buf_size b = length xs" by (rule bb_holds_size)
  from reserve_holds [OF h g] obtain b1 where
    r: "reserve mem (length xs + length ys) b = Inr b1" and h1: "bb_holds b1 xs"
    and cap: "length xs + length ys \<le> buf_capacity b1" .
  from copy_at_end_holds [OF h1 cap] obtain b2 where
    "copy_into b1 (buf_size b1) (map Some ys) = Inr b2"
    "bb_holds (b2\<lparr>buf_size := length xs + length ys\<rparr>) (xs @ ys)" "buf_size b2 = length xs"
    by blast
  with r s lt show ?thesis by (simp add: append_raw_def)
qed

lemma append_buffer_raw: "append_buffer mem other b = append_raw mem (bb_cells other) b"
  if "bb_inv other"
  using that by (simp add: append_buffer_def append_raw_def bb_cells_def bb_inv_def min_absorb2)

lemma append_buffer_holds:
  assumes "bb_holds b xs" and "bb_holds other ys" and "grants mem (length xs + length ys)"
    and "length xs + length ys < SIZE_T_MOD"
  shows "\<exists>b'. append_buffer mem other b = Inr b' \<and> bb_holds b' (xs @ ys)"
  using append_raw_holds [OF assms(1,3,4)] assms(2)
  by (simp add: append_buffer_raw bb_holds_def)

lemma append_byte_raw: "append_byte mem v b = append_raw mem [Some v] b"
  by (simp add: append_byte_def append_raw_def)

text \<open>Shrinking keeps a prefix; growing leaves the old bytes in front of indeterminate ones.\<close>

lemma resize_shrink_holds:
  assumes "bb_holds b xs" and "n \<le> length xs"
  shows "\<exists>b'. resize mem n b = Inr b' \<and> bb_holds b' (take n xs)"
proof (cases "n = 0")
  case True
  then show ?thesis by (simp add: resize_def bb_holds_def bb_inv_def bb_cells_def)
next
  case False
  from assms(1) have s: "buf_size b = length xs" by (rule bb_holds_size)
  have "take n (block b) = take n (take (buf_size b) (block b))"
    using assms(2) s by (simp add: min_absorb1)
  also have "\<dots> = map Some (take n xs)"
    using assms(1) by (simp add: bb_holds_def bb_cells_def take_map)
  finally have "take n (block b) = map Some (take n xs)" .
  with False assms s show ?thesis by (auto simp: resize_def bb_holds_def bb_inv_def bb_cells_def)
qed

lemma resize_size: "bb_inv b \<Longrightarrow> resize mem n b = Inr b' \<Longrightarrow> bb_inv b' \<and> buf_size b' = n"
  by (auto simp: resize_def bb_inv_def dest!: reserve_Inr [unfolded bb_inv_def, rotated] split: if_splits)

lemma resize_total: "grants mem n \<Longrightarrow> \<exists>b'. resize mem n b = Inr b'"
  using reserve_total [of mem n b] by (auto simp: resize_def)

lemma resize_fault: "resize mem n b = Inl e \<Longrightarrow> e = Fatal ''Failed to allocate memory''"
  by (auto simp: resize_def reserve_def error_quit_def split: if_splits)

text \<open>
  mbedtls writes DER at the end of its output block. The callers move the last \<open>n\<close> bytes to
  the front and cut the buffer there: together these two steps give the last \<open>n\<close> bytes.
\<close>

lemma shiftTowardBegin_cells:
  assumes "bb_inv b" and "amount \<le> buf_size b"
  shows "\<exists>b'. shiftTowardBegin amount b = Inr b' \<and> bb_inv b' \<and> buf_size b' = buf_size b \<and>
    take (buf_size b - amount) (block b') = take (buf_size b - amount) (drop amount (block b))"
proof (cases "amount = 0 \<or> take (buf_size b - amount) (drop amount (block b)) = []")
  case True
  then show ?thesis using assms
    by (auto simp: shiftTowardBegin_def copy_into_def bb_inv_def Let_def)
next
  case False
  let ?n = "buf_size b - amount"
  let ?src = "take ?n (drop amount (block b))"
  have len: "length ?src = ?n" using assms by (auto simp: bb_inv_def)
  have fit: "length ?src \<le> length (block b)" using len assms by (auto simp: bb_inv_def)
  have "take ?n (overwrite (block b) 0 ?src) = ?src"
    using take_overwrite_end [of 0 "block b" ?src] len by simp
  with False assms fit len show ?thesis
    by (auto simp: shiftTowardBegin_def copy_into_def bb_inv_def Let_def)
qed

lemma der_tail_holds:
  assumes "bb_inv b" and "0 < n" and "n \<le> buf_size b"
    and "drop (buf_size b - n) (take (buf_size b) (block b)) = map Some der"
  shows "\<exists>b'. rbind (shiftTowardBegin (buf_size b - n) b) (resize mem n) = Inr b' \<and> bb_holds b' der"
proof -
  have n: "buf_size b - (buf_size b - n) = n" using assms(3) by simp
  obtain b1 where b1: "shiftTowardBegin (buf_size b - n) b = Inr b1" "bb_inv b1"
      "buf_size b1 = buf_size b" "take n (block b1) = take n (drop (buf_size b - n) (block b))"
    using shiftTowardBegin_cells [OF assms(1), of "buf_size b - n"] n by auto
  have "take n (drop (buf_size b - n) (block b)) = map Some der"
    using assms(3,4) by (simp add: drop_take n)
  with b1 assms(2,3) show ?thesis
    by (auto simp: resize_def bb_holds_def bb_cells_def bb_inv_def)
qed

lemma shrinkToFit_holds:
  assumes "bb_holds b xs" and "xs \<noteq> []" and "mem (length xs)"
  shows "\<exists>b'. shrinkToFit mem b = Inr b' \<and> bb_holds b' xs \<and> (buf_ptr b \<noteq> None \<longrightarrow> buf_capacity b' = length xs)"
proof -
  from assms(1) have "buf_size b = length xs" by (rule bb_holds_size)
  with assms show ?thesis
    by (auto simp: shrinkToFit_def bb_holds_def bb_inv_def bb_cells_def)
qed

text \<open>
  After \<open>reserve\<close> without any write the buffer is empty but owns a block. \<open>shrinkToFit\<close> then asks
  \<open>realloc\<close> for zero bytes, and where that returns null the code ends the program.
\<close>

lemma shrinkToFit_reserved_empty:
  assumes "0 < n" and "mem n" and "\<not> mem 0"
  shows "rbind (reserve mem n bb_empty) (shrinkToFit mem) = Inl (Fatal ''Failed to allocate memory'')"
  using assms by (simp add: reserve_def shrinkToFit_def bb_empty_def error_quit_def)

lemma bb_clone_holds:
  assumes "bb_holds b xs" and "grants mem (length xs)"
  shows "\<exists>b'. bb_clone mem b = Inr b' \<and> bb_holds b' xs"
proof (cases "xs = []")
  case True
  with bb_holds_size [OF assms(1)] show ?thesis by (simp add: bb_clone_def)
next
  case False
  from assms(1) have s: "buf_size b = length xs" by (rule bb_holds_size)
  obtain c where c: "resize mem (length xs) bb_empty = Inr c"
    using resize_total [OF assms(2)] by blast
  then have ci: "bb_inv c" "buf_size c = length xs" using resize_size [OF bb_empty_inv c] by auto
  have "take (length xs) (overwrite (block c) 0 (map Some xs)) = map Some xs"
    using take_overwrite_end [of 0 "block c" "map Some xs"] by simp
  with False s c ci bb_holds_cells [OF assms(1)] show ?thesis
    by (auto simp: bb_clone_def copy_into_def bb_holds_def bb_inv_def bb_cells_def)
qed

lemma write_at_front_holds:
  assumes "bb_inv b" and "buf_size b \<le> length xs" and "grants mem (length xs)" and "length xs < SIZE_T_MOD"
  shows "\<exists>b'. write_at mem 0 (map Some xs) b = Inr b' \<and> bb_holds b' xs"
proof -
  from reserve_total [OF assms(3)] obtain c where c: "reserve mem (length xs) b = Inr c" by blast
  from reserve_Inr [OF assms(1) c] have ci: "bb_inv c" "length xs \<le> buf_capacity c" by auto
  have "take (length xs) (overwrite (block c) 0 (map Some xs)) = map Some xs"
    using take_overwrite_end [of 0 "block c" "map Some xs"] by simp
  with c ci assms show ?thesis
    by (cases "xs = []") (auto simp: write_at_def copy_into_def bb_holds_def bb_inv_def bb_cells_def max_absorb2)
qed

text \<open>
  \<open>DesktopFrame\<close> and audio payloads are built as \<open>ByteBuffer buf(n); buf.write(0, data, n)\<close>; the
  result holds exactly the \<open>n\<close> bytes received.
\<close>

lemma new_write_holds:
  assumes "grants mem (length xs)" and "length xs < SIZE_T_MOD"
  shows "\<exists>b. rbind (bb_new mem (length xs)) (write_at mem 0 (map Some xs)) = Inr b \<and> bb_holds b xs"
proof -
  obtain c where c: "bb_new mem (length xs) = Inr c"
    using resize_total [OF assms(1)] by (auto simp: bb_new_def)
  then have "bb_inv c" "buf_size c = length xs"
    using resize_size [OF bb_empty_inv, of mem "length xs" c] by (auto simp: bb_new_def)
  with write_at_front_holds [OF _ _ assms] c show ?thesis by simp
qed

subsection \<open>Hexadecimal text\<close>

definition hex_of :: "bytes \<Rightarrow> string" where
  "hex_of xs = concat (map (\<lambda>v. [HEX_DIGITS ! (unat v div 16), HEX_DIGITS ! (unat v mod 16)]) xs)"

lemma hex_loop_eq:
  assumes "i + n \<le> length xs" and "\<And>k. k < length xs \<Longrightarrow> bb_get b k = Inr (xs ! k)"
  shows "hex_loop b i n ret = Inr (ret @ hex_of (take n (drop i xs)))"
  using assms(1)
proof (induction n arbitrary: i ret)
  case 0
  then show ?case by (simp add: hex_of_def)
next
  case (Suc n)
  then have "drop i xs = xs ! i # drop (Suc i) xs" by (simp add: Cons_nth_drop_Suc)
  with Suc assms(2) [of i] show ?case by (simp add: hex_of_def)
qed

lemma bb_get_holds: "bb_holds b xs \<Longrightarrow> k < length xs \<Longrightarrow> bb_get b k = Inr (xs ! k)"
proof -
  assume h: "bb_holds b xs" and k: "k < length xs"
  from h have s: "buf_size b = length xs" by (rule bb_holds_size)
  with h k have lt: "k < length (block b)" by (simp add: bb_holds_def bb_inv_def)
  have "block b ! k = take (buf_size b) (block b) ! k" using k s by simp
  also have "\<dots> = Some (xs ! k)" using bb_holds_cells [OF h] k by simp
  finally show ?thesis using lt by (simp add: bb_get_def)
qed

lemma intoHexString_holds:
  assumes "bb_holds b xs"
  shows "intoHexString b = Inr (hex_of xs)"
  using hex_loop_eq [of 0 "length xs" xs b "[]"] bb_get_holds [OF assms] bb_holds_size [OF assms]
  by (simp add: intoHexString_def)

text \<open>Reading hexadecimal text back, to state that \<open>intoHexString\<close> loses nothing.\<close>

definition hex_digit_val :: "char \<Rightarrow> nat option" where
  "hex_digit_val c = (case filter (\<lambda>k. HEX_DIGITS ! k = c) [0..<16] of [] \<Rightarrow> None | k # _ \<Rightarrow> Some k)"

fun unhex :: "string \<Rightarrow> bytes option" where
  "unhex [] = Some []"
| "unhex [c] = None"
| "unhex (c # d # cs) =
     (case (hex_digit_val c, hex_digit_val d, unhex cs) of
        (Some h, Some l, Some xs) \<Rightarrow> Some (word_of_nat (16 * h + l) # xs)
      | _ \<Rightarrow> None)"

lemma hex_digit_val_nth_all: "\<forall>k\<in>set [0..<16]. hex_digit_val (HEX_DIGITS ! k) = Some k"
  by code_simp

lemma hex_digit_val_nth: "k < 16 \<Longrightarrow> hex_digit_val (HEX_DIGITS ! k) = Some k"
  using hex_digit_val_nth_all by simp

lemma unhex_hex_of: "unhex (hex_of xs) = Some xs"
proof (induction xs)
  case Nil
  then show ?case by (simp add: hex_of_def)
next
  case (Cons v xs)
  have "unat v < 2 ^ LENGTH(8)" by (fact unsigned_less)
  then have "unat v div 16 < 16" by simp
  moreover have "(word_of_nat (16 * (unat v div 16) + unat v mod 16) :: u8) = v" by simp
  ultimately show ?case using Cons
    by (simp add: hex_of_def hex_digit_val_nth)
qed

subsection \<open>The interface its clients use\<close>

text \<open>
  The pin and nonce code, the key code and the encoders build a message by reserving room and
  appending piece after piece. \<open>byte_store\<close> is what they rely on: \<open>fits n\<close> says \<open>n\<close> bytes can be
  held, \<open>holds b xs\<close> what a store holds.
\<close>

fun append_all :: "('b \<Rightarrow> 'b \<Rightarrow> 'b res) \<Rightarrow> 'b list \<Rightarrow> 'b \<Rightarrow> 'b res" where
  "append_all app [] b = Inr b"
| "append_all app (c # cs) b = rbind (app c b) (append_all app cs)"

locale byte_store =
  fixes fits :: "nat \<Rightarrow> bool"
    and holds :: "'b \<Rightarrow> bytes \<Rightarrow> bool"
    and emp :: 'b
    and rsv :: "nat \<Rightarrow> 'b \<Rightarrow> 'b res"
    and app :: "'b \<Rightarrow> 'b \<Rightarrow> 'b res"
  assumes fits_mono: "fits n \<Longrightarrow> k \<le> n \<Longrightarrow> fits k"
    and emp_holds: "holds emp []"
    and rsv_holds: "holds b xs \<Longrightarrow> fits n \<Longrightarrow> \<exists>b'. rsv n b = Inr b' \<and> holds b' xs"
    and app_holds: "holds b xs \<Longrightarrow> holds c ys \<Longrightarrow> fits (length xs + length ys) \<Longrightarrow>
      \<exists>b'. app c b = Inr b' \<and> holds b' (xs @ ys)"
begin

lemma append_all_holds:
  "holds b xs \<Longrightarrow> list_all2 holds cs yss \<Longrightarrow> fits (length xs + length (concat yss)) \<Longrightarrow>
     \<exists>b'. append_all app cs b = Inr b' \<and> holds b' (xs @ concat yss)"
proof (induction cs arbitrary: b xs yss)
  case Nil
  then show ?case by simp
next
  case (Cons c cs)
  from Cons.prems(2) obtain ys zss where yss: "yss = ys # zss" and c: "holds c ys"
    and rest: "list_all2 holds cs zss" by (auto simp: list_all2_Cons1)
  have "fits (length xs + length ys)"
    using fits_mono [OF Cons.prems(3), of "length xs + length ys"] yss by simp
  from app_holds [OF Cons.prems(1) c this] obtain b1 where
    b1: "app c b = Inr b1" "holds b1 (xs @ ys)" by blast
  have "fits (length (xs @ ys) + length (concat zss))"
    using Cons.prems(3) yss by (simp add: add.assoc)
  from Cons.IH [OF b1(2) rest this] b1(1) yss show ?case by simp
qed

lemma reserve_append_all_holds:
  assumes "list_all2 holds cs yss" and "fits (length (concat yss))" and "fits n"
  shows "\<exists>b'. rbind (rsv n emp) (append_all app cs) = Inr b' \<and> holds b' (concat yss)"
proof -
  from rsv_holds [OF emp_holds assms(3)] obtain b where "rsv n emp = Inr b" "holds b []" by blast
  with append_all_holds [of b "[]", OF _ assms(1)] assms(2) show ?thesis by simp
qed

end

interpretation bb: byte_store "\<lambda>n. grants mem n \<and> n < SIZE_T_MOD" bb_holds bb_empty
  "reserve mem" "append_buffer mem" for mem
proof unfold_locales
  fix b c :: byte_buffer and xs ys n k
  show "grants mem n \<and> n < SIZE_T_MOD \<Longrightarrow> k \<le> n \<Longrightarrow> grants mem k \<and> k < SIZE_T_MOD"
    by (auto simp: grants_def)
  show "bb_holds bb_empty []" by simp
  show "bb_holds b xs \<Longrightarrow> grants mem n \<and> n < SIZE_T_MOD \<Longrightarrow>
      \<exists>b'. reserve mem n b = Inr b' \<and> bb_holds b' xs"
    by (auto elim: reserve_holds)
  show "bb_holds b xs \<Longrightarrow> bb_holds c ys \<Longrightarrow>
      grants mem (length xs + length ys) \<and> length xs + length ys < SIZE_T_MOD \<Longrightarrow>
      \<exists>b'. append_buffer mem c b = Inr b' \<and> bb_holds b' (xs @ ys)"
    using append_buffer_holds by blast
qed

subsection \<open>Properties\<close>

text \<open>Building a message. Reserving a buffer and appending well-formed buffers one after the
  other, as every payload of the protocol is built, succeeds whenever the allocator grants the sizes,
  and leaves a well-formed buffer that holds exactly the concatenation.\<close>

lemma append_concat:
  assumes "list_all2 bb_holds cs yss" and "grants mem (max n (length (concat yss)))"
    and "n < SIZE_T_MOD" and "length (concat yss) < SIZE_T_MOD"
  shows "\<exists>b. rbind (reserve mem n bb_empty) (append_all (append_buffer mem) cs) = Inr b \<and> bb_holds b (concat yss)"
  using assms by (intro bb.reserve_append_all_holds) (auto simp: grants_def)

theorem append_concat_witness:
  "\<exists>b. rbind (reserve (\<lambda>_. True) 1 bb_empty) (append_all (append_buffer (\<lambda>_. True))
     [\<lparr>buf_ptr = Some [Some 7, Some 8], buf_capacity = 2, buf_size = 2\<rparr>,
      \<lparr>buf_ptr = Some [Some 9, None], buf_capacity = 2, buf_size = 1\<rparr>]) = Inr b \<and> bb_holds b [7, 8, 9]"
proof -
  let ?cs = "[\<lparr>buf_ptr = Some [Some 7, Some 8], buf_capacity = 2, buf_size = 2\<rparr>,
      \<lparr>buf_ptr = Some [Some 9, None], buf_capacity = 2, buf_size = 1\<rparr>]"
  have "list_all2 bb_holds ?cs [[7, 8], [9]]"
    by (simp add: bb_holds_def bb_inv_def bb_cells_def block_def)
  from append_concat [OF this, of "\<lambda>_. True" 1] show ?thesis by (simp add: grants_def SIZE_T_MOD_def)
qed

text \<open>\<open>intoHexString\<close> loses nothing. On a well-formed buffer it returns two upper-case digits
  per byte, from which the bytes can be read back.\<close>

lemma hex_roundtrip:
  assumes "bb_holds b xs"
  shows "\<exists>s. intoHexString b = Inr s \<and> length s = 2 * length xs \<and> unhex s = Some xs"
proof -
  have "length (hex_of xs) = 2 * length xs" by (induction xs) (auto simp: hex_of_def)
  then show ?thesis using intoHexString_holds [OF assms] unhex_hex_of by blast
qed

theorem hex_roundtrip_witness:
  "\<exists>s. intoHexString \<lparr>buf_ptr = Some [Some 10, Some 255], buf_capacity = 2, buf_size = 2\<rparr> = Inr s \<and>
     length s = 4 \<and> unhex s = Some [10, 255]"
proof -
  have "bb_holds \<lparr>buf_ptr = Some [Some 10, Some 255], buf_capacity = 2, buf_size = 2\<rparr> [10, 255]"
    by (simp add: bb_holds_def bb_inv_def bb_cells_def block_def)
  from hex_roundtrip [OF this] show ?thesis by simp
qed

end
