(* ===== verification/Fifo.thy ===== *)
theory Fifo
  imports Prelude
begin

text \<open>
  The contract of the bounded queues that carry frames and samples between the threads of the
  program: what comes out is what went in, in order, and a full or an empty queue answers with a
  fault instead of losing an element. \<open>CircularDeque\<close> and \<open>RingBuffer\<close> provide it; the decoder's
  frame queue and the audio buffer rely on it.
\<close>

fun push_all :: "('a \<Rightarrow> 'q \<Rightarrow> 'q res) \<Rightarrow> 'a list \<Rightarrow> 'q \<Rightarrow> 'q res" where
  "push_all push [] q = Inr q"
| "push_all push (x # xs) q = rbind (push x q) (push_all push xs)"

fun pop_n :: "('q \<Rightarrow> ('a \<times> 'q) res) \<Rightarrow> nat \<Rightarrow> 'q \<Rightarrow> ('a list \<times> 'q) res" where
  "pop_n pop 0 q = Inr ([], q)"
| "pop_n pop (Suc n) q =
     rbind (pop q) (\<lambda>(x, q'). rbind (pop_n pop n q') (\<lambda>(xs, q''). Inr (x # xs, q'')))"

datatype 'a fifo_op = Push 'a | Pop

text \<open>A schedule of producer and consumer steps; the run collects what the consumer takes.\<close>

fun fifo_run :: "('a \<Rightarrow> 'q \<Rightarrow> 'q res) \<Rightarrow> ('q \<Rightarrow> ('a \<times> 'q) res) \<Rightarrow> 'a fifo_op list \<Rightarrow> 'q \<Rightarrow> ('a list \<times> 'q) res" where
  "fifo_run push pop [] q = Inr ([], q)"
| "fifo_run push pop (Push x # ops) q = rbind (push x q) (fifo_run push pop ops)"
| "fifo_run push pop (Pop # ops) q =
     rbind (pop q) (\<lambda>(x, q'). rbind (fifo_run push pop ops q') (\<lambda>(xs, q''). Inr (x # xs, q'')))"

fun pushed :: "'a fifo_op list \<Rightarrow> 'a list" where
  "pushed [] = []"
| "pushed (Push x # ops) = x # pushed ops"
| "pushed (Pop # ops) = pushed ops"

locale fifo =
  fixes inv :: "'q \<Rightarrow> bool"
    and elems :: "'q \<Rightarrow> 'a list"
    and cap :: nat
    and push :: "'a \<Rightarrow> 'q \<Rightarrow> 'q res"
    and pop :: "'q \<Rightarrow> ('a \<times> 'q) res"
  assumes bounded: "inv q \<Longrightarrow> length (elems q) \<le> cap"
    and push_ok: "inv q \<Longrightarrow> length (elems q) < cap \<Longrightarrow>
      \<exists>q'. push x q = Inr q' \<and> inv q' \<and> elems q' = elems q @ [x]"
    and push_full: "inv q \<Longrightarrow> length (elems q) = cap \<Longrightarrow> \<exists>e. push x q = Inl e"
    and pop_ok: "inv q \<Longrightarrow> elems q = x # xs \<Longrightarrow>
      \<exists>q'. pop q = Inr (x, q') \<and> inv q' \<and> elems q' = xs"
    and pop_empty: "inv q \<Longrightarrow> elems q = [] \<Longrightarrow> \<exists>e. pop q = Inl e"
begin

lemma push_all_ok:
  "inv q \<Longrightarrow> length (elems q) + length xs \<le> cap \<Longrightarrow>
     \<exists>q'. push_all push xs q = Inr q' \<and> inv q' \<and> elems q' = elems q @ xs"
proof (induction xs arbitrary: q)
  case Nil
  then show ?case by simp
next
  case (Cons x xs)
  then have "length (elems q) < cap" by simp
  from push_ok [OF Cons.prems(1) this, of x] obtain q1 where
    q1: "push x q = Inr q1" "inv q1" "elems q1 = elems q @ [x]" by blast
  with Cons.IH [of q1] Cons.prems(2) show ?case by simp
qed

lemma pop_n_ok:
  "inv q \<Longrightarrow> n \<le> length (elems q) \<Longrightarrow>
     \<exists>q'. pop_n pop n q = Inr (take n (elems q), q') \<and> inv q' \<and> elems q' = drop n (elems q)"
proof (induction n arbitrary: q)
  case 0
  then show ?case by simp
next
  case (Suc n)
  then obtain x xs where e: "elems q = x # xs" by (cases "elems q") auto
  from pop_ok [OF Suc.prems(1) e] obtain q1 where
    q1: "pop q = Inr (x, q1)" "inv q1" "elems q1 = xs" by blast
  with Suc.IH [of q1] Suc.prems(2) e show ?case by auto
qed

lemma push_Inr: "inv q \<Longrightarrow> push x q = Inr q' \<Longrightarrow> inv q' \<and> elems q' = elems q @ [x]"
  using push_ok [of q x] push_full [of q x] bounded [of q] by fastforce

lemma pop_Inr: "inv q \<Longrightarrow> pop q = Inr (x, q') \<Longrightarrow> inv q' \<and> elems q = x # elems q'"
  using pop_empty [of q] pop_ok [of q] by (cases "elems q") fastforce+

text \<open>Under every schedule the consumer's output followed by what is left is the producer's input.\<close>

lemma fifo_run_order:
  "inv q \<Longrightarrow> fifo_run push pop ops q = Inr (out, q') \<Longrightarrow>
     inv q' \<and> out @ elems q' = elems q @ pushed ops"
proof (induction ops arbitrary: q out)
  case Nil
  then show ?case by simp
next
  case (Cons a ops)
  show ?case
  proof (cases a)
    case (Push x)
    with Cons.prems(2) obtain q1 where "push x q = Inr q1"
      and r: "fifo_run push pop ops q1 = Inr (out, q')" by auto
    with push_Inr [OF Cons.prems(1)] have "inv q1" "elems q1 = elems q @ [x]" by auto
    with Cons.IH [OF _ r] Push show ?thesis by simp
  next
    case Pop
    with Cons.prems(2) obtain x q1 out1 where p: "pop q = Inr (x, q1)"
      and r: "fifo_run push pop ops q1 = Inr (out1, q')" and out: "out = x # out1"
      by (auto simp: rbind_eq_Inr split: prod.splits)
    from pop_Inr [OF Cons.prems(1) p] have "inv q1" "elems q = x # elems q1" by auto
    with Cons.IH [OF _ r] Pop out show ?thesis by simp
  qed
qed

end

end
