(* ===== verification/CircularDeque.thy ===== *)
theory CircularDeque
  imports Fifo
begin

text \<open>
  \<open>CircularDeque<T, LEN>\<close> of \<open>src/src/common/CircularDeque.h\<close>: a deque of at most \<open>LEN\<close> objects
  in a fixed block, used as the frame queue of the decoders.

  \<open>storage\<close> is the raw block: slot \<open>i\<close> is \<open>Some x\<close> while an object lives there and \<open>None\<close> while
  it is raw memory, so that reading or destroying a slot without an object is \<open>Undef\<close>. The template
  parameter \<open>LEN\<close> is an argument; the class asserts that \<open>2 * LEN + 1\<close> does not overflow, so its
  index sums need no wrap-around.
\<close>

record 'a circular_deque =
  first :: nat
  dsize :: nat
  storage :: "'a option list"

definition cd_new :: "nat \<Rightarrow> 'a circular_deque" where
  "cd_new LEN = \<lparr>first = 0, dsize = 0, storage = replicate LEN None\<rparr>"

definition cd_empty :: "'a circular_deque \<Rightarrow> bool" where
  "cd_empty d \<longleftrightarrow> dsize d = 0"

definition cd_full :: "nat \<Rightarrow> 'a circular_deque \<Rightarrow> bool" where
  "cd_full LEN d \<longleftrightarrow> dsize d \<ge> LEN"

definition read_slot :: "'a circular_deque \<Rightarrow> nat \<Rightarrow> 'a res" where
  "read_slot d i =
     (if i < length (storage d)
      then (case storage d ! i of None \<Rightarrow> Inl Undef | Some x \<Rightarrow> Inr x) else Inl Undef)"

definition deque_front :: "'a circular_deque \<Rightarrow> 'a res" where
  "deque_front d = (if cd_empty d then error_quit ''front() called on an empty queue''
              else read_slot d (first d))"

definition deque_back :: "nat \<Rightarrow> 'a circular_deque \<Rightarrow> 'a res" where
  "deque_back LEN d = (if cd_empty d then error_quit ''back() called on an empty queue''
                 else read_slot d ((first d + dsize d - 1) mod LEN))"

definition pop_front :: "nat \<Rightarrow> 'a circular_deque \<Rightarrow> 'a circular_deque res" where
  "pop_front LEN d =
     (if cd_empty d then error_quit ''pop() called on an empty queue''
      else rbind (deque_front d) (\<lambda>_.
        Inr (d\<lparr>storage := (storage d)[first d := None],
               first := (first d + 1) mod LEN, dsize := dsize d - 1\<rparr>)))"

definition pop_back :: "nat \<Rightarrow> 'a circular_deque \<Rightarrow> 'a circular_deque res" where
  "pop_back LEN d =
     (if cd_empty d then error_quit ''pop() called on an empty queue''
      else rbind (deque_back LEN d) (\<lambda>_.
        Inr (d\<lparr>storage := (storage d)[(first d + dsize d - 1) mod LEN := None],
               dsize := dsize d - 1\<rparr>)))"

definition push_front :: "nat \<Rightarrow> 'a \<Rightarrow> 'a circular_deque \<Rightarrow> 'a circular_deque res" where
  "push_front LEN x d =
     (if cd_full LEN d then error_quit ''push() called on a full queue''
      else (let first' = (first d + LEN + 1) mod LEN
            in Inr (d\<lparr>first := first', storage := (storage d)[first' := Some x],
                      dsize := dsize d + 1\<rparr>)))"

definition push_back :: "nat \<Rightarrow> 'a \<Rightarrow> 'a circular_deque \<Rightarrow> 'a circular_deque res" where
  "push_back LEN x d =
     (if cd_full LEN d then error_quit ''push() called on a full queue''
      else Inr (d\<lparr>storage := (storage d)[(first d + dsize d) mod LEN := Some x],
                  dsize := dsize d + 1\<rparr>))"

fun destroy_loop :: "nat \<Rightarrow> nat \<Rightarrow> nat \<Rightarrow> 'a option list \<Rightarrow> 'a option list" where
  "destroy_loop LEN fst' 0 st = st"
| "destroy_loop LEN fst' (Suc i) st = (destroy_loop LEN fst' i st)[(fst' + i) mod LEN := None]"

definition cd_clear :: "nat \<Rightarrow> 'a circular_deque \<Rightarrow> 'a circular_deque" where
  "cd_clear LEN d = d\<lparr>storage := destroy_loop LEN (first d) (dsize d) (storage d), first := 0, dsize := 0\<rparr>"

text \<open>
  The worker's step "take the front object, then drop it", as \<open>readSoftware\<close> of the decoders
  does with \<open>std::move(frameQueue.front()); frameQueue.pop_front()\<close>.
\<close>

definition take_front :: "nat \<Rightarrow> 'a circular_deque \<Rightarrow> ('a \<times> 'a circular_deque) res" where
  "take_front LEN d = rbind (deque_front d) (\<lambda>x. rbind (pop_front LEN d) (\<lambda>d'. Inr (x, d')))"

subsection \<open>Invariant and abstraction\<close>

text \<open>
  The live slots are exactly the window of \<open>dsize\<close> slots that starts at \<open>first\<close>.
\<close>

definition cd_inv :: "nat \<Rightarrow> 'a circular_deque \<Rightarrow> bool" where
  "cd_inv LEN d \<longleftrightarrow> length (storage d) = LEN \<and> first d < LEN \<and> dsize d \<le> LEN \<and>
     (\<forall>i<LEN. (storage d ! ((first d + i) mod LEN) \<noteq> None) = (i < dsize d))"

definition cd_list :: "nat \<Rightarrow> 'a circular_deque \<Rightarrow> 'a list" where
  "cd_list LEN d = map (\<lambda>i. the (storage d ! ((first d + i) mod LEN))) [0..<dsize d]"

lemma cd_new_inv: "0 < LEN \<Longrightarrow> cd_inv LEN (cd_new LEN) \<and> cd_list LEN (cd_new LEN) = []"
  by (simp add: cd_inv_def cd_new_def cd_list_def)

lemma cd_list_length [simp]: "length (cd_list LEN d) = dsize d"
  by (simp add: cd_list_def)

lemma cd_list_Nil_iff: "cd_list LEN d = [] \<longleftrightarrow> dsize d = 0"
  by (simp add: cd_list_def)

lemma cd_inv_live:
  "cd_inv LEN d \<Longrightarrow> i < LEN \<Longrightarrow> (storage d ! ((first d + i) mod LEN) \<noteq> None) = (i < dsize d)"
  by (simp add: cd_inv_def)

lemma cd_invI:
  "length (storage d) = LEN \<Longrightarrow> first d < LEN \<Longrightarrow> dsize d \<le> LEN \<Longrightarrow>
    (\<And>i. i < LEN \<Longrightarrow> (storage d ! ((first d + i) mod LEN) \<noteq> None) = (i < dsize d)) \<Longrightarrow> cd_inv LEN d"
  by (simp add: cd_inv_def)

lemma cd_slot_live:
  assumes "cd_inv LEN d" and "i < dsize d"
  shows "storage d ! ((first d + i) mod LEN) = Some (cd_list LEN d ! i)"
proof -
  have "i < LEN" using assms by (simp add: cd_inv_def)
  with assms have "storage d ! ((first d + i) mod LEN) \<noteq> None" by (simp add: cd_inv_def)
  with assms(2) show ?thesis by (simp add: cd_list_def)
qed

lemma window_inj:
  "f < n \<Longrightarrow> i < n \<Longrightarrow> j < n \<Longrightarrow> ((f + i) mod n = (f + j) mod n) = (i = j)" for f i j n :: nat
  by (auto simp: mod_below_twice split: if_splits)

lemma push_back_inv:
  assumes "cd_inv LEN d" and "dsize d < LEN"
  shows "\<exists>d'. push_back LEN x d = Inr d' \<and> cd_inv LEN d' \<and> cd_list LEN d' = cd_list LEN d @ [x]"
proof -
  let ?k = "(first d + dsize d) mod LEN"
  let ?d = "d\<lparr>storage := (storage d)[?k := Some x], dsize := dsize d + 1\<rparr>"
  have k: "?k < length (storage d)" using assms by (simp add: cd_inv_def)
  have upd: "(storage d)[?k := Some x] ! ((first d + i) mod LEN)
      = (if i = dsize d then Some x else storage d ! ((first d + i) mod LEN))" if "i < LEN" for i
    using that assms k window_inj [of "first d" LEN i "dsize d"]
    by (auto simp: cd_inv_def nth_list_update)
  have "cd_inv LEN ?d" using assms upd by (auto simp: cd_inv_def)
  moreover have "cd_list LEN ?d = cd_list LEN d @ [x]"
    using assms upd by (auto simp: cd_list_def cd_inv_def intro!: map_cong)
  ultimately show ?thesis using assms(2) by (simp add: push_back_def cd_full_def)
qed

lemma front_eq: "cd_inv LEN d \<Longrightarrow> cd_list LEN d = x # xs \<Longrightarrow> deque_front d = Inr x"
proof -
  assume i: "cd_inv LEN d" and l: "cd_list LEN d = x # xs"
  from l have pos: "0 < dsize d" using cd_list_length [of LEN d] by simp
  with cd_slot_live [OF i, of 0] i l show ?thesis
    by (simp add: deque_front_def cd_empty_def read_slot_def cd_inv_def)
qed

lemma back_eq: "cd_inv LEN d \<Longrightarrow> cd_list LEN d \<noteq> [] \<Longrightarrow> deque_back LEN d = Inr (last (cd_list LEN d))"
proof -
  assume i: "cd_inv LEN d" and l: "cd_list LEN d \<noteq> []"
  then have pos: "0 < dsize d" by (simp add: cd_list_Nil_iff)
  then have e: "first d + dsize d - 1 = first d + (dsize d - 1)" by simp
  have "(first d + dsize d - 1) mod LEN < length (storage d)" using i by (simp add: cd_inv_def)
  with cd_slot_live [OF i, of "dsize d - 1"] pos l show ?thesis
    by (simp add: deque_back_def cd_empty_def read_slot_def e last_conv_nth)
qed

lemma pop_front_inv:
  assumes i: "cd_inv LEN d" and l: "cd_list LEN d = x # xs"
  shows "\<exists>d'. pop_front LEN d = Inr d' \<and> cd_inv LEN d' \<and> cd_list LEN d' = xs"
proof -
  from l have pos: "0 < dsize d" using cd_list_length [of LEN d] by simp
  let ?f = "(first d + 1) mod LEN"
  let ?d = "d\<lparr>storage := (storage d)[first d := None], first := ?f, dsize := dsize d - 1\<rparr>"
  have f: "first d < LEN" "length (storage d) = LEN" "dsize d \<le> LEN" using i by (simp_all add: cd_inv_def)
  have slot: "(?f + k) mod LEN = (first d + Suc k) mod LEN" for k by (simp add: mod_simps)
  have upd: "(storage d)[first d := None] ! ((?f + k) mod LEN)
      = (if Suc k = LEN then None else storage d ! ((first d + Suc k) mod LEN))" if "k < LEN" for k
    using that f window_inj [of "first d" LEN 0 "Suc k"] slot [of k]
    by (cases "Suc k = LEN") (auto simp: nth_list_update)
  have "cd_inv LEN ?d"
  proof (rule cd_invI)
    fix k assume k: "k < LEN"
    show "(storage ?d ! ((first ?d + k) mod LEN) \<noteq> None) = (k < dsize ?d)"
    proof (cases "Suc k = LEN")
      case True
      with upd [OF k] f pos show ?thesis by simp
    next
      case False
      with k have "Suc k < LEN" by simp
      from cd_inv_live [OF i this] False upd [OF k] pos show ?thesis by auto
    qed
  qed (use f in simp_all)
  moreover have "cd_list LEN ?d = tl (cd_list LEN d)"
  proof (rule nth_equalityI)
    show "length (cd_list LEN ?d) = length (tl (cd_list LEN d))" by simp
    fix k assume "k < length (cd_list LEN ?d)"
    then have k: "k < dsize d - 1" by simp
    then have "k < LEN" "Suc k \<noteq> LEN" "Suc k < dsize d" using f by simp_all
    with upd [of k] k show "cd_list LEN ?d ! k = tl (cd_list LEN d) ! k"
      by (simp add: cd_list_def nth_tl)
  qed
  ultimately show ?thesis
    using front_eq [OF i l] pos l by (simp add: pop_front_def cd_empty_def)
qed

lemma pop_back_inv:
  assumes i: "cd_inv LEN d" and ne: "cd_list LEN d \<noteq> []"
  shows "\<exists>d'. pop_back LEN d = Inr d' \<and> cd_inv LEN d' \<and> cd_list LEN d' = butlast (cd_list LEN d)"
proof -
  from ne have pos: "0 < dsize d" by (simp add: cd_list_Nil_iff)
  let ?k = "(first d + (dsize d - 1)) mod LEN"
  let ?d = "d\<lparr>storage := (storage d)[?k := None], dsize := dsize d - 1\<rparr>"
  have f: "first d < LEN" "length (storage d) = LEN" "dsize d \<le> LEN" using i by (simp_all add: cd_inv_def)
  have upd: "(storage d)[?k := None] ! ((first d + j) mod LEN)
      = (if j = dsize d - 1 then None else storage d ! ((first d + j) mod LEN))" if "j < LEN" for j
  proof -
    have "dsize d - 1 < LEN" using f pos by simp
    with that f window_inj [of "first d" LEN "dsize d - 1" j] show ?thesis by (auto simp: nth_list_update)
  qed
  have "cd_inv LEN ?d"
  proof (rule cd_invI)
    fix j assume j: "j < LEN"
    from upd [OF j] cd_inv_live [OF i j] pos
    show "(storage ?d ! ((first ?d + j) mod LEN) \<noteq> None) = (j < dsize ?d)" by auto
  qed (use f pos in simp_all)
  moreover have "cd_list LEN ?d = butlast (cd_list LEN d)"
    using f upd by (auto simp: cd_list_def nth_butlast intro!: nth_equalityI)
  moreover have "first d + dsize d - 1 = first d + (dsize d - 1)" using pos by simp
  ultimately show ?thesis
    using back_eq [OF i ne] pos by (simp add: pop_back_def cd_empty_def)
qed

lemma destroy_loop_length [simp]: "length (destroy_loop LEN f n st) = length st"
  by (induction n) auto

lemma destroy_loop_nth:
  "length st = LEN \<Longrightarrow> f < LEN \<Longrightarrow> n \<le> LEN \<Longrightarrow> j < LEN \<Longrightarrow>
     destroy_loop LEN f n st ! ((f + j) mod LEN) = (if j < n then None else st ! ((f + j) mod LEN))"
proof (induction n)
  case 0
  then show ?case by simp
next
  case (Suc n)
  have "((f + n) mod LEN = (f + j) mod LEN) = (n = j)" using Suc.prems by (intro window_inj) auto
  with Suc show ?case by (auto simp: nth_list_update)
qed

text \<open>\<open>clear\<close> destroys every object: afterwards no slot is live, wherever the window was.\<close>

lemma cd_clear_inv:
  assumes "cd_inv LEN d"
  shows "cd_inv LEN (cd_clear LEN d) \<and> cd_list LEN (cd_clear LEN d) = [] \<and>
    set (storage (cd_clear LEN d)) = {None}"
proof -
  let ?st = "destroy_loop LEN (first d) (dsize d) (storage d)"
  have f: "first d < LEN" "length (storage d) = LEN" "dsize d \<le> LEN" using assms by (simp_all add: cd_inv_def)
  have none: "?st ! j = None" if "j < LEN" for j
  proof -
    let ?i = "(j + LEN - first d) mod LEN"
    have "(first d + ?i) mod LEN = j" using that f by (simp add: mod_simps)
    moreover have "?i < LEN" using f by simp
    moreover have "storage d ! ((first d + ?i) mod LEN) = None" if "\<not> ?i < dsize d"
      using cd_inv_live [OF assms \<open>?i < LEN\<close>] that by simp
    ultimately show ?thesis using destroy_loop_nth [OF f(2) f(1) f(3), of ?i] by (metis (full_types))
  qed
  have "cd_inv LEN (cd_clear LEN d)" using f none by (auto simp: cd_inv_def cd_clear_def)
  moreover have "set ?st = {None}"
  proof -
    have "0 < length ?st" using f by simp
    then show ?thesis using none f by (fastforce simp: in_set_conv_nth set_eq_iff)
  qed
  ultimately show ?thesis by (simp add: cd_clear_def cd_list_def)
qed

subsection \<open>A bounded queue\<close>

lemma cd_fifo: "0 < LEN \<Longrightarrow> fifo (cd_inv LEN) (cd_list LEN) LEN (push_back LEN) (take_front LEN)"
proof unfold_locales
  fix q :: "'a circular_deque" and x and xs
  assume i: "cd_inv LEN q"
  show "length (cd_list LEN q) \<le> LEN" using i by (simp add: cd_inv_def)
  show "length (cd_list LEN q) < LEN \<Longrightarrow>
      \<exists>q'. push_back LEN x q = Inr q' \<and> cd_inv LEN q' \<and> cd_list LEN q' = cd_list LEN q @ [x]"
    using push_back_inv [OF i] by simp
  show "length (cd_list LEN q) = LEN \<Longrightarrow> \<exists>e. push_back LEN x q = Inl e"
    by (simp add: push_back_def cd_full_def error_quit_def)
  show "cd_list LEN q = x # xs \<Longrightarrow>
      \<exists>q'. take_front LEN q = Inr (x, q') \<and> cd_inv LEN q' \<and> cd_list LEN q' = xs"
    using pop_front_inv [OF i] front_eq [OF i] by (force simp: take_front_def)
  show "cd_list LEN q = [] \<Longrightarrow> \<exists>e. take_front LEN q = Inl e"
    using cd_list_length [of LEN q]
    by (simp add: take_front_def deque_front_def cd_empty_def error_quit_def)
qed

interpretation cd: fifo "cd_inv (Suc n)" "cd_list (Suc n)" "Suc n" "push_back (Suc n)" "take_front (Suc n)" for n
  by (rule cd_fifo) simp

subsection \<open>Properties\<close>

text \<open>The frame queue is first in, first out. Under every schedule of \<open>push_back\<close> and "take the
  front" that runs without a fault, what was taken followed by what is still queued is what was queued
  before followed by what was pushed.\<close>

lemma deque_order:
  assumes "cd_inv (Suc n) d" and "fifo_run (push_back (Suc n)) (take_front (Suc n)) ops d = Inr (out, d')"
  shows "cd_inv (Suc n) d' \<and> out @ cd_list (Suc n) d' = cd_list (Suc n) d @ pushed ops"
  using assms by (rule cd.fifo_run_order)

theorem deque_order_witness:
  "\<exists>d'. fifo_run (push_back 2) (take_front 2) [Push True, Push False, Pop, Push True, Pop] (cd_new 2) = Inr ([True, False], d')
     \<and> cd_list 2 d' = [True]"
proof -
  have i: "cd_inv (Suc 1) (cd_new (Suc 1))" by (rule conjunct1 [OF cd_new_inv]) simp
  obtain d' where r: "fifo_run (push_back (Suc 1)) (take_front (Suc 1)) [Push True, Push False, Pop, Push True, Pop] (cd_new (Suc 1))
      = Inr ([True, False], d')"
    by (simp add: push_back_def take_front_def deque_front_def pop_front_def cd_new_def cd_full_def cd_empty_def read_slot_def)
  have e: "cd_list (Suc 1) (cd_new (Suc 1)) = ([] :: bool list)" by (rule conjunct2 [OF cd_new_inv]) simp
  from deque_order [OF i r] e r show ?thesis
    unfolding numeral_2_eq_2 One_nat_def by auto
qed

text \<open>\<open>push_front\<close> is wrong. It moves the window one slot forwards instead of backwards: pushing
  onto a queue that is not empty and has two free slots succeeds, but the queue then ends in a slot where
  no object lives, and \<open>back()\<close> reads raw memory.\<close>

lemma push_front_breaks:
  assumes i: "cd_inv LEN d" and "0 < dsize d" and "dsize d + 1 < LEN"
  shows "\<exists>d'. push_front LEN x d = Inr d' \<and> deque_front d' = Inr x \<and> deque_back LEN d' = Inl Undef \<and> \<not> cd_inv LEN d'"
proof -
  let ?f = "(first d + LEN + 1) mod LEN"
  let ?d = "d\<lparr>first := ?f, storage := (storage d)[?f := Some x], dsize := dsize d + 1\<rparr>"
  have f: "first d < LEN" "length (storage d) = LEN" using i by (simp_all add: cd_inv_def)
  have f1: "?f = (first d + 1) mod LEN" by (metis add.assoc add.commute mod_add_self2)
  have bk: "(?f + (dsize d + 1) - 1) mod LEN = (first d + (dsize d + 1)) mod LEN"
    unfolding f1 by (simp add: mod_simps add.commute add.left_commute)
  have raw: "storage d ! ((first d + (dsize d + 1)) mod LEN) = None"
    using cd_inv_live [OF i assms(3)] by simp
  have apart: "(first d + (dsize d + 1)) mod LEN \<noteq> ?f"
    using window_inj [of "first d" LEN "dsize d + 1" 1] f assms(2,3) unfolding f1 by auto
  have back_raw: "storage ?d ! ((first ?d + dsize ?d - 1) mod LEN) = None"
    using bk raw apart f by simp
  have "push_front LEN x d = Inr ?d" using assms(3) by (simp add: push_front_def cd_full_def Let_def)
  moreover have "deque_front ?d = Inr x" using f assms(3) by (simp add: deque_front_def cd_empty_def read_slot_def)
  moreover have "deque_back LEN ?d = Inl Undef"
    using back_raw f assms(3) by (simp add: deque_back_def cd_empty_def read_slot_def split: option.splits)
  moreover have "\<not> cd_inv LEN ?d"
  proof
    assume "cd_inv LEN ?d"
    from cd_inv_live [OF this, of "dsize d"] back_raw assms(3) show False by simp
  qed
  ultimately show ?thesis by blast
qed

theorem push_front_breaks_witness:
  "\<exists>d'. push_front 4 (2::nat) \<lparr>first = 0, dsize = 1, storage = [Some 1, None, None, None]\<rparr> = Inr d' \<and>
     deque_front d' = Inr 2 \<and> deque_back 4 d' = Inl Undef \<and> \<not> cd_inv 4 d'"
proof -
  let ?d = "\<lparr>first = 0, dsize = 1, storage = [Some (1::nat), None, None, None]\<rparr>"
  have "cd_inv 4 ?d"
  proof -
    have "(storage ?d ! ((first ?d + i) mod 4) \<noteq> None) = (i < dsize ?d)" if "i < 4" for i
    proof -
      from that have "i = 0 \<or> i = 1 \<or> i = 2 \<or> i = 3" by auto
      then show ?thesis by (elim disjE) simp_all
    qed
    then show ?thesis by (simp add: cd_inv_def)
  qed
  from push_front_breaks [OF this, of 2] show ?thesis by simp
qed

end
