(* ===== verification/RingBuffer.thy ===== *)
theory RingBuffer
  imports Fifo
begin

text \<open>
  \<open>RingBuffer<T, MIN_SIZE>\<close> of \<open>src/src/common/RingBuffer.h\<close>: the sample buffer between the
  Opus decoder thread and the sound card callback of the client.

  \<open>SIZE\<close> (the template constant, a power of two) is an argument of every operation. The \<open>assert\<close>s of
  the source are \<open>c_assert\<close>s, their \<open>size_t\<close> differences are written with \<open>sz_sub\<close>, and every
  \<open>memcpy\<close> is a \<open>blit\<close> or \<open>read_block\<close>, undefined outside \<open>buffer\<close>. \<open>rb_list\<close> is the abstraction:
  the samples that are buffered, oldest first.
\<close>

record 'a ring_buffer =
  readPos :: nat
  bufferSize :: nat
  buffer :: "'a list"

definition available :: "nat \<Rightarrow> 'a ring_buffer \<Rightarrow> nat" where
  "available SIZE rb = sz_sub SIZE (bufferSize rb)"

definition rb_clear :: "'a ring_buffer \<Rightarrow> 'a ring_buffer" where
  "rb_clear rb = rb\<lparr>readPos := 0, bufferSize := 0\<rparr>"

definition rb_drop :: "nat \<Rightarrow> nat \<Rightarrow> 'a ring_buffer \<Rightarrow> 'a ring_buffer res" where
  "rb_drop SIZE amount rb =
     rbind (c_assert (bufferSize rb \<ge> amount)) (\<lambda>_.
       Inr (rb\<lparr>readPos := (readPos rb + amount) mod SIZE, bufferSize := bufferSize rb - amount\<rparr>))"

definition write_one :: "nat \<Rightarrow> 'a \<Rightarrow> 'a ring_buffer \<Rightarrow> 'a ring_buffer res" where
  "write_one SIZE val rb =
     rbind (c_assert (bufferSize rb < SIZE)) (\<lambda>_.
     rbind (blit (buffer rb) ((readPos rb + bufferSize rb) mod SIZE) [val]) (\<lambda>buf.
       Inr (rb\<lparr>buffer := buf, bufferSize := bufferSize rb + 1\<rparr>)))"

definition write_arr :: "nat \<Rightarrow> 'a list \<Rightarrow> 'a ring_buffer \<Rightarrow> 'a ring_buffer res" where
  "write_arr SIZE arr rb =
     (let amount = length arr in
      rbind (c_assert (bufferSize rb \<le> sz_sub SIZE amount)) (\<lambda>_.
        if amount = 0 then Inr rb
        else
          let writePos = (readPos rb + bufferSize rb) mod SIZE;
              endPos = (readPos rb + bufferSize rb + amount) mod SIZE
          in rbind
            (if endPos \<le> writePos
             then (let firstWriteAmount = SIZE - writePos in
                   rbind (blit (buffer rb) writePos (take firstWriteAmount arr)) (\<lambda>buf.
                     blit buf 0 (drop firstWriteAmount arr)))
             else blit (buffer rb) writePos arr)
            (\<lambda>buf. Inr (rb\<lparr>buffer := buf, bufferSize := bufferSize rb + amount\<rparr>))))"

text \<open>\<open>memcpy\<close> out of the buffer: \<open>n\<close> elements from index \<open>i\<close>.\<close>

definition read_block :: "'a list \<Rightarrow> nat \<Rightarrow> nat \<Rightarrow> 'a list res" where
  "read_block buf i n = (if i + n \<le> length buf then Inr (take n (drop i buf)) else Inl Undef)"

definition read_one :: "nat \<Rightarrow> 'a ring_buffer \<Rightarrow> ('a \<times> 'a ring_buffer) res" where
  "read_one SIZE rb =
     rbind (c_assert (bufferSize rb > 0)) (\<lambda>_.
       if readPos rb < length (buffer rb)
       then Inr (buffer rb ! readPos rb,
                 rb\<lparr>readPos := (readPos rb + 1) mod SIZE, bufferSize := bufferSize rb - 1\<rparr>)
       else Inl Undef)"

definition read_arr :: "nat \<Rightarrow> nat \<Rightarrow> 'a ring_buffer \<Rightarrow> ('a list \<times> 'a ring_buffer) res" where
  "read_arr SIZE amount rb =
     rbind (c_assert (bufferSize rb \<ge> amount)) (\<lambda>_.
       if amount = 0 then Inr ([], rb)
       else if SIZE \<le> readPos rb + amount
       then (let firstReadAmount = SIZE - readPos rb;
                 secondReadAmount = amount - firstReadAmount
             in rbind (read_block (buffer rb) (readPos rb) firstReadAmount) (\<lambda>xs.
                rbind (read_block (buffer rb) 0 secondReadAmount) (\<lambda>ys.
                  Inr (xs @ ys, rb\<lparr>readPos := secondReadAmount, bufferSize := bufferSize rb - amount\<rparr>))))
       else rbind (read_block (buffer rb) (readPos rb) amount) (\<lambda>xs.
              Inr (xs, rb\<lparr>readPos := readPos rb + amount, bufferSize := bufferSize rb - amount\<rparr>)))"

subsection \<open>Invariant and abstraction\<close>

definition rb_inv :: "nat \<Rightarrow> 'a ring_buffer \<Rightarrow> bool" where
  "rb_inv SIZE rb \<longleftrightarrow> length (buffer rb) = SIZE \<and> readPos rb < SIZE \<and> bufferSize rb \<le> SIZE \<and>
     2 * SIZE < SIZE_T_MOD"

definition rb_list :: "nat \<Rightarrow> 'a ring_buffer \<Rightarrow> 'a list" where
  "rb_list SIZE rb = map (\<lambda>i. buffer rb ! ((readPos rb + i) mod SIZE)) [0..<bufferSize rb]"

lemma rb_list_length [simp]: "length (rb_list SIZE rb) = bufferSize rb"
  by (simp add: rb_list_def)

lemma rb_invD:
  assumes "rb_inv SIZE rb"
  shows "length (buffer rb) = SIZE" "readPos rb < SIZE" "bufferSize rb \<le> SIZE" "0 < SIZE"
  using assms by (auto simp: rb_inv_def)

lemma rb_clear_inv: "rb_inv SIZE rb \<Longrightarrow> rb_inv SIZE (rb_clear rb) \<and> rb_list SIZE (rb_clear rb) = []"
  by (auto simp: rb_inv_def rb_clear_def rb_list_def)

lemma rb_drop_list:
  assumes "rb_inv SIZE rb" and "n \<le> bufferSize rb"
  shows "\<exists>rb'. rb_drop SIZE n rb = Inr rb' \<and> rb_inv SIZE rb' \<and> rb_list SIZE rb' = drop n (rb_list SIZE rb)"
proof -
  let ?rb = "rb\<lparr>readPos := (readPos rb + n) mod SIZE, bufferSize := bufferSize rb - n\<rparr>"
  have "rb_list SIZE ?rb = drop n (rb_list SIZE rb)"
    by (rule nth_equalityI) (auto simp: rb_list_def mod_simps add.assoc)
  moreover have "rb_inv SIZE ?rb" using assms by (auto simp: rb_inv_def)
  ultimately show ?thesis using assms(2) by (simp add: rb_drop_def)
qed

text \<open>
  A new block \<open>buf\<close> appends \<open>arr\<close> when, counted from the write position, its first cells hold
  \<open>arr\<close> and the others are the old ones.
\<close>

definition cells_written :: "nat \<Rightarrow> nat \<Rightarrow> 'a list \<Rightarrow> 'a list \<Rightarrow> 'a list \<Rightarrow> bool" where
  "cells_written SIZE w arr old buf \<longleftrightarrow> length buf = SIZE \<and>
     (\<forall>k<SIZE. buf ! ((w + k) mod SIZE) = (if k < length arr then arr ! k else old ! ((w + k) mod SIZE)))"

lemma cells_written_plain:
  "length old = SIZE \<Longrightarrow> w + length arr < SIZE \<Longrightarrow> cells_written SIZE w arr old (overwrite old w arr)"
  by (auto simp: cells_written_def nth_overwrite mod_below_twice)

lemma cells_written_wrapped:
  assumes "length old = SIZE" and "w < SIZE" and "length arr \<le> SIZE" and "SIZE - w \<le> length arr"
  shows "cells_written SIZE w arr old
    (overwrite (overwrite old w (take (SIZE - w) arr)) 0 (drop (SIZE - w) arr))"
  using assms by (auto simp: cells_written_def nth_overwrite mod_below_twice)

lemma rb_list_append:
  assumes inv: "rb_inv SIZE rb" and room: "bufferSize rb + length arr \<le> SIZE"
    and cells: "cells_written SIZE ((readPos rb + bufferSize rb) mod SIZE) arr (buffer rb) buf"
  shows "rb_inv SIZE (rb\<lparr>buffer := buf, bufferSize := bufferSize rb + length arr\<rparr>) \<and>
    rb_list SIZE (rb\<lparr>buffer := buf, bufferSize := bufferSize rb + length arr\<rparr>) = rb_list SIZE rb @ arr"
proof
  let ?rb = "rb\<lparr>buffer := buf, bufferSize := bufferSize rb + length arr\<rparr>"
  note [simp] = rb_invD [OF inv]
  show "rb_inv SIZE ?rb" using inv room cells by (simp add: rb_inv_def cells_written_def)
  have cell: "buf ! ((readPos rb + bufferSize rb + k) mod SIZE) =
      (if k < length arr then arr ! k else buffer rb ! ((readPos rb + bufferSize rb + k) mod SIZE))"
    if "k < SIZE" for k
    using cells that by (auto simp: cells_written_def mod_simps)
  have old: "buf ! ((readPos rb + i) mod SIZE) = buffer rb ! ((readPos rb + i) mod SIZE)"
    if "i < bufferSize rb" for i
  proof -
    have "readPos rb + bufferSize rb + (SIZE + i - bufferSize rb) = readPos rb + i + SIZE"
      using that room by simp
    then have "(readPos rb + bufferSize rb + (SIZE + i - bufferSize rb)) mod SIZE = (readPos rb + i) mod SIZE"
      by (metis mod_add_self2)
    moreover have "SIZE + i - bufferSize rb < SIZE" "length arr \<le> SIZE + i - bufferSize rb"
      using that room by simp_all
    ultimately show ?thesis using cell [of "SIZE + i - bufferSize rb"] by (metis not_le)
  qed
  have new: "buf ! ((readPos rb + i) mod SIZE) = arr ! (i - bufferSize rb)"
    if "bufferSize rb \<le> i" "i < bufferSize rb + length arr" for i
  proof -
    have "i - bufferSize rb < SIZE" "i - bufferSize rb < length arr"
      "readPos rb + bufferSize rb + (i - bufferSize rb) = readPos rb + i"
      using that room by linarith+
    with cell [of "i - bufferSize rb"] show ?thesis by simp
  qed
  show "rb_list SIZE ?rb = rb_list SIZE rb @ arr"
    by (rule nth_equalityI) (use old new in \<open>auto simp: rb_list_def nth_append\<close>)
qed

lemma write_arr_list:
  assumes inv: "rb_inv SIZE rb" and room: "bufferSize rb + length arr \<le> SIZE"
  shows "\<exists>rb'. write_arr SIZE arr rb = Inr rb' \<and> rb_inv SIZE rb' \<and> rb_list SIZE rb' = rb_list SIZE rb @ arr"
proof (cases "arr = []")
  case True
  with inv show ?thesis by (simp add: write_arr_def rb_inv_def)
next
  case False
  note [simp] = rb_invD [OF inv]
  let ?w = "(readPos rb + bufferSize rb) mod SIZE"
  let ?e = "(?w + length arr) mod SIZE"
  have w: "?w < SIZE" and n: "length arr \<le> SIZE" and ok: "bufferSize rb \<le> sz_sub SIZE (length arr)"
    using room by simp_all
  have e: "(readPos rb + bufferSize rb + length arr) mod SIZE = ?e" by (simp add: mod_simps)
  obtain buf where c: "cells_written SIZE ?w arr (buffer rb) buf"
    and run: "write_arr SIZE arr rb = Inr (rb\<lparr>buffer := buf, bufferSize := bufferSize rb + length arr\<rparr>)"
  proof (cases "?e \<le> ?w")
    case True
    let ?b1 = "overwrite (buffer rb) ?w (take (SIZE - ?w) arr)"
    have f: "SIZE - ?w \<le> length arr"
      using True w n False by (auto simp: mod_below_twice split: if_splits)
    have b1: "blit (buffer rb) ?w (take (SIZE - ?w) arr) = Inr ?b1" "length ?b1 = SIZE"
      using w f by (simp_all add: blit_def min_absorb2)
    have "blit ?b1 0 (drop (SIZE - ?w) arr) = Inr (overwrite ?b1 0 (drop (SIZE - ?w) arr))"
    proof (rule blit_Inr)
      have "length (drop (SIZE - ?w) arr) \<le> length arr" by (simp only: length_drop diff_le_self)
      with n have "length (drop (SIZE - ?w) arr) \<le> SIZE" by (rule order_trans [rotated])
      then show "0 + length (drop (SIZE - ?w) arr) \<le> length ?b1" unfolding b1(2) by linarith
    qed
    with b1 True False ok e that [OF cells_written_wrapped [OF _ w n f]] show ?thesis
      by (simp add: write_arr_def Let_def)
  next
    case noWrap: False
    have fit: "?w + length arr < SIZE"
      using noWrap w n by (auto simp: mod_below_twice split: if_splits)
    with noWrap False ok e that [OF cells_written_plain [OF _ fit]] show ?thesis
      by (simp add: write_arr_def Let_def blit_def)
  qed
  with rb_list_append [OF inv room c] show ?thesis by blast
qed

lemma read_arr_list:
  assumes inv: "rb_inv SIZE rb" and n: "n \<le> bufferSize rb"
  shows "\<exists>rb'. read_arr SIZE n rb = Inr (take n (rb_list SIZE rb), rb') \<and> rb_inv SIZE rb' \<and>
    rb_list SIZE rb' = drop n (rb_list SIZE rb)"
proof (cases "n = 0")
  case True
  with inv show ?thesis by (simp add: read_arr_def rb_inv_def)
next
  case False
  note [simp] = rb_invD [OF inv]
  from rb_drop_list [OF inv n] n have d: "rb_inv SIZE (rb\<lparr>readPos := (readPos rb + n) mod SIZE, bufferSize := bufferSize rb - n\<rparr>)"
    "rb_list SIZE (rb\<lparr>readPos := (readPos rb + n) mod SIZE, bufferSize := bufferSize rb - n\<rparr>) = drop n (rb_list SIZE rb)"
    by (simp_all add: rb_drop_def)
  have le: "n \<le> SIZE" using n rb_invD(3) [OF inv] by linarith
  show ?thesis
  proof (cases "SIZE \<le> readPos rb + n")
    case True
    let ?f = "SIZE - readPos rb"
    have "readPos rb + n < 2 * SIZE" "readPos rb + n - SIZE = n - ?f"
      using le rb_invD(2) [OF inv] by linarith+
    then have pos: "(readPos rb + n) mod SIZE = n - ?f" using True by (simp add: mod_below_twice)
    have wrap: "(readPos rb + i) mod SIZE = (if i < ?f then readPos rb + i else i - ?f)" if "i < n" for i
    proof -
      have "readPos rb + i < 2 * SIZE" "readPos rb + i - SIZE = i - ?f" "(readPos rb + i < SIZE) = (i < ?f)"
        using le that rb_invD(2) [OF inv] by linarith+
      then show ?thesis by (simp add: mod_below_twice)
    qed
    have "take ?f (drop (readPos rb) (buffer rb)) @ take (n - ?f) (buffer rb) = take n (rb_list SIZE rb)"
      by (rule nth_equalityI) (use True n le wrap in \<open>auto simp: rb_list_def nth_append\<close>)
    moreover have "n - ?f \<le> SIZE" "readPos rb + ?f = SIZE" "n - ?f = n + readPos rb - SIZE"
      using le rb_invD(2) [OF inv] by linarith+
    ultimately show ?thesis using True False n d pos
      by (simp add: read_arr_def Let_def read_block_def)
  next
    case noWrap: False
    have "take n (drop (readPos rb) (buffer rb)) = take n (rb_list SIZE rb)"
      by (rule nth_equalityI) (use noWrap n in \<open>auto simp: rb_list_def\<close>)
    with noWrap False n d show ?thesis by (simp add: read_arr_def read_block_def)
  qed
qed

subsection \<open>A bounded queue\<close>

text \<open>One element at a time, both entry points agree with the block operations.\<close>

lemma write_one_arr: "rb_inv SIZE rb \<Longrightarrow> bufferSize rb < SIZE \<Longrightarrow> write_one SIZE x rb = write_arr SIZE [x] rb"
proof -
  assume inv: "rb_inv SIZE rb" and room: "bufferSize rb < SIZE"
  note [simp] = rb_invD [OF inv]
  let ?w = "(readPos rb + bufferSize rb) mod SIZE"
  have w: "?w < SIZE" by simp
  have "bufferSize rb \<le> sz_sub SIZE 1" using room by simp
  moreover obtain m where "SIZE - ?w = Suc m" using w by (metis Suc_diff_Suc)
  moreover from this have "take (SIZE - ?w) [x] = [x]" "drop (SIZE - ?w) [x] = []" by simp_all
  ultimately show ?thesis using w room
    by (simp add: write_one_def write_arr_def Let_def blit_def)
qed

lemma read_one_arr: "rb_inv SIZE rb \<Longrightarrow> 0 < bufferSize rb \<Longrightarrow>
    read_one SIZE rb = rbind (read_arr SIZE 1 rb) (\<lambda>(xs, rb'). Inr (hd xs, rb'))"
proof -
  assume inv: "rb_inv SIZE rb" and ne: "0 < bufferSize rb"
  note [simp] = rb_invD [OF inv]
  have t: "take (Suc 0) (drop (readPos rb) (buffer rb)) = [buffer rb ! readPos rb]"
    by (simp add: take_Suc_conv_app_nth less_imp_le)
  show ?thesis
  proof (cases "SIZE \<le> readPos rb + 1")
    case True
    then have "SIZE = Suc (readPos rb)" using rb_invD(2) [OF inv] by linarith
    with ne t show ?thesis by (simp add: read_one_def read_arr_def Let_def read_block_def)
  next
    case False
    with ne t show ?thesis by (simp add: read_one_def read_arr_def read_block_def)
  qed
qed

lemma rb_fifo: "fifo (rb_inv SIZE) (rb_list SIZE) SIZE (write_one SIZE) (read_one SIZE)"
proof unfold_locales
  fix q :: "'a ring_buffer" and x and xs
  assume i: "rb_inv SIZE q"
  show "length (rb_list SIZE q) \<le> SIZE" using i by (simp add: rb_inv_def)
  show "length (rb_list SIZE q) < SIZE \<Longrightarrow>
      \<exists>q'. write_one SIZE x q = Inr q' \<and> rb_inv SIZE q' \<and> rb_list SIZE q' = rb_list SIZE q @ [x]"
    using write_arr_list [OF i, of "[x]"] write_one_arr [OF i, of x] by simp
  show "length (rb_list SIZE q) = SIZE \<Longrightarrow> \<exists>e. write_one SIZE x q = Inl e"
    by (simp add: write_one_def)
  show "rb_list SIZE q = x # xs \<Longrightarrow>
      \<exists>q'. read_one SIZE q = Inr (x, q') \<and> rb_inv SIZE q' \<and> rb_list SIZE q' = xs"
  proof -
    assume l: "rb_list SIZE q = x # xs"
    then have "0 < bufferSize q" using rb_list_length [of SIZE q] by simp
    with read_arr_list [OF i, of 1] read_one_arr [OF i] l show ?thesis by auto
  qed
  show "rb_list SIZE q = [] \<Longrightarrow> \<exists>e. read_one SIZE q = Inl e"
    using rb_list_length [of SIZE q] by (simp add: read_one_def)
qed

interpretation rb: fifo "rb_inv SIZE" "rb_list SIZE" SIZE "write_one SIZE" "read_one SIZE" for SIZE
  by (rule rb_fifo)

text \<open>The same refinement for whole runs of array writes and reads is \<open>write_arr_list\<close> and \<open>read_arr_list\<close>.\<close>

subsection \<open>Properties\<close>

text \<open>C24: the audio buffer refines a queue of samples. \<open>write(arr, n)\<close> succeeds when \<open>n\<close> samples are
  free and appends them, \<open>read(arr, n)\<close> succeeds when \<open>n\<close> are buffered and takes the oldest \<open>n\<close>, wherever
  the window wraps around the block.\<close>

theorem ring_refines_list:
  assumes "rb_inv SIZE rb" and "length xs \<le> available SIZE rb" and "n \<le> bufferSize rb + length xs"
  shows "\<exists>rb1 rb2. write_arr SIZE xs rb = Inr rb1 \<and> read_arr SIZE n rb1 = Inr (take n (rb_list SIZE rb @ xs), rb2) \<and>
    rb_inv SIZE rb2 \<and> rb_list SIZE rb2 = drop n (rb_list SIZE rb @ xs)"
proof -
  have room: "bufferSize rb + length xs \<le> SIZE" using assms(1,2) rb_invD [OF assms(1)] by (simp add: available_def)
  from write_arr_list [OF assms(1)] room obtain rb1 where
    w: "write_arr SIZE xs rb = Inr rb1" "rb_inv SIZE rb1" "rb_list SIZE rb1 = rb_list SIZE rb @ xs" by blast
  have "bufferSize rb1 = bufferSize rb + length xs" using w(3) by (metis length_append rb_list_length)
  with read_arr_list [OF w(2), of n] assms(3) w show ?thesis by auto
qed

theorem ring_refines_list_witness:
  "\<exists>rb1 rb2. write_arr 4 [7, 8::nat] \<lparr>readPos = 3, bufferSize = 1, buffer = [0, 0, 0, 5]\<rparr> = Inr rb1 \<and>
     read_arr 4 2 rb1 = Inr ([5, 7], rb2) \<and> rb_inv 4 rb2 \<and> rb_list 4 rb2 = [8]"
proof -
  let ?rb = "\<lparr>readPos = 3, bufferSize = 1, buffer = [0, 0, 0, 5::nat]\<rparr>"
  have "rb_inv 4 ?rb" by (simp add: rb_inv_def SIZE_T_MOD_def)
  from ring_refines_list [OF this, of "[7, 8]" 2] show ?thesis by (simp add: available_def rb_list_def)
qed

end
