(* ===== verification/Util.thy ===== *)
theory Util
  imports ByteBuffer
begin

text \<open>
  \<open>src/src/common/util.h\<close> and \<open>util.cpp\<close>: string splitting, the constant-time comparison of
  hashes, the compile-time power of two of \<open>RingBuffer\<close>, and whole-file reading and writing.
  (\<open>MinMaxTrackingRingBuffer\<close> and \<open>spinlock\<close> have theories of their own.) The C file functions are
  arguments: a record of what \<open>fopen\<close>, \<open>fseek\<close> and \<open>ftell\<close> answer and what \<open>fread\<close> or
  \<open>fwrite\<close> transfers from a position.
\<close>

unbundle bit_operations_syntax

subsection \<open>stringSplit\<close>

definition substr :: "string \<Rightarrow> nat \<Rightarrow> nat \<Rightarrow> string" where
  "substr str pos n = take n (drop pos str)"

text \<open>The segments in the order the callback receives them.\<close>

function split_loop :: "string \<Rightarrow> char \<Rightarrow> nat \<Rightarrow> nat \<Rightarrow> string list" where
  "split_loop str ch bgn i =
     (if i < length str
      then (if str ! i = ch then substr str bgn (i - bgn) # split_loop str ch (i + 1) (i + 1)
            else split_loop str ch bgn (i + 1))
      else [substr str bgn (length str - bgn)])"
  by pat_completeness auto
termination
  by (relation "measure (\<lambda>(str, ch, bgn, i). length str - i)") auto

declare split_loop.simps [simp del]

definition stringSplit :: "string \<Rightarrow> char \<Rightarrow> string list" where
  "stringSplit str ch = split_loop str ch 0 0"

fun join_with :: "char \<Rightarrow> string list \<Rightarrow> string" where
  "join_with ch [] = []"
| "join_with ch [s] = s"
| "join_with ch (s # t # ss) = s @ ch # join_with ch (t # ss)"

lemma split_loop_nonempty: "split_loop str ch bgn i \<noteq> []"
  by (induction str ch bgn i rule: split_loop.induct) (subst split_loop.simps, simp)

lemma join_with_Cons: "ss \<noteq> [] \<Longrightarrow> join_with ch (s # ss) = s @ ch # join_with ch ss"
  by (cases ss) auto

lemma split_loop_join:
  "bgn \<le> i \<Longrightarrow> i \<le> length str \<Longrightarrow> join_with ch (split_loop str ch bgn i) = drop bgn str"
proof (induction str ch bgn i rule: split_loop.induct)
  case (1 str ch bgn i)
  show ?case
  proof (cases "i < length str \<and> str ! i = ch")
    case True
    with 1 have IH: "join_with ch (split_loop str ch (i + 1) (i + 1)) = drop (i + 1) str" by simp
    have "drop bgn str = take (i - bgn) (drop bgn str) @ drop i str"
      using "1.prems" by (metis append_take_drop_id drop_drop le_add_diff_inverse2)
    also have "drop i str = ch # drop (i + 1) str"
      using True by (simp add: Cons_nth_drop_Suc [symmetric])
    finally show ?thesis using True IH
      by (subst split_loop.simps) (simp add: join_with_Cons [OF split_loop_nonempty] substr_def)
  next
    case False
    with 1 show ?thesis by (subst split_loop.simps) (auto simp: substr_def)
  qed
qed

lemma split_loop_free:
  "bgn \<le> i \<Longrightarrow> ch \<notin> set (take (i - bgn) (drop bgn str)) \<Longrightarrow>
     \<forall>s\<in>set (split_loop str ch bgn i). ch \<notin> set s"
proof (induction str ch bgn i rule: split_loop.induct)
  case (1 str ch bgn i)
  show ?case
  proof (cases "i < length str")
    case True
    have step: "take (i + 1 - bgn) (drop bgn str) = take (i - bgn) (drop bgn str) @ [str ! i]"
      using True "1.prems"(1) by (simp add: take_Suc_conv_app_nth Suc_diff_le)
    show ?thesis
    proof (cases "str ! i = ch")
      case True
      with \<open>i < length str\<close> 1 show ?thesis by (subst split_loop.simps) (simp add: substr_def)
    next
      case False
      with \<open>i < length str\<close> 1 step show ?thesis by (subst split_loop.simps) simp
    qed
  next
    case False
    then have "take (length str - bgn) (drop bgn str) = take (i - bgn) (drop bgn str)" by simp
    with False "1.prems" show ?thesis by (subst split_loop.simps) (auto simp: substr_def)
  qed
qed

text \<open>The segments are the unique way to cut the string at every separator.\<close>

lemma stringSplit_join: "join_with ch (stringSplit str ch) = str"
  using split_loop_join [of 0 0 str ch] by (simp add: stringSplit_def)

lemma stringSplit_free: "s \<in> set (stringSplit str ch) \<Longrightarrow> ch \<notin> set s"
  using split_loop_free [of 0 0 ch str] by (simp add: stringSplit_def)

lemma append_sep_inject:
  "ch \<notin> set s \<Longrightarrow> ch \<notin> set t \<Longrightarrow> s @ ch # xs = t @ ch # ys \<Longrightarrow> s = t \<and> xs = ys"
  by (auto simp: append_eq_append_conv2 Cons_eq_append_conv append_eq_Cons_conv)

lemma join_with_inject:
  "ss \<noteq> [] \<Longrightarrow> ts \<noteq> [] \<Longrightarrow> \<forall>s\<in>set ss. ch \<notin> set s \<Longrightarrow> \<forall>t\<in>set ts. ch \<notin> set t \<Longrightarrow>
     join_with ch ss = join_with ch ts \<Longrightarrow> ss = ts"
proof (induction ss arbitrary: ts)
  case Nil
  then show ?case by simp
next
  case (Cons s ss)
  obtain t us where ts: "ts = t # us" using Cons.prems(2) by (cases ts) auto
  show ?case
  proof (cases "ss = [] \<or> us = []")
    case True
    with Cons.prems ts show ?thesis
      by (cases ss; cases us) (auto simp: join_with_Cons)
  next
    case False
    with Cons.prems ts have "s @ ch # join_with ch ss = t @ ch # join_with ch us"
      by (simp add: join_with_Cons)
    with append_sep_inject [of ch s t] Cons.prems ts
    have "s = t" "join_with ch ss = join_with ch us" by auto
    with Cons.IH [of us] Cons.prems ts False show ?thesis by simp
  qed
qed

lemma stringSplit_join_with:
  "ss \<noteq> [] \<Longrightarrow> \<forall>s\<in>set ss. ch \<notin> set s \<Longrightarrow> stringSplit (join_with ch ss) ch = ss"
  by (rule join_with_inject [of _ _ ch])
    (auto simp: stringSplit_join stringSplit_free, simp add: stringSplit_def split_loop_nonempty)

subsection \<open>secureMemcmp\<close>

text \<open>The loop never leaves early: it reads both regions to the end and collects the differences.\<close>

fun memcmp_loop :: "bytes \<Rightarrow> bytes \<Rightarrow> nat \<Rightarrow> nat \<Rightarrow> u8 \<Rightarrow> u8 res" where
  "memcmp_loop pa pb i 0 x = Inr x"
| "memcmp_loop pa pb i (Suc n) x =
     (if i < length pa \<and> i < length pb
      then memcmp_loop pa pb (Suc i) n (x OR (pa ! i XOR pb ! i)) else Inl Undef)"

definition secureMemcmp :: "bytes \<Rightarrow> bytes \<Rightarrow> nat \<Rightarrow> bool res" where
  "secureMemcmp a b n = rbind (memcmp_loop a b 0 n 0) (\<lambda>x. Inr (x = 0))"

lemma word_or_eq_0: "x OR y = 0 \<longleftrightarrow> x = 0 \<and> y = 0" for x y :: "'a::len word"
  by (auto simp: bit_eq_iff bit_simps)

lemma word_xor_eq_0: "x XOR y = 0 \<longleftrightarrow> x = y" for x y :: "'a::len word"
  by (auto simp: bit_eq_iff bit_simps)

lemma memcmp_loop_ok:
  "i + n \<le> length a \<Longrightarrow> i + n \<le> length b \<Longrightarrow>
     \<exists>r. memcmp_loop a b i n x = Inr r \<and>
         (r = 0 \<longleftrightarrow> x = 0 \<and> take n (drop i a) = take n (drop i b))"
proof (induction n arbitrary: i x)
  case 0
  then show ?case by simp
next
  case (Suc n)
  have "drop i a = a ! i # drop (Suc i) a" "drop i b = b ! i # drop (Suc i) b"
    using Suc.prems by (simp_all add: Cons_nth_drop_Suc)
  moreover from Suc.IH [of "Suc i" "x OR (a ! i XOR b ! i)"] Suc.prems obtain r where
    "memcmp_loop a b (Suc i) n (x OR (a ! i XOR b ! i)) = Inr r"
    "(r = 0) = (x OR (a ! i XOR b ! i) = 0 \<and> take n (drop (Suc i) a) = take n (drop (Suc i) b))"
    by auto
  ultimately show ?case using Suc.prems by (auto simp: word_or_eq_0 word_xor_eq_0)
qed

lemma secureMemcmp_eq:
  assumes "n \<le> length a" and "n \<le> length b"
  shows "secureMemcmp a b n = Inr (take n a = take n b)"
  using memcmp_loop_ok [of 0 n a b 0] assms by (auto simp: secureMemcmp_def)

subsection \<open>constexpr_nextPowerOfTwo\<close>

partial_function (option) nextPowerOfTwo :: "u64 \<Rightarrow> nat \<Rightarrow> nat \<Rightarrow> u64 option" where
  "nextPowerOfTwo val maxb curb =
     (if maxb \<le> curb then Some val
      else nextPowerOfTwo (((val - 1) OR drop_bit curb (val - 1)) + 1) maxb (curb * 2))"

text \<open>Each round doubles the run of ones below every set bit.\<close>

definition smeared :: "u64 \<Rightarrow> nat \<Rightarrow> u64 \<Rightarrow> bool" where
  "smeared y c z \<longleftrightarrow> (\<forall>i. bit z i \<longleftrightarrow> (\<exists>j. i \<le> j \<and> j < i + c \<and> bit y j))"

lemma smeared_start: "smeared y 1 y"
  unfolding smeared_def by (metis Suc_eq_plus1 less_Suc_eq_le order_antisym_conv order_refl)

lemma smeared_step:
  assumes "smeared y c z"
  shows "smeared y (c * 2) (z OR drop_bit c z)"
  unfolding smeared_def
proof
  fix i
  have "bit (z OR drop_bit c z) i \<longleftrightarrow> bit z i \<or> bit z (i + c)"
    by (simp add: bit_simps add.commute)
  also have "\<dots> \<longleftrightarrow> (\<exists>j. i \<le> j \<and> j < i + c \<and> bit y j) \<or> (\<exists>j. i + c \<le> j \<and> j < i + c + c \<and> bit y j)"
    using assms by (simp add: smeared_def)
  also have "\<dots> \<longleftrightarrow> (\<exists>j. i \<le> j \<and> j < i + c * 2 \<and> bit y j)"
  proof
    assume "(\<exists>j. i \<le> j \<and> j < i + c \<and> bit y j) \<or> (\<exists>j. i + c \<le> j \<and> j < i + c + c \<and> bit y j)"
    then show "\<exists>j. i \<le> j \<and> j < i + c * 2 \<and> bit y j"
    proof (elim disjE exE conjE)
      fix j assume "i \<le> j" "j < i + c" "bit y j"
      then show ?thesis by (intro exI [of _ j]) simp
    next
      fix j assume "i + c \<le> j" "j < i + c + c" "bit y j"
      then show ?thesis by (intro exI [of _ j]) simp
    qed
  next
    assume "\<exists>j. i \<le> j \<and> j < i + c * 2 \<and> bit y j"
    then obtain j where j: "i \<le> j" "j < i + c * 2" "bit y j" by blast
    show "(\<exists>j. i \<le> j \<and> j < i + c \<and> bit y j) \<or> (\<exists>j. i + c \<le> j \<and> j < i + c + c \<and> bit y j)"
    proof (cases "j < i + c")
      case True
      with j show ?thesis by blast
    next
      case False
      then have "i + c \<le> j" "j < i + c + c" using j by simp_all
      with j(3) show ?thesis by blast
    qed
  qed
  finally show "bit (z OR drop_bit c z) i \<longleftrightarrow> (\<exists>j. i \<le> j \<and> j < i + c * 2 \<and> bit y j)" .
qed

lemma nextPowerOfTwo_smear: "\<exists>z. nextPowerOfTwo v 64 1 = Some (z + 1) \<and> smeared (v - 1) 64 z"
proof -
  define y where "y = v - 1"
  define s where "s c z = z OR drop_bit c z" for c and z :: u64
  have sm: "smeared y c z \<Longrightarrow> smeared y (c * 2) (s c z)" for c z
    unfolding s_def by (rule smeared_step)
  have "smeared y (1 * 2 * 2 * 2 * 2 * 2 * 2) (s (1*2*2*2*2*2) (s (1*2*2*2*2) (s (1*2*2*2) (s (1*2*2) (s (1*2) (s 1 y))))))"
    by (intro sm smeared_start)
  moreover have "nextPowerOfTwo v 64 1 =
      Some (s (1*2*2*2*2*2) (s (1*2*2*2*2) (s (1*2*2*2) (s (1*2*2) (s (1*2) (s 1 y))))) + 1)"
    by (simp add: nextPowerOfTwo.simps s_def y_def)
  ultimately show ?thesis by (auto simp: y_def)
qed

lemma nat_bit_length: "\<exists>k. n < 2 ^ k \<and> (k = 0 \<or> 2 ^ (k - 1) \<le> n)" for n :: nat
proof -
  have ex: "n < 2 ^ n" by simp
  let ?k = "LEAST k. n < 2 ^ k"
  have "n < 2 ^ ?k" using ex by (rule LeastI)
  moreover have "?k = 0 \<or> 2 ^ (?k - 1) \<le> n"
    using not_less_Least [of "?k - 1" "\<lambda>k. n < 2 ^ k"] by fastforce
  ultimately show ?thesis by blast
qed

lemma smeared_mask:
  assumes "smeared y 64 z" and "unat y < 2 ^ k" and "k = 0 \<or> 2 ^ (k - 1) \<le> unat y"
  shows "z = mask k"
proof (rule bit_word_eqI)
  fix i assume i: "i < LENGTH(64)"
  have hi: "j < k" if "bit y j" for j
  proof (rule ccontr)
    assume "\<not> j < k"
    then have "(2::nat) ^ k \<le> 2 ^ j" by simp
    with assms(2) have "unat y < 2 ^ j" by linarith
    then have "\<not> bit (unat y) j" by (simp add: bit_iff_odd)
    with that show False by (simp add: bit_unsigned_iff)
  qed
  have top: "bit y (k - 1)" if "0 < k"
  proof -
    have "unat y div 2 ^ (k - 1) = 1"
    proof -
      have "2 ^ k = 2 * (2::nat) ^ (k - 1)" using that by (cases k) auto
      with assms(2,3) that show ?thesis by (intro div_nat_eqI) auto
    qed
    then have "bit (unat y) (k - 1)" by (simp add: bit_iff_odd)
    then show ?thesis by (simp add: bit_unsigned_iff)
  qed
  have "bit z i \<longleftrightarrow> (\<exists>j. i \<le> j \<and> j < i + 64 \<and> bit y j)" using assms(1) by (simp add: smeared_def)
  also have "\<dots> \<longleftrightarrow> i < k"
  proof
    assume "\<exists>j. i \<le> j \<and> j < i + 64 \<and> bit y j"
    with hi show "i < k" by (metis le_less_trans)
  next
    assume "i < k"
    then have "i \<le> k - 1" "bit y (k - 1)" using top by auto
    moreover from this(2) have "k - 1 < 64" using bit_imp_le_length [of y "k - 1"] by simp
    ultimately show "\<exists>j. i \<le> j \<and> j < i + 64 \<and> bit y j" by (metis trans_less_add2)
  qed
  finally show "bit z i = bit (mask k :: u64) i" using i by (simp add: bit_mask_iff)
qed

lemma nextPowerOfTwo_least:
  assumes "0 < v" and "v \<le> 2 ^ 63"
  shows "\<exists>k. nextPowerOfTwo v 64 1 = Some (2 ^ k) \<and> k \<le> 63 \<and> unat v \<le> 2 ^ k \<and> (\<forall>m. unat v \<le> 2 ^ m \<longrightarrow> k \<le> m)"
proof -
  obtain z where z: "nextPowerOfTwo v 64 1 = Some (z + 1)" "smeared (v - 1) 64 z"
    using nextPowerOfTwo_smear by blast
  have v1: "unat (v - 1) = unat v - 1" using assms(1) by (simp add: unat_minus_one word_gt_0_no)
  obtain k where k: "unat (v - 1) < 2 ^ k" "k = 0 \<or> 2 ^ (k - 1) \<le> unat (v - 1)"
    using nat_bit_length by blast
  have pos: "0 < unat v" using assms(1) by (simp add: word_less_nat_alt)
  have le63: "unat v \<le> 2 ^ 63" using assms(2) by (simp add: word_le_nat_alt)
  have "z = mask k" by (rule smeared_mask [OF z(2) k])
  then have zk: "z + 1 = 2 ^ k" by (simp add: mask_eq_exp_minus_1)
  have least: "k \<le> m" if "unat v \<le> 2 ^ m" for m
  proof (rule ccontr)
    assume "\<not> k \<le> m"
    then have "m \<le> k - 1" "k \<noteq> 0" by auto
    then have "(2::nat) ^ m \<le> 2 ^ (k - 1)" by simp
    moreover have "2 ^ (k - 1) \<le> unat v - 1" using k(2) \<open>k \<noteq> 0\<close> v1 by simp
    ultimately show False using pos that by linarith
  qed
  have "unat v \<le> 2 ^ k" using k(1) v1 by simp
  with z(1) zk least le63 show ?thesis by (intro exI [of _ k]) auto
qed

subsection \<open>Whole files\<close>

text \<open>
  What the C library answers for one path: whether \<open>fopen\<close> and the two \<open>fseek\<close> calls succeed,
  the value of \<open>ftell\<close>, and the bytes \<open>fread\<close> delivers at a position for a request.
\<close>

record file_in =
  fopen_ok :: bool
  seek_end_ok :: bool
  ftell_val :: int
  seek_set_ok :: bool
  fread_at :: "nat \<Rightarrow> nat \<Rightarrow> bytes"

definition MAX_FILE :: int where
  "MAX_FILE = 1024 * 1024 * 1024"

function read_loop :: "(nat \<Rightarrow> nat \<Rightarrow> bytes) \<Rightarrow> nat \<Rightarrow> nat \<Rightarrow> byte_buffer \<Rightarrow> byte_buffer option res" where
  "read_loop rd filesize pos ret =
     (if pos < filesize
      then (let got = rd pos (filesize - pos) in
            if got = [] then Inr None
            else rbind (copy_into ret pos (map Some got)) (\<lambda>ret'.
                   read_loop rd filesize (pos + length got) ret'))
      else Inr (Some ret))"
  by pat_completeness auto
termination
  by (relation "measure (\<lambda>(rd, filesize, pos, ret). filesize - pos)") (auto intro!: diff_less_mono2)

declare read_loop.simps [simp del]

definition loadEntireFile :: "(nat \<Rightarrow> bool) \<Rightarrow> file_in \<Rightarrow> byte_buffer option res" where
  "loadEntireFile mem f =
     (if \<not> fopen_ok f then Inr None
      else if \<not> seek_end_ok f then Inr None
      else if ftell_val f < 0 \<or> MAX_FILE < ftell_val f then Inr None
      else if \<not> seek_set_ok f then Inr None
      else rbind (bb_new mem (nat (ftell_val f))) (\<lambda>ret.
             read_loop (fread_at f) (nat (ftell_val f)) 0 ret))"

text \<open>
  Writing: \<open>accept off n\<close> is the count \<open>fwrite\<close> returns. The result pairs the returned flag with
  the bytes that reached the file. A failed \<open>fopen\<close> is not checked: the null pointer goes to
  \<open>fwrite\<close> or \<open>fclose\<close>.
\<close>

function write_loop :: "(nat \<Rightarrow> nat \<Rightarrow> nat) \<Rightarrow> byte_buffer \<Rightarrow> nat \<Rightarrow> cell list \<Rightarrow> nat \<times> cell list" where
  "write_loop accept data offset out =
     (if offset < buf_size data
      then (let w = accept offset (buf_size data - offset) in
            if w = 0 then (offset, out)
            else write_loop accept data (offset + w) (out @ take w (drop offset (block data))))
      else (offset, out))"
  by pat_completeness auto
termination
  by (relation "measure (\<lambda>(accept, data, offset, out). buf_size data - offset)") auto

declare write_loop.simps [simp del]

definition writeByteBuffer :: "bool \<Rightarrow> (nat \<Rightarrow> nat \<Rightarrow> nat) \<Rightarrow> byte_buffer \<Rightarrow> (bool \<times> cell list) res" where
  "writeByteBuffer opened accept data =
     (if \<not> opened then Inl Undef
      else (let r = write_loop accept data 0 [] in Inr (fst r = buf_size data, snd r)))"

text \<open>An \<open>fread\<close> that delivers the file \<open>ds\<close>, in chunks of its own choice.\<close>

definition reads_file :: "bytes \<Rightarrow> (nat \<Rightarrow> nat \<Rightarrow> bytes) \<Rightarrow> bool" where
  "reads_file ds rd \<longleftrightarrow>
     (\<forall>pos n. pos + n \<le> length ds \<longrightarrow> 0 < n \<longrightarrow>
        (\<exists>k. 0 < k \<and> k \<le> n \<and> rd pos n = take k (drop pos ds)))"

lemma read_loop_file:
  "reads_file ds rd \<Longrightarrow> length (block ret) = length ds \<Longrightarrow> pos \<le> length ds \<Longrightarrow>
     take pos (block ret) = map Some (take pos ds) \<Longrightarrow> buf_capacity ret = length ds \<Longrightarrow>
     buf_size ret = length ds \<Longrightarrow>
     \<exists>b. read_loop rd (length ds) pos ret = Inr (Some b) \<and> bb_holds b ds"
proof (induction rd "length ds" pos ret rule: read_loop.induct)
  case (1 rd pos ret)
  show ?case
  proof (cases "pos < length ds")
    case False
    with "1.prems" have "bb_holds ret ds" by (simp add: bb_holds_def bb_inv_def bb_cells_def)
    with False show ?thesis by (subst read_loop.simps) simp
  next
    case True
    with "1.prems"(1) obtain k where k: "0 < k" "k \<le> length ds - pos"
      "rd pos (length ds - pos) = take k (drop pos ds)"
      unfolding reads_file_def
      by (metis add_diff_inverse_nat less_imp_le_nat nat_less_le not_less order_refl zero_less_diff)
    define got where "got = take k (drop pos ds)"
    have len: "length got = k" using k True by (simp add: got_def)
    then have ne: "got \<noteq> []" using k(1) by auto
    define ret' where "ret' = ret\<lparr>buf_ptr := Some (overwrite (block ret) pos (map Some got))\<rparr>"
    have cp: "copy_into ret pos (map Some got) = Inr ret'"
      using "1.prems" k len ne by (simp add: copy_into_def ret'_def)
    have blk: "block ret' = overwrite (block ret) pos (map Some got)" by (simp add: ret'_def)
    have "take (pos + k) (block ret') = map Some (take pos ds) @ map Some got"
      using take_overwrite_end [of pos "block ret" "map Some got"] "1.prems" len True blk by simp
    also have "\<dots> = map Some (take (pos + k) ds)" by (simp add: got_def take_add)
    finally have tk: "take (pos + k) (block ret') = map Some (take (pos + k) ds)" .
    have "\<exists>b. read_loop rd (length ds) (pos + length got) ret' = Inr (Some b) \<and> bb_holds b ds"
      using "1.prems" k len tk blk
      by (intro "1.hyps" [OF True _ _ cp]) (auto simp: got_def ret'_def k(3))
    then show ?thesis using True ne cp
      by (subst read_loop.simps) (simp add: k(3) got_def [symmetric] Let_def)
  qed
qed

lemma loadEntireFile_holds:
  assumes "reads_file ds (fread_at f)" and "fopen_ok f" "seek_end_ok f" "seek_set_ok f"
    and "ftell_val f = int (length ds)" and "length ds \<le> 2 ^ 30" and "grants mem (length ds)"
  shows "\<exists>b. loadEntireFile mem f = Inr (Some b) \<and> bb_holds b ds"
proof -
  define n where "n = length ds"
  have m: "mem n" using assms(7) by (simp add: grants_def n_def)
  obtain b where b: "bb_new mem n = Inr b" "length (block b) = n" "buf_capacity b = n" "buf_size b = n"
    using m by (cases "n = 0") (auto simp: bb_new_def resize_def reserve_def bb_empty_def block_def)
  have "\<exists>c. read_loop (fread_at f) (length ds) 0 b = Inr (Some c) \<and> bb_holds c ds"
    using assms(1) b by (intro read_loop_file) (auto simp: n_def)
  then show ?thesis using assms b(1) by (simp add: loadEntireFile_def MAX_FILE_def n_def)
qed

text \<open>An \<open>fwrite\<close> that accepts no more than it is given.\<close>

definition fwrite_ok :: "(nat \<Rightarrow> nat \<Rightarrow> nat) \<Rightarrow> bool" where
  "fwrite_ok accept \<longleftrightarrow> (\<forall>off n. accept off n \<le> n)"

lemma write_loop_prefix:
  "fwrite_ok accept \<Longrightarrow> bb_inv data \<Longrightarrow> offset \<le> buf_size data \<Longrightarrow> out = take offset (block data) \<Longrightarrow>
     write_loop accept data offset out = (n, out') \<Longrightarrow> n \<le> buf_size data \<and> out' = take n (block data)"
proof (induction accept data offset out rule: write_loop.induct)
  case (1 accept data offset out)
  let ?w = "accept offset (buf_size data - offset)"
  show ?case
  proof (cases "offset < buf_size data \<and> ?w \<noteq> 0")
    case False
    with "1.prems" show ?thesis by (subst (asm) write_loop.simps) (auto simp: Let_def split: if_splits)
  next
    case True
    have w: "?w \<le> buf_size data - offset" using "1.prems"(1) by (simp add: fwrite_ok_def)
    have "out @ take ?w (drop offset (block data)) = take (offset + ?w) (block data)"
      using "1.prems"(4) by (simp add: take_add)
    moreover have "write_loop accept data offset out =
        write_loop accept data (offset + ?w) (out @ take ?w (drop offset (block data)))"
      using True by (subst write_loop.simps) (simp add: Let_def)
    ultimately show ?thesis using True w "1.prems"
      by (intro "1.IH" [of ?w]) auto
  qed
qed

text \<open>What is on disk is a prefix of the buffer, and the flag says whether it is all of it.\<close>

lemma writeByteBuffer_flag:
  assumes "fwrite_ok accept" and "bb_holds data xs"
  shows "\<exists>n\<le>length xs. writeByteBuffer True accept data = Inr (n = length xs, map Some (take n xs))"
proof -
  obtain n out where w: "write_loop accept data 0 [] = (n, out)" by fastforce
  have n: "n \<le> buf_size data" "out = take n (block data)"
    using write_loop_prefix [OF assms(1) bb_holds_inv [OF assms(2)] _ _ w] by auto
  have sz: "buf_size data = length xs" using assms(2) by (rule bb_holds_size)
  have "out = map Some (take n xs)"
    using n bb_holds_cells [OF assms(2)] by (metis min.absorb1 take_map take_take)
  with n w sz show ?thesis by (auto simp: writeByteBuffer_def)
qed

subsection \<open>Properties\<close>

text \<open>\<open>stringSplit\<close> is the inverse of joining. The segments contain no separator and joined by it
  give the string back, and there is only one such list.\<close>

lemma stringSplit_unique:
  assumes "ss \<noteq> []" and "\<forall>s\<in>set ss. ch \<notin> set s"
  shows "stringSplit str ch = ss \<longleftrightarrow> join_with ch ss = str"
  using assms stringSplit_join_with stringSplit_join by metis

theorem stringSplit_unique_witness:
  "stringSplit ''raw:AA=='' CHR '':'' = [''raw'', ''AA==''] \<longleftrightarrow> join_with CHR '':'' [''raw'', ''AA==''] = ''raw:AA==''"
  by (rule stringSplit_unique) simp_all

text \<open>\<open>secureMemcmp\<close> decides equality of two byte regions of the compared length, and its loop
  reads every byte of both whatever they contain.\<close>

lemma secureMemcmp_correct:
  assumes "n \<le> length a" and "n \<le> length b"
  shows "secureMemcmp a b n = Inr (take n a = take n b)"
  using assms by (rule secureMemcmp_eq)

theorem secureMemcmp_correct_witness: "secureMemcmp [1, 2, 3] [1, 2, 4] 2 = Inr True"
  using secureMemcmp_correct [of 2 "[1, 2, 3]" "[1, 2, 4]"] by simp

text \<open>\<open>constexpr_nextPowerOfTwo\<close>, which sizes the ring buffer, returns: for every 64-bit value from
  1 to \<open>2 ^ 63\<close> the least power of two that is not below it.\<close>

lemma nextPowerOfTwo_correct:
  assumes "0 < v" and "v \<le> 2 ^ 63"
  shows "\<exists>k. nextPowerOfTwo v 64 1 = Some (2 ^ k) \<and> unat v \<le> 2 ^ k \<and> (\<forall>m. unat v \<le> 2 ^ m \<longrightarrow> k \<le> m)"
  using nextPowerOfTwo_least [OF assms] by blast

theorem nextPowerOfTwo_correct_witness:
  "\<exists>k. nextPowerOfTwo 96000 64 1 = Some (2 ^ k) \<and> unat (96000 :: u64) \<le> 2 ^ k \<and>
     (\<forall>m. unat (96000 :: u64) \<le> 2 ^ m \<longrightarrow> k \<le> m)"
  by (rule nextPowerOfTwo_correct) (simp_all add: word_le_nat_alt)

text \<open>A file written by \<open>writeByteBuffer\<close> that reports success is read back by \<open>loadEntireFile\<close>,
  for every way the C library may split the transfers, up to the limit of one gigabyte.\<close>

lemma file_roundtrip:
  assumes "bb_holds data xs" and "fwrite_ok accept" and "writeByteBuffer True accept data = Inr (True, cells)"
    and "reads_file ds (fread_at f)" and "cells = map Some ds" and "fopen_ok f" "seek_end_ok f" "seek_set_ok f"
    and "ftell_val f = int (length ds)" and "length ds \<le> 2 ^ 30" and "grants mem (length ds)"
  shows "\<exists>b. loadEntireFile mem f = Inr (Some b) \<and> bb_holds b xs"
proof -
  from writeByteBuffer_flag [OF assms(2,1)] assms(3,5) have "map Some ds = map Some xs" by auto
  then have "ds = xs" by (simp add: inj_map_eq_map)
  with loadEntireFile_holds [of ds f mem] assms show ?thesis by blast
qed

theorem file_roundtrip_witness:
  "\<exists>b. loadEntireFile (\<lambda>_. True) \<lparr>fopen_ok = True, seek_end_ok = True, ftell_val = 2, seek_set_ok = True,
      fread_at = (\<lambda>pos n. take 1 (drop pos [4, 5]))\<rparr> = Inr (Some b) \<and> bb_holds b [4, 5]"
proof -
  let ?b = "\<lparr>buf_ptr = Some [Some 4, Some 5], buf_capacity = 2, buf_size = 2\<rparr>"
  have h: "bb_holds ?b [4, 5]" by (simp add: bb_holds_def bb_inv_def bb_cells_def block_def)
  have w: "writeByteBuffer True (\<lambda>off n. n) ?b = Inr (True, map Some [4, 5])"
    by (simp add: writeByteBuffer_def write_loop.simps block_def)
  have r: "reads_file [4, 5] (\<lambda>pos n. take 1 (drop pos [4, 5]))"
    unfolding reads_file_def by (intro allI impI exI [of _ 1]) auto
  have f: "fwrite_ok (\<lambda>off n. n)" by (simp add: fwrite_ok_def)
  show ?thesis
    by (rule file_roundtrip [OF h f w, where ds = "[4, 5]"]) (use r in \<open>simp_all add: grants_def\<close>)
qed

end
