(* ===== verification/MinMax.thy ===== *)
theory MinMax
  imports Prelude
begin

text \<open>
  \<open>MinMaxTrackingRingBuffer<T, LEN>\<close> of \<open>src/src/common/util.h\<close>: the last \<open>LEN\<close> numbers with their
  minimum and maximum kept up to date. The halves of \<open>push\<close> and \<open>pop\<close> that maintain the minimum and
  the maximum are the same code with the comparison turned round, so each is one definition with the
  comparison \<open>lt\<close> as its argument; \<open>T\<close> is \<open>int\<close>. An element of \<open>data\<close> is \<open>None\<close> until it is written.
\<close>

record minmax =
  mm_idx :: nat
  mm_size :: nat
  minCnt :: nat
  maxCnt :: nat
  mm_min :: int
  mm_max :: int
  mm_data :: "int option list"

definition mm_init :: "nat \<Rightarrow> minmax" where
  "mm_init LEN = \<lparr>mm_idx = 0, mm_size = 0, minCnt = 0, maxCnt = 0, mm_min = 0, mm_max = 0,
     mm_data = replicate LEN None\<rparr>"

definition mm_read :: "int option list \<Rightarrow> nat \<Rightarrow> int res" where
  "mm_read xs i = (if i < length xs then (case xs ! i of None \<Rightarrow> Inl Undef | Some v \<Rightarrow> Inr v) else Inl Undef)"

definition track_push :: "(int \<Rightarrow> int \<Rightarrow> bool) \<Rightarrow> int \<Rightarrow> int \<times> nat \<Rightarrow> int \<times> nat" where
  "track_push lt val t =
     (if lt val (fst t) \<or> snd t = 0 then (val, 1)
      else if val = fst t then (fst t, snd t + 1)
      else t)"

fun rescan :: "(int \<Rightarrow> int \<Rightarrow> bool) \<Rightarrow> nat \<Rightarrow> int option list \<Rightarrow> nat \<Rightarrow> nat \<Rightarrow> nat \<Rightarrow> int \<times> nat \<Rightarrow> (int \<times> nat) res" where
  "rescan lt LEN xs idx i 0 t = Inr t"
| "rescan lt LEN xs idx i (Suc n) t =
     rbind (mm_read xs ((idx + i) mod LEN)) (\<lambda>now.
       rescan lt LEN xs idx (i + 1) n
         (if now = fst t then (fst t, snd t + 1)
          else if lt now (fst t) then (now, 1) else t))"

definition track_pop :: "(int \<Rightarrow> int \<Rightarrow> bool) \<Rightarrow> nat \<Rightarrow> int option list \<Rightarrow> nat \<Rightarrow> nat \<Rightarrow> int \<Rightarrow> int \<times> nat \<Rightarrow> (int \<times> nat) res" where
  "track_pop lt LEN xs idx sz ret t =
     (if fst t = ret
      then (let cnt = sz_sub (snd t) 1 in
            if cnt \<le> 0
            then rbind (mm_read xs idx) (\<lambda>v. rescan lt LEN xs idx 1 (sz - 1) (v, 1))
            else Inr (fst t, cnt))
      else Inr t)"

definition mm_pop :: "nat \<Rightarrow> minmax \<Rightarrow> (int \<times> minmax) res" where
  "mm_pop LEN m =
     rbind (mm_read (mm_data m) (mm_idx m)) (\<lambda>ret.
       let idx = (mm_idx m + 1) mod LEN;
           sz = sz_sub (mm_size m) 1
       in if sz > 0
          then rbind (track_pop (\<lambda>a b. a < b) LEN (mm_data m) idx sz ret (mm_min m, minCnt m)) (\<lambda>lo.
               rbind (track_pop (\<lambda>a b. b < a) LEN (mm_data m) idx sz ret (mm_max m, maxCnt m)) (\<lambda>hi.
                 Inr (ret, m\<lparr>mm_idx := idx, mm_size := sz, mm_min := fst lo, minCnt := snd lo,
                             mm_max := fst hi, maxCnt := snd hi\<rparr>)))
          else Inr (ret, m\<lparr>mm_idx := idx, mm_size := sz\<rparr>))"

definition mm_push :: "nat \<Rightarrow> int \<Rightarrow> minmax \<Rightarrow> minmax res" where
  "mm_push LEN val m =
     rbind (if mm_size m = LEN then rbind (mm_pop LEN m) (\<lambda>p. Inr (snd p)) else Inr m) (\<lambda>m1.
       let lo = track_push (\<lambda>a b. a < b) val (mm_min m1, minCnt m1);
           hi = track_push (\<lambda>a b. b < a) val (mm_max m1, maxCnt m1);
           at = (mm_idx m1 + mm_size m1) mod LEN
       in if at < length (mm_data m1)
          then Inr (m1\<lparr>mm_min := fst lo, minCnt := snd lo, mm_max := fst hi, maxCnt := snd hi,
                       mm_data := (mm_data m1)[at := Some val], mm_size := mm_size m1 + 1\<rparr>)
          else Inl Undef)"

subsection \<open>What the extremum trackers keep\<close>

definition strict_lin :: "(int \<Rightarrow> int \<Rightarrow> bool) \<Rightarrow> bool" where
  "strict_lin lt \<longleftrightarrow> (\<forall>x. \<not> lt x x) \<and> (\<forall>x y z. lt x y \<longrightarrow> lt y z \<longrightarrow> lt x z) \<and>
     (\<forall>x y. lt x y \<or> x = y \<or> lt y x)"

lemma strict_lin_less [simp]: "strict_lin (\<lambda>a b. a < b)" "strict_lin (\<lambda>a b. b < a)"
  by (auto simp: strict_lin_def)

definition tracks :: "(int \<Rightarrow> int \<Rightarrow> bool) \<Rightarrow> int list \<Rightarrow> int \<times> nat \<Rightarrow> bool" where
  "tracks lt xs t \<longleftrightarrow>
     (if xs = [] then snd t = 0
      else fst t \<in> set xs \<and> (\<forall>x\<in>set xs. \<not> lt x (fst t)) \<and> snd t = count_list xs (fst t))"

lemma count_list_pos: "x \<in> set xs \<Longrightarrow> 0 < count_list xs x"
  by (simp add: count_list_0_iff neq0_conv [symmetric])

lemma tracks_push:
  assumes "strict_lin lt" and "tracks lt xs t"
  shows "tracks lt (xs @ [v]) (track_push lt v t)"
proof (cases "xs = []")
  case True
  with assms show ?thesis by (auto simp: tracks_def track_push_def strict_lin_def)
next
  case False
  with assms(2) have t: "fst t \<in> set xs" "\<forall>x\<in>set xs. \<not> lt x (fst t)" "snd t = count_list xs (fst t)"
    by (auto simp: tracks_def)
  have "snd t \<noteq> 0" using t count_list_pos by fastforce
  moreover have "\<forall>x\<in>set xs. \<not> lt x v" if "lt v (fst t)"
    using t that assms(1) unfolding strict_lin_def by blast
  moreover have "v \<notin> set xs" if "lt v (fst t)" using t that by blast
  ultimately show ?thesis using t assms(1)
    by (auto simp: tracks_def track_push_def strict_lin_def)
qed

definition scan :: "(int \<Rightarrow> int \<Rightarrow> bool) \<Rightarrow> int \<Rightarrow> int \<times> nat \<Rightarrow> int \<times> nat" where
  "scan lt now t =
     (if now = fst t then (fst t, snd t + 1) else if lt now (fst t) then (now, 1) else t)"

lemma scan_tracks:
  assumes "strict_lin lt" and "tracks lt xs t" and "xs \<noteq> []"
  shows "tracks lt (xs @ [v]) (scan lt v t)"
proof -
  have "scan lt v t = track_push lt v t"
    using assms count_list_pos [of "fst t" xs]
    by (auto simp: scan_def track_push_def strict_lin_def tracks_def)
  then show ?thesis using tracks_push [OF assms(1,2)] by simp
qed

lemma rescan_tracks:
  assumes lin: "strict_lin lt"
  shows "tracks lt us t \<Longrightarrow> us \<noteq> [] \<Longrightarrow> length ys = n \<Longrightarrow>
     (\<forall>k<n. mm_read xs ((idx + (i + k)) mod LEN) = Inr (ys ! k)) \<Longrightarrow>
     \<exists>t'. rescan lt LEN xs idx i n t = Inr t' \<and> tracks lt (us @ ys) t'"
proof (induction n arbitrary: us i t ys)
  case 0
  then show ?case by simp
next
  case (Suc n)
  then obtain y zs where ys: "ys = y # zs" "length zs = n" by (cases ys) auto
  from Suc.prems(4) ys have rd: "mm_read xs ((idx + i) mod LEN) = Inr y" by (metis add.right_neutral nth_Cons_0 zero_less_Suc)
  have rest: "\<forall>k<n. mm_read xs ((idx + (i + 1 + k)) mod LEN) = Inr (zs ! k)"
    using Suc.prems(4) ys by (metis Suc_eq_plus1_left Suc_less_eq add.assoc nth_Cons_Suc)
  have "tracks lt (us @ [y]) (scan lt y t)" by (rule scan_tracks [OF lin Suc.prems(1,2)])
  from Suc.IH [OF this _ ys(2) rest] rd ys show ?case by (simp add: scan_def)
qed

lemma tracks_pop:
  assumes lin: "strict_lin lt" and t: "tracks lt (r # ys) t" and ne: "ys \<noteq> []"
    and rd: "\<forall>k<length ys. mm_read xs ((idx + k) mod LEN) = Inr (ys ! k)" and "idx < LEN"
  shows "\<exists>t'. track_pop lt LEN xs idx (length ys) r t = Inr t' \<and> tracks lt ys t'"
proof (cases "fst t = r \<and> count_list ys r = 0")
  case True
  obtain y zs where ys: "ys = y # zs" using ne by (cases ys) auto
  have "mm_read xs (idx mod LEN) = Inr y" using rd ys by (metis add.right_neutral length_greater_0_conv ne nth_Cons_0)
  then have y: "mm_read xs idx = Inr y" using \<open>idx < LEN\<close> by simp
  have one: "tracks lt [y] (y, 1)" using lin by (simp add: tracks_def strict_lin_def)
  have rest: "\<forall>k<length zs. mm_read xs ((idx + (1 + k)) mod LEN) = Inr (zs ! k)"
    using rd ys by auto
  have "snd t = 1" using True t by (simp add: tracks_def)
  with rescan_tracks [OF lin one _ refl rest] True y ys show ?thesis
    by (simp add: track_pop_def)
next
  case False
  then show ?thesis
  proof (cases "fst t = r")
    case True
    with False have c: "0 < count_list ys r" by simp
    then have "r \<in> set ys" by (metis count_list_0_iff less_numeral_extra(3))
    with True c t ne show ?thesis by (auto simp: track_pop_def tracks_def)
  next
    case False
    with t ne show ?thesis by (auto simp: track_pop_def tracks_def)
  qed
qed

subsection \<open>The window\<close>

definition mm_holds :: "nat \<Rightarrow> minmax \<Rightarrow> int list \<Rightarrow> bool" where
  "mm_holds LEN m xs \<longleftrightarrow> length (mm_data m) = LEN \<and> mm_idx m < LEN \<and> mm_size m = length xs \<and>
     length xs \<le> LEN \<and> LEN < SIZE_T_MOD \<and>
     (\<forall>k<length xs. mm_data m ! ((mm_idx m + k) mod LEN) = Some (xs ! k))"

definition mm_ok :: "nat \<Rightarrow> minmax \<Rightarrow> int list \<Rightarrow> bool" where
  "mm_ok LEN m xs \<longleftrightarrow> mm_holds LEN m xs \<and>
     tracks (\<lambda>a b. a < b) xs (mm_min m, minCnt m) \<and> tracks (\<lambda>a b. b < a) xs (mm_max m, maxCnt m)"

lemma mm_ok_extrema:
  assumes "mm_ok LEN m xs" and "xs \<noteq> []"
  shows "mm_min m = Min (set xs) \<and> mm_max m = Max (set xs)"
  using assms by (auto simp: mm_ok_def tracks_def intro!: Min_eqI [symmetric] Max_eqI [symmetric])

lemma mm_init_ok: "0 < LEN \<Longrightarrow> LEN < SIZE_T_MOD \<Longrightarrow> mm_ok LEN (mm_init LEN) []"
  by (simp add: mm_ok_def mm_holds_def tracks_def mm_init_def)

lemma mm_pop_ok:
  assumes ok: "mm_ok LEN m (r # ys)" and ne: "ys \<noteq> []"
  shows "\<exists>m'. mm_pop LEN m = Inr (r, m') \<and> mm_ok LEN m' ys"
proof -
  let ?idx = "(mm_idx m + 1) mod LEN"
  from ok have h: "length (mm_data m) = LEN" "mm_idx m < LEN" "mm_size m = Suc (length ys)"
    "Suc (length ys) \<le> LEN" "LEN < SIZE_T_MOD"
    "\<And>k. k \<le> length ys \<Longrightarrow> mm_data m ! ((mm_idx m + k) mod LEN) = Some ((r # ys) ! k)"
    by (auto simp: mm_ok_def mm_holds_def)
  have rd0: "mm_read (mm_data m) (mm_idx m) = Inr r"
    using h(1,2) h(6) [of 0] by (simp add: mm_read_def)
  have shift: "(?idx + k) mod LEN = (mm_idx m + Suc k) mod LEN" for k
    by (simp add: mod_simps)
  have cells: "\<forall>k<length ys. mm_data m ! ((?idx + k) mod LEN) = Some (ys ! k)"
  proof (intro allI impI)
    fix k assume "k < length ys"
    then show "mm_data m ! ((?idx + k) mod LEN) = Some (ys ! k)"
      using h(6) [of "Suc k"] unfolding shift by simp
  qed
  then have rd: "\<forall>k<length ys. mm_read (mm_data m) ((?idx + k) mod LEN) = Inr (ys ! k)"
    using h(1,2) by (auto simp: mm_read_def)
  have idx: "?idx < LEN" using h(2) by simp
  from ok have tr: "tracks (\<lambda>a b. a < b) (r # ys) (mm_min m, minCnt m)"
    "tracks (\<lambda>a b. b < a) (r # ys) (mm_max m, maxCnt m)" by (auto simp: mm_ok_def)
  obtain lo where lo: "track_pop (\<lambda>a b. a < b) LEN (mm_data m) ?idx (length ys) r (mm_min m, minCnt m) = Inr lo"
    "tracks (\<lambda>a b. a < b) ys lo" using tracks_pop [OF _ tr(1) ne rd idx] by auto
  obtain hi where hi: "track_pop (\<lambda>a b. b < a) LEN (mm_data m) ?idx (length ys) r (mm_max m, maxCnt m) = Inr hi"
    "tracks (\<lambda>a b. b < a) ys hi" using tracks_pop [OF _ tr(2) ne rd idx] by auto
  have "sz_sub (mm_size m) 1 = length ys" "0 < length ys" using h(3) ne by simp_all
  with rd0 lo hi have "mm_pop LEN m = Inr (r, m\<lparr>mm_idx := ?idx, mm_size := length ys, mm_min := fst lo,
      minCnt := snd lo, mm_max := fst hi, maxCnt := snd hi\<rparr>)"
    by (simp add: mm_pop_def Let_def)
  then show ?thesis using h cells idx lo(2) hi(2) by (auto simp: mm_ok_def mm_holds_def)
qed

lemma mm_push_room:
  assumes ok: "mm_ok LEN m xs" and room: "length xs < LEN"
  shows "\<exists>m'. mm_push LEN v m = Inr m' \<and> mm_ok LEN m' (xs @ [v])"
proof -
  let ?at = "(mm_idx m + length xs) mod LEN"
  from ok have h: "length (mm_data m) = LEN" "mm_idx m < LEN" "mm_size m = length xs" "LEN < SIZE_T_MOD"
    "\<And>k. k < length xs \<Longrightarrow> mm_data m ! ((mm_idx m + k) mod LEN) = Some (xs ! k)"
    by (auto simp: mm_ok_def mm_holds_def)
  have apart: "(mm_idx m + k) mod LEN \<noteq> ?at" if "k < length xs" for k
    using that room h(2) by (simp add: mod_below_twice) linarith
  have at: "?at < LEN" using h(2) by simp
  have cells: "(mm_data m)[?at := Some v] ! ((mm_idx m + k) mod LEN) = Some ((xs @ [v]) ! k)"
    if "k < Suc (length xs)" for k
  proof (cases "k = length xs")
    case True
    then show ?thesis using at h(1) by simp
  next
    case False
    with that have "k < length xs" by simp
    then show ?thesis using apart [of k] h(5) [of k] by (simp add: nth_append)
  qed
  have tr: "tracks (\<lambda>a b. a < b) (xs @ [v]) (track_push (\<lambda>a b. a < b) v (mm_min m, minCnt m))"
    "tracks (\<lambda>a b. b < a) (xs @ [v]) (track_push (\<lambda>a b. b < a) v (mm_max m, maxCnt m))"
    using ok by (auto simp: mm_ok_def intro!: tracks_push)
  show ?thesis using h at room tr cells
    by (auto simp: mm_push_def mm_ok_def mm_holds_def Let_def)
qed

text \<open>A full window of at least two elements drops its oldest one first.\<close>

lemma mm_push_ok:
  assumes ok: "mm_ok LEN m xs" and LEN: "2 \<le> LEN"
  shows "\<exists>m'. mm_push LEN v m = Inr m' \<and>
    mm_ok LEN m' ((if length xs = LEN then tl xs else xs) @ [v])"
proof (cases "length xs = LEN")
  case False
  with ok show ?thesis using mm_push_room [of LEN m xs v] by (auto simp: mm_ok_def mm_holds_def)
next
  case True
  with LEN obtain r ys where xs: "xs = r # ys" "ys \<noteq> []" by (cases xs; cases "tl xs") auto
  with mm_pop_ok ok obtain m1 where m1: "mm_pop LEN m = Inr (r, m1)" "mm_ok LEN m1 ys" by blast
  have sz: "mm_size m = LEN" "mm_size m1 \<noteq> LEN"
    using True ok m1(2) xs by (auto simp: mm_ok_def mm_holds_def)
  have "length ys < LEN" using True xs by simp
  from mm_push_room [OF m1(2) this, of v] sz m1(1) True xs show ?thesis
    by (simp add: mm_push_def)
qed

fun mm_push_all :: "nat \<Rightarrow> int list \<Rightarrow> minmax \<Rightarrow> minmax res" where
  "mm_push_all LEN [] m = Inr m"
| "mm_push_all LEN (v # vs) m = rbind (mm_push LEN v m) (mm_push_all LEN vs)"

definition last_n :: "nat \<Rightarrow> 'a list \<Rightarrow> 'a list" where
  "last_n n xs = drop (length xs - n) xs"

lemma last_n_snoc:
  "0 < n \<Longrightarrow> (if length (last_n n xs) = n then tl (last_n n xs) else last_n n xs) @ [v] = last_n n (xs @ [v])"
proof -
  assume n: "0 < n"
  show ?thesis
  proof (cases "n \<le> length xs")
    case True
    then have "tl (drop (length xs - n) xs) = drop (Suc (length xs) - n) xs"
      by (simp add: tl_drop drop_Suc [symmetric] Suc_diff_le drop_tl)
    with True n show ?thesis by (simp add: last_n_def)
  next
    case False
    then show ?thesis by (simp add: last_n_def)
  qed
qed

lemma mm_push_all_ok:
  "2 \<le> LEN \<Longrightarrow> mm_ok LEN m (last_n LEN us) \<Longrightarrow>
     \<exists>m'. mm_push_all LEN vs m = Inr m' \<and> mm_ok LEN m' (last_n LEN (us @ vs))"
proof (induction vs arbitrary: us m)
  case Nil
  then show ?case by simp
next
  case (Cons v vs)
  obtain m1 where m1: "mm_push LEN v m = Inr m1"
    "mm_ok LEN m1 ((if length (last_n LEN us) = LEN then tl (last_n LEN us) else last_n LEN us) @ [v])"
    using mm_push_ok [OF Cons.prems(2,1), of v] by blast
  then have "mm_ok LEN m1 (last_n LEN (us @ [v]))" using last_n_snoc [of LEN us v] Cons.prems(1) by simp
  from Cons.IH [OF Cons.prems(1) this] m1(1) show ?case by simp
qed

subsection \<open>Properties\<close>

text \<open>The tracker keeps the extrema of the last \<open>LEN\<close> numbers. From a fresh tracker with room for
  at least two numbers, any sequence of pushes succeeds, and afterwards \<open>min\<close> and \<open>max\<close> are the minimum and
  maximum of the last \<open>LEN\<close> numbers pushed.\<close>

lemma minmax_window:
  assumes "2 \<le> LEN" and "LEN < SIZE_T_MOD" and "vs \<noteq> []"
  shows "\<exists>m. mm_push_all LEN vs (mm_init LEN) = Inr m \<and> mm_min m = Min (set (last_n LEN vs)) \<and>
    mm_max m = Max (set (last_n LEN vs))"
proof -
  have "mm_ok LEN (mm_init LEN) (last_n LEN [])" using mm_init_ok assms by (simp add: last_n_def)
  from mm_push_all_ok [OF assms(1) this, of vs] obtain m where
    "mm_push_all LEN vs (mm_init LEN) = Inr m" "mm_ok LEN m (last_n LEN vs)" by auto
  moreover have "last_n LEN vs \<noteq> []" using assms by (cases vs) (auto simp: last_n_def)
  ultimately show ?thesis using mm_ok_extrema by blast
qed

theorem minmax_window_witness:
  "\<exists>m. mm_push_all 2 [1, 9, 4] (mm_init 2) = Inr m \<and> mm_min m = 4 \<and> mm_max m = 9"
  using minmax_window [of 2 "[1, 9, 4]"] by (simp add: SIZE_T_MOD_def last_n_def)

text \<open>Popping the last number leaves its extrema behind. The tracker that was emptied by
  \<open>pop\<close> reports the popped number as the minimum of what is pushed next, whenever that is larger.\<close>

lemma minmax_stale:
  assumes "v < w" and "0 < LEN" and "LEN < SIZE_T_MOD"
  shows "\<exists>m1 m2 m3. mm_push LEN v (mm_init LEN) = Inr m1 \<and> mm_pop LEN m1 = Inr (v, m2) \<and> mm_size m2 = 0 \<and>
    mm_push LEN w m2 = Inr m3 \<and> mm_size m3 = 1 \<and> mm_min m3 = v"
  using assms by (simp add: mm_push_def mm_pop_def mm_init_def track_push_def mm_read_def Let_def)

theorem minmax_stale_witness:
  "\<exists>m1 m2 m3. mm_push 8 1 (mm_init 8) = Inr m1 \<and> mm_pop 8 m1 = Inr (1, m2) \<and> mm_size m2 = 0 \<and>
    mm_push 8 5 m2 = Inr m3 \<and> mm_size m3 = 1 \<and> mm_min m3 = 1"
  by (rule minmax_stale) (simp_all add: SIZE_T_MOD_def)

end
