(* ===== verification/RationalNum.thy ===== *)
theory RationalNum
  imports Prelude
begin

text \<open>
  \<open>Rational\<close> of \<open>src/src/common/Rational.h\<close> and \<open>Rational.cpp\<close>: frame rates as a numerator and a
  denominator of 32 bits. Intermediate products are 64 bits wide; \<open>wrap32\<close> is the narrowing back
  to \<open>int\<close> that \<open>operator*=\<close> checks afterwards. An \<open>assert\<close> that fails is \<open>Undef\<close>.
\<close>

record rational =
  num :: int
  den :: int

function cgcd :: "int \<Rightarrow> int \<Rightarrow> int" where
  "cgcd u v = (if u \<le> 0 then v else if v \<le> 0 then u else cgcd v (c_mod u v))"
  by pat_completeness auto
termination
  by (relation "measure (\<lambda>(u, v). nat v)") (auto simp: c_mod_nonneg)

declare cgcd.simps [simp del]

definition rat_default :: rational where
  "rat_default = \<lparr>num = 0, den = 1\<rparr>"

definition rational_new :: "int \<Rightarrow> int \<Rightarrow> rational res" where
  "rational_new n d = rbind (c_assert (n \<ge> 0)) (\<lambda>_. rbind (c_assert (d > 0)) (\<lambda>_. Inr \<lparr>num = n, den = d\<rparr>))"

definition rat_mul :: "rational \<Rightarrow> rational \<Rightarrow> rational res" where
  "rat_mul a b =
     (let n = num a * num b; d = den a * den b; k = cgcd n d in
      if k = 0 then Inl Undef
      else let r = \<lparr>num = wrap32 (c_div n k), den = wrap32 (c_div d k)\<rparr> in
        rbind (assert_quit (num r = c_div n k) ''Overflow while multiplying'') (\<lambda>_.
        rbind (assert_quit (den r = c_div d k) ''Overflow while multiplying'') (\<lambda>_. Inr r)))"

definition rat_reduce :: "rational \<Rightarrow> rational res" where
  "rat_reduce a =
     (let k = cgcd (num a) (den a) in
      if k = 0 then Inl Undef else rational_new (c_div (num a) k) (c_div (den a) k))"

definition rat_inv :: "rational \<Rightarrow> rational res" where
  "rat_inv a = rational_new (den a) (num a)"

definition rat_div :: "rational \<Rightarrow> rational \<Rightarrow> rational res" where
  "rat_div a b = rbind (rat_inv b) (rat_mul a)"

definition imul :: "rational \<Rightarrow> int \<Rightarrow> int res" where
  "imul a factor =
     (if \<not> fits64 (factor * num a) \<or> den a = 0 then Inl Undef else Inr (c_div (factor * num a) (den a)))"

text \<open>Both assignments copy the two fields: the moving one calls the copying one, since its parameter has a name.\<close>

definition rat_assign :: "rational \<Rightarrow> rational \<Rightarrow> rational" where
  "rat_assign this copy = this\<lparr>num := num copy, den := den copy\<rparr>"

definition rat_assign_move :: "rational \<Rightarrow> rational \<Rightarrow> rational" where
  "rat_assign_move this move = rat_assign this move"

text \<open>The floating point type, its conversion from \<open>int\<close> and its division are parameters.\<close>

definition toFloat :: "(int \<Rightarrow> 'f) \<Rightarrow> ('f \<Rightarrow> 'f \<Rightarrow> 'f) \<Rightarrow> rational \<Rightarrow> 'f" where
  "toFloat float_of quot a = quot (float_of (num a)) (float_of (den a))"

definition toDouble :: "(int \<Rightarrow> 'd) \<Rightarrow> ('d \<Rightarrow> 'd \<Rightarrow> 'd) \<Rightarrow> rational \<Rightarrow> 'd" where
  "toDouble double_of quot a = quot (double_of (num a)) (double_of (den a))"

definition rat_ok :: "rational \<Rightarrow> bool" where
  "rat_ok a \<longleftrightarrow> 0 \<le> num a \<and> 0 < den a \<and> fits32 (num a) \<and> fits32 (den a)"

lemma rational_new_Inr: "rational_new n d = Inr r \<longleftrightarrow> 0 \<le> n \<and> 0 < d \<and> r = \<lparr>num = n, den = d\<rparr>"
  by (auto simp: rational_new_def rbind_eq_Inr)

lemma cgcd_gcd: "0 \<le> u \<Longrightarrow> 0 \<le> v \<Longrightarrow> cgcd u v = gcd u v"
proof (induction u v rule: cgcd.induct)
  case (1 u v)
  show ?case
  proof (cases "u = 0 \<or> v = 0")
    case True
    with "1.prems" show ?thesis by (subst cgcd.simps) auto
  next
    case False
    with 1 have "cgcd v (u mod v) = gcd v (u mod v)" by (simp add: c_mod_nonneg)
    also have "\<dots> = gcd u v" by (metis gcd.commute gcd_red_int)
    finally show ?thesis using False "1.prems" by (subst cgcd.simps) (simp add: c_mod_nonneg)
  qed
qed

lemma reduced_parts:
  assumes "0 \<le> n" and "0 < (d::int)"
  defines "k \<equiv> cgcd n d"
  shows "0 < k \<and> c_div n k = n div gcd n d \<and> c_div d k = d div gcd n d"
proof -
  have k: "k = gcd n d" unfolding k_def by (rule cgcd_gcd) (use assms in auto)
  then have "0 < k" using assms(2) by simp
  with k assms show ?thesis by (simp add: c_div_nonneg)
qed

lemma reduced_value:
  assumes "0 \<le> n" and "0 < (d::int)"
  shows "n div gcd n d * d = n * (d div gcd n d) \<and> coprime (n div gcd n d) (d div gcd n d) \<and>
    0 \<le> n div gcd n d \<and> 0 < d div gcd n d"
proof -
  have g: "0 < gcd n d" using assms(2) by simp
  have "n div gcd n d * d = n * (d div gcd n d)"
    by (metis dvd_div_mult dvd_mult_div_cancel gcd_dvd1 gcd_dvd2 mult.commute mult.left_commute)
  moreover have "coprime (n div gcd n d) (d div gcd n d)" using assms(2) by (intro div_gcd_coprime) auto
  moreover have "0 < d div gcd n d"
    using g assms(2) by (metis dvd_div_eq_0_iff gcd_dvd2 less_le pos_imp_zdiv_nonneg_iff order_less_imp_le)
  ultimately show ?thesis using g assms(1) by (simp add: pos_imp_zdiv_nonneg_iff)
qed

text \<open>The product in lowest terms, or the fatal error when one of its parts needs more than 32 bits.\<close>

lemma rat_mul_cases:
  assumes "rat_ok a" and "rat_ok b"
  defines "n \<equiv> num a * num b" and "d \<equiv> den a * den b"
  shows "rat_mul a b =
    (if fits32 (n div gcd n d) \<and> fits32 (d div gcd n d)
     then Inr \<lparr>num = n div gcd n d, den = d div gcd n d\<rparr>
     else Inl (Fatal ''Overflow while multiplying''))"
proof -
  have "0 \<le> n" "0 < d" using assms by (auto simp: rat_ok_def)
  from reduced_parts [OF this] show ?thesis
    by (auto simp: rat_mul_def n_def [symmetric] d_def [symmetric] Let_def wrap32_id assert_quit_def error_quit_def)
qed

lemma rat_mul_value:
  assumes "rat_ok a" and "rat_ok b" and "rat_mul a b = Inr r"
  shows "rat_ok r \<and> num r * (den a * den b) = num a * num b * den r \<and> coprime (num r) (den r)"
proof -
  have "0 \<le> num a * num b" "0 < den a * den b" using assms by (auto simp: rat_ok_def)
  from reduced_value [OF this] rat_mul_cases [OF assms(1,2)] assms(3) show ?thesis
    by (auto simp: rat_ok_def split: if_splits)
qed

lemma rat_reduce_value:
  assumes "rat_ok a"
  shows "\<exists>r. rat_reduce a = Inr r \<and> num r * den a = num a * den r \<and> coprime (num r) (den r) \<and> 0 < den r"
proof -
  have "0 \<le> num a" "0 < den a" using assms by (auto simp: rat_ok_def)
  from reduced_parts [OF this] reduced_value [OF this] show ?thesis
    by (auto simp: rat_reduce_def Let_def rational_new_Inr)
qed

lemma imul_bounds:
  assumes "rat_ok a" and "0 \<le> f" and "fits64 (f * num a)"
  shows "\<exists>x. imul a f = Inr x \<and> x * den a \<le> f * num a \<and> f * num a < (x + 1) * den a"
proof -
  have d: "0 < den a" and n: "0 \<le> f * num a" using assms by (auto simp: rat_ok_def)
  then have "imul a f = Inr (f * num a div den a)" using assms(3) by (simp add: imul_def c_div_nonneg)
  moreover have "f * num a div den a * den a \<le> f * num a"
    using d by (metis mult.commute pos_mod_sign minus_mod_eq_mult_div diff_ge_0_iff_ge diff_diff_eq2 add_diff_cancel_left' diff_add_cancel le_add_same_cancel1)
  moreover have "f * num a < (f * num a div den a + 1) * den a"
    using d by (simp add: algebra_simps) (metis add.commute add_le_cancel_left div_mult_mod_eq mult.commute not_le pos_mod_bound add_less_cancel_left)
  ultimately show ?thesis by blast
qed

text \<open>Up to rounding, which exact arithmetic leaves out, the value of a product is the product of the values.\<close>

lemma rat_mul_toDouble:
  assumes "rat_ok a" and "rat_ok b" and "rat_mul a b = Inr r"
  shows "toDouble of_int (/) r = toDouble of_int (/) a * (toDouble of_int (/) b :: 'd :: field_char_0)"
proof -
  from rat_mul_value [OF assms] have v: "num r * (den a * den b) = num a * num b * den r" "0 < den r" by (auto simp: rat_ok_def)
  have "of_int (num r) * (of_int (den a) * of_int (den b)) = (of_int (num a) * of_int (num b) * of_int (den r) :: 'd)"
    using v(1) by (metis of_int_mult)
  with v(2) assms(1,2) show ?thesis by (simp add: toDouble_def rat_ok_def frac_eq_eq)
qed

subsection \<open>Properties\<close>

text \<open>\<open>operator*=\<close> on two valid frame rates gives their product in lowest terms exactly when both
  parts fit in 32 bits, and stops with the overflow error otherwise; the 64-bit intermediates never
  overflow.\<close>

lemma rational_product:
  assumes "rat_ok a" and "rat_ok b"
  shows "fits64 (num a * num b) \<and> fits64 (den a * den b) \<and>
    (case rat_mul a b of
       Inr r \<Rightarrow> rat_ok r \<and> num r * (den a * den b) = num a * num b * den r \<and> coprime (num r) (den r)
     | Inl e \<Rightarrow> e = Fatal ''Overflow while multiplying'' \<and>
         \<not> (fits32 (num a * num b div gcd (num a * num b) (den a * den b)) \<and>
            fits32 (den a * den b div gcd (num a * num b) (den a * den b))))"
proof -
  have small: "fits64 (x * y)" if "0 \<le> x" "0 \<le> y" "fits32 x" "fits32 y" for x y
  proof -
    have "x < 2 ^ 31" "y < 2 ^ 31" using that by (auto simp: fits32_def)
    then have "x * y \<le> 2 ^ 31 * 2 ^ 31" using that by (intro mult_mono) auto
    moreover have "0 \<le> x * y" using that by simp
    ultimately show ?thesis by (simp add: fits64_def)
  qed
  have "fits64 (num a * num b)" "fits64 (den a * den b)" using assms by (auto simp: rat_ok_def intro!: small)
  moreover define A where "A \<longleftrightarrow> fits32 (num a * num b div gcd (num a * num b) (den a * den b)) \<and>
      fits32 (den a * den b div gcd (num a * num b) (den a * den b))"
  then obtain r where "rat_mul a b = (if A then Inr r else Inl (Fatal ''Overflow while multiplying''))"
    using rat_mul_cases [OF assms] by metis
  ultimately show ?thesis unfolding A_def [symmetric]
    using rat_mul_value [OF assms, of r] by (cases A) simp_all
qed

theorem rational_product_witness:
  "case rat_mul \<lparr>num = 60000, den = 1001\<rparr> \<lparr>num = 1001, den = 1000\<rparr> of
     Inr r \<Rightarrow> num r * (1001 * 1000) = 60000 * 1001 * den r | Inl e \<Rightarrow> e = Fatal ''Overflow while multiplying''"
  using rational_product [of "\<lparr>num = 60000, den = 1001\<rparr>" "\<lparr>num = 1001, den = 1000\<rparr>"]
  by (simp add: rat_ok_def fits32_def split: sum.splits)

end
