(* ===== verification/Log.thy ===== *)
theory Log
  imports Prelude
begin

text \<open>
  \<open>src/src/common/log.h\<close> and \<open>log.cpp\<close>: the program's logger and the sink that forwards ffmpeg's log lines. ffmpeg's level constants are
  parameters (an \<open>av_levels\<close> record), the static 4096 byte buffer is a list of characters. The formatted
  line is given as a whole; \<open>vsnprintf\<close> stores at most 4094 of its characters and a terminator, but
  returns its full length.
\<close>

record av_levels =
  AV_LOG_FATAL :: int
  AV_LOG_ERROR :: int
  AV_LOG_WARNING :: int
  AV_LOG_INFO :: int

datatype log_level = Critical | Err | Warn | Info | Debug

definition map_level :: "av_levels \<Rightarrow> int \<Rightarrow> log_level" where
  "map_level av lv =
     (if lv \<le> AV_LOG_FATAL av then Critical
      else if lv \<le> AV_LOG_ERROR av then Err
      else if lv \<le> AV_LOG_WARNING av then Warn
      else if lv \<le> AV_LOG_INFO av then Info
      else Debug)"

definition vsnprintf :: "string \<Rightarrow> nat \<Rightarrow> string \<Rightarrow> string \<times> nat" where
  "vsnprintf buf n line = (overwrite buf 0 (take (n - 1) line @ [CHR 0x00]), length line)"

definition newline :: "char \<Rightarrow> bool" where
  "newline c \<longleftrightarrow> c = CHR 0x0A \<or> c = CHR 0x0D"

fun strip_newlines :: "string \<Rightarrow> nat \<Rightarrow> (string \<times> nat) res" where
  "strip_newlines buf 0 = Inr (buf, 0)"
| "strip_newlines buf (Suc n) =
     (if length buf \<le> n then Inl Undef
      else if newline (buf ! n) then strip_newlines (buf[n := CHR 0x00]) n
      else Inr (buf, Suc n))"

text \<open>The buffer afterwards, and the level and text that are logged (\<open>None\<close> below the threshold).\<close>

definition libav_log_sink ::
  "av_levels \<Rightarrow> (log_level \<Rightarrow> bool) \<Rightarrow> int \<Rightarrow> string \<Rightarrow> string \<Rightarrow> (string \<times> (log_level \<times> string) option) res" where
  "libav_log_sink av should_log level line buf =
     (let lv = map_level av level in
      if \<not> should_log lv then Inr (buf, None)
      else let (buf1, len) = vsnprintf buf 4095 line in
        rbind (strip_newlines buf1 len) (\<lambda>(buf2, n).
          if n \<le> length buf2 then Inr (buf2, Some (lv, take n buf2)) else Inl Undef))"

definition strip_end :: "string \<Rightarrow> string" where
  "strip_end s = rev (dropWhile newline (rev s))"

lemma strip_newlines_take:
  "n \<le> length buf \<Longrightarrow> \<exists>buf' k. strip_newlines buf n = Inr (buf', k) \<and> length buf' = length buf \<and> k \<le> n \<and>
     take k buf' = strip_end (take n buf)"
proof (induction n arbitrary: buf)
  case 0
  then show ?case by (simp add: strip_end_def)
next
  case (Suc n)
  have tk: "take (Suc n) buf = take n buf @ [buf ! n]" using Suc.prems by (simp add: take_Suc_conv_app_nth)
  show ?case
  proof (cases "newline (buf ! n)")
    case True
    have "n \<le> length (buf[n := CHR 0x00])" using Suc.prems by simp
    from Suc.IH [OF this] obtain buf' k where
      r: "strip_newlines (buf[n := CHR 0x00]) n = Inr (buf', k)" "length buf' = length buf" "k \<le> n"
        "take k buf' = strip_end (take n (buf[n := CHR 0x00]))" by auto
    with True Suc.prems tk show ?thesis by (simp add: strip_end_def)
  next
    case False
    with Suc.prems tk show ?thesis by (simp add: strip_end_def)
  qed
qed

lemma libav_log_sink_line:
  assumes "length buf = 4096" and "length line \<le> 4094" and "should_log (map_level av level)"
  shows "\<exists>buf'. libav_log_sink av should_log level line buf = Inr (buf', Some (map_level av level, strip_end line))
    \<and> length buf' = 4096"
proof -
  define buf1 where "buf1 = overwrite buf 0 (line @ [CHR 0x00])"
  have len: "length buf1 = 4096" "length line \<le> length buf1" using assms(1,2) by (auto simp: buf1_def)
  have "take (length line) buf1 = line" by (simp add: buf1_def overwrite_def)
  moreover obtain buf' k where r: "strip_newlines buf1 (length line) = Inr (buf', k)" "length buf' = length buf1"
    "k \<le> length line" "take k buf' = strip_end (take (length line) buf1)"
    using strip_newlines_take [OF len(2)] by blast
  ultimately show ?thesis using assms len
    by (simp add: libav_log_sink_def vsnprintf_def Let_def buf1_def)
qed

text \<open>A line longer than the buffer makes the strip loop start beyond the buffer's end.\<close>

lemma libav_log_sink_long:
  assumes "length buf = 4096" and "4096 < length line" and "should_log (map_level av level)"
  shows "libav_log_sink av should_log level line buf = Inl Undef"
proof -
  obtain n where "length line = Suc n" "4096 \<le> n" using assms(2) by (cases "length line") auto
  then show ?thesis using assms by (simp add: libav_log_sink_def vsnprintf_def)
qed

subsection \<open>The program's own lines\<close>

text \<open>
  A \<open>NamedLogger\<close> puts its name before the text. \<open>setupLogger\<close> may be called once; it installs the sinks as the default
  logger, unless one of the name exists, and then the sink above. What of it happened is the record \<open>log_setup\<close>.
\<close>

definition nl_log :: "(log_level \<Rightarrow> bool) \<Rightarrow> string \<Rightarrow> log_level \<Rightarrow> string \<Rightarrow> (log_level \<times> string) option" where
  "nl_log should_log name lvl msg = (if \<not> should_log lvl then None else Some (lvl, ''[twilight] '' @ name @ '': '' @ msg))"

text \<open>With arguments, the name becomes part of the pattern that \<open>spdlog\<close> fills in (\<open>format\<close>).\<close>

definition nl_log_args :: "(string \<Rightarrow> 'a list \<Rightarrow> string) \<Rightarrow> (log_level \<Rightarrow> bool) \<Rightarrow> string \<Rightarrow> log_level \<Rightarrow> string \<Rightarrow> 'a list \<Rightarrow>
    (log_level \<times> string) option" where
  "nl_log_args format should_log name lvl pattern args =
     (if \<not> should_log lvl then None else Some (lvl, format (''[twilight] '' @ name @ '': '' @ pattern) args))"

text \<open>One function per level; the quitters log at the highest one and throw.\<close>

definition nl_critical :: "(log_level \<Rightarrow> bool) \<Rightarrow> string \<Rightarrow> string \<Rightarrow> (log_level \<times> string) option" where
  "nl_critical should_log name msg = nl_log should_log name Critical msg"

definition nl_error :: "(log_level \<Rightarrow> bool) \<Rightarrow> string \<Rightarrow> string \<Rightarrow> (log_level \<times> string) option" where
  "nl_error should_log name msg = nl_log should_log name Err msg"

definition nl_warn :: "(log_level \<Rightarrow> bool) \<Rightarrow> string \<Rightarrow> string \<Rightarrow> (log_level \<times> string) option" where
  "nl_warn should_log name msg = nl_log should_log name Warn msg"

definition nl_info :: "(log_level \<Rightarrow> bool) \<Rightarrow> string \<Rightarrow> string \<Rightarrow> (log_level \<times> string) option" where
  "nl_info should_log name msg = nl_log should_log name Info msg"

definition nl_debug :: "(log_level \<Rightarrow> bool) \<Rightarrow> string \<Rightarrow> string \<Rightarrow> (log_level \<times> string) option" where
  "nl_debug should_log name msg = nl_log should_log name Debug msg"

definition nl_critical_args :: "(string \<Rightarrow> 'a list \<Rightarrow> string) \<Rightarrow> (log_level \<Rightarrow> bool) \<Rightarrow> string \<Rightarrow> string \<Rightarrow> 'a list \<Rightarrow> (log_level \<times> string) option" where
  "nl_critical_args format should_log name msg args = nl_log_args format should_log name Critical msg args"

definition nl_error_args :: "(string \<Rightarrow> 'a list \<Rightarrow> string) \<Rightarrow> (log_level \<Rightarrow> bool) \<Rightarrow> string \<Rightarrow> string \<Rightarrow> 'a list \<Rightarrow> (log_level \<times> string) option" where
  "nl_error_args format should_log name msg args = nl_log_args format should_log name Err msg args"

definition nl_warn_args :: "(string \<Rightarrow> 'a list \<Rightarrow> string) \<Rightarrow> (log_level \<Rightarrow> bool) \<Rightarrow> string \<Rightarrow> string \<Rightarrow> 'a list \<Rightarrow> (log_level \<times> string) option" where
  "nl_warn_args format should_log name msg args = nl_log_args format should_log name Warn msg args"

definition nl_info_args :: "(string \<Rightarrow> 'a list \<Rightarrow> string) \<Rightarrow> (log_level \<Rightarrow> bool) \<Rightarrow> string \<Rightarrow> string \<Rightarrow> 'a list \<Rightarrow> (log_level \<times> string) option" where
  "nl_info_args format should_log name msg args = nl_log_args format should_log name Info msg args"

definition nl_debug_args :: "(string \<Rightarrow> 'a list \<Rightarrow> string) \<Rightarrow> (log_level \<Rightarrow> bool) \<Rightarrow> string \<Rightarrow> string \<Rightarrow> 'a list \<Rightarrow> (log_level \<times> string) option" where
  "nl_debug_args format should_log name msg args = nl_log_args format should_log name Debug msg args"

definition nl_error_quit :: "(log_level \<Rightarrow> bool) \<Rightarrow> string \<Rightarrow> string \<Rightarrow> (log_level \<times> string) option \<times> 'r res" where
  "nl_error_quit should_log name msg = (nl_critical should_log name msg, Inl (Fatal msg))"

definition nl_assert_quit :: "(log_level \<Rightarrow> bool) \<Rightarrow> string \<Rightarrow> bool \<Rightarrow> string \<Rightarrow> (log_level \<times> string) option \<times> unit res" where
  "nl_assert_quit should_log name assertion msg =
     (if assertion then (None, Inr ()) else nl_error_quit should_log name msg)"

definition nl_error_quit_args :: "(string \<Rightarrow> 'a list \<Rightarrow> string) \<Rightarrow> (log_level \<Rightarrow> bool) \<Rightarrow> string \<Rightarrow> string \<Rightarrow> 'a list \<Rightarrow>
    (log_level \<times> string) option \<times> 'r res" where
  "nl_error_quit_args format should_log name msg args = (nl_critical_args format should_log name msg args, Inl (Fatal msg))"

definition nl_assert_quit_args :: "(string \<Rightarrow> 'a list \<Rightarrow> string) \<Rightarrow> (log_level \<Rightarrow> bool) \<Rightarrow> string \<Rightarrow> bool \<Rightarrow> string \<Rightarrow> 'a list \<Rightarrow>
    (log_level \<times> string) option \<times> unit res" where
  "nl_assert_quit_args format should_log name assertion msg args =
     (if assertion then (None, Inr ()) else nl_error_quit_args format should_log name msg args)"

text \<open>
  The rest of the library leaves the logged lines out: its \<open>error_quit\<close> and \<open>assert_quit\<close> are the results of these functions, and an
  assertion that holds logs nothing.
\<close>

lemma quitters_refine:
  "snd (nl_error_quit should_log name msg) = error_quit msg"
  "snd (nl_assert_quit should_log name c msg) = assert_quit c msg"
  "snd (nl_assert_quit_args format should_log name c msg args) = assert_quit c msg"
  by (simp_all add: nl_error_quit_def nl_assert_quit_def nl_assert_quit_args_def nl_error_quit_args_def error_quit_def assert_quit_def)

lemma assert_quit_logs: "fst (nl_assert_quit should_log name c msg) =
    (if \<not> c \<and> should_log Critical then Some (Critical, ''[twilight] '' @ name @ '': '' @ msg) else None)"
  by (simp add: nl_assert_quit_def nl_error_quit_def nl_critical_def nl_log_def)

record log_setup =
  ls_initialized :: bool
  ls_registered :: bool
  ls_default :: bool
  ls_ffmpeg :: bool

definition setupLogger :: "log_setup \<Rightarrow> log_setup res" where
  "setupLogger s =
     rbind (assert_quit (\<not> ls_initialized s) ''Loggers already initialized!'') (\<lambda>_.
     let s1 = s\<lparr>ls_initialized := True\<rparr>;
         s2 = (if ls_registered s1 then s1 else s1\<lparr>ls_registered := True, ls_default := True\<rparr>) in
       Inr (s2\<lparr>ls_ffmpeg := True\<rparr>))"

text \<open>\<open>mbedtls_strerror\<close> writes at most 255 characters and a terminator into the 256 given.\<close>

definition interpretMbedtlsError :: "(int \<Rightarrow> string) \<Rightarrow> int \<Rightarrow> string" where
  "interpretMbedtlsError strerror errnum =
     (let ret = overwrite (replicate 256 CHR 0x00) 0 (take 255 (strerror errnum) @ [CHR 0x00])
      in takeWhile (\<lambda>c. c \<noteq> CHR 0x00) ret)"

text \<open>A second call ends the program, whatever the first one found.\<close>

lemma setup_once: "setupLogger s = Inr s' \<Longrightarrow> setupLogger s' = Inl (Fatal ''Loggers already initialized!'') \<and> ls_registered s' \<and> ls_ffmpeg s'"
  by (auto simp: setupLogger_def rbind_eq_Inr Let_def)

lemma error_text: "CHR 0x00 \<notin> set (strerror e) \<Longrightarrow> interpretMbedtlsError strerror e = take 255 (strerror e)"
  by (auto simp: interpretMbedtlsError_def overwrite_def Let_def takeWhile_append dest: in_set_takeD)

subsection \<open>Properties\<close>

text \<open>Ffmpeg's lines reach the log. A line that fits the buffer is logged once, at the level its
  ffmpeg level maps to, without its trailing newlines; a line longer than the buffer makes the sink read
  and write beyond the end of its static buffer.\<close>

lemma log_sink:
  assumes "length buf = 4096" and "should_log (map_level av level)"
  shows "(length line \<le> 4094 \<longrightarrow> (\<exists>buf'. libav_log_sink av should_log level line buf =
       Inr (buf', Some (map_level av level, strip_end line)) \<and> length buf' = 4096)) \<and>
    (4096 < length line \<longrightarrow> libav_log_sink av should_log level line buf = Inl Undef)"
  using libav_log_sink_line [of buf line should_log av level] libav_log_sink_long [of buf line should_log av level]
    assms by blast

theorem log_sink_witness:
  "\<exists>buf'. libav_log_sink \<lparr>AV_LOG_FATAL = 8, AV_LOG_ERROR = 16, AV_LOG_WARNING = 24, AV_LOG_INFO = 32\<rparr>
      (\<lambda>_. True) 24 [CHR ''x'', CHR 0x0A] (replicate 4096 CHR 0x00) = Inr (buf', Some (Warn, ''x'')) \<and> length buf' = 4096"
  using log_sink [of "replicate 4096 CHR 0x00" "\<lambda>_. True"
      "\<lparr>AV_LOG_FATAL = 8, AV_LOG_ERROR = 16, AV_LOG_WARNING = 24, AV_LOG_INFO = 32\<rparr>" 24 "[CHR ''x'', CHR 0x0A]"]
  by (simp add: map_level_def strip_end_def newline_def)

end
