(* ===== verification/CertHash.thy ===== *)
theory CertHash
  imports Util
begin

text \<open>
  \<open>CertHash\<close> of \<open>src/src/common/CertHash.h\<close> and \<open>CertHash.cpp\<close>: the fingerprint of an X.509
  certificate by which both ends of the program recognise a peer they were paired with.

  The content of a \<open>ByteBuffer\<close> is its byte list (theory \<open>ByteBuffer\<close>). mbedtls is a parameter:
  \<open>sha256\<close> and the base64 coder, a record of the status code and the result of each call.
\<close>

record crypto =
  sha256 :: "bytes \<Rightarrow> int \<times> bytes"
  b64_encode :: "bytes \<Rightarrow> int \<times> string"
  b64_decode :: "string \<Rightarrow> int \<times> bytes"

datatype hash_type = INVALID | RAW | SHA256

fun hash_code :: "hash_type \<Rightarrow> int" where
  "hash_code INVALID = -1"
| "hash_code RAW = 0"
| "hash_code SHA256 = 1"

record cert_hash =
  ch_type :: hash_type
  ch_hash :: bytes

definition ch_default :: cert_hash where
  "ch_default = \<lparr>ch_type = INVALID, ch_hash = []\<rparr>"

text \<open>The hash is cloned.\<close>

definition ch_assign :: "cert_hash \<Rightarrow> cert_hash \<Rightarrow> cert_hash" where
  "ch_assign this copy = this\<lparr>ch_type := ch_type copy, ch_hash := ch_hash copy\<rparr>"

definition isValid :: "cert_hash \<Rightarrow> bool" where
  "isValid h \<longleftrightarrow> ch_type h \<noteq> INVALID"

definition hashBytesSHA256 :: "crypto \<Rightarrow> bytes \<Rightarrow> bytes res" where
  "hashBytesSHA256 c raw = (let r = sha256 c raw in if fst r \<noteq> 0 then Inl Aborted else Inr (snd r))"

fun computeHash :: "crypto \<Rightarrow> hash_type \<Rightarrow> bytes \<Rightarrow> bytes res" where
  "computeHash c RAW content = Inr content"
| "computeHash c SHA256 content =
     (let r = sha256 c content in if fst r \<noteq> 0 then Inl Aborted else Inr (snd r))"
| "computeHash c INVALID content = Inl Aborted"

definition decodeBase64 :: "crypto \<Rightarrow> string \<Rightarrow> bytes res" where
  "decodeBase64 c content =
     (let r = b64_decode c content
      in if fst r \<noteq> 0 then error_quit ''Failed to call mbedtls_base64_decode'' else Inr (snd r))"

text \<open>\<open>ByteBuffer::intoBase64String\<close>: the length is computed before the call and must agree with it.\<close>

definition intoBase64String :: "crypto \<Rightarrow> bytes \<Rightarrow> string res" where
  "intoBase64String c bs =
     (let olen = 4 * ((length bs + 2) div 3); r = b64_encode c bs
      in if fst r \<noteq> 0 \<or> olen \<noteq> length (snd r) then Inl Aborted else Inr (snd r))"

definition digest :: "crypto \<Rightarrow> hash_type \<Rightarrow> bytes \<Rightarrow> cert_hash res" where
  "digest c ty pubkey = rbind (computeHash c ty pubkey) (\<lambda>h. Inr \<lparr>ch_type = ty, ch_hash = h\<rparr>)"

text \<open>The callback of \<open>fromRepr\<close>, on the segment counter and the result under construction.\<close>

definition repr_segment :: "crypto \<Rightarrow> string \<Rightarrow> nat \<times> cert_hash \<Rightarrow> (nat \<times> cert_hash) res" where
  "repr_segment c seg st =
     (let cnt = fst st; ret = snd st in
      if cnt > 0 \<and> ch_type ret = INVALID then Inr st
      else if cnt = 0
      then Inr (cnt + 1, ret\<lparr>ch_type := if seg = ''raw'' then RAW
                                      else if seg = ''sha256'' then SHA256 else INVALID\<rparr>)
      else if cnt = 1
      then rbind (decodeBase64 c seg) (\<lambda>h. Inr (cnt + 1, ret\<lparr>ch_hash := h\<rparr>))
      else Inr (cnt + 1, ret\<lparr>ch_type := INVALID\<rparr>))"

fun repr_loop :: "crypto \<Rightarrow> string list \<Rightarrow> nat \<times> cert_hash \<Rightarrow> (nat \<times> cert_hash) res" where
  "repr_loop c [] st = Inr st"
| "repr_loop c (seg # segs) st = rbind (repr_segment c seg st) (repr_loop c segs)"

definition fromRepr :: "crypto \<Rightarrow> string \<Rightarrow> cert_hash res" where
  "fromRepr c repr =
     rbind (repr_loop c (stringSplit repr CHR '':'') (0, ch_default)) (\<lambda>st. Inr (snd st))"

definition PREFIX_TABLE :: "string list" where
  "PREFIX_TABLE = [''raw:'', ''sha256:'']"

definition getRepr :: "crypto \<Rightarrow> cert_hash \<Rightarrow> string res" where
  "getRepr c h =
     (let hashType = hash_code (ch_type h) in
      if hashType < 0 \<or> int (length PREFIX_TABLE) \<le> hashType then Inr ''invalid:''
      else rbind (intoBase64String c (ch_hash h)) (\<lambda>s. Inr (PREFIX_TABLE ! nat hashType @ s)))"

definition compare_cert :: "crypto \<Rightarrow> cert_hash \<Rightarrow> bytes \<Rightarrow> bool res" where
  "compare_cert c h cert =
     rbind (computeHash c (ch_type h) cert) (\<lambda>otherHash.
       if length (ch_hash h) \<noteq> length otherHash then Inr False
       else secureMemcmp (ch_hash h) otherHash (length (ch_hash h)))"

subsection \<open>Fingerprints\<close>

text \<open>What the program relies on of the base64 coder: it inverts itself and never emits a colon.\<close>

definition b64_ok :: "crypto \<Rightarrow> bytes \<Rightarrow> bool" where
  "b64_ok c bs \<longleftrightarrow> fst (b64_encode c bs) = 0 \<and> length (snd (b64_encode c bs)) = 4 * ((length bs + 2) div 3) \<and>
     CHR '':'' \<notin> set (snd (b64_encode c bs)) \<and> b64_decode c (snd (b64_encode c bs)) = (0, bs)"

lemma split_two:
  "CHR '':'' \<notin> set s \<Longrightarrow> CHR '':'' \<notin> set t \<Longrightarrow> stringSplit (s @ CHR '':'' # t) CHR '':'' = [s, t]"
  using stringSplit_join_with [of "[s, t]" "CHR '':''"] by simp

lemma stringSplit_one: "CHR '':'' \<notin> set s \<Longrightarrow> stringSplit s CHR '':'' = [s]"
  using stringSplit_join_with [of "[s]" "CHR '':''"] by simp

lemma fromRepr_getRepr:
  assumes "b64_ok c (ch_hash h)" and "isValid h"
  shows "rbind (getRepr c h) (fromRepr c) = Inr h"
proof -
  let ?e = "snd (b64_encode c (ch_hash h))"
  have enc: "intoBase64String c (ch_hash h) = Inr ?e" "decodeBase64 c ?e = Inr (ch_hash h)"
    "CHR '':'' \<notin> set ?e"
    using assms(1) by (auto simp: b64_ok_def intoBase64String_def decodeBase64_def)
  show ?thesis
  proof (cases "ch_type h")
    case INVALID
    with assms(2) show ?thesis by (simp add: isValid_def)
  next
    case RAW
    then show ?thesis using enc split_two [of "''raw''" ?e]
      by (simp add: getRepr_def PREFIX_TABLE_def fromRepr_def repr_segment_def ch_default_def)
  next
    case SHA256
    then show ?thesis using enc split_two [of "''sha256''" ?e]
      by (simp add: getRepr_def PREFIX_TABLE_def fromRepr_def repr_segment_def ch_default_def)
  qed
qed

lemma compare_cert_eq:
  "computeHash c (ch_type h) cert = Inr x \<Longrightarrow> compare_cert c h cert = Inr (ch_hash h = x)"
  by (auto simp: compare_cert_def secureMemcmp_eq)

lemma compare_digest: "digest c ty cert = Inr h \<Longrightarrow> compare_cert c h cert' = Inr True \<longleftrightarrow>
    computeHash c ty cert' = computeHash c ty cert"
proof -
  assume "digest c ty cert = Inr h"
  then obtain x where x: "computeHash c ty cert = Inr x" "h = \<lparr>ch_type = ty, ch_hash = x\<rparr>"
    by (auto simp: digest_def)
  show ?thesis
  proof (cases "computeHash c ty cert'")
    case (Inl e)
    with x show ?thesis by (simp add: compare_cert_def)
  next
    case (Inr y)
    then have "compare_cert c h cert' = Inr (x = y)" using compare_cert_eq [of c h cert' y] x by simp
    with Inr x show ?thesis by auto
  qed
qed

text \<open>A bare type name is a valid fingerprint with an empty hash.\<close>

lemma fromRepr_bare: "fromRepr c ''sha256'' = Inr \<lparr>ch_type = SHA256, ch_hash = []\<rparr>"
  by (simp add: fromRepr_def stringSplit_one repr_segment_def ch_default_def)

text \<open>A third segment, or an unknown type name, makes the fingerprint invalid.\<close>

lemma repr_loop_invalid:
  "0 < fst st \<Longrightarrow> ch_type (snd st) = INVALID \<Longrightarrow> repr_loop c segs st = Inr st"
  by (induction segs) (auto simp: repr_segment_def)

lemma fromRepr_unknown:
  assumes "stringSplit repr CHR '':'' = seg # segs" and "seg \<noteq> ''raw''" "seg \<noteq> ''sha256''"
  shows "fromRepr c repr = Inr ch_default"
  using assms by (simp add: fromRepr_def repr_segment_def ch_default_def repr_loop_invalid)

subsection \<open>Properties\<close>

text \<open>A fingerprint survives its text form. For a valid fingerprint whose hash the base64 coder
  inverts, \<open>getRepr\<close> returns a string and \<open>fromRepr\<close> of that string the same fingerprint; and a fingerprint
  taken by \<open>digest\<close> matches a certificate exactly when the certificate has the same hash.\<close>

lemma fingerprint_roundtrip:
  assumes "digest c ty cert = Inr h" and "b64_ok c (ch_hash h)"
  shows "rbind (getRepr c h) (fromRepr c) = Inr h \<and>
    (compare_cert c h cert' = Inr True \<longleftrightarrow> computeHash c ty cert' = computeHash c ty cert)"
proof -
  have "isValid h" using assms(1) by (cases ty) (auto simp: digest_def isValid_def rbind_eq_Inr)
  with fromRepr_getRepr [OF assms(2)] compare_digest [OF assms(1)] show ?thesis by simp
qed

text \<open>A small coder for concrete runs: two letters a byte, padded to base64's length.\<close>

definition sample_crypto :: crypto where
  "sample_crypto = \<lparr>sha256 = (\<lambda>bs. (0, take 3 (bs @ [0, 0, 0]))),
     b64_encode = (\<lambda>bs. (0, ''AAAA'')), b64_decode = (\<lambda>s. (0, [7, 0, 0]))\<rparr>"

theorem fingerprint_roundtrip_witness:
  "rbind (getRepr sample_crypto \<lparr>ch_type = SHA256, ch_hash = [7, 0, 0]\<rparr>) (fromRepr sample_crypto) =
     Inr \<lparr>ch_type = SHA256, ch_hash = [7, 0, 0]\<rparr>"
proof -
  have d: "digest sample_crypto SHA256 [7] = Inr \<lparr>ch_type = SHA256, ch_hash = [7, 0, 0]\<rparr>"
    by (simp add: digest_def sample_crypto_def)
  have "b64_ok sample_crypto [7, 0, 0]" by (simp add: b64_ok_def sample_crypto_def)
  with fingerprint_roundtrip [OF d] show ?thesis by simp
qed

end
