(* ===== verification/Packet.thy ===== *)
theory Packet
  imports Prelude
begin

text \<open>
  The messages of the protocol: \<open>src/src/common/protobuf/*.proto\<close>. A message is a record, a proto
  enum a datatype whose last constructor carries an unknown number, \<open>Packet\<close> a record of
  \<open>extra_data_len\<close> and the \<open>oneof\<close>. A field that was never set has its proto default. The two
  floats of a cursor shape are kept as their 32-bit patterns: the program only copies them here.
\<close>

datatype codec = CODEC_INVALID | H264_BASELINE | CODEC_OTHER int

datatype intro_status = INTRO_UNKNOWN | INTRO_OK | VERSION_MISMATCH | AUTH_REQUIRED | INTRO_OTHER int

datatype caps_status = CAPS_UNKNOWN | CAPS_OK | CAPS_UNSUPPORTED_CODEC | CAPS_OTHER int

datatype config_status =
  CONFIG_UNKNOWN | CONFIG_OK | CONFIG_UNSUPPORTED_CODEC | ALREADY_STREAMING | CONFIG_OTHER int

datatype start_status = START_UNKNOWN | START_OK | INVALID_CONFIGURATION | START_OTHER int

datatype auth_status =
  UNKNOWN_ERROR | AUTH_OK | INCORRECT_PIN | NONCE_TOO_SHORT | NO_CERT | AUTH_OTHER int

datatype cursor_format = RGBA | RGBA_XOR | FORMAT_OTHER int

record client_intro =
  ci_protocol_version :: int
  ci_commit_name :: string

record server_intro =
  si_protocol_version :: int
  si_commit_name :: string
  si_status :: intro_status

record ping_request =
  pr_id :: u32
  pr_latency :: int
  pr_jitter :: int

record ping_response =
  ps_id :: u32
  ps_time :: u64

record host_caps =
  hc_status :: caps_status
  hc_codec :: codec
  hc_native_width :: int
  hc_native_height :: int
  hc_native_fps_num :: int
  hc_native_fps_den :: int
  hc_max_width :: int
  hc_max_height :: int
  hc_max_fps_num :: int
  hc_max_fps_den :: int

record configure_request =
  cr_codec :: codec
  cr_width :: int
  cr_height :: int
  cr_fps_num :: int
  cr_fps_den :: int

record configure_response =
  cs_status :: config_status
  cs_capture_width :: int
  cs_capture_height :: int
  cs_video_width :: int
  cs_video_height :: int

record desktop_frame =
  df_cursor_visible :: bool
  df_cursor_x :: int
  df_cursor_y :: int
  df_is_idr :: bool
  df_time_captured :: u64
  df_time_encoded :: u64

record cursor_shape_msg =
  cm_format :: cursor_format
  cm_width :: int
  cm_height :: int
  cm_hotspot_x :: u32
  cm_hotspot_y :: u32

datatype msg =
    MSG_NOT_SET
  | DesktopFrameMsg desktop_frame
  | CursorShapeMsg cursor_shape_msg
  | AudioFrame int bool
  | ClientIntro client_intro
  | ServerIntro server_intro
  | QueryHostCapsRequest codec
  | QueryHostCapsResponse host_caps
  | ConfigureStreamRequest configure_request
  | ConfigureStreamResponse configure_response
  | StartStreamRequest
  | StartStreamResponse start_status
  | StopStreamRequest
  | StopStreamResponse
  | PingRequest ping_request
  | PingResponse ping_response
  | AuthRequest string int
  | ServerPartialHashNotify int
  | ServerNonceNotify
  | ClientNonceNotify
  | AuthResponse auth_status string

record packet =
  extra_data_len :: int
  body :: msg

definition packet_init :: packet where
  "packet_init = \<lparr>extra_data_len = 0, body = MSG_NOT_SET\<rparr>"

text \<open>The default of a response whose fields are filled one by one.\<close>

definition host_caps_init :: host_caps where
  "host_caps_init = \<lparr>hc_status = CAPS_UNKNOWN, hc_codec = CODEC_INVALID, hc_native_width = 0,
     hc_native_height = 0, hc_native_fps_num = 0, hc_native_fps_den = 0, hc_max_width = 0,
     hc_max_height = 0, hc_max_fps_num = 0, hc_max_fps_den = 0\<rparr>"

definition configure_response_init :: configure_response where
  "configure_response_init = \<lparr>cs_status = CONFIG_UNKNOWN, cs_capture_width = 0,
     cs_capture_height = 0, cs_video_width = 0, cs_video_height = 0\<rparr>"

text \<open>An answer without extra data: \<open>pkt.set_extra_data_len(0)\<close> and the body.\<close>

definition reply :: "msg \<Rightarrow> packet" where
  "reply m = \<lparr>extra_data_len = 0, body = m\<rparr>"

lemma reply_simps [simp]: "extra_data_len (reply m) = 0" "body (reply m) = m"
  by (simp_all add: reply_def)

end
