(* ===== verification/Frame.thy ===== *)
theory Frame
  imports Packet
begin

text \<open>
  \<open>DesktopFrame<T>\<close> of \<open>src/src/common/DesktopFrame.h\<close>, what every stage of both pipelines hands on:
  a picture in some form, the cursor, the five time stamps (microseconds, -1 when unset) and the key
  frame flag. Shared cursor objects are values here: no stage changes one after it is published.
\<close>

record cursor_pos =
  cp_visible :: bool
  cp_x :: int
  cp_y :: int

datatype cursor_shape_format = CS_RGBA | CS_RGBA_XOR | CS_FORMAT_OTHER int

record cursor_shape =
  cs_width :: int
  cs_height :: int
  cs_hotspotX :: int
  cs_hotspotY :: int
  cs_format :: cursor_shape_format
  cs_image :: bytes

record 'a frame_of =
  desktop :: 'a
  cursorPos :: "cursor_pos option"
  cursorShape :: "cursor_shape option"
  timeCaptured :: int
  timeEncoded :: int
  timeReceived :: int
  timeDecoded :: int
  timePresented :: int
  isIDR :: bool

definition frame_init :: "'a \<Rightarrow> 'a frame_of" where
  "frame_init d = \<lparr>desktop = d, cursorPos = None, cursorShape = None, timeCaptured = -1,
     timeEncoded = -1, timeReceived = -1, timeDecoded = -1, timePresented = -1, isIDR = False\<rparr>"

definition getOtherType :: "'a frame_of \<Rightarrow> 'b \<Rightarrow> 'b frame_of" where
  "getOtherType f newDesktop = \<lparr>desktop = newDesktop, cursorPos = cursorPos f,
     cursorShape = cursorShape f, timeCaptured = timeCaptured f, timeEncoded = timeEncoded f,
     timeReceived = timeReceived f, timeDecoded = timeDecoded f, timePresented = timePresented f,
     isIDR = isIDR f\<rparr>"

definition frame_swap :: "'a frame_of \<times> 'a frame_of \<Rightarrow> 'a frame_of \<times> 'a frame_of" where
  "frame_swap p = (snd p, fst p)"

text \<open>Everything but the picture, as a stage passes it on.\<close>

lemma getOtherType_simps [simp]:
  "desktop (getOtherType f d) = d"
  "cursorPos (getOtherType f d) = cursorPos f"
  "cursorShape (getOtherType f d) = cursorShape f"
  "timeCaptured (getOtherType f d) = timeCaptured f"
  "timeEncoded (getOtherType f d) = timeEncoded f"
  "isIDR (getOtherType f d) = isIDR f"
  by (simp_all add: getOtherType_def)

lemma getOtherType_twice [simp]: "getOtherType (getOtherType f d) e = getOtherType f e"
  by (simp add: getOtherType_def)

lemma getOtherType_id: "getOtherType f (desktop f) = f"
  by (simp add: getOtherType_def)

end
