(* ===== verification/KnownClients.thy ===== *)
theory KnownClients
  imports CertHash
begin

text \<open>
  \<open>KnownClients\<close> of \<open>src/src/server/KnownClients.h\<close> and \<open>.cpp\<close>: the fingerprints of the paired clients
  and their file. toml11 is a parameter: \<open>toml\<close> is a parsed value as its accessors show it, the parser's
  outcome (an exception, or the root) is an argument, and \<open>fmt\<close> prints a one-entry table.
\<close>

datatype toml =
    TString string
  | TArray "toml list"
  | TTable "(string \<times> toml) list"
  | TDatetime int
  | TUninitialized
  | TOther

datatype parse_error = RuntimeError string | SyntaxError string

text \<open>\<open>value[key]\<close>: an absent key is uninitialised; a value that is no table throws.\<close>

definition toml_at :: "(string \<times> toml) list \<Rightarrow> string \<Rightarrow> toml" where
  "toml_at t k = (case map_of t k of None \<Rightarrow> TUninitialized | Some v \<Rightarrow> v)"

fun toml_index :: "toml \<Rightarrow> string \<Rightarrow> toml res" where
  "toml_index (TTable t) k = Inr (toml_at t k)"
| "toml_index TUninitialized k = Inr TUninitialized"
| "toml_index v k = Inl (Fatal ''toml::type_error'')"

record known_clients =
  clients :: "cert_hash list"

definition kc_init :: known_clients where
  "kc_init = \<lparr>clients = []\<rparr>"

definition add :: "cert_hash \<Rightarrow> known_clients \<Rightarrow> known_clients" where
  "add h kc = kc\<lparr>clients := clients kc @ [h]\<rparr>"

definition list_clients :: "known_clients \<Rightarrow> cert_hash list" where
  "list_clients kc = clients kc"

fun load_loop :: "crypto \<Rightarrow> toml list \<Rightarrow> cert_hash list \<Rightarrow> cert_hash list res" where
  "load_loop c [] acc = Inr acc"
| "load_loop c (now # arr) acc =
     rbind (toml_index now ''fingerprint'') (\<lambda>v.
       (case v of
          TString s \<Rightarrow> rbind (fromRepr c s) (\<lambda>h. load_loop c arr (if isValid h then acc @ [h] else acc))
        | _ \<Rightarrow> load_loop c arr acc))"

definition kc_load :: "crypto \<Rightarrow> toml list \<Rightarrow> known_clients \<Rightarrow> known_clients res" where
  "kc_load c arr kc = rbind (load_loop c arr []) (\<lambda>hs. Inr (kc\<lparr>clients := hs\<rparr>))"

definition loadFile :: "crypto \<Rightarrow> (parse_error + toml) \<Rightarrow> known_clients \<Rightarrow> (bool \<times> known_clients) res" where
  "loadFile c parsed kc =
     (case parsed of
        Inl e \<Rightarrow> Inr (False, kc)
      | Inr root \<Rightarrow>
          rbind (toml_index root ''clients'') (\<lambda>v.
            (case v of
               TArray arr \<Rightarrow> rbind (kc_load c arr kc) (\<lambda>kc'. Inr (True, kc'))
             | _ \<Rightarrow> Inr (True, kc))))"

fun save_loop :: "crypto \<Rightarrow> (string \<Rightarrow> string \<Rightarrow> string) \<Rightarrow> cert_hash list \<Rightarrow> string res" where
  "save_loop c fmt [] = Inr []"
| "save_loop c fmt (now # hs) =
     rbind (getRepr c now) (\<lambda>repr.
     rbind (save_loop c fmt hs) (\<lambda>rest.
       Inr (''[[clients]]'' @ [CHR 0x0A] @ fmt ''fingerprint'' repr @ [CHR 0x0A] @ [CHR 0x0A] @ rest)))"

text \<open>\<open>good\<close> is whether the file opened; the text that was written is the second component.\<close>

definition saveFile :: "crypto \<Rightarrow> (string \<Rightarrow> string \<Rightarrow> string) \<Rightarrow> bool \<Rightarrow> known_clients \<Rightarrow> (bool \<times> string) res" where
  "saveFile c fmt good kc =
     (if \<not> good then Inr (False, [])
      else rbind (save_loop c fmt (clients kc)) (\<lambda>s. Inr (True, s)))"

subsection \<open>Saving and loading\<close>

definition client_entry :: "string \<Rightarrow> toml" where
  "client_entry repr = TTable [(''fingerprint'', TString repr)]"

fun reprs :: "crypto \<Rightarrow> cert_hash list \<Rightarrow> string list res" where
  "reprs c [] = Inr []"
| "reprs c (h # hs) = rbind (getRepr c h) (\<lambda>r. rbind (reprs c hs) (\<lambda>rs. Inr (r # rs)))"

lemma load_loop_reprs:
  "\<forall>h\<in>set hs. isValid h \<and> b64_ok c (ch_hash h) \<Longrightarrow> reprs c hs = Inr rs \<Longrightarrow>
     load_loop c (map client_entry rs) acc = Inr (acc @ hs)"
proof (induction hs arbitrary: rs acc)
  case Nil
  then show ?case by simp
next
  case (Cons h hs)
  from Cons.prems(2) obtain r rt where r: "getRepr c h = Inr r" "reprs c hs = Inr rt" "rs = r # rt"
    by (auto simp: rbind_eq_Inr)
  from fromRepr_getRepr [of c h] r(1) Cons.prems(1) have "fromRepr c r = Inr h" by simp
  with Cons r show ?case by (simp add: client_entry_def toml_at_def)
qed

lemma save_loop_reprs: "save_loop c fmt hs = Inr s \<Longrightarrow> \<exists>rs. reprs c hs = Inr rs"
  by (induction hs arbitrary: s) (auto simp: rbind_eq_Inr)

text \<open>Whatever happens, only valid fingerprints are kept.\<close>

lemma load_loop_valid:
  "load_loop c arr acc = Inr hs \<Longrightarrow> \<forall>h\<in>set acc. isValid h \<Longrightarrow> \<forall>h\<in>set hs. isValid h"
proof (induction arr arbitrary: acc)
  case Nil
  then show ?case by simp
next
  case (Cons now arr)
  from Cons.prems(1) obtain v where v: "toml_index now ''fingerprint'' = Inr v" by (auto simp: rbind_eq_Inr)
  have "\<exists>acc'. load_loop c arr acc' = Inr hs \<and> (\<forall>h\<in>set acc'. isValid h)"
  proof (cases v)
    case (TString s)
    with Cons.prems v obtain h where "fromRepr c s = Inr h"
      "load_loop c arr (if isValid h then acc @ [h] else acc) = Inr hs" by (auto simp: rbind_eq_Inr)
    with Cons.prems(2) show ?thesis by (intro exI [of _ "if isValid h then acc @ [h] else acc"]) auto
  qed (use Cons.prems v in auto)
  then show ?case using Cons.IH by blast
qed

subsection \<open>Properties\<close>



end
