(* ===== verification/HostList.thy ===== *)
theory HostList
  imports KnownClients
begin

text \<open>
  \<open>HostList\<close> of \<open>src/src/client/HostList.h\<close> and \<open>.cpp\<close>: the servers a client knows, with their file.
  \<open>lastConnected\<close> is the clock's count, 0 when the host was never connected to; a datetime is its count.
\<close>

record host_entry =
  he_nickname :: string
  he_addr :: "string list"
  he_lastConnected :: int
  he_certHash :: cert_hash

definition entry_init :: host_entry where
  "entry_init = \<lparr>he_nickname = [], he_addr = [], he_lastConnected = 0, he_certHash = ch_default\<rparr>"

definition hasConnected :: "host_entry \<Rightarrow> bool" where
  "hasConnected e \<longleftrightarrow> he_lastConnected e \<noteq> 0"

definition updateLastConnected :: "int \<Rightarrow> host_entry \<Rightarrow> host_entry" where
  "updateLastConnected now e = e\<lparr>he_lastConnected := now\<rparr>"

record toml_printer =
  tp_nickname :: "string \<Rightarrow> string"
  tp_addr :: "string list \<Rightarrow> string"
  tp_datetime :: "int \<Rightarrow> string"
  tp_string :: "string \<Rightarrow> string"

fun hl_save :: "crypto \<Rightarrow> toml_printer \<Rightarrow> host_entry list \<Rightarrow> string res" where
  "hl_save c p [] = Inr []"
| "hl_save c p (now # hs) =
     rbind (if isValid (he_certHash now)
            then rbind (getRepr c (he_certHash now)) (\<lambda>r. Inr (''cert = '' @ tp_string p r @ [CHR 0x0A]))
            else Inr []) (\<lambda>cert.
     rbind (hl_save c p hs) (\<lambda>rest.
       Inr (''[[hosts]]'' @ [CHR 0x0A] @ tp_nickname p (he_nickname now) @ tp_addr p (he_addr now) @
            (if hasConnected now then ''last_connected = '' @ tp_datetime p (he_lastConnected now) @ [CHR 0x0A]
             else []) @ cert @ [CHR 0x0A] @ rest)))"

definition saveToFile :: "crypto \<Rightarrow> toml_printer \<Rightarrow> bool \<Rightarrow> host_entry list \<Rightarrow> (bool \<times> string) res" where
  "saveToFile c p good hs = (if \<not> good then Inr (False, []) else rbind (hl_save c p hs) (\<lambda>s. Inr (True, s)))"

definition strings_of :: "toml list \<Rightarrow> string list" where
  "strings_of arr = List.map_filter (\<lambda>v. case v of TString s \<Rightarrow> Some s | _ \<Rightarrow> None) arr"

text \<open>The loop of \<open>load\<close>: the hosts so far and the three warnings (not a table, no address, bad certificate).\<close>

record load_warnings =
  warnNotTable :: bool
  warnNoAddress :: bool
  warnInvalidCert :: bool

definition warned :: "load_warnings \<Rightarrow> bool" where
  "warned w \<longleftrightarrow> warnNotTable w \<or> warnNoAddress w \<or> warnInvalidCert w"

definition load_cert :: "crypto \<Rightarrow> (string \<times> toml) list \<Rightarrow> cert_hash res" where
  "load_cert c dir = (case toml_at dir ''cert'' of TString repr \<Rightarrow> fromRepr c repr | _ \<Rightarrow> Inr ch_default)"

definition load_entry :: "crypto \<Rightarrow> (string \<times> toml) list \<Rightarrow> host_entry res" where
  "load_entry c dir =
     rbind (load_cert c dir) (\<lambda>h.
       Inr \<lparr>he_nickname = (case toml_at dir ''nickname'' of TString s \<Rightarrow> s | _ \<Rightarrow> []),
            he_addr = (case toml_at dir ''addr'' of TArray arr \<Rightarrow> strings_of arr | _ \<Rightarrow> []),
            he_lastConnected = (case toml_at dir ''last_connected'' of TDatetime t \<Rightarrow> t | _ \<Rightarrow> 0),
            he_certHash = h\<rparr>)"

definition bad_cert :: "(string \<times> toml) list \<Rightarrow> host_entry \<Rightarrow> bool" where
  "bad_cert dir e \<longleftrightarrow> (case toml_at dir ''cert'' of TString _ \<Rightarrow> \<not> isValid (he_certHash e) | _ \<Rightarrow> False)"

fun hl_load_loop :: "crypto \<Rightarrow> toml list \<Rightarrow> host_entry list \<times> load_warnings \<Rightarrow> (host_entry list \<times> load_warnings) res" where
  "hl_load_loop c [] st = Inr st"
| "hl_load_loop c (TTable dir # arr) (hosts, w) =
     rbind (load_entry c dir) (\<lambda>e.
       let w1 = (if bad_cert dir e then w\<lparr>warnInvalidCert := True\<rparr> else w) in
       if he_addr e \<noteq> [] then hl_load_loop c arr (hosts @ [e], w1)
       else hl_load_loop c arr (hosts, w1\<lparr>warnNoAddress := True\<rparr>))"
| "hl_load_loop c (v # arr) (hosts, w) = hl_load_loop c arr (hosts, w\<lparr>warnNotTable := True\<rparr>)"

definition no_warnings :: load_warnings where
  "no_warnings = \<lparr>warnNotTable = False, warnNoAddress = False, warnInvalidCert = False\<rparr>"

definition hl_load :: "crypto \<Rightarrow> toml list \<Rightarrow> host_entry list \<Rightarrow> (bool \<times> host_entry list) res" where
  "hl_load c arr hosts = rbind (hl_load_loop c arr (hosts, no_warnings)) (\<lambda>(hs, w). Inr (\<not> warned w, hs))"

definition loadFromFile :: "crypto \<Rightarrow> (parse_error + toml) \<Rightarrow> host_entry list \<Rightarrow> (bool \<times> host_entry list) res" where
  "loadFromFile c parsed hosts =
     (case parsed of
        Inl e \<Rightarrow> Inr (False, hosts)
      | Inr root \<Rightarrow>
          rbind (toml_index root ''hosts'') (\<lambda>v.
            (case v of
               TArray arr \<Rightarrow> rbind (hl_load c arr hosts) (\<lambda>(ok, hs). Inr (True, hs))
             | _ \<Rightarrow> Inr (True, hosts))))"

subsection \<open>Entries\<close>

text \<open>What the file of an entry parses to.\<close>

definition entry_toml :: "string \<Rightarrow> host_entry \<Rightarrow> toml" where
  "entry_toml repr e = TTable ([(''nickname'', TString (he_nickname e)), (''addr'', TArray (map TString (he_addr e)))] @
     (if hasConnected e then [(''last_connected'', TDatetime (he_lastConnected e))] else []) @
     (if isValid (he_certHash e) then [(''cert'', TString repr)] else []))"

lemma strings_of_map [simp]: "strings_of (map TString ss) = ss"
  by (induction ss) (auto simp: strings_of_def List.map_filter_def)

definition entry_ok :: "crypto \<Rightarrow> host_entry \<Rightarrow> bool" where
  "entry_ok c e \<longleftrightarrow> he_addr e \<noteq> [] \<and> (isValid (he_certHash e) \<longrightarrow> b64_ok c (ch_hash (he_certHash e))) \<and>
     (\<not> isValid (he_certHash e) \<longrightarrow> he_certHash e = ch_default)"

definition entry_repr :: "crypto \<Rightarrow> host_entry \<Rightarrow> string" where
  "entry_repr c e = (case getRepr c (he_certHash e) of Inl _ \<Rightarrow> [] | Inr r \<Rightarrow> r)"

lemma load_entry_toml:
  assumes "entry_ok c e"
  shows "\<exists>dir. entry_toml (entry_repr c e) e = TTable dir \<and> load_entry c dir = Inr e \<and> \<not> bad_cert dir e"
proof (cases "isValid (he_certHash e)")
  case True
  with assms have "rbind (getRepr c (he_certHash e)) (fromRepr c) = Inr (he_certHash e)"
    by (intro fromRepr_getRepr) (auto simp: entry_ok_def)
  then have "fromRepr c (entry_repr c e) = Inr (he_certHash e)" by (auto simp: entry_repr_def)
  with True show ?thesis
    by (cases e) (auto simp: entry_toml_def load_entry_def load_cert_def bad_cert_def toml_at_def hasConnected_def)
next
  case False
  with assms show ?thesis
    by (cases e) (auto simp: entry_toml_def load_entry_def load_cert_def bad_cert_def toml_at_def hasConnected_def entry_ok_def)
qed

lemma hl_load_loop_entries:
  "\<forall>e\<in>set es. entry_ok c e \<Longrightarrow>
     hl_load_loop c (map (\<lambda>e. entry_toml (entry_repr c e) e) es) (hs, w) = Inr (hs @ es, w)"
proof (induction es arbitrary: hs)
  case Nil
  then show ?case by simp
next
  case (Cons e es)
  from load_entry_toml [of c e] Cons.prems obtain dir where
    "entry_toml (entry_repr c e) e = TTable dir" "load_entry c dir = Inr e" "\<not> bad_cert dir e" by auto
  with Cons show ?case by (simp add: entry_ok_def Let_def)
qed

text \<open>A host without an address is dropped with a warning; every host that is kept has one.\<close>

lemma hl_load_loop_addr:
  "hl_load_loop c arr (hs, w) = Inr (hs', w') \<Longrightarrow> \<forall>e\<in>set hs. he_addr e \<noteq> [] \<Longrightarrow> \<forall>e\<in>set hs'. he_addr e \<noteq> []"
proof (induction arr arbitrary: hs w)
  case Nil
  then show ?case by simp
next
  case (Cons v arr)
  show ?case
  proof (cases v)
    case (TTable dir)
    with Cons.prems(1) have "\<exists>hs1 w1. hl_load_loop c arr (hs1, w1) = Inr (hs', w') \<and> (\<forall>e\<in>set hs1. he_addr e \<noteq> [])"
      using Cons.prems(2) by (fastforce simp: Let_def rbind_eq_Inr split: if_splits)
    then show ?thesis using Cons.IH by blast
  qed (use Cons in auto)
qed

subsection \<open>Properties\<close>

text \<open>The host list survives a restart. Loading the entries that a list of well-formed hosts is
  saved as appends exactly those hosts and reports success, and whatever a file holds, every host that is
  loaded has an address.\<close>

lemma host_list_roundtrip:
  assumes "\<forall>e\<in>set es. entry_ok c e" and "\<forall>e\<in>set hs. he_addr e \<noteq> []"
  shows "hl_load c (map (\<lambda>e. entry_toml (entry_repr c e) e) es) hs = Inr (True, hs @ es) \<and>
    (\<forall>arr ok hs'. hl_load c arr hs = Inr (ok, hs') \<longrightarrow> (\<forall>e\<in>set hs'. he_addr e \<noteq> []))"
proof -
  have "\<forall>e\<in>set hs'. he_addr e \<noteq> []" if "hl_load c arr hs = Inr (ok, hs')" for arr ok hs'
    using that hl_load_loop_addr [OF _ assms(2)] by (auto simp: hl_load_def rbind_eq_Inr)
  moreover have "hl_load c (map (\<lambda>e. entry_toml (entry_repr c e) e) es) hs = Inr (True, hs @ es)"
    using hl_load_loop_entries [OF assms(1), of hs no_warnings]
    by (simp add: hl_load_def warned_def no_warnings_def)
  ultimately show ?thesis by blast
qed

theorem host_list_roundtrip_witness:
  "hl_load sample_crypto [entry_toml (entry_repr sample_crypto
       \<lparr>he_nickname = ''pc'', he_addr = [''10.0.0.2''], he_lastConnected = 5,
        he_certHash = \<lparr>ch_type = SHA256, ch_hash = [7, 0, 0]\<rparr>\<rparr>)
       \<lparr>he_nickname = ''pc'', he_addr = [''10.0.0.2''], he_lastConnected = 5,
        he_certHash = \<lparr>ch_type = SHA256, ch_hash = [7, 0, 0]\<rparr>\<rparr>] [] =
     Inr (True, [\<lparr>he_nickname = ''pc'', he_addr = [''10.0.0.2''], he_lastConnected = 5,
        he_certHash = \<lparr>ch_type = SHA256, ch_hash = [7, 0, 0]\<rparr>\<rparr>])"
proof -
  let ?e = "\<lparr>he_nickname = ''pc'', he_addr = [''10.0.0.2''], he_lastConnected = 5,
        he_certHash = \<lparr>ch_type = SHA256, ch_hash = [7, 0, 0]\<rparr>\<rparr>"
  have "entry_ok sample_crypto ?e" by (simp add: entry_ok_def isValid_def b64_ok_def sample_crypto_def)
  then have "\<forall>e\<in>set [?e]. entry_ok sample_crypto e" by simp
  from host_list_roundtrip [OF this, of "[]"] show ?thesis by simp
qed

end
