(* ===== verification/Pin.thy ===== *)
theory Pin
  imports ByteBuffer
begin

text \<open>
  The pairing PIN. Both ends compute it from the two certificates and the two nonces
  (\<open>computePin\<close> of \<open>src/src/server/Connection.cpp\<close> and of \<open>src/src/client/StreamClient.cpp\<close>, the same
  code twice), the client shows it (\<open>StreamWindow::displayPin_\<close>), and the server's user types it
  (the end of \<open>Connection::msg_clientNonceNotify_\<close>). SHA-512 is the parameter \<open>sha512\<close>: the status
  and the 64 bytes \<open>mbedtls_sha512_ret\<close> writes.
\<close>

unbundle bit_operations_syntax

subsection \<open>Computing it\<close>

text \<open>The first eight bytes of the hash, little endian.\<close>

definition hash_value :: "bytes \<Rightarrow> u64" where
  "hash_value hash =
     ucast (hash ! 0) OR push_bit 8 (ucast (hash ! 1)) OR push_bit 16 (ucast (hash ! 2)) OR
     push_bit 24 (ucast (hash ! 3)) OR push_bit 32 (ucast (hash ! 4)) OR push_bit 40 (ucast (hash ! 5)) OR
     push_bit 48 (ucast (hash ! 6)) OR push_bit 56 (ucast (hash ! 7))"

definition pin_of :: "int \<times> bytes \<Rightarrow> int" where
  "pin_of r = (if fst r < 0 then fst r else int (unat (hash_value (snd r)) mod 100000000))"

definition bb_bytes :: "byte_buffer \<Rightarrow> bytes" where
  "bb_bytes b = map the (bb_cells b)"

definition computePin ::
  "(nat \<Rightarrow> bool) \<Rightarrow> (bytes \<Rightarrow> int \<times> bytes) \<Rightarrow> byte_buffer \<Rightarrow> byte_buffer \<Rightarrow> byte_buffer \<Rightarrow> byte_buffer \<Rightarrow> int res" where
  "computePin mem sha512 serverCert clientCert serverNonce clientNonce =
     rbind (bb_new mem 64) (\<lambda>hash.
     rbind (reserve mem (sz_add (sz_add (sz_add (buf_size serverCert) (buf_size clientCert))
                                        (buf_size serverNonce)) (buf_size clientNonce)) bb_empty) (\<lambda>p0.
     rbind (append_buffer mem serverCert p0) (\<lambda>p1.
     rbind (append_buffer mem clientCert p1) (\<lambda>p2.
     rbind (append_buffer mem serverNonce p2) (\<lambda>p3.
     rbind (append_buffer mem clientNonce p3) (\<lambda>payload.
       Inr (pin_of (sha512 (bb_bytes payload)))))))))"

definition client_computePin :: "(bytes \<Rightarrow> int \<times> bytes) \<Rightarrow> bytes \<Rightarrow> bytes \<Rightarrow> bytes \<Rightarrow> bytes \<Rightarrow> int" where
  "client_computePin sha512 serverCert clientCert serverNonce clientNonce =
     (let payload = serverCert @ clientCert @ serverNonce @ clientNonce;
          (ret, hash) = sha512 payload
      in if ret < 0 then ret
         else let value = hash_value hash in int (unat value mod 100000000))"

subsection \<open>Showing it\<close>

text \<open>\<open>QString("%1").arg(v, 4, 10, '0')\<close> for \<open>0 \<le> v < 10000\<close>: four digits.\<close>

definition digit :: "nat \<Rightarrow> char" where
  "digit d = char_of (48 + d)"

definition four_digits :: "nat \<Rightarrow> string" where
  "four_digits v = [digit (v div 1000 mod 10), digit (v div 100 mod 10), digit (v div 10 mod 10), digit (v mod 10)]"

definition displayPin :: "nat \<Rightarrow> string" where
  "displayPin pin = four_digits (pin div 10000) @ [CHR '' ''] @ four_digits (pin mod 10000)"

subsection \<open>Typing it\<close>

definition is_blank :: "char \<Rightarrow> bool" where
  "is_blank c \<longleftrightarrow> c = CHR '' '' \<or> c = CHR 0x09 \<or> c = CHR 0x0A \<or> c = CHR 0x0D"

definition is_digit :: "char \<Rightarrow> bool" where
  "is_digit c \<longleftrightarrow> (48::nat) \<le> of_char c \<and> of_char c \<le> (57::nat)"

text \<open>The loop over the line, up to its terminator; a value beyond \<open>int\<close> is an overflow.\<close>

fun pin_loop :: "string \<Rightarrow> int \<Rightarrow> int res" where
  "pin_loop [] enteredPin = Inr enteredPin"
| "pin_loop (c # cs) enteredPin =
     (if is_blank c then pin_loop cs enteredPin
      else if \<not> is_digit c then Inr (-1)
      else let v = enteredPin * 10 + (int (of_char c) - 48) in
           if fits32 v then pin_loop cs v else Inl Undef)"

text \<open>\<open>None\<close> is a \<open>fgets\<close> that read nothing: the buffer stays indeterminate.\<close>

definition enter_pin :: "string option \<Rightarrow> int res" where
  "enter_pin line =
     (case line of
        None \<Rightarrow> Inl Undef
      | Some cs \<Rightarrow> pin_loop cs (if cs \<noteq> [] then 0 else -1))"

subsection \<open>Both ends agree\<close>

lemma pin_of_bound: "0 \<le> fst r \<Longrightarrow> 0 \<le> pin_of r \<and> pin_of r < 100000000"
  by (simp add: pin_of_def)

lemma bb_bytes_holds: "bb_holds b xs \<Longrightarrow> bb_bytes b = xs"
  by (simp add: bb_bytes_def bb_holds_def comp_def)

lemma computePin_holds:
  assumes h: "bb_holds sc xs" "bb_holds cc ys" "bb_holds sn zs" "bb_holds cn ws"
    and room: "grants mem (max 64 (length (xs @ ys @ zs @ ws)))" "length (xs @ ys @ zs @ ws) < SIZE_T_MOD"
  shows "computePin mem sha512 sc cc sn cn = Inr (client_computePin sha512 xs ys zs ws)"
proof -
  let ?n = "length (xs @ ys @ zs @ ws)"
  have g: "grants mem ?n \<and> ?n < SIZE_T_MOD" using room by (auto simp: grants_def)
  have g64: "grants mem 64" using room by (auto simp: grants_def)
  obtain hash where hash: "bb_new mem 64 = Inr hash" using resize_total [OF g64] by (auto simp: bb_new_def)
  have sz: "sz_add (sz_add (sz_add (buf_size sc) (buf_size cc)) (buf_size sn)) (buf_size cn) = ?n"
    using room(2) h by (simp add: bb_holds_size)
  have l: "list_all2 bb_holds [sc, cc, sn, cn] [xs, ys, zs, ws]" using h by simp
  have "length (concat [xs, ys, zs, ws]) = ?n" by simp
  with bb.reserve_append_all_holds [OF l, of mem ?n] g obtain b where
    b: "rbind (reserve mem ?n bb_empty) (append_all (append_buffer mem) [sc, cc, sn, cn]) = Inr b"
      "bb_holds b (xs @ ys @ zs @ ws)" by auto
  from b(1) obtain p0 p1 p2 p3 where steps: "reserve mem ?n bb_empty = Inr p0" "append_buffer mem sc p0 = Inr p1"
    "append_buffer mem cc p1 = Inr p2" "append_buffer mem sn p2 = Inr p3" "append_buffer mem cn p3 = Inr b"
    by (auto simp: rbind_eq_Inr)
  show ?thesis unfolding computePin_def sz hash steps rbind_Inr bb_bytes_holds [OF b(2)]
    by (simp add: client_computePin_def pin_of_def Let_def split: prod.splits)
qed

subsection \<open>What is shown can be typed\<close>

lemma of_char_digit: "d < 10 \<Longrightarrow> of_char (digit d) = 48 + d" for d :: nat
  by (simp add: digit_def of_char_of)

lemma digit_class: "d < 10 \<Longrightarrow> \<not> is_blank (digit d) \<and> is_digit (digit d)"
proof -
  assume d: "d < 10"
  have "digit d \<noteq> c" if "of_char c < (48::nat)" for c using that of_char_digit [OF d] by fastforce
  then have "\<not> is_blank (digit d)" by (simp add: is_blank_def)
  then show ?thesis using of_char_digit [OF d] d by (simp add: is_digit_def)
qed

lemma pin_loop_digit: "d < 10 \<Longrightarrow> 0 \<le> v \<Longrightarrow> v < 100000000 \<Longrightarrow>
    pin_loop (digit d # cs) v = pin_loop cs (v * 10 + int d)"
  using digit_class [of d] of_char_digit [of d] by (simp add: fits32_def)

text \<open>A line of digits with blanks anywhere among them is read as the number of its digits.\<close>

fun digits_value :: "nat list \<Rightarrow> int \<Rightarrow> int" where
  "digits_value [] v = v"
| "digits_value (d # ds) v = digits_value ds (v * 10 + int d)"

lemma digits_value_mono: "0 \<le> v \<Longrightarrow> v \<le> digits_value ds v"
proof (induction ds arbitrary: v)
  case Nil
  then show ?case by simp
next
  case (Cons d ds)
  have "v * 10 + int d \<le> digits_value ds (v * 10 + int d)" by (rule Cons.IH) (use Cons.prems in simp)
  then show ?case using Cons.prems by simp
qed

lemma pin_loop_digits:
  "filter (\<lambda>c. \<not> is_blank c) cs = map digit ds \<Longrightarrow> \<forall>d\<in>set ds. d < 10 \<Longrightarrow> 0 \<le> v \<Longrightarrow>
     digits_value ds v < 100000000 \<Longrightarrow> pin_loop cs v = Inr (digits_value ds v)"
proof (induction cs arbitrary: v ds)
  case Nil
  then show ?case by simp
next
  case (Cons c cs)
  show ?case
  proof (cases "is_blank c")
    case True
    with Cons show ?thesis by simp
  next
    case False
    with Cons.prems(1) obtain d es where ds: "ds = d # es" "c = digit d" by (cases ds) auto
    have "v \<le> digits_value ds v" using Cons.prems(3) by (rule digits_value_mono)
    with Cons.prems ds False have "pin_loop (digit d # cs) v = pin_loop cs (v * 10 + int d)"
      by (intro pin_loop_digit) auto
    with Cons ds False show ?thesis by simp
  qed
qed

definition pin_digits :: "nat \<Rightarrow> nat list" where
  "pin_digits pin =
     [pin div 10000 div 1000 mod 10, pin div 10000 div 100 mod 10, pin div 10000 div 10 mod 10, pin div 10000 mod 10,
      pin mod 10000 div 1000 mod 10, pin mod 10000 div 100 mod 10, pin mod 10000 div 10 mod 10, pin mod 10000 mod 10]"

lemma digits4:
  fixes v :: nat
  assumes "v < 10000"
  shows "v div 1000 mod 10 * 1000 + v div 100 mod 10 * 100 + v div 10 mod 10 * 10 + v mod 10 = v"
proof -
  define a b c where "a = v div 10" and "b = v div 100" and "c = v div 1000"
  have e: "b = a div 10" "c = b div 10" unfolding a_def b_def c_def by (simp_all flip: div_mult2_eq)
  have "v = a * 10 + v mod 10" "a = b * 10 + a mod 10" "b = c * 10 + b mod 10"
    unfolding e a_def by (simp_all only: div_mult_mod_eq)
  moreover have "c mod 10 = c" using assms by (simp add: c_def div_less_iff_less_mult)
  ultimately show ?thesis unfolding a_def [symmetric] b_def [symmetric] c_def [symmetric] by linarith
qed

lemma digits8: "digits_value [d1, d2, d3, d4, e1, e2, e3, e4] 0 =
    int ((d1 * 1000 + d2 * 100 + d3 * 10 + d4) * 10000 + (e1 * 1000 + e2 * 100 + e3 * 10 + e4))"
  by simp

lemma pin_digits_value: "pin < 100000000 \<Longrightarrow> digits_value (pin_digits pin) 0 = int pin"
proof -
  assume "pin < 100000000"
  then have hi: "pin div 10000 < 10000" and lo: "pin mod 10000 < 10000" by (auto simp: div_less_iff_less_mult)
  show ?thesis unfolding pin_digits_def digits8 digits4 [OF hi] digits4 [OF lo] by simp
qed

lemma four_digits_nonblank: "filter (\<lambda>c. \<not> is_blank c) (four_digits v) = four_digits v"
proof -
  have "\<not> is_blank (digit (d mod 10))" for d using digit_class [of "d mod 10"] by simp
  then show ?thesis unfolding filter_id_conv by (simp add: four_digits_def)
qed

lemma displayPin_digits: "filter (\<lambda>c. \<not> is_blank c) (displayPin pin) = map digit (pin_digits pin)"
proof -
  have "map digit (pin_digits pin) = four_digits (pin div 10000) @ four_digits (pin mod 10000)"
    by (simp only: pin_digits_def four_digits_def list.map append.simps)
  moreover have "is_blank CHR '' ''" by (simp add: is_blank_def)
  ultimately show ?thesis by (simp only: displayPin_def filter_append four_digits_nonblank filter.simps) simp
qed

lemma enter_displayed_pin:
  assumes "pin < 100000000" and "filter (\<lambda>c. \<not> is_blank c) line = filter (\<lambda>c. \<not> is_blank c) (displayPin pin)"
  shows "enter_pin (Some line) = Inr (int pin)"
proof -
  have "\<forall>d\<in>set (pin_digits pin). d < 10" by (auto simp: pin_digits_def)
  with assms pin_loop_digits [of line "pin_digits pin" 0] pin_digits_value [of pin] displayPin_digits [of pin]
  have "pin_loop line 0 = Inr (int pin)" by simp
  moreover have "line \<noteq> []" using assms(2) displayPin_digits [of pin] by (auto simp: pin_digits_def)
  ultimately show ?thesis by (simp add: enter_pin_def)
qed

text \<open>The prompt says that enter cancels; an empty line is read as the PIN 0 instead.\<close>

lemma enter_empty_line: "enter_pin (Some [CHR 0x0A]) = Inr 0"
  by (simp add: enter_pin_def is_blank_def)

subsection \<open>Properties\<close>

text \<open>C31: both ends compute the same PIN. On buffers that hold the two certificates and the two nonces the
  server's buffer code returns exactly what the client computes from the same bytes, and a PIN that is no
  error is below one hundred million.\<close>

theorem pin_agreement:
  assumes "bb_holds sc xs" "bb_holds cc ys" "bb_holds sn zs" "bb_holds cn ws"
    and "grants mem (max 64 (length (xs @ ys @ zs @ ws)))" "length (xs @ ys @ zs @ ws) < SIZE_T_MOD"
  shows "\<exists>pin. computePin mem sha512 sc cc sn cn = Inr pin \<and> pin = client_computePin sha512 xs ys zs ws \<and>
    (0 \<le> fst (sha512 (xs @ ys @ zs @ ws)) \<longrightarrow> 0 \<le> pin \<and> pin < 100000000)"
  using computePin_holds [OF assms] by (auto simp: client_computePin_def Let_def split: prod.splits)

theorem pin_agreement_witness:
  "\<exists>pin. computePin (\<lambda>_. True) (\<lambda>bs. (0, bs @ replicate 60 1)) \<lparr>buf_ptr = Some [Some 1], buf_capacity = 1, buf_size = 1\<rparr>
      bb_empty bb_empty bb_empty = Inr pin \<and> pin = client_computePin (\<lambda>bs. (0, bs @ replicate 60 1)) [1] [] [] []"
proof -
  have h: "bb_holds \<lparr>buf_ptr = Some [Some 1], buf_capacity = 1, buf_size = 1\<rparr> [1]"
    by (simp add: bb_holds_def bb_inv_def bb_cells_def block_def)
  from pin_agreement [OF h bb_holds_empty bb_holds_empty bb_holds_empty, of "\<lambda>_. True" "\<lambda>bs. (0, bs @ replicate 60 1)"]
  show ?thesis by (simp add: grants_def SIZE_T_MOD_def)
qed

text \<open>The displayed PIN is accepted. Whatever blanks and line ends are typed between the digits that
  the client displays, the server's prompt reads the PIN they stand for, without overflow; but an empty line,
  which the prompt offers for cancelling, is read as the PIN 0.\<close>

lemma typed_pin:
  assumes "pin < 100000000" and "filter (\<lambda>c. \<not> is_blank c) line = filter (\<lambda>c. \<not> is_blank c) (displayPin pin)"
  shows "enter_pin (Some line) = Inr (int pin) \<and> enter_pin (Some [CHR 0x0A]) = Inr 0"
  using enter_displayed_pin [OF assms] enter_empty_line by simp

theorem typed_pin_witness:
  "enter_pin (Some (''0001 23 45'' @ [CHR 0x0A])) = Inr 12345 \<and> enter_pin (Some [CHR 0x0A]) = Inr 0"
proof -
  have "filter (\<lambda>c. \<not> is_blank c) (''0001 23 45'' @ [CHR 0x0A]) = filter (\<lambda>c. \<not> is_blank c) (displayPin 12345)"
    unfolding displayPin_digits by (simp add: is_blank_def pin_digits_def digit_def char_of_def bit_Suc_0_iff)
  from typed_pin [OF _ this] show ?thesis by simp
qed

end
