(* ===== verification/NetworkSocket.thy ===== *)
theory NetworkSocket
  imports CertHash Packet
begin

text \<open>
  \<open>NetworkSocket\<close> of \<open>src/src/common/net\<close>: packets over TLS. A packet goes out as its length, its
  serialised form and its extra data; \<open>recv\<close> reads the same three parts back.

  The state is the record \<open>socket\<close>. mbedtls and protobuf are parameters: \<open>tls_answers\<close> lists what
  the coming \<open>mbedtls_ssl_write\<close> calls return, \<open>tls_out\<close> collects the bytes they take; a record
  \<open>proto\<close> holds the serialiser and the operations of \<open>CodedInputStream\<close> on a stream state
  \<open>'s\<close>, with \<open>stream_error\<close> the error code the stream's source has reported. \<open>onDisconnected\<close> is
  recorded in \<open>disconnect_events\<close>. Locks are not modelled: \<open>send\<close> and \<open>recv\<close> hold their own for
  the whole call.
\<close>

subsection \<open>State and parameters\<close>

record 's proto =
  grow_ok :: "nat \<Rightarrow> bool"
  ByteSizeLong :: "packet \<Rightarrow> nat"
  WriteVarint64 :: "nat \<Rightarrow> bytes"
  SerializeToCodedStream :: "packet \<Rightarrow> bytes option"
  ReadVarintSizeAsInt :: "'s \<Rightarrow> int option \<times> 's"
  PushLimit :: "int \<Rightarrow> 's \<Rightarrow> int \<times> 's"
  ParseFromCodedStream :: "'s \<Rightarrow> packet option \<times> 's"
  ConsumedEntireMessage :: "'s \<Rightarrow> bool"
  PopLimit :: "int \<Rightarrow> 's \<Rightarrow> 's"
  ReadRaw :: "nat \<Rightarrow> bytes \<Rightarrow> 's \<Rightarrow> (bool \<times> bytes) \<times> 's"
  Skip :: "nat \<Rightarrow> 's \<Rightarrow> 's"
  stream_error :: "'s \<Rightarrow> int option"
  tls_strerror :: "int \<Rightarrow> string"

record 's socket =
  connected :: bool
  has_onDisconnected :: bool
  disconnect_events :: "string list"
  tls_answers :: "int list"
  tls_out :: bytes
  inputStream :: "'s option"
  incoming :: 's
  peer_cert :: "bytes option"
  verify_flags :: u32
  expectedRemoteCerts :: "cert_hash list"

subsection \<open>Disconnecting\<close>

definition call_onDisconnected :: "string \<Rightarrow> 's socket \<Rightarrow> 's socket" where
  "call_onDisconnected m sk =
     (if has_onDisconnected sk then sk\<lparr>disconnect_events := disconnect_events sk @ [m]\<rparr> else sk)"

definition disconnect :: "'s socket \<Rightarrow> 's socket" where
  "disconnect sk = (if connected sk then call_onDisconnected [] (sk\<lparr>connected := False\<rparr>) else sk)"

definition reportDisconnected :: "'s proto \<Rightarrow> int \<Rightarrow> 's socket \<Rightarrow> 's socket" where
  "reportDisconnected P errnum sk =
     (if connected sk then call_onDisconnected (tls_strerror P errnum) (sk\<lparr>connected := False\<rparr>) else sk)"

text \<open>The destructor clears \<open>connected\<close> before it calls \<open>disconnect\<close>.\<close>

definition socket_destroy :: "'s socket \<Rightarrow> 's socket" where
  "socket_destroy sk =
     (let prev = connected sk; sk1 = sk\<lparr>connected := False\<rparr> in if prev then disconnect sk1 else sk1)"

subsection \<open>Sending\<close>

text \<open>
  The loop over \<open>mbedtls_ssl_write\<close>: \<open>Some r\<close> is the negative status that ended it. The call gets
  \<open>len - offset\<close> bytes from \<open>data\<close>, so a shorter block is read beyond its end; a status above the
  request breaks the call's contract.
\<close>

fun ssl_write_loop :: "bytes \<Rightarrow> nat \<Rightarrow> nat \<Rightarrow> int list \<Rightarrow> bytes \<Rightarrow> (int option \<times> int list \<times> bytes) res" where
  "ssl_write_loop data len offset [] out = (if offset < len then Inl Blocked else Inr (None, [], out))"
| "ssl_write_loop data len offset (r # rs) out =
     (if offset < len
      then (if length data < len then Inl Undef
            else if r < 0 then Inr (Some r, rs, out)
            else if len - offset < nat r then Inl Undef
            else ssl_write_loop data len (offset + nat r) rs (out @ take (nat r) (drop offset data)))
      else Inr (None, r # rs, out))"

definition ssl_write_all :: "'s proto \<Rightarrow> bytes \<Rightarrow> nat \<Rightarrow> 's socket \<Rightarrow> (bool \<times> 's socket) res" where
  "ssl_write_all P data len sk =
     rbind (ssl_write_loop data len 0 (tls_answers sk) (tls_out sk)) (\<lambda>(err, answers, out).
       let sk1 = sk\<lparr>tls_answers := answers, tls_out := out\<rparr> in
       (case err of None \<Rightarrow> Inr (True, sk1) | Some r \<Rightarrow> Inr (False, reportDisconnected P r sk1)))"

definition send :: "'s proto \<Rightarrow> packet \<Rightarrow> bytes option \<Rightarrow> 's socket \<Rightarrow> (bool \<times> 's socket) res" where
  "send P pkt extraData sk =
     (let packetLen = ByteSizeLong P pkt;
          bufferSize = sz_add packetLen 16;
          extraDataLen = sz_of_int (extra_data_len pkt);
          lenBytes = WriteVarint64 P packetLen
      in rbind (assert_quit (grow_ok P bufferSize) ''Failed to allocate memory'') (\<lambda>_.
         if sz_sub bufferSize (length lenBytes) < packetLen then Inr (False, sk)
         else (case SerializeToCodedStream P pkt of
             None \<Rightarrow> Inr (False, sk)
           | Some ser \<Rightarrow>
               rbind (ssl_write_all P (lenBytes @ ser) (length (lenBytes @ ser)) sk) (\<lambda>(ok, sk1).
                 if \<not> ok then Inr (False, sk1)
                 else if extraDataLen > 0
                 then (case extraData of
                         None \<Rightarrow> error_quit ''Extra data is nullptr''
                       | Some ds \<Rightarrow> ssl_write_all P ds extraDataLen sk1)
                 else Inr (True, sk1)))))"

subsection \<open>Receiving\<close>

text \<open>The error callback of \<open>SocketInputWrapper\<close> runs inside the read that meets the error.\<close>

definition set_stream :: "'s proto \<Rightarrow> 's \<Rightarrow> 's socket \<Rightarrow> 's socket" where
  "set_stream P s sk =
     (let sk1 = sk\<lparr>inputStream := Some s\<rparr> in
      (case stream_error P s of None \<Rightarrow> sk1 | Some e \<Rightarrow> reportDisconnected P e sk1))"

definition recv_extra :: "'s proto \<Rightarrow> packet \<Rightarrow> bytes option \<Rightarrow> 's \<Rightarrow> 's socket \<Rightarrow>
    ((packet option \<times> bytes option) \<times> 's socket) res" where
  "recv_extra P pkt extraData s sk =
     (let extraDataLen = extra_data_len pkt in
      if extraDataLen > 0
      then (case extraData of
          Some d \<Rightarrow>
            rbind (assert_quit (grow_ok P (nat extraDataLen)) ''Failed to allocate memory'') (\<lambda>_.
              let ((ok, d'), s') = ReadRaw P (nat extraDataLen) d s;
                  sk' = set_stream P s' sk
              in if \<not> ok then Inr ((None, Some d'), sk') else Inr ((Some pkt, Some d'), sk'))
        | None \<Rightarrow> Inr ((Some pkt, None), set_stream P (Skip P (nat extraDataLen) s) sk))
      else Inr ((Some pkt, extraData), set_stream P s sk))"

definition recv_from :: "'s proto \<Rightarrow> bytes option \<Rightarrow> 's \<Rightarrow> 's socket \<Rightarrow>
    ((packet option \<times> bytes option) \<times> 's socket) res" where
  "recv_from P extraData s sk =
     (let (msgLen, s1) = ReadVarintSizeAsInt P s; sk1 = set_stream P s1 sk in
      (case msgLen of
         None \<Rightarrow> Inr ((None, extraData), sk1)
       | Some n \<Rightarrow>
           let (limit, s2) = PushLimit P n s1;
               (parsed, s3) = ParseFromCodedStream P s2;
               sk3 = set_stream P s3 sk1
           in (case parsed of
                 None \<Rightarrow> Inr ((None, extraData), sk3)
               | Some pkt \<Rightarrow>
                   if \<not> ConsumedEntireMessage P s3 then Inr ((None, extraData), sk3)
                   else recv_extra P pkt extraData (PopLimit P limit s3) sk3)))"

definition recv :: "'s proto \<Rightarrow> bytes option \<Rightarrow> 's socket \<Rightarrow>
    ((packet option \<times> bytes option) \<times> 's socket) res" where
  "recv P extraData sk =
     (if \<not> connected sk then Inr ((None, extraData), sk)
      else (case inputStream sk of
              None \<Rightarrow> recv_from P extraData (incoming sk) (sk\<lparr>inputStream := Some (incoming sk)\<rparr>)
            | Some s \<Rightarrow> recv_from P extraData s sk))"

text \<open>A packet without extra data leaves the caller's buffer as it was, so the bytes of an earlier packet are still in it.\<close>

lemma recv_keeps_buffer:
  assumes "recv P (Some d) sk = Inr ((Some pkt, extra), sk')" and "extra_data_len pkt \<le> 0"
  shows "extra = Some d"
proof -
  obtain s0 sk0 where "recv_from P (Some d) s0 sk0 = Inr ((Some pkt, extra), sk')"
    using assms(1) by (auto simp: recv_def split: if_splits option.splits)
  then show ?thesis using assms(2)
    by (auto simp: recv_from_def recv_extra_def Let_def split: prod.splits option.splits if_splits)
qed

subsection \<open>Certificates\<close>

definition setExpectedRemoteCert :: "cert_hash list \<Rightarrow> 's socket \<Rightarrow> 's socket" where
  "setExpectedRemoteCert hs sk = sk\<lparr>expectedRemoteCerts := hs\<rparr>"

text \<open>The overload for one hash.\<close>

definition setExpectedRemoteCert_one :: "cert_hash \<Rightarrow> 's socket \<Rightarrow> 's socket" where
  "setExpectedRemoteCert_one h sk =
     (let sk1 = sk\<lparr>expectedRemoteCerts := []\<rparr> in sk1\<lparr>expectedRemoteCerts := expectedRemoteCerts sk1 @ [h]\<rparr>)"

lemma setExpectedRemoteCert_one [simp]: "setExpectedRemoteCert_one h sk = setExpectedRemoteCert [h] sk"
  by (simp add: setExpectedRemoteCert_one_def setExpectedRemoteCert_def Let_def)

definition getRemoteCert :: "'s socket \<Rightarrow> bytes" where
  "getRemoteCert sk = (case peer_cert sk of None \<Rightarrow> [] | Some raw \<Rightarrow> raw)"

text \<open>\<open>mbedtls_pk_write_pubkey_der\<close> writes at the end of its buffer and returns the length or an error.\<close>

definition getRemotePubkey :: "(nat \<Rightarrow> bool) \<Rightarrow> (byte_buffer \<Rightarrow> int \<times> byte_buffer) \<Rightarrow> 's socket \<Rightarrow> byte_buffer res" where
  "getRemotePubkey mem pk_write sk =
     rbind (bb_new mem 8192) (\<lambda>arr.
       (case peer_cert sk of
          None \<Rightarrow> bb_new mem 0
        | Some raw \<Rightarrow>
            let (ret, arr1) = pk_write arr in
            if ret > 0
            then rbind (shiftTowardBegin (sz_sub (buf_size arr1) (nat ret)) arr1) (\<lambda>arr2.
                   resize mem (nat ret) arr2)
            else resize mem 0 arr1))"

fun any_matches :: "crypto \<Rightarrow> bytes \<Rightarrow> cert_hash list \<Rightarrow> bool res" where
  "any_matches c cert [] = Inr False"
| "any_matches c cert (h # hs) =
     rbind (compare_cert c h cert) (\<lambda>eq. if eq then Inr True else any_matches c cert hs)"

text \<open>\<open>nt\<close> and \<open>missing\<close> are the flags \<open>MBEDTLS_X509_BADCERT_NOT_TRUSTED\<close> and \<open>_MISSING\<close>.\<close>

definition verifyCert :: "crypto \<Rightarrow> u32 \<Rightarrow> u32 \<Rightarrow> 's socket \<Rightarrow> bool res" where
  "verifyCert c nt missing sk =
     (let flags = verify_flags sk in
      if flags = 0 then Inr True
      else if and flags (not nt) = 0 then any_matches c (getRemoteCert sk) (expectedRemoteCerts sk)
      else if and flags missing \<noteq> 0 then Inr False
      else Inr False)"

subsection \<open>Setting up\<close>

definition ALLOWED_CIPHERS :: string where
  "ALLOWED_CIPHERS =
     ''TLS-ECDHE-ECDSA-WITH-CHACHA20-POLY1305-SHA256:'' @
     ''TLS-ECDHE-RSA-WITH-CHACHA20-POLY1305-SHA256:'' @
     ''TLS-ECDHE-ECDSA-WITH-AES-128-GCM-SHA256:'' @
     ''TLS-ECDHE-RSA-WITH-AES-128-GCM-SHA256:'' @
     ''TLS-ECDHE-ECDSA-WITH-AES-256-GCM-SHA384:'' @
     ''TLS-ECDHE-RSA-WITH-AES-256-GCM-SHA384:'' @
     ''TLS-DHE-RSA-WITH-CHACHA20-POLY1305-SHA256:'' @
     ''TLS-DHE-RSA-WITH-AES-128-GCM-SHA256:'' @
     ''TLS-DHE-RSA-WITH-AES-256-GCM-SHA384''"

text \<open>\<open>suite_id\<close> is \<open>mbedtls_ssl_ciphersuite_from_string\<close>; unknown names are only logged.\<close>

definition allowedCiphersuites :: "(string \<Rightarrow> int option) \<Rightarrow> int list" where
  "allowedCiphersuites suite_id = List.map_filter suite_id (stringSplit ALLOWED_CIPHERS CHR '':'') @ [0]"

text \<open>The decimal digits \<open>sprintf\<close> prints for a port, and the terminator.\<close>

fun decimal :: "nat \<Rightarrow> string" where
  "decimal n = (if n < 10 then [char_of (48 + n)] else decimal (n div 10) @ [char_of (48 + n mod 10)])"

declare decimal.simps [simp del]

definition portString :: "u16 \<Rightarrow> string" where
  "portString port = decimal (unat port) @ [CHR 0x00]"

text \<open>The statuses of the calls made by a constructor or by \<open>connect\<close>, in their order.\<close>

record setup_status =
  st_seed :: int
  st_defaults :: int
  st_net_connect :: int
  st_ssl_setup :: int
  st_handshake :: int

definition socket_new_client :: "setup_status \<Rightarrow> 's socket \<Rightarrow> 's socket res" where
  "socket_new_client st sk =
     rbind (assert_quit (0 \<le> st_seed st) ''Failed to seed ctr_drbg'') (\<lambda>_.
     rbind (assert_quit (0 \<le> st_defaults st) ''Failed to set defaults for SSL'') (\<lambda>_.
       Inr (sk\<lparr>connected := False, inputStream := None, expectedRemoteCerts := [],
               has_onDisconnected := False\<rparr>)))"

definition socket_new_server :: "setup_status \<Rightarrow> 's socket \<Rightarrow> 's socket" where
  "socket_new_server st sk =
     (let sk0 = sk\<lparr>connected := True, inputStream := None, expectedRemoteCerts := [], has_onDisconnected := False\<rparr>;
          sk1 = (if st_ssl_setup st \<noteq> 0 then sk0\<lparr>connected := False\<rparr> else sk0)
      in if st_handshake st \<noteq> 0 then sk1\<lparr>connected := False\<rparr> else sk1)"

definition connect :: "setup_status \<Rightarrow> 's socket \<Rightarrow> (bool \<times> 's socket) res" where
  "connect st sk =
     (if st_net_connect st \<noteq> 0 then Inr (False, sk)
      else rbind (assert_quit (0 \<le> st_ssl_setup st) ''Failed to setup SSL context'') (\<lambda>_.
           rbind (assert_quit (0 \<le> st_handshake st) ''Failed to perform SSL handshake'') (\<lambda>_.
             Inr (True, sk\<lparr>connected := True\<rparr>))))"

subsection \<open>What is sent\<close>

definition frame :: "'s proto \<Rightarrow> packet \<Rightarrow> bytes \<Rightarrow> bytes \<Rightarrow> bytes" where
  "frame P pkt ser ds = WriteVarint64 P (ByteSizeLong P pkt) @ ser @ take (sz_of_int (extra_data_len pkt)) ds"

lemma ssl_write_loop_out:
  "offset \<le> len \<Longrightarrow> ssl_write_loop data len offset as out = Inr (err, as', out') \<Longrightarrow>
     \<exists>n. n \<le> len - offset \<and> out' = out @ take n (drop offset data) \<and> (err = None \<longrightarrow> n = len - offset)"
proof (induction as arbitrary: offset out)
  case Nil
  then show ?case by (auto split: if_splits)
next
  case (Cons r rs)
  show ?case
  proof (cases "offset < len \<and> \<not> r < 0")
    case False
    with Cons.prems show ?thesis by (auto split: if_splits)
  next
    case True
    with Cons.prems have le: "offset + nat r \<le> len" "len \<le> length data"
      and rec: "ssl_write_loop data len (offset + nat r) rs (out @ take (nat r) (drop offset data)) = Inr (err, as', out')"
      by (auto split: if_splits)
    from Cons.IH [OF le(1) rec] obtain n where n: "n \<le> len - (offset + nat r)"
      "out' = (out @ take (nat r) (drop offset data)) @ take n (drop (offset + nat r) data)"
      "err = None \<longrightarrow> n = len - (offset + nat r)" by auto
    have "take (nat r) (drop offset data) @ take n (drop (offset + nat r) data) = take (nat r + n) (drop offset data)"
      by (simp add: take_add add.commute [of offset])
    then have "out' = out @ take (nat r + n) (drop offset data)" using n(2) by (metis append.assoc)
    with n le show ?thesis by (intro exI [of _ "nat r + n"]) linarith+
  qed
qed

text \<open>Who is at the other end: nothing in a conversation changes it.\<close>

definition same_peer :: "'s socket \<Rightarrow> 's socket \<Rightarrow> bool" where
  "same_peer sk' sk \<longleftrightarrow> peer_cert sk' = peer_cert sk \<and> verify_flags sk' = verify_flags sk"

lemma same_peer_refl [simp]: "same_peer sk sk"
  by (simp add: same_peer_def)

lemma same_peer_trans: "same_peer a b \<Longrightarrow> same_peer b c \<Longrightarrow> same_peer a c"
  by (simp add: same_peer_def)

lemma same_peer_upd [simp]:
  "same_peer (sk\<lparr>tls_answers := as, tls_out := out\<rparr>) sk' = same_peer sk sk'"
  "same_peer (sk\<lparr>inputStream := st\<rparr>) sk' = same_peer sk sk'"
  "same_peer (sk\<lparr>connected := b\<rparr>) sk' = same_peer sk sk'"
  "same_peer (sk\<lparr>expectedRemoteCerts := hs\<rparr>) sk' = same_peer sk sk'"
  by (simp_all add: same_peer_def)

lemma same_peer_calls [simp]:
  "same_peer (call_onDisconnected m sk) sk' = same_peer sk sk'"
  "same_peer (reportDisconnected P e sk) sk' = same_peer sk sk'"
  "same_peer (disconnect sk) sk' = same_peer sk sk'"
  by (simp_all add: same_peer_def call_onDisconnected_def reportDisconnected_def disconnect_def)

lemma call_onDisconnected_simps [simp]:
  "tls_out (call_onDisconnected m sk) = tls_out sk"
  "connected (call_onDisconnected m sk) = connected sk"
  "peer_cert (call_onDisconnected m sk) = peer_cert sk"
  "inputStream (call_onDisconnected m sk) = inputStream sk"
  "incoming (call_onDisconnected m sk) = incoming sk"
  by (simp_all add: call_onDisconnected_def)

lemma reportDisconnected_simps [simp]:
  "tls_out (reportDisconnected P e sk) = tls_out sk"
  "\<not> connected (reportDisconnected P e sk)"
  "peer_cert (reportDisconnected P e sk) = peer_cert sk"
  "inputStream (reportDisconnected P e sk) = inputStream sk"
  by (simp_all add: reportDisconnected_def)

lemma ssl_write_all_out:
  assumes "ssl_write_all P data len sk = Inr (ok, sk')"
  shows "\<exists>n\<le>len. tls_out sk' = tls_out sk @ take n data \<and> (ok \<longrightarrow> n = len \<and> connected sk' = connected sk)
    \<and> (\<not> ok \<longrightarrow> \<not> connected sk') \<and> same_peer sk' sk"
proof -
  from assms obtain err as out where l: "ssl_write_loop data len 0 (tls_answers sk) (tls_out sk) = Inr (err, as, out)"
    by (auto simp: ssl_write_all_def)
  from ssl_write_loop_out [OF _ l] obtain n where n: "n \<le> len" "out = tls_out sk @ take n data"
    "err = None \<longrightarrow> n = len" by auto
  with assms l show ?thesis
    by (intro exI [of _ n]) (auto simp: ssl_write_all_def Let_def split: option.splits)
qed

lemma send_out:
  assumes "send P pkt extra sk = Inr (ok, sk')"
  shows "\<exists>w. tls_out sk' = tls_out sk @ w \<and> same_peer sk' sk \<and> (ok \<longrightarrow> connected sk' = connected sk) \<and>
    (ok \<longrightarrow> (\<exists>ser. SerializeToCodedStream P pkt = Some ser \<and>
        w = frame P pkt ser (case extra of None \<Rightarrow> [] | Some ds \<Rightarrow> ds)))"
proof (cases "sz_sub (sz_add (ByteSizeLong P pkt) 16) (length (WriteVarint64 P (ByteSizeLong P pkt))) < ByteSizeLong P pkt
    \<or> SerializeToCodedStream P pkt = None")
  case True
  with assms show ?thesis by (auto simp: send_def Let_def split: if_splits)
next
  case False
  then obtain ser where ser: "SerializeToCodedStream P pkt = Some ser" by auto
  let ?l = "WriteVarint64 P (ByteSizeLong P pkt)"
  let ?n = "sz_of_int (extra_data_len pkt)"
  from assms False ser obtain ok1 sk1 where
    w1: "ssl_write_all P (?l @ ser) (length (?l @ ser)) sk = Inr (ok1, sk1)" and
    rest: "(if \<not> ok1 then Inr (False, sk1)
            else if ?n > 0
            then (case extra of None \<Rightarrow> error_quit ''Extra data is nullptr'' | Some ds \<Rightarrow> ssl_write_all P ds ?n sk1)
            else Inr (True, sk1)) = Inr (ok, sk')"
    by (auto simp: send_def Let_def rbind_eq_Inr)
  from ssl_write_all_out [OF w1] obtain n1 where s1: "tls_out sk1 = tls_out sk @ take n1 (?l @ ser)"
    "ok1 \<longrightarrow> n1 = length (?l @ ser) \<and> connected sk1 = connected sk" "same_peer sk1 sk" by blast
  show ?thesis
  proof (cases "ok1 \<and> 0 < ?n")
    case False
    with rest s1 ser show ?thesis by (auto simp: frame_def split: if_splits)
  next
    case True
    with rest obtain ds where ds: "extra = Some ds" "ssl_write_all P ds ?n sk1 = Inr (ok, sk')"
      by (auto simp: error_quit_def split: option.splits)
    from ssl_write_all_out [OF ds(2)] True s1 ser ds(1) show ?thesis
      by (auto simp: frame_def intro: same_peer_trans)
  qed
qed

subsection \<open>What is received\<close>

text \<open>
  The documented behaviour of the coded streams on the packets \<open>ps\<close>: \<open>cview s\<close> is the bytes still
  to be read up to the current limit, and the bytes beyond it when there is one.
\<close>

definition law_varint :: "'s proto \<Rightarrow> ('s \<Rightarrow> bytes \<times> bytes option) \<Rightarrow> bool" where
  "law_varint P cview \<longleftrightarrow> (\<forall>s n r. cview s = (WriteVarint64 P n @ r, None) \<longrightarrow> n < 2 ^ 31 \<longrightarrow>
     (\<exists>s'. ReadVarintSizeAsInt P s = (Some (int n), s') \<and> cview s' = (r, None) \<and> stream_error P s' = None))"

definition law_limit :: "'s proto \<Rightarrow> ('s \<Rightarrow> bytes \<times> bytes option) \<Rightarrow> bool" where
  "law_limit P cview \<longleftrightarrow> (\<forall>s xs ys. cview s = (xs @ ys, None) \<longrightarrow>
     (\<exists>l s'. PushLimit P (int (length xs)) s = (l, s') \<and> cview s' = (xs, Some ys) \<and>
        (\<forall>s2. cview s2 = ([], Some ys) \<longrightarrow> cview (PopLimit P l s2) = (ys, None) \<and>
           stream_error P (PopLimit P l s2) = None)))"

definition law_parse :: "'s proto \<Rightarrow> ('s \<Rightarrow> bytes \<times> bytes option) \<Rightarrow> packet set \<Rightarrow> bool" where
  "law_parse P cview ps \<longleftrightarrow> (\<forall>s p ser ys. p \<in> ps \<longrightarrow> SerializeToCodedStream P p = Some ser \<longrightarrow>
     ByteSizeLong P p = length ser \<and>
     (cview s = (ser, Some ys) \<longrightarrow> (\<exists>s'. ParseFromCodedStream P s = (Some p, s') \<and>
        ConsumedEntireMessage P s' \<and> cview s' = ([], Some ys) \<and> stream_error P s' = None)))"

definition law_raw :: "'s proto \<Rightarrow> ('s \<Rightarrow> bytes \<times> bytes option) \<Rightarrow> bool" where
  "law_raw P cview \<longleftrightarrow> (\<forall>s d xs ys. cview s = (xs @ ys, None) \<longrightarrow>
     (\<exists>s'. ReadRaw P (length xs) d s = ((True, xs), s') \<and> cview s' = (ys, None) \<and> stream_error P s' = None))"

definition coded_laws :: "'s proto \<Rightarrow> ('s \<Rightarrow> bytes \<times> bytes option) \<Rightarrow> packet set \<Rightarrow> bool" where
  "coded_laws P cview ps \<longleftrightarrow> law_varint P cview \<and> law_limit P cview \<and> law_parse P cview ps \<and> law_raw P cview"

lemma law_varintD: "law_varint P cview \<Longrightarrow> cview s = (WriteVarint64 P n @ r, None) \<Longrightarrow> n < 2 ^ 31 \<Longrightarrow>
     \<exists>s'. ReadVarintSizeAsInt P s = (Some (int n), s') \<and> cview s' = (r, None) \<and> stream_error P s' = None"
  by (simp add: law_varint_def)

lemma law_limitD: "law_limit P cview \<Longrightarrow> cview s = (xs @ ys, None) \<Longrightarrow>
     \<exists>l s'. PushLimit P (int (length xs)) s = (l, s') \<and> cview s' = (xs, Some ys) \<and>
        (\<forall>s2. cview s2 = ([], Some ys) \<longrightarrow> cview (PopLimit P l s2) = (ys, None) \<and>
           stream_error P (PopLimit P l s2) = None)"
  by (simp add: law_limit_def)

lemma law_parseD: "law_parse P cview ps \<Longrightarrow> p \<in> ps \<Longrightarrow> SerializeToCodedStream P p = Some ser \<Longrightarrow>
     cview s = (ser, Some ys) \<Longrightarrow> \<exists>s'. ParseFromCodedStream P s = (Some p, s') \<and>
        ConsumedEntireMessage P s' \<and> cview s' = ([], Some ys) \<and> stream_error P s' = None"
  by (simp add: law_parse_def)

lemma law_parse_size: "law_parse P cview ps \<Longrightarrow> p \<in> ps \<Longrightarrow> SerializeToCodedStream P p = Some ser \<Longrightarrow>
     ByteSizeLong P p = length ser"
  by (simp add: law_parse_def)

lemma law_rawD: "law_raw P cview \<Longrightarrow> cview s = (xs @ ys, None) \<Longrightarrow>
     \<exists>s'. ReadRaw P (length xs) d s = ((True, xs), s') \<and> cview s' = (ys, None) \<and> stream_error P s' = None"
  by (simp add: law_raw_def)

definition sendable :: "'s proto \<Rightarrow> packet \<times> bytes \<Rightarrow> bool" where
  "sendable P m \<longleftrightarrow> extra_data_len (fst m) = int (length (snd m)) \<and> length (snd m) < 2 ^ 31 \<and>
     ByteSizeLong P (fst m) < 2 ^ 31 \<and> grow_ok P (length (snd m))"

definition next_stream :: "'s socket \<Rightarrow> 's" where
  "next_stream sk = (case inputStream sk of None \<Rightarrow> incoming sk | Some s \<Rightarrow> s)"

lemma recv_eq:
  "connected sk \<Longrightarrow> recv P extra sk = recv_from P extra (next_stream sk) (sk\<lparr>inputStream := Some (next_stream sk)\<rparr>)"
  by (cases sk; cases "inputStream sk") (auto simp: recv_def next_stream_def)

lemma next_stream_set [simp]: "next_stream (sk\<lparr>inputStream := Some s\<rparr>) = s"
  by (simp add: next_stream_def)

lemma recv_frame:
  assumes laws: "coded_laws P cview ps" and p: "p \<in> ps" and snd: "sendable P (p, ds)"
    and ser: "SerializeToCodedStream P p = Some ser" and c: "connected sk"
    and v: "cview (next_stream sk) = (frame P p ser ds @ rest, None)"
  shows "\<exists>sk'. recv P (Some d) sk = Inr ((Some p, Some (if ds = [] then d else ds)), sk') \<and>
    connected sk' \<and> cview (next_stream sk') = (rest, None)"
proof -
  let ?n = "ByteSizeLong P p"
  from laws have law: "law_varint P cview" "law_limit P cview" "law_parse P cview ps" "law_raw P cview"
    by (auto simp: coded_laws_def)
  have ln: "?n = length ser" by (rule law_parse_size [OF law(3) p ser])
  have lt: "?n < 2 ^ 31" using snd by (simp add: sendable_def)
  have fr: "frame P p ser ds = WriteVarint64 P ?n @ ser @ ds" using snd by (simp add: frame_def sendable_def)
  have v1: "cview (next_stream sk) = (WriteVarint64 P ?n @ ser @ ds @ rest, None)" using v fr by simp
  from law_varintD [OF law(1) v1 lt] obtain s1 where s1: "ReadVarintSizeAsInt P (next_stream sk) = (Some (int ?n), s1)"
    "cview s1 = (ser @ ds @ rest, None)" "stream_error P s1 = None" by blast
  from law_limitD [OF law(2) s1(2)] obtain l s2 where s2: "PushLimit P (int ?n) s1 = (l, s2)" "cview s2 = (ser, Some (ds @ rest))"
    "\<And>s. cview s = ([], Some (ds @ rest)) \<Longrightarrow> cview (PopLimit P l s) = (ds @ rest, None) \<and> stream_error P (PopLimit P l s) = None"
    unfolding ln by blast
  from law_parseD [OF law(3) p ser s2(2)] obtain s3 where s3: "ParseFromCodedStream P s2 = (Some p, s3)"
    "ConsumedEntireMessage P s3" "cview s3 = ([], Some (ds @ rest))" "stream_error P s3 = None" by blast
  define s4 where "s4 = PopLimit P l s3"
  have s4: "cview s4 = (ds @ rest, None)" "stream_error P s4 = None" using s2(3) [OF s3(3)] by (auto simp: s4_def)
  have head: "recv P (Some d) sk = recv_extra P p (Some d) s4 (sk\<lparr>inputStream := Some s3\<rparr>)"
    using s1 s2(1,2) s3 by (simp add: recv_eq [OF c] recv_from_def set_stream_def s4_def)
  show ?thesis
  proof (cases "ds = []")
    case True
    with snd have "extra_data_len p = 0" by (simp add: sendable_def)
    with head s4 True c show ?thesis by (simp add: recv_extra_def set_stream_def)
  next
    case False
    then have pos: "0 < extra_data_len p" "nat (extra_data_len p) = length ds" "grow_ok P (length ds)"
      using snd by (auto simp: sendable_def)
    from law_rawD [OF law(4) s4(1), of d] obtain s5 where s5: "ReadRaw P (length ds) d s4 = ((True, ds), s5)"
      "cview s5 = (rest, None)" "stream_error P s5 = None" by blast
    with head pos False c show ?thesis by (simp add: recv_extra_def set_stream_def)
  qed
qed

subsection \<open>A conversation\<close>

fun send_seq :: "'s proto \<Rightarrow> (packet \<times> bytes) list \<Rightarrow> 's socket \<Rightarrow> (bool \<times> 's socket) res" where
  "send_seq P [] sk = Inr (True, sk)"
| "send_seq P (m # ms) sk =
     rbind (send P (fst m) (Some (snd m)) sk) (\<lambda>(ok, sk1). if ok then send_seq P ms sk1 else Inr (False, sk1))"

text \<open>\<open>n\<close> calls of \<open>recv\<close> into the same buffer; a packet without extra data leaves the buffer alone.\<close>

fun recv_seq :: "'s proto \<Rightarrow> nat \<Rightarrow> bytes \<Rightarrow> 's socket \<Rightarrow> ((packet \<times> bytes) list \<times> 's socket) res" where
  "recv_seq P 0 d sk = Inr ([], sk)"
| "recv_seq P (Suc n) d sk =
     rbind (recv P (Some d) sk) (\<lambda>((p, d'), sk1).
       (case p of
          None \<Rightarrow> Inr ([], sk1)
        | Some pkt \<Rightarrow>
            rbind (recv_seq P n (case d' of None \<Rightarrow> [] | Some x \<Rightarrow> x) sk1) (\<lambda>(ms, sk2).
              Inr ((pkt, if extra_data_len pkt > 0 then (case d' of None \<Rightarrow> [] | Some x \<Rightarrow> x) else []) # ms, sk2))))"

fun wire :: "'s proto \<Rightarrow> (packet \<times> bytes) list \<Rightarrow> bytes option" where
  "wire P [] = Some []"
| "wire P (m # ms) =
     (case SerializeToCodedStream P (fst m) of
        None \<Rightarrow> None
      | Some ser \<Rightarrow> (case wire P ms of None \<Rightarrow> None | Some w \<Rightarrow> Some (frame P (fst m) ser (snd m) @ w)))"

lemma send_seq_wire:
  "send_seq P ms sk = Inr (True, sk') \<Longrightarrow> \<exists>w. wire P ms = Some w \<and> tls_out sk' = tls_out sk @ w"
proof (induction ms arbitrary: sk)
  case Nil
  then show ?case by simp
next
  case (Cons m ms)
  then obtain sk1 where s: "send P (fst m) (Some (snd m)) sk = Inr (True, sk1)" "send_seq P ms sk1 = Inr (True, sk')"
    by (auto split: if_splits)
  from send_out [OF s(1)] obtain ser where "SerializeToCodedStream P (fst m) = Some ser"
    "tls_out sk1 = tls_out sk @ frame P (fst m) ser (snd m)" by auto
  moreover from Cons.IH [OF s(2)] obtain w where "wire P ms = Some w" "tls_out sk' = tls_out sk1 @ w" by blast
  ultimately show ?case by simp
qed

lemma recv_seq_wire:
  "coded_laws P cview ps \<Longrightarrow> fst ` set ms \<subseteq> ps \<Longrightarrow> \<forall>m\<in>set ms. sendable P m \<Longrightarrow> wire P ms = Some w \<Longrightarrow>
     connected sk \<Longrightarrow> cview (next_stream sk) = (w @ rest, None) \<Longrightarrow>
     \<exists>sk'. recv_seq P (length ms) d sk = Inr (ms, sk') \<and> connected sk' \<and> cview (next_stream sk') = (rest, None)"
proof (induction ms arbitrary: sk d w)
  case Nil
  then show ?case by simp
next
  case (Cons m ms)
  obtain p ds where m: "m = (p, ds)" by (cases m)
  from Cons.prems(4) obtain ser v where ser: "SerializeToCodedStream P p = Some ser" "wire P ms = Some v"
    "w = frame P p ser ds @ v" by (auto simp: m split: option.splits)
  have p: "p \<in> ps" "sendable P (p, ds)" using Cons.prems(2,3) by (auto simp: m)
  have view: "cview (next_stream sk) = (frame P p ser ds @ v @ rest, None)" using Cons.prems(6) ser(3) by simp
  from recv_frame [OF Cons.prems(1) p ser(1) Cons.prems(5) view, of d] obtain sk1 where
    sk1: "recv P (Some d) sk = Inr ((Some p, Some (if ds = [] then d else ds)), sk1)" "connected sk1"
      "cview (next_stream sk1) = (v @ rest, None)" by blast
  from Cons.IH [OF Cons.prems(1) _ _ ser(2) sk1(2,3), of "if ds = [] then d else ds"] Cons.prems(2,3)
  obtain sk2 where sk2: "recv_seq P (length ms) (if ds = [] then d else ds) sk1 = Inr (ms, sk2)" "connected sk2"
    "cview (next_stream sk2) = (rest, None)" by auto
  have "extra_data_len p = int (length ds)" using p(2) by (simp add: sendable_def)
  with sk1(1) sk2 show ?case by (auto simp: m)
qed

subsection \<open>Certificates and disconnection\<close>

lemma verifyCert_untrusted:
  assumes "verify_flags sk \<noteq> 0" and "verifyCert c nt missing sk = Inr True"
  shows "\<exists>h\<in>set (expectedRemoteCerts sk). compare_cert c h (getRemoteCert sk) = Inr True"
proof -
  have "any_matches c cert hs = Inr True \<Longrightarrow> \<exists>h\<in>set hs. compare_cert c h cert = Inr True" for cert hs
    by (induction hs) (auto split: if_splits)
  with assms show ?thesis by (auto simp: verifyCert_def Let_def split: if_splits)
qed

datatype close_op = CloseCall | CloseError int

fun close_run :: "'s proto \<Rightarrow> close_op list \<Rightarrow> 's socket \<Rightarrow> 's socket" where
  "close_run P [] sk = sk"
| "close_run P (CloseCall # ops) sk = close_run P ops (disconnect sk)"
| "close_run P (CloseError e # ops) sk = close_run P ops (reportDisconnected P e sk)"

lemma close_run_closed: "\<not> connected sk \<Longrightarrow> close_run P ops sk = sk"
  by (induction P ops sk rule: close_run.induct) (auto simp: disconnect_def reportDisconnected_def)

text \<open>However a socket is closed, and however often, the callback runs once.\<close>

lemma close_run_once:
  assumes "connected sk" and "has_onDisconnected sk" and "ops \<noteq> []"
  shows "\<exists>m. disconnect_events (close_run P ops sk) = disconnect_events sk @ [m] \<and> \<not> connected (close_run P ops sk)"
proof -
  obtain opn rest where ops: "ops = opn # rest" using assms(3) by (cases ops) auto
  show ?thesis using assms ops
    by (cases opn) (auto simp: close_run_closed disconnect_def reportDisconnected_def call_onDisconnected_def)
qed

text \<open>The destructor of a connected socket reports nothing: its \<open>disconnect\<close> finds the flag cleared.\<close>

lemma socket_destroy_silent: "disconnect_events (socket_destroy sk) = disconnect_events sk"
  by (simp add: socket_destroy_def disconnect_def Let_def)

text \<open>A port fits the eight characters of its buffer.\<close>

lemma decimal_length: "n < 10 ^ Suc k \<Longrightarrow> length (decimal n) \<le> Suc k"
proof (induction n arbitrary: k rule: decimal.induct)
  case (1 n)
  show ?case
  proof (cases "n < 10")
    case True
    then show ?thesis by (simp add: decimal.simps)
  next
    case False
    with "1.prems" obtain j where k: "k = Suc j" by (cases k) auto
    with "1.prems" have "n div 10 < 10 ^ Suc j" by (simp add: div_less_iff_less_mult)
    with "1.IH" [OF False] k False show ?thesis by (subst decimal.simps) simp
  qed
qed

lemma portString_fits: "length (portString port) \<le> 8"
proof -
  have "unat port < 2 ^ 16" using unsigned_less [of port] by simp
  then have "unat port < 10 ^ Suc 4" by simp
  from decimal_length [OF this] show ?thesis by (simp add: portString_def)
qed

subsection \<open>A concrete stream\<close>

text \<open>
  A serialiser for concrete runs: a length is four bytes, a packet one byte (its position in a list of
  packets), and a stream is the bytes up to the limit and those beyond it.
\<close>

definition four_bytes :: "nat \<Rightarrow> bytes" where
  "four_bytes n = [of_nat (n mod 256), of_nat (n div 256 mod 256), of_nat (n div 65536 mod 256), of_nat (n div 16777216 mod 256)]"

definition read_four :: "bytes \<Rightarrow> nat" where
  "read_four bs = unat (bs ! 0) + 256 * unat (bs ! 1) + 65536 * unat (bs ! 2) + 16777216 * unat (bs ! 3)"

definition position :: "'a \<Rightarrow> 'a list \<Rightarrow> nat" where
  "position x xs = length (takeWhile (\<lambda>y. y \<noteq> x) xs)"

definition sample_proto :: "packet list \<Rightarrow> (bytes \<times> bytes option) proto" where
  "sample_proto ps = \<lparr>
     grow_ok = (\<lambda>_. True), ByteSizeLong = (\<lambda>p. 1), WriteVarint64 = four_bytes,
     SerializeToCodedStream = (\<lambda>p. if p \<in> set ps then Some [of_nat (position p ps)] else None),
     ReadVarintSizeAsInt = (\<lambda>(xs, ys). (Some (int (read_four (take 4 xs))), (drop 4 xs, ys))),
     PushLimit = (\<lambda>n (xs, ys). (0, (take (nat n) xs, Some (drop (nat n) xs)))),
     ParseFromCodedStream = (\<lambda>(xs, ys). (if unat (xs ! 0) < length ps then Some (ps ! unat (xs ! 0)) else None, ([], ys))),
     ConsumedEntireMessage = (\<lambda>(xs, ys). xs = []),
     PopLimit = (\<lambda>l (xs, ys). (case ys of None \<Rightarrow> xs | Some zs \<Rightarrow> xs @ zs, None)),
     ReadRaw = (\<lambda>n d (xs, ys). ((True, take n xs), (drop n xs, ys))),
     Skip = (\<lambda>n (xs, ys). (drop n xs, ys)),
     stream_error = (\<lambda>_. None), tls_strerror = (\<lambda>_. [])\<rparr>"

lemma read_four_bytes: "n < 2 ^ 31 \<Longrightarrow> read_four (four_bytes n) = n"
proof -
  assume n: "n < 2 ^ 31"
  define a b c where "a = n div 256" and "b = n div 65536" and "c = n div 16777216"
  have e: "b = a div 256" "c = b div 256" unfolding a_def b_def c_def by (simp_all flip: div_mult2_eq)
  have "n = a * 256 + n mod 256" "a = b * 256 + a mod 256" "b = c * 256 + b mod 256"
    unfolding e a_def by (simp_all only: div_mult_mod_eq)
  moreover have "c mod 256 = c" using n by (simp add: c_def div_less_iff_less_mult)
  ultimately have "n mod 256 + 256 * (a mod 256) + 65536 * (b mod 256) + 16777216 * (c mod 256) = n" by linarith
  moreover have "unat (of_nat (k mod 256) :: u8) = k mod 256" for k by (simp add: unat_of_nat)
  ultimately show ?thesis
    by (simp only: read_four_def four_bytes_def a_def [symmetric] b_def [symmetric] c_def [symmetric]) (simp add: numeral_2_eq_2 numeral_3_eq_3)
qed

lemma position_nth: "x \<in> set xs \<Longrightarrow> position x xs < length xs \<and> xs ! position x xs = x"
proof -
  assume "x \<in> set xs"
  then have lt: "position x xs < length xs"
    by (induction xs) (auto simp: position_def)
  then show ?thesis using nth_length_takeWhile [of "\<lambda>y. y \<noteq> x" xs] by (simp add: position_def)
qed

lemma sample_laws: "length ps \<le> 256 \<Longrightarrow> coded_laws (sample_proto ps) (\<lambda>s. s) (set ps)"
proof -
  assume small: "length ps \<le> 256"
  have len4: "length (four_bytes n) = 4" for n by (simp add: four_bytes_def)
  have "unat (of_nat (position p ps) :: u8) = position p ps" if "p \<in> set ps" for p
    using position_nth [OF that] small by (simp add: unat_of_nat)
  with position_nth [of _ ps] show ?thesis
    by (simp add: coded_laws_def law_varint_def law_limit_def law_parse_def law_raw_def sample_proto_def
        read_four_bytes len4)
qed

subsection \<open>Properties\<close>

text \<open>C5: framing. If one end's sends all report success, then the other end, reading the bytes they put on
  the wire, receives exactly those packets with exactly their extra data, in order, stays connected and
  consumes nothing of what follows.\<close>

theorem framing_roundtrip:
  assumes "send_seq P ms tx = Inr (True, tx')" and "coded_laws P cview (fst ` set ms)"
    and "\<forall>m\<in>set ms. sendable P m" and "connected rx"
    and "cview (next_stream rx) = (drop (length (tls_out tx)) (tls_out tx') @ rest, None)"
  shows "\<exists>rx'. recv_seq P (length ms) d rx = Inr (ms, rx') \<and> connected rx' \<and> cview (next_stream rx') = (rest, None)"
proof -
  from send_seq_wire [OF assms(1)] obtain w where w: "wire P ms = Some w" "tls_out tx' = tls_out tx @ w" by blast
  show ?thesis by (rule recv_seq_wire [OF assms(2) _ assms(3) w(1) assms(4)]) (use assms(5) w(2) in auto)
qed

text \<open>C23: one notification. However a connected socket is closed, by its owner, by failing calls, or by
  both in any order and any number of times, \<open>onDisconnected\<close> runs exactly once; but the destructor of a
  connected socket, which means to disconnect it, closes it without any notification.\<close>

theorem disconnect_once:
  assumes "connected sk" and "has_onDisconnected sk" and "ops \<noteq> []"
  shows "(\<exists>m. disconnect_events (close_run P ops sk) = disconnect_events sk @ [m]) \<and> \<not> connected (close_run P ops sk) \<and>
    disconnect_events (socket_destroy sk) = disconnect_events sk"
  using close_run_once [OF assms] socket_destroy_silent by blast

theorem framing_roundtrip_witness:
  "\<exists>tx' rx'. send_seq (sample_proto [reply StartStreamRequest, \<lparr>extra_data_len = 2, body = ClientNonceNotify\<rparr>])
      [(reply StartStreamRequest, []), (\<lparr>extra_data_len = 2, body = ClientNonceNotify\<rparr>, [8, 9])]
      \<lparr>connected = True, has_onDisconnected = False, disconnect_events = [], tls_answers = [2, 3, 5, 1, 1], tls_out = [],
       inputStream = None, incoming = ([], None), peer_cert = None, verify_flags = 0, expectedRemoteCerts = []\<rparr> = Inr (True, tx') \<and>
    recv_seq (sample_proto [reply StartStreamRequest, \<lparr>extra_data_len = 2, body = ClientNonceNotify\<rparr>]) 2 []
      \<lparr>connected = True, has_onDisconnected = False, disconnect_events = [], tls_answers = [], tls_out = [],
       inputStream = None, incoming = (tls_out tx', None), peer_cert = None, verify_flags = 0, expectedRemoteCerts = []\<rparr> =
      Inr ([(reply StartStreamRequest, []), (\<lparr>extra_data_len = 2, body = ClientNonceNotify\<rparr>, [8, 9])], rx')"
proof -
  let ?q = "\<lparr>extra_data_len = 2, body = ClientNonceNotify\<rparr>"
  let ?P = "sample_proto [reply StartStreamRequest, ?q]"
  let ?ms = "[(reply StartStreamRequest, []), (?q, [8, 9])]"
  let ?tx = "\<lparr>connected = True, has_onDisconnected = False, disconnect_events = [], tls_answers = [2, 3, 5, 1, 1], tls_out = [],
       inputStream = None, incoming = ([], None), peer_cert = None, verify_flags = 0, expectedRemoteCerts = []\<rparr>"
  have ne: "reply StartStreamRequest \<noteq> ?q" by (simp add: reply_def)
  have "\<exists>tx'. send_seq ?P ?ms ?tx = Inr (True, tx')"
    using ne by (simp add: send_def sample_proto_def ssl_write_all_def Let_def four_bytes_def position_def SIZE_T_MOD_def
        sz_of_int_def rbind_def)
  then obtain tx' where s: "send_seq ?P ?ms ?tx = Inr (True, tx')" by blast
  let ?rx = "\<lparr>connected = True, has_onDisconnected = False, disconnect_events = [], tls_answers = [], tls_out = [],
       inputStream = None, incoming = (tls_out tx', None), peer_cert = None, verify_flags = 0, expectedRemoteCerts = []\<rparr>"
  have laws: "coded_laws ?P (\<lambda>s. s) (fst ` set ?ms)" using sample_laws [of "[reply StartStreamRequest, ?q]"] by simp
  have ok: "\<forall>m\<in>set ?ms. sendable ?P m" by (simp add: sendable_def sample_proto_def)
  have "\<exists>rx'. recv_seq ?P 2 [] ?rx = Inr (?ms, rx')"
    using framing_roundtrip [OF s laws ok, of ?rx "[]" "[]"]
    unfolding numeral_2_eq_2 by (auto simp: next_stream_def simp del: recv_seq.simps)
  with s show ?thesis by blast
qed

theorem disconnect_once_witness:
  "\<exists>m. disconnect_events (close_run (sample_proto []) [CloseError (-80), CloseCall]
      \<lparr>connected = True, has_onDisconnected = True, disconnect_events = [], tls_answers = [], tls_out = [],
       inputStream = None, incoming = ([], None), peer_cert = None, verify_flags = 0, expectedRemoteCerts = []\<rparr>) = [m]"
  using disconnect_once [of "\<lparr>connected = True, has_onDisconnected = True, disconnect_events = [], tls_answers = [], tls_out = [],
       inputStream = None, incoming = ([], None), peer_cert = None, verify_flags = 0, expectedRemoteCerts = []\<rparr>"
      "[CloseError (-80), CloseCall]" "sample_proto []"] by simp

end
