(* ===== verification/ServerCore.thy ===== *)
theory ServerCore
  imports RationalNum KnownClients Frame
begin

text \<open>
  The part of \<open>StreamServer\<close> (\<open>src/src/server/StreamServer.h\<close> and \<open>.cpp\<close>) that connections call:
  the requested mode, the one stream all clients share, the known clients and the clock. The list of
  connections and the threads are in the theory \<open>StreamServer\<close>.

  \<open>CapturePipeline\<close> is an abstract class; its virtual functions and the two operations of
  \<open>AudioEncoder\<close> are the record \<open>media\<close>. The locale \<open>switchable\<close> is the contract the server relies on
  when it starts and stops them: each may be started only when it is stopped and stopped only when it
  runs.
\<close>

record ('p, 'a) media =
  p_init :: "'p \<Rightarrow> (bool \<times> 'p) res"
  p_start :: "'p \<Rightarrow> 'p res"
  p_stop :: "'p \<Rightarrow> 'p res"
  p_getNativeMode :: "'p \<Rightarrow> ((int \<times> int \<times> rational) \<times> 'p) res"
  p_setEncoderMode :: "int \<Rightarrow> int \<Rightarrow> rational \<Rightarrow> 'p \<Rightarrow> (bool \<times> 'p) res"
  a_start :: "'a \<Rightarrow> 'a res"
  a_stop :: "'a \<Rightarrow> 'a res"

record ('p, 'a) server =
  knownClients :: known_clients
  clients_file :: "string option"
  requestedWidth :: int
  requestedHeight :: int
  requestedFramerate :: rational
  srv_streaming :: bool
  srv_clock :: int
  local_cert :: bytes
  capture :: 'p
  audioEncoder :: 'a
  srv_cursorPos :: "cursor_pos option"

definition getNativeMode :: "('p, 'a) media \<Rightarrow> ('p, 'a) server \<Rightarrow> ((int \<times> int \<times> rational) \<times> ('p, 'a) server) res" where
  "getNativeMode M s =
     rbind (p_init M (capture s)) (\<lambda>(ok, p).
     rbind (assert_quit ok ''Failed to initialize CapturePipeline'') (\<lambda>_.
     rbind (p_getNativeMode M p) (\<lambda>(mode, p'). Inr (mode, s\<lparr>capture := p'\<rparr>))))"

definition getCaptureResolution :: "('p, 'a) media \<Rightarrow> ('p, 'a) server \<Rightarrow> ((int \<times> int) \<times> ('p, 'a) server) res" where
  "getCaptureResolution M s =
     rbind (p_getNativeMode M (capture s)) (\<lambda>((w, h, fps), p). Inr ((w, h), s\<lparr>capture := p\<rparr>))"

definition getVideoResolution :: "('p, 'a) server \<Rightarrow> int \<times> int" where
  "getVideoResolution s = (requestedWidth s, requestedHeight s)"

definition configureStream :: "int \<Rightarrow> int \<Rightarrow> rational \<Rightarrow> ('p, 'a) server \<Rightarrow> ('p, 'a) server" where
  "configureStream width height framerate s =
     s\<lparr>requestedWidth := width, requestedHeight := height, requestedFramerate := framerate\<rparr>"

definition startStream :: "('p, 'a) media \<Rightarrow> ('p, 'a) server \<Rightarrow> (bool \<times> ('p, 'a) server) res" where
  "startStream M s =
     (if srv_streaming s then Inr (False, s)
      else rbind (p_setEncoderMode M (requestedWidth s) (requestedHeight s) (requestedFramerate s) (capture s)) (\<lambda>(_, p).
           rbind (p_start M p) (\<lambda>p'.
           rbind (a_start M (audioEncoder s)) (\<lambda>a.
             Inr (True, s\<lparr>srv_streaming := True, capture := p', audioEncoder := a\<rparr>)))))"

definition stop_media :: "('p, 'a) media \<Rightarrow> ('p, 'a) server \<Rightarrow> ('p, 'a) server res" where
  "stop_media M s =
     rbind (a_stop M (audioEncoder s)) (\<lambda>a.
     rbind (p_stop M (capture s)) (\<lambda>p.
       Inr (s\<lparr>srv_streaming := False, audioEncoder := a, capture := p\<rparr>)))"

definition endStream :: "('p, 'a) media \<Rightarrow> ('p, 'a) server \<Rightarrow> ('p, 'a) server res" where
  "endStream M s = (if srv_streaming s then stop_media M s else Inr s)"

definition getLocalCert :: "('p, 'a) server \<Rightarrow> bytes" where
  "getLocalCert s = local_cert s"

definition listKnownClients :: "('p, 'a) server \<Rightarrow> cert_hash list" where
  "listKnownClients s = list_clients (knownClients s)"

subsection \<open>The contract of what is started and stopped\<close>

locale switchable =
  fixes running :: "'x \<Rightarrow> bool"
    and start :: "'x \<Rightarrow> 'x res"
    and stop :: "'x \<Rightarrow> 'x res"
  assumes start_running: "\<not> running x \<Longrightarrow> start x = Inr x' \<Longrightarrow> running x'"
    and stop_stopped: "running x \<Longrightarrow> stop x = Inr x' \<Longrightarrow> \<not> running x'"
    and stop_ok: "running x \<Longrightarrow> stop x \<noteq> Inl (Fatal ''Stopping when not running!'')"
    and start_ok: "\<not> running x \<Longrightarrow> start x \<noteq> Inl (Fatal ''Starting without stopping first!'')"

text \<open>The stream flag of the server says what the two media are doing.\<close>

definition stream_inv :: "('p \<Rightarrow> bool) \<Rightarrow> ('a \<Rightarrow> bool) \<Rightarrow> ('p, 'a) server \<Rightarrow> bool" where
  "stream_inv cap_running aud_running s \<longleftrightarrow>
     cap_running (capture s) = srv_streaming s \<and> aud_running (audioEncoder s) = srv_streaming s"

lemma stream_inv_fields [simp]:
  "stream_inv cr ar (s\<lparr>knownClients := k\<rparr>) = stream_inv cr ar s"
  "stream_inv cr ar (s\<lparr>clients_file := t\<rparr>) = stream_inv cr ar s"
  "stream_inv cr ar (s\<lparr>srv_cursorPos := c\<rparr>) = stream_inv cr ar s"
  "stream_inv cr ar (configureStream w h f s) = stream_inv cr ar s"
  by (simp_all add: stream_inv_def configureStream_def)

locale stream_media = cap: switchable cap_running "p_start M" "p_stop M" + aud: switchable aud_running "a_start M" "a_stop M"
  for cap_running :: "'p \<Rightarrow> bool" and aud_running :: "'a \<Rightarrow> bool" and M :: "('p, 'a) media" +
  assumes mode_keeps: "p_setEncoderMode M w h f p = Inr (b, p') \<Longrightarrow> cap_running p' = cap_running p"
    and init_keeps: "p_init M p = Inr (b, p') \<Longrightarrow> cap_running p' = cap_running p"
    and native_keeps: "p_getNativeMode M p = Inr (m, p') \<Longrightarrow> cap_running p' = cap_running p"
begin

lemma startStream_inv:
  "stream_inv cap_running aud_running s \<Longrightarrow> startStream M s = Inr (ok, s') \<Longrightarrow> stream_inv cap_running aud_running s' \<and> srv_streaming s' \<and> (ok \<longleftrightarrow> \<not> srv_streaming s)"
  by (auto simp: stream_inv_def startStream_def rbind_eq_Inr split: if_splits prod.splits
      dest: aud.start_running) (metis mode_keeps cap.start_running)

lemma endStream_inv: "stream_inv cap_running aud_running s \<Longrightarrow> endStream M s = Inr s' \<Longrightarrow> stream_inv cap_running aud_running s' \<and> \<not> srv_streaming s'"
  by (auto simp: stream_inv_def endStream_def stop_media_def rbind_eq_Inr split: if_splits
      dest: cap.stop_stopped aud.stop_stopped)

lemma getNativeMode_inv: "stream_inv cap_running aud_running s \<Longrightarrow> getNativeMode M s = Inr (m, s') \<Longrightarrow> stream_inv cap_running aud_running s'"
  by (auto simp: stream_inv_def getNativeMode_def rbind_eq_Inr dest: init_keeps native_keeps split: prod.splits)

lemma getCaptureResolution_inv: "stream_inv cap_running aud_running s \<Longrightarrow> getCaptureResolution M s = Inr (m, s') \<Longrightarrow> stream_inv cap_running aud_running s'"
  by (auto simp: stream_inv_def getCaptureResolution_def rbind_eq_Inr dest: native_keeps split: prod.splits)

text \<open>Ending the stream never trips over a pipeline that is not running.\<close>

lemma endStream_no_double_stop:
  "stream_inv cap_running aud_running s \<Longrightarrow> endStream M s \<noteq> Inl (Fatal ''Stopping when not running!'')"
  using aud.stop_ok [of "audioEncoder s"] cap.stop_ok [of "capture s"]
  by (auto simp: stream_inv_def endStream_def stop_media_def rbind_def split: sum.splits)

end

end
