(* ===== verification/Connection.thy ===== *)
theory Connection
  imports ServerCore NetworkSocket Pin
begin

text \<open>
  \<open>Connection\<close> of \<open>src/src/server/Connection.h\<close> and \<open>Connection.cpp\<close>: one client's session on the
  server, with its eight message handlers and the thread \<open>run_\<close> that reads and dispatches.

  A handler takes the connection and the server and returns both. The record \<open>env\<close> holds what comes
  from outside: protobuf, mbedtls (hashes, the two certificate flags, the random generator as a
  sequence of answers), the terminal (the lines typed at the PIN prompt), the media of the server, the
  text printer and whether \<open>clients.toml\<close> opens. The content of a \<open>ByteBuffer\<close> is its byte list;
  theory \<open>Pin\<close> shows that the buffer code of \<open>computePin\<close> computes \<open>client_computePin\<close>.
\<close>

definition PROTOCOL_VERSION :: int where
  "PROTOCOL_VERSION = 2"

record ('s, 'p, 'a) env =
  proto_of :: "'s proto"
  crypto_of :: crypto
  media_of :: "('p, 'a) media"
  sha512 :: "bytes \<Rightarrow> int \<times> bytes"
  sha384 :: "bytes \<Rightarrow> int \<times> bytes"
  drbg :: "nat \<Rightarrow> int \<times> bytes"
  typed_line :: "nat \<Rightarrow> string option"
  cert_not_trusted :: u32
  cert_missing :: u32
  clients_fmt :: "string \<Rightarrow> string \<Rightarrow> string"
  clients_writable :: bool
  git_commit :: string

record auth_state =
  as_hostname :: string
  as_serverCert :: bytes
  as_clientCert :: bytes
  as_nonce :: bytes
  as_clientNonce :: "cell list"
  as_clientPartialHash :: bytes

record 's conn =
  sock :: "'s socket"
  authState :: "auth_state option"
  authorized :: bool
  conn_streaming :: bool
  drbg_used :: nat
  lines_used :: nat

type_synonym ('s, 'p, 'a) session = "'s conn \<times> ('p, 'a) server"

definition conn_new :: "'s socket \<Rightarrow> 's conn" where
  "conn_new sk = \<lparr>sock = sk, authState = None, authorized = False, conn_streaming = False,
     drbg_used = 0, lines_used = 0\<rparr>"

definition conn_destroy :: "'s conn \<Rightarrow> 's conn" where
  "conn_destroy c = (if connected (sock c) then c\<lparr>sock := disconnect (sock c)\<rparr> else c)"

definition conn_disconnect :: "'s conn \<Rightarrow> 's conn" where
  "conn_disconnect c = c\<lparr>sock := disconnect (sock c)\<rparr>"

definition conn_send :: "('s, 'p, 'a) env \<Rightarrow> packet \<Rightarrow> bytes option \<Rightarrow> ('s, 'p, 'a) session \<Rightarrow>
    (bool \<times> ('s, 'p, 'a) session) res" where
  "conn_send E pkt extra cs =
     rbind (send (proto_of E) pkt extra (sock (fst cs))) (\<lambda>(ok, sk).
       Inr (ok, ((fst cs)\<lparr>sock := sk\<rparr>, snd cs)))"

text \<open>The common end of a handler: an answer without extra data whose outcome nobody looks at.\<close>

definition respond :: "('s, 'p, 'a) env \<Rightarrow> msg \<Rightarrow> ('s, 'p, 'a) session \<Rightarrow> ('s, 'p, 'a) session res" where
  "respond E m cs = rbind (conn_send E (reply m) None cs) (\<lambda>(ok, cs'). Inr cs')"

definition msg_clientIntro :: "('s, 'p, 'a) env \<Rightarrow> client_intro \<Rightarrow> ('s, 'p, 'a) session \<Rightarrow> ('s, 'p, 'a) session res" where
  "msg_clientIntro E req cs =
     respond E (ServerIntro \<lparr>si_protocol_version = PROTOCOL_VERSION, si_commit_name = git_commit E,
       si_status = (if PROTOCOL_VERSION \<noteq> ci_protocol_version req then VERSION_MISMATCH
                    else if \<not> authorized (fst cs) then AUTH_REQUIRED else INTRO_OK)\<rparr>) cs"

definition msg_pingRequest :: "('s, 'p, 'a) env \<Rightarrow> ping_request \<Rightarrow> ('s, 'p, 'a) session \<Rightarrow> ('s, 'p, 'a) session res" where
  "msg_pingRequest E req cs =
     (if \<not> authorized (fst cs) then Inr cs
      else respond E (PingResponse \<lparr>ps_id = pr_id req, ps_time = word_of_int (srv_clock (snd cs))\<rparr>) cs)"

definition msg_queryHostCapsRequest :: "('s, 'p, 'a) env \<Rightarrow> codec \<Rightarrow> ('s, 'p, 'a) session \<Rightarrow> ('s, 'p, 'a) session res" where
  "msg_queryHostCapsRequest E codec cs =
     (if \<not> authorized (fst cs)
      then respond E (QueryHostCapsResponse (host_caps_init\<lparr>hc_status := CAPS_UNKNOWN\<rparr>)) cs
      else rbind (getNativeMode (media_of E) (snd cs)) (\<lambda>((w, h, fps), s).
        let res = host_caps_init\<lparr>hc_native_width := w, hc_native_height := h,
                    hc_native_fps_num := num fps, hc_native_fps_den := den fps\<rparr>;
            res' = (if codec = H264_BASELINE
                    then res\<lparr>hc_status := CAPS_OK, hc_max_height := 16384, hc_max_width := 16384,
                             hc_max_fps_num := num fps, hc_max_fps_den := den fps\<rparr>
                    else res\<lparr>hc_status := CAPS_UNSUPPORTED_CODEC\<rparr>)
        in respond E (QueryHostCapsResponse res') (fst cs, s)))"

definition config_reply :: "config_status \<Rightarrow> msg" where
  "config_reply st = ConfigureStreamResponse (configure_response_init\<lparr>cs_status := st\<rparr>)"

definition msg_configureStreamRequest ::
  "('s, 'p, 'a) env \<Rightarrow> configure_request \<Rightarrow> ('s, 'p, 'a) session \<Rightarrow> ('s, 'p, 'a) session res" where
  "msg_configureStreamRequest E req cs =
     (if \<not> authorized (fst cs) then respond E (config_reply CONFIG_UNKNOWN) cs
      else if conn_streaming (fst cs) then respond E (config_reply ALREADY_STREAMING) cs
      else if cr_codec req \<noteq> H264_BASELINE then respond E (config_reply CONFIG_UNSUPPORTED_CODEC) cs
      else if cr_width req \<le> 0 \<or> cr_height req \<le> 0 \<or> cr_fps_num req \<le> 0 \<or> cr_fps_den req \<le> 0
      then respond E (config_reply CONFIG_UNKNOWN) cs
      else rbind (rational_new (cr_fps_num req) (cr_fps_den req)) (\<lambda>fps.
        let s1 = configureStream (cr_width req) (cr_height req) fps (snd cs) in
        rbind (getCaptureResolution (media_of E) s1) (\<lambda>((capWidth, capHeight), s2).
          let (videoWidth, videoHeight) = getVideoResolution s2 in
          respond E (ConfigureStreamResponse (configure_response_init
            \<lparr>cs_status := CONFIG_OK, cs_capture_width := capWidth, cs_capture_height := capHeight,
             cs_video_width := videoWidth, cs_video_height := videoHeight\<rparr>)) (fst cs, s2))))"

definition msg_startStreamRequest :: "('s, 'p, 'a) env \<Rightarrow> ('s, 'p, 'a) session \<Rightarrow> ('s, 'p, 'a) session res" where
  "msg_startStreamRequest E cs =
     (if \<not> authorized (fst cs) then respond E (StartStreamResponse START_UNKNOWN) cs
      else rbind (startStream (media_of E) (snd cs)) (\<lambda>(success, s).
        let c = (if success then (fst cs)\<lparr>conn_streaming := True\<rparr> else fst cs) in
        respond E (StartStreamResponse (if success then START_OK else START_UNKNOWN)) (c, s)))"

definition msg_stopStreamRequest :: "('s, 'p, 'a) env \<Rightarrow> ('s, 'p, 'a) session \<Rightarrow> ('s, 'p, 'a) session res" where
  "msg_stopStreamRequest E cs =
     rbind (endStream (media_of E) (snd cs)) (\<lambda>s. respond E StopStreamResponse (fst cs, s))"

definition auth_reply :: "auth_status \<Rightarrow> msg" where
  "auth_reply st = AuthResponse st []"

definition msg_authRequest ::
  "('s, 'p, 'a) env \<Rightarrow> string \<Rightarrow> int \<Rightarrow> bytes \<Rightarrow> ('s, 'p, 'a) session \<Rightarrow> ('s, 'p, 'a) session res" where
  "msg_authRequest E hostname client_nonce_len extraData cs =
     (if client_nonce_len < 16 then respond E (auth_reply NONCE_TOO_SHORT) cs
      else if length extraData \<noteq> 48 then respond E (auth_reply UNKNOWN_ERROR) cs
      else rbind (assert_quit (grow_ok (proto_of E) (nat client_nonce_len)) ''Failed to allocate memory'') (\<lambda>_.
        let (err, nonce) = drbg E (drbg_used (fst cs));
            a = \<lparr>as_hostname = hostname, as_serverCert = getLocalCert (snd cs),
                 as_clientCert = getRemoteCert (sock (fst cs)), as_nonce = nonce,
                 as_clientNonce = replicate (nat client_nonce_len) None,
                 as_clientPartialHash = extraData\<rparr>;
            cs1 = ((fst cs)\<lparr>authState := Some a, drbg_used := drbg_used (fst cs) + 1\<rparr>, snd cs)
        in if err \<noteq> 0 then respond E (auth_reply UNKNOWN_ERROR) cs1
           else let (err2, partialHash) = sha384 E (as_serverCert a @ as_clientCert a @ as_nonce a) in
             if err2 \<noteq> 0 then respond E (auth_reply UNKNOWN_ERROR) cs1
             else rbind (conn_send E \<lparr>extra_data_len = 48,
                           body = ServerPartialHashNotify (int (length (as_nonce a)))\<rparr> (Some partialHash) cs1)
                    (\<lambda>(ok, cs2). Inr cs2)))"

text \<open>The part of \<open>msg_clientNonceNotify_\<close> after the partial hash was checked: the prompt and the verdict.\<close>

definition auth_verdict :: "('s, 'p, 'a) env \<Rightarrow> auth_state \<Rightarrow> bytes \<Rightarrow> ('s, 'p, 'a) session \<Rightarrow> ('s, 'p, 'a) session res" where
  "auth_verdict E a clientNonce cs =
     rbind (enter_pin (typed_line E (lines_used (fst cs)))) (\<lambda>enteredPin.
       let cs1 = ((fst cs)\<lparr>lines_used := lines_used (fst cs) + 1\<rparr>, snd cs);
           truePin = client_computePin (sha512 E) (as_serverCert a) (as_clientCert a) (as_nonce a) clientNonce
       in if truePin \<noteq> enteredPin then respond E (auth_reply INCORRECT_PIN) cs1
          else rbind (digest (crypto_of E) SHA256 (getRemoteCert (sock (fst cs1)))) (\<lambda>h.
            let known = add h (knownClients (snd cs1)) in
            rbind (saveFile (crypto_of E) (clients_fmt E) (clients_writable E) known) (\<lambda>(good, content).
              let s = (snd cs1)\<lparr>knownClients := known,
                         clients_file := if good then Some content else clients_file (snd cs)\<rparr> in
              rbind (respond E (auth_reply AUTH_OK) (fst cs1, s)) (\<lambda>cs2.
                Inr ((fst cs2)\<lparr>authorized := True\<rparr>, snd cs2)))))"

definition msg_clientNonceNotify ::
  "('s, 'p, 'a) env \<Rightarrow> bytes \<Rightarrow> ('s, 'p, 'a) session \<Rightarrow> ('s, 'p, 'a) session res" where
  "msg_clientNonceNotify E extraData cs =
     (case authState (fst cs) of
        None \<Rightarrow> respond E (auth_reply UNKNOWN_ERROR) cs
      | Some a \<Rightarrow>
          if length extraData \<noteq> length (as_clientNonce a) then respond E (auth_reply UNKNOWN_ERROR) cs
          else
            let a1 = a\<lparr>as_clientNonce := map Some extraData\<rparr>;
                cs1 = ((fst cs)\<lparr>authState := Some a1\<rparr>, snd cs);
                (err, partialHash) = sha384 E (as_serverCert a1 @ as_clientCert a1 @ extraData)
            in if err \<noteq> 0 then respond E (auth_reply UNKNOWN_ERROR) cs1
               else rbind (secureMemcmp partialHash (as_clientPartialHash a1) 48) (\<lambda>eq.
                 if \<not> eq then respond E (auth_reply UNKNOWN_ERROR) cs1
                 else rbind (conn_send E \<lparr>extra_data_len = int (length (as_nonce a1)), body = ServerNonceNotify\<rparr>
                               (Some (as_nonce a1)) cs1) (\<lambda>(ok, cs2).
                   if \<not> ok then Inr cs2 else auth_verdict E a1 extraData cs2)))"

subsection \<open>The thread of a connection\<close>

definition run_begin :: "('s, 'p, 'a) env \<Rightarrow> ('s, 'p, 'a) session \<Rightarrow> ('s, 'p, 'a) session res" where
  "run_begin E cs =
     (let sk = setExpectedRemoteCert (listKnownClients (snd cs)) (sock (fst cs)) in
      rbind (verifyCert (crypto_of E) (cert_not_trusted E) (cert_missing E) sk) (\<lambda>ok.
        Inr ((fst cs)\<lparr>sock := sk, authorized := ok\<rparr>, snd cs)))"

definition dispatch :: "('s, 'p, 'a) env \<Rightarrow> packet \<Rightarrow> bytes \<Rightarrow> ('s, 'p, 'a) session \<Rightarrow> ('s, 'p, 'a) session res" where
  "dispatch E pkt data cs =
     (let cs1 = (if body pkt \<noteq> ClientNonceNotify then ((fst cs)\<lparr>authState := None\<rparr>, snd cs) else cs) in
      (case body pkt of
         ClientIntro req \<Rightarrow> msg_clientIntro E req cs1
       | PingRequest req \<Rightarrow> msg_pingRequest E req cs1
       | QueryHostCapsRequest codec \<Rightarrow> msg_queryHostCapsRequest E codec cs1
       | ConfigureStreamRequest req \<Rightarrow> msg_configureStreamRequest E req cs1
       | StartStreamRequest \<Rightarrow> msg_startStreamRequest E cs1
       | StopStreamRequest \<Rightarrow> msg_stopStreamRequest E cs1
       | AuthRequest hostname n \<Rightarrow> msg_authRequest E hostname n data cs1
       | ClientNonceNotify \<Rightarrow> msg_clientNonceNotify E data cs1
       | _ \<Rightarrow> Inr cs1))"

text \<open>One round of the loop of \<open>run_\<close>, entered while the socket is connected; \<open>data\<close> outlives it.\<close>

definition run_round :: "('s, 'p, 'a) env \<Rightarrow> bytes \<times> ('s, 'p, 'a) session \<Rightarrow> (bytes \<times> ('s, 'p, 'a) session) res" where
  "run_round E st =
     (let (data, c, s) = st in
      rbind (recv (proto_of E) (Some data) (sock c)) (\<lambda>((pkt, extra), sk).
        let data' = (case extra of None \<Rightarrow> [] | Some d \<Rightarrow> d); cs = (c\<lparr>sock := sk\<rparr>, s) in
        (case pkt of
           None \<Rightarrow> Inr (data', cs)
         | Some p \<Rightarrow> rbind (dispatch E p data' cs) (\<lambda>cs'. Inr (data', cs')))))"

fun run_rounds :: "('s, 'p, 'a) env \<Rightarrow> nat \<Rightarrow> bytes \<times> ('s, 'p, 'a) session \<Rightarrow> (bytes \<times> ('s, 'p, 'a) session) res" where
  "run_rounds E 0 st = Inr st"
| "run_rounds E (Suc n) st =
     (if connected (sock (fst (snd st))) then rbind (run_round E st) (run_rounds E n) else Inr st)"

subsection \<open>What a handler can change\<close>

lemma conn_send_Inr:
  assumes "conn_send E p extra cs = Inr (ok, cs')"
  shows "\<exists>sk. cs' = ((fst cs)\<lparr>sock := sk\<rparr>, snd cs) \<and> same_peer sk (sock (fst cs))"
proof -
  from assms obtain sk where s: "send (proto_of E) p extra (sock (fst cs)) = Inr (ok, sk)"
    "cs' = ((fst cs)\<lparr>sock := sk\<rparr>, snd cs)" by (auto simp: conn_send_def rbind_eq_Inr)
  with send_out [OF s(1)] show ?thesis by auto
qed

lemma respond_Inr:
  assumes "respond E m cs = Inr cs'"
  shows "\<exists>sk. cs' = ((fst cs)\<lparr>sock := sk\<rparr>, snd cs) \<and> same_peer sk (sock (fst cs))"
  using assms conn_send_Inr [of E "reply m" None cs] by (fastforce simp: respond_def rbind_eq_Inr)

text \<open>\<open>rests c c'\<close>: apart from the socket, whose peer certificate stays, nothing changed.\<close>

definition rests :: "'s conn \<Rightarrow> 's conn \<Rightarrow> bool" where
  "rests c c' \<longleftrightarrow> (\<exists>sk. c' = c\<lparr>sock := sk\<rparr> \<and> same_peer sk (sock c))"

lemma respond_rests: "respond E m cs = Inr cs' \<Longrightarrow> rests (fst cs) (fst cs') \<and> snd cs' = snd cs"
  by (drule respond_Inr) (auto simp: rests_def)

lemma conn_send_rests: "conn_send E p x cs = Inr (ok, cs') \<Longrightarrow> rests (fst cs) (fst cs') \<and> snd cs' = snd cs"
  by (drule conn_send_Inr) (auto simp: rests_def)

lemma restsD:
  assumes "rests c c'"
  shows "authorized c' = authorized c" "authState c' = authState c" "conn_streaming c' = conn_streaming c"
    "lines_used c' = lines_used c" "drbg_used c' = drbg_used c" "getRemoteCert (sock c') = getRemoteCert (sock c)"
    "same_peer (sock c') (sock c)"
  using assms by (auto simp: rests_def getRemoteCert_def same_peer_def)

lemma set_stream_peer [simp]:
  "same_peer (set_stream P s sk) sk' = same_peer sk sk'"
  "same_peer sk' (set_stream P s sk) = same_peer sk' sk"
  "same_peer sk' (sk\<lparr>inputStream := st\<rparr>) = same_peer sk' sk"
proof -
  have same: "peer_cert (set_stream P s sk) = peer_cert sk" "verify_flags (set_stream P s sk) = verify_flags sk"
    by (auto simp: set_stream_def Let_def reportDisconnected_def call_onDisconnected_def split: option.splits)
  show "same_peer (set_stream P s sk) sk' = same_peer sk sk'"
    "same_peer sk' (set_stream P s sk) = same_peer sk' sk"
    "same_peer sk' (sk\<lparr>inputStream := st\<rparr>) = same_peer sk' sk"
    by (simp_all add: same_peer_def same)
qed

lemma recv_extra_peer: "recv_extra P p e s sk = Inr (r, sk') \<Longrightarrow> same_peer sk' sk"
  by (auto simp: recv_extra_def Let_def rbind_eq_Inr split: option.splits prod.splits if_splits)

lemma recv_from_peer: "recv_from P e s sk = Inr (r, sk') \<Longrightarrow> same_peer sk' sk"
  by (auto simp: recv_from_def Let_def split: option.splits prod.splits if_splits dest: recv_extra_peer)

lemma recv_peer: "recv P e sk = Inr (r, sk') \<Longrightarrow> same_peer sk' sk"
  by (auto simp: recv_def split: option.splits if_splits dest: recv_from_peer)

subsection \<open>How a client becomes authorized\<close>

text \<open>
  The evidence that pairing requires: a session of the authentication, a nonce that matches the
  partial hash the client committed to beforehand, and a typed PIN equal to the computed one.
\<close>

definition paired_by :: "('s, 'p, 'a) env \<Rightarrow> 's conn \<Rightarrow> bytes \<Rightarrow> bool" where
  "paired_by E c data \<longleftrightarrow> (\<exists>a ph.
     authState c = Some a \<and> length data = length (as_clientNonce a) \<and>
     sha384 E (as_serverCert a @ as_clientCert a @ data) = (0, ph) \<and>
     secureMemcmp ph (as_clientPartialHash a) 48 = Inr True \<and>
     enter_pin (typed_line E (lines_used c)) =
       Inr (client_computePin (sha512 E) (as_serverCert a) (as_clientCert a) (as_nonce a) data))"

lemma auth_verdict_authorized:
  assumes "auth_verdict E a data cs = Inr cs'" and "\<not> authorized (fst cs)" and "authorized (fst cs')"
  shows "enter_pin (typed_line E (lines_used (fst cs))) =
      Inr (client_computePin (sha512 E) (as_serverCert a) (as_clientCert a) (as_nonce a) data) \<and>
    (\<exists>h. digest (crypto_of E) SHA256 (getRemoteCert (sock (fst cs))) = Inr h \<and>
       clients (knownClients (snd cs')) = clients (knownClients (snd cs)) @ [h])"
proof -
  from assms(1) obtain v where v: "enter_pin (typed_line E (lines_used (fst cs))) = Inr v"
    by (auto simp: auth_verdict_def rbind_eq_Inr)
  have eq: "client_computePin (sha512 E) (as_serverCert a) (as_clientCert a) (as_nonce a) data = v"
  proof (rule ccontr)
    assume "\<not> ?thesis"
    with assms(1) v have "respond E (auth_reply INCORRECT_PIN)
        ((fst cs)\<lparr>lines_used := lines_used (fst cs) + 1\<rparr>, snd cs) = Inr cs'"
      by (simp add: auth_verdict_def Let_def)
    from restsD(1) [OF conjunct1 [OF respond_rests [OF this]]] assms(2,3) show False by simp
  qed
  from assms(1) v eq obtain h where h: "digest (crypto_of E) SHA256 (getRemoteCert (sock (fst cs))) = Inr h"
    by (auto simp: auth_verdict_def Let_def rbind_eq_Inr)
  from assms(1) v eq h obtain good content where
    sv: "saveFile (crypto_of E) (clients_fmt E) (clients_writable E) (add h (knownClients (snd cs))) = Inr (good, content)"
    by (auto simp: auth_verdict_def Let_def rbind_eq_Inr)
  from assms(1) v eq h sv obtain cs2 where
    r: "respond E (auth_reply AUTH_OK) ((fst cs)\<lparr>lines_used := lines_used (fst cs) + 1\<rparr>,
          (snd cs)\<lparr>knownClients := add h (knownClients (snd cs)),
             clients_file := if good then Some content else clients_file (snd cs)\<rparr>) = Inr cs2" and
    cs': "cs' = ((fst cs2)\<lparr>authorized := True\<rparr>, snd cs2)"
    by (auto simp: auth_verdict_def Let_def rbind_eq_Inr)
  from respond_rests [OF r] have "snd cs' = (snd cs)\<lparr>knownClients := add h (knownClients (snd cs)),
      clients_file := if good then Some content else clients_file (snd cs)\<rparr>" by (simp add: cs')
  with v eq h show ?thesis by (simp add: add_def)
qed

lemma nonce_authorized:
  assumes "msg_clientNonceNotify E data cs = Inr cs'" and "\<not> authorized (fst cs)" and "authorized (fst cs')"
  shows "paired_by E (fst cs) data \<and>
    (\<exists>h. digest (crypto_of E) SHA256 (getRemoteCert (sock (fst cs))) = Inr h \<and>
       clients (knownClients (snd cs')) = clients (knownClients (snd cs)) @ [h])"
proof -
  have no: False if "respond E m (c, s) = Inr cs'" "authorized c = authorized (fst cs)" for m c s
    using restsD(1) [OF conjunct1 [OF respond_rests [OF that(1)]]] that(2) assms(2,3) by simp
  obtain a where a: "authState (fst cs) = Some a" "length data = length (as_clientNonce a)"
    using assms(1) no by (cases "authState (fst cs)"; cases cs) (auto simp: msg_clientNonceNotify_def split: if_splits)
  let ?a1 = "a\<lparr>as_clientNonce := map Some data\<rparr>"
  let ?cs1 = "((fst cs)\<lparr>authState := Some ?a1\<rparr>, snd cs)"
  obtain err ph where ph: "sha384 E (as_serverCert a @ as_clientCert a @ data) = (err, ph)" by fastforce
  have err: "err = 0"
  proof (rule ccontr)
    assume "err \<noteq> 0"
    with assms(1) a ph have "respond E (auth_reply UNKNOWN_ERROR) ?cs1 = Inr cs'"
      by (simp add: msg_clientNonceNotify_def Let_def)
    from no [OF this] show False by simp
  qed
  with assms(1) a ph obtain eq where eq: "secureMemcmp ph (as_clientPartialHash a) 48 = Inr eq"
    by (auto simp: msg_clientNonceNotify_def Let_def rbind_eq_Inr)
  have "eq"
  proof (rule ccontr)
    assume "\<not> eq"
    with assms(1) a ph err eq have "respond E (auth_reply UNKNOWN_ERROR) ?cs1 = Inr cs'"
      by (simp add: msg_clientNonceNotify_def Let_def)
    from no [OF this] show False by simp
  qed
  with assms(1) a ph err eq obtain ok cs2 where
    snd: "conn_send E \<lparr>extra_data_len = int (length (as_nonce a)), body = ServerNonceNotify\<rparr>
           (Some (as_nonce a)) ?cs1 = Inr (ok, cs2)" and
    rest: "(if \<not> ok then Inr cs2 else auth_verdict E ?a1 data cs2) = Inr cs'"
    by (auto simp: msg_clientNonceNotify_def Let_def rbind_eq_Inr)
  from conn_send_rests [OF snd] have r2: "rests (fst ?cs1) (fst cs2)" "snd cs2 = snd cs" by auto
  have unauth: "\<not> authorized (fst cs2)" using restsD(1) [OF r2(1)] assms(2) by simp
  with rest assms(3) have "auth_verdict E ?a1 data cs2 = Inr cs'" by (auto split: if_splits)
  from auth_verdict_authorized [OF this unauth assms(3)] restsD [OF r2(1)] r2(2)
  show ?thesis using a ph err eq \<open>eq\<close> by (auto simp: paired_by_def)
qed

text \<open>No other message authorizes.\<close>

lemmas handler_defs = msg_clientIntro_def msg_pingRequest_def msg_queryHostCapsRequest_def
  msg_configureStreamRequest_def msg_startStreamRequest_def msg_stopStreamRequest_def msg_authRequest_def

lemma respond_authorized: "respond E m cs = Inr cs' \<Longrightarrow> authorized (fst cs') = authorized (fst cs)"
  using respond_rests restsD(1) by blast

lemma conn_send_authorized: "conn_send E p x cs = Inr (ok, cs') \<Longrightarrow> authorized (fst cs') = authorized (fst cs)"
  using conn_send_rests restsD(1) by blast

lemma other_authorized:
  assumes "dispatch E pkt data cs = Inr cs'" and "body pkt \<noteq> ClientNonceNotify"
  shows "authorized (fst cs') = authorized (fst cs)"
proof (cases "body pkt")
  case (AuthRequest h n)
  with assms show ?thesis
    by (auto simp: dispatch_def msg_authRequest_def Let_def rbind_eq_Inr split: if_splits prod.splits
        dest!: respond_authorized conn_send_authorized)
qed (use assms in \<open>auto simp: dispatch_def handler_defs getVideoResolution_def Let_def rbind_eq_Inr split: if_splits prod.splits
      dest!: respond_authorized\<close>)

lemma run_round_dispatch:
  assumes "run_round E (data, c, s) = Inr (data', cs')"
  shows "\<exists>sk. same_peer sk (sock c) \<and>
    (cs' = (c\<lparr>sock := sk\<rparr>, s) \<or> (\<exists>pkt. dispatch E pkt data' (c\<lparr>sock := sk\<rparr>, s) = Inr cs'))"
proof -
  from assms obtain pkt extra sk where r: "recv (proto_of E) (Some data) (sock c) = Inr ((pkt, extra), sk)"
    by (auto simp: run_round_def rbind_eq_Inr)
  from recv_peer [OF r] have pc: "same_peer sk (sock c)" .
  show ?thesis
  proof (cases pkt)
    case None
    with assms r pc show ?thesis by (auto simp: run_round_def Let_def)
  next
    case (Some p)
    with assms r have "dispatch E p data' (c\<lparr>sock := sk\<rparr>, s) = Inr cs'"
      by (auto simp: run_round_def Let_def rbind_eq_Inr)
    with pc show ?thesis by blast
  qed
qed

text \<open>An unauthorized session that does not pair leaves the server as it is, except for stopping the stream.\<close>

lemma respond_snd: "respond E m cs = Inr cs' \<Longrightarrow> snd cs' = snd cs"
  using respond_rests by blast

lemma conn_send_snd: "conn_send E p x cs = Inr (ok, cs') \<Longrightarrow> snd cs' = snd cs"
  using conn_send_rests by blast

lemma unauthorized_dispatch:
  assumes "dispatch E pkt data cs = Inr cs'" and "\<not> authorized (fst cs)"
    and "body pkt \<noteq> ClientNonceNotify" and "body pkt \<noteq> StopStreamRequest"
  shows "snd cs' = snd cs"
proof (cases "body pkt")
  case (AuthRequest h n)
  with assms show ?thesis
    by (auto simp: dispatch_def msg_authRequest_def Let_def rbind_eq_Inr split: if_splits prod.splits
        dest!: respond_snd conn_send_snd)
qed (use assms in \<open>auto simp: dispatch_def handler_defs Let_def split: if_splits dest!: respond_snd\<close>)

text \<open>The authentication state belongs to one exchange: any other message ends it.\<close>

lemma respond_authState: "respond E m cs = Inr cs' \<Longrightarrow> authState (fst cs') = authState (fst cs)"
  using respond_rests restsD(2) by blast

lemma conn_send_authState: "conn_send E p x cs = Inr (ok, cs') \<Longrightarrow> authState (fst cs') = authState (fst cs)"
  using conn_send_rests restsD(2) by blast

lemma dispatch_authState:
  assumes "dispatch E pkt data cs = Inr cs'" and "body pkt \<noteq> ClientNonceNotify"
  shows "authState (fst cs') = None \<or>
    (\<exists>h n a. body pkt = AuthRequest h n \<and> authState (fst cs') = Some a \<and> 16 \<le> length (as_clientNonce a) \<and>
       as_clientPartialHash a = data \<and> length data = 48 \<and> as_serverCert a = local_cert (snd cs) \<and>
       as_clientCert a = getRemoteCert (sock (fst cs)))"
proof (cases "body pkt")
  case (AuthRequest h n)
  with assms show ?thesis
    by (auto simp: dispatch_def msg_authRequest_def Let_def rbind_eq_Inr getLocalCert_def split: if_splits prod.splits
        dest!: respond_authState conn_send_authState)
qed (use assms in \<open>auto simp: dispatch_def handler_defs getVideoResolution_def Let_def rbind_eq_Inr
      split: if_splits prod.splits dest!: respond_authState\<close>)

subsection \<open>The peer stays, and the known clients only grow\<close>

lemma respond_peer: "respond E m cs = Inr cs' \<Longrightarrow> same_peer (sock (fst cs')) (sock (fst cs))"
  using respond_rests restsD(7) by blast

lemma conn_send_peer: "conn_send E p x cs = Inr (ok, cs') \<Longrightarrow> same_peer (sock (fst cs')) (sock (fst cs))"
  using conn_send_rests restsD(7) by blast

lemma respond_keeps: "respond E m cs = Inr cs' \<Longrightarrow> same_peer (sock (fst cs')) (sock (fst cs)) \<and> snd cs' = snd cs"
  using respond_peer respond_snd by blast

lemma auth_verdict_keeps:
  assumes "auth_verdict E a data cs = Inr cs'"
  shows "same_peer (sock (fst cs')) (sock (fst cs)) \<and>
    (\<exists>hs. clients (knownClients (snd cs')) = clients (knownClients (snd cs)) @ hs)"
  using assms by (auto simp: auth_verdict_def Let_def rbind_eq_Inr add_def split: if_splits prod.splits
      dest!: respond_keeps)

lemma nonce_keeps:
  assumes "msg_clientNonceNotify E data cs = Inr cs'"
  shows "same_peer (sock (fst cs')) (sock (fst cs)) \<and>
    (\<exists>hs. clients (knownClients (snd cs')) = clients (knownClients (snd cs)) @ hs)"
proof -
  have resp: ?thesis if "respond E m (c, snd cs) = Inr cs'" "sock c = sock (fst cs)" for m c
    using respond_peer [OF that(1)] respond_snd [OF that(1)] that(2) by simp
  have send: ?thesis if snd: "conn_send E p x (c, snd cs) = Inr (ok, cs2)" and c: "sock c = sock (fst cs)"
    and rest: "(if \<not> ok then Inr cs2 else auth_verdict E a data cs2) = Inr cs'" for p x c ok cs2 a
  proof (cases ok)
    case False
    with conn_send_peer [OF snd] conn_send_snd [OF snd] c rest show ?thesis by simp
  next
    case True
    with rest have "auth_verdict E a data cs2 = Inr cs'" by simp
    from auth_verdict_keeps [OF this] conn_send_peer [OF snd] conn_send_snd [OF snd] c show ?thesis
      by (auto intro: same_peer_trans)
  qed
  show ?thesis
  proof (cases "authState (fst cs)")
    case None
    with assms resp [of _ "fst cs"] show ?thesis by (auto simp: msg_clientNonceNotify_def)
  next
    case (Some a)
    let ?a1 = "a\<lparr>as_clientNonce := map Some data\<rparr>"
    let ?c1 = "(fst cs)\<lparr>authState := Some ?a1\<rparr>"
    show ?thesis
    proof (cases "length data = length (as_clientNonce a)")
      case False
      with Some assms resp [of _ "fst cs"] show ?thesis by (auto simp: msg_clientNonceNotify_def)
    next
      case True
      obtain err ph where ph: "sha384 E (as_serverCert a @ as_clientCert a @ data) = (err, ph)" by fastforce
      show ?thesis
      proof (cases "err = 0 \<and> secureMemcmp ph (as_clientPartialHash a) 48 = Inr True")
        case False
        with Some True assms ph have "respond E (auth_reply UNKNOWN_ERROR) (?c1, snd cs) = Inr cs'"
          by (auto simp: msg_clientNonceNotify_def Let_def rbind_eq_Inr split: if_splits)
        then show ?thesis by (rule resp) simp
      next
        case hash: True
        with Some True assms ph obtain ok cs2 where
          snd2: "conn_send E \<lparr>extra_data_len = int (length (as_nonce a)), body = ServerNonceNotify\<rparr>
             (Some (as_nonce a)) (?c1, snd cs) = Inr (ok, cs2)"
          and rest2: "(if \<not> ok then Inr cs2 else auth_verdict E ?a1 data cs2) = Inr cs'"
          by (auto simp: msg_clientNonceNotify_def Let_def rbind_eq_Inr)
        show ?thesis using send [OF snd2 _ rest2] by simp
      qed
    qed
  qed
qed

lemma dispatch_peer:
  assumes "dispatch E pkt data cs = Inr cs'"
  shows "same_peer (sock (fst cs')) (sock (fst cs))"
proof (cases "body pkt")
  case ClientNonceNotify
  with assms have "msg_clientNonceNotify E data cs = Inr cs'" by (simp add: dispatch_def)
  with nonce_keeps show ?thesis by blast
next
  case (AuthRequest h n)
  with assms show ?thesis
    by (auto simp: dispatch_def msg_authRequest_def Let_def rbind_eq_Inr split: if_splits prod.splits
        dest!: respond_peer conn_send_peer)
qed (use assms in \<open>auto simp: dispatch_def handler_defs getVideoResolution_def Let_def rbind_eq_Inr
      split: if_splits prod.splits dest!: respond_peer\<close>)

lemma server_known:
  "getNativeMode M s = Inr (m, s') \<Longrightarrow> knownClients s' = knownClients s"
  "getCaptureResolution M s = Inr (r, s') \<Longrightarrow> knownClients s' = knownClients s"
  "startStream M s = Inr (ok, s') \<Longrightarrow> knownClients s' = knownClients s"
  "endStream M s = Inr s' \<Longrightarrow> knownClients s' = knownClients s"
  "knownClients (configureStream w h f s) = knownClients s"
  by (auto simp: getNativeMode_def getCaptureResolution_def startStream_def endStream_def stop_media_def
      configureStream_def rbind_eq_Inr split: if_splits prod.splits)

lemma dispatch_known:
  assumes "dispatch E pkt data cs = Inr cs'"
  shows "\<exists>hs. clients (knownClients (snd cs')) = clients (knownClients (snd cs)) @ hs"
proof (cases "body pkt")
  case ClientNonceNotify
  with assms have "msg_clientNonceNotify E data cs = Inr cs'" by (simp add: dispatch_def)
  with nonce_keeps show ?thesis by blast
next
  case (AuthRequest h n)
  with assms have "knownClients (snd cs') = knownClients (snd cs)"
    by (auto simp: dispatch_def msg_authRequest_def Let_def rbind_eq_Inr split: if_splits prod.splits
        dest!: respond_snd conn_send_snd)
  then show ?thesis by simp
next
  case (ConfigureStreamRequest q)
  with assms have "knownClients (snd cs') = knownClients (snd cs)"
    by (auto simp: dispatch_def msg_configureStreamRequest_def getVideoResolution_def Let_def rbind_eq_Inr
        split: if_splits prod.splits dest!: respond_snd server_known(2) simp: server_known(5))
  then show ?thesis by simp
next
  case (QueryHostCapsRequest k)
  with assms have "knownClients (snd cs') = knownClients (snd cs)"
    by (auto simp: dispatch_def msg_queryHostCapsRequest_def Let_def rbind_eq_Inr
        split: if_splits prod.splits dest!: respond_snd server_known(1))
  then show ?thesis by simp
next
  case StartStreamRequest
  with assms have "knownClients (snd cs') = knownClients (snd cs)"
    by (auto simp: dispatch_def msg_startStreamRequest_def Let_def rbind_eq_Inr
        split: if_splits prod.splits dest!: respond_snd server_known(3))
  then show ?thesis by simp
next
  case StopStreamRequest
  with assms have "knownClients (snd cs') = knownClients (snd cs)"
    by (auto simp: dispatch_def msg_stopStreamRequest_def rbind_eq_Inr dest!: respond_snd server_known(4))
  then show ?thesis by simp
qed (use assms in \<open>auto simp: dispatch_def handler_defs Let_def split: if_splits dest!: respond_snd\<close>)

subsection \<open>Sessions and the stream\<close>

context stream_media begin

lemma respond_inv: "respond E m cs = Inr cs' \<Longrightarrow>
    stream_inv cap_running aud_running (snd cs') = stream_inv cap_running aud_running (snd cs)"
  by (simp add: respond_snd)

lemma auth_verdict_inv:
  assumes "auth_verdict E a data cs = Inr cs'" and "stream_inv cap_running aud_running (snd cs)"
  shows "stream_inv cap_running aud_running (snd cs')"
  using assms by (auto simp: auth_verdict_def Let_def rbind_eq_Inr respond_inv split: if_splits prod.splits
      dest!: respond_snd)

lemma nonce_inv:
  assumes "msg_clientNonceNotify E data cs = Inr cs'" and "stream_inv cap_running aud_running (snd cs)"
  shows "stream_inv cap_running aud_running (snd cs')"
  using assms by (auto simp: msg_clientNonceNotify_def Let_def rbind_eq_Inr split: option.splits if_splits prod.splits
      dest!: respond_snd conn_send_snd elim: auth_verdict_inv)

lemma start_inv:
  assumes r: "msg_startStreamRequest E cs = Inr cs'" and m: "media_of E = M"
    and inv: "stream_inv cap_running aud_running (snd cs)"
  shows "stream_inv cap_running aud_running (snd cs')"
proof (cases "authorized (fst cs)")
  case False
  with r inv show ?thesis by (auto simp: msg_startStreamRequest_def dest: respond_snd)
next
  case True
  with r m obtain ok s1 where s: "startStream M (snd cs) = Inr (ok, s1)"
    by (auto simp: msg_startStreamRequest_def rbind_eq_Inr)
  with r m True have "snd cs' = s1" by (auto simp: msg_startStreamRequest_def Let_def dest: respond_snd split: if_splits)
  with startStream_inv [OF inv s] show ?thesis by simp
qed

lemma stop_inv:
  assumes r: "msg_stopStreamRequest E cs = Inr cs'" and m: "media_of E = M"
    and inv: "stream_inv cap_running aud_running (snd cs)"
  shows "stream_inv cap_running aud_running (snd cs')"
proof -
  from r m obtain s1 where s: "endStream M (snd cs) = Inr s1" by (auto simp: msg_stopStreamRequest_def rbind_eq_Inr)
  with r m have "snd cs' = s1" by (auto simp: msg_stopStreamRequest_def dest: respond_snd)
  with endStream_inv [OF inv s] show ?thesis by simp
qed

lemma caps_inv:
  assumes r: "msg_queryHostCapsRequest E k cs = Inr cs'" and m: "media_of E = M"
    and inv: "stream_inv cap_running aud_running (snd cs)"
  shows "stream_inv cap_running aud_running (snd cs')"
proof (cases "authorized (fst cs)")
  case False
  with r inv show ?thesis by (auto simp: msg_queryHostCapsRequest_def dest: respond_snd)
next
  case True
  with r m obtain w h f s1 where s: "getNativeMode M (snd cs) = Inr ((w, h, f), s1)"
    by (auto simp: msg_queryHostCapsRequest_def rbind_eq_Inr)
  with r m True have "snd cs' = s1" by (auto simp: msg_queryHostCapsRequest_def Let_def dest: respond_snd split: if_splits)
  with getNativeMode_inv [OF inv s] show ?thesis by simp
qed

lemma configure_inv:
  assumes r: "msg_configureStreamRequest E q cs = Inr cs'" and m: "media_of E = M"
    and inv: "stream_inv cap_running aud_running (snd cs)"
  shows "stream_inv cap_running aud_running (snd cs')"
proof (cases "authorized (fst cs) \<and> \<not> conn_streaming (fst cs) \<and> cr_codec q = H264_BASELINE \<and>
    \<not> (cr_width q \<le> 0 \<or> cr_height q \<le> 0 \<or> cr_fps_num q \<le> 0 \<or> cr_fps_den q \<le> 0)")
  case False
  with r inv show ?thesis by (auto simp: msg_configureStreamRequest_def dest!: respond_snd split: if_splits)
next
  case True
  define s0 where "s0 = configureStream (cr_width q) (cr_height q) \<lparr>num = cr_fps_num q, den = cr_fps_den q\<rparr> (snd cs)"
  have fps: "rational_new (cr_fps_num q) (cr_fps_den q) = Inr \<lparr>num = cr_fps_num q, den = cr_fps_den q\<rparr>"
    using True by (simp add: rational_new_Inr)
  with r m True obtain w h s1 where s: "getCaptureResolution M s0 = Inr ((w, h), s1)"
    by (auto simp: msg_configureStreamRequest_def rbind_eq_Inr s0_def)
  with r m True fps have "snd cs' = s1"
    by (auto simp: msg_configureStreamRequest_def s0_def getVideoResolution_def dest: respond_snd)
  moreover have "stream_inv cap_running aud_running s0" using inv by (simp add: s0_def)
  ultimately show ?thesis using getCaptureResolution_inv [OF _ s] by simp
qed

lemma auth_inv:
  assumes r: "msg_authRequest E h n data cs = Inr cs'"
  shows "snd cs' = snd cs"
  using r by (auto simp: msg_authRequest_def Let_def rbind_eq_Inr split: if_splits prod.splits
        dest!: respond_snd conn_send_snd)

lemma dispatch_inv:
  assumes r: "dispatch E pkt data cs = Inr cs'" and m: "media_of E = M" and inv: "stream_inv cap_running aud_running (snd cs)"
  shows "stream_inv cap_running aud_running (snd cs')"
proof -
  let ?cs1 = "((fst cs)\<lparr>authState := None\<rparr>, snd cs)"
  have inv1: "stream_inv cap_running aud_running (snd ?cs1)" using inv by simp
  show ?thesis
  proof (cases "body pkt")
    case ClientNonceNotify
    with r have "msg_clientNonceNotify E data cs = Inr cs'" by (simp add: dispatch_def)
    then show ?thesis using inv by (rule nonce_inv)
  next
    case (AuthRequest h n)
    with r have "msg_authRequest E h n data ?cs1 = Inr cs'" by (simp add: dispatch_def)
    with auth_inv inv show ?thesis by fastforce
  next
    case StartStreamRequest
    with r have "msg_startStreamRequest E ?cs1 = Inr cs'" by (simp add: dispatch_def)
    then show ?thesis using m inv1 by (rule start_inv)
  next
    case StopStreamRequest
    with r have "msg_stopStreamRequest E ?cs1 = Inr cs'" by (simp add: dispatch_def)
    then show ?thesis using m inv1 by (rule stop_inv)
  next
    case (QueryHostCapsRequest k)
    with r have "msg_queryHostCapsRequest E k ?cs1 = Inr cs'" by (simp add: dispatch_def)
    then show ?thesis using m inv1 by (rule caps_inv)
  next
    case (ConfigureStreamRequest q)
    with r have "msg_configureStreamRequest E q ?cs1 = Inr cs'" by (simp add: dispatch_def)
    then show ?thesis using m inv1 by (rule configure_inv)
  next
    case (ClientIntro q)
    with r inv show ?thesis by (auto simp: dispatch_def msg_clientIntro_def Let_def dest!: respond_snd)
  next
    case (PingRequest q)
    with r inv show ?thesis by (auto simp: dispatch_def msg_pingRequest_def Let_def split: if_splits dest!: respond_snd)
  qed (use r inv in \<open>auto simp: dispatch_def\<close>)
qed

lemma run_round_inv:
  assumes "run_round E (data, c, s) = Inr (data', cs')" and "media_of E = M" and "stream_inv cap_running aud_running s"
  shows "stream_inv cap_running aud_running (snd cs')"
proof -
  from run_round_dispatch [OF assms(1)] obtain sk where
    "cs' = (c\<lparr>sock := sk\<rparr>, s) \<or> (\<exists>pkt. dispatch E pkt data' (c\<lparr>sock := sk\<rparr>, s) = Inr cs')" by blast
  then show ?thesis
  proof (elim disjE exE)
    assume "cs' = (c\<lparr>sock := sk\<rparr>, s)"
    with assms(3) show ?thesis by simp
  next
    fix pkt assume "dispatch E pkt data' (c\<lparr>sock := sk\<rparr>, s) = Inr cs'"
    from dispatch_inv [OF this assms(2)] assms(3) show ?thesis by simp
  qed
qed

end

subsection \<open>Concrete sessions\<close>

text \<open>
  For concrete runs: a peer that sends the packet \<open>p\<close> with the extra data \<open>d\<close>, hashes of zeros, and
  media that are on or off.
\<close>

definition talk_proto :: "packet \<Rightarrow> bytes \<Rightarrow> unit proto" where
  "talk_proto p d = \<lparr>grow_ok = (\<lambda>_. True), ByteSizeLong = (\<lambda>_. 1), WriteVarint64 = (\<lambda>_. []),
     SerializeToCodedStream = (\<lambda>_. Some [0]), ReadVarintSizeAsInt = (\<lambda>s. (Some 1, s)),
     PushLimit = (\<lambda>n s. (0, s)), ParseFromCodedStream = (\<lambda>s. (Some p, s)), ConsumedEntireMessage = (\<lambda>_. True),
     PopLimit = (\<lambda>l s. s), ReadRaw = (\<lambda>n b s. ((True, d), s)), Skip = (\<lambda>n s. s),
     stream_error = (\<lambda>_. None), tls_strerror = (\<lambda>_. [])\<rparr>"

definition onoff_media :: "(bool, bool) media" where
  "onoff_media = \<lparr>p_init = (\<lambda>p. Inr (True, p)),
     p_start = (\<lambda>p. if p then Inl (Fatal ''Starting without stopping first!'') else Inr True),
     p_stop = (\<lambda>p. if p then Inr False else Inl (Fatal ''Stopping when not running!'')),
     p_getNativeMode = (\<lambda>p. Inr ((1920, 1080, \<lparr>num = 60, den = 1\<rparr>), p)),
     p_setEncoderMode = (\<lambda>w h f p. Inr (True, p)),
     a_start = (\<lambda>_. Inr True), a_stop = (\<lambda>_. Inr False)\<rparr>"

definition sample_env :: "packet \<Rightarrow> bytes \<Rightarrow> string \<Rightarrow> (unit, bool, bool) env" where
  "sample_env p d line = \<lparr>proto_of = talk_proto p d, crypto_of = sample_crypto, media_of = onoff_media,
     sha512 = (\<lambda>_. (0, replicate 64 0)), sha384 = (\<lambda>_. (0, replicate 48 0)), drbg = (\<lambda>_. (0, [])),
     typed_line = (\<lambda>_. Some line), cert_not_trusted = 8, cert_missing = 64, clients_fmt = (\<lambda>k v. v),
     clients_writable = True, git_commit = []\<rparr>"

definition sample_socket :: "bytes \<Rightarrow> unit socket" where
  "sample_socket cert = \<lparr>connected = True, has_onDisconnected = False, disconnect_events = [],
     tls_answers = replicate 8 1, tls_out = [], inputStream = None, incoming = (), peer_cert = Some cert,
     verify_flags = 8, expectedRemoteCerts = []\<rparr>"

definition sample_server :: "bool \<Rightarrow> (bool, bool) server" where
  "sample_server b = \<lparr>knownClients = kc_init, clients_file = None, requestedWidth = 0, requestedHeight = 0,
     requestedFramerate = rat_default, srv_streaming = b, srv_clock = 0, local_cert = [1], capture = b,
     audioEncoder = b, srv_cursorPos = None\<rparr>"

lemmas sample_defs = sample_env_def sample_server_def onoff_media_def conn_new_def

lemma talk_recv:
  "0 < extra_data_len p \<Longrightarrow> recv (talk_proto p d) (Some x) (sample_socket cert) =
     Inr ((Some p, Some d), (sample_socket cert)\<lparr>inputStream := Some ()\<rparr>)"
  by (simp add: recv_def recv_from_def recv_extra_def set_stream_def talk_proto_def sample_socket_def)

lemma talk_recv_plain:
  "extra_data_len p = 0 \<Longrightarrow> recv (talk_proto p d) (Some x) (sample_socket cert) =
     Inr ((Some p, Some x), (sample_socket cert)\<lparr>inputStream := Some ()\<rparr>)"
  by (simp add: recv_def recv_from_def recv_extra_def set_stream_def talk_proto_def sample_socket_def)

lemma talk_send:
  "extra_data_len q = 0 \<Longrightarrow> tls_answers sk = 1 # rs \<Longrightarrow>
     send (talk_proto p d) q extra sk = Inr (True, sk\<lparr>tls_answers := rs, tls_out := tls_out sk @ [0]\<rparr>)"
  by (cases rs) (simp_all add: send_def ssl_write_all_def talk_proto_def sz_of_int_def SIZE_T_MOD_def Let_def)

lemma sample_answers: "tls_answers (sample_socket cert) = [1, 1, 1, 1, 1, 1, 1, 1]"
  by (simp add: sample_socket_def numeral_eq_Suc)

lemma sample_cert: "getRemoteCert ((sample_socket cert)\<lparr>inputStream := x, tls_answers := y, tls_out := z\<rparr>) = cert"
  by (simp add: sample_socket_def getRemoteCert_def)

lemmas talk_simps = talk_recv talk_recv_plain talk_send sample_answers sample_cert respond_def conn_send_def reply_def

subsection \<open>Properties\<close>

text \<open>C1: only pairing authorizes a connected client. If a round of a connection's thread turns an
  unauthorized connection into an authorized one, then an authentication was under way, the nonce the client
  revealed hashes to the value it had committed to before it saw the server's nonce, the PIN typed at the
  server equals the PIN computed from both certificates and both nonces, and the fingerprint of the client's
  certificate was appended to the known clients.\<close>

theorem pairing_only:
  assumes "run_round E (data, c, s) = Inr (data', c', s')" and "\<not> authorized c" and "authorized c'"
  shows "paired_by E c data' \<and> (\<exists>h. digest (crypto_of E) SHA256 (getRemoteCert (sock c)) = Inr h \<and>
    clients (knownClients s') = clients (knownClients s) @ [h])"
proof -
  from run_round_dispatch [OF assms(1)] assms(2,3) obtain sk pkt where sk: "same_peer sk (sock c)"
    and d: "dispatch E pkt data' (c\<lparr>sock := sk\<rparr>, s) = Inr (c', s')" by auto
  have "body pkt = ClientNonceNotify" using other_authorized [OF d] assms(2,3) by auto
  with d have "msg_clientNonceNotify E data' (c\<lparr>sock := sk\<rparr>, s) = Inr (c', s')" by (simp add: dispatch_def)
  from nonce_authorized [OF this] assms(2,3) sk show ?thesis
    by (simp add: paired_by_def same_peer_def getRemoteCert_def)
qed

definition pairing_conn :: "unit conn" where
  "pairing_conn = (conn_new (sample_socket [7]))\<lparr>authState := Some \<lparr>as_hostname = [], as_serverCert = [1],
     as_clientCert = [7], as_nonce = [], as_clientNonce = replicate 16 None, as_clientPartialHash = replicate 48 0\<rparr>\<rparr>"

theorem pairing_only_witness:
  "\<exists>data' c' s'. run_round (sample_env \<lparr>extra_data_len = 16, body = ClientNonceNotify\<rparr> (replicate 16 5) ''0000 0000'')
      ([], pairing_conn, sample_server False) = Inr (data', c', s') \<and> authorized c' \<and> length (clients (knownClients s')) = 1"
proof -
  let ?E = "sample_env \<lparr>extra_data_len = 16, body = ClientNonceNotify\<rparr> (replicate 16 5) ''0000 0000''"
  have pin: "enter_pin (Some ''0000 0000'') = Inr 0" by (simp add: enter_pin_def is_blank_def is_digit_def fits32_def)
  have zero: "client_computePin (\<lambda>_. (0, replicate 64 0)) a b x y = 0" for a b x y
    by (simp add: client_computePin_def hash_value_def)
  have eq: "secureMemcmp (replicate 48 0) (replicate 48 0) 48 = Inr True" by (simp add: secureMemcmp_eq)
  have "case run_round ?E ([], pairing_conn, sample_server False) of Inl _ \<Rightarrow> False | Inr (d, c, s) \<Rightarrow> authorized c"
    by (simp add: run_round_def sample_defs pairing_conn_def talk_simps dispatch_def msg_clientNonceNotify_def
        eq auth_verdict_def pin zero auth_reply_def digest_def sample_crypto_def saveFile_def kc_init_def add_def
        getRepr_def intoBase64String_def PREFIX_TABLE_def Let_def)
  then obtain data' c' s' where r: "run_round ?E ([], pairing_conn, sample_server False) = Inr (data', c', s')" "authorized c'"
    by (auto split: sum.splits prod.splits)
  have "\<not> authorized pairing_conn" by (simp add: pairing_conn_def conn_new_def)
  from pairing_only [OF r(1) this r(2)] have "length (clients (knownClients s')) = 1"
    by (auto simp: sample_server_def kc_init_def)
  with r show ?thesis by blast
qed

lemma nonce_fails_snd:
  assumes r: "msg_clientNonceNotify E data cs = Inr cs'" and un: "\<not> authorized (fst cs')"
  shows "snd cs' = snd cs"
proof -
  have verdict: "snd cs2 = snd cs1" if "auth_verdict E a data cs1 = Inr cs2" "\<not> authorized (fst cs2)" for a cs1 cs2
    using that by (auto simp: auth_verdict_def Let_def rbind_eq_Inr split: if_splits prod.splits dest!: respond_snd)
  have send: "snd cs' = snd cs" if "conn_send E p x (c, snd cs) = Inr (ok, cs2)"
    "(if \<not> ok then Inr cs2 else auth_verdict E a data cs2) = Inr cs'" for p x c ok cs2 a
    using that conn_send_snd [OF that(1)] verdict [of a cs2 cs'] un by (cases ok) auto
  have resp: "snd cs' = snd cs" if "respond E m (c, snd cs) = Inr cs'" for m c
    using respond_snd [OF that] by simp
  show ?thesis
  proof (cases "authState (fst cs)")
    case None
    with r resp [of _ "fst cs"] show ?thesis by (auto simp: msg_clientNonceNotify_def)
  next
    case (Some a)
    let ?a1 = "a\<lparr>as_clientNonce := map Some data\<rparr>"
    let ?c1 = "(fst cs)\<lparr>authState := Some ?a1\<rparr>"
    obtain err ph where ph: "sha384 E (as_serverCert a @ as_clientCert a @ data) = (err, ph)" by fastforce
    show ?thesis
    proof (cases "length data = length (as_clientNonce a) \<and> err = 0 \<and> secureMemcmp ph (as_clientPartialHash a) 48 = Inr True")
      case False
      with Some r ph show ?thesis using resp [of _ "fst cs"] resp [of _ ?c1]
        by (auto simp: msg_clientNonceNotify_def Let_def rbind_eq_Inr split: if_splits)
    next
      case True
      with Some r ph obtain ok cs2 where
        s: "conn_send E \<lparr>extra_data_len = int (length (as_nonce a)), body = ServerNonceNotify\<rparr>
             (Some (as_nonce a)) (?c1, snd cs) = Inr (ok, cs2)"
          "(if \<not> ok then Inr cs2 else auth_verdict E ?a1 data cs2) = Inr cs'"
        by (auto simp: msg_clientNonceNotify_def Let_def rbind_eq_Inr)
      show ?thesis by (rule send [OF s])
    qed
  qed
qed

text \<open>C7: a client that is not authorized cannot touch the server. Handling any of its messages other than
  StopStreamRequest leaves the whole server state as it was, unless the message completes a pairing.\<close>

theorem unauthorized_confined:
  assumes "dispatch E pkt data (c, s) = Inr (c', s')" and "\<not> authorized c" and "\<not> authorized c'"
    and "body pkt \<noteq> StopStreamRequest"
  shows "s' = s"
proof (cases "body pkt = ClientNonceNotify")
  case True
  with assms(1) have "msg_clientNonceNotify E data (c, s) = Inr (c', s')" by (simp add: dispatch_def)
  from nonce_fails_snd [OF this] assms(3) show ?thesis by simp
next
  case False
  from unauthorized_dispatch [OF assms(1) _ False assms(4)] assms(2) show ?thesis by simp
qed

theorem unauthorized_confined_witness:
  "\<exists>c' s'. dispatch (sample_env (reply StartStreamRequest) [] []) (reply StartStreamRequest) []
      (conn_new (sample_socket [7]), sample_server False) = Inr (c', s') \<and> s' = sample_server False"
proof -
  let ?E = "sample_env (reply StartStreamRequest) [] []"
  let ?c = "conn_new (sample_socket [7])"
  have un: "\<not> authorized ?c" by (simp add: conn_new_def)
  have "case dispatch ?E (reply StartStreamRequest) [] (?c, sample_server False) of Inl _ \<Rightarrow> False | Inr (c, s) \<Rightarrow> \<not> authorized c"
    by (simp add: sample_defs talk_simps dispatch_def msg_startStreamRequest_def)
  then obtain c' s' where r: "dispatch ?E (reply StartStreamRequest) [] (?c, sample_server False) = Inr (c', s')" "\<not> authorized c'"
    by (auto split: sum.splits prod.splits)
  from unauthorized_confined [OF r(1) un r(2)] r(1) show ?thesis by simp
qed

text \<open>The exception is a hole. \<open>msg_stopStreamRequest_\<close> checks no authorization: a client that was
  never authorized ends the stream of the others.\<close>

lemma stop_by_anyone:
  assumes "dispatch E pkt data (c, s) = Inr (c', s')" and "body pkt = StopStreamRequest" and "\<not> authorized c"
  shows "\<not> srv_streaming s' \<and> \<not> authorized c'"
proof -
  from assms(1,2) obtain s1 where s1: "endStream (media_of E) s = Inr s1"
    and r: "respond E StopStreamResponse (c\<lparr>authState := None\<rparr>, s1) = Inr (c', s')"
    by (auto simp: dispatch_def msg_stopStreamRequest_def rbind_eq_Inr)
  have "\<not> srv_streaming s1" using s1 by (auto simp: endStream_def stop_media_def rbind_eq_Inr split: if_splits)
  with respond_snd [OF r] respond_authorized [OF r] assms(3) show ?thesis by simp
qed

theorem stop_by_anyone_witness:
  "srv_streaming (sample_server True) \<and> (\<exists>c' s'. dispatch (sample_env (reply StopStreamRequest) [] []) (reply StopStreamRequest) []
      (conn_new (sample_socket [7]), sample_server True) = Inr (c', s') \<and> \<not> srv_streaming s')"
proof -
  let ?E = "sample_env (reply StopStreamRequest) [] []"
  let ?c = "conn_new (sample_socket [7])"
  have un: "\<not> authorized ?c" by (simp add: conn_new_def)
  have "case dispatch ?E (reply StopStreamRequest) [] (?c, sample_server True) of Inl _ \<Rightarrow> False | Inr (c, s) \<Rightarrow> True"
    by (simp add: sample_defs talk_simps dispatch_def msg_stopStreamRequest_def endStream_def stop_media_def)
  then obtain c' s' where r: "dispatch ?E (reply StopStreamRequest) [] (?c, sample_server True) = Inr (c', s')"
    by (auto split: sum.splits prod.splits)
  from stop_by_anyone [OF r _ un] r show ?thesis by (simp add: sample_server_def)
qed

text \<open>A client cannot stream twice. The connection's own flag is set when its stream starts and never
  cleared: after StopStreamRequest has ended the stream, a ConfigureStreamRequest of the same connection is
  answered with ALREADY_STREAMING and leaves the requested mode as it was.\<close>

lemma configure_after_stop:
  assumes "authorized c" and "conn_streaming c"
    and "dispatch E \<lparr>extra_data_len = n, body = StopStreamRequest\<rparr> data (c, s) = Inr (c1, s1)"
  shows "\<not> srv_streaming s1 \<and>
    dispatch E \<lparr>extra_data_len = m, body = ConfigureStreamRequest q\<rparr> data (c1, s1) =
      respond E (config_reply ALREADY_STREAMING) (c1\<lparr>authState := None\<rparr>, s1)"
proof -
  from assms(3) obtain s0 where s0: "endStream (media_of E) s = Inr s0"
    and r: "respond E StopStreamResponse (c\<lparr>authState := None\<rparr>, s0) = Inr (c1, s1)"
    by (auto simp: dispatch_def msg_stopStreamRequest_def rbind_eq_Inr)
  have "\<not> srv_streaming s0" using s0 by (auto simp: endStream_def stop_media_def rbind_eq_Inr split: if_splits)
  moreover have "s1 = s0" "authorized c1" "conn_streaming c1"
    using respond_rests [OF r] restsD(1,3) [of "c\<lparr>authState := None\<rparr>" c1] assms(1,2) by auto
  ultimately show ?thesis by (simp add: dispatch_def msg_configureStreamRequest_def)
qed

theorem configure_after_stop_witness:
  "\<exists>c1 s1. dispatch (sample_env (reply StopStreamRequest) [] []) \<lparr>extra_data_len = 0, body = StopStreamRequest\<rparr> []
      ((conn_new (sample_socket [7]))\<lparr>authorized := True, conn_streaming := True\<rparr>, sample_server True) = Inr (c1, s1) \<and>
    \<not> srv_streaming s1"
proof -
  let ?E = "sample_env (reply StopStreamRequest) [] []"
  let ?c = "(conn_new (sample_socket [7]))\<lparr>authorized := True, conn_streaming := True\<rparr>"
  let ?p = "\<lparr>extra_data_len = 0, body = StopStreamRequest\<rparr>"
  have "case dispatch ?E ?p [] (?c, sample_server True) of Inl _ \<Rightarrow> False | Inr (c, s) \<Rightarrow> True"
    by (simp add: sample_defs talk_simps dispatch_def msg_stopStreamRequest_def endStream_def stop_media_def)
  then obtain c1 s1 where r: "dispatch ?E ?p [] (?c, sample_server True) = Inr (c1, s1)"
    by (auto split: sum.splits prod.splits)
  from configure_after_stop [OF _ _ r] r show ?thesis by auto
qed



end
