(* ===== verification/StreamServer.thy ===== *)
theory StreamServer
  imports Connection
begin

text \<open>
  \<open>StreamServer\<close> of \<open>src/src/server/StreamServer.h\<close> and \<open>StreamServer.cpp\<close>: the connections, the
  thread that deletes them, and the broadcast of the encoded stream.

  A \<open>member\<close> is one element of \<open>connections\<close> with the state of its thread: not yet run, in its loop, or
  past its last call \<open>onDisconnected\<close>. \<open>sys_step\<close> interleaves the threads: one step is a thread's work
  between two blocking points. \<open>connectionsLock\<close> is held across steps only by \<open>stop()\<close>, which joins the
  threads under it, and by the deleter while it erases; every other holder releases it within its step.
\<close>

datatype phase = Starting | Looping | Ended

record 's member =
  m_id :: nat
  m_phase :: phase
  m_data :: bytes
  m_conn :: "'s conn"

record ('s, 'p, 'a) system =
  connections :: "'s member list"
  deleteReq :: "nat list"
  flagRunDeleter :: bool
  stop_holds_lock :: bool
  srv :: "('p, 'a) server"
  next_id :: nat

definition system_init :: "('p, 'a) server \<Rightarrow> ('s, 'p, 'a) system" where
  "system_init s = \<lparr>connections = [], deleteReq = [], flagRunDeleter = True, stop_holds_lock = False,
     srv = s, next_id = 0\<rparr>"

subsection \<open>The life of a connection\<close>

definition onNewConnection :: "'s socket \<Rightarrow> ('s, 'p, 'a) system \<Rightarrow> ('s, 'p, 'a) system" where
  "onNewConnection newSock sys =
     sys\<lparr>connections := connections sys @
           [\<lparr>m_id = next_id sys, m_phase = Starting, m_data = [], m_conn = conn_new newSock\<rparr>],
         next_id := next_id sys + 1\<rparr>"

definition onDisconnected :: "nat \<Rightarrow> ('s, 'p, 'a) system \<Rightarrow> ('s, 'p, 'a) system" where
  "onDisconnected conn sys = sys\<lparr>deleteReq := deleteReq sys @ [conn]\<rparr>"

text \<open>One pass of the erasing loop: the first member with this pointer, if any.\<close>

fun erase_once :: "nat \<Rightarrow> 's member list \<Rightarrow> 's member list option" where
  "erase_once conn [] = None"
| "erase_once conn (m # ms) =
     (if m_id m = conn then Some ms
      else (case erase_once conn ms of None \<Rightarrow> None | Some ms' \<Rightarrow> Some (m # ms')))"

lemma erase_once_shorter: "erase_once conn ms = Some ms' \<Longrightarrow> length ms' < length ms"
  by (induction ms arbitrary: ms') (auto split: if_splits option.splits)

function erase_loop :: "nat \<Rightarrow> 's member list \<Rightarrow> 's member list" where
  "erase_loop conn ms = (case erase_once conn ms of None \<Rightarrow> ms | Some ms' \<Rightarrow> erase_loop conn ms')"
  by pat_completeness auto
termination
  by (relation "measure (\<lambda>(conn, ms). length ms)") (auto dest: erase_once_shorter)

declare erase_loop.simps [simp del]

lemma erase_loop_filter: "erase_loop conn ms = filter (\<lambda>m. m_id m \<noteq> conn) ms"
proof (induction conn ms rule: erase_loop.induct)
  case (1 conn ms)
  have once: "case erase_once conn xs of None \<Rightarrow> \<forall>m\<in>set xs. m_id m \<noteq> conn
      | Some ys \<Rightarrow> filter (\<lambda>m. m_id m \<noteq> conn) ys = filter (\<lambda>m. m_id m \<noteq> conn) xs" for xs :: "'a member list"
    by (induction xs) (auto split: option.splits)
  show ?case
  proof (cases "erase_once conn ms")
    case None
    with once [of ms] show ?thesis by (subst erase_loop.simps) (simp add: filter_id_conv)
  next
    case (Some ms')
    with once [of ms] 1 show ?thesis by (subst erase_loop.simps) simp
  qed
qed

text \<open>The loop of \<open>deleterThread\<close>, one round; with an empty queue it waits.\<close>

definition deleter_round :: "('p, 'a) media \<Rightarrow> ('s, 'p, 'a) system \<Rightarrow> ('s, 'p, 'a) system res" where
  "deleter_round M sys =
     (case deleteReq sys of
        [] \<Rightarrow> Inr sys
      | conn # rest \<Rightarrow>
          let ms = erase_loop conn (connections sys);
              sys1 = sys\<lparr>deleteReq := rest, connections := ms\<rparr>
          in if ms = [] \<and> srv_streaming (srv sys1)
             then rbind (stop_media M (srv sys1)) (\<lambda>s. Inr (sys1\<lparr>srv := s\<rparr>))
             else Inr sys1)"

definition deleter_quit :: "('s, 'p, 'a) system \<Rightarrow> ('s, 'p, 'a) system" where
  "deleter_quit sys = sys\<lparr>flagRunDeleter := False\<rparr>"

text \<open>\<open>stop()\<close>: it takes the lock, disconnects everyone, and destroys the members, joining their threads.\<close>

definition stop_begin :: "('s, 'p, 'a) system \<Rightarrow> ('s, 'p, 'a) system" where
  "stop_begin sys = sys\<lparr>stop_holds_lock := True,
     connections := map (\<lambda>m. m\<lparr>m_conn := conn_disconnect (m_conn m)\<rparr>) (connections sys)\<rparr>"

definition stop_end :: "('s, 'p, 'a) system \<Rightarrow> ('s, 'p, 'a) system" where
  "stop_end sys = sys\<lparr>stop_holds_lock := False, connections := []\<rparr>"

subsection \<open>The stream\<close>

fun cursor_format_msg :: "cursor_shape_format \<Rightarrow> cursor_format res" where
  "cursor_format_msg CS_RGBA = Inr RGBA"
| "cursor_format_msg CS_RGBA_XOR = Inr RGBA_XOR"
| "cursor_format_msg (CS_FORMAT_OTHER n) = error_quit ''Unknown cursor shape format''"

definition cursor_packet :: "(int \<Rightarrow> u32) \<Rightarrow> cursor_shape \<Rightarrow> (packet \<times> bytes) res" where
  "cursor_packet to_float sh =
     rbind (cursor_format_msg (cs_format sh)) (\<lambda>f.
       Inr (\<lparr>extra_data_len = int (length (cs_image sh)),
             body = CursorShapeMsg \<lparr>cm_format = f, cm_width = cs_width sh, cm_height = cs_height sh,
               cm_hotspot_x = to_float (cs_hotspotX sh), cm_hotspot_y = to_float (cs_hotspotY sh)\<rparr>\<rparr>,
            cs_image sh))"

definition desktop_packet :: "cursor_pos option \<Rightarrow> bytes frame_of \<Rightarrow> packet \<times> bytes" where
  "desktop_packet pos cap =
     (let (vis, x, y) = (case pos of
            None \<Rightarrow> (False, 0, 0)
          | Some p \<Rightarrow> if cp_visible p then (True, cp_x p, cp_y p) else (False, 0, 0))
      in (\<lparr>extra_data_len = int (length (desktop cap)),
           body = DesktopFrameMsg \<lparr>df_cursor_visible = vis, df_cursor_x = x, df_cursor_y = y,
             df_is_idr = isIDR cap, df_time_captured = word_of_int (timeCaptured cap),
             df_time_encoded = word_of_int (timeEncoded cap)\<rparr>\<rparr>,
          desktop cap))"

definition next_cursor :: "cursor_pos option \<Rightarrow> bytes frame_of \<Rightarrow> cursor_pos option" where
  "next_cursor pos cap = (case cursorPos cap of None \<Rightarrow> pos | Some p \<Rightarrow> Some p)"

text \<open>The packets one encoded frame turns into.\<close>

definition output_packets :: "(int \<Rightarrow> u32) \<Rightarrow> cursor_pos option \<Rightarrow> bytes frame_of \<Rightarrow> (packet \<times> bytes) list res" where
  "output_packets to_float pos cap =
     rbind (case cursorShape cap of None \<Rightarrow> Inr [] | Some sh \<Rightarrow> rbind (cursor_packet to_float sh) (\<lambda>p. Inr [p])) (\<lambda>ps.
       Inr (ps @ [desktop_packet (next_cursor pos cap) cap]))"

fun broadcast :: "('s, 'p, 'a) env \<Rightarrow> packet \<Rightarrow> bytes \<Rightarrow> 's member list \<Rightarrow> 's member list res" where
  "broadcast E pkt extra [] = Inr []"
| "broadcast E pkt extra (m # ms) =
     rbind (send (proto_of E) pkt (Some extra) (sock (m_conn m))) (\<lambda>(ok, sk).
     rbind (broadcast E pkt extra ms) (\<lambda>ms'.
       Inr (m\<lparr>m_conn := (m_conn m)\<lparr>sock := sk\<rparr>\<rparr> # ms')))"

fun broadcast_all :: "('s, 'p, 'a) env \<Rightarrow> (packet \<times> bytes) list \<Rightarrow> 's member list \<Rightarrow> 's member list res" where
  "broadcast_all E [] ms = Inr ms"
| "broadcast_all E (p # ps) ms = rbind (broadcast E (fst p) (snd p) ms) (broadcast_all E ps)"

definition processOutput ::
  "('s, 'p, 'a) env \<Rightarrow> (int \<Rightarrow> u32) \<Rightarrow> bytes frame_of \<Rightarrow> ('s, 'p, 'a) system \<Rightarrow> ('s, 'p, 'a) system res" where
  "processOutput E to_float cap sys =
     (let pos = srv_cursorPos (srv sys) in
      rbind (output_packets to_float pos cap) (\<lambda>ps.
      rbind (broadcast_all E ps (connections sys)) (\<lambda>ms.
        Inr (sys\<lparr>connections := ms, srv := (srv sys)\<lparr>srv_cursorPos := next_cursor pos cap\<rparr>\<rparr>))))"

text \<open>\<open>audioEncoder.setOnAudioData\<close>: two channels, the bytes as they are.\<close>

definition audio_packet :: "bytes \<Rightarrow> packet" where
  "audio_packet data = \<lparr>extra_data_len = int (length data), body = AudioFrame 2 False\<rparr>"

definition onAudioData :: "('s, 'p, 'a) env \<Rightarrow> bytes \<Rightarrow> ('s, 'p, 'a) system \<Rightarrow> ('s, 'p, 'a) system res" where
  "onAudioData E data sys =
     rbind (broadcast E (audio_packet data) data (connections sys)) (\<lambda>ms. Inr (sys\<lparr>connections := ms\<rparr>))"

subsection \<open>The threads together\<close>

inductive sys_step :: "('s, 'p, 'a) env \<Rightarrow> (int \<Rightarrow> u32) \<Rightarrow> ('s, 'p, 'a) system \<Rightarrow> ('s, 'p, 'a) system \<Rightarrow> bool"
  for E to_float where
  accept: "\<not> stop_holds_lock sys \<Longrightarrow> sys_step E to_float sys (onNewConnection sk sys)"
| begin_run: "connections sys = pre @ m # post \<Longrightarrow> m_phase m = Starting \<Longrightarrow>
    run_begin E (m_conn m, srv sys) = Inr (c, s) \<Longrightarrow>
    sys_step E to_float sys (sys\<lparr>connections := pre @ m\<lparr>m_phase := Looping, m_conn := c\<rparr> # post, srv := s\<rparr>)"
| round: "connections sys = pre @ m # post \<Longrightarrow> m_phase m = Looping \<Longrightarrow> connected (sock (m_conn m)) \<Longrightarrow>
    run_round E (m_data m, m_conn m, srv sys) = Inr (d, c, s) \<Longrightarrow>
    sys_step E to_float sys (sys\<lparr>connections := pre @ m\<lparr>m_data := d, m_conn := c\<rparr> # post, srv := s\<rparr>)"
| finish: "connections sys = pre @ m # post \<Longrightarrow> m_phase m = Looping \<Longrightarrow> \<not> connected (sock (m_conn m)) \<Longrightarrow>
    \<not> stop_holds_lock sys \<Longrightarrow>
    sys_step E to_float sys (onDisconnected (m_id m) (sys\<lparr>connections := pre @ m\<lparr>m_phase := Ended\<rparr> # post\<rparr>))"
| delete: "flagRunDeleter sys \<Longrightarrow> \<not> stop_holds_lock sys \<Longrightarrow> deleter_round (media_of E) sys = Inr sys' \<Longrightarrow>
    sys_step E to_float sys sys'"
| quit_deleter: "sys_step E to_float sys (deleter_quit sys)"
| frame_out: "processOutput E to_float cap sys = Inr sys' \<Longrightarrow> sys_step E to_float sys sys'"
| audio_out: "onAudioData E data sys = Inr sys' \<Longrightarrow> sys_step E to_float sys sys'"
| stop_locks: "\<not> stop_holds_lock sys \<Longrightarrow> sys_step E to_float sys (stop_begin sys)"
| stop_ends: "stop_holds_lock sys \<Longrightarrow> \<forall>m\<in>set (connections sys). m_phase m = Ended \<Longrightarrow>
    sys_step E to_float sys (stop_end sys)"

inductive reachable :: "('s, 'p, 'a) env \<Rightarrow> (int \<Rightarrow> u32) \<Rightarrow> ('p, 'a) server \<Rightarrow> ('s, 'p, 'a) system \<Rightarrow> bool"
  for E to_float s0 where
  start: "reachable E to_float s0 (system_init s0)"
| step: "reachable E to_float s0 sys \<Longrightarrow> sys_step E to_float sys sys' \<Longrightarrow> reachable E to_float s0 sys'"

inductive_cases sys_stepE: "sys_step E to_float sys sys'"

subsection \<open>A broadcast touches sockets only\<close>

definition same_member :: "'s member \<Rightarrow> 's member \<Rightarrow> bool" where
  "same_member m m' \<longleftrightarrow> m_id m' = m_id m \<and> m_phase m' = m_phase m \<and> rests (m_conn m) (m_conn m')"

lemma rests_refl [simp]: "rests c c"
proof -
  have "c = c\<lparr>sock := sock c\<rparr>" by simp
  then show ?thesis unfolding rests_def using same_peer_refl by blast
qed

lemma rests_trans: "rests a b \<Longrightarrow> rests b c \<Longrightarrow> rests a c"
proof -
  assume "rests a b" "rests b c"
  then obtain sk1 sk2 where "b = a\<lparr>sock := sk1\<rparr>" "same_peer sk1 (sock a)" "c = b\<lparr>sock := sk2\<rparr>" "same_peer sk2 (sock b)"
    by (auto simp: rests_def)
  then have "c = a\<lparr>sock := sk2\<rparr> \<and> same_peer sk2 (sock a)" by (auto intro: same_peer_trans)
  then show ?thesis unfolding rests_def by blast
qed

lemma broadcast_same: "broadcast E pkt extra ms = Inr ms' \<Longrightarrow> list_all2 same_member ms ms'"
proof (induction ms arbitrary: ms')
  case Nil
  then show ?case by simp
next
  case (Cons m ms)
  then obtain ok sk ms1 where s: "send (proto_of E) pkt (Some extra) (sock (m_conn m)) = Inr (ok, sk)"
    "broadcast E pkt extra ms = Inr ms1" "ms' = m\<lparr>m_conn := (m_conn m)\<lparr>sock := sk\<rparr>\<rparr> # ms1"
    by (auto simp: rbind_eq_Inr)
  from send_out [OF s(1)] have "rests (m_conn m) ((m_conn m)\<lparr>sock := sk\<rparr>)" by (auto simp: rests_def)
  with Cons.IH [OF s(2)] s(3) show ?case by (simp add: same_member_def)
qed

lemma same_member_trans: "list_all2 same_member a b \<Longrightarrow> list_all2 same_member b c \<Longrightarrow> list_all2 same_member a c"
  by (rule list_all2_trans [of same_member same_member]) (auto simp: same_member_def intro: rests_trans)

lemma same_member_refl: "list_all2 same_member ms ms"
  by (rule list_all2_refl) (simp add: same_member_def)

lemma broadcast_all_same: "broadcast_all E ps ms = Inr ms' \<Longrightarrow> list_all2 same_member ms ms'"
proof (induction ps arbitrary: ms)
  case Nil
  then show ?case by (simp add: same_member_refl)
next
  case (Cons p ps)
  then obtain ms1 where "broadcast E (fst p) (snd p) ms = Inr ms1" "broadcast_all E ps ms1 = Inr ms'"
    by (auto simp: rbind_eq_Inr)
  with Cons.IH broadcast_same same_member_trans show ?case by blast
qed

lemma processOutput_same:
  assumes "processOutput E to_float cap sys = Inr sys'"
  shows "list_all2 same_member (connections sys) (connections sys') \<and> deleteReq sys' = deleteReq sys \<and>
    stop_holds_lock sys' = stop_holds_lock sys \<and> next_id sys' = next_id sys \<and>
    srv sys' = (srv sys)\<lparr>srv_cursorPos := next_cursor (srv_cursorPos (srv sys)) cap\<rparr>"
proof -
  from assms obtain ps ms where b: "broadcast_all E ps (connections sys) = Inr ms"
    "sys' = sys\<lparr>connections := ms, srv := (srv sys)\<lparr>srv_cursorPos := next_cursor (srv_cursorPos (srv sys)) cap\<rparr>\<rparr>"
    by (auto simp: processOutput_def Let_def rbind_eq_Inr)
  with broadcast_all_same [OF b(1)] show ?thesis by simp
qed

lemma onAudioData_same:
  assumes "onAudioData E data sys = Inr sys'"
  shows "list_all2 same_member (connections sys) (connections sys') \<and> deleteReq sys' = deleteReq sys \<and>
    stop_holds_lock sys' = stop_holds_lock sys \<and> next_id sys' = next_id sys \<and> srv sys' = srv sys"
proof -
  from assms obtain ms where "broadcast E (audio_packet data) data (connections sys) = Inr ms" "sys' = sys\<lparr>connections := ms\<rparr>"
    by (auto simp: onAudioData_def rbind_eq_Inr)
  with broadcast_same [of E "audio_packet data" data "connections sys" ms] show ?thesis by simp
qed

subsection \<open>Stopping while a client is connected\<close>

text \<open>
  \<open>stop()\<close> joins every thread while it holds the lock that a thread needs for its last call: a member
  whose thread has not ended when the lock is taken never ends, and the lock is never released.
\<close>

definition stuck :: "('s, 'p, 'a) system \<Rightarrow> bool" where
  "stuck sys \<longleftrightarrow> stop_holds_lock sys \<and> (\<exists>m\<in>set (connections sys). m_phase m \<noteq> Ended)"

lemma list_all2_ex_phase:
  "list_all2 same_member ms ms' \<Longrightarrow> \<exists>m\<in>set ms. m_phase m \<noteq> Ended \<Longrightarrow> \<exists>m\<in>set ms'. m_phase m \<noteq> Ended"
  by (induction rule: list_all2_induct) (auto simp: same_member_def)

lemma stuck_step: "sys_step E to_float sys sys' \<Longrightarrow> stuck sys \<Longrightarrow> stuck sys'"
proof (induction rule: sys_step.induct)
  case (begin_run sys pre m post c s)
  then show ?case by (auto simp: stuck_def)
next
  case (round sys pre m post d c s)
  then show ?case by (auto simp: stuck_def)
next
  case (frame_out cap sys sys')
  with processOutput_same [OF frame_out(1)] list_all2_ex_phase show ?case by (auto simp: stuck_def)
next
  case (audio_out data sys sys')
  with onAudioData_same [OF audio_out(1)] list_all2_ex_phase show ?case by (auto simp: stuck_def)
qed (auto simp: stuck_def deleter_quit_def)

lemma stuck_forever: "(sys_step E to_float)\<^sup>*\<^sup>* sys sys' \<Longrightarrow> stuck sys \<Longrightarrow> stuck sys'"
  by (induction rule: rtranclp_induct) (auto intro: stuck_step)

subsection \<open>Who is authorized\<close>

definition recognised :: "('s, 'p, 'a) env \<Rightarrow> ('p, 'a) server \<Rightarrow> 's conn \<Rightarrow> bool" where
  "recognised E s c \<longleftrightarrow> (authorized c \<longrightarrow> verify_flags (sock c) = 0 \<or>
     (\<exists>h\<in>set (clients (knownClients s)). compare_cert (crypto_of E) h (getRemoteCert (sock c)) = Inr True))"

lemma recognised_more:
  "recognised E s c \<Longrightarrow> rests c c' \<Longrightarrow> set (clients (knownClients s)) \<subseteq> set (clients (knownClients s')) \<Longrightarrow>
     recognised E s' c'"
  using restsD(1) [of c c'] restsD(7) [of c c'] by (auto simp: recognised_def same_peer_def getRemoteCert_def)

lemma run_begin_recognised:
  assumes "run_begin E (c0, s0) = Inr (c, s)"
  shows "s = s0 \<and> recognised E s c"
proof -
  let ?sk = "setExpectedRemoteCert (listKnownClients s0) (sock c0)"
  from assms obtain ok where ok: "verifyCert (crypto_of E) (cert_not_trusted E) (cert_missing E) ?sk = Inr ok"
    "c = c0\<lparr>sock := ?sk, authorized := ok\<rparr>" "s = s0" by (auto simp: run_begin_def Let_def rbind_eq_Inr)
  show ?thesis
  proof (cases "ok \<and> verify_flags ?sk \<noteq> 0")
    case True
    with ok verifyCert_untrusted [of ?sk] show ?thesis
      by (auto simp: recognised_def setExpectedRemoteCert_def listKnownClients_def list_clients_def)
  next
    case False
    with ok show ?thesis by (auto simp: recognised_def)
  qed
qed

lemma dispatch_recognised:
  assumes d: "dispatch E pkt data cs = Inr cs'" and r: "recognised E (snd cs) (fst cs)"
  shows "recognised E (snd cs') (fst cs')"
proof -
  have peer: "same_peer (sock (fst cs')) (sock (fst cs))" by (rule dispatch_peer [OF d])
  obtain hs where hs: "clients (knownClients (snd cs')) = clients (knownClients (snd cs)) @ hs"
    using dispatch_known [OF d] by blast
  show ?thesis
  proof (cases "authorized (fst cs) \<or> \<not> authorized (fst cs')")
    case True
    with r peer hs show ?thesis by (auto simp: recognised_def same_peer_def getRemoteCert_def)
  next
    case False
    then have un: "\<not> authorized (fst cs)" and au: "authorized (fst cs')" by auto
    with other_authorized [OF d] have "body pkt = ClientNonceNotify" by auto
    with d have "msg_clientNonceNotify E data cs = Inr cs'" by (simp add: dispatch_def)
    from nonce_authorized [OF this un au] obtain h where
      h: "digest (crypto_of E) SHA256 (getRemoteCert (sock (fst cs))) = Inr h" "h \<in> set (clients (knownClients (snd cs')))"
      by auto
    have "\<exists>x. computeHash (crypto_of E) SHA256 (getRemoteCert (sock (fst cs))) = Inr x"
      using h(1) by (auto simp: digest_def rbind_eq_Inr)
    with compare_digest [OF h(1)] have "compare_cert (crypto_of E) h (getRemoteCert (sock (fst cs))) = Inr True" by simp
    moreover have "getRemoteCert (sock (fst cs')) = getRemoteCert (sock (fst cs))"
      using peer by (simp add: same_peer_def getRemoteCert_def)
    ultimately show ?thesis using h(2) by (auto simp: recognised_def)
  qed
qed

lemma run_round_recognised:
  assumes rr: "run_round E (data, c, s) = Inr (data', c', s')" and r: "recognised E s c"
  shows "recognised E s' c' \<and> set (clients (knownClients s)) \<subseteq> set (clients (knownClients s'))"
proof -
  from run_round_dispatch [OF rr] obtain sk where sk: "same_peer sk (sock c)" and
    or: "(c', s') = (c\<lparr>sock := sk\<rparr>, s) \<or> (\<exists>pkt. dispatch E pkt data' (c\<lparr>sock := sk\<rparr>, s) = Inr (c', s'))" by blast
  have "rests c (c\<lparr>sock := sk\<rparr>)" using sk by (auto simp: rests_def)
  with recognised_more [OF r] have r1: "recognised E s (c\<lparr>sock := sk\<rparr>)" by blast
  from or show ?thesis
  proof (elim disjE exE)
    assume "(c', s') = (c\<lparr>sock := sk\<rparr>, s)"
    with r1 show ?thesis by simp
  next
    fix pkt assume d: "dispatch E pkt data' (c\<lparr>sock := sk\<rparr>, s) = Inr (c', s')"
    from dispatch_recognised [OF d] r1 dispatch_known [OF d] show ?thesis by auto
  qed
qed

lemma list_all2_recognised:
  "list_all2 same_member ms ms' \<Longrightarrow> \<forall>m\<in>set ms. recognised E s (m_conn m) \<Longrightarrow>
     knownClients s' = knownClients s \<Longrightarrow> \<forall>m\<in>set ms'. recognised E s' (m_conn m)"
proof (induction rule: list_all2_induct)
  case (Cons m ms m' ms')
  have "recognised E s' (m_conn m')"
    by (rule recognised_more [of E s "m_conn m"]) (use Cons in \<open>auto simp: same_member_def\<close>)
  with Cons show ?case by simp
qed simp

lemma recognised_disconnect: "recognised E s (conn_disconnect c) = recognised E s c"
proof -
  have "same_peer (disconnect (sock c)) (sock c)" by simp
  then show ?thesis by (auto simp: recognised_def conn_disconnect_def same_peer_def getRemoteCert_def)
qed

lemma deleter_round_parts:
  assumes "deleter_round M sys = Inr sys'"
  shows "set (connections sys') \<subseteq> set (connections sys) \<and> knownClients (srv sys') = knownClients (srv sys)"
proof (cases "deleteReq sys")
  case Nil
  with assms show ?thesis by (simp add: deleter_round_def)
next
  case (Cons conn rest)
  with assms show ?thesis
    by (auto simp: deleter_round_def Let_def erase_loop_filter rbind_eq_Inr stop_media_def split: if_splits)
qed

definition all_recognised :: "('s, 'p, 'a) env \<Rightarrow> ('s, 'p, 'a) system \<Rightarrow> bool" where
  "all_recognised E sys \<longleftrightarrow> (\<forall>m\<in>set (connections sys). recognised E (srv sys) (m_conn m))"

lemma recognised_step: "sys_step E to_float sys sys' \<Longrightarrow> all_recognised E sys \<Longrightarrow> all_recognised E sys'"
proof (induction rule: sys_step.induct)
  case (accept sys sk)
  then show ?case by (auto simp: all_recognised_def onNewConnection_def recognised_def conn_new_def)
next
  case (begin_run sys pre m post c s)
  from run_begin_recognised [OF begin_run(3)] begin_run(1,4) show ?case by (auto simp: all_recognised_def)
next
  case (round sys pre m post d c s)
  then have "recognised E (srv sys) (m_conn m)" by (auto simp: all_recognised_def)
  from run_round_recognised [OF round(4) this] have r: "recognised E s c"
    and sub: "set (clients (knownClients (srv sys))) \<subseteq> set (clients (knownClients s))" by auto
  have "recognised E s (m_conn x)" if "x \<in> set pre \<union> set post" for x
    by (rule recognised_more [OF _ rests_refl sub]) (use that round in \<open>auto simp: all_recognised_def\<close>)
  with r show ?case by (auto simp: all_recognised_def)
next
  case (finish sys pre m post)
  then show ?case by (auto simp: all_recognised_def onDisconnected_def)
next
  case (delete sys sys')
  from deleter_round_parts [OF delete(3)] delete(4) show ?case
    by (auto simp: all_recognised_def recognised_def)
next
  case (frame_out cap sys sys')
  from processOutput_same [OF frame_out(1)] frame_out(2) list_all2_recognised
  show ?case unfolding all_recognised_def by (metis (no_types, lifting) server.select_convs(1) server.update_convs(11) server.surjective)
next
  case (audio_out data sys sys')
  from onAudioData_same [OF audio_out(1)] audio_out(2) list_all2_recognised
  show ?case unfolding all_recognised_def by metis
next
  case (stop_locks sys)
  then show ?case by (auto simp: all_recognised_def stop_begin_def recognised_disconnect)
qed (auto simp: all_recognised_def deleter_quit_def stop_end_def)

lemma reachable_recognised: "reachable E to_float s0 sys \<Longrightarrow> all_recognised E sys"
proof (induction rule: reachable.induct)
  case start
  then show ?case by (simp add: all_recognised_def system_init_def)
next
  case (step sys sys')
  then show ?case using recognised_step by blast
qed

subsection \<open>The stream flag\<close>

lemma run_begin_srv: "run_begin E (c0, s0) = Inr (c, s) \<Longrightarrow> s = s0"
  using run_begin_recognised by blast

context stream_media begin

lemma deleter_inv:
  assumes "deleter_round M sys = Inr sys'" and "stream_inv cap_running aud_running (srv sys)"
  shows "stream_inv cap_running aud_running (srv sys')"
proof (cases "deleteReq sys")
  case Nil
  with assms show ?thesis by (simp add: deleter_round_def)
next
  case (Cons conn rest)
  show ?thesis
  proof (cases "erase_loop conn (connections sys) = [] \<and> srv_streaming (srv sys)")
    case False
    with Cons assms show ?thesis by (auto simp: deleter_round_def Let_def)
  next
    case True
    with Cons assms(1) obtain s where "stop_media M (srv sys) = Inr s" "srv sys' = s"
      by (auto simp: deleter_round_def Let_def rbind_eq_Inr)
    with endStream_inv [OF assms(2), of s] True show ?thesis by (simp add: endStream_def)
  qed
qed

lemma step_inv:
  "sys_step E to_float sys sys' \<Longrightarrow> media_of E = M \<Longrightarrow> stream_inv cap_running aud_running (srv sys) \<Longrightarrow>
     stream_inv cap_running aud_running (srv sys')"
proof (induction rule: sys_step.induct)
  case (begin_run sys pre m post c s)
  with run_begin_srv [OF begin_run(3)] show ?case by simp
next
  case (round sys pre m post d c s)
  with run_round_inv [OF round(4) round(5) round(6)] show ?case by simp
next
  case (delete sys sys')
  with deleter_inv [of sys sys'] show ?case by simp
next
  case (frame_out cap sys sys')
  with processOutput_same [OF frame_out(1)] show ?case by simp
next
  case (audio_out data sys sys')
  with onAudioData_same [OF audio_out(1)] show ?case by simp
qed (auto simp: onNewConnection_def onDisconnected_def deleter_quit_def stop_begin_def stop_end_def)

lemma reachable_inv:
  "reachable E to_float s0 sys \<Longrightarrow> media_of E = M \<Longrightarrow> stream_inv cap_running aud_running s0 \<Longrightarrow>
     stream_inv cap_running aud_running (srv sys)"
proof (induction rule: reachable.induct)
  case start
  then show ?case by (simp add: system_init_def)
next
  case (step sys sys')
  then show ?case using step_inv by blast
qed

end

text \<open>When the deleter removes the last connection, the stream stops.\<close>

lemma deleter_last:
  assumes "deleter_round M sys = Inr sys'" and "deleteReq sys \<noteq> []" and "connections sys' = []"
  shows "\<not> srv_streaming (srv sys')"
  using assms by (auto simp: deleter_round_def Let_def rbind_eq_Inr stop_media_def split: list.splits if_splits)

subsection \<open>Properties\<close>

text \<open>C2: authorization in the whole server. In every state that any interleaving of new connections,
  connection threads, the deleter, broadcasts and \<open>stop()\<close> can reach, an authorized connection's peer
  certificate is either trusted by TLS itself or has a fingerprint among the known clients.\<close>

theorem authorized_recognised:
  assumes "reachable E to_float s0 sys" and "m \<in> set (connections sys)" and "authorized (m_conn m)"
  shows "verify_flags (sock (m_conn m)) = 0 \<or> (\<exists>h\<in>set (clients (knownClients (srv sys))).
    compare_cert (crypto_of E) h (getRemoteCert (sock (m_conn m))) = Inr True)"
  using reachable_recognised [OF assms(1)] assms(2,3) by (auto simp: all_recognised_def recognised_def)

definition known_server :: "(bool, bool) server" where
  "known_server = (sample_server False)\<lparr>knownClients := \<lparr>clients = [\<lparr>ch_type = SHA256, ch_hash = [7, 0, 0]\<rparr>]\<rparr>\<rparr>"

definition sample_member :: "phase \<Rightarrow> unit member" where
  "sample_member ph = \<lparr>m_id = 0, m_phase = ph, m_data = [], m_conn = conn_new (sample_socket [7])\<rparr>"

theorem authorized_recognised_witness:
  "\<exists>sys m. reachable (sample_env (reply StopStreamRequest) [] []) (\<lambda>_. 0) known_server sys \<and> m \<in> set (connections sys) \<and>
     authorized (m_conn m) \<and> (\<exists>h\<in>set (clients (knownClients (srv sys))). compare_cert sample_crypto h [7] = Inr True)"
proof -
  let ?E = "sample_env (reply StopStreamRequest) [] []"
  let ?s1 = "onNewConnection (sample_socket [7]) (system_init known_server)"
  let ?c = "(conn_new (sample_socket [7]))\<lparr>sock := setExpectedRemoteCert (listKnownClients known_server) (sample_socket [7]),
      authorized := True\<rparr>"
  have "run_begin ?E (conn_new (sample_socket [7]), known_server) = Inr (?c, known_server)"
    by (simp add: run_begin_def sample_env_def conn_new_def verifyCert_def setExpectedRemoteCert_def sample_socket_def
        known_server_def listKnownClients_def list_clients_def compare_cert_def sample_crypto_def getRemoteCert_def
        secureMemcmp_eq Let_def)
  moreover have "connections ?s1 = [] @ sample_member Starting # []" "srv ?s1 = known_server"
    by (simp_all add: onNewConnection_def system_init_def sample_member_def)
  moreover have "reachable ?E (\<lambda>_. 0) known_server ?s1"
    by (intro reachable.step [OF reachable.start] accept) (simp add: system_init_def)
  ultimately have r: "reachable ?E (\<lambda>_. 0) known_server
      (?s1\<lparr>connections := [] @ (sample_member Starting)\<lparr>m_phase := Looping, m_conn := ?c\<rparr> # [], srv := known_server\<rparr>)"
    by (intro reachable.step [OF _ begin_run]) (auto simp: sample_member_def)
  have flags: "verify_flags (sock ?c) = 8" "getRemoteCert (sock ?c) = [7]"
    by (simp_all add: setExpectedRemoteCert_def sample_socket_def getRemoteCert_def)
  let ?m = "(sample_member Starting)\<lparr>m_phase := Looping, m_conn := ?c\<rparr>"
  let ?sys = "?s1\<lparr>connections := [] @ ?m # [], srv := known_server\<rparr>"
  have mem: "?m \<in> set (connections ?sys)" and au: "authorized (m_conn ?m)" by simp_all
  from authorized_recognised [OF r mem au] flags
  have "\<exists>h\<in>set (clients (knownClients (srv ?sys))). compare_cert sample_crypto h [7] = Inr True"
    by (simp add: sample_env_def)
  with r mem au show ?thesis by blast
qed

text \<open>C37: \<open>stop()\<close> deadlocks. Called while some connection's thread has not finished, it takes
  \<open>connectionsLock\<close> and joins that thread, which needs the lock for \<open>onDisconnected\<close>: in every state reachable
  from there, by any steps of any threads, the lock is still held and a thread is still unfinished.\<close>

theorem stop_deadlocks:
  assumes "m \<in> set (connections sys)" and "m_phase m \<noteq> Ended"
    and "(sys_step E to_float)\<^sup>*\<^sup>* (stop_begin sys) sys'"
  shows "stop_holds_lock sys' \<and> (\<exists>m\<in>set (connections sys'). m_phase m \<noteq> Ended)"
proof -
  have "stuck (stop_begin sys)" using assms(1,2) by (auto simp: stuck_def stop_begin_def)
  from stuck_forever [OF assms(3) this] show ?thesis by (simp add: stuck_def)
qed

theorem stop_deadlocks_witness:
  "\<exists>sys'. sys_step (sample_env (reply StopStreamRequest) [] []) (\<lambda>_. 0)
      (stop_begin ((system_init (sample_server False))\<lparr>connections := [sample_member Looping]\<rparr>)) sys' \<and> stop_holds_lock sys'"
proof -
  let ?E = "sample_env (reply StopStreamRequest) [] []"
  let ?sys = "(system_init (sample_server False))\<lparr>connections := [sample_member Looping]\<rparr>"
  have s: "sys_step ?E (\<lambda>_. 0) (stop_begin ?sys) (deleter_quit (stop_begin ?sys))" by (rule quit_deleter)
  have "sample_member Looping \<in> set (connections ?sys)" "m_phase (sample_member Looping) \<noteq> Ended"
    by (simp_all add: sample_member_def)
  from stop_deadlocks [OF this r_into_rtranclp [of "sys_step ?E (\<lambda>_. 0)", OF s]] s show ?thesis by blast
qed

text \<open>The stream ends with its last client. When a round of the deleter thread removes the last
  connection, the server is not streaming afterwards; and every round removes exactly the connections with
  the requested identity.\<close>

lemma last_client_stops:
  assumes "deleter_round M sys = Inr sys'" and "deleteReq sys = conn # rest"
  shows "connections sys' = filter (\<lambda>m. m_id m \<noteq> conn) (connections sys) \<and>
    (connections sys' = [] \<longrightarrow> \<not> srv_streaming (srv sys'))"
  using assms by (auto simp: deleter_round_def Let_def rbind_eq_Inr stop_media_def erase_loop_filter split: if_splits)

theorem last_client_stops_witness:
  "\<exists>sys'. deleter_round onoff_media ((system_init (sample_server True))\<lparr>connections := [sample_member Ended], deleteReq := [0]\<rparr>)
      = Inr sys' \<and> connections sys' = [] \<and> \<not> srv_streaming (srv sys')"
proof -
  let ?sys = "(system_init (sample_server True))\<lparr>connections := [sample_member Ended], deleteReq := [0]\<rparr>"
  have "\<exists>sys'. deleter_round onoff_media ?sys = Inr sys'"
    by (simp add: deleter_round_def erase_loop_filter sample_member_def stop_media_def onoff_media_def sample_server_def system_init_def)
  then obtain sys' where r: "deleter_round onoff_media ?sys = Inr sys'" by blast
  have d: "deleteReq ?sys = 0 # []" by simp
  from last_client_stops [OF r d] r show ?thesis by (auto simp: sample_member_def)
qed

end
