(* ===== verification/TextureArena.thy ===== *)
theory TextureArena
  imports Prelude
begin

text \<open>
  \<open>TextureAllocArena\<close> and \<open>TextureSoftware\<close> of \<open>src/src/common/platform/software/\<close>: textures are slots of
  blocks of eight, blocks belong to an arena, and a texture gives its slot back when it is destroyed.

  The arenas that \<open>shared_ptr\<close>s point to are a list, an arena's position its identity; an arena stays as
  long as a texture refers to it, so none is ever removed here. What a texture shows is the field
  \<open>pixels\<close> of a type parameter; where it shows it is the list \<open>tex_data\<close> of addresses. FFmpeg's image
  geometry and \<open>av_malloc\<close> are parameters: the allocator gets the areas in use and the wanted size.
\<close>

subsection \<open>FFmpeg's part\<close>

datatype pix_fmt = AV_NONE | AV_BGRA | AV_RGBA | AV_YUV420P | AV_YUV444P | AV_NV12 | AV_OTHER nat

record av_image =
  fill_linesizes :: "pix_fmt \<Rightarrow> int \<Rightarrow> int \<times> int list"
  fill_plane_sizes :: "pix_fmt \<Rightarrow> int \<Rightarrow> int list \<Rightarrow> int \<times> nat list"
  count_planes :: "pix_fmt \<Rightarrow> int"
  av_malloc :: "(nat \<times> nat) list \<Rightarrow> nat \<Rightarrow> nat"

subsection \<open>Blocks\<close>

record arena_block =
  blk_data :: nat
  blk_size :: nat
  blk_id :: nat
  blk_available :: "bool list"

definition BLOCK_SIZE :: nat where
  "BLOCK_SIZE = 8"

definition block_new :: "nat \<Rightarrow> nat \<Rightarrow> nat \<Rightarrow> arena_block" where
  "block_new address sz blockId =
     \<lparr>blk_data = address, blk_size = sz, blk_id = blockId, blk_available = replicate BLOCK_SIZE True\<rparr>"

text \<open>The first slot that is available, taken. The code returns -1 where this is None.\<close>

fun alloc_from :: "nat \<Rightarrow> bool list \<Rightarrow> nat option" where
  "alloc_from i [] = None"
| "alloc_from i (a # as) = (if a then Some i else alloc_from (Suc i) as)"

definition allocSlot :: "arena_block \<Rightarrow> (nat \<times> arena_block) option" where
  "allocSlot b =
     (case alloc_from 0 (blk_available b) of
        None \<Rightarrow> None
      | Some i \<Rightarrow> Some (i, b\<lparr>blk_available := (blk_available b)[i := False]\<rparr>))"

definition freeSlot :: "int \<Rightarrow> arena_block \<Rightarrow> arena_block res" where
  "freeSlot slot b =
     (if slot < 0 \<or> int BLOCK_SIZE \<le> slot then Inl Aborted
      else if blk_available b ! nat slot then Inl Aborted
      else Inr (b\<lparr>blk_available := (blk_available b)[nat slot := True]\<rparr>))"

definition checkAllEmpty :: "arena_block \<Rightarrow> bool" where
  "checkAllEmpty b = list_all (\<lambda>a. a) (blk_available b)"

definition block_at :: "arena_block \<Rightarrow> nat \<Rightarrow> nat" where
  "block_at b idx = blk_data b + blk_size b * idx"

text \<open>\<open>~Block\<close>: destroying a block with a slot in use aborts; a moved-from block has no data (the address 0).\<close>

definition block_destroy :: "arena_block \<Rightarrow> unit res" where
  "block_destroy b = (if blk_data b = 0 then Inr () else if checkAllEmpty b then Inr () else Inl Aborted)"

subsection \<open>Arenas and textures\<close>

record arena =
  ar_width :: int
  ar_height :: int
  ar_format :: pix_fmt
  textureSize :: nat
  lastBlockId :: nat
  blocks :: "arena_block list"

record 'px texture =
  tex_width :: int
  tex_height :: int
  tex_format :: pix_fmt
  tex_linesize :: "int list"
  tex_data :: "nat option list"
  tex_arena :: "nat option"
  tex_blockId :: nat
  tex_blockSlot :: int
  pixels :: 'px

type_synonym arenas = "arena list"

definition texture_new :: "'px \<Rightarrow> 'px texture" where
  "texture_new none =
     \<lparr>tex_width = -1, tex_height = -1, tex_format = AV_NONE, tex_linesize = [0, 0, 0, 0],
      tex_data = [None, None, None, None], tex_arena = None, tex_blockId = 0, tex_blockSlot = -1, pixels = none\<rparr>"

definition tex_isEmpty :: "'px texture \<Rightarrow> bool" where
  "tex_isEmpty t \<longleftrightarrow> tex_width t < 0 \<or> tex_height t < 0"

text \<open>Both moves swap, so the moved-from texture holds what the target had.\<close>

definition texture_swap :: "'px texture \<times> 'px texture \<Rightarrow> 'px texture \<times> 'px texture" where
  "texture_swap p = (snd p, fst p)"

definition plane_total :: "nat list \<Rightarrow> nat" where
  "plane_total planes = foldl sz_add 0 planes"

definition image_planes :: "av_image \<Rightarrow> int \<Rightarrow> int \<Rightarrow> pix_fmt \<Rightarrow> (int list \<times> nat list) res" where
  "image_planes av w h fmt =
     (let (err, linesize) = fill_linesizes av fmt w in
      rbind (assert_quit (0 \<le> err) ''Failed to fill linesize'') (\<lambda>_.
      let (err', planes) = fill_plane_sizes av fmt h linesize in
      rbind (assert_quit (0 \<le> err') ''Failed to get plane sizes'') (\<lambda>_. Inr (take 4 linesize, take 4 planes))))"

definition getArena :: "av_image \<Rightarrow> int \<Rightarrow> int \<Rightarrow> pix_fmt \<Rightarrow> arenas \<Rightarrow> (nat \<times> arenas) res" where
  "getArena av w h fmt st =
     rbind (image_planes av w h fmt) (\<lambda>(linesize, planes).
       Inr (length st, st @ [\<lparr>ar_width = w, ar_height = h, ar_format = fmt, textureSize = plane_total planes,
                             lastBlockId = 0, blocks = []\<rparr>]))"

definition checkConfig :: "int \<Rightarrow> int \<Rightarrow> pix_fmt \<Rightarrow> arena \<Rightarrow> bool" where
  "checkConfig w h fmt a \<longleftrightarrow> w = ar_width a \<and> h = ar_height a \<and> ar_format a = fmt"

text \<open>\<open>ensureFormat\<close> keeps the arena of a matching format and makes a new one otherwise.\<close>

definition ensureFormat :: "av_image \<Rightarrow> nat option \<Rightarrow> int \<Rightarrow> int \<Rightarrow> pix_fmt \<Rightarrow> arenas \<Rightarrow> (nat \<times> arenas) res" where
  "ensureFormat av arena w h fmt st =
     (case arena of
        Some i \<Rightarrow> (if checkConfig w h fmt (st ! i) then Inr (i, st) else getArena av w h fmt st)
      | None \<Rightarrow> getArena av w h fmt st)"

fun alloc_in :: "arena_block list \<Rightarrow> (nat \<times> nat \<times> arena_block list) option" where
  "alloc_in [] = None"
| "alloc_in (b # bs) =
     (case allocSlot b of
        Some (slot, b') \<Rightarrow> Some (blk_id b, slot, b' # bs)
      | None \<Rightarrow> (case alloc_in bs of None \<Rightarrow> None | Some (i, slot, bs') \<Rightarrow> Some (i, slot, b # bs')))"

definition areas :: "arenas \<Rightarrow> (nat \<times> nat) list" where
  "areas st = concat (map (\<lambda>a. map (\<lambda>b. (blk_data b, sz_mul (blk_size b) BLOCK_SIZE)) (blocks a)) st)"

text \<open>All blocks full: another one is pushed, and its first slot taken.\<close>

definition alloc_slot :: "av_image \<Rightarrow> arenas \<Rightarrow> arena \<Rightarrow> nat \<times> nat \<times> arena" where
  "alloc_slot av st a =
     (case alloc_in (blocks a) of
        Some (i, slot, bs) \<Rightarrow> (i, slot, a\<lparr>blocks := bs\<rparr>)
      | None \<Rightarrow>
          (let i = lastBlockId a + 1;
               b = block_new (av_malloc av (areas st) (sz_mul (textureSize a) BLOCK_SIZE)) (textureSize a) i
           in (case allocSlot b of
                 Some (slot, b') \<Rightarrow> (i, slot, a\<lparr>lastBlockId := i, blocks := blocks a @ [b']\<rparr>)
               | None \<Rightarrow> (i, 0, a\<lparr>lastBlockId := i, blocks := blocks a @ [b]\<rparr>))))"

fun findBlock :: "nat \<Rightarrow> arena_block list \<Rightarrow> arena_block option" where
  "findBlock i [] = None"
| "findBlock i (b # bs) = (if blk_id b = i then Some b else findBlock i bs)"

text \<open>Plane pointers: the planes follow each other; a line size of 0 ends the list.\<close>

fun plane_pointers :: "nat \<Rightarrow> int list \<Rightarrow> nat list \<Rightarrow> nat option list" where
  "plane_pointers p (l # ls) (s # ss) =
     (if l = 0 then replicate (Suc (length ls)) None else Some p # plane_pointers (p + s) ls ss)"
| "plane_pointers p ls ss = map (\<lambda>_. None) ls"

definition tex_alloc :: "av_image \<Rightarrow> 'px \<Rightarrow> nat \<Rightarrow> arenas \<Rightarrow> ('px texture \<times> arenas) res" where
  "tex_alloc av raw aid st =
     rbind (assert_quit (aid < length st) ''self pointer destructed!'') (\<lambda>_.
     let a = st ! aid; (i, slot, a') = alloc_slot av st a in
     rbind (image_planes av (ar_width a) (ar_height a) (ar_format a)) (\<lambda>(linesize, planes).
     rbind (assert_quit (textureSize a = plane_total planes) ''Wrong textureSize!'') (\<lambda>_.
     case findBlock i (blocks a') of
       None \<Rightarrow> Inl Aborted
     | Some b \<Rightarrow>
         Inr (\<lparr>tex_width = ar_width a, tex_height = ar_height a, tex_format = ar_format a, tex_linesize = linesize,
               tex_data = plane_pointers (block_at b slot) linesize planes,
               tex_arena = Some aid, tex_blockId = i, tex_blockSlot = int slot, pixels = raw\<rparr>,
              st[aid := a']))))"

fun update_block :: "nat \<Rightarrow> (arena_block \<Rightarrow> arena_block res) \<Rightarrow> arena_block list \<Rightarrow> arena_block list res" where
  "update_block i f [] = Inl Undef"
| "update_block i f (b # bs) =
     (if blk_id b = i then rbind (f b) (\<lambda>b'. Inr (b' # bs))
      else rbind (update_block i f bs) (\<lambda>bs'. Inr (b # bs')))"

text \<open>\<open>~TextureSoftware\<close>: a null block would be dereferenced, hence \<open>Undef\<close> in \<open>update_block\<close>.\<close>

definition tex_destroy :: "'px texture \<Rightarrow> arenas \<Rightarrow> arenas res" where
  "tex_destroy t st =
     (case tex_arena t of
        None \<Rightarrow> Inr st
      | Some aid \<Rightarrow>
          rbind (update_block (tex_blockId t) (freeSlot (tex_blockSlot t)) (blocks (st ! aid))) (\<lambda>bs.
            Inr (st[aid := (st ! aid)\<lparr>blocks := bs\<rparr>])))"

definition tex_reference :: "av_image \<Rightarrow> 'px \<Rightarrow> nat list \<Rightarrow> int list \<Rightarrow> int \<Rightarrow> int \<Rightarrow> pix_fmt \<Rightarrow> 'px texture res" where
  "tex_reference av px data linesize w h fmt =
     (let n = nat (count_planes av fmt) in
      if 4 < count_planes av fmt then Inl Aborted
      else if length data < n \<or> length linesize < n then Inl Undef
      else Inr ((texture_new px)\<lparr>tex_width := w, tex_height := h, tex_format := fmt,
             tex_data := overwrite [None, None, None, None] 0 (map Some (take n data)),
             tex_linesize := overwrite [0, 0, 0, 0] 0 (take n linesize)\<rparr>))"

definition tex_clone :: "av_image \<Rightarrow> nat option \<Rightarrow> 'px texture \<Rightarrow> arenas \<Rightarrow> ('px texture \<times> arenas) res" where
  "tex_clone av target t st =
     (case target of
        None \<Rightarrow> error_quit ''Anonymous arena not supported at this moment''
      | Some aid \<Rightarrow>
          (if tex_arena t \<noteq> Some aid
              \<and> (ar_width (st ! aid) \<noteq> tex_width t \<or> ar_height (st ! aid) \<noteq> tex_height t \<or> ar_format (st ! aid) \<noteq> tex_format t)
           then error_quit ''Format mismatch while cloning!''
           else tex_alloc av (pixels t) aid st))"

text \<open>
  \<open>gc\<close> erases an empty block and then still executes the loop's \<open>++itr\<close> on the iterator that
  \<open>erase\<close> invalidated, which is undefined; without an empty block it changes nothing. The program
  never calls it.
\<close>

fun gc_scan :: "arena_block list \<Rightarrow> unit res" where
  "gc_scan [] = Inr ()"
| "gc_scan (b # bs) = (if checkAllEmpty b then Inl Undef else gc_scan bs)"

definition gc :: "nat \<Rightarrow> arenas \<Rightarrow> arenas res" where
  "gc aid st = rbind (gc_scan (blocks (st ! aid))) (\<lambda>_. Inr st)"

subsection \<open>Blocks by arena and number\<close>

definition blk :: "arenas \<Rightarrow> nat \<Rightarrow> nat \<Rightarrow> arena_block option" where
  "blk st aid i = (if aid < length st then findBlock i (blocks (st ! aid)) else None)"

lemma findBlock_None_iff: "findBlock i bs = None \<longleftrightarrow> i \<notin> blk_id ` set bs"
  by (induction bs) auto

lemma findBlock_SomeD: "findBlock i bs = Some b \<Longrightarrow> b \<in> set bs \<and> blk_id b = i"
  by (induction bs) (auto split: if_splits)

lemma findBlock_append: "findBlock i (bs @ cs) = (case findBlock i bs of None \<Rightarrow> findBlock i cs | Some b \<Rightarrow> Some b)"
  by (induction bs) auto

lemma alloc_from_SomeD: "alloc_from k as = Some i \<Longrightarrow> k \<le> i \<and> i < k + length as \<and> as ! (i - k)"
proof (induction as arbitrary: k)
  case Nil
  then show ?case by simp
next
  case (Cons a as)
  then show ?case
    by (cases a) (auto simp: nth_Cons split: nat.splits dest!: Cons.IH, metis Suc_diff_Suc Suc_le_lessD diff_Suc_Suc nat.inject)
qed

lemma allocSlot_SomeD:
  "allocSlot b = Some (slot, b') \<Longrightarrow>
     slot < length (blk_available b) \<and> blk_available b ! slot \<and> b' = b\<lparr>blk_available := (blk_available b)[slot := False]\<rparr>"
  by (auto simp: allocSlot_def split: option.splits dest!: alloc_from_SomeD)

lemma alloc_in_SomeD:
  assumes "alloc_in bs = Some (i, slot, bs')" and "distinct (map blk_id bs)"
  shows "\<exists>b. findBlock i bs = Some b \<and> slot < length (blk_available b) \<and> blk_available b ! slot \<and>
     map blk_id bs' = map blk_id bs \<and>
     (\<forall>j. findBlock j bs' = (if j = i then Some (b\<lparr>blk_available := (blk_available b)[slot := False]\<rparr>) else findBlock j bs))"
  using assms
proof (induction bs arbitrary: bs')
  case Nil
  then show ?case by simp
next
  case (Cons c bs)
  show ?case
  proof (cases "allocSlot c")
    case (Some p)
    then show ?thesis using Cons.prems
      by (cases p) (auto dest!: allocSlot_SomeD)
  next
    case None
    with Cons.prems obtain bs2 where r: "alloc_in bs = Some (i, slot, bs2)" and bs': "bs' = c # bs2"
      by (auto split: option.splits)
    from Cons.IH [OF r] Cons.prems(2) obtain b where
      b: "findBlock i bs = Some b" "slot < length (blk_available b)" "blk_available b ! slot" "map blk_id bs2 = map blk_id bs"
        "\<forall>j. findBlock j bs2 = (if j = i then Some (b\<lparr>blk_available := (blk_available b)[slot := False]\<rparr>) else findBlock j bs)"
      by auto
    have "blk_id c \<noteq> i"
      using findBlock_SomeD [OF b(1)] Cons.prems(2) by auto
    with b bs' show ?thesis by auto
  qed
qed

lemma update_block_InrD:
  assumes "update_block i f bs = Inr bs'" and "\<And>b b'. f b = Inr b' \<Longrightarrow> blk_id b' = blk_id b"
  shows "\<exists>b b'. findBlock i bs = Some b \<and> f b = Inr b' \<and> map blk_id bs' = map blk_id bs \<and>
    (\<forall>j. findBlock j bs' = (if j = i then Some b' else findBlock j bs))"
  using assms
proof (induction bs arbitrary: bs')
  case Nil
  then show ?case by simp
next
  case (Cons c bs)
  show ?case
  proof (cases "blk_id c = i")
    case True
    with Cons.prems show ?thesis by (auto simp: rbind_eq_Inr)
  next
    case False
    with Cons.prems obtain bs2 where r: "update_block i f bs = Inr bs2" and bs': "bs' = c # bs2"
      by (auto simp: rbind_eq_Inr)
    from Cons.IH [OF r] Cons.prems(2) obtain b b' where
      "findBlock i bs = Some b" "f b = Inr b'" "map blk_id bs2 = map blk_id bs"
      "\<forall>j. findBlock j bs2 = (if j = i then Some b' else findBlock j bs)" by blast
    with bs' False show ?thesis by auto
  qed
qed

lemma update_block_ok: "findBlock i bs = Some b \<Longrightarrow> f b = Inr b' \<Longrightarrow> \<exists>bs'. update_block i f bs = Inr bs'"
  by (induction bs) (auto split: if_splits)


subsection \<open>Reachable stores\<close>

text \<open>A store is the arenas and the textures alive; textures that only refer to foreign memory are left out.\<close>

inductive tex_step :: "av_image \<Rightarrow> arenas \<times> 'px texture list \<Rightarrow> arenas \<times> 'px texture list \<Rightarrow> bool" for av where
  step_getArena: "getArena av w h fmt st = Inr (aid, st') \<Longrightarrow> tex_step av (st, ts) (st', ts)"
| step_ensureFormat: "ensureFormat av a w h fmt st = Inr (aid, st') \<Longrightarrow> tex_step av (st, ts) (st', ts)"
| step_alloc: "tex_alloc av px aid st = Inr (t, st') \<Longrightarrow> tex_step av (st, ts) (st', t # ts)"
| step_clone: "tex_clone av target t0 st = Inr (t, st') \<Longrightarrow> tex_step av (st, ts) (st', t # ts)"
| step_destroy: "tex_destroy t st = Inr st' \<Longrightarrow> tex_step av (st, us @ t # vs) (st', us @ vs)"
| step_gc: "gc aid st = Inr st' \<Longrightarrow> tex_step av (st, ts) (st', ts)"

inductive tex_reachable :: "av_image \<Rightarrow> arenas \<times> 'px texture list \<Rightarrow> bool" for av where
  tex_init: "tex_reachable av ([], [])"
| tex_next: "tex_reachable av s \<Longrightarrow> tex_step av s s' \<Longrightarrow> tex_reachable av s'"

definition apart :: "nat \<times> nat \<Rightarrow> nat \<times> nat \<Rightarrow> bool" where
  "apart x y \<longleftrightarrow> fst x + snd x \<le> fst y \<or> fst y + snd y \<le> fst x"

text \<open>What the code relies on: fresh memory from \<open>av_malloc\<close>, and planes that eight times fit the address space.\<close>

definition fresh_malloc :: "av_image \<Rightarrow> bool" where
  "fresh_malloc av \<longleftrightarrow> (\<forall>live n. \<forall>x\<in>set live. apart (av_malloc av live n, n) x)"

definition image_ok :: "av_image \<Rightarrow> bool" where
  "image_ok av \<longleftrightarrow> (\<forall>w h fmt ls planes. image_planes av w h fmt = Inr (ls, planes) \<longrightarrow> 8 * sum_list planes < SIZE_T_MOD)"

definition plane_areas :: "av_image \<Rightarrow> 'px texture \<Rightarrow> (nat \<times> nat) list" where
  "plane_areas av t =
     (case image_planes av (tex_width t) (tex_height t) (tex_format t) of
        Inl _ \<Rightarrow> []
      | Inr (ls, planes) \<Rightarrow> concat (map (\<lambda>(p, n). case p of None \<Rightarrow> [] | Some q \<Rightarrow> [(q, n)]) (zip (tex_data t) planes)))"

definition tex_key :: "'px texture \<Rightarrow> nat option \<times> nat \<times> int" where
  "tex_key t = (tex_arena t, tex_blockId t, tex_blockSlot t)"

definition arena_ok :: "arena \<Rightarrow> bool" where
  "arena_ok a \<longleftrightarrow> distinct (map blk_id (blocks a)) \<and> 8 * textureSize a < SIZE_T_MOD \<and>
     (\<forall>i b. findBlock i (blocks a) = Some b \<longrightarrow>
        i \<le> lastBlockId a \<and> length (blk_available b) = BLOCK_SIZE \<and> blk_size b = textureSize a)"

definition blocks_apart :: "arenas \<Rightarrow> bool" where
  "blocks_apart st \<longleftrightarrow> (\<forall>aid i b aid' i' b'. blk st aid i = Some b \<longrightarrow> blk st aid' i' = Some b' \<longrightarrow> (aid, i) \<noteq> (aid', i') \<longrightarrow>
     apart (blk_data b, 8 * blk_size b) (blk_data b', 8 * blk_size b'))"

definition placed :: "av_image \<Rightarrow> arenas \<Rightarrow> 'px texture \<Rightarrow> bool" where
  "placed av st t \<longleftrightarrow> (\<exists>aid b linesize planes. tex_arena t = Some aid \<and> blk st aid (tex_blockId t) = Some b \<and>
     0 \<le> tex_blockSlot t \<and> tex_blockSlot t < int BLOCK_SIZE \<and> \<not> blk_available b ! nat (tex_blockSlot t) \<and>
     image_planes av (tex_width t) (tex_height t) (tex_format t) = Inr (linesize, planes) \<and> plane_total planes = blk_size b \<and>
     tex_data t = plane_pointers (block_at b (nat (tex_blockSlot t))) linesize planes)"

definition store_inv :: "av_image \<Rightarrow> arenas \<times> 'px texture list \<Rightarrow> bool" where
  "store_inv av s \<longleftrightarrow> (\<forall>a\<in>set (fst s). arena_ok a) \<and> blocks_apart (fst s) \<and>
     (\<forall>t\<in>set (snd s). placed av (fst s) t) \<and> distinct (map tex_key (snd s))"

lemma apart_sym: "apart x y = apart y x"
  by (auto simp: apart_def)

lemma plane_pointers_within:
  "(Some p, n) \<in> set (zip (plane_pointers base ls ss) ss) \<Longrightarrow> base \<le> p \<and> p + n \<le> base + sum_list ss"
proof (induction base ls ss rule: plane_pointers.induct)
  case (1 base l ls s ss)
  show ?case
  proof (cases "l = 0")
    case True
    with 1(2) show ?thesis by (auto dest: set_zip_leftD split: if_splits)
  next
    case False
    with 1 show ?thesis by fastforce
  qed
qed (auto dest: set_zip_leftD)

lemma plane_total_eq: "sum_list planes < SIZE_T_MOD \<Longrightarrow> plane_total planes = sum_list planes"
proof -
  have "acc + sum_list planes < SIZE_T_MOD \<Longrightarrow> foldl sz_add acc planes = acc + sum_list planes" for acc
    by (induction planes arbitrary: acc) auto
  from this [of 0] show "sum_list planes < SIZE_T_MOD \<Longrightarrow> plane_total planes = sum_list planes"
    by (simp add: plane_total_def)
qed

lemma image_okD: "image_ok av \<Longrightarrow> image_planes av w h fmt = Inr (ls, planes) \<Longrightarrow> plane_total planes = sum_list planes \<and> 8 * sum_list planes < SIZE_T_MOD"
  unfolding image_ok_def by (metis add_leE le_less_trans mult_2 mult_le_mono1 nat_mult_1 numeral_le_iff one_le_numeral plane_total_eq)

lemma blk_areas: "blk st aid i = Some b \<Longrightarrow> (blk_data b, sz_mul (blk_size b) BLOCK_SIZE) \<in> set (areas st)"
  by (auto simp: blk_def areas_def split: if_splits dest!: findBlock_SomeD intro!: bexI [of _ "st ! aid"])


subsection \<open>Every step keeps the invariant\<close>

lemma blocks_apartD:
  "blocks_apart st \<Longrightarrow> blk st x j = Some c \<Longrightarrow> blk st x' j' = Some c' \<Longrightarrow> (x, j) \<noteq> (x', j') \<Longrightarrow>
     apart (blk_data c, 8 * blk_size c) (blk_data c', 8 * blk_size c')"
  unfolding blocks_apart_def by blast

lemma blk_update: "aid < length st \<Longrightarrow> blk (st[aid := a']) x j = (if x = aid then findBlock j (blocks a') else blk st x j)"
  by (auto simp: blk_def)

lemma blk_change:
  assumes "aid < length st" and "findBlock i (blocks (st ! aid)) = Some b"
    and "\<forall>j. findBlock j bs = (if j = i then Some c else findBlock j (blocks (st ! aid)))"
  shows "blk (st[aid := (st ! aid)\<lparr>blocks := bs\<rparr>]) x j = (if x = aid \<and> j = i then Some c else blk st x j)"
  using assms by (cases "x = aid") (auto simp: blk_def)

lemma slots_change:
  assumes "\<forall>a\<in>set st. arena_ok a" and "blocks_apart st" and aid: "aid < length st"
    and b: "findBlock i (blocks (st ! aid)) = Some b" and ids: "map blk_id bs = map blk_id (blocks (st ! aid))"
    and A: "length A = BLOCK_SIZE"
    and bs: "\<forall>j. findBlock j bs = (if j = i then Some (b\<lparr>blk_available := A\<rparr>) else findBlock j (blocks (st ! aid)))"
  shows "(\<forall>a\<in>set (st[aid := (st ! aid)\<lparr>blocks := bs\<rparr>]). arena_ok a) \<and> blocks_apart (st[aid := (st ! aid)\<lparr>blocks := bs\<rparr>])"
proof
  have ok: "arena_ok (st ! aid)" using assms(1) aid by simp
  then have "arena_ok ((st ! aid)\<lparr>blocks := bs\<rparr>)"
    using b ids A bs by (auto simp: arena_ok_def split: if_splits)
  then show "\<forall>a\<in>set (st[aid := (st ! aid)\<lparr>blocks := bs\<rparr>]). arena_ok a"
    using assms(1) set_update_subset_insert by fastforce
  have at_aid: "blk st aid i = Some b" using aid b by (simp add: blk_def)
  have same: "\<exists>c0. blk st x j = Some c0 \<and> blk_data c0 = blk_data c \<and> blk_size c0 = blk_size c"
    if "blk (st[aid := (st ! aid)\<lparr>blocks := bs\<rparr>]) x j = Some c" for x j c
    using that at_aid by (cases "x = aid \<and> j = i") (auto simp: blk_change [OF aid b bs])
  show "blocks_apart (st[aid := (st ! aid)\<lparr>blocks := bs\<rparr>])"
    unfolding blocks_apart_def
  proof (intro allI impI)
    fix x j c x' j' c'
    assume h: "blk (st[aid := (st ! aid)\<lparr>blocks := bs\<rparr>]) x j = Some c"
      "blk (st[aid := (st ! aid)\<lparr>blocks := bs\<rparr>]) x' j' = Some c'" "(x, j) \<noteq> (x', j')"
    from same [OF h(1)] obtain d where d: "blk st x j = Some d" "blk_data d = blk_data c" "blk_size d = blk_size c" by blast
    from same [OF h(2)] obtain e where e: "blk st x' j' = Some e" "blk_data e = blk_data c'" "blk_size e = blk_size c'" by blast
    from blocks_apartD [OF \<open>blocks_apart st\<close> d(1) e(1) h(3)]
    show "apart (blk_data c, 8 * blk_size c) (blk_data c', 8 * blk_size c')" by (simp add: d e)
  qed
qed

lemma placed_change:
  assumes "placed av st t" and aid: "aid < length st"
    and b: "findBlock i (blocks (st ! aid)) = Some b"
    and bs: "\<forall>j. findBlock j bs = (if j = i then Some (b\<lparr>blk_available := A\<rparr>) else findBlock j (blocks (st ! aid)))"
    and A: "tex_arena t = Some aid \<Longrightarrow> tex_blockId t = i \<Longrightarrow> A ! nat (tex_blockSlot t) = blk_available b ! nat (tex_blockSlot t)"
  shows "placed av (st[aid := (st ! aid)\<lparr>blocks := bs\<rparr>]) t"
proof -
  from assms(1) obtain x c ls planes where
    t: "tex_arena t = Some x" "blk st x (tex_blockId t) = Some c" "0 \<le> tex_blockSlot t" "tex_blockSlot t < int BLOCK_SIZE"
      "\<not> blk_available c ! nat (tex_blockSlot t)" "image_planes av (tex_width t) (tex_height t) (tex_format t) = Inr (ls, planes)"
      "plane_total planes = blk_size c" "tex_data t = plane_pointers (block_at c (nat (tex_blockSlot t))) ls planes"
    unfolding placed_def by blast
  have at_aid: "blk st aid i = Some b" using aid b by (simp add: blk_def)
  have "\<exists>c'. blk (st[aid := (st ! aid)\<lparr>blocks := bs\<rparr>]) x (tex_blockId t) = Some c' \<and> blk_data c' = blk_data c \<and>
      blk_size c' = blk_size c \<and> \<not> blk_available c' ! nat (tex_blockSlot t)"
    using t A at_aid by (cases "x = aid \<and> tex_blockId t = i") (auto simp: blk_change [OF aid b bs])
  then obtain c' where "blk (st[aid := (st ! aid)\<lparr>blocks := bs\<rparr>]) x (tex_blockId t) = Some c'" "blk_data c' = blk_data c"
      "blk_size c' = blk_size c" "\<not> blk_available c' ! nat (tex_blockSlot t)" by blast
  with t show ?thesis unfolding placed_def block_at_def by auto
qed

lemma placed_slot_taken:
  "placed av st t \<Longrightarrow> tex_arena t = Some aid \<Longrightarrow> findBlock (tex_blockId t) (blocks (st ! aid)) = Some b \<Longrightarrow>
     0 \<le> tex_blockSlot t \<and> tex_blockSlot t < int BLOCK_SIZE \<and> \<not> blk_available b ! nat (tex_blockSlot t)"
  by (auto simp: placed_def blk_def split: if_splits)

lemma tex_destroy_ok:
  assumes "store_inv av (st, ts)" and "t \<in> set ts"
  shows "\<exists>st'. tex_destroy t st = Inr st'"
proof -
  from assms have pl: "placed av st t" by (simp add: store_inv_def)
  then obtain aid b where a: "tex_arena t = Some aid" "blk st aid (tex_blockId t) = Some b" by (auto simp: placed_def)
  then have f: "findBlock (tex_blockId t) (blocks (st ! aid)) = Some b" by (auto simp: blk_def split: if_splits)
  from placed_slot_taken [OF pl a(1) f]
  have "freeSlot (tex_blockSlot t) b = Inr (b\<lparr>blk_available := (blk_available b)[nat (tex_blockSlot t) := True]\<rparr>)"
    by (simp add: freeSlot_def)
  from update_block_ok [where f = "freeSlot (tex_blockSlot t)", OF f this] a(1) show ?thesis by (auto simp: tex_destroy_def)
qed

lemma tex_destroy_inv:
  assumes inv: "store_inv av (st, us @ t # vs)" and d: "tex_destroy t st = Inr st'"
  shows "store_inv av (st', us @ vs)"
proof -
  have pl: "placed av st t" using inv by (simp add: store_inv_def)
  then obtain aid where a: "tex_arena t = Some aid" "aid < length st" by (auto simp: placed_def blk_def split: if_splits)
  with d obtain bs where u: "update_block (tex_blockId t) (freeSlot (tex_blockSlot t)) (blocks (st ! aid)) = Inr bs"
    and st': "st' = st[aid := (st ! aid)\<lparr>blocks := bs\<rparr>]"
    by (auto simp: tex_destroy_def rbind_eq_Inr)
  have idk: "blk_id b' = blk_id b" if "freeSlot (tex_blockSlot t) b = Inr b'" for b b'
    using that by (auto simp: freeSlot_def split: if_splits)
  from update_block_InrD [OF u idk] obtain b b' where
    b: "findBlock (tex_blockId t) (blocks (st ! aid)) = Some b" "freeSlot (tex_blockSlot t) b = Inr b'"
      "map blk_id bs = map blk_id (blocks (st ! aid))"
      "\<forall>j. findBlock j bs = (if j = tex_blockId t then Some b' else findBlock j (blocks (st ! aid)))"
    by (auto 0 4)
  let ?A = "(blk_available b)[nat (tex_blockSlot t) := True]"
  have b': "b' = b\<lparr>blk_available := ?A\<rparr>" using b(2) by (auto simp: freeSlot_def split: if_splits)
  have "arena_ok (st ! aid)" using inv a(2) by (simp add: store_inv_def)
  then have "length ?A = BLOCK_SIZE" using b(1) by (simp add: arena_ok_def)
  from slots_change [OF _ _ a(2) b(1) b(3) this] b(4) b' inv
  have geo: "\<forall>a\<in>set st'. arena_ok a" "blocks_apart st'" by (auto simp: store_inv_def st')
  have "placed av st' u" if "u \<in> set (us @ vs)" for u
    unfolding st'
  proof (rule placed_change [OF _ a(2) b(1)])
    show "placed av st u" using inv that by (auto simp: store_inv_def)
    show "\<forall>j. findBlock j bs = (if j = tex_blockId t then Some (b\<lparr>blk_available := ?A\<rparr>) else findBlock j (blocks (st ! aid)))"
      using b(4) b' by simp
    assume same: "tex_arena u = Some aid" "tex_blockId u = tex_blockId t"
    have "tex_key u \<in> tex_key ` set (us @ vs)" using that by (rule imageI)
    with inv have "tex_key u \<noteq> tex_key t" by (auto simp: store_inv_def)
    with same a(1) have "tex_blockSlot u \<noteq> tex_blockSlot t" by (auto simp: tex_key_def)
    moreover have "0 \<le> tex_blockSlot u"
      using inv that by (auto simp: store_inv_def placed_def)
    moreover have "0 \<le> tex_blockSlot t" using pl by (auto simp: placed_def)
    ultimately show "?A ! nat (tex_blockSlot u) = blk_available b ! nat (tex_blockSlot u)"
      by simp
  qed
  with geo inv show ?thesis by (auto simp: store_inv_def)
qed


lemma findBlock_above: "arena_ok a \<Longrightarrow> findBlock (lastBlockId a + 1) (blocks a) = None"
proof (cases "findBlock (lastBlockId a + 1) (blocks a)")
  case (Some b)
  moreover assume "arena_ok a"
  ultimately have "lastBlockId a + 1 \<le> lastBlockId a" unfolding arena_ok_def by blast
  then show ?thesis by simp
qed

text \<open>A slot handed out by \<open>alloc_slot\<close>: either an available one of a block, or one of a new block in fresh memory.\<close>

lemma alloc_slot_cases:
  assumes "alloc_slot av st a = (i, slot, a')" and ok: "arena_ok a"
  obtains (reused) b bs where "findBlock i (blocks a) = Some b" "slot < BLOCK_SIZE" "blk_available b ! slot"
      "map blk_id bs = map blk_id (blocks a)" "a' = a\<lparr>blocks := bs\<rparr>"
      "\<forall>j. findBlock j bs = (if j = i then Some (b\<lparr>blk_available := (blk_available b)[slot := False]\<rparr>) else findBlock j (blocks a))"
  | (fresh) b where "findBlock i (blocks a) = None" "i = lastBlockId a + 1" "slot = 0"
      "b = block_new (av_malloc av (areas st) (sz_mul (textureSize a) BLOCK_SIZE)) (textureSize a) i"
      "a' = a\<lparr>lastBlockId := i, blocks := blocks a @ [b\<lparr>blk_available := (blk_available b)[0 := False]\<rparr>]\<rparr>"
proof (cases "alloc_in (blocks a)")
  case None
  let ?b = "block_new (av_malloc av (areas st) (sz_mul (textureSize a) BLOCK_SIZE)) (textureSize a) (lastBlockId a + 1)"
  have "allocSlot ?b = Some (0, ?b\<lparr>blk_available := (blk_available ?b)[0 := False]\<rparr>)"
    by (simp add: allocSlot_def block_new_def BLOCK_SIZE_def numeral_eq_Suc)
  with None assms(1) have e: "i = lastBlockId a + 1" "slot = 0"
      "a' = a\<lparr>lastBlockId := i, blocks := blocks a @ [?b\<lparr>blk_available := (blk_available ?b)[0 := False]\<rparr>]\<rparr>"
    by (auto simp: alloc_slot_def Let_def)
  have "findBlock i (blocks a) = None"
    using findBlock_above [OF ok] e(1) by simp
  with e show ?thesis by (intro fresh) auto
next
  case (Some r)
  with assms(1) obtain bs where r: "alloc_in (blocks a) = Some (i, slot, bs)" and a': "a' = a\<lparr>blocks := bs\<rparr>"
    by (cases r) (auto simp: alloc_slot_def)
  have "distinct (map blk_id (blocks a))" using ok by (simp add: arena_ok_def)
  from alloc_in_SomeD [OF r this] obtain b where b: "findBlock i (blocks a) = Some b" "slot < length (blk_available b)"
    "blk_available b ! slot" "map blk_id bs = map blk_id (blocks a)"
    "\<forall>j. findBlock j bs = (if j = i then Some (b\<lparr>blk_available := (blk_available b)[slot := False]\<rparr>) else findBlock j (blocks a))"
    by blast
  have "length (blk_available b) = BLOCK_SIZE" using ok b(1) by (simp add: arena_ok_def)
  with b a' show ?thesis by (intro reused) auto
qed

lemma arena_ok_append:
  assumes "arena_ok a" and b: "blk_id b = lastBlockId a + 1" "length (blk_available b) = BLOCK_SIZE" "blk_size b = textureSize a"
  shows "arena_ok (a\<lparr>lastBlockId := lastBlockId a + 1, blocks := blocks a @ [b]\<rparr>)"
proof -
  have none: "findBlock (lastBlockId a + 1) (blocks a) = None"
    by (rule findBlock_above [OF assms(1)])
  show ?thesis
    using assms none by (fastforce simp: arena_ok_def findBlock_append findBlock_None_iff split: option.splits)
qed

lemma fresh_block_apart:
  assumes apart: "blocks_apart st" and aid: "aid < length st" and none: "findBlock i (blocks (st ! aid)) = None"
    and bi: "blk_id b = i" and new: "\<And>x j c. blk st x j = Some c \<Longrightarrow> apart (blk_data b, 8 * blk_size b) (blk_data c, 8 * blk_size c)"
    and st': "st' = st[aid := (st ! aid)\<lparr>lastBlockId := n, blocks := blocks (st ! aid) @ [b]\<rparr>]"
  shows "blocks_apart st'" and "blk st' x j = (if x = aid \<and> j = i then Some b else blk st x j)"
proof -
  show bl: "blk st' x j = (if x = aid \<and> j = i then Some b else blk st x j)" for x j
    using aid none bi by (cases "x = aid") (auto simp: st' blk_def findBlock_append split: option.splits)
  show "blocks_apart st'"
    unfolding blocks_apart_def
  proof (intro allI impI)
    fix x j c x' j' c'
    assume "blk st' x j = Some c" "blk st' x' j' = Some c'" "(x, j) \<noteq> (x', j')"
    then show "apart (blk_data c, 8 * blk_size c) (blk_data c', 8 * blk_size c')"
      using new [of x j c] new [of x' j' c'] blocks_apartD [OF apart, of x j c x' j' c']
      by (auto simp: bl apart_sym split: if_splits)
  qed
qed

lemma placed_mono:
  "placed av st t \<Longrightarrow> (\<And>x j c. blk st x j = Some c \<Longrightarrow> blk st' x j = Some c) \<Longrightarrow> placed av st' t"
  unfolding placed_def by blast


lemma tex_alloc_inv:
  assumes inv: "store_inv av (st, ts)" and av: "fresh_malloc av" "image_ok av"
    and al: "tex_alloc av px aid st = Inr (t, st')"
  shows "store_inv av (st', t # ts)"
proof -
  obtain i slot a' where as: "alloc_slot av st (st ! aid) = (i, slot, a')" by (cases "alloc_slot av st (st ! aid)") auto
  from al as obtain ls planes b where aid: "aid < length st"
    and im: "image_planes av (ar_width (st ! aid)) (ar_height (st ! aid)) (ar_format (st ! aid)) = Inr (ls, planes)"
    and sz: "textureSize (st ! aid) = plane_total planes" and b: "findBlock i (blocks a') = Some b"
    and t: "t = \<lparr>tex_width = ar_width (st ! aid), tex_height = ar_height (st ! aid), tex_format = ar_format (st ! aid),
        tex_linesize = ls, tex_data = plane_pointers (block_at b slot) ls planes,
        tex_arena = Some aid, tex_blockId = i, tex_blockSlot = int slot, pixels = px\<rparr>"
    and st': "st' = st[aid := a']"
    by (auto simp: tex_alloc_def rbind_eq_Inr Let_def split: option.splits prod.splits)
  have ok: "arena_ok (st ! aid)" using inv aid by (simp add: store_inv_def)
  have inv': "\<forall>a\<in>set st. arena_ok a" "blocks_apart st" "\<forall>u\<in>set ts. placed av st u" "distinct (map tex_key ts)"
    using inv by (simp_all add: store_inv_def)
  from as ok show ?thesis
  proof (cases rule: alloc_slot_cases)
    case (reused c bs)
    let ?A = "(blk_available c)[slot := False]"
    have lenA: "length (blk_available c) = BLOCK_SIZE" using ok reused(1) by (simp add: arena_ok_def)
    have old: "tex_blockSlot u \<noteq> int slot" if "u \<in> set ts" "tex_arena u = Some aid" "tex_blockId u = i" for u
      using placed_slot_taken [of av st u aid c] that inv'(3) reused(1,3) by auto
    have geo: "(\<forall>a\<in>set st'. arena_ok a) \<and> blocks_apart st'"
      unfolding st' reused(5)
      by (rule slots_change [OF inv'(1,2) aid reused(1,4) _ reused(6)]) (simp add: lenA)
    have "placed av st' u" if "u \<in> set ts" for u
      unfolding st' reused(5)
    proof (rule placed_change [OF _ aid reused(1,6)])
      show "placed av st u" using that inv'(3) by simp
      assume "tex_arena u = Some aid" "tex_blockId u = i"
      moreover have "0 \<le> tex_blockSlot u" using that inv'(3) by (auto simp: placed_def)
      ultimately show "?A ! nat (tex_blockSlot u) = blk_available c ! nat (tex_blockSlot u)"
        using old [OF that] by auto
    qed
    moreover have "b = c\<lparr>blk_available := ?A\<rparr>" using b reused(5,6) by simp
    moreover from this have "placed av st' t"
      using b aid reused(2,5) im sz ok reused(1) lenA by (auto simp: placed_def t st' blk_def arena_ok_def)
    moreover have "tex_key t \<notin> tex_key ` set ts"
      using old by (force simp: tex_key_def t)
    ultimately show ?thesis using geo inv'(4) by (simp add: store_inv_def)
  next
    case (fresh c)
    let ?c = "c\<lparr>blk_available := (blk_available c)[0 := False]\<rparr>"
    have small: "8 * textureSize (st ! aid) < SIZE_T_MOD" using ok by (simp add: arena_ok_def)
    have cf: "blk_id ?c = i" "length (blk_available ?c) = BLOCK_SIZE" "blk_size ?c = textureSize (st ! aid)"
      by (simp_all add: fresh(4) block_new_def)
    have ok': "arena_ok a'"
      using arena_ok_append [OF ok, of ?c] cf fresh(2,5) by simp
    have new: "apart (blk_data ?c, 8 * blk_size ?c) (blk_data d, 8 * blk_size d)" if "blk st x j = Some d" for x j d
    proof -
      have "arena_ok (st ! x)" using that inv'(1) by (auto simp: blk_def split: if_splits)
      with that have "8 * blk_size d < SIZE_T_MOD" by (auto simp: arena_ok_def blk_def split: if_splits)
      then have "(blk_data d, 8 * blk_size d) \<in> set (areas st)"
        using blk_areas [OF that] by (simp add: BLOCK_SIZE_def mult.commute)
      then show ?thesis
        using av(1) small by (auto simp: fresh_malloc_def fresh(4) block_new_def BLOCK_SIZE_def mult.commute)
    qed
    have geo: "blocks_apart st'" and bl: "blk st' x j = (if x = aid \<and> j = i then Some ?c else blk st x j)" for x j
      using fresh_block_apart [OF inv'(2) aid fresh(1) cf(1) new, where st' = st' and n = i] by (simp_all add: st' fresh(5))
    have none: "blk st aid i = None" using fresh(1) by (simp add: blk_def)
    have old: "placed av st' u" if "u \<in> set ts" for u
      using inv'(3) that by (rule_tac placed_mono [of av st u]) (auto simp: bl none)
    have "b = ?c" using b aid bl [of aid i] by (simp add: blk_def st')
    then have "placed av st' t"
      using im sz cf fresh(3) bl [of aid i] by (auto simp: placed_def t fresh(4) block_new_def BLOCK_SIZE_def)
    moreover have "tex_key t \<notin> tex_key ` set ts"
      using inv'(3) none by (auto simp: tex_key_def t placed_def)
    moreover have "\<forall>a\<in>set st'. arena_ok a"
      unfolding st' using ok' inv'(1) set_update_subset_insert by fastforce
    ultimately show ?thesis using geo old inv'(4) by (simp add: store_inv_def)
  qed
qed

lemma getArena_inv:
  assumes inv: "store_inv av (st, ts)" and av: "image_ok av" and g: "getArena av w h fmt st = Inr (aid, st')"
  shows "store_inv av (st', ts)"
proof -
  from g obtain ls planes where im: "image_planes av w h fmt = Inr (ls, planes)"
    and st': "st' = st @ [\<lparr>ar_width = w, ar_height = h, ar_format = fmt, textureSize = plane_total planes,
                             lastBlockId = 0, blocks = []\<rparr>]"
    by (auto simp: getArena_def rbind_eq_Inr)
  have bl: "blk st' x j = blk st x j" for x j
    by (auto simp: st' blk_def nth_append)
  have "blocks_apart st'" using inv by (simp add: store_inv_def blocks_apart_def bl)
  moreover have "\<forall>t\<in>set ts. placed av st' t"
    using inv placed_mono [of av st _ st'] by (auto simp: store_inv_def bl)
  moreover have "\<forall>a\<in>set st'. arena_ok a"
    using inv image_okD [OF av im] by (auto simp: store_inv_def st' arena_ok_def)
  ultimately show ?thesis using inv by (simp add: store_inv_def)
qed

lemma tex_step_inv:
  assumes "fresh_malloc av" and "image_ok av" and "tex_step av s s'" and "store_inv av s"
  shows "store_inv av s'"
  using assms(3,4)
proof cases
  case (step_ensureFormat a w h fmt st aid st' ts)
  then show ?thesis using assms(2,4) getArena_inv
    by (auto simp: ensureFormat_def split: option.splits if_splits)
next
  case (step_clone target t0 st t st' ts)
  then show ?thesis using assms tex_alloc_inv
    by (auto simp: tex_clone_def error_quit_def split: option.splits if_splits)
qed (use assms getArena_inv tex_alloc_inv tex_destroy_inv in \<open>auto simp: gc_def rbind_eq_Inr\<close>)

lemma tex_reachable_inv: "tex_reachable av s \<Longrightarrow> fresh_malloc av \<Longrightarrow> image_ok av \<Longrightarrow> store_inv av s"
proof (induction rule: tex_reachable.induct)
  case tex_init
  then show ?case by (simp add: store_inv_def blocks_apart_def blk_def)
next
  case (tex_next s s')
  then show ?case using tex_step_inv by blast
qed


lemma plane_areas_within:
  assumes "placed av st t" and "image_ok av" and "x \<in> set (plane_areas av t)"
  obtains aid b where "tex_arena t = Some aid" "blk st aid (tex_blockId t) = Some b"
    "block_at b (nat (tex_blockSlot t)) \<le> fst x" "fst x + snd x \<le> block_at b (nat (tex_blockSlot t)) + blk_size b"
    "nat (tex_blockSlot t) < 8" "0 \<le> tex_blockSlot t"
proof -
  from assms(1) obtain aid b ls planes where
    b: "tex_arena t = Some aid" "blk st aid (tex_blockId t) = Some b" "0 \<le> tex_blockSlot t" "tex_blockSlot t < int BLOCK_SIZE"
    and im: "image_planes av (tex_width t) (tex_height t) (tex_format t) = Inr (ls, planes)" and sz: "plane_total planes = blk_size b"
    and d: "tex_data t = plane_pointers (block_at b (nat (tex_blockSlot t))) ls planes"
    unfolding placed_def by blast
  from assms(3) have "(Some (fst x), snd x) \<in> set (zip (plane_pointers (block_at b (nat (tex_blockSlot t))) ls planes) planes)"
    by (auto simp: plane_areas_def im d split: option.splits)
  from plane_pointers_within [OF this] image_okD [OF assms(2) im] sz b show ?thesis
    by (intro that [of aid b]) (auto simp: BLOCK_SIZE_def)
qed

lemma slots_apart:
  assumes "block_at b k \<le> p" "p + n \<le> block_at b k + blk_size b" "block_at b l \<le> q" "q + m \<le> block_at b l + blk_size b" "k \<noteq> l"
  shows "apart (p, n) (q, m)"
proof (cases "k < l")
  case True
  then have "block_at b k + blk_size b \<le> block_at b l"
    by (metis Suc_leI add_le_cancel_left add_mult_distrib2 block_at_def group_cancel.add1 mult.commute mult_Suc mult_le_mono2 add.commute)
  with assms show ?thesis by (simp add: apart_def)
next
  case False
  with assms(5) have "l < k" by simp
  then have "block_at b l + blk_size b \<le> block_at b k"
    by (metis Suc_leI add_le_cancel_left add_mult_distrib2 block_at_def group_cancel.add1 mult.commute mult_Suc mult_le_mono2 add.commute)
  with assms show ?thesis by (simp add: apart_def)
qed

lemma block_contains:
  "k < 8 \<Longrightarrow> blk_data b \<le> block_at b k \<and> block_at b k + blk_size b \<le> blk_data b + 8 * blk_size b"
proof -
  assume "k < 8"
  then have "blk_size b * Suc k \<le> blk_size b * 8" by (intro mult_le_mono2) simp
  then show ?thesis by (simp add: block_at_def algebra_simps)
qed

subsection \<open>Textures never overlap\<close>

text \<open>C14: in every store the program can reach by creating arenas and by allocating, cloning, moving and destroying
  textures, two different textures that are alive share no byte of memory, and destroying any of them finds its
  block and a taken slot, so \<open>freeSlot\<close> never aborts and no null block is dereferenced.\<close>

theorem textures_disjoint:
  assumes "fresh_malloc av" and "image_ok av" and "tex_reachable av (st, ts)"
    and "i < length ts" and "j < length ts" and "i \<noteq> j"
    and "x \<in> set (plane_areas av (ts ! i))" and "y \<in> set (plane_areas av (ts ! j))"
  shows "(fst x + snd x \<le> fst y \<or> fst y + snd y \<le> fst x) \<and> (\<exists>st'. tex_destroy (ts ! i) st = Inr st')"
proof -
  have inv: "store_inv av (st, ts)" using tex_reachable_inv assms(1-3) by blast
  then have pl: "placed av st (ts ! i)" "placed av st (ts ! j)" using assms(4,5) by (simp_all add: store_inv_def)
  have key: "tex_key (ts ! i) \<noteq> tex_key (ts ! j)"
    using inv assms(4-6) by (auto simp: store_inv_def distinct_conv_nth)
  obtain a b where b: "tex_arena (ts ! i) = Some a" "blk st a (tex_blockId (ts ! i)) = Some b"
    "block_at b (nat (tex_blockSlot (ts ! i))) \<le> fst x"
    "fst x + snd x \<le> block_at b (nat (tex_blockSlot (ts ! i))) + blk_size b"
    "nat (tex_blockSlot (ts ! i)) < 8" "0 \<le> tex_blockSlot (ts ! i)"
    using plane_areas_within [OF pl(1) assms(2,7)] by blast
  obtain a' b' where b': "tex_arena (ts ! j) = Some a'" "blk st a' (tex_blockId (ts ! j)) = Some b'"
    "block_at b' (nat (tex_blockSlot (ts ! j))) \<le> fst y"
    "fst y + snd y \<le> block_at b' (nat (tex_blockSlot (ts ! j))) + blk_size b'"
    "nat (tex_blockSlot (ts ! j)) < 8" "0 \<le> tex_blockSlot (ts ! j)"
    using plane_areas_within [OF pl(2) assms(2,8)] by blast
  have "apart (fst x, snd x) (fst y, snd y)"
  proof (cases "(a, tex_blockId (ts ! i)) = (a', tex_blockId (ts ! j))")
    case True
    with b b' key have "b' = b" "nat (tex_blockSlot (ts ! i)) \<noteq> nat (tex_blockSlot (ts ! j))"
      by (auto simp: tex_key_def)
    with b b' show ?thesis by (intro slots_apart) auto
  next
    case False
    have "blocks_apart st" using inv by (simp add: store_inv_def)
    from blocks_apartD [OF this b(2) b'(2) False] block_contains [OF b(5), of b] block_contains [OF b'(5), of b'] b b'
    show ?thesis by (auto simp: apart_def)
  qed
  then show ?thesis using tex_destroy_ok [OF inv] assms(4) by (simp add: apart_def)
qed

text \<open>A sample of FFmpeg's part: packed 32-bit images and planar ones, none of them larger than 8192 by 8192.\<close>

definition sample_av :: av_image where
  "sample_av =
     \<lparr>fill_linesizes = (\<lambda>fmt w. if w < 0 \<or> 8192 < w then (-1, [])
         else if fmt = AV_YUV420P then (0, [w, w div 2, w div 2, 0]) else (0, [4 * w, 0, 0, 0])),
      fill_plane_sizes = (\<lambda>fmt h ls. if h < 0 \<or> 8192 < h \<or> length ls \<noteq> 4 then (-1, [])
         else if fmt = AV_YUV420P then (0, [nat (h * ls ! 0), nat (h * ls ! 1) div 2, nat (h * ls ! 2) div 2, 0])
         else (0, [nat (h * ls ! 0), 0, 0, 0])),
      count_planes = (\<lambda>fmt. if fmt = AV_YUV420P then 3 else 1),
      av_malloc = (\<lambda>live n. foldr (\<lambda>x m. max (fst x + snd x) m) live 4096)\<rparr>"

lemma sample_fresh: "fresh_malloc sample_av"
proof -
  have "fst x + snd x \<le> foldr (\<lambda>x m. max (fst x + snd x) m) live 4096" if "x \<in> set live" for x :: "nat \<times> nat" and live
    using that by (induction live) auto
  then show ?thesis by (auto simp: fresh_malloc_def sample_av_def apart_def)
qed


lemma sample_image_ok: "image_ok sample_av"
  unfolding image_ok_def
proof (intro allI impI)
  fix w h fmt ls planes
  assume "image_planes sample_av w h fmt = Inr (ls, planes)"
  then have r: "0 \<le> w" "w \<le> 8192" "0 \<le> h" "h \<le> 8192" and
    pl: "planes = (if fmt = AV_YUV420P then [nat (h * w), nat (h * (w div 2)) div 2, nat (h * (w div 2)) div 2, 0]
                   else [nat (h * (4 * w)), 0, 0, 0])"
    by (auto simp: image_planes_def sample_av_def rbind_eq_Inr Let_def split: if_splits)
  have "h * w \<le> 8192 * 8192" "h * (w div 2) \<le> 8192 * 8192"
    using r by (intro mult_mono; linarith)+
  then have "nat (h * w) \<le> 67108864" "nat (h * (w div 2)) \<le> 67108864" "nat (h * (4 * w)) \<le> 268435456"
    by linarith+
  then show "8 * sum_list planes < SIZE_T_MOD"
    unfolding pl SIZE_T_MOD_def by (cases "fmt = AV_YUV420P") simp_all
qed

definition sample_store :: "arenas \<times> nat texture list" where
  "sample_store =
     (case getArena sample_av 4 2 AV_YUV420P [] of
        Inl _ \<Rightarrow> ([], [])
      | Inr (aid, st) \<Rightarrow> (case tex_alloc sample_av 7 aid st of
          Inl _ \<Rightarrow> ([], [])
        | Inr (t, st') \<Rightarrow> (case tex_clone sample_av (Some aid) t st' of
            Inl _ \<Rightarrow> ([], [])
          | Inr (u, st'') \<Rightarrow> (st'', [u, t]))))"

lemma eight_slots: "replicate 8 True = [True, True, True, True, True, True, True, True]"
  by (simp add: numeral_eq_Suc)

lemmas arena_eval = eight_slots
  sample_av_def getArena_def image_planes_def tex_alloc_def tex_clone_def alloc_slot_def allocSlot_def block_new_def
  areas_def BLOCK_SIZE_def SIZE_T_MOD_def sz_mul_def sz_add_def plane_total_def block_at_def Let_def

lemma sample_store_reachable: "tex_reachable sample_av sample_store"
  unfolding sample_store_def
  by (auto split: sum.split intro!: tex_init)
    (meson tex_init tex_next step_getArena step_alloc step_clone)+

lemma textures_disjoint_witness:
  "length (snd sample_store) = 2 \<and> (\<exists>x y. x \<in> set (plane_areas sample_av (snd sample_store ! 0)) \<and>
     y \<in> set (plane_areas sample_av (snd sample_store ! 1)) \<and> (fst x + snd x \<le> fst y \<or> fst y + snd y \<le> fst x)) \<and>
   (\<exists>st'. tex_destroy (snd sample_store ! 0) (fst sample_store) = Inr st')"
proof -
  have n: "length (snd sample_store) = 2"
    by (simp add: sample_store_def arena_eval)
  have ne: "plane_areas sample_av (snd sample_store ! 0) \<noteq> []" "plane_areas sample_av (snd sample_store ! 1) \<noteq> []"
    by (simp_all add: sample_store_def arena_eval plane_areas_def)
  have r: "tex_reachable sample_av (fst sample_store, snd sample_store)" using sample_store_reachable by simp
  have h: "hd (plane_areas sample_av (snd sample_store ! 0)) \<in> set (plane_areas sample_av (snd sample_store ! 0))"
    "hd (plane_areas sample_av (snd sample_store ! 1)) \<in> set (plane_areas sample_av (snd sample_store ! 1))"
    using ne by (simp_all del: One_nat_def)
  have "0 < length (snd sample_store)" "1 < length (snd sample_store)" "0 \<noteq> (1::nat)" using n by simp_all
  note facts = textures_disjoint [OF sample_fresh sample_image_ok r this h]
  show ?thesis
    by (rule conjI [OF n conjI [OF _ conjunct2 [OF facts]]], rule exI, rule exI, rule conjI [OF h(1) conjI [OF h(2) conjunct1 [OF facts]]])
qed

end
