(* ===== verification/ScaleSoftware.thy ===== *)
theory ScaleSoftware
  imports TextureArena RationalNum
begin

text \<open>
  \<open>ScaleSoftware\<close> of \<open>src/src/common/platform/software/ScaleSoftware.h\<close> and \<open>.cpp\<close>: converts the texture pushed
  last into the output format, once, when the output is asked for.

  FFmpeg's scaler is the parameter \<open>sws\<close>: a context is the configuration it was made for (\<open>sws_getContext\<close> may
  refuse one), and \<open>sws_run\<close> is the picture a configuration makes of a picture.
\<close>

type_synonym sws_config = "(int \<times> int \<times> pix_fmt) \<times> (int \<times> int \<times> pix_fmt)"

record 'px sws =
  sws_supports :: "sws_config \<Rightarrow> bool"
  sws_run :: "sws_config \<Rightarrow> 'px \<Rightarrow> 'px"

record 'px scaler =
  outputArena :: "nat option"
  hasTexture :: bool
  inputFormatChanged :: bool
  outputFormatChanged :: bool
  sc_dirty :: bool
  inputFormat :: "int \<times> int \<times> pix_fmt"
  outputFormat :: "int \<times> int \<times> pix_fmt"
  inputTex :: "'px texture"
  outputTex :: "'px texture"
  sws_ctx :: "sws_config option"

definition scaler_new :: "'px \<Rightarrow> 'px scaler" where
  "scaler_new none =
     \<lparr>outputArena = None, hasTexture = False, inputFormatChanged = False, outputFormatChanged = False, sc_dirty = False,
      inputFormat = (-1, -1, AV_NONE), outputFormat = (-1, -1, AV_NONE),
      inputTex = texture_new none, outputTex = texture_new none, sws_ctx = None\<rparr>"

text \<open>\<open>Rational\<close>'s constructor asserts what it gets, so a ratio asked for before the formats are set is undefined.\<close>

definition getRatio :: "'px scaler \<Rightarrow> (rational \<times> rational) res" where
  "getRatio sc =
     (case (inputFormat sc, outputFormat sc) of ((iw, ih, _), (ow, oh, _)) \<Rightarrow>
        rbind (rational_new ow iw) (\<lambda>x. rbind (rational_new oh ih) (\<lambda>y. Inr (x, y))))"

definition scale_reset :: "'px scaler \<Rightarrow> 'px scaler" where
  "scale_reset sc = sc\<lparr>hasTexture := False, sc_dirty := False\<rparr>"

definition setInputFormat :: "int \<Rightarrow> int \<Rightarrow> pix_fmt \<Rightarrow> 'px scaler \<Rightarrow> 'px scaler" where
  "setInputFormat w h fmt sc =
     (if (w, h, fmt) \<noteq> inputFormat sc then sc\<lparr>inputFormat := (w, h, fmt), inputFormatChanged := True\<rparr> else sc)"

definition setOutputFormat :: "int \<Rightarrow> int \<Rightarrow> pix_fmt \<Rightarrow> 'px scaler \<Rightarrow> 'px scaler" where
  "setOutputFormat w h fmt sc =
     (if (w, h, fmt) \<noteq> outputFormat sc then sc\<lparr>outputFormat := (w, h, fmt), outputFormatChanged := True\<rparr> else sc)"

text \<open>The move assignment swaps: the caller's texture becomes the input pushed before, and the caller destroys it.\<close>

definition pushInput :: "'px texture \<Rightarrow> 'px scaler \<Rightarrow> 'px texture \<times> 'px scaler" where
  "pushInput tex sc = (inputTex sc, sc\<lparr>inputTex := tex, hasTexture := True, sc_dirty := True\<rparr>)"

definition new_context :: "'px sws \<Rightarrow> 'px scaler \<Rightarrow> 'px scaler" where
  "new_context sws sc =
     (let cfg = (inputFormat sc, outputFormat sc) in sc\<lparr>sws_ctx := if sws_supports sws cfg then Some cfg else None\<rparr>)"

text \<open>\<open>outputTex = outputArena->alloc()\<close>: the temporary takes the old texture and destroys it.\<close>

definition new_output :: "av_image \<Rightarrow> 'px \<Rightarrow> 'px scaler \<Rightarrow> arenas \<Rightarrow> ('px scaler \<times> arenas) res" where
  "new_output av raw sc st =
     (case outputFormat sc of (w, h, fmt) \<Rightarrow>
        rbind (ensureFormat av (outputArena sc) w h fmt st) (\<lambda>(aid, st1).
        rbind (tex_alloc av raw aid st1) (\<lambda>(t, st2).
        rbind (tex_destroy (outputTex sc) st2) (\<lambda>st3.
          Inr (sc\<lparr>outputArena := Some aid, outputTex := t\<rparr>, st3)))))"

definition convert :: "av_image \<Rightarrow> 'px sws \<Rightarrow> 'px \<Rightarrow> 'px scaler \<Rightarrow> arenas \<Rightarrow> ('px scaler \<times> arenas) res" where
  "convert av sws raw sc st =
     (let t = inputTex sc;
          sc1 = setInputFormat (tex_width t) (tex_height t) (tex_format t) (sc\<lparr>sc_dirty := False\<rparr>);
          sc2 = (if inputFormatChanged sc1 \<or> outputFormatChanged sc1 then new_context sws sc1 else sc1) in
      rbind (if outputFormatChanged sc2 then new_output av raw sc2 st else Inr (sc2, st)) (\<lambda>(sc3, st').
        case sws_ctx sc3 of
          None \<Rightarrow> Inl Undef
        | Some cfg \<Rightarrow>
            Inr (sc3\<lparr>inputFormatChanged := False, outputFormatChanged := False,
                     outputTex := (outputTex sc3)\<lparr>pixels := sws_run sws cfg (pixels t)\<rparr>\<rparr>, st')))"

definition scale_flush :: "av_image \<Rightarrow> 'px sws \<Rightarrow> 'px \<Rightarrow> 'px scaler \<Rightarrow> arenas \<Rightarrow> ('px scaler \<times> arenas) res" where
  "scale_flush av sws raw sc st = (if sc_dirty sc then convert av sws raw sc st else Inr (sc, st))"

definition popOutput :: "av_image \<Rightarrow> 'px sws \<Rightarrow> 'px \<Rightarrow> 'px scaler \<Rightarrow> arenas \<Rightarrow> ('px texture \<times> 'px scaler \<times> arenas) res" where
  "popOutput av sws raw sc st =
     rbind (assert_quit (hasTexture sc) ''Tried to pop output when empty'') (\<lambda>_.
     rbind (scale_flush av sws raw sc st) (\<lambda>(sc', st').
     rbind (tex_clone av (outputArena sc') (outputTex sc') st') (\<lambda>(t, st'').
       Inr (t, sc', st''))))"

subsection \<open>What the scaler keeps\<close>

definition tex_config :: "'px texture \<Rightarrow> int \<times> int \<times> pix_fmt" where
  "tex_config t = (tex_width t, tex_height t, tex_format t)"

definition ar_config :: "arena \<Rightarrow> int \<times> int \<times> pix_fmt" where
  "ar_config a = (ar_width a, ar_height a, ar_format a)"

text \<open>Once an output format is set, the context and the output texture are those of the current formats, or the flags
  say that they have to be made again.\<close>

definition scale_inv :: "arenas \<Rightarrow> 'px scaler \<Rightarrow> bool" where
  "scale_inv st sc \<longleftrightarrow>
     (\<forall>aid. outputArena sc = Some aid \<longrightarrow> aid < length st) \<and>
     (outputFormat sc \<noteq> (-1, -1, AV_NONE) \<and> \<not> outputFormatChanged sc \<longrightarrow>
        (\<exists>aid. outputArena sc = Some aid \<and> ar_config (st ! aid) = outputFormat sc \<and>
           tex_arena (outputTex sc) = Some aid \<and> tex_config (outputTex sc) = outputFormat sc) \<and>
        (\<not> inputFormatChanged sc \<longrightarrow> sws_ctx sc = Some (inputFormat sc, outputFormat sc)))"

text \<open>Arenas are only added, and keep their format and the size of their textures.\<close>

definition extends :: "arenas \<Rightarrow> arenas \<Rightarrow> bool" where
  "extends st st' \<longleftrightarrow> length st \<le> length st' \<and>
     (\<forall>i<length st. ar_config (st' ! i) = ar_config (st ! i) \<and> textureSize (st' ! i) = textureSize (st ! i))"

lemma extends_refl [simp]: "extends st st"
  by (simp add: extends_def)

lemma extends_trans: "extends st st' \<Longrightarrow> extends st' st'' \<Longrightarrow> extends st st''"
  by (auto simp: extends_def)

lemma extends_update: "ar_config a = ar_config (st ! i) \<Longrightarrow> textureSize a = textureSize (st ! i) \<Longrightarrow> extends st (st[i := a])"
  by (cases "i < length st") (auto simp: extends_def nth_list_update)

lemma extendsD: "extends st st' \<Longrightarrow> i < length st \<Longrightarrow> i < length st' \<and> ar_config (st' ! i) = ar_config (st ! i)"
  by (auto simp: extends_def)

lemma alloc_slot_config:
  "alloc_slot av st a = (i, slot, a') \<Longrightarrow> ar_config a' = ar_config a \<and> textureSize a' = textureSize a"
  by (auto simp: alloc_slot_def ar_config_def Let_def split: option.splits prod.splits)

lemma tex_alloc_InrD:
  assumes "tex_alloc av raw aid st = Inr (t, st')"
  shows "aid < length st \<and> tex_arena t = Some aid \<and> tex_config t = ar_config (st ! aid) \<and> pixels t = raw \<and> extends st st'"
  using assms
  by (auto simp: tex_alloc_def rbind_eq_Inr Let_def tex_config_def ar_config_def split: prod.splits option.splits
      intro!: extends_update) (auto dest!: alloc_slot_config simp: ar_config_def)

lemma tex_destroy_extends: "tex_destroy t st = Inr st' \<Longrightarrow> extends st st'"
  by (auto simp: tex_destroy_def rbind_eq_Inr ar_config_def split: option.splits intro!: extends_update)

lemma ensureFormat_InrD:
  assumes "ensureFormat av arena w h fmt st = Inr (aid, st')" and "\<And>i. arena = Some i \<Longrightarrow> i < length st"
  shows "aid < length st' \<and> ar_config (st' ! aid) = (w, h, fmt) \<and> extends st st'"
  using assms
  by (auto simp: ensureFormat_def getArena_def checkConfig_def rbind_eq_Inr ar_config_def extends_def nth_append
      split: option.splits if_splits)

lemma new_output_InrD:
  assumes "new_output av raw sc st = Inr (sc', st')" and "\<And>i. outputArena sc = Some i \<Longrightarrow> i < length st"
  shows "\<exists>aid t. sc' = sc\<lparr>outputArena := Some aid, outputTex := t\<rparr> \<and> aid < length st' \<and> ar_config (st' ! aid) = outputFormat sc \<and>
     tex_arena t = Some aid \<and> tex_config t = outputFormat sc \<and> extends st st'"
proof -
  obtain w h fmt where f: "outputFormat sc = (w, h, fmt)" by (cases "outputFormat sc") auto
  with assms(1) obtain aid st1 t st2 where
    e: "ensureFormat av (outputArena sc) w h fmt st = Inr (aid, st1)" and a: "tex_alloc av raw aid st1 = Inr (t, st2)"
    and d: "tex_destroy (outputTex sc) st2 = Inr st'" and sc': "sc' = sc\<lparr>outputArena := Some aid, outputTex := t\<rparr>"
    by (auto simp: new_output_def rbind_eq_Inr)
  from ensureFormat_InrD [OF e assms(2)] tex_alloc_InrD [OF a] tex_destroy_extends [OF d]
  have "extends st st'" "aid < length st'" "ar_config (st' ! aid) = (w, h, fmt)" "tex_arena t = Some aid" "tex_config t = (w, h, fmt)"
    using extends_trans [of st st1 st2] extends_trans [of st st2 st'] extendsD [of st1 st2 aid] extendsD [of st2 st' aid] by auto
  with f sc' show ?thesis by auto
qed

lemma scale_inv_new: "scale_inv st (scaler_new none)"
  by (simp add: scale_inv_def scaler_new_def)

lemma scale_inv_extends: "scale_inv st sc \<Longrightarrow> extends st st' \<Longrightarrow> scale_inv st' sc"
  by (auto simp: scale_inv_def dest: extendsD)

lemma setOutputFormat_inv: "scale_inv st sc \<Longrightarrow> scale_inv st (setOutputFormat w h fmt sc)"
  by (auto simp: scale_inv_def setOutputFormat_def)

lemma pushInput_inv: "scale_inv st sc \<Longrightarrow> scale_inv st (snd (pushInput tex sc))"
  by (simp add: scale_inv_def pushInput_def)

lemma scale_reset_inv: "scale_inv st sc \<Longrightarrow> scale_inv st (scale_reset sc)"
  by (simp add: scale_inv_def scale_reset_def)

text \<open>A conversion that returns has made the output format's picture of the input.\<close>

lemma convert_InrD:
  assumes inv: "scale_inv st sc" and set: "outputFormat sc \<noteq> (-1, -1, AV_NONE)"
    and c: "convert av sws raw sc st = Inr (sc', st')"
  shows "scale_inv st' sc' \<and> extends st st' \<and> \<not> sc_dirty sc' \<and> hasTexture sc' = hasTexture sc \<and>
    outputFormat sc' = outputFormat sc \<and> inputTex sc' = inputTex sc \<and> tex_config (outputTex sc') = outputFormat sc \<and>
    tex_arena (outputTex sc') = outputArena sc' \<and> outputArena sc' \<noteq> None \<and>
    pixels (outputTex sc') = sws_run sws (tex_config (inputTex sc), outputFormat sc) (pixels (inputTex sc))"
proof -
  define sc1 where "sc1 = setInputFormat (tex_width (inputTex sc)) (tex_height (inputTex sc)) (tex_format (inputTex sc)) (sc\<lparr>sc_dirty := False\<rparr>)"
  define sc2 where "sc2 = (if inputFormatChanged sc1 \<or> outputFormatChanged sc1 then new_context sws sc1 else sc1)"
  have sc1: "inputFormat sc1 = tex_config (inputTex sc)" "outputFormat sc1 = outputFormat sc" "outputArena sc1 = outputArena sc"
    "outputFormatChanged sc1 = outputFormatChanged sc" "outputTex sc1 = outputTex sc" "\<not> sc_dirty sc1" "hasTexture sc1 = hasTexture sc"
    "inputTex sc1 = inputTex sc" "scale_inv st sc1"
    using inv by (auto simp: sc1_def setInputFormat_def tex_config_def scale_inv_def)
  have sc2: "inputFormat sc2 = tex_config (inputTex sc)" "outputFormat sc2 = outputFormat sc" "outputArena sc2 = outputArena sc"
    "outputFormatChanged sc2 = outputFormatChanged sc" "outputTex sc2 = outputTex sc" "\<not> sc_dirty sc2" "hasTexture sc2 = hasTexture sc"
    "inputTex sc2 = inputTex sc" "sws_ctx sc2 \<in> {None, Some (tex_config (inputTex sc), outputFormat sc)}"
    using sc1 set by (auto simp: sc2_def new_context_def Let_def scale_inv_def)
  from c obtain sc3 cfg where
    o: "(if outputFormatChanged sc2 then new_output av raw sc2 st else Inr (sc2, st)) = Inr (sc3, st')"
    and cfg: "sws_ctx sc3 = Some cfg"
    and sc': "sc' = sc3\<lparr>inputFormatChanged := False, outputFormatChanged := False,
                     outputTex := (outputTex sc3)\<lparr>pixels := sws_run sws cfg (pixels (inputTex sc))\<rparr>\<rparr>"
    using c [unfolded convert_def Let_def, folded sc1_def, folded sc2_def]
    by (elim rbind_InrE) (auto split: option.splits prod.splits simp del: split_paired_All split_paired_Ex)
  have "\<exists>aid. outputArena sc3 = Some aid \<and> aid < length st' \<and> ar_config (st' ! aid) = outputFormat sc \<and>
      tex_arena (outputTex sc3) = Some aid \<and> tex_config (outputTex sc3) = outputFormat sc \<and> extends st st' \<and>
      sws_ctx sc3 = sws_ctx sc2 \<and> inputFormat sc3 = inputFormat sc2 \<and> outputFormat sc3 = outputFormat sc \<and>
      \<not> sc_dirty sc3 \<and> hasTexture sc3 = hasTexture sc \<and> inputTex sc3 = inputTex sc"
  proof (cases "outputFormatChanged sc2")
    case True
    with o have "new_output av raw sc2 st = Inr (sc3, st')" by simp
    from new_output_InrD [OF this] inv sc2 show ?thesis by (auto simp: scale_inv_def)
  next
    case False
    with o sc2 inv set show ?thesis by (auto simp: scale_inv_def)
  qed
  then obtain aid where "outputArena sc3 = Some aid" "aid < length st'" "ar_config (st' ! aid) = outputFormat sc"
      "tex_arena (outputTex sc3) = Some aid" "tex_config (outputTex sc3) = outputFormat sc" "extends st st'"
      "sws_ctx sc3 = sws_ctx sc2" "inputFormat sc3 = inputFormat sc2" "outputFormat sc3 = outputFormat sc"
      "\<not> sc_dirty sc3" "hasTexture sc3 = hasTexture sc" "inputTex sc3 = inputTex sc" by blast
  with cfg sc2 show ?thesis unfolding sc' by (auto simp: scale_inv_def tex_config_def)
qed


subsection \<open>A conversion returns\<close>

definition sized :: "av_image \<Rightarrow> arenas \<Rightarrow> bool" where
  "sized av st \<longleftrightarrow> (\<forall>a\<in>set st. \<forall>ls planes. image_planes av (ar_width a) (ar_height a) (ar_format a) = Inr (ls, planes) \<longrightarrow>
     textureSize a = plane_total planes)"

definition owned :: "'px texture list \<Rightarrow> 'px texture \<Rightarrow> bool" where
  "owned ts t \<longleftrightarrow> tex_arena t = None \<or> (\<exists>p. t\<lparr>pixels := p\<rparr> \<in> set ts)"

lemma tex_destroy_pixels: "tex_destroy (t\<lparr>pixels := p\<rparr>) st = tex_destroy t st"
  by (simp add: tex_destroy_def split: option.split)

lemma sized_getArena: "sized av st \<Longrightarrow> getArena av w h fmt st = Inr (aid, st') \<Longrightarrow> sized av st'"
  by (auto simp: sized_def getArena_def rbind_eq_Inr)

lemma sized_update: "sized av st \<Longrightarrow> ar_config a = ar_config (st ! aid) \<Longrightarrow> textureSize a = textureSize (st ! aid) \<Longrightarrow> sized av (st[aid := a])"
  by (cases "aid < length st") (auto simp: sized_def ar_config_def list_update_beyond dest!: set_update_subset_insert [THEN subsetD])

lemma sized_alloc: "sized av st \<Longrightarrow> tex_alloc av raw aid st = Inr (t, st') \<Longrightarrow> sized av st'"
  by (auto simp: tex_alloc_def rbind_eq_Inr Let_def split: prod.splits option.splits intro!: sized_update dest: alloc_slot_config)

lemma sized_destroy: "sized av st \<Longrightarrow> tex_destroy t st = Inr st' \<Longrightarrow> sized av st'"
  by (auto simp: tex_destroy_def rbind_eq_Inr ar_config_def split: option.splits intro!: sized_update)

lemma findBlock_alloc_slot:
  assumes "alloc_slot av st a = (i, slot, a')" and ok: "arena_ok a"
  shows "\<exists>b. findBlock i (blocks a') = Some b"
  using assms
proof (cases rule: alloc_slot_cases)
  case (fresh b)
  then show ?thesis by (simp add: findBlock_append block_new_def)
qed simp

lemma tex_alloc_ok:
  assumes "aid < length st" and ok: "arena_ok (st ! aid)" and "sized av st"
    and "image_planes av (ar_width (st ! aid)) (ar_height (st ! aid)) (ar_format (st ! aid)) = Inr im"
  shows "\<exists>t st'. tex_alloc av raw aid st = Inr (t, st')"
proof -
  obtain i slot a' where as: "alloc_slot av st (st ! aid) = (i, slot, a')" by (cases "alloc_slot av st (st ! aid)") auto
  obtain ls planes where im: "im = (ls, planes)" by (cases im) auto
  have "textureSize (st ! aid) = plane_total planes" using assms(1,3,4) im by (auto simp: sized_def)
  with assms as im findBlock_alloc_slot [OF as ok] show ?thesis by (auto simp: tex_alloc_def Let_def)
qed


lemma ensureFormat_ok:
  assumes "sized av st" and "store_inv av (st, ts)" and "image_ok av" and "image_planes av w h fmt = Inr im"
    and "\<And>i. arena = Some i \<Longrightarrow> i < length st"
  shows "\<exists>aid st'. ensureFormat av arena w h fmt st = Inr (aid, st') \<and> aid < length st' \<and> sized av st' \<and> store_inv av (st', ts) \<and>
    ar_config (st' ! aid) = (w, h, fmt)"
proof -
  obtain ls planes where im: "im = (ls, planes)" by (cases im) auto
  have "\<exists>r. getArena av w h fmt st = Inr r" using assms(4) im by (simp add: getArena_def)
  then have "\<exists>r. ensureFormat av arena w h fmt st = Inr r"
    by (auto simp: ensureFormat_def split: option.split)
  then obtain aid st' where e: "ensureFormat av arena w h fmt st = Inr (aid, st')" by (auto simp: split_paired_Ex)
  from ensureFormat_InrD [OF this assms(5)] have "aid < length st'" "ar_config (st' ! aid) = (w, h, fmt)" by auto
  moreover have "sized av st' \<and> store_inv av (st', ts)"
    using e assms(1-3) sized_getArena getArena_inv by (auto simp: ensureFormat_def split: option.splits if_splits)
  ultimately show ?thesis using e by blast
qed

lemma store_inv_arena: "store_inv av (st, ts) \<Longrightarrow> aid < length st \<Longrightarrow> arena_ok (st ! aid)"
  by (simp add: store_inv_def)

lemma new_output_ok:
  fixes ts :: "'px texture list" and sc :: "'px scaler"
  assumes "sized av st" and "store_inv av (st, ts)" and av: "fresh_malloc av" "image_ok av"
    and f: "outputFormat sc = (w, h, fmt)" "image_planes av w h fmt = Inr im"
    and "\<And>i. outputArena sc = Some i \<Longrightarrow> i < length st" and own: "owned ts (outputTex sc)"
  shows "\<exists>sc' st' (ts' :: 'px texture list). new_output av raw sc st = Inr (sc', st') \<and> sized av st' \<and> store_inv av (st', ts')"
proof -
  from ensureFormat_ok [OF assms(1,2) av(2) f(2), of "outputArena sc"] assms(7) obtain aid st1 where
    e: "ensureFormat av (outputArena sc) w h fmt st = Inr (aid, st1)" "aid < length st1" "sized av st1" "store_inv av (st1, ts)"
      "ar_config (st1 ! aid) = (w, h, fmt)" by blast
  from tex_alloc_ok [OF e(2) store_inv_arena [OF e(4,2)] e(3), of im raw] e(5) f(2) obtain t st2 where
    a: "tex_alloc av raw aid st1 = Inr (t, st2)" by (auto simp: ar_config_def)
  have s2: "store_inv av (st2, t # ts)" "sized av st2" using tex_alloc_inv [OF e(4) av a] sized_alloc [OF e(3) a] by auto
  have "\<exists>st3 (ts3 :: 'px texture list). tex_destroy (outputTex sc) st2 = Inr st3 \<and> store_inv av (st3, ts3)"
  proof (cases "tex_arena (outputTex sc)")
    case None
    then have "tex_destroy (outputTex sc) st2 = Inr st2" by (simp add: tex_destroy_def)
    then show ?thesis using s2 by blast
  next
    case (Some x)
    with own obtain p where p: "(outputTex sc)\<lparr>pixels := p\<rparr> \<in> set ts" by (auto simp: owned_def)
    then obtain us vs where ts: "ts = us @ (outputTex sc)\<lparr>pixels := p\<rparr> # vs" by (auto dest: split_list)
    from tex_destroy_ok [OF s2(1), of "(outputTex sc)\<lparr>pixels := p\<rparr>"] p obtain st3 where
      d: "tex_destroy ((outputTex sc)\<lparr>pixels := p\<rparr>) st2 = Inr st3" by auto
    from tex_destroy_inv [of av st2 "t # us" _ vs, OF _ d] s2(1) ts have "store_inv av (st3, (t # us) @ vs)" by simp
    with d show ?thesis by (auto simp: tex_destroy_pixels)
  qed
  then obtain st3 and ts3 :: "'px texture list" where d: "tex_destroy (outputTex sc) st2 = Inr st3" "store_inv av (st3, ts3)" by blast
  with sized_destroy [OF s2(2) d(1)] f e a show ?thesis by (auto simp: new_output_def)
qed

lemma convert_ok:
  fixes ts :: "'px texture list" and sc :: "'px scaler"
  assumes inv: "scale_inv st sc" and set: "outputFormat sc = (w, h, fmt)" "(w, h, fmt) \<noteq> (-1, -1, AV_NONE)"
    and st: "sized av st" "store_inv av (st, ts)" and av: "fresh_malloc av" "image_ok av"
    and im: "image_planes av w h fmt = Inr im" and own: "owned ts (outputTex sc)"
    and sws: "sws_supports sws (tex_config (inputTex sc), (w, h, fmt))"
  shows "\<exists>sc' st' (ts' :: 'px texture list). convert av sws raw sc st = Inr (sc', st') \<and> sized av st' \<and> store_inv av (st', ts')"
proof -
  define sc1 where "sc1 = setInputFormat (tex_width (inputTex sc)) (tex_height (inputTex sc)) (tex_format (inputTex sc)) (sc\<lparr>sc_dirty := False\<rparr>)"
  define sc2 where "sc2 = (if inputFormatChanged sc1 \<or> outputFormatChanged sc1 then new_context sws sc1 else sc1)"
  have sc1: "inputFormat sc1 = tex_config (inputTex sc)" "outputFormat sc1 = outputFormat sc" "outputArena sc1 = outputArena sc"
    "outputTex sc1 = outputTex sc" "scale_inv st sc1"
    using inv by (auto simp: sc1_def setInputFormat_def tex_config_def scale_inv_def)
  have sc2: "outputFormat sc2 = (w, h, fmt)" "outputArena sc2 = outputArena sc" "outputTex sc2 = outputTex sc"
    using sc1 set sws by (simp_all add: sc2_def new_context_def Let_def)
  have ctx2: "sws_ctx sc2 \<noteq> None"
  proof (cases "inputFormatChanged sc1 \<or> outputFormatChanged sc1")
    case True
    then show ?thesis using sc1 set sws by (simp add: sc2_def new_context_def Let_def del: split_paired_Ex)
  next
    case False
    then have "sws_ctx sc1 = Some (inputFormat sc1, outputFormat sc1)" using sc1 set by (simp add: scale_inv_def)
    with False show ?thesis by (simp add: sc2_def del: split_paired_Ex)
  qed
  have "\<exists>sc3 st' (ts' :: 'px texture list). (if outputFormatChanged sc2 then new_output av raw sc2 st else Inr (sc2, st)) = Inr (sc3, st') \<and>
      sws_ctx sc3 \<noteq> None \<and> sized av st' \<and> store_inv av (st', ts')"
  proof (cases "outputFormatChanged sc2")
    case True
    obtain sc3 st' and ts' :: "'px texture list" where n: "new_output av raw sc2 st = Inr (sc3, st')" "sized av st'" "store_inv av (st', ts')"
      using new_output_ok [OF st av sc2(1) im, of raw] inv own sc2 by (auto simp: scale_inv_def)
    moreover have "sws_ctx sc3 = sws_ctx sc2" using new_output_InrD [OF n(1)] inv sc2(2) by (auto simp: scale_inv_def)
    ultimately show ?thesis using True ctx2 by auto
  next
    case False
    then show ?thesis using st ctx2 by auto
  qed
  then obtain sc3 st' and ts' :: "'px texture list" where "(if outputFormatChanged sc2 then new_output av raw sc2 st else Inr (sc2, st)) = Inr (sc3, st')"
      "sws_ctx sc3 \<noteq> None" "sized av st'" "store_inv av (st', ts')" by blast
  note r = this
  obtain cfg where cfg: "sws_ctx sc3 = Some cfg" using r(2) by (cases "sws_ctx sc3") auto
  have "convert av sws raw sc st =
      rbind (if outputFormatChanged sc2 then new_output av raw sc2 st else Inr (sc2, st)) (\<lambda>(sc3, st').
        case sws_ctx sc3 of
          None \<Rightarrow> Inl Undef
        | Some cfg \<Rightarrow> Inr (sc3\<lparr>inputFormatChanged := False, outputFormatChanged := False,
                     outputTex := (outputTex sc3)\<lparr>pixels := sws_run sws cfg (pixels (inputTex sc))\<rparr>\<rparr>, st'))"
    unfolding convert_def Let_def sc1_def sc2_def by (rule refl)
  also have "\<dots> = Inr (sc3\<lparr>inputFormatChanged := False, outputFormatChanged := False,
                     outputTex := (outputTex sc3)\<lparr>pixels := sws_run sws cfg (pixels (inputTex sc))\<rparr>\<rparr>, st')"
    by (simp only: r(1)) (simp add: cfg)
  finally show ?thesis using r(3,4) by blast
qed

subsection \<open>What is popped is the conversion of what was pushed last\<close>



definition sample_sws :: "nat sws" where
  "sample_sws = \<lparr>sws_supports = (\<lambda>_. True), sws_run = (\<lambda>((iw, ih, _), (ow, oh, _)) px. px + nat (ow * oh))\<rparr>"

definition sample_picture :: "nat texture" where
  "sample_picture = (texture_new 5)\<lparr>tex_width := 6, tex_height := 4, tex_format := AV_BGRA\<rparr>"


end
