(* ===== verification/SideData.thy ===== *)
theory SideData
  imports Frame
begin

text \<open>
  What the worker threads of \<open>EncoderFFmpeg\<close> and \<open>DecoderFFmpeg\<close> share: each input gets the next presentation number and
  leaves its cursor and time stamps in \<open>extraDataList\<close> under that number; what the codec returns with a number takes
  the entry out again. The lemmas are about any codec, which may reorder, delay and drop.

  \<open>taken\<close> is every input so far and \<open>outs\<close> every result of the codec, its number first, with what it became.
\<close>

definition pending :: "'a frame_of list \<Rightarrow> ((int \<times> 'd) \<times> 'o) list \<Rightarrow> nat list" where
  "pending taken outs = filter (\<lambda>i. int i \<notin> (fst \<circ> fst) ` set outs) [0..<length taken]"

definition remembered :: "'a frame_of list \<Rightarrow> nat \<Rightarrow> int frame_of" where
  "remembered taken i = getOtherType (taken ! i) (int i)"

definition sd_inv :: "('a frame_of \<Rightarrow> 'd \<Rightarrow> 'o \<Rightarrow> bool) \<Rightarrow> int \<Rightarrow> int frame_of list \<Rightarrow> 'a frame_of list \<Rightarrow>
    ((int \<times> 'd) \<times> 'o) list \<Rightarrow> bool" where
  "sd_inv R n xs taken outs \<longleftrightarrow> n = int (length taken) \<and> xs = map (remembered taken) (pending taken outs) \<and>
     distinct (map (fst \<circ> fst) outs) \<and>
     (\<forall>pts d out. ((pts, d), out) \<in> set outs \<longrightarrow> 0 \<le> pts \<and> pts < int (length taken) \<and> R (taken ! nat pts) d out)"

lemma take_first_filter:
  "take_first Q xs = Some (y, ys) \<Longrightarrow> distinct (map h xs) \<Longrightarrow> (\<And>x. Q x \<longleftrightarrow> h x = p) \<Longrightarrow> ys = filter (\<lambda>x. h x \<noteq> p) xs"
proof (induction xs arbitrary: ys)
  case (Cons x xs)
  show ?case
  proof (cases "Q x")
    case True
    with Cons.prems have "h x = p" "ys = xs" "p \<notin> h ` set xs" by auto
    then have "h y \<noteq> p" if "y \<in> set xs" for y using that by (metis imageI)
    then have "filter (\<lambda>x. h x \<noteq> p) xs = xs" by (intro filter_True) auto
    with \<open>h x = p\<close> \<open>ys = xs\<close> show ?thesis by simp
  next
    case False
    with Cons show ?thesis by (auto split: option.splits)
  qed
qed simp

lemma remembered_desktop [simp]: "desktop (remembered taken i) = int i"
  by (simp add: remembered_def)

lemma sd_start: "sd_inv R 0 [] [] []"
  by (simp add: sd_inv_def pending_def)

lemma sd_outD:
  "sd_inv R n xs taken outs \<Longrightarrow> ((pts, d), out) \<in> set outs \<Longrightarrow> 0 \<le> pts \<and> pts < int (length taken) \<and> R (taken ! nat pts) d out"
  unfolding sd_inv_def by blast

lemma sd_pending:
  "sd_inv R n xs taken outs \<Longrightarrow> map desktop xs = map int (filter (\<lambda>i. int i \<notin> (fst \<circ> fst) ` set outs) [0..<length taken])"
  by (simp add: sd_inv_def pending_def comp_def)

lemma sd_take_extra:
  assumes inv: "sd_inv R n xs taken outs" and tf: "take_first (\<lambda>x. desktop x = pts) xs = Some (extra, rest)"
  obtains i where "i \<in> set (pending taken outs)" "pts = int i" "extra = getOtherType (taken ! nat pts) pts"
    "rest = map (remembered taken) (filter (\<lambda>i. int i \<noteq> pts) (pending taken outs))"
proof -
  have ext: "xs = map (remembered taken) (pending taken outs)" using inv by (simp add: sd_inv_def)
  have d: "distinct (map desktop xs)" by (simp add: ext comp_def pending_def distinct_map inj_on_def)
  have "rest = filter (\<lambda>x. desktop x \<noteq> pts) xs" by (rule take_first_filter [OF tf d]) simp
  then have rest: "rest = map (remembered taken) (filter (\<lambda>i. int i \<noteq> pts) (pending taken outs))"
    by (simp add: ext filter_map comp_def)
  from take_first_SomeD [OF tf] have "extra \<in> set xs" "desktop extra = pts" by auto
  then obtain i where i: "i \<in> set (pending taken outs)" "extra = remembered taken i" "pts = int i" by (auto simp: ext)
  then have "extra = getOtherType (taken ! nat pts) pts" by (simp add: remembered_def)
  with i rest that show ?thesis by blast
qed

lemma sd_take:
  assumes inv: "sd_inv R n xs taken outs" and tf: "take_first (\<lambda>x. desktop x = pts) xs = Some (extra, rest)"
    and R: "R (taken ! nat pts) d out"
  shows "sd_inv R n rest taken (outs @ [((pts, d), out)])"
proof -
  obtain i where i: "i \<in> set (pending taken outs)" "pts = int i"
    and rest: "rest = map (remembered taken) (filter (\<lambda>i. int i \<noteq> pts) (pending taken outs))"
    using sd_take_extra [OF inv tf] by metis
  then have fresh: "pts \<notin> (fst \<circ> fst) ` set outs" "0 \<le> pts" "pts < int (length taken)" by (auto simp: pending_def)
  have "pending taken (outs @ [((pts, d), out)]) = filter (\<lambda>i. int i \<noteq> pts) (pending taken outs)"
    by (simp add: pending_def conj_commute)
  with inv rest fresh R show ?thesis by (auto simp: sd_inv_def)
qed

lemma sd_put:
  assumes inv: "sd_inv R n xs taken outs"
  shows "sd_inv R (n + 1) (xs @ [getOtherType f n]) (taken @ [f]) outs"
proof -
  let ?T = "taken @ [f]"
  have n: "n = int (length taken)" using inv by (simp add: sd_inv_def)
  have "int (length taken) \<notin> (fst \<circ> fst) ` set outs" using sd_outD [OF inv] by fastforce
  then have p: "pending ?T outs = pending taken outs @ [length taken]" by (simp add: pending_def)
  have "map (remembered ?T) (pending taken outs) = map (remembered taken) (pending taken outs)"
    by (auto simp: remembered_def pending_def nth_append)
  moreover have "remembered ?T (length taken) = getOtherType f n" by (simp add: remembered_def n)
  ultimately have "xs @ [getOtherType f n] = map (remembered ?T) (pending ?T outs)"
    using inv by (simp add: p sd_inv_def)
  moreover have "0 \<le> pts \<and> pts < int (length ?T) \<and> R (?T ! nat pts) d out" if "((pts, d), out) \<in> set outs" for pts d out
  proof -
    from sd_outD [OF inv that] have "0 \<le> pts" "pts < int (length taken)" "R (taken ! nat pts) d out" by auto
    then show ?thesis by (simp add: nth_append nat_less_iff)
  qed
  ultimately show ?thesis using inv unfolding sd_inv_def by auto
qed

end
