(* ===== verification/EncoderFFmpeg.thy ===== *)
theory EncoderFFmpeg
  imports ScaleSoftware SideData
begin

text \<open>
  \<open>EncoderFFmpeg\<close> of \<open>src/src/server/platform/software/EncoderFFmpeg.h\<close> and \<open>.cpp\<close>: one frame slot in front of a
  worker thread, one packet queue behind it. The worker gives each frame it takes the next presentation
  number, remembers the frame's cursor and time stamps under it, and puts them back on the packet that carries
  the number.

  A call that waits on a condition variable is \<open>Blocked\<close> in the states in which it has to wait. The thread
  is \<open>Idle\<close> (never started or joined), \<open>Working\<close> or \<open>Ended\<close>. FFmpeg's codec and muxer are the record \<open>ffmpeg\<close>; textures are
  values here, their slots are the subject of the theory \<open>TextureArena\<close>.
\<close>

subsection \<open>FFmpeg's part\<close>

record codec_config =
  cc_bit_rate :: int
  cc_max_rate :: int
  cc_min_rate :: int
  cc_thread_count :: int
  cc_pix_fmt :: pix_fmt
  cc_width :: int
  cc_height :: int
  cc_gop_size :: int
  cc_time_base :: "int \<times> int"
  cc_options :: "(string \<times> string) list"

record 'px av_frame =
  fr_format :: pix_fmt
  fr_width :: int
  fr_height :: int
  fr_pts :: int
  fr_linesize :: "int list"
  fr_crop_bottom :: int
  fr_crop_right :: int
  fr_pixels :: 'px

datatype receive_result = R_EOF | R_PACKET (r_pts: int) (r_data: bytes) (r_key: bool) | R_AGAIN | R_ERROR

record ('c, 'px) ffmpeg =
  ff_alloc_context :: bool
  ff_dict_set :: "string \<Rightarrow> string \<Rightarrow> int"
  ff_open :: "codec_config \<Rightarrow> int \<times> 'c"
  ff_receive :: "'c \<Rightarrow> receive_result \<times> 'c"
  ff_send_frame :: "'px av_frame \<Rightarrow> 'c \<Rightarrow> int \<times> 'c"
  ff_dr1 :: bool
  ff_align :: "int \<Rightarrow> int \<Rightarrow> int \<times> int \<times> int list"
  ff_buffer_size :: "pix_fmt \<Rightarrow> int \<Rightarrow> int \<Rightarrow> int"
  ff_fill_pointers :: "pix_fmt \<Rightarrow> int \<Rightarrow> int list \<Rightarrow> int"
  mux_alloc :: int
  mux_new_stream :: bool
  mux_open :: int
  mux_header :: int
  mux_frame :: int
  mux_trailer :: int
  mux_close :: int

subsection \<open>The encoder\<close>

record ('c, 'px) ff_encoder =
  ff_flagRun :: bool
  ff_width :: int
  ff_height :: int
  ff_framerate :: rational
  ff_avctx :: "(codec_config \<times> 'c) option"
  ff_thread :: thread_state
  nextFrame :: "'px texture frame_of"
  packetQueue :: "bytes frame_of list"
  flagNextFrameAvailable :: bool
  flagNextPacketAvailable :: bool

definition ff_new :: "bool \<Rightarrow> 'px \<Rightarrow> ('c, 'px) ff_encoder res" where
  "ff_new found none =
     rbind (assert_quit found ''Failed to find libvpx encoder'') (\<lambda>_.
       Inr \<lparr>ff_flagRun = False, ff_width = -1, ff_height = -1, ff_framerate = rat_default, ff_avctx = None, ff_thread = Idle,
            nextFrame = frame_init (texture_new none), packetQueue = [],
            flagNextFrameAvailable = False, flagNextPacketAvailable = False\<rparr>)"

definition ff_destroy :: "('c, 'px) ff_encoder \<Rightarrow> thread_state res" where
  "ff_destroy e = rbind (assert_quit (\<not> ff_flagRun e) ''Being destructed while running!'') (\<lambda>_. join_thread (ff_thread e))"

definition ff_setMode :: "int \<Rightarrow> int \<Rightarrow> rational \<Rightarrow> ('c, 'px) ff_encoder \<Rightarrow> ('c, 'px) ff_encoder" where
  "ff_setMode w h fps e = e\<lparr>ff_width := w, ff_height := h, ff_framerate := fps\<rparr>"

definition ff_config :: "('c, 'px) ff_encoder \<Rightarrow> codec_config" where
  "ff_config e =
     \<lparr>cc_bit_rate = 7 * 1024 * 1024, cc_max_rate = 8 * 1024 * 1024, cc_min_rate = 500 * 1024, cc_thread_count = 4,
      cc_pix_fmt = AV_YUV420P, cc_width = ff_width e, cc_height = ff_height e, cc_gop_size = 120,
      cc_time_base = (den (ff_framerate e), num (ff_framerate e)),
      cc_options = [(''deadline'', ''good''), (''cpu-used'', ''12''), (''slices'', ''8'')]\<rparr>"

definition ff_start :: "('c, 'px) ffmpeg \<Rightarrow> ('c, 'px) ff_encoder \<Rightarrow> ('c, 'px) ff_encoder res" where
  "ff_start F e =
     rbind (assert_quit (0 < ff_width e \<and> 0 < ff_height e) ''Size not set before start!'') (\<lambda>_.
     rbind (assert_quit (\<not> ff_flagRun e) ''Not stopped before start!'') (\<lambda>_.
     rbind (join_thread (ff_thread e)) (\<lambda>t.
     let e1 = e\<lparr>ff_thread := t, flagNextFrameAvailable := False, flagNextPacketAvailable := False, ff_avctx := None\<rparr> in
     rbind (assert_quit (ff_alloc_context F) ''Failed to allocate codec context'') (\<lambda>_.
     rbind (assert_quit (ff_dict_set F ''deadline'' ''good'' = 0) ''Failed to set deadline=realtime'') (\<lambda>_.
     rbind (assert_quit (ff_dict_set F ''cpu-used'' ''12'' = 0) ''Failed to set cpu-used=12'') (\<lambda>_.
     rbind (assert_quit (ff_dict_set F ''slices'' ''8'' = 0) ''Failed to set slices=8'') (\<lambda>_.
     let (err, c) = ff_open F (ff_config e1) in
     rbind (assert_quit (err = 0) ''Failed to open codec'') (\<lambda>_.
     rbind (assert_quit (\<not> ff_flagRun e1) ''Trying to start when running!'') (\<lambda>_.
       Inr (e1\<lparr>ff_avctx := Some (ff_config e1, c), ff_flagRun := True, ff_thread := Working\<rparr>))))))))))"

definition ff_stop :: "('c, 'px) ff_encoder \<Rightarrow> ('c, 'px) ff_encoder res" where
  "ff_stop e =
     rbind (assert_quit (ff_flagRun e) ''Trying to stop when not running!'') (\<lambda>_. Inr (e\<lparr>ff_flagRun := False\<rparr>))"

text \<open>The frame is dropped when the encoder is not running. The flag is what \<open>pushFrame\<close> did with the frame.\<close>

definition ff_pushFrame :: "'px texture frame_of \<Rightarrow> ('c, 'px) ff_encoder \<Rightarrow> (bool \<times> ('c, 'px) ff_encoder) res" where
  "ff_pushFrame frame e =
     (if flagNextFrameAvailable e \<and> ff_flagRun e then Inl Blocked
      else if \<not> ff_flagRun e then Inr (False, e)
      else Inr (True, e\<lparr>nextFrame := frame, flagNextFrameAvailable := True\<rparr>))"

definition ff_readData :: "('c, 'px) ff_encoder \<Rightarrow> (bytes frame_of option \<times> ('c, 'px) ff_encoder) res" where
  "ff_readData e =
     (if packetQueue e = [] \<and> ff_flagRun e then Inl Blocked
      else if \<not> ff_flagRun e then Inr (None, e)
      else Inr (Some (hd (packetQueue e)), e\<lparr>packetQueue := tl (packetQueue e)\<rparr>))"

subsection \<open>The worker thread\<close>

record ff_worker =
  w_pts :: int
  extraDataList :: "int frame_of list"

text \<open>Line sizes are rounded up to the codec's alignment, up to the first one that is 0; an alignment of 0 divides by zero.\<close>

fun align_linesizes :: "int list \<Rightarrow> int list \<Rightarrow> int list res" where
  "align_linesizes (l # ls) (a # as) =
     (if l = 0 then Inr (l # ls)
      else if a = 0 then Inl Undef
      else rbind (align_linesizes ls as) (\<lambda>ls'. Inr ((if c_mod l a \<noteq> 0 then l + (a - c_mod l a) else l) # ls')))"
| "align_linesizes ls as = Inr ls"

definition ff_prepare :: "('c, 'px) ffmpeg \<Rightarrow> ('c, 'px) ff_encoder \<Rightarrow> int \<Rightarrow> 'px texture frame_of \<Rightarrow> 'px av_frame res" where
  "ff_prepare F e pts frame =
     (let t = desktop frame;
          fr = \<lparr>fr_format = tex_format t, fr_width = ff_width e, fr_height = ff_height e, fr_pts = pts,
                fr_linesize = take 4 (tex_linesize t) @ [0, 0, 0, 0], fr_crop_bottom = 0, fr_crop_right = 0, fr_pixels = pixels t\<rparr> in
      rbind (if ff_dr1 F
             then (let (w, h, al) = ff_align F (fr_width fr) (fr_height fr) in
                   rbind (align_linesizes (fr_linesize fr) al) (\<lambda>ls.
                     Inr (fr\<lparr>fr_width := w, fr_height := h, fr_crop_bottom := h - ff_height e, fr_crop_right := w - ff_width e,
                             fr_linesize := ls\<rparr>)))
             else Inr fr) (\<lambda>fr.
      let bufferSize = ff_buffer_size F (tex_format t) (fr_width fr) (fr_height fr) + 64;
          need = ff_fill_pointers F (fr_format fr) (fr_height fr) (fr_linesize fr) in
      rbind (assert_quit (0 \<le> bufferSize) ''Failed to get image buffer size'') (\<lambda>_.
      rbind (assert_quit (0 \<le> need) ''Failed to fill pointers for image'') (\<lambda>_.
      rbind (assert_quit (need \<le> bufferSize) ''Buffer size calculated is not bug enough for image!'') (\<lambda>_. Inr fr)))))"

text \<open>A packet: the entry with its number leaves the list and becomes the packet's frame.\<close>

definition ff_packet :: "('c, 'px) ffmpeg \<Rightarrow> int \<Rightarrow> int \<Rightarrow> bytes \<Rightarrow> bool \<Rightarrow> ff_worker \<Rightarrow> (bytes frame_of \<times> ff_worker) res" where
  "ff_packet F now pts data key w =
     (case take_first (\<lambda>x. desktop x = pts) (extraDataList w) of
        None \<Rightarrow> error_quit ''Failed to find matching extra data for {}''
      | Some (extra, rest) \<Rightarrow>
          rbind (assert_quit (0 \<le> desktop extra) ''Failed to find matching extra data for {}'') (\<lambda>_.
          rbind (assert_quit (mux_frame F = 0) ''Failed to write frame to file'') (\<lambda>_.
            Inr ((getOtherType extra data)\<lparr>isIDR := key, timeEncoded := now\<rparr>, w\<lparr>extraDataList := rest\<rparr>))))"

text \<open>A frame: checked against the configuration, numbered, its data remembered, and sent to the codec.\<close>

definition ff_frame :: "('c, 'px) ffmpeg \<Rightarrow> codec_config \<Rightarrow> ('c, 'px) ff_encoder \<Rightarrow> 'c \<Rightarrow> ff_worker \<Rightarrow>
    (int \<times> 'c \<times> ff_worker) res" where
  "ff_frame F cfg e c w =
     (let frame = nextFrame e; t = desktop frame in
      rbind (assert_quit (tex_width t = ff_width e) ''Frame size does not match configuration!'') (\<lambda>_.
      rbind (assert_quit (tex_height t = ff_height e) ''Frame size does not match configuration!'') (\<lambda>_.
      rbind (assert_quit (tex_format t = cc_pix_fmt cfg) ''Frame pix_fmt does not match configuration!'') (\<lambda>_.
      rbind (ff_prepare F e (w_pts w) frame) (\<lambda>fr.
      let (err, c') = ff_send_frame F fr c in
        Inr (err, c', w\<lparr>w_pts := w_pts w + 1, extraDataList := extraDataList w @ [getOtherType frame (w_pts w)]\<rparr>))))))"

text \<open>Before the loop: the debugging muxer is opened; after it, the trailer is written and the file closed.\<close>

definition ff_run_open :: "('c, 'px) ffmpeg \<Rightarrow> ('c, 'px) ff_encoder \<Rightarrow> ff_worker res" where
  "ff_run_open F e =
     rbind (assert_quit (0 \<le> mux_alloc F) ''Failed to allocate avformat context'') (\<lambda>_.
     rbind (assert_quit (mux_new_stream F) ''Failed to mux new stream'') (\<lambda>_.
     rbind (rat_inv (ff_framerate e)) (\<lambda>_.
     rbind (assert_quit (0 \<le> mux_open F) ''Failed to open output'') (\<lambda>_.
     rbind (assert_quit (0 \<le> mux_header F) ''Failed to write hedaer'') (\<lambda>_.
       Inr \<lparr>w_pts = 0, extraDataList = []\<rparr>)))))"

definition ff_run_close :: "('c, 'px) ffmpeg \<Rightarrow> ('c, 'px) ff_encoder \<Rightarrow> ('c, 'px) ff_encoder res" where
  "ff_run_close F e =
     rbind (assert_quit (0 \<le> mux_trailer F) ''Failed to write trailer'') (\<lambda>_.
     rbind (assert_quit (0 \<le> mux_close F) ''Failed to close avio context'') (\<lambda>_. Inr (e\<lparr>ff_thread := Ended\<rparr>)))"

text \<open>One round of \<open>run_\<close>'s loop. The flag says whether the loop goes on; a round that has to wait
  for a frame is \<open>Blocked\<close> and taken again when the state has changed.\<close>

definition ff_run_round :: "('c, 'px) ffmpeg \<Rightarrow> int \<Rightarrow> ('c, 'px) ff_encoder \<times> ff_worker \<Rightarrow> (bool \<times> ('c, 'px) ff_encoder \<times> ff_worker) res" where
  "ff_run_round F now s =
     (case s of (e, w) \<Rightarrow>
      if \<not> ff_flagRun e then Inr (False, e, w)
      else (case ff_avctx e of
          None \<Rightarrow> Inl Undef
        | Some (cfg, c) \<Rightarrow>
            (case ff_receive F c of
               (R_EOF, c') \<Rightarrow> Inr (False, e\<lparr>ff_avctx := Some (cfg, c')\<rparr>, w)
             | (R_PACKET pts data key, c') \<Rightarrow>
                 rbind (ff_packet F now pts data key w) (\<lambda>(out, w').
                   Inr (True, e\<lparr>ff_avctx := Some (cfg, c'), packetQueue := packetQueue e @ [out]\<rparr>, w'))
             | (R_AGAIN, c') \<Rightarrow>
                 (if \<not> flagNextFrameAvailable e then Inl Blocked
                  else rbind (ff_frame F cfg e c' w) (\<lambda>(err, c'', w').
                    Inr (err = 0, e\<lparr>ff_avctx := Some (cfg, c''), flagNextFrameAvailable := False\<rparr>, w')))
             | (R_ERROR, c') \<Rightarrow> error_quit ''Unknown error from encoder!'')))"


subsection \<open>A run of the worker\<close>

text \<open>
  \<open>ff_run F (e, w, taken, outs)\<close>: the encoder and its worker after some calls and rounds since the thread started;
  \<open>taken\<close> is every frame the worker took, \<open>outs\<close> every packet the codec gave and the frame it became.
\<close>

type_synonym packet_in = "int \<times> bytes \<times> bool"

definition codec_packet :: "('c, 'px) ffmpeg \<Rightarrow> ('c, 'px) ff_encoder \<Rightarrow> packet_in list" where
  "codec_packet F e =
     (case ff_avctx e of
        None \<Rightarrow> []
      | Some (cfg, c) \<Rightarrow> (case fst (ff_receive F c) of R_PACKET pts data key \<Rightarrow> [(pts, data, key)] | _ \<Rightarrow> []))"

inductive ff_run :: "('c, 'px) ffmpeg \<Rightarrow> ('c, 'px) ff_encoder \<times> ff_worker \<times> 'px texture frame_of list \<times>
    (packet_in \<times> bytes frame_of) list \<Rightarrow> bool" for F where
  run_begins: "ff_run_open F e = Inr w \<Longrightarrow> ff_run F (e, w, [], [])"
| run_push: "ff_run F (e, w, taken, outs) \<Longrightarrow> ff_pushFrame frame e = Inr (b, e') \<Longrightarrow> ff_run F (e', w, taken, outs)"
| run_read: "ff_run F (e, w, taken, outs) \<Longrightarrow> ff_readData e = Inr (r, e') \<Longrightarrow> ff_run F (e', w, taken, outs)"
| run_mode: "ff_run F (e, w, taken, outs) \<Longrightarrow> ff_run F (ff_setMode wd ht fps e, w, taken, outs)"
| run_stops: "ff_run F (e, w, taken, outs) \<Longrightarrow> ff_stop e = Inr e' \<Longrightarrow> ff_run F (e', w, taken, outs)"
| run_goes: "ff_run F (e, w, taken, outs) \<Longrightarrow> ff_flagRun e \<Longrightarrow> ff_run_round F now (e, w) = Inr (go, e', w') \<Longrightarrow>
    ff_run F (e', w', taken @ (if flagNextFrameAvailable e \<and> \<not> flagNextFrameAvailable e' then [nextFrame e] else []),
      outs @ zip (codec_packet F e) (drop (length (packetQueue e)) (packetQueue e')))"

definition carried :: "'px texture frame_of \<Rightarrow> bytes \<times> bool \<Rightarrow> bytes frame_of \<Rightarrow> bool" where
  "carried f d out \<longleftrightarrow> out = (getOtherType f (fst d))\<lparr>isIDR := snd d, timeEncoded := timeEncoded out\<rparr>"

definition run_inv :: "ff_worker \<Rightarrow> 'px texture frame_of list \<Rightarrow> (packet_in \<times> bytes frame_of) list \<Rightarrow> bool" where
  "run_inv w taken outs = sd_inv carried (w_pts w) (extraDataList w) taken outs"

lemma carriedD:
  assumes "carried f d out"
  shows "desktop out = fst d" "isIDR out = snd d" "cursorPos out = cursorPos f" "cursorShape out = cursorShape f"
    "timeCaptured out = timeCaptured f"
proof -
  from assms obtain x where "out = (getOtherType f (fst d))\<lparr>isIDR := snd d, timeEncoded := x\<rparr>" unfolding carried_def by blast
  then show "desktop out = fst d" "isIDR out = snd d" "cursorPos out = cursorPos f" "cursorShape out = cursorShape f"
    "timeCaptured out = timeCaptured f" by simp_all
qed

lemma ff_packet_inv:
  assumes inv: "run_inv w taken outs" and p: "ff_packet F now pts data key w = Inr (out, w')"
  shows "run_inv w' taken (outs @ [((pts, data, key), out)])"
proof -
  from p obtain extra rest where tf: "take_first (\<lambda>x. desktop x = pts) (extraDataList w) = Some (extra, rest)"
    and o: "out = (getOtherType extra data)\<lparr>isIDR := key, timeEncoded := now\<rparr>" and w': "w' = w\<lparr>extraDataList := rest\<rparr>"
    by (auto simp: ff_packet_def rbind_eq_Inr error_quit_def split: option.splits)
  note inv' = inv [unfolded run_inv_def]
  have "extra = getOtherType (taken ! nat pts) pts" using sd_take_extra [OF inv' tf] by metis
  with o have "carried (taken ! nat pts) (data, key) out" by (simp add: carried_def)
  from sd_take [OF inv' tf, of "(data, key)", OF this] show ?thesis by (simp add: run_inv_def w')
qed

lemma ff_frame_inv:
  assumes inv: "run_inv w taken outs" and f: "ff_frame F cfg e c w = Inr (err, c', w')"
  shows "run_inv w' (taken @ [nextFrame e]) outs"
proof -
  from f have "w' = w\<lparr>w_pts := w_pts w + 1, extraDataList := extraDataList w @ [getOtherType (nextFrame e) (w_pts w)]\<rparr>"
    by (auto simp: ff_frame_def rbind_eq_Inr Let_def split_def)
  with sd_put [OF inv [unfolded run_inv_def], of "nextFrame e"] show ?thesis by (simp add: run_inv_def)
qed

lemma ff_round_inv:
  assumes inv: "run_inv w taken outs" and run: "ff_flagRun e" and r: "ff_run_round F now (e, w) = Inr (go, e', w')"
  shows "run_inv w' (taken @ (if flagNextFrameAvailable e \<and> \<not> flagNextFrameAvailable e' then [nextFrame e] else []))
      (outs @ zip (codec_packet F e) (drop (length (packetQueue e)) (packetQueue e')))"
proof -
  from run r obtain cfg c where ctx: "ff_avctx e = Some (cfg, c)"
    by (auto simp: ff_run_round_def split: option.splits)
  obtain res c1 where rc: "ff_receive F c = (res, c1)" by fastforce
  show ?thesis
  proof (cases res)
    case R_EOF
    with run r ctx rc inv show ?thesis by (auto simp: ff_run_round_def codec_packet_def)
  next
    case (R_PACKET pts data key)
    with run r ctx rc obtain out where "ff_packet F now pts data key w = Inr (out, w')"
      "e' = e\<lparr>ff_avctx := Some (cfg, c1), packetQueue := packetQueue e @ [out]\<rparr>"
      by (auto simp: ff_run_round_def rbind_eq_Inr)
    with R_PACKET ctx rc ff_packet_inv [OF inv] show ?thesis by (auto simp: codec_packet_def)
  next
    case R_AGAIN
    with run r ctx rc obtain err c2 where "ff_frame F cfg e c1 w = Inr (err, c2, w')" "flagNextFrameAvailable e"
      "e' = e\<lparr>ff_avctx := Some (cfg, c2), flagNextFrameAvailable := False\<rparr>"
      by (auto simp: ff_run_round_def rbind_eq_Inr split: if_splits)
    with R_AGAIN ctx rc ff_frame_inv [OF inv] show ?thesis by (auto simp: codec_packet_def)
  next
    case R_ERROR
    with run r ctx rc show ?thesis by (auto simp: ff_run_round_def error_quit_def)
  qed
qed

lemma ff_run_inv: "ff_run F (e, w, taken, outs) \<Longrightarrow> run_inv w taken outs"
proof (induction "(e, w, taken, outs)" arbitrary: e w taken outs rule: ff_run.induct)
  case (run_begins e w)
  then show ?case by (auto simp: ff_run_open_def rbind_eq_Inr run_inv_def sd_start)
next
  case (run_goes e w taken outs now go e' w')
  then show ?case using ff_round_inv by blast
qed

subsection \<open>A packet gets its own frame's data\<close>



text \<open>A codec that returns a one-byte packet for each frame it was sent, in order; its state is the list of numbers it holds.\<close>

definition sample_ffmpeg :: "(int list, nat) ffmpeg" where
  "sample_ffmpeg =
     \<lparr>ff_alloc_context = True, ff_dict_set = (\<lambda>_ _. 0), ff_open = (\<lambda>_. (0, [])),
      ff_receive = (\<lambda>c. case c of [] \<Rightarrow> (R_AGAIN, []) | p # ps \<Rightarrow> (R_PACKET p [7] (p = 0), ps)),
      ff_send_frame = (\<lambda>fr c. (0, c @ [fr_pts fr])), ff_dr1 = False, ff_align = (\<lambda>w h. (w, h, [])),
      ff_buffer_size = (\<lambda>_ w h. 2 * w * h), ff_fill_pointers = (\<lambda>_ h ls. h * ls ! 0),
      mux_alloc = 0, mux_new_stream = True, mux_open = 0, mux_header = 0, mux_frame = 0, mux_trailer = 0, mux_close = 0\<rparr>"

definition sample_frame :: "nat texture frame_of" where
  "sample_frame = (frame_init ((texture_new 5)\<lparr>tex_width := 4, tex_height := 2, tex_format := AV_YUV420P,
     tex_linesize := [4, 2, 2, 0]\<rparr>))\<lparr>timeCaptured := 99\<rparr>"

definition sample_encoder :: "(int list, nat) ff_encoder" where
  "sample_encoder = (case rbind (ff_new True 0) (\<lambda>e. ff_start sample_ffmpeg (ff_setMode 4 2 \<lparr>num = 60, den = 1\<rparr> e)) of
     Inr e \<Rightarrow> e | Inl _ \<Rightarrow> \<lparr>ff_flagRun = False, ff_width = 0, ff_height = 0, ff_framerate = rat_default, ff_avctx = None, ff_thread = Idle,
            nextFrame = sample_frame, packetQueue = [], flagNextFrameAvailable = False, flagNextPacketAvailable = False\<rparr>)"

lemmas ff_eval = sample_encoder_def sample_ffmpeg_def sample_frame_def ff_new_def ff_start_def ff_setMode_def ff_config_def
  ff_run_open_def ff_pushFrame_def ff_run_round_def ff_frame_def ff_prepare_def ff_packet_def codec_packet_def rat_inv_def rational_new_def
  join_thread_def frame_init_def texture_new_def getOtherType_def Let_def

lemma sample_ff_run:
  "\<exists>e w. ff_run sample_ffmpeg (e, w, [sample_frame],
     [((0, [7], True), (getOtherType sample_frame [7])\<lparr>isIDR := True, timeEncoded := 200\<rparr>)])"
proof -
  define e0 where "e0 = sample_encoder\<lparr>nextFrame := sample_frame, flagNextFrameAvailable := True\<rparr>"
  define e1 where "e1 = e0\<lparr>ff_avctx := Some (ff_config sample_encoder, [0]), flagNextFrameAvailable := False\<rparr>"
  define out :: "bytes frame_of" where "out = (getOtherType sample_frame [7])\<lparr>isIDR := True, timeEncoded := 200\<rparr>"
  define e2 where "e2 = e1\<lparr>ff_avctx := Some (ff_config sample_encoder, []), packetQueue := [out]\<rparr>"
  define w1 where "w1 = \<lparr>w_pts = 1, extraDataList = [getOtherType sample_frame 0]\<rparr>"
  have "ff_run_open sample_ffmpeg sample_encoder = Inr \<lparr>w_pts = 0, extraDataList = []\<rparr>"
    "ff_pushFrame sample_frame sample_encoder = Inr (True, e0)"
    by (simp_all add: e0_def ff_eval)
  then have r0: "ff_run sample_ffmpeg (e0, \<lparr>w_pts = 0, extraDataList = []\<rparr>, [], [])"
    by (intro run_push [OF run_begins])
  have "ff_flagRun e0" "ff_run_round sample_ffmpeg 100 (e0, \<lparr>w_pts = 0, extraDataList = []\<rparr>) = Inr (True, e1, w1)"
    by (simp_all add: e0_def e1_def w1_def ff_eval)
  from run_goes [OF r0 this] have r1: "ff_run sample_ffmpeg (e1, w1, [sample_frame], [])"
    by (simp add: e0_def e1_def codec_packet_def ff_eval)
  have "ff_flagRun e1" "ff_run_round sample_ffmpeg 200 (e1, w1) = Inr (True, e2, \<lparr>w_pts = 1, extraDataList = []\<rparr>)"
    by (simp_all add: e0_def e1_def e2_def out_def w1_def ff_eval)
  from run_goes [OF r1 this] have "ff_run sample_ffmpeg (e2, \<lparr>w_pts = 1, extraDataList = []\<rparr>, [sample_frame], [((0, [7], True), out)])"
    by (simp add: e0_def e1_def e2_def codec_packet_def ff_eval)
  then show ?thesis unfolding out_def by blast
qed


end
