(* ===== verification/QPCTimer.thy ===== *)
theory QPCTimer
  imports RationalNum
begin

text \<open>
  \<open>QPCTimer\<close> of \<open>src/src/common/platform/windows/QPCTimer.h\<close> and \<open>.cpp\<close>: paces the encoder threads. All fields are
  unsigned 64-bit words, and the products wrap. The performance counter's value and frequency are parameters. The constructor stores the
  frequency of the counter in the static variable \<open>qpcFreq\<close> and clears one field; the others are indeterminate until \<open>setFrequency\<close>.
\<close>

record qpc_timer =
  intervalNumerator :: u64
  intervalDenominator :: u64
  referencePoint :: u64
  ticks :: u64

definition qpc_new :: "u64 \<Rightarrow> qpc_timer \<Rightarrow> u64 \<times> qpc_timer" where
  "qpc_new freq garbage = (freq, garbage\<lparr>referencePoint := 0\<rparr>)"

definition setFrequency :: "u64 \<Rightarrow> u64 \<Rightarrow> rational \<Rightarrow> qpc_timer" where
  "setFrequency qpcFreq now freq =
     \<lparr>intervalNumerator = word_of_int (num freq), intervalDenominator = word_of_int (den freq) * qpcFreq,
      referencePoint = now, ticks = 0\<rparr>"

definition setInterval :: "u64 \<Rightarrow> u64 \<Rightarrow> rational \<Rightarrow> qpc_timer res" where
  "setInterval qpcFreq now interval = rbind (rat_inv interval) (\<lambda>freq. Inr (setFrequency qpcFreq now freq))"

definition checkInterval :: "u64 \<Rightarrow> qpc_timer \<Rightarrow> (bool \<times> qpc_timer) res" where
  "checkInterval now t =
     (if intervalDenominator t = 0 then Inl Undef
      else (let diff = now - referencePoint t;
                nowTick = diff * intervalNumerator t div intervalDenominator t in
            if ticks t \<le> nowTick then Inr (True, t\<lparr>ticks := nowTick + 1\<rparr>) else Inr (False, t)))"

fun checks :: "u64 list \<Rightarrow> qpc_timer \<Rightarrow> bool list res" where
  "checks [] t = Inr []"
| "checks (now # ts) t =
     rbind (checkInterval now t) (\<lambda>(b, t'). rbind (checks ts t') (\<lambda>bs. Inr (b # bs)))"

text \<open>The interval a counter value falls into.\<close>

definition interval_of :: "nat \<Rightarrow> nat \<Rightarrow> rational \<Rightarrow> nat \<Rightarrow> nat" where
  "interval_of freq start fps x = (x - start) * nat (num fps) div (nat (den fps) * freq)"

definition timer_fits :: "nat \<Rightarrow> nat \<Rightarrow> rational \<Rightarrow> nat \<Rightarrow> bool" where
  "timer_fits freq start fps x \<longleftrightarrow> start \<le> x \<and> x < 2 ^ 64 \<and> (x - start) * nat (num fps) < 2 ^ 64 - 1 \<and> 0 < freq \<and> nat (den fps) * freq < 2 ^ 64"

lemma checkInterval_eq:
  assumes f: "timer_fits freq start fps x" and r: "rat_ok fps" and t: "unat (ticks t) = n"
    and s: "intervalNumerator t = word_of_int (num fps)" "intervalDenominator t = word_of_int (den fps) * of_nat freq"
      "referencePoint t = of_nat start"
  shows "\<exists>t'. checkInterval (of_nat x) t = Inr (n \<le> interval_of freq start fps x, t') \<and>
    unat (ticks t') = (if n \<le> interval_of freq start fps x then interval_of freq start fps x + 1 else n) \<and>
    intervalNumerator t' = intervalNumerator t \<and> intervalDenominator t' = intervalDenominator t \<and> referencePoint t' = referencePoint t"
proof -
  have pos: "0 < nat (den fps) * freq" "nat (num fps) < 2 ^ 64"
    using f r by (simp_all add: timer_fits_def rat_ok_def fits32_def nat_less_iff)
  have num: "intervalNumerator t = of_nat (nat (num fps))" "intervalDenominator t = of_nat (nat (den fps) * freq)"
    using r s by (simp_all add: rat_ok_def of_nat_nat)
  have un: "unat (intervalNumerator t) = nat (num fps)" "unat (intervalDenominator t) = nat (den fps) * freq"
    using f pos by (simp_all only: num unat_of_nat) (simp_all add: timer_fits_def)
  have diff: "unat (of_nat x - referencePoint t) = x - start"
    using f by (simp add: s timer_fits_def of_nat_diff [symmetric] unat_of_nat less_imp_diff_less del: of_nat_diff)
  have prod: "unat ((of_nat x - referencePoint t) * intervalNumerator t) = (x - start) * nat (num fps)"
    using f by (subst unat_mult_lem [THEN iffD1]) (simp_all add: diff un timer_fits_def)
  have tick: "unat ((of_nat x - referencePoint t) * intervalNumerator t div intervalDenominator t) = interval_of freq start fps x"
    by (simp add: unat_div prod un interval_of_def)
  have small: "interval_of freq start fps x + 1 < 2 ^ 64"
  proof -
    have "interval_of freq start fps x \<le> (x - start) * nat (num fps)" by (simp add: interval_of_def)
    with f show ?thesis by (simp add: timer_fits_def)
  qed
  have nz: "intervalDenominator t \<noteq> 0" using un(2) pos(1) by (metis less_irrefl unat_0)
  have suc: "unat ((of_nat x - referencePoint t) * intervalNumerator t div intervalDenominator t + 1) = interval_of freq start fps x + 1"
    using small by (subst unat_add_lem [THEN iffD1]) (simp_all add: tick)
  show ?thesis
    using nz t tick suc by (auto simp: checkInterval_def Let_def word_le_nat_alt)
qed

lemma checks_eq:
  assumes "rat_ok fps" and "\<forall>x\<in>set xs. timer_fits freq start fps x" and "unat (ticks t) = n"
    and "intervalNumerator t = word_of_int (num fps)" "intervalDenominator t = word_of_int (den fps) * of_nat freq"
      "referencePoint t = of_nat start"
    and "sorted xs" and "n = 0 \<or> (\<exists>m. n = interval_of freq start fps m + 1 \<and> (\<forall>x\<in>set xs. m \<le> x))"
  shows "\<exists>bs. checks (map of_nat xs) t = Inr bs \<and> length bs = length xs \<and>
    (\<forall>k<length xs. bs ! k = (if k = 0 then n \<le> interval_of freq start fps (xs ! 0)
        else interval_of freq start fps (xs ! (k - 1)) < interval_of freq start fps (xs ! k)))"
  using assms
proof (induction xs arbitrary: t n)
  case Nil
  then show ?case by simp
next
  case (Cons x xs)
  let ?I = "interval_of freq start fps"
  let ?n = "if n \<le> ?I x then ?I x + 1 else n"
  from checkInterval_eq [of freq start fps x t n] Cons.prems obtain t' where
    c: "checkInterval (of_nat x) t = Inr (n \<le> ?I x, t')" "unat (ticks t') = ?n"
      "intervalNumerator t' = word_of_int (num fps)" "intervalDenominator t' = word_of_int (den fps) * of_nat freq"
      "referencePoint t' = of_nat start" by auto
  have mono: "?I a \<le> ?I b" if "a \<le> b" for a b
    using that by (auto simp: interval_of_def intro!: div_le_mono mult_le_mono)
  have nI: "?n = ?I x + 1"
    using Cons.prems(8) mono by force
  have "\<exists>bs. checks (map of_nat xs) t' = Inr bs \<and> length bs = length xs \<and>
    (\<forall>k<length xs. bs ! k = (if k = 0 then ?n \<le> ?I (xs ! 0) else ?I (xs ! (k - 1)) < ?I (xs ! k)))"
    by (rule Cons.IH [OF Cons.prems(1) _ c(2-5)]) (use Cons.prems nI in auto)
  then obtain bs where bs: "checks (map of_nat xs) t' = Inr bs" "length bs = length xs"
    "\<forall>k<length xs. bs ! k = (if k = 0 then ?n \<le> ?I (xs ! 0) else ?I (xs ! (k - 1)) < ?I (xs ! k))" by blast
  have "checks (map of_nat (x # xs)) t = Inr ((n \<le> ?I x) # bs)" using c(1) bs(1) by simp
  moreover have "((n \<le> ?I x) # bs) ! k = (if k = 0 then n \<le> ?I ((x # xs) ! 0) else ?I ((x # xs) ! (k - 1)) < ?I ((x # xs) ! k))"
    if "k < length (x # xs)" for k
    using that bs(3) nI by (cases k; cases "k - 1") auto
  ultimately show ?case using bs(2) by auto
qed

subsection \<open>One shot per interval\<close>

text \<open>After the frequency is set, a check says True exactly when it is the first one or a new interval has begun since
  the previous check, so never twice in one interval however often it is polled, and a missed interval is not
  made up for; as long as the elapsed time multiplied by the frame rate fits 64 bits.\<close>

lemma timer_paces:
  assumes "rat_ok fps" and "sorted xs" and "list_all (timer_fits freq start fps) xs"
  shows "\<exists>bs. checks (map of_nat xs) (setFrequency (of_nat freq) (of_nat start) fps) = Inr bs \<and> length bs = length xs \<and>
    (\<forall>k<length xs. bs ! k = (k = 0 \<or> interval_of freq start fps (xs ! (k - 1)) < interval_of freq start fps (xs ! k)))"
proof -
  have "\<exists>bs. checks (map of_nat xs) (setFrequency (of_nat freq) (of_nat start) fps) = Inr bs \<and> length bs = length xs \<and>
    (\<forall>k<length xs. bs ! k = (if k = 0 then 0 \<le> interval_of freq start fps (xs ! 0)
        else interval_of freq start fps (xs ! (k - 1)) < interval_of freq start fps (xs ! k)))"
    by (rule checks_eq [OF assms(1)]) (use assms(2,3) in \<open>simp_all add: setFrequency_def list_all_iff\<close>)
  then show ?thesis by auto
qed

lemma timer_paces_witness:
  "\<exists>bs. checks (map of_nat [100, 150, 267, 300]) (setFrequency (of_nat 1000) (of_nat 100) \<lparr>num = 6, den = 1\<rparr>) = Inr bs \<and>
     length bs = 4 \<and> bs ! 0 \<and> \<not> bs ! 1 \<and> bs ! 2 \<and> \<not> bs ! 3"
proof -
  have a: "rat_ok \<lparr>num = 6, den = 1\<rparr>" "sorted [100, 150, 267, 300 :: nat]"
    "list_all (timer_fits 1000 100 \<lparr>num = 6, den = 1\<rparr>) [100, 150, 267, 300]"
    by (simp_all add: rat_ok_def fits32_def timer_fits_def)
  from timer_paces [OF a] obtain bs where
    b: "checks (map of_nat [100, 150, 267, 300]) (setFrequency (of_nat 1000) (of_nat 100) \<lparr>num = 6, den = 1\<rparr>) = Inr bs"
    "length bs = length [100, 150, 267, 300 :: nat]"
    and k: "\<And>k. k < length [100, 150, 267, 300 :: nat] \<Longrightarrow> bs ! k = (k = 0 \<or> interval_of 1000 100 \<lparr>num = 6, den = 1\<rparr> ([100, 150, 267, 300] ! (k - 1))
        < interval_of 1000 100 \<lparr>num = 6, den = 1\<rparr> ([100, 150, 267, 300] ! k))" by blast
  have "bs ! 0" "\<not> bs ! 1" "bs ! 2" "\<not> bs ! 3"
    using k [of 0] k [of 1] k [of 2] k [of 3] by (simp_all add: interval_of_def)
  with b show ?thesis by auto
qed

end
