(* ===== verification/CaptureD3D.thy ===== *)
theory CaptureD3D
  imports ScaleSoftware Frame
begin

text \<open>
  \<open>CaptureD3D\<close> of \<open>src/src/server/platform/windows/CaptureD3D.h\<close> and \<open>.cpp\<close>: desktop duplication, the capture
  end of both pipelines.

  The duplication interface of Windows is the record \<open>dxgi\<close>, a machine with a state of its own; \<open>hresult\<close> are the
  results the code tells apart. A COM pointer is whether it is set. What the desktop texture shows is the type \<open>'px\<close>
  that the software textures show, since copying and mapping a texture keep its picture.
\<close>

unbundle bit_operations_syntax

datatype hresult = HR_OK | HR_ACCESS_LOST | HR_ACCESS_DENIED | HR_WAIT_TIMEOUT | HR_FAILED int

definition SUCCEEDED :: "hresult \<Rightarrow> bool" where
  "SUCCEEDED hr = (hr = HR_OK)"

datatype shape_type = SHAPE_COLOR | SHAPE_MASKED_COLOR | SHAPE_MONOCHROME | SHAPE_OTHER int

record pointer_shape =
  ps_type :: shape_type
  ps_width :: nat
  ps_height :: nat
  ps_pitch :: nat
  ps_hotX :: int
  ps_hotY :: int

record 'px desktop_texture =
  dt_width :: int
  dt_height :: int
  dt_picture :: 'px

record 'px frame_info =
  fi_texture :: "'px desktop_texture option"
  fi_presentTime :: int
  fi_mouseTime :: int
  fi_visible :: bool
  fi_x :: int
  fi_y :: int
  fi_shapeSize :: nat

record dup_desc =
  dd_width :: int
  dd_height :: int
  dd_refresh :: "int \<times> int"
  dd_systemMemory :: bool

record ('d, 'px) dxgi =
  dx_castOutput :: "'d \<Rightarrow> bool"
  dx_createDevice :: "bool \<Rightarrow> 'd \<Rightarrow> bool"
  dx_context :: "'d \<Rightarrow> bool"
  dx_duplicate :: "'d \<Rightarrow> hresult \<times> 'd"
  dx_desc :: "'d \<Rightarrow> dup_desc"
  dx_acquire :: "'d \<Rightarrow> hresult \<times> 'px frame_info \<times> 'd"
  dx_release :: "'d \<Rightarrow> hresult \<times> 'd"
  dx_shape :: "'d \<Rightarrow> nat \<Rightarrow> hresult \<times> pointer_shape \<times> bytes"
  dx_staging :: "'d \<Rightarrow> hresult"
  dx_map :: "'d \<Rightarrow> hresult \<times> nat \<times> int"

record 'd capture_d3d =
  frameAcquired :: bool
  sentFirstFrame :: bool
  supportsMapping :: bool
  textureArena :: "nat option"
  cap_output :: bool
  cap_device :: bool
  cap_context :: bool
  outputDuplication :: bool
  dxgi_state :: 'd

definition capture_new :: "'d \<Rightarrow> 'd capture_d3d" where
  "capture_new d = \<lparr>frameAcquired = False, sentFirstFrame = False, supportsMapping = False, textureArena = None,
     cap_output = False, cap_device = False, cap_context = False, outputDuplication = False, dxgi_state = d\<rparr>"

definition capture_init :: "'d capture_d3d \<Rightarrow> 'd capture_d3d" where
  "capture_init c = c\<lparr>cap_output := False, cap_device := False, cap_context := False, outputDuplication := False,
     frameAcquired := False, sentFirstFrame := False, supportsMapping := False\<rparr>"

definition openDuplication :: "('d, 'px) dxgi \<Rightarrow> 'd capture_d3d \<Rightarrow> (bool \<times> 'd capture_d3d) res" where
  "openDuplication D c =
     (let c1 = c\<lparr>outputDuplication := False, frameAcquired := False, sentFirstFrame := False, supportsMapping := False\<rparr>;
          (hr, d) = dx_duplicate D (dxgi_state c1); c2 = c1\<lparr>dxgi_state := d\<rparr> in
      if \<not> cap_output c then Inl Undef
      else if hr = HR_ACCESS_DENIED then Inr (False, c2)
      else if \<not> SUCCEEDED hr then error_quit ''Failed to duplicate output ({:#x})''
      else Inr (True, c2\<lparr>outputDuplication := True, supportsMapping := dd_systemMemory (dx_desc D d)\<rparr>))"

text \<open>\<open>open\<close> tries for five seconds; \<open>elapsed\<close> are the milliseconds passed after each refused attempt.\<close>

fun open_loop :: "('d, 'px) dxgi \<Rightarrow> int list \<Rightarrow> 'd capture_d3d \<Rightarrow> (bool \<times> 'd capture_d3d) res" where
  "open_loop D elapsed c =
     rbind (openDuplication D c) (\<lambda>(ok, c').
       if ok then Inr (True, c')
       else (case elapsed of [] \<Rightarrow> Inl Blocked | ms # rest \<Rightarrow> if 5000 < ms then Inr (False, c') else open_loop D rest c'))"

definition capture_open :: "('d, 'px) dxgi \<Rightarrow> int list \<Rightarrow> 'd capture_d3d \<Rightarrow> (bool \<times> 'd capture_d3d) res" where
  "capture_open D elapsed c =
     (let c1 = c\<lparr>cap_output := dx_castOutput D (dxgi_state c)\<rparr> in
      if \<not> cap_output c1 then Inr (False, c1)
      else let c2 = c1\<lparr>cap_device := dx_createDevice D False (dxgi_state c1)\<rparr> in
        rbind (assert_quit (cap_device c2) ''Failed to create D3D device from output'') (\<lambda>_.
        let c3 = c2\<lparr>cap_context := dx_context D (dxgi_state c2)\<rparr> in
        rbind (assert_quit (cap_context c3) ''Failed to get immediate context'') (\<lambda>_. open_loop D elapsed c3)))"

definition capture_start :: "'d capture_d3d \<Rightarrow> 'd capture_d3d" where
  "capture_start c = c\<lparr>sentFirstFrame := False\<rparr>"

definition capture_stop :: "('d, 'px) dxgi \<Rightarrow> 'd capture_d3d \<Rightarrow> 'd capture_d3d res" where
  "capture_stop D c =
     rbind (if frameAcquired c
            then (let (hr, d) = dx_release D (dxgi_state c) in
                  if \<not> outputDuplication c then Inl Undef
                  else if hr \<noteq> HR_ACCESS_LOST \<and> \<not> SUCCEEDED hr then error_quit ''Failed to release frame ({})''
                  else Inr (c\<lparr>frameAcquired := False, dxgi_state := d\<rparr>))
            else Inr c) (\<lambda>c'. Inr (c'\<lparr>outputDuplication := False\<rparr>))"

text \<open>\<open>getCurrentMode\<close> opens the duplication again, and retries without end; \<open>fuel\<close> bounds the retries that are followed.\<close>

fun mode_loop :: "('d, 'px) dxgi \<Rightarrow> nat \<Rightarrow> 'd capture_d3d \<Rightarrow> 'd capture_d3d res" where
  "mode_loop D 0 c = Inl Blocked"
| "mode_loop D (Suc fuel) c = rbind (openDuplication D c) (\<lambda>(ok, c'). if ok then Inr c' else mode_loop D fuel c')"

definition getCurrentMode :: "('d, 'px) dxgi \<Rightarrow> nat \<Rightarrow> 'd capture_d3d \<Rightarrow> ((int \<times> int \<times> rational) \<times> 'd capture_d3d) res" where
  "getCurrentMode D fuel c =
     rbind (assert_quit (cap_output c) ''Queried current mode before open'') (\<lambda>_.
     rbind (mode_loop D fuel c) (\<lambda>c'.
     let d = dx_desc D (dxgi_state c') in
     rbind (rational_new (fst (dd_refresh d)) (snd (dd_refresh d))) (\<lambda>fps.
       Inr ((dd_width d, dd_height d, fps), c'))))"

text \<open>The last line of the code's \<open>tryReleaseFrame_\<close> is not reached: the assertion before it has failed.\<close>

definition tryReleaseFrame :: "('d, 'px) dxgi \<Rightarrow> 'd capture_d3d \<Rightarrow> (bool \<times> 'd capture_d3d) res" where
  "tryReleaseFrame D c =
     (if \<not> outputDuplication c \<or> \<not> frameAcquired c then Inr (True, c)
      else let (hr, d) = dx_release D (dxgi_state c); c' = c\<lparr>frameAcquired := False, dxgi_state := d\<rparr> in
        if SUCCEEDED hr then Inr (True, c')
        else if hr = HR_ACCESS_LOST then openDuplication D c'
        else rbind (assert_quit (SUCCEEDED hr) ''Failed to release frame ({})'') (\<lambda>_. Inr (False, c')))"

subsection \<open>Cursor shapes\<close>

definition read_u32 :: "bytes \<Rightarrow> nat \<Rightarrow> u32 res" where
  "read_u32 buf off =
     (if off + 4 \<le> length buf
      then Inr (ucast (buf ! off) OR push_bit 8 (ucast (buf ! (off + 1))) OR push_bit 16 (ucast (buf ! (off + 2)))
                OR push_bit 24 (ucast (buf ! (off + 3))))
      else Inl Undef)"

definition u32_bytes :: "u32 \<Rightarrow> bytes" where
  "u32_bytes v = [ucast v, ucast (drop_bit 8 v), ucast (drop_bit 16 v), ucast (drop_bit 24 v)]"

text \<open>The pixels of one row, and of all rows: the loops write them one after the other.\<close>

definition swap_channels :: "bool \<Rightarrow> u32 \<Rightarrow> u32" where
  "swap_channels isXOR v =
     (let r = push_bit 16 (v AND 0x00FF00FF) OR drop_bit 16 (v AND 0x00FF00FF) OR (v AND 0xFF00FF00) in
      if isXOR then r XOR 0xFF000000 else r)"

fun color_row :: "bool \<Rightarrow> bytes \<Rightarrow> nat \<Rightarrow> nat \<Rightarrow> bytes res" where
  "color_row isXOR buf off 0 = Inr []"
| "color_row isXOR buf off (Suc n) =
     rbind (read_u32 buf off) (\<lambda>v. rbind (color_row isXOR buf (off + 4) n) (\<lambda>rest. Inr (u32_bytes (swap_channels isXOR v) @ rest)))"

fun color_rows :: "bool \<Rightarrow> bytes \<Rightarrow> nat \<Rightarrow> nat \<Rightarrow> nat \<Rightarrow> nat \<Rightarrow> bytes res" where
  "color_rows isXOR buf pitch w i 0 = Inr []"
| "color_rows isXOR buf pitch w i (Suc n) =
     rbind (color_row isXOR buf (i * pitch) w) (\<lambda>row. rbind (color_rows isXOR buf pitch w (Suc i) n) (\<lambda>rest. Inr (row @ rest)))"

fun mono_bits :: "nat \<Rightarrow> u8 \<Rightarrow> u8 \<Rightarrow> bytes" where
  "mono_bits 0 andMask xorMask = []"
| "mono_bits (Suc k) andMask xorMask =
     (let rgb = (if xorMask AND 0x80 \<noteq> 0 then 0xFF else 0); a = (if andMask AND 0x80 = 0 then 0xFF else 0) in
      u32_bytes (push_bit 24 a OR push_bit 16 rgb OR push_bit 8 rgb OR rgb) @ mono_bits k (push_bit 1 andMask) (push_bit 1 xorMask))"

fun mono_row :: "bytes \<Rightarrow> nat \<Rightarrow> nat \<Rightarrow> nat \<Rightarrow> bytes res" where
  "mono_row buf a x 0 = Inr []"
| "mono_row buf a x (Suc n) =
     (if a < length buf \<and> x < length buf
      then rbind (mono_row buf (Suc a) (Suc x) n) (\<lambda>rest. Inr (mono_bits 8 (buf ! a) (buf ! x) @ rest)) else Inl Undef)"

fun mono_rows :: "bytes \<Rightarrow> nat \<Rightarrow> nat \<Rightarrow> nat \<Rightarrow> nat \<Rightarrow> nat \<Rightarrow> bytes res" where
  "mono_rows buf pitch half w8 i 0 = Inr []"
| "mono_rows buf pitch half w8 i (Suc n) =
     rbind (mono_row buf (i * pitch) ((i + half) * pitch) w8) (\<lambda>row.
     rbind (mono_rows buf pitch half w8 (Suc i) n) (\<lambda>rest. Inr (row @ rest)))"

text \<open>
  The image has the size computed in 32 bits, in a fresh buffer: what the loops leave unwritten is the indeterminate
  \<open>junk\<close>, and a write past the size is outside the buffer.
\<close>

definition fill_image :: "(nat \<Rightarrow> u8) \<Rightarrow> nat \<Rightarrow> bytes \<Rightarrow> bytes res" where
  "fill_image junk n px = (if length px \<le> n then Inr (px @ map junk [length px..<n]) else Inl Undef)"

definition parseCursor :: "pointer_shape \<Rightarrow> bytes \<Rightarrow> (nat \<Rightarrow> u8) \<Rightarrow> cursor_shape \<Rightarrow> cursor_shape res" where
  "parseCursor info buf junk cs =
     (case ps_type info of
        SHAPE_OTHER _ \<Rightarrow> Inr (cs\<lparr>cs_image := [], cs_height := 0, cs_width := 0\<rparr>)
      | SHAPE_MONOCHROME \<Rightarrow>
          rbind (mono_rows buf (ps_pitch info) (ps_height info div 2) (ps_width info div 8) 0 (ps_height info div 2)) (\<lambda>px.
          rbind (fill_image junk (ps_height info div 2 * ps_width info * 4 mod 2 ^ 32) px) (\<lambda>img.
            Inr (cs\<lparr>cs_image := img, cs_width := int (ps_width info), cs_height := int (ps_height info div 2), cs_format := CS_RGBA_XOR\<rparr>)))
      | ty \<Rightarrow>
          (let isXOR = (ty = SHAPE_MASKED_COLOR) in
           rbind (color_rows isXOR buf (ps_pitch info) (ps_width info) 0 (ps_height info)) (\<lambda>px.
           rbind (fill_image junk (ps_height info * ps_width info * 4 mod 2 ^ 32) px) (\<lambda>img.
             Inr (cs\<lparr>cs_image := img, cs_width := int (ps_width info), cs_height := int (ps_height info),
                     cs_format := if isXOR then CS_RGBA_XOR else CS_RGBA\<rparr>)))))"


subsection \<open>Reading a frame\<close>

definition shape_new :: cursor_shape where
  "shape_new = \<lparr>cs_width = 0, cs_height = 0, cs_hotspotX = 0, cs_hotspotY = 0, cs_format = CS_RGBA, cs_image = []\<rparr>"

text \<open>
  The presentation time in the local clock's microseconds: the counter's ticks since then, in unsigned 64-bit
  arithmetic, taken off the clock's time.
\<close>

definition capture_time :: "u64 \<Rightarrow> int \<Rightarrow> int \<Rightarrow> int \<Rightarrow> int" where
  "capture_time qpcFreq now qpc_now present =
     (let delay = word_of_int qpc_now - word_of_int present :: u64 in
      if qpcFreq = 10000000 then now - uint (delay div 10) else now - sint (delay * 1000000 div qpcFreq))"

definition read_desktop :: "u64 \<Rightarrow> int \<Rightarrow> int \<Rightarrow> 'px frame_info \<Rightarrow> 'd capture_d3d \<Rightarrow> 'px desktop_texture option frame_of \<Rightarrow>
    'd capture_d3d \<times> 'px desktop_texture option frame_of" where
  "read_desktop qpcFreq now qpc_now info c frame =
     (if fi_presentTime info \<noteq> 0 \<or> \<not> sentFirstFrame c
      then (c\<lparr>sentFirstFrame := True\<rparr>,
            frame\<lparr>desktop := fi_texture info, timeCaptured := capture_time qpcFreq now qpc_now (fi_presentTime info)\<rparr>)
      else (c, frame))"

text \<open>An invisible pointer keeps the value-initialised coordinates of \<open>make_shared\<close>.\<close>

definition read_pointer :: "'px frame_info \<Rightarrow> 'a frame_of \<Rightarrow> 'a frame_of" where
  "read_pointer info frame =
     (if fi_mouseTime info \<noteq> 0
      then frame\<lparr>cursorPos := Some \<lparr>cp_visible = fi_visible info,
              cp_x = (if fi_visible info then fi_x info else 0), cp_y = (if fi_visible info then fi_y info else 0)\<rparr>\<rparr>
      else frame)"

definition read_shape :: "('d, 'px) dxgi \<Rightarrow> (nat \<Rightarrow> u8) \<Rightarrow> 'px frame_info \<Rightarrow> 'd \<Rightarrow> 'a frame_of \<Rightarrow> 'a frame_of res" where
  "read_shape D junk info d frame =
     (if fi_shapeSize info \<noteq> 0
      then (let (hr, shape, buf) = dx_shape D d (fi_shapeSize info) in
        rbind (assert_quit (SUCCEEDED hr) ''Failed to fetch frame pointer shape'') (\<lambda>_.
        rbind (parseCursor shape buf junk (shape_new\<lparr>cs_hotspotX := ps_hotX shape, cs_hotspotY := ps_hotY shape\<rparr>)) (\<lambda>cs.
          Inr (frame\<lparr>cursorShape := Some cs\<rparr>))))
      else Inr frame)"

definition readD3D :: "('d, 'px) dxgi \<Rightarrow> u64 \<Rightarrow> int \<Rightarrow> int \<Rightarrow> (nat \<Rightarrow> u8) \<Rightarrow> 'd capture_d3d \<Rightarrow>
    ('px desktop_texture option frame_of \<times> 'd capture_d3d) res" where
  "readD3D D qpcFreq now qpc_now junk c =
     (let frame = frame_init None in
      rbind (if outputDuplication c then Inr (True, c) else openDuplication D c) (\<lambda>(ok, c1).
      if \<not> ok then Inr (frame, c1)
      else rbind (tryReleaseFrame D c1) (\<lambda>(ok, c2).
        if \<not> ok then Inr (frame, c2)
        else let (hr, info, d) = dx_acquire D (dxgi_state c2); c3 = c2\<lparr>dxgi_state := d\<rparr> in
          if SUCCEEDED hr
          then (let (c4, frame1) = read_desktop qpcFreq now qpc_now info (c3\<lparr>frameAcquired := True\<rparr>) frame in
                rbind (read_shape D junk info d (read_pointer info frame1)) (\<lambda>frame2. Inr (frame2, c4)))
          else if hr = HR_WAIT_TIMEOUT then Inr (frame, c3)
          else if hr = HR_ACCESS_LOST then Inr (frame, c3\<lparr>outputDuplication := False\<rparr>)
          else error_quit ''Failed to acquire next frame ({})'')))"

text \<open>The desktop texture copied into a software texture of its own; without one the frame has an empty texture.\<close>

definition read_texture :: "('d, 'px) dxgi \<Rightarrow> av_image \<Rightarrow> 'px desktop_texture \<Rightarrow> 'd capture_d3d \<Rightarrow> arenas \<Rightarrow>
    ('px texture \<times> 'd capture_d3d \<times> arenas) res" where
  "read_texture D av t c st =
     rbind (assert_quit (SUCCEEDED (dx_staging D (dxgi_state c))) ''Failed to create staging texture'') (\<lambda>_.
     rbind (ensureFormat av (textureArena c) (dt_width t) (dt_height t) AV_BGRA st) (\<lambda>(aid, st1).
     let (hr, address, rowPitch) = dx_map D (dxgi_state c) in
     rbind (assert_quit (SUCCEEDED hr) ''Failed to map staging texture'') (\<lambda>_.
     rbind (tex_reference av (dt_picture t) [address, 0, 0, 0] [rowPitch, 0, 0, 0] (dt_width t) (dt_height t) AV_BGRA) (\<lambda>ref.
     rbind (tex_clone av (Some aid) ref st1) (\<lambda>(tex, st2).
       Inr (tex, c\<lparr>textureArena := Some aid\<rparr>, st2))))))"

definition readSoftware :: "('d, 'px) dxgi \<Rightarrow> av_image \<Rightarrow> 'px \<Rightarrow> u64 \<Rightarrow> int \<Rightarrow> int \<Rightarrow> (nat \<Rightarrow> u8) \<Rightarrow> 'd capture_d3d \<Rightarrow> arenas \<Rightarrow>
    ('px texture frame_of \<times> 'd capture_d3d \<times> arenas) res" where
  "readSoftware D av none qpcFreq now qpc_now junk c st =
     rbind (readD3D D qpcFreq now qpc_now junk c) (\<lambda>(frame, c1).
       case desktop frame of
         None \<Rightarrow> Inr (getOtherType frame (texture_new none), c1, st)
       | Some t \<Rightarrow> rbind (read_texture D av t c1 st) (\<lambda>(tex, c2, st2). Inr (getOtherType frame tex, c2, st2)))"

subsection \<open>What a cursor image holds\<close>

lemma byte_high: "\<not> bit (w :: u8) (8 + n)" "\<not> bit (w :: u8) (16 + n)" "\<not> bit (w :: u8) (24 + n)"
  using bit_imp_le_length [of w "8 + n"] bit_imp_le_length [of w "16 + n"] bit_imp_le_length [of w "24 + n"] by auto

lemma read_u32_bytes: "read_u32 buf off = Inr v \<Longrightarrow>
  off + 4 \<le> length buf \<and> u32_bytes v = [buf ! off, buf ! (off + 1), buf ! (off + 2), buf ! (off + 3)]"
  by (auto simp: read_u32_def u32_bytes_def bit_simps byte_high split: if_splits intro!: bit_word_eqI)

lemma channel_masks:
  "(0x00FF00FF :: u32) = mask 8 OR push_bit 16 (mask 8)"
  "(0xFF00FF00 :: u32) = push_bit 8 (mask 8) OR push_bit 24 (mask 8)"
  "(0xFF000000 :: u32) = push_bit 24 (mask 8)"
  by (simp_all add: mask_eq_exp_minus_1 push_bit_eq_mult)

lemma swap_channels_bytes:
  "u32_bytes (swap_channels isXOR v) =
    [u32_bytes v ! 2, u32_bytes v ! 1, u32_bytes v ! 0, (if isXOR then NOT (u32_bytes v ! 3) else u32_bytes v ! 3)]"
  unfolding swap_channels_def channel_masks Let_def u32_bytes_def
  by (auto simp: bit_simps intro!: bit_word_eqI)


text \<open>The picture a colour shape describes: red and blue exchanged, and for a masked one every mask byte inverted.\<close>

definition shape_pixel :: "bool \<Rightarrow> bytes \<Rightarrow> nat \<Rightarrow> bytes" where
  "shape_pixel isXOR buf off = [buf ! (off + 2), buf ! (off + 1), buf ! off, if isXOR then NOT (buf ! (off + 3)) else buf ! (off + 3)]"

lemma color_row_eq:
  "off + 4 * n \<le> length buf \<Longrightarrow> color_row isXOR buf off n = Inr (concat (map (\<lambda>j. shape_pixel isXOR buf (off + 4 * j)) [0..<n]))"
proof (induction n arbitrary: off)
  case (Suc n)
  have le: "off + 4 \<le> length buf" using Suc.prems by simp
  then obtain v where v: "read_u32 buf off = Inr v" by (simp add: read_u32_def)
  have "u32_bytes (swap_channels isXOR v) = shape_pixel isXOR buf off"
    using read_u32_bytes [OF v] by (simp add: swap_channels_bytes shape_pixel_def)
  moreover have "[0..<Suc n] = 0 # map Suc [0..<n]" by (simp add: upt_conv_Cons map_Suc_upt del: upt_Suc)
  ultimately show ?case using Suc.IH [of "off + 4"] Suc.prems v
    by (simp add: comp_def algebra_simps del: upt_Suc)
qed simp

lemma color_rows_eq:
  assumes "\<forall>k<n. (i + k) * pitch + 4 * w \<le> length buf"
  shows "color_rows isXOR buf pitch w i n =
    Inr (concat (map (\<lambda>k. concat (map (\<lambda>j. shape_pixel isXOR buf ((i + k) * pitch + 4 * j)) [0..<w])) [0..<n]))"
  using assms
proof (induction n arbitrary: i)
  case (Suc n)
  have "color_row isXOR buf (i * pitch) w = Inr (concat (map (\<lambda>j. shape_pixel isXOR buf (i * pitch + 4 * j)) [0..<w]))"
    using Suc.prems [rule_format, of 0] by (intro color_row_eq) simp
  moreover have "[0..<Suc n] = 0 # map Suc [0..<n]" by (simp add: upt_conv_Cons map_Suc_upt del: upt_Suc)
  moreover have "\<forall>k<n. (Suc i + k) * pitch + 4 * w \<le> length buf" using Suc.prems by auto
  ultimately show ?case using Suc.IH [of "Suc i"]
    by (simp add: comp_def del: upt_Suc mult_Suc)
qed simp

lemma shape_pixel_length [simp]: "length (shape_pixel isXOR buf off) = 4"
  by (simp add: shape_pixel_def)

lemma length_concat_const: "(\<And>x. x \<in> set xs \<Longrightarrow> length (f x) = c) \<Longrightarrow> length (concat (map f xs)) = c * length xs"
  by (induction xs) auto

lemma nth_concat_const:
  "(\<And>x. length (f x) = c) \<Longrightarrow> i < length xs \<Longrightarrow> j < c \<Longrightarrow> concat (map f xs) ! (i * c + j) = f (xs ! i) ! j"
proof (induction xs arbitrary: i)
  case (Cons x xs)
  then show ?case by (cases i) (auto simp: nth_append add.assoc)
qed simp

subsection \<open>Colour cursors are copied exactly\<close>

text \<open>C28: for a colour or masked colour shape whose rows lie in the buffer, the published image has the shape's size and
  exactly four bytes per pixel; pixel (x, y) is the buffer's BGRA pixel at row pitch y turned into RGBA, its mask byte
  inverted for a masked shape, and nothing outside the buffer is read.\<close>

theorem cursor_exact:
  assumes "ps_type info = SHAPE_COLOR \<or> ps_type info = SHAPE_MASKED_COLOR"
    and "ps_height info * ps_width info * 4 < 2 ^ 32"
    and "list_all (\<lambda>y. y * ps_pitch info + 4 * ps_width info \<le> length buf) [0..<ps_height info]"
    and "x < ps_width info" and "y < ps_height info" and "k < 4"
  shows "\<exists>cs'. parseCursor info buf junk cs = Inr cs' \<and> length (cs_image cs') = ps_height info * ps_width info * 4 \<and>
    cs_width cs' = int (ps_width info) \<and> cs_height cs' = int (ps_height info) \<and>
    cs_format cs' = (if ps_type info = SHAPE_COLOR then CS_RGBA else CS_RGBA_XOR) \<and>
    cs_image cs' ! ((y * ps_width info + x) * 4 + k) =
      shape_pixel (ps_type info = SHAPE_MASKED_COLOR) buf (y * ps_pitch info + 4 * x) ! k"
proof -
  define X where "X = (ps_type info = SHAPE_MASKED_COLOR)"
  define row where "row y = concat (map (\<lambda>j. shape_pixel X buf (y * ps_pitch info + 4 * j)) [0..<ps_width info])" for y
  define px where "px = concat (map row [0..<ps_height info])"
  have lr: "length (row y) = 4 * ps_width info" for y by (simp add: row_def length_concat_const)
  then have lp: "length px = ps_height info * ps_width info * 4"
    unfolding px_def by (subst length_concat_const [where c = "4 * ps_width info"]) auto
  have rows: "color_rows X buf (ps_pitch info) (ps_width info) 0 (ps_height info) = Inr px"
    using color_rows_eq [of "ps_height info" 0 "ps_pitch info" "ps_width info" buf X] assms(3)
    by (simp add: px_def row_def [abs_def] list_all_iff)
  have "px ! (y * (4 * ps_width info) + (x * 4 + k)) = row ([0..<ps_height info] ! y) ! (x * 4 + k)"
    unfolding px_def by (rule nth_concat_const [OF lr]) (use assms(4-6) in auto)
  also have "\<dots> = shape_pixel X buf (y * ps_pitch info + 4 * ([0..<ps_width info] ! x)) ! k"
    using assms(4-6) unfolding row_def by (subst nth_concat_const [where c = 4]) auto
  finally have "px ! ((y * ps_width info + x) * 4 + k) = shape_pixel X buf (y * ps_pitch info + 4 * x) ! k"
    using assms(4) by (simp add: algebra_simps)
  moreover have "parseCursor info buf junk cs = Inr (cs\<lparr>cs_image := px, cs_width := int (ps_width info), cs_height := int (ps_height info),
      cs_format := if X then CS_RGBA_XOR else CS_RGBA\<rparr>)"
    using assms(1,2) rows by (auto simp: parseCursor_def fill_image_def lp X_def)
  ultimately show ?thesis using assms(1) lp by (auto simp: X_def)
qed

lemma cursor_exact_witness:
  "\<exists>cs'. parseCursor \<lparr>ps_type = SHAPE_MASKED_COLOR, ps_width = 1, ps_height = 2, ps_pitch = 8, ps_hotX = 0, ps_hotY = 0\<rparr>
     [1, 2, 3, 0, 9, 9, 9, 9, 4, 5, 6, 255] (\<lambda>_. 0) shape_new = Inr cs' \<and> cs_image cs' ! 4 = 6 \<and> length (cs_image cs') = 8"
  using cursor_exact [of "\<lparr>ps_type = SHAPE_MASKED_COLOR, ps_width = 1, ps_height = 2, ps_pitch = 8, ps_hotX = 0, ps_hotY = 0\<rparr>"
      "[1, 2, 3, 0, 9, 9, 9, 9, 4, 5, 6, 255]" 0 1 0 "\<lambda>_. 0" shape_new]
  by (auto simp: shape_pixel_def upt_rec)

end
