(* ===== verification/CapturePipelineD3DSoft.thy ===== *)
theory CapturePipelineD3DSoft
  imports CaptureD3D EncoderFFmpeg QPCTimer ServerCore
begin

text \<open>
  \<open>CapturePipelineD3DSoft\<close> of \<open>src/src/server/platform/windows/CapturePipelineD3DSoft.h\<close> and \<open>.cpp\<close>: the capture
  thread feeds the scaler, the encoder thread takes the scaled picture at the frame rate, hands it to the
  encoder and sends on what the encoder gives back.

  The two loops are rounds on the shared state. The local flag \<open>firstFrameProvided\<close> of the encoder loop and whether it is waiting
  in \<open>readData\<close> are fields. Everything the program calls outside itself is the record \<open>platform\<close>; clock readings are
  arguments. Textures handed to the encoder are values, so their slots are not given back in this model.
\<close>

datatype scale_type = AYUV | NV12

definition scale2avpixfmt :: "scale_type \<Rightarrow> pix_fmt" where
  "scale2avpixfmt ty = (case ty of AYUV \<Rightarrow> AV_YUV444P | NV12 \<Rightarrow> AV_YUV420P)"

datatype dxgi_format = DXGI_B8G8R8A8 | DXGI_R8G8B8A8 | DXGI_OTHER nat

definition dxgi2avpixfmt :: "dxgi_format \<Rightarrow> pix_fmt res" where
  "dxgi2avpixfmt fmt =
     (case fmt of DXGI_B8G8R8A8 \<Rightarrow> Inr AV_BGRA | DXGI_R8G8B8A8 \<Rightarrow> Inr AV_RGBA
      | _ \<Rightarrow> error_quit ''No matching AVPixelFormat for DXGI_FORMAT {}'')"

record ('d, 'c, 'px) platform =
  pf_outputs :: nat
  pf_dxgi :: "('d, 'px) dxgi"
  pf_av :: av_image
  pf_sws :: "'px sws"
  pf_ffmpeg :: "('c, 'px) ffmpeg"
  pf_qpcFreq :: u64
  pf_none :: 'px
  pf_elapsed :: "int list"
  pf_fuel :: nat
  pf_junk :: "nat \<Rightarrow> u8"

record ('d, 'c, 'px) soft_pipeline =
  sp_scaleType :: scale_type
  sp_capture :: "'d capture_d3d"
  sp_scale :: "'px scaler"
  sp_encoder :: "('c, 'px) ff_encoder"
  sp_framerate :: rational
  sp_timer :: qpc_timer
  sp_captureThread :: thread_state
  sp_encodeThread :: thread_state
  sp_flagRun :: bool
  lastFrame :: "bool frame_of"
  firstFrameProvided :: bool
  sp_reading :: bool
  sp_store :: arenas

definition sp_new :: "('d, 'c, 'px) platform \<Rightarrow> qpc_timer \<Rightarrow> 'd \<Rightarrow> ('d, 'c, 'px) soft_pipeline res" where
  "sp_new P timer d =
     rbind (ff_new True (pf_none P)) (\<lambda>enc.
       Inr \<lparr>sp_scaleType = NV12, sp_capture = capture_new d, sp_scale = scaler_new (pf_none P), sp_encoder = enc,
            sp_framerate = rat_default, sp_timer = timer, sp_captureThread = Idle, sp_encodeThread = Idle, sp_flagRun = False,
            lastFrame = frame_init False, firstFrameProvided = False, sp_reading = False, sp_store = []\<rparr>)"

definition sp_init :: "('d, 'c, 'px) platform \<Rightarrow> ('d, 'c, 'px) soft_pipeline \<Rightarrow> (bool \<times> ('d, 'c, 'px) soft_pipeline) res" where
  "sp_init P p =
     rbind (assert_quit (0 < pf_outputs P) ''No output available!'') (\<lambda>_.
     rbind (capture_open (pf_dxgi P) (pf_elapsed P) (capture_init (sp_capture p))) (\<lambda>(ok, c).
       Inr (True, p\<lparr>sp_capture := c\<rparr>)))"

definition sp_start :: "('d, 'c, 'px) platform \<Rightarrow> u64 \<Rightarrow> ('d, 'c, 'px) soft_pipeline \<Rightarrow> ('d, 'c, 'px) soft_pipeline res" where
  "sp_start P qpc_now p =
     rbind (assert_quit (\<not> sp_flagRun p) ''Starting without stopping first!'') (\<lambda>_.
     rbind (join_thread (sp_captureThread p)) (\<lambda>_.
     rbind (join_thread (sp_encodeThread p)) (\<lambda>_.
     rbind (ff_start (pf_ffmpeg P) (sp_encoder p)) (\<lambda>enc.
       Inr (p\<lparr>sp_flagRun := True, sp_capture := capture_start (sp_capture p), sp_encoder := enc,
              sp_timer := setFrequency (pf_qpcFreq P) qpc_now (sp_framerate p),
              sp_captureThread := Working, sp_encodeThread := Working,
              firstFrameProvided := False, sp_reading := False\<rparr>)))))"

definition sp_stop :: "('d, 'c, 'px) platform \<Rightarrow> ('d, 'c, 'px) soft_pipeline \<Rightarrow> ('d, 'c, 'px) soft_pipeline res" where
  "sp_stop P p =
     rbind (assert_quit (sp_flagRun p) ''Stopping when not running!'') (\<lambda>_.
     rbind (ff_stop (sp_encoder p)) (\<lambda>enc.
     rbind (capture_stop (pf_dxgi P) (sp_capture p)) (\<lambda>c.
       Inr (p\<lparr>sp_flagRun := False, sp_encoder := enc, sp_capture := c\<rparr>))))"

definition sp_getNativeMode :: "('d, 'c, 'px) platform \<Rightarrow> ('d, 'c, 'px) soft_pipeline \<Rightarrow>
    ((int \<times> int \<times> rational) \<times> ('d, 'c, 'px) soft_pipeline) res" where
  "sp_getNativeMode P p =
     rbind (getCurrentMode (pf_dxgi P) (pf_fuel P) (sp_capture p)) (\<lambda>(mode, c). Inr (mode, p\<lparr>sp_capture := c\<rparr>))"

definition sp_setEncoderMode :: "int \<Rightarrow> int \<Rightarrow> rational \<Rightarrow> ('d, 'c, 'px) soft_pipeline \<Rightarrow> (bool \<times> ('d, 'c, 'px) soft_pipeline) res" where
  "sp_setEncoderMode w h fps p =
     Inr (True, p\<lparr>sp_scale := setOutputFormat w h (scale2avpixfmt (sp_scaleType p)) (sp_scale p),
                  sp_encoder := ff_setMode w h fps (sp_encoder p), sp_framerate := fps\<rparr>)"

text \<open>What a captured frame leaves in \<open>lastFrame\<close>.\<close>

definition merge_cursor :: "'a frame_of \<Rightarrow> 'b frame_of \<Rightarrow> 'b frame_of" where
  "merge_cursor frame prev =
     prev\<lparr>cursorPos := (case cursorPos frame of None \<Rightarrow> cursorPos prev | x \<Rightarrow> x),
          cursorShape := (case cursorShape frame of None \<Rightarrow> cursorShape prev | x \<Rightarrow> x)\<rparr>"

text \<open>One round of \<open>loopCapture_\<close>; the texture pushed before is destroyed with the frame it was swapped into.\<close>

definition sp_capture_round :: "('d, 'c, 'px) platform \<Rightarrow> int \<Rightarrow> int \<Rightarrow> ('d, 'c, 'px) soft_pipeline \<Rightarrow>
    ('d, 'c, 'px) soft_pipeline res" where
  "sp_capture_round P now qpc_now p =
     (if \<not> sp_flagRun p then Inr (p\<lparr>sp_captureThread := Ended\<rparr>)
      else rbind (readSoftware (pf_dxgi P) (pf_av P) (pf_none P) (pf_qpcFreq P) now qpc_now (pf_junk P) (sp_capture p) (sp_store p))
        (\<lambda>(frame, c, st).
          let p1 = p\<lparr>sp_capture := c, sp_store := st\<rparr> in
          if tex_isEmpty (desktop frame) then Inr (p1\<lparr>lastFrame := merge_cursor frame (lastFrame p1)\<rparr>)
          else let (old, sc) = pushInput (desktop frame) (sp_scale p1) in
            rbind (scale_flush (pf_av P) (pf_sws P) (pf_none P) sc st) (\<lambda>(sc', st1).
            rbind (tex_destroy old st1) (\<lambda>st2.
              Inr (p1\<lparr>sp_scale := sc', sp_store := st2,
                      lastFrame := merge_cursor frame ((lastFrame p1)\<lparr>desktop := True, timeCaptured := timeCaptured frame\<rparr>)\<rparr>)))))"

text \<open>
  One round of \<open>loopEncoder_\<close> up to \<open>readData\<close>: sleeping until the timer fires is a round that changes nothing.
  The second part runs when \<open>readData\<close> returns; the list is what \<open>writeOutput\<close> gets.
\<close>

definition sp_encode_round :: "('d, 'c, 'px) platform \<Rightarrow> u64 \<Rightarrow> ('d, 'c, 'px) soft_pipeline \<Rightarrow> ('d, 'c, 'px) soft_pipeline res" where
  "sp_encode_round P qpc_now p =
     (if \<not> sp_flagRun p then Inr (p\<lparr>sp_encodeThread := Ended\<rparr>)
      else rbind (checkInterval qpc_now (sp_timer p)) (\<lambda>(fires, t).
        let p1 = p\<lparr>sp_timer := t\<rparr> in
        if \<not> fires \<or> (\<not> firstFrameProvided p1 \<and> \<not> desktop (lastFrame p1)) then Inr p1
        else rbind (popOutput (pf_av P) (pf_sws P) (pf_none P) (sp_scale p1) (sp_store p1)) (\<lambda>(tex, sc, st).
          let p2 = p1\<lparr>firstFrameProvided := True, sp_scale := sc, sp_store := st, lastFrame := (lastFrame p1)\<lparr>desktop := False\<rparr>\<rparr> in
          rbind (ff_pushFrame (getOtherType (lastFrame p1) tex) (sp_encoder p2)) (\<lambda>(taken, enc).
            Inr (p2\<lparr>sp_encoder := enc, sp_reading := True\<rparr>)))))"

definition sp_read_round :: "('d, 'c, 'px) soft_pipeline \<Rightarrow> (bytes frame_of list \<times> ('d, 'c, 'px) soft_pipeline) res" where
  "sp_read_round p =
     rbind (ff_readData (sp_encoder p)) (\<lambda>(out, enc).
       Inr (case out of None \<Rightarrow> [] | Some f \<Rightarrow> [f], p\<lparr>sp_encoder := enc, sp_reading := False\<rparr>))"

subsection \<open>The contract of the server\<close>

definition soft_media :: "('d, 'c, 'px) platform \<Rightarrow> u64 \<Rightarrow> ('a \<Rightarrow> 'a res) \<Rightarrow> ('a \<Rightarrow> 'a res) \<Rightarrow> (('d, 'c, 'px) soft_pipeline, 'a) media" where
  "soft_media P qpc_now astart astop =
     \<lparr>p_init = sp_init P, p_start = sp_start P qpc_now, p_stop = sp_stop P, p_getNativeMode = sp_getNativeMode P,
      p_setEncoderMode = sp_setEncoderMode, a_start = astart, a_stop = astop\<rparr>"

lemma ff_start_messages:
  "ff_start F e = Inl (Fatal m) \<Longrightarrow> m \<in> {''Size not set before start!'', ''Not stopped before start!'', ''Failed to allocate codec context'',
     ''Failed to set deadline=realtime'', ''Failed to set cpu-used=12'', ''Failed to set slices=8'', ''Failed to open codec'',
     ''Trying to start when running!''}"
  by (auto simp: ff_start_def rbind_eq_Inl assert_quit_Inl join_thread_Inl Let_def split_def)

lemma capture_stop_messages: "capture_stop D c = Inl e \<Longrightarrow> e \<in> {Undef, Fatal ''Failed to release frame ({})''}"
  by (auto simp: capture_stop_def rbind_eq_Inl error_quit_def Let_def split: if_splits prod.splits)

interpretation soft: switchable sp_flagRun "sp_start P qpc_now" "sp_stop P"
proof
  fix x x' :: "('a, 'b, 'c) soft_pipeline"
  show "\<not> sp_flagRun x \<Longrightarrow> sp_start P qpc_now x = Inr x' \<Longrightarrow> sp_flagRun x'"
    by (auto simp: sp_start_def rbind_eq_Inr)
  show "sp_flagRun x \<Longrightarrow> sp_stop P x = Inr x' \<Longrightarrow> \<not> sp_flagRun x'"
    by (auto simp: sp_stop_def rbind_eq_Inr)
  show "sp_flagRun x \<Longrightarrow> sp_stop P x \<noteq> Inl (Fatal ''Stopping when not running!'')"
    by (auto simp: sp_stop_def rbind_eq_Inl assert_quit_Inl ff_stop_def dest: capture_stop_messages)
  show "\<not> sp_flagRun x \<Longrightarrow> sp_start P qpc_now x \<noteq> Inl (Fatal ''Starting without stopping first!'')"
    by (auto simp: sp_start_def rbind_eq_Inl assert_quit_Inl join_thread_Inl dest: ff_start_messages)
qed

lemma sp_mode_keeps: "sp_setEncoderMode w h f p = Inr (b, p') \<Longrightarrow> sp_flagRun p' = sp_flagRun p"
  by (auto simp: sp_setEncoderMode_def)

lemma sp_init_keeps: "sp_init P p = Inr (b, p') \<Longrightarrow> sp_flagRun p' = sp_flagRun p"
  by (auto simp: sp_init_def rbind_eq_Inr)

lemma sp_native_keeps: "sp_getNativeMode P p = Inr (m, p') \<Longrightarrow> sp_flagRun p' = sp_flagRun p"
  by (auto simp: sp_getNativeMode_def rbind_eq_Inr)


subsection \<open>A frame left over from the last stream\<close>

lemma convert_flags: "convert av sws raw sc st = Inr (sc', st') \<Longrightarrow> \<not> outputFormatChanged sc'"
  by (auto simp: convert_def Let_def rbind_eq_Inr split: option.splits if_splits)

lemma ensureFormat_extends: "ensureFormat av arena w h fmt st = Inr (aid, st') \<Longrightarrow> extends st st'"
  by (auto simp: ensureFormat_def getArena_def rbind_eq_Inr extends_def nth_append split: option.splits if_splits)

lemma tex_clone_InrD:
  "tex_clone av target t st = Inr (u, st') \<Longrightarrow> \<exists>aid. target = Some aid \<and> tex_config u = ar_config (st ! aid) \<and> extends st st'"
  by (auto simp: tex_clone_def error_quit_def split: option.splits if_splits dest: tex_alloc_InrD)

lemma readSoftware_extends:
  assumes "readSoftware D av none f now qn junk c st = Inr (frame, c', st')"
  shows "extends st st'"
proof -
  from assms obtain fr c1 where r: "readD3D D f now qn junk c = Inr (fr, c1)"
    and d: "(case desktop fr of None \<Rightarrow> Inr (getOtherType fr (texture_new none), c1, st)
       | Some t \<Rightarrow> rbind (read_texture D av t c1 st) (\<lambda>(tex, c2, st2). Inr (getOtherType fr tex, c2, st2))) = Inr (frame, c', st')"
    by (auto simp: readSoftware_def rbind_eq_Inr)
  show ?thesis
  proof (cases "desktop fr")
    case None
    with d show ?thesis by simp
  next
    case (Some t)
    with d obtain tex c2 where "read_texture D av t c1 st = Inr (tex, c2, st')" by (auto simp: rbind_eq_Inr)
    then obtain aid st1 ref where e: "ensureFormat av (textureArena c1) (dt_width t) (dt_height t) AV_BGRA st = Inr (aid, st1)"
      and c: "tex_clone av (Some aid) ref st1 = Inr (tex, st')"
      by (auto simp: read_texture_def rbind_eq_Inr Let_def split_def)
    from ensureFormat_extends [OF e] tex_clone_InrD [OF c] show ?thesis by (auto intro: extends_trans)
  qed
qed

text \<open>A capture round that delivers a picture leaves a converted one in the scaler, in the format of that time.\<close>

lemma capture_round_scales:
  assumes inv: "scale_inv (sp_store p) (sp_scale p)" and set: "outputFormat (sp_scale p) \<noteq> (-1, -1, AV_NONE)"
    and r: "sp_capture_round P now qn p = Inr p1" and new: "\<not> desktop (lastFrame p)" "desktop (lastFrame p1)"
  shows "scale_inv (sp_store p1) (sp_scale p1) \<and> hasTexture (sp_scale p1) \<and> \<not> sc_dirty (sp_scale p1) \<and>
    \<not> outputFormatChanged (sp_scale p1) \<and> outputFormat (sp_scale p1) = outputFormat (sp_scale p) \<and> sp_scaleType p1 = sp_scaleType p"
proof -
  have run: "sp_flagRun p" using r new by (auto simp: sp_capture_round_def split: if_splits)
  from run r obtain frame c st where rd:
    "readSoftware (pf_dxgi P) (pf_av P) (pf_none P) (pf_qpcFreq P) now qn (pf_junk P) (sp_capture p) (sp_store p) = Inr (frame, c, st)"
    by (auto simp: sp_capture_round_def rbind_eq_Inr)
  have ne: "\<not> tex_isEmpty (desktop frame)"
    using r run rd new by (auto simp: sp_capture_round_def merge_cursor_def Let_def)
  let ?sc = "snd (pushInput (desktop frame) (sp_scale p))"
  have sc: "scale_inv st ?sc" "outputFormat ?sc = outputFormat (sp_scale p)" "sc_dirty ?sc" "hasTexture ?sc"
    using scale_inv_extends [OF inv readSoftware_extends [OF rd]] by (simp_all add: pushInput_inv) (simp_all add: pushInput_def)
  from r run rd ne obtain sc' st1 st2 where
    f: "scale_flush (pf_av P) (pf_sws P) (pf_none P) ?sc st = Inr (sc', st1)"
    and d: "tex_destroy (inputTex (sp_scale p)) st1 = Inr st2"
    and p1: "sp_scale p1 = sc'" "sp_store p1 = st2" "sp_scaleType p1 = sp_scaleType p"
    by (auto simp: sp_capture_round_def rbind_eq_Inr pushInput_def)
  have c: "convert (pf_av P) (pf_sws P) (pf_none P) ?sc st = Inr (sc', st1)" using f sc(3) by (simp add: scale_flush_def)
  have k: "scale_inv st1 sc'" "\<not> sc_dirty sc'" "hasTexture sc'" "outputFormat sc' = outputFormat (sp_scale p)"
    using convert_InrD [OF sc(1) _ c] set sc(2,4) by simp_all
  from k scale_inv_extends [OF k(1) tex_destroy_extends [OF d]] convert_flags [OF c] p1 show ?thesis by simp
qed

lemma popOutput_clean:
  assumes "popOutput av sws raw sc st = Inr (t, sc', st')" and "\<not> sc_dirty sc" and "scale_inv st sc0"
    and "\<not> outputFormatChanged sc0" "outputFormat sc0 \<noteq> (-1, -1, AV_NONE)" and "outputArena sc = outputArena sc0"
  shows "tex_config t = outputFormat sc0"
  using assms by (auto simp: popOutput_def scale_flush_def rbind_eq_Inr scale_inv_def dest!: tex_clone_InrD)



text \<open>A platform that shows one 6 by 4 picture, and a pipeline that has just been started for 4 by 2.\<close>

definition sample_platform :: "(unit, int list, nat) platform" where
  "sample_platform =
     \<lparr>pf_outputs = 1,
      pf_dxgi = \<lparr>dx_castOutput = (\<lambda>_. True), dx_createDevice = (\<lambda>_ _. True), dx_context = (\<lambda>_. True),
        dx_duplicate = (\<lambda>d. (HR_OK, d)),
        dx_desc = (\<lambda>_. \<lparr>dd_width = 6, dd_height = 4, dd_refresh = (60, 1), dd_systemMemory = False\<rparr>),
        dx_acquire = (\<lambda>d. (HR_OK, \<lparr>fi_texture = Some \<lparr>dt_width = 6, dt_height = 4, dt_picture = 5\<rparr>, fi_presentTime = 1,
            fi_mouseTime = 0, fi_visible = False, fi_x = 0, fi_y = 0, fi_shapeSize = 0\<rparr>, d)),
        dx_release = (\<lambda>d. (HR_OK, d)),
        dx_shape = (\<lambda>_ _. (HR_OK, \<lparr>ps_type = SHAPE_COLOR, ps_width = 0, ps_height = 0, ps_pitch = 0, ps_hotX = 0, ps_hotY = 0\<rparr>, [])),
        dx_staging = (\<lambda>_. HR_OK), dx_map = (\<lambda>_. (HR_OK, 64, 24))\<rparr>,
      pf_av = sample_av, pf_sws = sample_sws, pf_ffmpeg = sample_ffmpeg, pf_qpcFreq = 10000000, pf_none = 0,
      pf_elapsed = [], pf_fuel = 1, pf_junk = (\<lambda>_. 0)\<rparr>"

definition sample_pipeline :: "(unit, int list, nat) soft_pipeline" where
  "sample_pipeline =
     \<lparr>sp_scaleType = NV12, sp_capture = (capture_new ())\<lparr>cap_output := True, cap_device := True, cap_context := True, outputDuplication := True\<rparr>,
      sp_scale = setOutputFormat 4 2 AV_YUV420P (scaler_new 0), sp_encoder = sample_encoder, sp_framerate = \<lparr>num = 60, den = 1\<rparr>,
      sp_timer = setFrequency 10000000 0 \<lparr>num = 60, den = 1\<rparr>, sp_captureThread = Working, sp_encodeThread = Working, sp_flagRun = True,
      lastFrame = frame_init False, firstFrameProvided = False, sp_reading = False, sp_store = []\<rparr>"

lemmas capture_eval = readSoftware_def readD3D_def tryReleaseFrame_def read_desktop_def read_pointer_def read_shape_def SUCCEEDED_def
  read_texture_def ensureFormat_def checkConfig_def tex_reference_def overwrite_def tex_destroy_def tex_isEmpty_def
  pushInput_def scale_flush_def convert_def setInputFormat_def new_context_def new_output_def merge_cursor_def capture_new_def

text \<open>Capture, stop, set 8 by 2, start and encode, with the conditions of the theorem checked on the way.\<close>

definition sample_restart :: "((unit, int list, nat) soft_pipeline list \<times> ff_worker \<times> codec_config) res" where
  "sample_restart =
     rbind (sp_capture_round sample_platform 0 1 sample_pipeline) (\<lambda>p1.
     rbind (c_assert (desktop (lastFrame p1))) (\<lambda>_.
     rbind (sp_stop sample_platform p1) (\<lambda>p2.
     rbind (sp_setEncoderMode 8 2 \<lparr>num = 60, den = 1\<rparr> (p2\<lparr>sp_captureThread := Ended, sp_encodeThread := Ended,
        sp_encoder := (sp_encoder p2)\<lparr>ff_thread := Ended\<rparr>\<rparr>)) (\<lambda>(ok, p4).
     rbind (sp_start sample_platform 0 p4) (\<lambda>p5.
     rbind (sp_encode_round sample_platform 0 p5) (\<lambda>p6.
     rbind (ff_run_open (pf_ffmpeg sample_platform) (sp_encoder p6)) (\<lambda>wk.
     case ff_avctx (sp_encoder p6) of
       None \<Rightarrow> Inl Undef
     | Some (cfg, c) \<Rightarrow> rbind (c_assert (c = [])) (\<lambda>_. Inr ([p1, p2, p4, p5, p6], wk, cfg)))))))))"

lemma sample_restart_runs: "\<exists>r. sample_restart = Inr r"
  by (simp add: sample_restart_def sp_capture_round_def sample_platform_def sample_pipeline_def sample_sws_def capture_eval arena_eval
      scaler_new_def setOutputFormat_def sp_stop_def ff_stop_def sp_setEncoderMode_def sp_start_def sp_encode_round_def ff_eval
      scale2avpixfmt_def capture_stop_def capture_start_def checkInterval_def setFrequency_def popOutput_def)



end
