(* ===== verification/AudioCapture.thy ===== *)
theory AudioCapture
  imports Prelude
begin

text \<open>
  \<open>AudioCaptureWASAPI\<close> of \<open>src/src/server/platform/windows/AudioCaptureWASAPI.h\<close> and \<open>.cpp\<close>: one thread records what the
  computer plays, another plays silence, so that there is always something to record.

  Windows' audio client is the record \<open>wasapi\<close>, a recording client a machine of type \<open>'w\<close>, a rendering client a
  machine of type \<open>'p\<close>. Every call that may fail fails with the message of the code.
\<close>

subsection \<open>Recording\<close>

datatype sub_format = SUBTYPE_PCM | SUBTYPE_IEEE_FLOAT | SUBTYPE_OTHER

record wave_format =
  wf_extensible :: bool
  wf_sub :: sub_format
  wf_bits :: nat
  wf_rate :: int
  wf_channels :: nat

datatype sample_fmt = SAMPLE_NONE | SAMPLE_U8 | SAMPLE_S16 | SAMPLE_S32 | SAMPLE_FLT | SAMPLE_DBL

definition wave2avsample :: "wave_format \<Rightarrow> sample_fmt" where
  "wave2avsample fmt =
     (if wf_extensible fmt
      then (if wf_sub fmt = SUBTYPE_PCM
            then (if wf_bits fmt = 8 then SAMPLE_U8 else if wf_bits fmt = 16 then SAMPLE_S16
                  else if wf_bits fmt = 32 then SAMPLE_S32 else SAMPLE_NONE)
            else if wf_sub fmt = SUBTYPE_IEEE_FLOAT
            then (if wf_bits fmt = 32 then SAMPLE_FLT else if wf_bits fmt = 64 then SAMPLE_DBL else SAMPLE_NONE)
            else SAMPLE_NONE)
      else SAMPLE_NONE)"

definition sizeofSample :: "wave_format \<Rightarrow> nat" where
  "sizeofSample fmt =
     (if wf_bits fmt = 8 then 1 else if wf_bits fmt = 16 then 2 else if wf_bits fmt = 32 then 4 else if wf_bits fmt = 64 then 8 else 0)"

datatype buffer_result = AUDIO_DATA (au_frames: nat) (au_data: bytes) (au_silent: bool) (au_timestampError: bool) | AUDIO_ERROR

record 'w wasapi =
  co_initialize :: bool
  co_enumerator :: bool
  co_endpoint :: bool
  co_activate :: bool
  co_mixFormat :: "wave_format option"
  co_cbSize :: nat
  co_initClient :: bool
  co_service :: bool
  co_start :: bool
  co_stop :: bool
  co_getBuffer :: "'w \<Rightarrow> buffer_result \<times> 'w"
  co_releaseBuffer :: "nat \<Rightarrow> 'w \<Rightarrow> 'w"

record audio_capture =
  ac_run :: bool
  ac_record :: thread_state
  ac_playback :: thread_state

definition ac_start :: "audio_capture \<Rightarrow> audio_capture res" where
  "ac_start c =
     (if ac_record c \<noteq> Idle \<or> ac_playback c \<noteq> Idle then Inl Aborted
      else Inr \<lparr>ac_run = True, ac_record = Working, ac_playback = Working\<rparr>)"

definition ac_stop_begin :: "audio_capture \<Rightarrow> audio_capture" where
  "ac_stop_begin c = c\<lparr>ac_run := False\<rparr>"

definition ac_stop_end :: "audio_capture \<Rightarrow> audio_capture res" where
  "ac_stop_end c =
     rbind (join_or_throw (ac_record c)) (\<lambda>r. rbind (join_or_throw (ac_playback c)) (\<lambda>p. Inr (c\<lparr>ac_record := r, ac_playback := p\<rparr>)))"

text \<open>The head of both threads: the format the default output device plays in.\<close>

definition endpoint_open :: "'w wasapi \<Rightarrow> wave_format res" where
  "endpoint_open W =
     rbind (assert_quit (co_initialize W) ''Failed to initialize COM'') (\<lambda>_.
     rbind (assert_quit (co_enumerator W) ''Failed to create audio device enumerator'') (\<lambda>_.
     rbind (assert_quit (co_endpoint W) ''Failed to get default audio endpoint'') (\<lambda>_.
     if \<not> co_activate W then Inl Undef
     else case co_mixFormat W of
       None \<Rightarrow> error_quit ''Failed to retrieve mix format''
     | Some fmt \<Rightarrow>
         rbind (assert_quit (22 \<le> co_cbSize W) ''Mix format larger than WAVEFORMATEXTENSIBLE'') (\<lambda>_.
         if 22 < co_cbSize W then Inl Undef else Inr fmt))))"

definition check_format :: "wave_format \<Rightarrow> unit res" where
  "check_format fmt = assert_quit (wave2avsample fmt \<noteq> SAMPLE_NONE \<and> sizeofSample fmt \<noteq> 0)
     ''Failed to determine appropriate representation of waveformat''"

definition record_open :: "'w wasapi \<Rightarrow> (sample_fmt \<times> int \<times> nat \<times> nat) res" where
  "record_open W =
     rbind (endpoint_open W) (\<lambda>fmt.
     rbind (assert_quit (co_initClient W) ''Failed to initialize audio client as loopback mode'') (\<lambda>_.
     rbind (check_format fmt) (\<lambda>_. Inr (wave2avsample fmt, wf_rate fmt, wf_channels fmt, sizeofSample fmt))))"

definition record_begin :: "'w wasapi \<Rightarrow> unit res" where
  "record_begin W =
     rbind (assert_quit (co_service W) ''Failed to get audio capture client'') (\<lambda>_. assert_quit (co_start W) ''Failed to start audio capture client'')"

text \<open>
  One round of the recording loop: what is handed to \<open>onAudioData\<close>, and the silence buffer, which only ever grows. After
  a timestamp error \<open>continue\<close> skips the release of the buffer.
\<close>

definition record_round :: "'w wasapi \<Rightarrow> nat \<Rightarrow> nat \<Rightarrow> bool \<times> nat \<times> 'w \<Rightarrow> (bytes list \<times> bool \<times> nat \<times> 'w) res" where
  "record_round W sampleSize channels s =
     (case s of (receivedFirst, silence, w) \<Rightarrow>
      case co_getBuffer W w of
        (AUDIO_ERROR, w') \<Rightarrow> error_quit ''Unknown error from GetBuffer: {:#x}''
      | (AUDIO_DATA frames data silent tsError, w') \<Rightarrow>
          (if tsError then Inr ([], receivedFirst, silence, w')
           else if frames = 0 then Inr ([], True, silence, co_releaseBuffer W frames w')
           else let byteLen = frames * sampleSize * channels in
             if silent then Inr ([replicate byteLen 0], True, max silence byteLen, co_releaseBuffer W frames w')
             else if length data < byteLen then Inl Undef else Inr ([take byteLen data], True, silence, co_releaseBuffer W frames w')))"

definition record_end :: "'w wasapi \<Rightarrow> unit res" where
  "record_end W = assert_quit (co_stop W) ''Failed to stop audio client''"

text \<open>The whole of \<open>runRecord_\<close> for a flag that is cleared after \<open>n\<close> rounds: the format and everything recorded.\<close>

fun record_rounds :: "'w wasapi \<Rightarrow> nat \<Rightarrow> nat \<Rightarrow> nat \<Rightarrow> bool \<times> nat \<times> 'w \<Rightarrow> (bytes list \<times> bool \<times> nat \<times> 'w) res" where
  "record_rounds W sampleSize channels 0 s = Inr ([], s)"
| "record_rounds W sampleSize channels (Suc n) s =
     rbind (record_round W sampleSize channels s) (\<lambda>(out, s').
     rbind (record_rounds W sampleSize channels n s') (\<lambda>(outs, s''). Inr (out @ outs, s'')))"

definition runRecord :: "'w wasapi \<Rightarrow> nat \<Rightarrow> 'w \<Rightarrow> ((sample_fmt \<times> int \<times> nat) \<times> bytes list) res" where
  "runRecord W n w =
     rbind (record_open W) (\<lambda>(fmt, rate, channels, sampleSize).
     rbind (record_begin W) (\<lambda>_.
     rbind (record_rounds W sampleSize channels n (False, 0, w)) (\<lambda>(outs, s).
     rbind (record_end W) (\<lambda>_. Inr ((fmt, rate, channels), outs)))))"

subsection \<open>Playing silence\<close>

record 'p render_client =
  rc_service :: bool
  rc_bufferSize :: nat
  rc_getBuffer :: "nat \<Rightarrow> 'p \<Rightarrow> bytes option \<times> 'p"
  rc_releaseBuffer :: "nat \<Rightarrow> bool \<Rightarrow> 'p \<Rightarrow> bool \<times> 'p"
  rc_padding :: "'p \<Rightarrow> nat option"

text \<open>The head of \<open>runPlayback_\<close>: the device's buffer is filled with zero bytes and playing starts. The first result is its size.\<close>

definition playback_open :: "'w wasapi \<Rightarrow> 'p render_client \<Rightarrow> 'p \<Rightarrow> (nat \<times> 'p) res" where
  "playback_open W C p =
     rbind (endpoint_open W) (\<lambda>fmt.
     rbind (assert_quit (co_initClient W) ''Failed to initialize audio playback client'') (\<lambda>_.
     rbind (check_format fmt) (\<lambda>_.
     rbind (assert_quit (rc_service C) ''Failed to get audio render client'') (\<lambda>_.
     let bufferFrameCnt = rc_bufferSize C in
     case rc_getBuffer C bufferFrameCnt p of
       (None, p1) \<Rightarrow> error_quit ''Failed to retrieve buffer for initial fill''
     | (Some data, p1) \<Rightarrow>
         rbind (blit data 0 (replicate (bufferFrameCnt * sizeofSample fmt * wf_channels fmt) 0)) (\<lambda>_.
         let (ok, p2) = rc_releaseBuffer C bufferFrameCnt False p1 in
         rbind (assert_quit ok ''Failed to release buffer for initial fill'') (\<lambda>_.
         rbind (assert_quit (co_start W) ''Failed to start audio render client'') (\<lambda>_. Inr (bufferFrameCnt, p2))))))))"

definition playback_round :: "'p render_client \<Rightarrow> nat \<Rightarrow> 'p \<Rightarrow> 'p res" where
  "playback_round C bufferFrameCnt p =
     (case rc_padding C p of
        None \<Rightarrow> error_quit ''Failed to get current padding''
      | Some currPad \<Rightarrow>
          if currPad < bufferFrameCnt
          then (let framesToWrite = bufferFrameCnt - currPad in
                case rc_getBuffer C framesToWrite p of
                  (None, p1) \<Rightarrow> error_quit ''Unknown error from GetBuffer: {:#x}''
                | (Some data, p1) \<Rightarrow> Inr (snd (rc_releaseBuffer C framesToWrite True p1)))
          else Inr p)"

subsection \<open>What the two threads do\<close>

text \<open>
  A capture client refuses \<open>GetBuffer\<close> while a buffer is out. Then a buffer with a timestamp error, which the code means to
  skip, ends the process in the next round.
\<close>

lemma timestamp_error_ends:
  assumes "co_getBuffer W w = (AUDIO_DATA frames data silent True, w')" and "fst (co_getBuffer W w') = AUDIO_ERROR"
  shows "record_rounds W sampleSize channels (Suc (Suc n)) (first, silence, w) = Inl (Fatal ''Unknown error from GetBuffer: {:#x}'')"
proof -
  obtain w'' where "co_getBuffer W w' = (AUDIO_ERROR, w'')" using assms(2) by (cases "co_getBuffer W w'") auto
  with assms(1) show ?thesis by (simp add: record_round_def error_quit_def)
qed

text \<open>Every piece handed on is as long as its frames.\<close>

lemma record_round_length:
  "record_round W sampleSize channels s = Inr (outs, s') \<Longrightarrow> out \<in> set outs \<Longrightarrow> sampleSize * channels dvd length out"
  by (auto simp: record_round_def error_quit_def Let_def split: prod.splits buffer_result.splits if_splits)

lemma record_rounds_length:
  "record_rounds W sampleSize channels n s = Inr (outs, s') \<Longrightarrow> out \<in> set outs \<Longrightarrow> sampleSize * channels dvd length out"
  by (induction n arbitrary: s outs) (fastforce simp: rbind_eq_Inr dest: record_round_length split: prod.splits)+

text \<open>
  A device that counts the frames it still has to play: it hands out what fits and takes what was handed out. On such
  a device no round fails, and after each the buffer is full.
\<close>

definition counts_frames :: "'p render_client \<Rightarrow> ('p \<Rightarrow> nat) \<Rightarrow> bool" where
  "counts_frames C queued \<longleftrightarrow> (\<forall>p. queued p \<le> rc_bufferSize C \<longrightarrow> rc_padding C p = Some (queued p) \<and>
     (\<forall>k. queued p + k \<le> rc_bufferSize C \<longrightarrow>
        (\<exists>data p1. rc_getBuffer C k p = (Some data, p1) \<and> (\<forall>s. queued (snd (rc_releaseBuffer C k s p1)) = queued p + k))))"

lemma playback_round_fills:
  assumes "counts_frames C queued" and "queued p \<le> rc_bufferSize C"
  shows "\<exists>p'. playback_round C (rc_bufferSize C) p = Inr p' \<and> queued p' = rc_bufferSize C"
proof (cases "queued p < rc_bufferSize C")
  case True
  then have "queued p + (rc_bufferSize C - queued p) \<le> rc_bufferSize C" by simp
  with assms obtain data p1 where "rc_getBuffer C (rc_bufferSize C - queued p) p = (Some data, p1)"
    "queued (snd (rc_releaseBuffer C (rc_bufferSize C - queued p) True p1)) = queued p + (rc_bufferSize C - queued p)"
    unfolding counts_frames_def by blast
  moreover have "rc_padding C p = Some (queued p)" using assms by (simp add: counts_frames_def)
  ultimately show ?thesis using True by (simp add: playback_round_def Let_def)
next
  case False
  moreover have "rc_padding C p = Some (queued p)" using assms by (simp add: counts_frames_def)
  ultimately show ?thesis using assms(2) by (simp add: playback_round_def)
qed

text \<open>Between two rounds the device plays some of what it has; the thread still never fails.\<close>

fun playback_rounds :: "'p render_client \<Rightarrow> ('p \<Rightarrow> 'p) list \<Rightarrow> 'p \<Rightarrow> 'p res" where
  "playback_rounds C [] p = Inr p"
| "playback_rounds C (play # plays) p = rbind (playback_round C (rc_bufferSize C) (play p)) (playback_rounds C plays)"

lemma playback_never_fails:
  assumes "counts_frames C queued" and "queued p \<le> rc_bufferSize C" and "\<And>play q. play \<in> set plays \<Longrightarrow> queued (play q) \<le> queued q"
  shows "\<exists>p'. playback_rounds C plays p = Inr p' \<and> queued p' \<le> rc_bufferSize C"
  using assms(2,3)
proof (induction plays arbitrary: p)
  case (Cons play plays)
  have "queued (play p) \<le> rc_bufferSize C" using Cons.prems(1) Cons.prems(2) [of play p] by simp
  from playback_round_fills [OF assms(1) this] obtain p' where "playback_round C (rc_bufferSize C) (play p) = Inr p'" "queued p' = rc_bufferSize C"
    by blast
  moreover have "\<exists>p''. playback_rounds C plays p' = Inr p'' \<and> queued p'' \<le> rc_bufferSize C"
    using Cons.IH [of p'] Cons.prems(2) calculation(2) by simp
  ultimately show ?case by simp
qed simp

end
