(* ===== verification/AudioEncoder.thy ===== *)
theory AudioEncoder
  imports ServerCore EncoderFFmpeg AudioCapture
begin

text \<open>
  \<open>AudioEncoder\<close> (\<open>src/src/server/AudioEncoder.h\<close> and \<open>.cpp\<close>): what \<open>AudioCaptureWASAPI\<close> records is resampled to 48 kHz
  stereo and cut into Opus packets of 960 stereo samples.

  FFmpeg's resampler and the Opus encoder are the record \<open>audio_libs\<close>. A sample of the \<open>deque\<close> is a byte string.
\<close>

subsection \<open>The encoder\<close>

record ('r, 'e) audio_libs =
  swr_init :: "sample_fmt \<Rightarrow> int \<Rightarrow> nat \<Rightarrow> 'r"
  swr_out_samples :: "'r \<Rightarrow> nat \<Rightarrow> int"
  swr_convert :: "'r \<Rightarrow> bytes \<Rightarrow> nat \<Rightarrow> (int \<times> bytes) \<times> 'r"
  opus_create :: "(int \<times> 'e) option"
  opus_encode :: "'e \<Rightarrow> bytes \<Rightarrow> nat \<Rightarrow> (int \<times> bytes) \<times> 'e"

record ('r, 'e) audio_encoder =
  ae_run :: bool
  ae_cap :: audio_capture
  ae_worker :: thread_state
  ae_swr :: "'r option"
  ae_enc :: "'e option"
  ae_buffer :: "bytes list"
  samplingRate :: int
  ae_channels :: int

definition onConfigured :: "('r, 'e) audio_libs \<Rightarrow> sample_fmt \<Rightarrow> int \<Rightarrow> nat \<Rightarrow> ('r, 'e) audio_encoder \<Rightarrow> ('r, 'e) audio_encoder res" where
  "onConfigured L fmt sr ch a =
     rbind (assert_quit (ch = 1 \<or> ch = 2) ''Unsupported audio channel count: {}'') (\<lambda>_.
     case opus_create L of
       None \<Rightarrow> error_quit ''Failed to create opus encoder''
     | Some (err, enc) \<Rightarrow> rbind (assert_quit (err = 0) ''Failed to create opus encoder'') (\<lambda>_.
         Inr (a\<lparr>samplingRate := sr, ae_channels := int ch, ae_swr := Some (swr_init L fmt sr ch), ae_enc := Some enc\<rparr>)))"

text \<open>
  The resampler writes stereo floats, eight bytes a sample, into a buffer of \<open>maxOutput * channels * 4\<close> bytes; writing
  past it is undefined. The conversion writes \<open>stat\<close> samples.
\<close>

definition onCaptured :: "('r, 'e) audio_libs \<Rightarrow> bytes \<Rightarrow> ('r, 'e) audio_encoder \<Rightarrow> ('r, 'e) audio_encoder res" where
  "onCaptured L data a =
     (case ae_swr a of
        None \<Rightarrow> Inl Undef
      | Some r \<Rightarrow>
          (if ae_channels a \<le> 0 then Inl Undef
           else let frames = length data div nat (ae_channels a) div 4; maxOutput = swr_out_samples L r frames;
                    ((stat, out), r') = swr_convert L r data frames;
                    room = nat maxOutput * nat (ae_channels a) * 4 in
             if maxOutput < 0 then Inl Undef
             else if room < length out then Inl Undef
             else rbind (assert_quit (0 \<le> stat) ''Failed to call swr_convert'') (\<lambda>_.
               let keep = nat stat * nat (ae_channels a) * 4 in
               Inr (a\<lparr>ae_swr := Some r', ae_buffer := ae_buffer a @ [take keep out]\<rparr>))))"

definition ae_start :: "('r, 'e) audio_encoder \<Rightarrow> ('r, 'e) audio_encoder res" where
  "ae_start a =
     rbind (join_thread (ae_worker a)) (\<lambda>_.
     rbind (ac_start (ae_cap a)) (\<lambda>c.
       Inr (a\<lparr>samplingRate := -1, ae_channels := -1, ae_run := True, ae_worker := Working, ae_cap := c\<rparr>)))"

text \<open>\<open>cap->stop()\<close> clears the flag of the recording threads and joins them, so it returns in states where they have ended.\<close>

definition ae_stop :: "('r, 'e) audio_encoder \<Rightarrow> ('r, 'e) audio_encoder res" where
  "ae_stop a =
     rbind (ac_stop_end (ac_stop_begin (ae_cap a))) (\<lambda>c.
       Inr (a\<lparr>ae_cap := c, ae_run := False, ae_buffer := [], ae_swr := None, ae_enc := None\<rparr>))"

subsection \<open>The worker\<close>

definition CHUNK :: nat where
  "CHUNK = 960 * 4 * 2"

definition MAX_PACKET :: nat where
  "MAX_PACKET = 256000 div 8 * 20 div 1000"

record 'e audio_worker =
  aw_buf :: bytes
  aw_writeIdx :: nat
  aw_enc :: 'e

text \<open>One sample buffer of the queue, copied piece by piece into the chunk; every full chunk becomes a packet.\<close>

function pump :: "('r, 'e) audio_libs \<Rightarrow> bytes \<Rightarrow> 'e audio_worker \<Rightarrow> (bytes list \<times> 'e audio_worker) res" where
  "pump L piece w =
     (if piece = [] then Inr ([], w)
      else if length (aw_buf w) \<le> aw_writeIdx w then Inl Undef
      else let amount = min (length piece) (length (aw_buf w) - aw_writeIdx w);
               w1 = w\<lparr>aw_buf := overwrite (aw_buf w) (aw_writeIdx w) (take amount piece), aw_writeIdx := aw_writeIdx w + amount\<rparr> in
        if aw_writeIdx w1 = length (aw_buf w1)
        then (case opus_encode L (aw_enc w1) (aw_buf w1) MAX_PACKET of
                ((stat, out), enc) \<Rightarrow>
                  rbind (assert_quit (0 \<le> stat) ''Failed to call opus_encode_float'') (\<lambda>_.
                  rbind (pump L (drop amount piece) (w1\<lparr>aw_writeIdx := 0, aw_enc := enc\<rparr>)) (\<lambda>(ps, w2).
                    Inr (take (nat stat) out # ps, w2))))
        else pump L (drop amount piece) w1)"
  by pat_completeness auto
termination
proof (relation "measure (\<lambda>(L, piece, w). length piece)", goal_cases)
  case 1
  then show ?case by simp
next
  case (2 L piece w amount w1 e stat out enc u)
  then have "0 < amount" by (auto simp: min_def)
  with 2 show ?case by auto
next
  case (3 L piece w amount w1)
  then have "0 < amount" by (auto simp: min_def)
  with 3 show ?case by auto
qed

declare pump.simps [simp del]

definition worker_new :: "'e \<Rightarrow> 'e audio_worker" where
  "worker_new enc = \<lparr>aw_buf = replicate CHUNK 0, aw_writeIdx = 0, aw_enc = enc\<rparr>"

text \<open>The worker over the buffers it takes from the queue, in order.\<close>

fun pump_all :: "('r, 'e) audio_libs \<Rightarrow> bytes list \<Rightarrow> 'e audio_worker \<Rightarrow> (bytes list \<times> 'e audio_worker) res" where
  "pump_all L [] w = Inr ([], w)"
| "pump_all L (b # bs) w =
     rbind (pump L b w) (\<lambda>(ps, w1). rbind (pump_all L bs w1) (\<lambda>(qs, w2). Inr (ps @ qs, w2)))"


subsection \<open>What the worker computes\<close>

text \<open>The reference: the stream of sample bytes, cut every \<open>CHUNK\<close> bytes; the rest waits.\<close>

function encode_chunks :: "('r, 'e) audio_libs \<Rightarrow> 'e \<Rightarrow> bytes \<Rightarrow> (bytes list \<times> 'e \<times> bytes) res" where
  "encode_chunks L enc xs =
     (if length xs < CHUNK then Inr ([], enc, xs)
      else (case opus_encode L enc (take CHUNK xs) MAX_PACKET of
              ((stat, out), enc') \<Rightarrow>
                rbind (assert_quit (0 \<le> stat) ''Failed to call opus_encode_float'') (\<lambda>_.
                rbind (encode_chunks L enc' (drop CHUNK xs)) (\<lambda>(ps, e, rest). Inr (take (nat stat) out # ps, e, rest)))))"
  by pat_completeness auto
termination
  by (relation "measure (\<lambda>(L, enc, xs). length xs)") (auto simp: CHUNK_def)

declare encode_chunks.simps [simp del]

definition worker_ok :: "'e audio_worker \<Rightarrow> bool" where
  "worker_ok w \<longleftrightarrow> length (aw_buf w) = CHUNK \<and> aw_writeIdx w < CHUNK"

definition gathered :: "'e audio_worker \<Rightarrow> bytes" where
  "gathered w = take (aw_writeIdx w) (aw_buf w)"

definition observe :: "(bytes list \<times> 'e audio_worker) res \<Rightarrow> (bytes list \<times> 'e \<times> bytes) res" where
  "observe r = rbind r (\<lambda>(ps, w). Inr (ps, aw_enc w, gathered w))"

lemma encode_short: "length xs < CHUNK \<Longrightarrow> encode_chunks L e xs = Inr ([], e, xs)"
  by (simp add: encode_chunks.simps)

lemma worker_new_ok: "worker_ok (worker_new e)"
  by (simp add: worker_ok_def worker_new_def CHUNK_def)

lemma pump_Nil: "pump L [] w = Inr ([], w)"
  by (simp add: pump.simps)

lemma pump_observe:
  "worker_ok w \<Longrightarrow> observe (pump L piece w) = encode_chunks L (aw_enc w) (gathered w @ piece) \<and>
     (\<forall>ps w'. pump L piece w = Inr (ps, w') \<longrightarrow> worker_ok w')"
proof (induction L piece w rule: pump.induct)
  case (1 L piece w)
  note ok = "1.prems"
  show ?case
  proof (cases "piece = []")
    case True
    with ok show ?thesis
      by (simp add: pump_Nil observe_def encode_short gathered_def worker_ok_def)
  next
    case False
    define n where "n = min (length piece) (length (aw_buf w) - aw_writeIdx w)"
    define w1 where "w1 = w\<lparr>aw_buf := overwrite (aw_buf w) (aw_writeIdx w) (take n piece), aw_writeIdx := aw_writeIdx w + n\<rparr>"
    have lt: "\<not> length (aw_buf w) \<le> aw_writeIdx w" using ok by (simp add: worker_ok_def)
    have w1: "length (aw_buf w1) = CHUNK" "take (aw_writeIdx w1) (aw_buf w1) = gathered w @ take n piece" "aw_enc w1 = aw_enc w"
      "aw_writeIdx w1 \<le> CHUNK"
      using ok by (auto simp: w1_def n_def worker_ok_def gathered_def overwrite_def)
    have split: "gathered w @ piece = (gathered w @ take n piece) @ drop n piece" by simp
    show ?thesis
    proof (cases "aw_writeIdx w1 = length (aw_buf w1)")
      case True
      with w1 have full: "aw_buf w1 = gathered w @ take n piece" by simp
      obtain stat out enc where o: "opus_encode L (aw_enc w1) (aw_buf w1) MAX_PACKET = ((stat, out), enc)"
        by (metis surj_pair)
      define w2 where "w2 = w1\<lparr>aw_writeIdx := 0, aw_enc := enc\<rparr>"
      have p: "pump L piece w = rbind (assert_quit (0 \<le> stat) ''Failed to call opus_encode_float'') (\<lambda>_.
                  rbind (pump L (drop n piece) w2) (\<lambda>(ps, w2). Inr (take (nat stat) out # ps, w2)))"
        using False lt True o by (simp add: pump.simps [of L piece] Let_def w1_def n_def w2_def)
      have ok2: "worker_ok w2" "gathered w2 = []" "aw_enc w2 = enc"
        using w1 by (simp_all add: w2_def worker_ok_def gathered_def CHUNK_def)
      have e: "encode_chunks L (aw_enc w) (gathered w @ piece) = rbind (assert_quit (0 \<le> stat) ''Failed to call opus_encode_float'') (\<lambda>_.
                rbind (encode_chunks L enc (drop n piece)) (\<lambda>(ps, e, rest). Inr (take (nat stat) out # ps, e, rest)))"
      proof -
        have len: "length (aw_buf w1) = CHUNK" by (rule w1(1))
        then have "take CHUNK (gathered w @ piece) = aw_buf w1" "drop CHUNK (gathered w @ piece) = drop n piece" "\<not> length (gathered w @ piece) < CHUNK"
          unfolding split full [symmetric] by simp_all
        with o w1(3) show ?thesis by (simp add: encode_chunks.simps [of L "aw_enc w"])
      qed
      show ?thesis
      proof (cases "0 \<le> stat")
        case True
        note IH = "1.IH"(1) [OF False lt n_def w1_def \<open>aw_writeIdx w1 = length (aw_buf w1)\<close> o [symmetric] refl, folded w2_def]
        from IH [of "()"] True ok2 have "observe (pump L (drop n piece) w2) = encode_chunks L enc (drop n piece)"
          "\<forall>ps w'. pump L (drop n piece) w2 = Inr (ps, w') \<longrightarrow> worker_ok w'" by auto
        then have ob: "encode_chunks L enc (drop n piece) = observe (pump L (drop n piece) w2)"
          and k: "\<And>ps w'. pump L (drop n piece) w2 = Inr (ps, w') \<Longrightarrow> worker_ok w'" by simp_all
        show ?thesis
          using p e True k by (cases "pump L (drop n piece) w2") (auto simp: ob observe_def)
      next
        case neg: False
        with p e show ?thesis by (simp add: observe_def)
      qed
    next
      case notfull: False
      with w1 have ok1: "worker_ok w1" "gathered w1 = gathered w @ take n piece" by (auto simp: worker_ok_def gathered_def)
      have p: "pump L piece w = pump L (drop n piece) w1"
        unfolding pump.simps [of L piece w] Let_def n_def [symmetric] w1_def [symmetric] using False lt notfull by simp
      from "1.IH"(2) [OF False lt n_def w1_def notfull ok1(1)] ok1(2) w1(3) show ?thesis by (simp add: p)
    qed
  qed
qed

lemma encode_chunks_append:
  "encode_chunks L e (xs @ ys) = rbind (encode_chunks L e xs) (\<lambda>(ps, e', rest).
     rbind (encode_chunks L e' (rest @ ys)) (\<lambda>(qs, e'', r). Inr (ps @ qs, e'', r)))"
proof (induction L e xs rule: encode_chunks.induct)
  case (1 L e xs)
  show ?case
  proof (cases "length xs < CHUNK")
    case True
    then show ?thesis by (cases "encode_chunks L e (xs @ ys)") (auto simp: encode_short)
  next
    case False
    obtain stat out e' where o: "opus_encode L e (take CHUNK xs) MAX_PACKET = ((stat, out), e')" by (metis surj_pair)
    have a: "take CHUNK (xs @ ys) = take CHUNK xs" "drop CHUNK (xs @ ys) = drop CHUNK xs @ ys" "\<not> length (xs @ ys) < CHUNK"
      using False by auto
    show ?thesis
    proof (cases "0 \<le> stat")
      case True
      from "1.IH" [OF False o [symmetric] refl, of "()"] True
      have "encode_chunks L e' (drop CHUNK xs @ ys) = rbind (encode_chunks L e' (drop CHUNK xs)) (\<lambda>(ps, e', rest).
         rbind (encode_chunks L e' (rest @ ys)) (\<lambda>(qs, e'', r). Inr (ps @ qs, e'', r)))" by (simp only: simp_thms assert_quit_simps)
      with False True o a show ?thesis
        by (cases "encode_chunks L e' (drop CHUNK xs)")
          (auto simp: encode_chunks.simps [of L e] rbind_def split: sum.splits)
    next
      case neg: False
      with False o a show ?thesis by (simp add: encode_chunks.simps [of L e])
    qed
  qed
qed

subsection \<open>The packets are the stream, cut\<close>

text \<open>C25: however the recording cuts the sound into buffers, the worker's packets, their order, an encoder failure, and what it keeps
  for the next packet are those of encoding the concatenated samples 7680 bytes, that is 960 stereo samples, at a time;
  it never reads or writes outside its buffers.\<close>

theorem audio_chunks:
  "rbind (pump_all L bs (worker_new enc)) (\<lambda>(ps, w). Inr (ps, aw_enc w, take (aw_writeIdx w) (aw_buf w))) =
     encode_chunks L enc (concat bs)"
proof -
  have "worker_ok w \<Longrightarrow> observe (pump_all L bs w) = encode_chunks L (aw_enc w) (gathered w @ concat bs)" for w
  proof (induction bs arbitrary: w)
    case Nil
    then show ?case by (simp add: observe_def encode_short gathered_def worker_ok_def)
  next
    case (Cons b bs)
    from pump_observe [OF Cons.prems, of L b]
    have o: "observe (pump L b w) = encode_chunks L (aw_enc w) (gathered w @ b)"
      and k: "\<And>ps w'. pump L b w = Inr (ps, w') \<Longrightarrow> worker_ok w'" by auto
    show ?case
    proof (cases "pump L b w")
      case (Inl e)
      with o have "encode_chunks L (aw_enc w) (gathered w @ b) = Inl e" by (simp add: observe_def)
      with Inl show ?thesis using encode_chunks_append [of L "aw_enc w" "gathered w @ b" "concat bs"] by (simp add: observe_def)
    next
      case (Inr r)
      then obtain ps w1 where r: "pump L b w = Inr (ps, w1)" by (cases r) auto
      with o have "encode_chunks L (aw_enc w) (gathered w @ b) = Inr (ps, aw_enc w1, gathered w1)" by (simp add: observe_def)
      with r encode_chunks_append [of L "aw_enc w" "gathered w @ b" "concat bs"]
      show ?thesis by (cases "pump_all L bs w1") (auto simp: observe_def simp flip: Cons.IH [OF k [OF r]])
    qed
  qed
  from this [OF worker_new_ok, of enc] show ?thesis
    by (simp add: observe_def gathered_def worker_new_def split_def)
qed


subsection \<open>Room for the resampled sound\<close>

text \<open>Given that the resampler writes stereo floats, eight bytes for each of the \<open>stat\<close> samples it returns, never more than it
  announced, a stereo recording is queued completely; a mono one either overruns its buffer, as soon as more than
  half of the announced samples come, or loses the second half of its bytes.\<close>

lemma audio_room:
  assumes "ae_swr a = Some r" and "ae_channels a = int ch" and "ch = 1 \<or> ch = 2"
    and "swr_convert L r data (length data div ch div 4) = ((stat, out), r')"
    and "swr_out_samples L r (length data div ch div 4) = m" and "length out = 8 * nat stat" and "0 \<le> stat" and "stat \<le> m"
  shows "onCaptured L data a =
    (if ch = 1 \<and> m < 2 * stat then Inl Undef
     else Inr (a\<lparr>ae_swr := Some r', ae_buffer := ae_buffer a @ [if ch = 2 then out else take (4 * nat stat) out]\<rparr>))"
proof (cases "ch = 1")
  case True
  have "m < 2 * stat \<longleftrightarrow> nat m * 4 < length out" using assms(6-8) by auto
  with True assms show ?thesis by (auto simp: onCaptured_def Let_def algebra_simps)
next
  case False
  with assms(3) have c: "ch = 2" by simp
  have "\<not> nat m * 8 < length out" "length out = nat stat * 8" using assms(6-8) by auto
  with c assms show ?thesis by (simp add: onCaptured_def Let_def)
qed

definition sample_audio :: "(unit, unit) audio_libs" where
  "sample_audio = \<lparr>swr_init = (\<lambda>_ _ _. ()), swr_out_samples = (\<lambda>_ n. int n),
     swr_convert = (\<lambda>_ data n. ((int n, replicate (8 * n) 1), ())), opus_create = Some (0, ()),
     opus_encode = (\<lambda>_ _ _. ((1, [7]), ()))\<rparr>"

definition sample_audio_encoder :: "(unit, unit) audio_encoder" where
  "sample_audio_encoder = \<lparr>ae_run = True, ae_cap = \<lparr>ac_run = True, ac_record = Working, ac_playback = Working\<rparr>, ae_worker = Working,
     ae_swr = Some (), ae_enc = Some (), ae_buffer = [], samplingRate = 48000, ae_channels = 1\<rparr>"

lemma audio_room_witness: "onCaptured sample_audio (replicate 8 3) sample_audio_encoder = Inl Undef"
  using audio_room [of sample_audio_encoder "()" 1 sample_audio "replicate 8 3" 2 "replicate 16 1" "()" 2]
  by (simp add: sample_audio_encoder_def sample_audio_def)

subsection \<open>The contract of the server\<close>

interpretation audio: switchable ae_run ae_start ae_stop
proof
  fix x x' :: "('r, 'e) audio_encoder"
  have stops: "ac_stop_end c \<noteq> Inl (Fatal m)" for c m
    by (cases "ac_record c"; cases "ac_playback c") (simp_all add: ac_stop_end_def join_or_throw_def join_thread_def)
  show "\<not> ae_run x \<Longrightarrow> ae_start x = Inr x' \<Longrightarrow> ae_run x'"
    by (auto simp: ae_start_def rbind_eq_Inr)
  show "ae_run x \<Longrightarrow> ae_stop x = Inr x' \<Longrightarrow> \<not> ae_run x'"
    by (auto simp: ae_stop_def rbind_eq_Inr)
  show "ae_run x \<Longrightarrow> ae_stop x \<noteq> Inl (Fatal ''Stopping when not running!'')"
    using stops by (cases "ac_stop_end (ac_stop_begin (ae_cap x))") (auto simp: ae_stop_def)
  show "\<not> ae_run x \<Longrightarrow> ae_start x \<noteq> Inl (Fatal ''Starting without stopping first!'')"
    by (cases "ae_worker x") (auto simp: ae_start_def ac_start_def join_thread_def)
qed

end
