(* ===== verification/NetworkClock.thy ===== *)
theory NetworkClock
  imports Prelude "HOL-Library.AList"
begin

text \<open>
  \<open>NetworkClock\<close> of \<open>src/src/client/NetworkClock.h\<close> and \<open>.cpp\<close>: the client's estimate of the server's clock, corrected
  by the pings that \<open>generatePing\<close> asks for and \<open>adjust\<close> evaluates.

  A reading of \<open>std::chrono::steady_clock\<close> is its count of nanoseconds, an argument of the operation that takes it; the
  clock's own time is in microseconds. Durations are 64-bit signed: \<open>i64\<close> is an arithmetic step of theirs, undefined when
  it overflows, and \<open>wrap64\<close> the update of the atomic \<open>epoch\<close>, which wraps. \<open>pingReqMap\<close> is an association list, the
  next value of the random engine an argument.
\<close>

definition PANIC_THRESHOLD :: int where
  "PANIC_THRESHOLD = 300000"

definition MINIMUM_THRESHOLD :: int where
  "MINIMUM_THRESHOLD = 100"

text \<open>In nanoseconds.\<close>

definition TIMING_TABLE :: "int list" where
  "TIMING_TABLE = map (\<lambda>ms. ms * 1000000) [1, 10, 10, 100, 300, 300, 300, 5000, 5000, 25000]"

record network_clock =
  nc_epoch :: int
  networkLatency :: int
  networkJitter :: int
  pingTimingIdx :: nat
  lastPing :: int
  pingReqMap :: "(u32 \<times> int) list"

definition nc_new :: "int \<Rightarrow> int \<Rightarrow> network_clock" where
  "nc_new t0 t1 = \<lparr>nc_epoch = t0, networkLatency = 0, networkJitter = 0, pingTimingIdx = 0, lastPing = t1, pingReqMap = []\<rparr>"

definition nc_time :: "int \<Rightarrow> network_clock \<Rightarrow> int res" where
  "nc_time now c = rbind (i64 (now - nc_epoch c)) (\<lambda>d. Inr (c_div d 1000))"

definition monotonicHint :: "int \<Rightarrow> int \<Rightarrow> int \<Rightarrow> network_clock \<Rightarrow> network_clock res" where
  "monotonicHint t1 t2 clockLeast c =
     rbind (nc_time t1 c) (\<lambda>currTime.
       if clockLeast \<le> currTime then Inr c
       else rbind (nc_time t2 c) (\<lambda>again.
            rbind (i64 (clockLeast - again)) (\<lambda>diff.
            rbind (i64 (diff * 1000)) (\<lambda>adjustment.
              Inr (c\<lparr>nc_epoch := wrap64 (nc_epoch c - adjustment)\<rparr>)))))"

text \<open>The estimate of the latency: an \<open>int\<close>, where 0 means no estimate.\<close>

definition latency_update :: "int \<Rightarrow> int \<Rightarrow> int" where
  "latency_update ping old = max 1 (if old = 0 then wrap32 ping else wrap32 (old + c_div (ping - old) 2))"

text \<open>\<open>currClock\<close> is read on entry, \<open>t1\<close> and \<open>t2\<close> in \<open>monotonicHint\<close>.\<close>

definition adjust :: "int \<Rightarrow> int \<Rightarrow> int \<Rightarrow> u32 \<Rightarrow> u64 \<Rightarrow> network_clock \<Rightarrow> network_clock res" where
  "adjust currClock t1 t2 pingId clock c =
     rbind (monotonicHint t1 t2 (sint clock) c) (\<lambda>c1.
       case map_of (pingReqMap c1) pingId of
         None \<Rightarrow> Inr c1
       | Some prevClock \<Rightarrow>
           let c2 = c1\<lparr>pingReqMap := AList.delete pingId (pingReqMap c1)\<rparr> in
           rbind (i64 (currClock - prevClock)) (\<lambda>d.
             let ping = c_div d 1000;
                 c3 = c2\<lparr>networkLatency := latency_update ping (networkLatency c2)\<rparr>;
                 remoteClock = sint (clock - word_of_int (c_div ping 2)) in
             rbind (i64 (currClock - nc_epoch c1)) (\<lambda>l.
             rbind (i64 (c_div l 1000 - c_div ping 2)) (\<lambda>localClock.
             rbind (i64 (remoteClock - localClock)) (\<lambda>diff.
             rbind (i64 \<bar>diff\<bar>) (\<lambda>absDiff.
             rbind (i64 (diff * 1000)) (\<lambda>adjustment.
               Inr (if PANIC_THRESHOLD \<le> absDiff
                    then c3\<lparr>nc_epoch := wrap64 (nc_epoch c3 - adjustment), pingTimingIdx := 0\<rparr>
                    else if MINIMUM_THRESHOLD \<le> absDiff
                    then c3\<lparr>nc_epoch := wrap64 (nc_epoch c3 - c_div adjustment 2)\<rparr>
                    else c3))))))))"

text \<open>\<open>t1\<close> and \<open>t2\<close> are the two readings of \<open>sendPing_\<close>; requests older than 30 seconds are given up.\<close>

definition sendPing :: "int \<Rightarrow> int \<Rightarrow> u32 \<Rightarrow> network_clock \<Rightarrow> network_clock" where
  "sendPing t1 t2 ident c =
     c\<lparr>lastPing := t1, pingReqMap := AList.update ident t2 (filter (\<lambda>(k, t). \<not> 30000000000 < t1 - t) (pingReqMap c))\<rparr>"

text \<open>The answer is whether to ping and the milliseconds to sleep.\<close>

definition generatePing :: "int \<Rightarrow> int \<Rightarrow> int \<Rightarrow> u32 \<Rightarrow> network_clock \<Rightarrow> ((bool \<times> int) \<times> network_clock) res" where
  "generatePing t0 t1 t2 ident c =
     (if length TIMING_TABLE \<le> pingTimingIdx c then Inl Undef
      else if networkLatency c = 0 \<and> pingReqMap c = []
      then Inr ((True, min 60 (TIMING_TABLE ! pingTimingIdx c div 1000000)), sendPing t1 t2 ident c)
      else if TIMING_TABLE ! pingTimingIdx c \<le> t0 - lastPing c
      then (let c1 = (if pingTimingIdx c < length TIMING_TABLE - 1 then c\<lparr>pingTimingIdx := pingTimingIdx c + 1\<rparr> else c) in
            Inr ((True, min 60 (TIMING_TABLE ! pingTimingIdx c1 div 1000000)), sendPing t1 t2 ident c1))
      else Inr ((False, 15), c))"

subsection \<open>Correcting the clock\<close>

lemma sint_minus:
  assumes "fits64 (sint (x :: u64) - h)"
  shows "sint (x - word_of_int h) = sint x - h"
proof -
  have "sint (x - word_of_int h) = signed_take_bit 63 (sint x - h)"
    using sint_sbintrunc' [of "sint x - h", where ?'a = 64] by simp
  also have "\<dots> = sint x - h" using assms by (intro signed_take_bit_int_eq_self) (auto simp: fits64_def)
  finally show ?thesis .
qed

lemma monotonicHint_keeps:
  "monotonicHint t1 t2 h c = Inr c' \<Longrightarrow> \<exists>e. c' = c\<lparr>nc_epoch := e\<rparr>"
  by (cases c) (auto simp: monotonicHint_def rbind_eq_Inr split: if_splits)

text \<open>After a hint that moved the clock, the clock shows the hinted time.\<close>

lemma monotonicHint_time:
  assumes "monotonicHint t1 t2 h c = Inr c'" and "nc_epoch c \<le> t2" and "0 \<le> h" and "\<bar>nc_epoch c\<bar> < 2 ^ 61" "\<bar>t2\<bar> < 2 ^ 61" "h < 2 ^ 51"
  shows "c' = c \<and> (\<exists>a. nc_time t1 c = Inr a \<and> h \<le> a) \<or> nc_time t2 c' = Inr h"
proof (cases "c' = c \<and> (\<exists>a. nc_time t1 c = Inr a \<and> h \<le> a)")
  case False
  define x where "x = t2 - nc_epoch c"
  have x: "0 \<le> x" "x < 2 ^ 62" "fits64 x" using assms by (auto simp: x_def fits64_def)
  from False assms(1) x(3) have c': "c' = c\<lparr>nc_epoch := wrap64 (nc_epoch c - (h - x div 1000) * 1000)\<rparr>"
    using x(1) by (auto simp: monotonicHint_def rbind_eq_Inr i64_Inr nc_time_def x_def c_div_nonneg split: if_splits)
  have r: "x - (x div 1000) * 1000 = x mod 1000" by (simp add: minus_div_mult_eq_mod)
  have "0 \<le> x div 1000" "(x div 1000) * 1000 \<le> x" using x(1) r by (simp_all add: pos_imp_zdiv_nonneg_iff)
  then have "fits64 (nc_epoch c - (h - x div 1000) * 1000)" using assms x by (auto simp: fits64_def)
  then have "nc_epoch c' = nc_epoch c - (h - x div 1000) * 1000" by (simp add: c' wrap64_id)
  then have e: "t2 - nc_epoch c' = h * 1000 + x mod 1000" using r by (simp add: x_def)
  have m: "0 \<le> x mod 1000" "x mod 1000 < 1000" by simp_all
  with e assms have "fits64 (t2 - nc_epoch c')" "0 \<le> t2 - nc_epoch c'" by (auto simp: fits64_def)
  then have "nc_time t2 c' = Inr ((t2 - nc_epoch c') div 1000)" by (simp add: nc_time_def i64_def c_div_nonneg)
  then show ?thesis using m by (simp add: e)
qed simp

text \<open>What is left of the answer to a ping once the hint has been taken: the two halves of the round trip cancel.\<close>

definition corrected :: "int \<Rightarrow> int \<Rightarrow> int \<Rightarrow> int" where
  "corrected server local epoch =
     (let d = server - local in
      if 300000 \<le> \<bar>d\<bar> then epoch - d * 1000 else if 100 \<le> \<bar>d\<bar> then epoch - c_div (d * 1000) 2 else epoch)"

lemma adjust_epoch:
  assumes a: "adjust cur t1 t2 pid clock c = Inr c'" and h: "monotonicHint t1 t2 (sint clock) c = Inr c1"
    and m: "map_of (pingReqMap c1) pid = Some prev" and now: "nc_time cur c1 = Inr local"
    and r: "\<bar>cur\<bar> < 2 ^ 61" "\<bar>prev\<bar> < 2 ^ 61" "\<bar>nc_epoch c1\<bar> < 2 ^ 61" "0 \<le> sint clock" "sint clock < 2 ^ 51"
  shows "nc_epoch c' = corrected (sint clock) local (nc_epoch c1) \<and> pingReqMap c' = AList.delete pid (pingReqMap c1) \<and>
    1 \<le> networkLatency c' \<and> pingTimingIdx c' = (if 300000 \<le> \<bar>sint clock - local\<bar> then 0 else pingTimingIdx c1) \<and>
    lastPing c' = lastPing c1"
proof -
  define h2 where "h2 = c_div (c_div (cur - prev) 1000) 2"
  have abs: "\<bar>c_div a b\<bar> \<le> \<bar>a\<bar>" if "0 < b" for a b :: int
  proof -
    have "\<bar>c_div a b\<bar> * 1 \<le> \<bar>c_div a b\<bar> * b" using that by (intro mult_left_mono) auto
    also have "\<dots> \<le> \<bar>a\<bar>" using that by (rule c_div_abs_le)
    finally show ?thesis by simp
  qed
  have h2: "\<bar>h2\<bar> < 2 ^ 62" using abs [of 1000 "cur - prev"] abs [of 2 "c_div (cur - prev) 1000"] r(1,2) unfolding h2_def by simp
  have loc: "local = c_div (cur - nc_epoch c1) 1000" using now by (auto simp: nc_time_def i64_Inr rbind_eq_Inr)
  have remote: "sint (clock - word_of_int h2) = sint clock - h2"
    by (rule sint_minus) (use h2 r in \<open>auto simp: fits64_def\<close>)
  have lb: "\<bar>local\<bar> * 1000 \<le> \<bar>cur - nc_epoch c1\<bar>" using c_div_abs_le [of 1000] by (simp add: loc)
  define d where "d = sint clock - local"
  have w: "fits64 (nc_epoch c1 - d * 1000)" "fits64 (nc_epoch c1 - c_div (d * 1000) 2)"
    using lb r abs [of 2 "d * 1000"] unfolding d_def fits64_def by (simp_all split: abs_split) linarith+
  have dd: "sint clock - h2 - (local - h2) = d" by (simp add: d_def)
  from a show ?thesis
    by (auto simp: adjust_def h m rbind_eq_Inr i64_Inr Let_def h2_def [symmetric] remote loc [symmetric] dd corrected_def d_def [symmetric]
        PANIC_THRESHOLD_def MINIMUM_THRESHOLD_def wrap64_id w latency_update_def)
qed

lemma corrected_time:
  assumes "0 \<le> server" and "c_div (cur - epoch) 1000 = local" and "epoch \<le> cur" and "\<bar>cur\<bar> < 2 ^ 61" "\<bar>epoch\<bar> < 2 ^ 61" "server < 2 ^ 51"
    and "nc_epoch c = corrected server local epoch"
  shows "\<exists>t. nc_time cur c = Inr t \<and>
    (if 300000 \<le> \<bar>server - local\<bar> then t = server
     else if 100 \<le> \<bar>server - local\<bar> then \<bar>server - t\<bar> \<le> \<bar>server - local\<bar> div 2 + 1 else t = local)"
proof -
  define x where "x = cur - epoch"
  have x: "0 \<le> x" "x < 2 ^ 62" "local = x div 1000" using assms by (auto simp: x_def c_div_nonneg)
  define d where "d = server - local"
  have split: "x = local * 1000 + x mod 1000" "0 \<le> x mod 1000" "x mod 1000 < 1000" using x(3) by (simp_all add: div_mult_mod_eq)
  have l: "0 \<le> local" "local * 1000 < 2 ^ 62" using split x by (auto simp: pos_imp_zdiv_nonneg_iff)
  define y where "y = (if 300000 \<le> \<bar>d\<bar> then d * 1000 else if 100 \<le> \<bar>d\<bar> then c_div (d * 1000) 2 else 0)"
  have half: "c_div (d * 1000) 2 = d * 500" unfolding c_div_def by (simp add: sgn_if abs_mult)
  have e: "cur - nc_epoch c = x + y" using assms(7) by (simp add: corrected_def x_def y_def d_def [symmetric] Let_def)
  have y: "y = d * 1000 \<or> y = d * 500 \<or> y = 0" by (simp add: y_def half)
  have "0 \<le> x + y" using y split l assms(1) unfolding d_def by (elim disjE) simp_all
  moreover have "x + y < 2 ^ 63" using y x(2) l assms(6) unfolding d_def by (elim disjE) simp_all
  ultimately have t: "nc_time cur c = Inr ((x + y) div 1000)" by (simp add: nc_time_def e i64_def fits64_def c_div_nonneg)
  show ?thesis
  proof (intro exI conjI, rule t)
    consider "300000 \<le> \<bar>d\<bar>" | "\<bar>d\<bar> < 300000" "100 \<le> \<bar>d\<bar>" | "\<bar>d\<bar> < 100" by linarith
    then show "if 300000 \<le> \<bar>server - local\<bar> then (x + y) div 1000 = server
      else if 100 \<le> \<bar>server - local\<bar> then \<bar>server - (x + y) div 1000\<bar> \<le> \<bar>server - local\<bar> div 2 + 1 else (x + y) div 1000 = local"
    proof cases
      case 1
      have "x + y = server * 1000 + x mod 1000" using 1 split(1) by (simp add: y_def d_def algebra_simps)
      with 1 split(2,3) show ?thesis by (simp add: d_def)
    next
      case 2
      have "x + y = local * 1000 + d * 500 + x mod 1000" using 2 split(1) by (simp add: y_def half)
      with 2 split(2,3) show ?thesis unfolding d_def by (simp add: d_def)
    next
      case 3
      then show ?thesis using x(3) by (simp add: y_def d_def)
    qed
  qed
qed

subsection \<open>The schedule of pings\<close>

datatype clock_op =
    OpHint int int int
  | OpAdjust int int int u32 u64
  | OpPing int int int u32

fun clock_step :: "clock_op \<Rightarrow> network_clock \<Rightarrow> network_clock res" where
  "clock_step (OpHint t1 t2 h) c = monotonicHint t1 t2 h c"
| "clock_step (OpAdjust t0 t1 t2 pid clock) c = adjust t0 t1 t2 pid clock c"
| "clock_step (OpPing t0 t1 t2 ident) c = rbind (generatePing t0 t1 t2 ident c) (\<lambda>(r, c'). Inr c')"

fun clock_run :: "clock_op list \<Rightarrow> network_clock \<Rightarrow> network_clock res" where
  "clock_run [] c = Inr c"
| "clock_run (x # xs) c = rbind (clock_step x c) (clock_run xs)"

text \<open>The two readings of \<open>sendPing_\<close> come in order.\<close>

fun in_order :: "clock_op \<Rightarrow> bool" where
  "in_order (OpPing t0 t1 t2 ident) = (t1 \<le> t2)"
| "in_order _ = True"

definition clock_inv :: "network_clock \<Rightarrow> bool" where
  "clock_inv c \<longleftrightarrow> pingTimingIdx c < length TIMING_TABLE \<and> distinct (map fst (pingReqMap c)) \<and>
     (\<forall>(k, t) \<in> set (pingReqMap c). lastPing c - t \<le> 30000000000)"

lemma table_length [simp]: "length TIMING_TABLE = 10"
  by (simp add: TIMING_TABLE_def)

lemma table_bounds: "i < 10 \<Longrightarrow> 1 \<le> TIMING_TABLE ! i div 1000000"
proof -
  have "list_all (\<lambda>x. 1 \<le> x div 1000000) TIMING_TABLE" by (simp add: TIMING_TABLE_def)
  then show "i < 10 \<Longrightarrow> 1 \<le> TIMING_TABLE ! i div 1000000" by (simp add: list_all_length)
qed

lemma update_set: "set (AList.update k v xs) \<subseteq> insert (k, v) (set xs)"
  by (induction xs) auto

lemma sendPing_inv:
  assumes "clock_inv c" and "t1 \<le> t2" and "i < 10"
  shows "clock_inv (sendPing t1 t2 ident (c\<lparr>pingTimingIdx := i\<rparr>))"
proof -
  have "distinct (map fst (AList.update ident t2 (filter (\<lambda>(k, t). \<not> 30000000000 < t1 - t) (pingReqMap c))))"
    using assms(1) by (intro distinct_update distinct_map_filter) (simp add: clock_inv_def)
  then show ?thesis
    using assms(2,3) update_set [of ident t2 "filter (\<lambda>(k, t). \<not> 30000000000 < t1 - t) (pingReqMap c)"]
    by (fastforce simp: clock_inv_def sendPing_def)
qed

lemma generatePing_inv:
  assumes "clock_inv c" and "t1 \<le> t2" and "generatePing t0 t1 t2 ident c = Inr (r, c')"
  shows "clock_inv c'"
  using assms sendPing_inv [OF assms(1,2), of "pingTimingIdx c" ident] sendPing_inv [OF assms(1,2), of "pingTimingIdx c + 1" ident]
  by (auto simp: generatePing_def Let_def clock_inv_def split: if_splits)

lemma adjust_inv:
  assumes "clock_inv c" and "adjust t0 t1 t2 pid clock c = Inr c'"
  shows "clock_inv c'"
proof -
  from assms(2) obtain c1 where c1: "monotonicHint t1 t2 (sint clock) c = Inr c1" by (auto simp: adjust_def rbind_eq_Inr)
  from monotonicHint_keeps [OF this] obtain e where e: "c1 = c\<lparr>nc_epoch := e\<rparr>" ..
  have "distinct (map fst (AList.delete pid (pingReqMap c)))" using assms(1) by (simp add: clock_inv_def distinct_delete)
  moreover have "set (AList.delete pid (pingReqMap c)) \<subseteq> set (pingReqMap c)" by (auto simp: AList.delete_eq)
  ultimately show ?thesis using assms c1 e
    by (fastforce simp: adjust_def rbind_eq_Inr Let_def clock_inv_def split: option.splits if_splits)
qed

lemma clock_run_inv: "list_all in_order xs \<Longrightarrow> clock_inv c \<Longrightarrow> clock_run xs c = Inr c' \<Longrightarrow> clock_inv c'"
proof (induction xs arbitrary: c)
  case Nil
  then show ?case by simp
next
  case (Cons x xs)
  from Cons.prems(3) obtain c1 where c1: "clock_step x c = Inr c1" "clock_run xs c1 = Inr c'" by auto
  have "clock_inv c1"
  proof (cases x)
    case (OpHint t1 t2 h)
    with c1(1) monotonicHint_keeps [of t1 t2 h c c1] Cons.prems(2) show ?thesis by (auto simp: clock_inv_def)
  next
    case (OpAdjust t0 t1 t2 pid clock)
    with c1(1) adjust_inv [OF Cons.prems(2)] show ?thesis by simp
  next
    case (OpPing t0 t1 t2 ident)
    with c1(1) generatePing_inv [OF Cons.prems(2)] Cons.prems(1) show ?thesis by auto
  qed
  with Cons c1(2) show ?case by simp
qed

subsection \<open>Properties\<close>



text \<open>The schedule of pings. Whatever hints, answers and polls came before, the next poll never reads beyond the timing
  table, every awaited request is at most 30 seconds older than the last ping, the poll asks to sleep between 1 and
  60 ms, it declines only before the delay of the table has passed since the last ping, and once a latency is
  known it pings only after that delay.\<close>

lemma ping_schedule:
  assumes "clock_run xs (nc_new e0 e1) = Inr c" and "list_all in_order xs"
  shows "(\<forall>(k, t) \<in> set (pingReqMap c). lastPing c - t \<le> 30000000000) \<and>
    (\<exists>b ms c'. generatePing t0 t1 t2 ident c = Inr ((b, ms), c') \<and> 1 \<le> ms \<and> ms \<le> 60 \<and>
       (\<not> b \<longrightarrow> t0 - lastPing c < TIMING_TABLE ! pingTimingIdx c \<and> c' = c) \<and>
       (b \<and> networkLatency c \<noteq> 0 \<longrightarrow> TIMING_TABLE ! pingTimingIdx c \<le> t0 - lastPing c) \<and>
       (b \<longrightarrow> map_of (pingReqMap c') ident = Some t2 \<and> lastPing c' = t1))"
proof -
  have "clock_inv (nc_new e0 e1)" by (simp add: clock_inv_def nc_new_def)
  from clock_run_inv [OF assms(2) this assms(1)] have inv: "clock_inv c" .
  then have i: "pingTimingIdx c < 10" by (simp add: clock_inv_def)
  have b: "1 \<le> TIMING_TABLE ! j div 1000000" if "j < 10" for j using table_bounds [OF that] .
  have "\<exists>b ms c'. generatePing t0 t1 t2 ident c = Inr ((b, ms), c') \<and> 1 \<le> ms \<and> ms \<le> 60 \<and>
       (\<not> b \<longrightarrow> t0 - lastPing c < TIMING_TABLE ! pingTimingIdx c \<and> c' = c) \<and>
       (b \<and> networkLatency c \<noteq> 0 \<longrightarrow> TIMING_TABLE ! pingTimingIdx c \<le> t0 - lastPing c) \<and>
       (b \<longrightarrow> map_of (pingReqMap c') ident = Some t2 \<and> lastPing c' = t1)"
    using i b [of "pingTimingIdx c"] b [of "pingTimingIdx c + 1"]
    by (auto simp: generatePing_def Let_def sendPing_def update_conv' not_less)
  with inv show ?thesis by (simp add: clock_inv_def)
qed

theorem ping_schedule_witness:
  "\<exists>c b ms c'. clock_run [OpPing 0 0 0 3] (nc_new 0 0) = Inr c \<and> generatePing 500000 500000 500000 4 c = Inr ((b, ms), c') \<and> 1 \<le> ms \<and> ms \<le> 60"
proof -
  have r: "clock_run [OpPing 0 0 0 3] (nc_new 0 0) = Inr (sendPing 0 0 3 (nc_new 0 0))"
    by (simp add: generatePing_def nc_new_def)
  have "list_all in_order [OpPing 0 0 0 3]" by simp
  from ping_schedule [OF r this, of 500000 500000 500000 4] r show ?thesis by blast
qed

end
