(* ===== verification/StreamClient.thy ===== *)
theory StreamClient
  imports Connection HostList NetworkClock
begin

text \<open>
  \<open>StreamClient\<close> of \<open>src/src/client/StreamClient.h\<close> and \<open>.cpp\<close>: the client's end of the protocol. The thread that
  \<open>connect\<close> starts greets the server, pairs with it when it has to (\<open>doAuth_\<close>), negotiates the stream (\<open>doIntro_\<close>) and
  then passes packets on; another thread sends pings.

  The record \<open>client_env\<close> holds what comes from outside: protobuf, the hashes, the random generator (the statuses of
  seeding and drawing, and the nonce drawn), the outcome of connecting. The calls of \<open>onDisplayPin\<close> and
  \<open>onStateChange\<close> are recorded in \<open>shownPins\<close> and \<open>stateChanges\<close>, the notifications of the socket, which the
  constructor forwards to \<open>onStateChange\<close>, in its \<open>disconnect_events\<close>. As in theory \<open>Connection\<close> the content of a
  \<open>ByteBuffer\<close> is its byte list. A function that returns \<open>false\<close> early has the value \<open>None\<close> or \<open>False\<close>.
\<close>

definition CLIENT_PROTOCOL_VERSION :: int where
  "CLIENT_PROTOCOL_VERSION = 2"

datatype client_state = CONNECTED | DISCONNECTED | AUTHENTICATING

record 's client_env =
  ce_proto :: "'s proto"
  ce_crypto :: crypto
  ce_sha512 :: "bytes \<Rightarrow> int \<times> bytes"
  ce_sha384 :: "bytes \<Rightarrow> int \<times> bytes"
  ce_drbg :: "int \<times> int \<times> bytes"
  ce_git_commit :: string
  ce_not_trusted :: u32
  ce_missing :: u32
  ce_setup :: setup_status
  ce_now :: int

record 's client =
  cl_conn :: "'s socket"
  cl_cert :: bytes
  captureWidth :: int
  captureHeight :: int
  videoWidth :: int
  videoHeight :: int
  flagRunPing :: bool
  recvThread :: thread_state
  pingThread :: thread_state
  has_onDisplayPin :: bool
  shownPins :: "int list"
  stateChanges :: "(client_state \<times> string) list"

definition client_new :: "'s socket \<Rightarrow> bytes \<Rightarrow> 's client" where
  "client_new sk cert = \<lparr>cl_conn = sk\<lparr>has_onDisconnected := True\<rparr>, cl_cert = cert, captureWidth = -1, captureHeight = -1,
     videoWidth = -1, videoHeight = -1, flagRunPing = False, recvThread = Idle, pingThread = Idle,
     has_onDisplayPin = False, shownPins = [], stateChanges = []\<rparr>"

definition onStateChange :: "client_state \<Rightarrow> string \<Rightarrow> 's client \<Rightarrow> 's client" where
  "onStateChange st m c = c\<lparr>stateChanges := stateChanges c @ [(st, m)]\<rparr>"

definition client_getCaptureResolution :: "'s client \<Rightarrow> (int \<times> int) res" where
  "client_getCaptureResolution c =
     rbind (assert_quit (0 < captureWidth c \<and> 0 < captureHeight c) ''Capture resolution not set!'') (\<lambda>_.
       Inr (captureWidth c, captureHeight c))"

definition client_getVideoResolution :: "'s client \<Rightarrow> (int \<times> int) res" where
  "client_getVideoResolution c =
     rbind (assert_quit (0 < videoWidth c \<and> 0 < videoHeight c) ''Video resolution not set!'') (\<lambda>_.
       Inr (videoWidth c, videoHeight c))"

definition client_send :: "'s client_env \<Rightarrow> packet \<Rightarrow> bytes option \<Rightarrow> 's client \<Rightarrow> (bool \<times> 's client) res" where
  "client_send E pkt extra c =
     rbind (send (ce_proto E) pkt extra (cl_conn c)) (\<lambda>(ok, sk). Inr (ok, c\<lparr>cl_conn := sk\<rparr>))"

text \<open>The overload for a buffer.\<close>

definition client_send_buffer :: "'s client_env \<Rightarrow> packet \<Rightarrow> bytes \<Rightarrow> 's client \<Rightarrow> (bool \<times> 's client) res" where
  "client_send_buffer E pkt extra c =
     rbind (c_assert (extra_data_len pkt = int (length extra))) (\<lambda>_. client_send E pkt (Some extra) c)"

definition client_recv :: "'s client_env \<Rightarrow> bytes option \<Rightarrow> 's client \<Rightarrow> ((packet option \<times> bytes option) \<times> 's client) res" where
  "client_recv E extra c = rbind (recv (ce_proto E) extra (cl_conn c)) (\<lambda>(r, sk). Inr (r, c\<lparr>cl_conn := sk\<rparr>))"

subsection \<open>Pairing\<close>

text \<open>The commitment to the client's nonce, and the server's partial hash, which nobody compares with anything later.\<close>

definition auth_open :: "'s client_env \<Rightarrow> bytes \<Rightarrow> bytes \<Rightarrow> 's client \<Rightarrow> (bool \<times> 's client) res" where
  "auth_open E nonce serverCert c =
     (let (err, hash) = ce_sha384 E (serverCert @ cl_cert c @ nonce); payload = take 48 hash in
      rbind (assert_quit (err = 0) ''Failed to calculate nonce hash: {}'') (\<lambda>_.
      rbind (client_send E \<lparr>extra_data_len = 48, body = AuthRequest ''localhost'' (int (length nonce))\<rparr> (Some payload) c) (\<lambda>(ok, c1).
        if \<not> ok then Inr (False, c1)
        else rbind (client_recv E (Some []) c1) (\<lambda>((pkt, serverPartialHash), c2).
          Inr (case pkt of
                 None \<Rightarrow> False
               | Some p \<Rightarrow> (case body p of ServerPartialHashNotify serverNonceLen \<Rightarrow> \<not> serverNonceLen < 16 | _ \<Rightarrow> False), c2)))))"

definition auth_reveal :: "'s client_env \<Rightarrow> bytes \<Rightarrow> 's client \<Rightarrow> (bytes option \<times> 's client) res" where
  "auth_reveal E nonce c =
     rbind (client_send E \<lparr>extra_data_len = int (length nonce), body = ClientNonceNotify\<rparr> (Some nonce) c) (\<lambda>(ok, c1).
       if \<not> ok then Inr (None, c1)
       else rbind (client_recv E (Some []) c1) (\<lambda>((pkt, serverNonce), c2).
         Inr (case pkt of None \<Rightarrow> None | Some p \<Rightarrow> if body p = ServerNonceNotify then serverNonce else None, c2)))"

text \<open>\<open>onDisplayPin\<close> returns when the user has closed the box.\<close>

definition auth_show :: "'s client_env \<Rightarrow> bytes \<Rightarrow> bytes \<Rightarrow> bytes \<Rightarrow> 's client \<Rightarrow> bool \<times> 's client" where
  "auth_show E serverCert serverNonce nonce c =
     (let pin = client_computePin (ce_sha512 E) serverCert (cl_cert c) serverNonce nonce in
      if pin < 0 then (False, c)
      else (True, if has_onDisplayPin c then c\<lparr>shownPins := shownPins c @ [pin]\<rparr> else c))"

definition auth_finish :: "'s client_env \<Rightarrow> bytes \<Rightarrow> 's client \<Rightarrow> (bool \<times> 's client) res" where
  "auth_finish E payload c =
     rbind (client_recv E (Some payload) c) (\<lambda>((pkt, _), c1).
       Inr (case pkt of None \<Rightarrow> False | Some p \<Rightarrow> (case body p of AuthResponse status _ \<Rightarrow> status = AUTH_OK | _ \<Rightarrow> False), c1))"

text \<open>What follows the answer to the commitment.\<close>

definition auth_rest :: "'s client_env \<Rightarrow> bytes \<Rightarrow> bytes \<Rightarrow> bytes \<Rightarrow> host_entry \<Rightarrow> 's client \<Rightarrow> (bool \<times> host_entry \<times> 's client) res" where
  "auth_rest E nonce serverCert payload host c =
     rbind (auth_reveal E nonce c) (\<lambda>(got, c1).
       (case got of
          None \<Rightarrow> Inr (False, host, c1)
        | Some serverNonce \<Rightarrow>
            (case auth_show E serverCert serverNonce nonce c1 of
               (ok, c2) \<Rightarrow>
                 if \<not> ok then Inr (False, host, c2)
                 else rbind (auth_finish E payload c2) (\<lambda>(granted, c3).
                   if \<not> granted then Inr (False, host, c3)
                   else rbind (digest (ce_crypto E) SHA256 serverCert) (\<lambda>h. Inr (True, host\<lparr>he_certHash := h\<rparr>, c3))))))"

definition doAuth :: "'s client_env \<Rightarrow> host_entry \<Rightarrow> 's client \<Rightarrow> (bool \<times> host_entry \<times> 's client) res" where
  "doAuth E host c =
     (case ce_drbg E of
        (seeded, drawn, nonce) \<Rightarrow>
          rbind (assert_quit (seeded = 0) ''Failed to seed ctr_drbg: {}'') (\<lambda>_.
          rbind (assert_quit (drawn = 0) ''Failed to get random nonce: {}'') (\<lambda>_.
          rbind (auth_open E nonce (getRemoteCert (cl_conn c)) c) (\<lambda>(ok, c1).
            if \<not> ok then Inr (False, host, c1)
            else auth_rest E nonce (getRemoteCert (cl_conn c))
                   (take 48 (snd (ce_sha384 E (getRemoteCert (cl_conn c) @ cl_cert c @ nonce)))) host c1))))"

subsection \<open>The introduction\<close>

text \<open>Protobuf's \<open>msg_case()\<close> with the accessor of the case asked for.\<close>

definition server_intro_of :: "packet \<Rightarrow> server_intro option" where
  "server_intro_of p = (case body p of ServerIntro x \<Rightarrow> Some x | _ \<Rightarrow> None)"

definition host_caps_of :: "packet \<Rightarrow> host_caps option" where
  "host_caps_of p = (case body p of QueryHostCapsResponse x \<Rightarrow> Some x | _ \<Rightarrow> None)"

definition configure_response_of :: "packet \<Rightarrow> configure_response option" where
  "configure_response_of p = (case body p of ConfigureStreamResponse x \<Rightarrow> Some x | _ \<Rightarrow> None)"

definition start_status_of :: "packet \<Rightarrow> start_status option" where
  "start_status_of p = (case body p of StartStreamResponse x \<Rightarrow> Some x | _ \<Rightarrow> None)"

text \<open>
  A request without extra data and its answer: the two early returns that \<open>doIntro_\<close> repeats four times. The packet
  object is the same throughout, so a request keeps the \<open>extra_data_len\<close> of the answer before it.
\<close>

definition request :: "'s client_env \<Rightarrow> packet \<Rightarrow> 's client \<Rightarrow> (packet option \<times> 's client) res" where
  "request E pkt c =
     rbind (client_send E pkt None c) (\<lambda>(ok, c1).
       if \<not> ok then Inr (None, c1) else rbind (client_recv E None c1) (\<lambda>((p, _), c2). Inr (p, c2)))"

definition intro_hello :: "'s client_env \<Rightarrow> bool \<Rightarrow> 's client \<Rightarrow> ((packet \<times> bool) option \<times> 's client) res" where
  "intro_hello E forceAuth c =
     rbind (request E (reply (ClientIntro \<lparr>ci_protocol_version = CLIENT_PROTOCOL_VERSION, ci_commit_name = ce_git_commit E\<rparr>)) c) (\<lambda>(pkt, c1).
       (case pkt of
          None \<Rightarrow> Inr (None, c1)
        | Some p \<Rightarrow>
            (case server_intro_of p of
               None \<Rightarrow> error_quit ''Expected ServerIntro, received {}''
             | Some serverIntro \<Rightarrow>
                 (case si_status serverIntro of
                    INTRO_OK \<Rightarrow> Inr (Some (p, forceAuth), c1)
                  | VERSION_MISMATCH \<Rightarrow> error_quit ''Protocol version mismatch: local={} remote={}''
                  | AUTH_REQUIRED \<Rightarrow> Inr (Some (p, True), c1)
                  | _ \<Rightarrow> error_quit ''ServerIntro returned with unknown error: {}''))))"

definition intro_caps :: "'s client_env \<Rightarrow> packet \<Rightarrow> 's client \<Rightarrow> ((packet \<times> host_caps) option \<times> 's client) res" where
  "intro_caps E pkt c =
     rbind (request E (pkt\<lparr>body := QueryHostCapsRequest H264_BASELINE\<rparr>) c) (\<lambda>(r, c1).
       (case r of
          None \<Rightarrow> Inr (None, c1)
        | Some p \<Rightarrow>
            (case host_caps_of p of
               None \<Rightarrow> error_quit ''Expected QueryHostCapsResponse, received {}''
             | Some hostcaps \<Rightarrow>
                 if hc_status hostcaps \<noteq> CAPS_OK then error_quit ''Failed to query host caps'' else Inr (Some (p, hostcaps), c1))))"

definition intro_configure :: "'s client_env \<Rightarrow> packet \<Rightarrow> host_caps \<Rightarrow> 's client \<Rightarrow> (packet option \<times> 's client) res" where
  "intro_configure E pkt hostcaps c =
     rbind (request E (pkt\<lparr>body := ConfigureStreamRequest \<lparr>cr_codec = H264_BASELINE, cr_width = hc_native_width hostcaps,
          cr_height = hc_native_height hostcaps, cr_fps_num = hc_native_fps_num hostcaps, cr_fps_den = hc_native_fps_den hostcaps\<rparr>\<rparr>) c) (\<lambda>(r, c1).
       (case r of
          None \<Rightarrow> Inr (None, c1)
        | Some p \<Rightarrow>
            (case configure_response_of p of
               None \<Rightarrow> error_quit ''Expected ConfigureStreamResponse, received {}''
             | Some res \<Rightarrow>
                 (case cs_status res of
                    CONFIG_OK \<Rightarrow> Inr (Some p, c1\<lparr>captureWidth := cs_capture_width res, captureHeight := cs_capture_height res,
                                     videoWidth := cs_video_width res, videoHeight := cs_video_height res\<rparr>)
                  | CONFIG_UNSUPPORTED_CODEC \<Rightarrow> error_quit ''Failed to configure stream due to unsupported codec''
                  | _ \<Rightarrow> error_quit ''Failed to configure stream due to an unknown error''))))"

definition intro_start :: "'s client_env \<Rightarrow> packet \<Rightarrow> 's client \<Rightarrow> (bool \<times> 's client) res" where
  "intro_start E pkt c =
     rbind (request E (pkt\<lparr>body := StartStreamRequest\<rparr>) c) (\<lambda>(r, c1).
       (case r of
          None \<Rightarrow> Inr (False, c1)
        | Some p \<Rightarrow>
            (case start_status_of p of
               None \<Rightarrow> error_quit ''Expected StartStreamResponse, received {}''
             | Some status \<Rightarrow> Inr (status = START_OK, c1))))"

text \<open>What follows once the client counts as authenticated.\<close>

definition intro_stream :: "'s client_env \<Rightarrow> packet \<Rightarrow> 's client \<Rightarrow> (bool \<times> 's client) res" where
  "intro_stream E pkt c =
     rbind (intro_caps E pkt c) (\<lambda>(r, c1).
       (case r of
          None \<Rightarrow> Inr (False, c1)
        | Some (p, hostcaps) \<Rightarrow>
            rbind (intro_configure E p hostcaps c1) (\<lambda>(r2, c2).
              (case r2 of None \<Rightarrow> Inr (False, c2) | Some p2 \<Rightarrow> intro_start E p2 c2))))"

definition doIntro :: "'s client_env \<Rightarrow> host_entry \<Rightarrow> bool \<Rightarrow> 's client \<Rightarrow> (bool \<times> host_entry \<times> 's client) res" where
  "doIntro E host forceAuth c =
     rbind (intro_hello E forceAuth c) (\<lambda>(r, c1).
       (case r of
          None \<Rightarrow> Inr (False, host, c1)
        | Some (pkt, authRequired) \<Rightarrow>
            rbind (if authRequired then doAuth E host c1 else Inr (True, host, c1)) (\<lambda>(ok, host', c2).
              if \<not> ok then Inr (False, host', c2)
              else rbind (intro_stream E pkt c2) (\<lambda>(good, c3). Inr (good, host', c3)))))"

subsection \<open>Connecting and disconnecting\<close>

text \<open>The part of \<open>connect\<close> in the caller's thread. Joining returns only in states where the ping thread has ended.\<close>

definition client_connect :: "'s client_env \<Rightarrow> host_entry \<Rightarrow> 's client \<Rightarrow> (bool \<times> host_entry \<times> 's client) res" where
  "client_connect E host c =
     rbind (join_thread (pingThread c)) (\<lambda>t.
       let needsAuth = \<not> isValid (he_certHash host);
           host1 = updateLastConnected (ce_now E) host;
           sk = setExpectedRemoteCert_one (he_certHash host1) (cl_conn c) in
       rbind (spawn_thread (recvThread c)) (\<lambda>r.
         Inr (needsAuth, host1, c\<lparr>flagRunPing := False, pingThread := t, cl_conn := sk, recvThread := r\<rparr>)))"

text \<open>The new thread up to its loop; the answer is whether the loop is entered.\<close>

definition recv_begin :: "'s client_env \<Rightarrow> bool \<Rightarrow> host_entry \<Rightarrow> 's client \<Rightarrow> (bool \<times> host_entry \<times> 's client) res" where
  "recv_begin E needsAuth host c =
     (if he_addr host = [] then Inl Undef
      else rbind (connect (ce_setup E) (cl_conn c)) (\<lambda>(ok, sk).
        let c1 = c\<lparr>cl_conn := sk\<rparr> in
        if \<not> ok then Inr (False, host, (onStateChange DISCONNECTED ''Unable to connect'' c1)\<lparr>recvThread := Ended\<rparr>)
        else rbind (if needsAuth then Inr True
                    else rbind (verifyCert (ce_crypto E) (ce_not_trusted E) (ce_missing E) sk) (\<lambda>good. Inr (\<not> good))) (\<lambda>force.
          rbind (doIntro E host force c1) (\<lambda>(good, host', c2).
            if \<not> good then Inr (False, host', (onStateChange DISCONNECTED ''Auth failed'' c2)\<lparr>recvThread := Ended\<rparr>)
            else rbind (spawn_thread (pingThread c2)) (\<lambda>t.
              Inr (True, host', onStateChange CONNECTED [] (c2\<lparr>flagRunPing := True, pingThread := t\<rparr>)))))))"

text \<open>A round of \<open>runRecv_\<close>: the packet for \<open>onNextPacket\<close>, with the buffer that outlives the round.\<close>

definition recv_round :: "'s client_env \<Rightarrow> bytes \<Rightarrow> 's client \<Rightarrow> ((packet option \<times> bytes) \<times> 's client) res" where
  "recv_round E extraData c =
     rbind (client_recv E (Some extraData) c) (\<lambda>((pkt, extra), c1).
       let d = (case extra of None \<Rightarrow> [] | Some x \<Rightarrow> x) in
       Inr ((pkt, d), if pkt = None then c1\<lparr>recvThread := Ended\<rparr> else c1))"

text \<open>A round of \<open>runPing_\<close>, with the readings of the clock and the random number that \<open>generatePing\<close> uses.\<close>

definition ping_round :: "'s client_env \<Rightarrow> int \<times> int \<times> int \<Rightarrow> u32 \<Rightarrow> network_clock \<Rightarrow> 's client \<Rightarrow> (network_clock \<times> 's client) res" where
  "ping_round E ts ident clk c =
     (case ts of (t0, t1, t2) \<Rightarrow>
        if \<not> flagRunPing c then Inr (clk, c\<lparr>pingThread := Ended\<rparr>)
        else rbind (generatePing t0 t1 t2 ident clk) (\<lambda>((sendPing, sleepAmount), clk1).
          if \<not> sendPing then Inr (clk1, c)
          else rbind (client_send E (reply (PingRequest \<lparr>pr_id = ident, pr_latency = networkLatency clk1, pr_jitter = 0\<rparr>)) None c)
                 (\<lambda>(ok, c1). Inr (clk1, c1))))"

text \<open>\<open>disconnect\<close>, up to its join and after it.\<close>

definition client_disconnect_begin :: "'s client \<Rightarrow> 's client" where
  "client_disconnect_begin c = c\<lparr>flagRunPing := False, cl_conn := disconnect (cl_conn c)\<rparr>"

definition client_disconnect_end :: "'s client \<Rightarrow> 's client res" where
  "client_disconnect_end c =
     rbind (join_or_throw (recvThread c)) (\<lambda>t.
       Inr (c\<lparr>recvThread := t, captureWidth := -1, captureHeight := -1, videoWidth := -1, videoHeight := -1\<rparr>))"

definition client_destroy :: "'s client \<Rightarrow> 's client res" where
  "client_destroy c =
     rbind (join_thread (pingThread c)) (\<lambda>t.
       if recvThread c \<noteq> Idle then Inl Aborted
       else Inr (c\<lparr>flagRunPing := False, pingThread := t, cl_conn := socket_destroy (cl_conn c)\<rparr>))"

subsection \<open>What a completed pairing records\<close>

lemma client_send_shape: "client_send E p e c = Inr (ok, c') \<Longrightarrow> \<exists>sk. c' = c\<lparr>cl_conn := sk\<rparr> \<and> same_peer sk (cl_conn c)"
  using send_out [of "ce_proto E" p e "cl_conn c"] by (fastforce simp: client_send_def rbind_eq_Inr)

lemma client_recv_shape: "client_recv E e c = Inr (r, c') \<Longrightarrow> \<exists>sk. c' = c\<lparr>cl_conn := sk\<rparr> \<and> same_peer sk (cl_conn c)"
  using recv_peer [of "ce_proto E" e "cl_conn c"] by (fastforce simp: client_recv_def rbind_eq_Inr)

text \<open>\<open>keeps c c'\<close>: apart from the socket, whose peer stays, nothing that matters to the pairing changed.\<close>

definition keeps :: "'s client \<Rightarrow> 's client \<Rightarrow> bool" where
  "keeps c c' \<longleftrightarrow> same_peer (cl_conn c') (cl_conn c) \<and> cl_cert c' = cl_cert c \<and> shownPins c' = shownPins c \<and>
     has_onDisplayPin c' = has_onDisplayPin c"

lemma keeps_refl [simp]: "keeps c c"
  by (simp add: keeps_def)

lemma keeps_trans: "keeps a b \<Longrightarrow> keeps b c \<Longrightarrow> keeps a c"
  by (auto simp: keeps_def intro: same_peer_trans)

lemma client_send_keeps: "client_send E p e c = Inr (ok, c') \<Longrightarrow> keeps c c'"
  by (drule client_send_shape) (auto simp: keeps_def)

lemma client_recv_keeps: "client_recv E e c = Inr (r, c') \<Longrightarrow> keeps c c'"
  by (drule client_recv_shape) (auto simp: keeps_def)

lemma request_keeps: "request E p c = Inr (r, c') \<Longrightarrow> keeps c c'"
  by (auto simp: request_def rbind_eq_Inr split: if_splits dest!: client_send_keeps client_recv_keeps intro: keeps_trans)

lemma auth_open_keeps: "auth_open E n sc c = Inr (ok, c') \<Longrightarrow> keeps c c'"
  by (auto simp: auth_open_def rbind_eq_Inr Let_def split: if_splits prod.splits dest!: client_send_keeps client_recv_keeps intro: keeps_trans)

lemma auth_reveal_keeps: "auth_reveal E n c = Inr (r, c') \<Longrightarrow> keeps c c'"
  by (auto simp: auth_reveal_def rbind_eq_Inr split: if_splits dest!: client_send_keeps client_recv_keeps intro: keeps_trans)

lemma auth_finish_keeps: "auth_finish E d c = Inr (ok, c') \<Longrightarrow> keeps c c'"
  by (auto simp: auth_finish_def rbind_eq_Inr dest!: client_recv_keeps)

lemma intro_hello_keeps:
  assumes "intro_hello E f c = Inr (r, c')"
  shows "keeps c c'"
proof -
  from assms obtain q c1 where q: "request E (reply (ClientIntro \<lparr>ci_protocol_version = CLIENT_PROTOCOL_VERSION, ci_commit_name = ce_git_commit E\<rparr>)) c = Inr (q, c1)" by (auto simp: intro_hello_def rbind_eq_Inr)
  have "c1 = c'" using assms q by (auto simp: intro_hello_def error_quit_def split: option.splits intro_status.splits)
  with request_keeps [OF q] show ?thesis by simp
qed

lemma intro_caps_keeps:
  assumes "intro_caps E p c = Inr (r, c')"
  shows "keeps c c'"
proof -
  from assms obtain q c1 where q: "request E (p\<lparr>body := QueryHostCapsRequest H264_BASELINE\<rparr>) c = Inr (q, c1)" by (auto simp: intro_caps_def rbind_eq_Inr)
  have "c1 = c'" using assms q by (auto simp: intro_caps_def error_quit_def split: option.splits if_splits)
  with request_keeps [OF q] show ?thesis by simp
qed

lemma intro_configure_keeps:
  assumes "intro_configure E p hc c = Inr (r, c')"
  shows "keeps c c'"
proof -
  from assms obtain q c1 where q: "request E (p\<lparr>body := ConfigureStreamRequest \<lparr>cr_codec = H264_BASELINE, cr_width = hc_native_width hc,
      cr_height = hc_native_height hc, cr_fps_num = hc_native_fps_num hc, cr_fps_den = hc_native_fps_den hc\<rparr>\<rparr>) c = Inr (q, c1)"
    by (auto simp: intro_configure_def rbind_eq_Inr)
  have "keeps c1 c'"
    using assms q by (auto simp: intro_configure_def error_quit_def keeps_def split: option.splits config_status.splits)
  with request_keeps [OF q] show ?thesis by (rule keeps_trans)
qed

lemma intro_start_keeps:
  assumes "intro_start E p c = Inr (r, c')"
  shows "keeps c c'"
proof -
  from assms obtain q c1 where q: "request E (p\<lparr>body := StartStreamRequest\<rparr>) c = Inr (q, c1)" by (auto simp: intro_start_def rbind_eq_Inr)
  have "c1 = c'" using assms q by (auto simp: intro_start_def error_quit_def split: option.splits if_splits)
  with request_keeps [OF q] show ?thesis by simp
qed

lemma intro_stream_keeps:
  assumes "intro_stream E p c = Inr (r, c')"
  shows "keeps c c'"
proof -
  from assms obtain r1 c1 where a: "intro_caps E p c = Inr (r1, c1)" by (auto simp: intro_stream_def rbind_eq_Inr)
  have "keeps c1 c'"
  proof (cases r1)
    case None
    with assms a show ?thesis by (simp add: intro_stream_def)
  next
    case (Some q)
    with assms a obtain r2 c2 where b: "intro_configure E (fst q) (snd q) c1 = Inr (r2, c2)"
      by (cases q) (auto simp: intro_stream_def rbind_eq_Inr)
    have "keeps c2 c'" using assms a b Some by (cases q; cases r2) (auto simp: intro_stream_def dest: intro_start_keeps)
    with intro_configure_keeps [OF b] show ?thesis by (rule keeps_trans)
  qed
  with intro_caps_keeps [OF a] show ?thesis by (rule keeps_trans)
qed

text \<open>A completed \<open>doAuth_\<close> has shown a PIN and recorded the fingerprint of the certificate at the other end.\<close>

definition paired :: "'s client_env \<Rightarrow> bytes \<Rightarrow> 's client \<Rightarrow> 's client \<Rightarrow> host_entry \<Rightarrow> host_entry \<Rightarrow> bool" where
  "paired E cert c c' host host' \<longleftrightarrow>
     (\<exists>h serverNonce. digest (ce_crypto E) SHA256 cert = Inr h \<and> host' = host\<lparr>he_certHash := h\<rparr> \<and>
        (let pin = client_computePin (ce_sha512 E) cert (cl_cert c) serverNonce (snd (snd (ce_drbg E))) in
         0 \<le> pin \<and> shownPins c' = shownPins c @ (if has_onDisplayPin c then [pin] else [])))"

lemma auth_rest_paired:
  assumes "auth_rest E nonce cert payload host c = Inr (True, host', c')" and "nonce = snd (snd (ce_drbg E))"
  shows "paired E cert c c' host host'"
proof -
  from assms(1) obtain sn c1 where v: "auth_reveal E nonce c = Inr (Some sn, c1)"
    by (auto simp: auth_rest_def rbind_eq_Inr split: option.splits)
  let ?pin = "client_computePin (ce_sha512 E) cert (cl_cert c) sn nonce"
  from auth_reveal_keeps [OF v] have k1: "cl_cert c1 = cl_cert c" "shownPins c1 = shownPins c" "has_onDisplayPin c1 = has_onDisplayPin c"
    by (auto simp: keeps_def)
  from assms(1) v obtain c2 where s: "auth_show E cert sn nonce c1 = (True, c2)"
    and f: "\<exists>h. auth_finish E payload c2 = Inr (True, c') \<and> digest (ce_crypto E) SHA256 cert = Inr h \<and> host' = host\<lparr>he_certHash := h\<rparr>"
    by (auto simp: auth_rest_def rbind_eq_Inr split: prod.splits if_splits)
  from s k1 have "0 \<le> ?pin" "shownPins c2 = shownPins c @ (if has_onDisplayPin c then [?pin] else [])"
    by (auto simp: auth_show_def Let_def split: if_splits)
  moreover from f have "shownPins c' = shownPins c2" by (auto dest!: auth_finish_keeps simp: keeps_def)
  ultimately show ?thesis using f by (auto simp: paired_def Let_def assms(2))
qed

lemma doAuth_paired:
  assumes "doAuth E host c = Inr (True, host', c')"
  shows "paired E (getRemoteCert (cl_conn c)) c c' host host'"
proof -
  let ?n = "snd (snd (ce_drbg E))"
  let ?sc = "getRemoteCert (cl_conn c)"
  from assms obtain c1 payload where o: "auth_open E ?n ?sc c = Inr (True, c1)" and r: "auth_rest E ?n ?sc payload host c1 = Inr (True, host', c')"
    by (auto simp: doAuth_def rbind_eq_Inr split: prod.splits if_splits)
  from auth_open_keeps [OF o] auth_rest_paired [OF r refl] show ?thesis by (simp add: keeps_def paired_def)
qed

lemma doIntro_paired:
  assumes "doIntro E host force c = Inr (True, host', c')"
  shows "(paired E (getRemoteCert (cl_conn c)) c c' host host' \<or> \<not> force \<and> host' = host)"
proof -
  from assms obtain pkt authRequired c1 where h: "intro_hello E force c = Inr (Some (pkt, authRequired), c1)"
    by (auto simp: doIntro_def rbind_eq_Inr split: option.splits)
  from intro_hello_keeps [OF h] have k: "getRemoteCert (cl_conn c1) = getRemoteCert (cl_conn c)" "cl_cert c1 = cl_cert c"
    "shownPins c1 = shownPins c" "has_onDisplayPin c1 = has_onDisplayPin c" by (auto simp: keeps_def same_peer_def getRemoteCert_def)
  have f: "force \<Longrightarrow> authRequired"
  proof -
    assume force
    from h obtain q c2 where "request E (reply (ClientIntro \<lparr>ci_protocol_version = CLIENT_PROTOCOL_VERSION, ci_commit_name = ce_git_commit E\<rparr>)) c = Inr (q, c2)"
      by (auto simp: intro_hello_def rbind_eq_Inr)
    with h \<open>force\<close> show authRequired by (auto simp: intro_hello_def error_quit_def split: option.splits intro_status.splits)
  qed
  from assms h obtain c2 where a: "(if authRequired then doAuth E host c1 else Inr (True, host, c1)) = Inr (True, host', c2)"
    and s: "intro_stream E pkt c2 = Inr (True, c')"
    by (auto simp: doIntro_def rbind_eq_Inr split: if_splits)
  from intro_stream_keeps [OF s] have p: "shownPins c' = shownPins c2" by (simp add: keeps_def)
  show ?thesis
  proof (cases authRequired)
    case True
    with a have "doAuth E host c1 = Inr (True, host', c2)" by simp
    from doAuth_paired [OF this] p k show ?thesis by (simp add: paired_def)
  next
    case False
    with a f show ?thesis by auto
  qed
qed

text \<open>
  A disconnect that comes while the thread is still connecting is lost: the socket is not connected yet, and once it is, the
  thread pings and receives as if nothing had been asked, while \<open>disconnect\<close> waits for its end.
\<close>

lemma early_disconnect_lost:
  assumes "\<not> connected (cl_conn c)" and "recv_begin E needsAuth host (client_disconnect_begin c) = Inr (True, host', c')"
  shows "client_disconnect_begin c = c\<lparr>flagRunPing := False\<rparr> \<and> flagRunPing c' \<and>
    (recvThread c' = Working \<longrightarrow> client_disconnect_end c' = Inl Blocked)"
proof -
  from assms(2) have "flagRunPing c'"
    by (auto simp: recv_begin_def rbind_eq_Inr onStateChange_def Let_def split: if_splits)
  with assms(1) show ?thesis
    by (simp add: client_disconnect_begin_def disconnect_def client_disconnect_end_def join_or_throw_def join_thread_def)
qed

subsection \<open>Properties\<close>


text \<open>A server as a script: the packets it answers with, each with its extra data.\<close>

definition script_proto :: "(packet \<times> bytes) list proto" where
  "script_proto = \<lparr>grow_ok = (\<lambda>_. True), ByteSizeLong = (\<lambda>_. 1), WriteVarint64 = (\<lambda>_. []),
     SerializeToCodedStream = (\<lambda>_. Some [0]), ReadVarintSizeAsInt = (\<lambda>s. (Some 1, s)),
     PushLimit = (\<lambda>n s. (0, s)),
     ParseFromCodedStream = (\<lambda>s. case s of [] \<Rightarrow> (None, []) | (p, d) # rest \<Rightarrow> (Some p, if 0 < extra_data_len p then s else rest)),
     ConsumedEntireMessage = (\<lambda>_. True), PopLimit = (\<lambda>l s. s), ReadRaw = (\<lambda>n b s. ((True, snd (hd s)), tl s)), Skip = (\<lambda>n s. tl s),
     stream_error = (\<lambda>_. None), tls_strerror = (\<lambda>_. [])\<rparr>"

definition script_env :: "(packet \<times> bytes) list client_env" where
  "script_env = \<lparr>ce_proto = script_proto, ce_crypto = sample_crypto, ce_sha512 = (\<lambda>_. (0, replicate 64 0)),
     ce_sha384 = (\<lambda>_. (0, replicate 48 0)), ce_drbg = (0, 0, replicate 32 6), ce_git_commit = [], ce_not_trusted = 8, ce_missing = 64,
     ce_setup = \<lparr>st_seed = 0, st_defaults = 0, st_net_connect = 0, st_ssl_setup = 0, st_handshake = 0\<rparr>, ce_now = 1\<rparr>"

definition script_client :: "(packet \<times> bytes) list \<Rightarrow> (packet \<times> bytes) list client" where
  "script_client s = client_new \<lparr>connected = False, has_onDisconnected = False, disconnect_events = [], tls_answers = [1, 1, 1, 1, 1],
     tls_out = [], inputStream = None, incoming = s, peer_cert = Some [7], verify_flags = 8,
     expectedRemoteCerts = [\<lparr>ch_type = SHA256, ch_hash = [7, 0, 0]\<rparr>]\<rparr> [1]"

definition greeting :: "(packet \<times> bytes) list" where
  "greeting = map (\<lambda>m. (reply m, []))
     [ServerIntro \<lparr>si_protocol_version = 2, si_commit_name = [], si_status = INTRO_OK\<rparr>,
      QueryHostCapsResponse (host_caps_init\<lparr>hc_status := CAPS_OK, hc_native_width := 1920, hc_native_height := 1080\<rparr>),
      ConfigureStreamResponse (configure_response_init\<lparr>cs_status := CONFIG_OK, cs_capture_width := 1920\<rparr>),
      StartStreamResponse START_OK]"

lemma script_simps:
  "grow_ok script_proto k" "ByteSizeLong script_proto p = 1" "WriteVarint64 script_proto k = []" "SerializeToCodedStream script_proto p = Some [0]"
  "ReadVarintSizeAsInt script_proto s = (Some 1, s)" "PushLimit script_proto n s = (0, s)"
  "ParseFromCodedStream script_proto ((p, d) # rest) = (Some p, if 0 < extra_data_len p then (p, d) # rest else rest)"
  "ConsumedEntireMessage script_proto s" "PopLimit script_proto l s = s" "stream_error script_proto s = None"
  by (simp_all add: script_proto_def)

lemma script_request:
  assumes "extra_data_len q = 0" and "extra_data_len (fst (hd (next_stream (cl_conn c)))) = 0" and "connected (cl_conn c)"
    and "tls_answers (cl_conn c) \<noteq> []" "hd (tls_answers (cl_conn c)) = 1" and "next_stream (cl_conn c) \<noteq> []" and "ce_proto E = script_proto"
  shows "request E q c = Inr (Some (fst (hd (next_stream (cl_conn c)))), c\<lparr>cl_conn := (cl_conn c)\<lparr>tls_answers := tl (tls_answers (cl_conn c)),
    tls_out := tls_out (cl_conn c) @ [0], inputStream := Some (tl (next_stream (cl_conn c)))\<rparr>\<rparr>)"
proof -
  obtain p d s where n: "next_stream (cl_conn c) = (p, d) # s" using assms(6) by (metis list.exhaust surj_pair)
  obtain rs where rs: "tls_answers (cl_conn c) = 1 # rs" using assms(4,5) by (cases "tls_answers (cl_conn c)") auto
  have "send script_proto q None (cl_conn c) = Inr (True, (cl_conn c)\<lparr>tls_answers := rs, tls_out := tls_out (cl_conn c) @ [0]\<rparr>)"
    using assms rs by (cases rs) (simp_all add: send_def ssl_write_all_def script_simps sz_of_int_def SIZE_T_MOD_def Let_def)
  moreover have "next_stream ((cl_conn c)\<lparr>tls_answers := rs, tls_out := tls_out (cl_conn c) @ [0]\<rparr>) = (p, d) # s"
    using n by (simp add: next_stream_def split: option.splits)
  ultimately show ?thesis using assms n rs
    by (simp add: request_def client_send_def client_recv_def recv_eq recv_from_def recv_extra_def set_stream_def script_simps)
qed


end
