(* ===== verification/Pairing.thy ===== *)
theory Pairing
  imports StreamClient
begin

text \<open>
  Client and server together. The two ends of a connection are joined by what each has written: the stream that one end
  reads is what the other has put on the wire. \<open>talking\<close> says of one end that its transport accepts all writes, what it has
  written and what it still has to read; with the documented behaviour of protobuf (\<open>good_wire\<close>), sending and receiving a
  packet move \<open>talking\<close> forward, and the handshakes of theories \<open>StreamClient\<close> and \<open>Connection\<close> can be run against
  each other.
\<close>

subsection \<open>A lossless channel\<close>

definition good_wire :: "'s proto \<Rightarrow> ('s \<Rightarrow> bytes \<times> bytes option) \<Rightarrow> packet set \<Rightarrow> bool" where
  "good_wire P cview ps \<longleftrightarrow> coded_laws P cview ps \<and> (\<forall>n. grow_ok P n) \<and>
     (\<forall>p\<in>ps. SerializeToCodedStream P p \<noteq> None \<and> ByteSizeLong P p < 2 ^ 31 \<and> length (WriteVarint64 P (ByteSizeLong P p)) \<le> 16)"

definition willing :: "'s socket \<Rightarrow> bool" where
  "willing sk \<longleftrightarrow> (\<forall>r\<in>set (tls_answers sk). 0 \<le> r)"

definition talking :: "('s \<Rightarrow> bytes \<times> bytes option) \<Rightarrow> 's socket \<Rightarrow> bytes \<Rightarrow> bytes \<Rightarrow> bool" where
  "talking cview sk out rest \<longleftrightarrow> connected sk \<and> willing sk \<and> tls_out sk = out \<and> cview (next_stream sk) = (rest, None)"

definition enc :: "'s proto \<Rightarrow> packet \<Rightarrow> bytes \<Rightarrow> bytes" where
  "enc P p ds = frame P p (the (SerializeToCodedStream P p)) ds"

definition carries :: "packet \<Rightarrow> bytes \<Rightarrow> bool" where
  "carries p ds \<longleftrightarrow> extra_data_len p = int (length ds) \<and> length ds < 2 ^ 31"

lemma write_loop_willing:
  "\<forall>r\<in>set as. 0 \<le> r \<Longrightarrow> ssl_write_loop data len offset as out = Inr (err, as', out') \<Longrightarrow> err = None \<and> set as' \<subseteq> set as"
  by (induction data len offset as out rule: ssl_write_loop.induct) (auto split: if_splits)

lemma write_all_willing:
  assumes "willing sk" and "ssl_write_all P data len sk = Inr (ok, sk')"
  shows "ok \<and> (\<exists>as. sk' = sk\<lparr>tls_answers := as, tls_out := tls_out sk @ take len data\<rparr> \<and> set as \<subseteq> set (tls_answers sk))"
proof -
  from assms(2) obtain err as out where l: "ssl_write_loop data len 0 (tls_answers sk) (tls_out sk) = Inr (err, as, out)"
    by (auto simp: ssl_write_all_def)
  from write_loop_willing [OF _ l] assms(1) have w: "err = None" "set as \<subseteq> set (tls_answers sk)" by (auto simp: willing_def)
  from ssl_write_loop_out [OF _ l] w(1) have "out = tls_out sk @ take len data" by auto
  with assms(2) l w show ?thesis by (auto simp: ssl_write_all_def)
qed

lemma willing_upd: "willing sk \<Longrightarrow> set as \<subseteq> set (tls_answers sk) \<Longrightarrow> willing (sk\<lparr>tls_answers := as, tls_out := out\<rparr>)"
  by (auto simp: willing_def)

lemma next_stream_upd [simp]:
  "next_stream (sk\<lparr>tls_answers := as, tls_out := out\<rparr>) = next_stream sk"
  "next_stream (sk\<lparr>expectedRemoteCerts := hs\<rparr>) = next_stream sk"
  "next_stream (sk\<lparr>connected := b\<rparr>) = next_stream sk"
  by (simp_all add: next_stream_def split: option.split)

lemma talk_send_step:
  assumes w: "good_wire P cview ps" and p: "p \<in> ps" and c: "carries p ds" and e: "ds \<noteq> [] \<longrightarrow> extra = Some ds"
    and t: "talking cview sk out rest" and s: "send P p extra sk = Inr (ok, sk')"
  shows "ok \<and> talking cview sk' (out @ enc P p ds) rest \<and> same_peer sk' sk"
proof -
  from w p obtain ser where ser: "SerializeToCodedStream P p = Some ser" by (auto simp: good_wire_def)
  let ?l = "WriteVarint64 P (ByteSizeLong P p)"
  let ?n = "sz_of_int (extra_data_len p)"
  have sz: "\<not> sz_sub (sz_add (ByteSizeLong P p) 16) (length ?l) < ByteSizeLong P p"
    using w p by (fastforce simp: good_wire_def SIZE_T_MOD_def)
  have n: "?n = length ds" using c by (simp add: carries_def)
  from s ser sz w obtain ok1 sk1 where
    w1: "ssl_write_all P (?l @ ser) (length (?l @ ser)) sk = Inr (ok1, sk1)" and
    r: "(if \<not> ok1 then Inr (False, sk1)
         else if ?n > 0
         then (case extra of None \<Rightarrow> error_quit ''Extra data is nullptr'' | Some ds \<Rightarrow> ssl_write_all P ds ?n sk1)
         else Inr (True, sk1)) = Inr (ok, sk')"
    by (auto simp: send_def Let_def rbind_eq_Inr good_wire_def)
  have wl: "willing sk" using t by (simp add: talking_def)
  from write_all_willing [OF wl w1] obtain as where s1: "ok1" "sk1 = sk\<lparr>tls_answers := as, tls_out := tls_out sk @ ?l @ ser\<rparr>"
    "set as \<subseteq> set (tls_answers sk)" by auto
  have f: "enc P p ds = ?l @ ser @ ds" using n by (simp add: enc_def frame_def ser)
  show ?thesis
  proof (cases "ds = []")
    case True
    with r s1 n f t wl show ?thesis by (auto simp: talking_def intro!: willing_upd)
  next
    case False
    with r s1 n e have "ssl_write_all P ds (length ds) sk1 = Inr (ok, sk')" by auto
    from write_all_willing [OF willing_upd [OF wl s1(3)] this [unfolded s1(2)]] s1(3) wl f t
    show ?thesis by (fastforce simp: talking_def willing_def)
  qed
qed

lemma recv_keeps:
  assumes "recv P e sk = Inr (r, sk')"
  shows "tls_out sk' = tls_out sk \<and> tls_answers sk' = tls_answers sk \<and> same_peer sk' sk"
proof -
  have set: "tls_out (set_stream P s sk) = tls_out sk" "tls_answers (set_stream P s sk) = tls_answers sk" for s sk
    by (auto simp: set_stream_def Let_def reportDisconnected_def call_onDisconnected_def split: option.splits)
  have extra: "tls_out sk2 = tls_out sk1 \<and> tls_answers sk2 = tls_answers sk1" if "recv_extra P p e s sk1 = Inr (r, sk2)" for p s sk1 sk2
    using that by (auto simp: recv_extra_def Let_def rbind_eq_Inr set split: option.splits prod.splits if_splits)
  have fr: "tls_out sk2 = tls_out sk1 \<and> tls_answers sk2 = tls_answers sk1" if "recv_from P e s sk1 = Inr (r, sk2)" for s sk1 sk2
    using that by (auto simp: recv_from_def Let_def set split: option.splits prod.splits if_splits dest!: extra)
  have "tls_out sk' = tls_out sk \<and> tls_answers sk' = tls_answers sk"
    using assms by (auto simp: recv_def split: option.splits if_splits dest!: fr)
  with recv_peer [OF assms] show ?thesis by simp
qed

lemma talk_recv_step:
  assumes w: "good_wire P cview ps" and p: "p \<in> ps" and c: "carries p ds" and t: "talking cview sk out (enc P p ds @ rest)"
  shows "\<exists>sk'. recv P (Some d) sk = Inr ((Some p, Some (if ds = [] then d else ds)), sk') \<and> talking cview sk' out rest \<and> same_peer sk' sk"
proof -
  from w p obtain ser where ser: "SerializeToCodedStream P p = Some ser" by (auto simp: good_wire_def)
  have laws: "coded_laws P cview ps" using w by (simp add: good_wire_def)
  have snd: "sendable P (p, ds)" using w p c by (simp add: good_wire_def sendable_def carries_def)
  have cn: "connected sk" and v: "cview (next_stream sk) = (frame P p ser ds @ rest, None)"
    using t by (simp_all add: talking_def enc_def ser)
  from recv_frame [OF laws p snd ser cn v, of d] obtain sk' where
    r: "recv P (Some d) sk = Inr ((Some p, Some (if ds = [] then d else ds)), sk')" "connected sk'" "cview (next_stream sk') = (rest, None)" by blast
  from recv_keeps [OF r(1)] r t show ?thesis by (auto simp: talking_def willing_def)
qed

subsection \<open>What is written only grows\<close>

definition grows :: "'s socket \<Rightarrow> 's socket \<Rightarrow> bool" where
  "grows sk sk' \<longleftrightarrow> (\<exists>w. tls_out sk' = tls_out sk @ w)"

lemma grows_refl [simp]: "grows sk sk"
  by (simp add: grows_def)

lemma grows_trans [trans]: "grows a b \<Longrightarrow> grows b c \<Longrightarrow> grows a c"
  by (auto simp: grows_def)

lemma grows_same: "tls_out sk' = tls_out sk \<Longrightarrow> grows sk sk'"
  by (simp add: grows_def)

lemma send_grows: "send P p e sk = Inr (ok, sk') \<Longrightarrow> grows sk sk'"
  using send_out [of P p e sk ok sk'] by (auto simp: grows_def)

lemma recv_grows: "recv P e sk = Inr (r, sk') \<Longrightarrow> grows sk sk'"
  using recv_keeps [of P e sk r sk'] by (simp add: grows_same)

lemma conn_send_grows: "conn_send E p e cs = Inr (ok, cs') \<Longrightarrow> grows (sock (fst cs)) (sock (fst cs'))"
  by (auto simp: conn_send_def rbind_eq_Inr dest: send_grows)

lemma respond_grows: "respond E m cs = Inr cs' \<Longrightarrow> grows (sock (fst cs)) (sock (fst cs'))"
  by (auto simp: respond_def rbind_eq_Inr dest: conn_send_grows)

lemma auth_verdict_grows: "auth_verdict E a d cs = Inr cs' \<Longrightarrow> grows (sock (fst cs)) (sock (fst cs'))"
  by (auto simp: auth_verdict_def Let_def rbind_eq_Inr split: if_splits prod.splits dest!: respond_grows)

lemma nonce_grows:
  assumes "msg_clientNonceNotify E d cs = Inr cs'"
  shows "grows (sock (fst cs)) (sock (fst cs'))"
proof (cases "authState (fst cs)")
  case None
  with assms show ?thesis by (auto simp: msg_clientNonceNotify_def dest: respond_grows)
next
  case (Some a)
  with assms show ?thesis
    by (auto simp: msg_clientNonceNotify_def Let_def rbind_eq_Inr split: if_splits prod.splits
        dest!: respond_grows conn_send_grows auth_verdict_grows intro: grows_trans)
qed

lemma dispatch_grows:
  assumes "dispatch E pkt d cs = Inr cs'"
  shows "grows (sock (fst cs)) (sock (fst cs'))"
proof (cases "body pkt")
  case (AuthRequest h n)
  with assms show ?thesis
    by (auto simp: dispatch_def msg_authRequest_def Let_def rbind_eq_Inr split: if_splits prod.splits
        dest!: respond_grows conn_send_grows)
next
  case ClientNonceNotify
  with assms show ?thesis by (auto simp: dispatch_def dest: nonce_grows)
qed (use assms in \<open>auto simp: dispatch_def handler_defs getVideoResolution_def Let_def rbind_eq_Inr split: if_splits prod.splits
      dest!: respond_grows\<close>)

lemma run_round_grows:
  assumes "run_round E (data, c, s) = Inr (data', c', s')"
  shows "grows (sock c) (sock c')"
proof -
  from assms obtain pkt extra sk where r: "recv (proto_of E) (Some data) (sock c) = Inr ((pkt, extra), sk)"
    by (auto simp: run_round_def rbind_eq_Inr)
  from recv_grows [OF r] have g: "grows (sock c) sk" .
  show ?thesis
  proof (cases pkt)
    case None
    with assms r g show ?thesis by (auto simp: run_round_def Let_def)
  next
    case (Some p)
    with assms r have "dispatch E p data' (c\<lparr>sock := sk\<rparr>, s) = Inr (c', s')" by (auto simp: run_round_def Let_def rbind_eq_Inr)
    from grows_trans [OF g] dispatch_grows [OF this] show ?thesis by simp
  qed
qed

lemma run_rounds_grows: "run_rounds E n st = Inr st' \<Longrightarrow> grows (sock (fst (snd st))) (sock (fst (snd st')))"
proof (induction n arbitrary: st)
  case 0
  then show ?case by simp
next
  case (Suc n)
  obtain d c s where st: "st = (d, c, s)" by (cases st) auto
  show ?case
  proof (cases "connected (sock c)")
    case True
    with Suc.prems st obtain st1 where r: "run_round E (d, c, s) = Inr st1" "run_rounds E n st1 = Inr st'" by auto
    obtain d1 c1 s1 where st1: "st1 = (d1, c1, s1)" by (cases st1) auto
    from grows_trans [OF run_round_grows [OF r(1) [unfolded st1]]] Suc.IH [OF r(2)] show ?thesis by (simp add: st st1)
  next
    case False
    with Suc.prems st show ?thesis by simp
  qed
qed

lemma client_send_grows: "client_send E p e c = Inr (ok, c') \<Longrightarrow> grows (cl_conn c) (cl_conn c')"
  by (auto simp: client_send_def rbind_eq_Inr dest: send_grows)

lemma client_recv_grows: "client_recv E e c = Inr (r, c') \<Longrightarrow> grows (cl_conn c) (cl_conn c')"
  by (auto simp: client_recv_def rbind_eq_Inr dest: recv_grows)

lemma auth_reveal_grows: "auth_reveal E n c = Inr (r, c') \<Longrightarrow> grows (cl_conn c) (cl_conn c')"
  by (auto simp: auth_reveal_def rbind_eq_Inr split: if_splits dest!: client_send_grows client_recv_grows intro: grows_trans)

lemma auth_finish_grows: "auth_finish E d c = Inr (r, c') \<Longrightarrow> grows (cl_conn c) (cl_conn c')"
  by (auto simp: auth_finish_def rbind_eq_Inr dest!: client_recv_grows)

lemma auth_show_conn: "auth_show E a b n c = (ok, c') \<Longrightarrow> cl_conn c' = cl_conn c"
  by (auto simp: auth_show_def Let_def split: if_splits)

lemma auth_rest_after:
  assumes "auth_rest E nonce sc payload host c = Inr (ok, host', c')" and "auth_reveal E nonce c = Inr (got, c1)"
  shows "grows (cl_conn c1) (cl_conn c')"
  using assms
  by (auto simp: auth_rest_def rbind_eq_Inr split: option.splits prod.splits if_splits
      dest!: auth_show_conn auth_finish_grows)

lemma auth_rest_grows:
  assumes "auth_rest E nonce sc payload host c = Inr (ok, host', c')"
  shows "grows (cl_conn c) (cl_conn c')"
proof -
  from assms obtain got c1 where v: "auth_reveal E nonce c = Inr (got, c1)" by (auto simp: auth_rest_def rbind_eq_Inr)
  from grows_trans [OF auth_reveal_grows [OF v] auth_rest_after [OF assms v]] show ?thesis .
qed

subsection \<open>The two ends talking\<close>

lemma client_send_talk:
  assumes "good_wire (ce_proto E) cview ps" and "p \<in> ps" and "carries p ds" and "ds \<noteq> [] \<longrightarrow> extra = Some ds"
    and "talking cview (cl_conn c) out rest" and "client_send E p extra c = Inr (ok, c')"
  shows "ok \<and> (\<exists>sk. c' = c\<lparr>cl_conn := sk\<rparr> \<and> talking cview sk (out @ enc (ce_proto E) p ds) rest \<and> same_peer sk (cl_conn c))"
  using assms(6) talk_send_step [OF assms(1-5)] by (auto simp: client_send_def rbind_eq_Inr)

lemma client_recv_talk:
  assumes "good_wire (ce_proto E) cview ps" and "p \<in> ps" and "carries p ds"
    and "talking cview (cl_conn c) out (enc (ce_proto E) p ds @ rest)"
  shows "\<exists>sk. client_recv E (Some d) c = Inr ((Some p, Some (if ds = [] then d else ds)), c\<lparr>cl_conn := sk\<rparr>) \<and>
    talking cview sk out rest \<and> same_peer sk (cl_conn c)"
  using talk_recv_step [OF assms, of d] by (auto simp: client_recv_def)

lemma conn_send_talk:
  assumes "good_wire (proto_of S) cview ps" and "p \<in> ps" and "carries p ds" and "ds \<noteq> [] \<longrightarrow> extra = Some ds"
    and "talking cview (sock (fst cs)) out rest" and "conn_send S p extra cs = Inr (ok, cs')"
  shows "ok \<and> (\<exists>sk. cs' = ((fst cs)\<lparr>sock := sk\<rparr>, snd cs) \<and> talking cview sk (out @ enc (proto_of S) p ds) rest \<and>
    same_peer sk (sock (fst cs)))"
  using assms(6) talk_send_step [OF assms(1-5)] by (auto simp: conn_send_def rbind_eq_Inr)

lemma respond_talk:
  assumes "good_wire (proto_of S) cview ps" and "reply m \<in> ps"
    and "talking cview (sock (fst cs)) out rest" and "respond S m cs = Inr cs'"
  shows "\<exists>sk. cs' = ((fst cs)\<lparr>sock := sk\<rparr>, snd cs) \<and> talking cview sk (out @ enc (proto_of S) (reply m) []) rest \<and>
    same_peer sk (sock (fst cs))"
  using assms(4) conn_send_talk [OF assms(1,2) _ _ assms(3), of "[]" None]
  by (auto simp: respond_def rbind_eq_Inr carries_def)

lemma server_round_talk:
  assumes "good_wire (proto_of S) cview ps" and "p \<in> ps" and "carries p ds"
    and "talking cview (sock c) out (enc (proto_of S) p ds @ rest)" and "run_round S (data, c, s) = Inr (data', c', s')"
  shows "\<exists>sk. talking cview sk out rest \<and> same_peer sk (sock c) \<and> data' = (if ds = [] then data else ds) \<and>
    dispatch S p data' (c\<lparr>sock := sk\<rparr>, s) = Inr (c', s')"
  using assms(5) talk_recv_step [OF assms(1-4), of data] by (auto simp: run_round_def rbind_eq_Inr Let_def)

subsection \<open>The packets of a pairing\<close>

definition pair_request :: "bytes \<Rightarrow> packet" where
  "pair_request nonce = \<lparr>extra_data_len = 48, body = AuthRequest ''localhost'' (int (length nonce))\<rparr>"

definition pair_commit :: "bytes \<Rightarrow> packet" where
  "pair_commit nonce = \<lparr>extra_data_len = 48, body = ServerPartialHashNotify (int (length nonce))\<rparr>"

definition pair_reveal :: "bytes \<Rightarrow> packet" where
  "pair_reveal nonce = \<lparr>extra_data_len = int (length nonce), body = ClientNonceNotify\<rparr>"

definition pair_answer :: "bytes \<Rightarrow> packet" where
  "pair_answer nonce = \<lparr>extra_data_len = int (length nonce), body = ServerNonceNotify\<rparr>"

definition pair_packets :: "bytes \<Rightarrow> bytes \<Rightarrow> packet set" where
  "pair_packets nonce serverNonce = {pair_request nonce, pair_commit serverNonce, pair_reveal nonce, pair_answer serverNonce,
     reply (auth_reply AUTH_OK), reply (auth_reply INCORRECT_PIN)}"

lemmas pair_packet_defs = pair_request_def pair_commit_def pair_reveal_def pair_answer_def

subsection \<open>The client's half\<close>

lemma auth_open_talk:
  assumes w: "good_wire (ce_proto E) cview ps" "pair_request nonce \<in> ps"
    and h: "ce_sha384 E (serverCert @ cl_cert c @ nonce) = (0, h)" "length h = 48"
    and t: "talking cview (cl_conn c) out rest" and r: "auth_open E nonce serverCert c = Inr (ok, c1)"
  shows "\<exists>x. tls_out (cl_conn c1) = out @ enc (ce_proto E) (pair_request nonce) h @ x"
    and "rest = enc (ce_proto E) p ph @ tl9 \<Longrightarrow> p \<in> ps \<Longrightarrow> carries p ph \<Longrightarrow> body p = ServerPartialHashNotify n \<Longrightarrow> 16 \<le> n \<Longrightarrow>
      ok \<and> (\<exists>sk. c1 = c\<lparr>cl_conn := sk\<rparr> \<and> talking cview sk (out @ enc (ce_proto E) (pair_request nonce) h) tl9 \<and> same_peer sk (cl_conn c))"
proof -
  have car: "carries (pair_request nonce) h" using h(2) by (simp add: carries_def pair_request_def)
  from r h obtain ok0 c0 where s: "client_send E (pair_request nonce) (Some h) c = Inr (ok0, c0)"
    by (auto simp: auth_open_def pair_request_def rbind_eq_Inr)
  from client_send_talk [OF w car _ t s] obtain sk0 where s0: "ok0" "c0 = c\<lparr>cl_conn := sk0\<rparr>"
    "talking cview sk0 (out @ enc (ce_proto E) (pair_request nonce) h) rest" "same_peer sk0 (cl_conn c)" by auto
  from r h s s0(1) obtain pkt d where rc: "client_recv E (Some []) c0 = Inr ((pkt, d), c1)"
    "ok = (case pkt of None \<Rightarrow> False | Some p \<Rightarrow> (case body p of ServerPartialHashNotify n \<Rightarrow> \<not> n < 16 | _ \<Rightarrow> False))"
    by (auto simp: auth_open_def pair_request_def rbind_eq_Inr)
  from client_recv_grows [OF rc(1)] s0 show "\<exists>x. tls_out (cl_conn c1) = out @ enc (ce_proto E) (pair_request nonce) h @ x"
    by (auto simp: grows_def talking_def)
  assume p: "rest = enc (ce_proto E) p ph @ tl9" "p \<in> ps" "carries p ph" "body p = ServerPartialHashNotify n" "16 \<le> n"
  have t0: "talking cview (cl_conn c0) (out @ enc (ce_proto E) (pair_request nonce) h) (enc (ce_proto E) p ph @ tl9)" using s0 p(1) by simp
  from client_recv_talk [OF w(1) p(2,3) t0, of "[]"] rc p s0(2,4)
  show "ok \<and> (\<exists>sk. c1 = c\<lparr>cl_conn := sk\<rparr> \<and> talking cview sk (out @ enc (ce_proto E) (pair_request nonce) h) tl9 \<and> same_peer sk (cl_conn c))"
    by (auto intro: same_peer_trans)
qed

lemma auth_reveal_talk:
  assumes w: "good_wire (ce_proto E) cview ps" "pair_reveal nonce \<in> ps" and l: "length nonce < 2 ^ 31"
    and t: "talking cview (cl_conn c) out rest" and r: "auth_reveal E nonce c = Inr (got, c1)"
  shows "\<exists>x. tls_out (cl_conn c1) = out @ enc (ce_proto E) (pair_reveal nonce) nonce @ x"
    and "rest = enc (ce_proto E) p sn @ tl9 \<Longrightarrow> p \<in> ps \<Longrightarrow> carries p sn \<Longrightarrow> sn \<noteq> [] \<Longrightarrow> body p = ServerNonceNotify \<Longrightarrow>
      got = Some sn \<and> (\<exists>sk. c1 = c\<lparr>cl_conn := sk\<rparr> \<and> talking cview sk (out @ enc (ce_proto E) (pair_reveal nonce) nonce) tl9 \<and> same_peer sk (cl_conn c))"
proof -
  have car: "carries (pair_reveal nonce) nonce" using l by (simp add: carries_def pair_reveal_def)
  from r obtain ok0 c0 where s: "client_send E (pair_reveal nonce) (Some nonce) c = Inr (ok0, c0)"
    by (auto simp: auth_reveal_def pair_reveal_def rbind_eq_Inr)
  from client_send_talk [OF w car _ t s] obtain sk0 where s0: "ok0" "c0 = c\<lparr>cl_conn := sk0\<rparr>"
    "talking cview sk0 (out @ enc (ce_proto E) (pair_reveal nonce) nonce) rest" "same_peer sk0 (cl_conn c)" by auto
  from r s s0(1) obtain pkt d where rc: "client_recv E (Some []) c0 = Inr ((pkt, d), c1)"
    "got = (case pkt of None \<Rightarrow> None | Some p \<Rightarrow> if body p = ServerNonceNotify then d else None)"
    by (auto simp: auth_reveal_def pair_reveal_def rbind_eq_Inr)
  from client_recv_grows [OF rc(1)] s0 show "\<exists>x. tls_out (cl_conn c1) = out @ enc (ce_proto E) (pair_reveal nonce) nonce @ x"
    by (auto simp: grows_def talking_def)
  assume p: "rest = enc (ce_proto E) p sn @ tl9" "p \<in> ps" "carries p sn" "sn \<noteq> []" "body p = ServerNonceNotify"
  have t0: "talking cview (cl_conn c0) (out @ enc (ce_proto E) (pair_reveal nonce) nonce) (enc (ce_proto E) p sn @ tl9)" using s0 p(1) by simp
  from client_recv_talk [OF w(1) p(2,3) t0, of "[]"] rc p s0(2,4)
  show "got = Some sn \<and> (\<exists>sk. c1 = c\<lparr>cl_conn := sk\<rparr> \<and> talking cview sk (out @ enc (ce_proto E) (pair_reveal nonce) nonce) tl9 \<and> same_peer sk (cl_conn c))"
    by (auto intro: same_peer_trans)
qed

lemma auth_finish_talk:
  assumes w: "good_wire (ce_proto E) cview ps" and p: "p \<in> ps" "extra_data_len p = 0" "body p = AuthResponse st m"
    and t: "talking cview (cl_conn c) out (enc (ce_proto E) p [] @ tl9)"
  shows "\<exists>sk. auth_finish E d c = Inr (st = AUTH_OK, c\<lparr>cl_conn := sk\<rparr>) \<and> talking cview sk out tl9 \<and> same_peer sk (cl_conn c)"
proof -
  have "carries p []" using p(2) by (simp add: carries_def)
  from client_recv_talk [OF w p(1) this t, of d] p(3) show ?thesis by (auto simp: auth_finish_def)
qed

lemma auth_show_eq:
  assumes "0 \<le> fst (ce_sha512 E (sc @ cl_cert c @ sn @ nonce))"
  shows "auth_show E sc sn nonce c = (True, if has_onDisplayPin c
    then c\<lparr>shownPins := shownPins c @ [client_computePin (ce_sha512 E) sc (cl_cert c) sn nonce]\<rparr> else c)"
  using assms by (auto simp: auth_show_def Let_def client_computePin_def split: prod.splits)

text \<open>What the client has written and concluded, by how much of the server's answers it could read.\<close>

lemma doAuth_talk:
  assumes w: "good_wire (ce_proto E) cview ps" "pair_packets nonce sn \<subseteq> ps"
    and e: "ce_drbg E = (0, 0, nonce)" "length nonce < 2 ^ 31" "16 \<le> length sn" "length sn < 2 ^ 31"
    and h: "ce_sha384 E (getRemoteCert (cl_conn c) @ cl_cert c @ nonce) = (0, h)" "length h = 48" "length ph = 48"
    and t: "talking cview (cl_conn c) out rest" and r: "doAuth E host c = Inr (ok, host', c')"
  shows "\<exists>x. tls_out (cl_conn c') = out @ enc (ce_proto E) (pair_request nonce) h @ x"
    and "rest = enc (ce_proto E) (pair_commit sn) ph @ tl9 \<Longrightarrow>
      \<exists>x. tls_out (cl_conn c') = out @ enc (ce_proto E) (pair_request nonce) h @ enc (ce_proto E) (pair_reveal nonce) nonce @ x"
    and "rest = enc (ce_proto E) (pair_commit sn) ph @ enc (ce_proto E) (pair_answer sn) sn @ enc (ce_proto E) (reply (auth_reply st)) [] @ tl9 \<Longrightarrow>
      st \<in> {AUTH_OK, INCORRECT_PIN} \<Longrightarrow> 0 \<le> fst (ce_sha512 E (getRemoteCert (cl_conn c) @ cl_cert c @ sn @ nonce)) \<Longrightarrow>
      ok = (st = AUTH_OK) \<and>
      (if ok then (\<exists>d. digest (ce_crypto E) SHA256 (getRemoteCert (cl_conn c)) = Inr d \<and> host' = host\<lparr>he_certHash := d\<rparr>) else host' = host) \<and>
      shownPins c' = shownPins c @ (if has_onDisplayPin c
        then [client_computePin (ce_sha512 E) (getRemoteCert (cl_conn c)) (cl_cert c) sn nonce] else [])"
proof -
  let ?P = "ce_proto E"
  let ?sc = "getRemoteCert (cl_conn c)"
  have ps: "pair_request nonce \<in> ps" "pair_commit sn \<in> ps" "pair_reveal nonce \<in> ps" "pair_answer sn \<in> ps"
    "reply (auth_reply AUTH_OK) \<in> ps" "reply (auth_reply INCORRECT_PIN) \<in> ps" using w(2) by (auto simp: pair_packets_def)
  from r e(1) obtain ok1 c1 where o: "auth_open E nonce ?sc c = Inr (ok1, c1)"
    and r1: "(if \<not> ok1 then Inr (False, host, c1) else auth_rest E nonce ?sc (take 48 h) host c1) = Inr (ok, host', c')"
    by (auto simp: doAuth_def rbind_eq_Inr h cong: if_cong)
  note open_facts = auth_open_talk [OF w(1) ps(1) h(1,2) t o]
  have later: "grows (cl_conn c1) (cl_conn c')"
    using r1 by (auto split: if_splits dest: auth_rest_grows)
  from open_facts(1) later show "\<exists>x. tls_out (cl_conn c') = out @ enc ?P (pair_request nonce) h @ x"
    by (auto simp: grows_def)
  have carc: "carries (pair_commit sn) ph" using h(3) by (simp add: carries_def pair_commit_def)
  show "\<exists>x. tls_out (cl_conn c') = out @ enc ?P (pair_request nonce) h @ enc ?P (pair_reveal nonce) nonce @ x"
    if rest: "rest = enc ?P (pair_commit sn) ph @ tl9" for tl9
  proof -
    from open_facts(2) [OF rest ps(2) carc, of "int (length sn)"] e(3) obtain sk1 where
      c1: "ok1" "c1 = c\<lparr>cl_conn := sk1\<rparr>" "talking cview sk1 (out @ enc ?P (pair_request nonce) h) tl9" "same_peer sk1 (cl_conn c)"
      by (auto simp: pair_commit_def)
    from r1 c1(1) obtain got c2 where v: "auth_reveal E nonce c1 = Inr (got, c2)" by (auto simp: auth_rest_def rbind_eq_Inr)
    have t1: "talking cview (cl_conn c1) (out @ enc ?P (pair_request nonce) h) tl9" using c1 by simp
    note reveal_facts = auth_reveal_talk [OF w(1) ps(3) e(2) t1 v]
    have "grows (cl_conn c2) (cl_conn c')"
      using r1 c1(1) auth_rest_after [OF _ v] by simp
    with reveal_facts(1) show ?thesis by (auto simp: grows_def)
  qed
  show "ok = (st = AUTH_OK) \<and>
      (if ok then (\<exists>d. digest (ce_crypto E) SHA256 ?sc = Inr d \<and> host' = host\<lparr>he_certHash := d\<rparr>) else host' = host) \<and>
      shownPins c' = shownPins c @ (if has_onDisplayPin c then [client_computePin (ce_sha512 E) ?sc (cl_cert c) sn nonce] else [])"
    if rest: "rest = enc ?P (pair_commit sn) ph @ enc ?P (pair_answer sn) sn @ enc ?P (reply (auth_reply st)) [] @ tl9"
      and st: "st \<in> {AUTH_OK, INCORRECT_PIN}" and sha: "0 \<le> fst (ce_sha512 E (?sc @ cl_cert c @ sn @ nonce))"
  proof -
    have cara: "carries (pair_answer sn) sn" using e(4) by (simp add: carries_def pair_answer_def)
    obtain sk1 got c2 where c1: "ok1" "c1 = c\<lparr>cl_conn := sk1\<rparr>" "same_peer sk1 (cl_conn c)"
      and v: "auth_reveal E nonce c1 = Inr (got, c2)"
      and g: "got = Some sn" "\<exists>sk. c2 = c1\<lparr>cl_conn := sk\<rparr> \<and> talking cview sk ((out @ enc ?P (pair_request nonce) h) @ enc ?P (pair_reveal nonce) nonce)
        (enc ?P (reply (auth_reply st)) [] @ tl9) \<and> same_peer sk (cl_conn c1)"
    proof -
      from open_facts(2) [OF rest ps(2) carc, of "int (length sn)"] e(3) obtain sk1 where
        c1: "ok1" "c1 = c\<lparr>cl_conn := sk1\<rparr>" "talking cview sk1 (out @ enc ?P (pair_request nonce) h)
          (enc ?P (pair_answer sn) sn @ enc ?P (reply (auth_reply st)) [] @ tl9)" "same_peer sk1 (cl_conn c)"
        by (auto simp: pair_commit_def)
      from r1 c1(1) obtain got c2 where v: "auth_reveal E nonce c1 = Inr (got, c2)" by (auto simp: auth_rest_def rbind_eq_Inr)
      have t1: "talking cview (cl_conn c1) (out @ enc ?P (pair_request nonce) h)
        (enc ?P (pair_answer sn) sn @ enc ?P (reply (auth_reply st)) [] @ tl9)" using c1 by simp
      have "sn \<noteq> []" using e(3) by auto
      from auth_reveal_talk(2) [OF w(1) ps(3) e(2) t1 v refl ps(4) cara this] that c1 v show ?thesis by (simp add: pair_answer_def)
    qed
    from g(2) obtain sk2 where c2: "c2 = c1\<lparr>cl_conn := sk2\<rparr>" "talking cview sk2 ((out @ enc ?P (pair_request nonce) h) @ enc ?P (pair_reveal nonce) nonce)
        (enc ?P (reply (auth_reply st)) [] @ tl9)" by blast
    define c3 where "c3 = (if has_onDisplayPin c then c2\<lparr>shownPins := shownPins c @ [client_computePin (ce_sha512 E) ?sc (cl_cert c) sn nonce]\<rparr> else c2)"
    have sh: "auth_show E ?sc sn nonce c2 = (True, c3)"
      using auth_show_eq [of E ?sc c2 sn nonce] sha by (simp add: c2(1) c1(2) c3_def)
    have t3: "talking cview (cl_conn c3) ((out @ enc ?P (pair_request nonce) h) @ enc ?P (pair_reveal nonce) nonce)
        (enc ?P (reply (auth_reply st)) [] @ tl9)" using c2 by (simp add: c3_def)
    have pst: "reply (auth_reply st) \<in> ps" using st ps by auto
    from auth_finish_talk [OF w(1) pst _ _ t3, of st "[]" "take 48 h"] obtain sk4 where
      f: "auth_finish E (take 48 h) c3 = Inr (st = AUTH_OK, c3\<lparr>cl_conn := sk4\<rparr>)" by (auto simp: auth_reply_def)
    from r1 c1(1) v g(1) sh f show ?thesis by (auto simp: auth_rest_def rbind_eq_Inr c3_def c2(1) c1(2) split: if_splits)
  qed
qed

subsection \<open>The server's half\<close>

lemma server_open_talk:
  assumes w: "good_wire (proto_of S) cview ps" "pair_commit sn \<in> ps" and n: "16 \<le> length nonce" "length h = 48"
    and d: "drbg S (drbg_used c) = (0, sn)" "sha384 S (local_cert s @ getRemoteCert (sock c) @ sn) = (0, ph)" "length ph = 48"
    and t: "talking cview (sock c) out rest" and r: "dispatch S (pair_request nonce) h (c, s) = Inr (c', s')"
  shows "s' = s \<and> (\<exists>sk. c' = c\<lparr>authState := Some \<lparr>as_hostname = ''localhost'', as_serverCert = local_cert s,
      as_clientCert = getRemoteCert (sock c), as_nonce = sn, as_clientNonce = replicate (length nonce) None, as_clientPartialHash = h\<rparr>,
      drbg_used := drbg_used c + 1, sock := sk\<rparr> \<and> talking cview sk (out @ enc (proto_of S) (pair_commit sn) ph) rest \<and> same_peer sk (sock c))"
proof -
  have car: "carries (pair_commit sn) ph" using d(3) by (simp add: carries_def pair_commit_def)
  let ?c1 = "c\<lparr>authState := Some \<lparr>as_hostname = ''localhost'', as_serverCert = local_cert s,
      as_clientCert = getRemoteCert (sock c), as_nonce = sn, as_clientNonce = replicate (length nonce) None, as_clientPartialHash = h\<rparr>,
      drbg_used := drbg_used c + 1\<rparr>"
  from r n d obtain ok where s: "conn_send S (pair_commit sn) (Some ph) (?c1, s) = Inr (ok, c', s')"
    by (auto simp: dispatch_def pair_request_def pair_commit_def msg_authRequest_def getLocalCert_def Let_def rbind_eq_Inr
        split: if_splits)
  have t1: "talking cview (sock (fst (?c1, s))) out rest" using t by simp
  from conn_send_talk [OF w car _ t1 s] show ?thesis by auto
qed

lemma server_answer_talk:
  assumes w: "good_wire (proto_of S) cview ps" "pair_answer sn \<in> ps" "reply (auth_reply AUTH_OK) \<in> ps" "reply (auth_reply INCORRECT_PIN) \<in> ps"
    and a: "authState c = Some a" "length (as_clientNonce a) = length nonce" "as_nonce a = sn" "length sn < 2 ^ 31"
    and h: "sha384 S (as_serverCert a @ as_clientCert a @ nonce) = (0, as_clientPartialHash a)" "length (as_clientPartialHash a) = 48"
    and t: "talking cview (sock c) out rest" and r: "dispatch S (pair_reveal nonce) nonce (c, s) = Inr (c', s')"
  defines "pin \<equiv> client_computePin (sha512 S) (as_serverCert a) (as_clientCert a) sn nonce"
  shows "\<exists>entered. enter_pin (typed_line S (lines_used c)) = Inr entered \<and>
    tls_out (sock c') = out @ enc (proto_of S) (pair_answer sn) sn @
      enc (proto_of S) (reply (auth_reply (if entered = pin then AUTH_OK else INCORRECT_PIN))) [] \<and>
    authorized c' = (authorized c \<or> entered = pin) \<and>
    (if entered = pin then (\<exists>d. digest (crypto_of S) SHA256 (getRemoteCert (sock c)) = Inr d \<and>
       clients (knownClients s') = clients (knownClients s) @ [d]) else s' = s)"
proof -
  let ?a1 = "a\<lparr>as_clientNonce := map Some nonce\<rparr>"
  let ?cs1 = "(c\<lparr>authState := Some ?a1\<rparr>, s)"
  have eq: "secureMemcmp (as_clientPartialHash a) (as_clientPartialHash a) 48 = Inr True" using h(2) by (simp add: secureMemcmp_eq)
  have car: "carries (pair_answer sn) sn" using a(4) by (simp add: carries_def pair_answer_def)
  from r a h eq obtain ok cs2 where s: "conn_send S (pair_answer sn) (Some sn) ?cs1 = Inr (ok, cs2)"
    and v: "(if \<not> ok then Inr cs2 else auth_verdict S ?a1 nonce cs2) = Inr (c', s')"
    by (auto simp: dispatch_def pair_reveal_def pair_answer_def msg_clientNonceNotify_def rbind_eq_Inr Let_def)
  have t1: "talking cview (sock (fst ?cs1)) out rest" using t by simp
  from conn_send_talk [OF w(1,2) car _ t1 s] obtain sk where k: "ok" "cs2 = (c\<lparr>authState := Some ?a1, sock := sk\<rparr>, s)"
    "talking cview sk (out @ enc (proto_of S) (pair_answer sn) sn) rest" "same_peer sk (sock c)" by auto
  from v k(1,2) obtain entered where e: "enter_pin (typed_line S (lines_used c)) = Inr entered"
    by (auto simp: auth_verdict_def rbind_eq_Inr)
  let ?c3 = "c\<lparr>authState := Some ?a1, sock := sk, lines_used := lines_used c + 1\<rparr>"
  show ?thesis
  proof (cases "entered = pin")
    case False
    with v k(1,2) e a(3) have "respond S (auth_reply INCORRECT_PIN) (?c3, s) = Inr (c', s')"
      by (auto simp: auth_verdict_def pin_def Let_def)
    from respond_talk [OF w(1,4) _ this] k(3) e False show ?thesis by (fastforce simp: talking_def)
  next
    case True
    with v k(1,2) e a(3) obtain d good content cs4 where d: "digest (crypto_of S) SHA256 (getRemoteCert sk) = Inr d"
      and o: "respond S (auth_reply AUTH_OK) (?c3, s\<lparr>knownClients := add d (knownClients s),
             clients_file := if good then Some content else clients_file s\<rparr>) = Inr cs4" "c' = (fst cs4)\<lparr>authorized := True\<rparr>" "s' = snd cs4"
      by (auto simp: auth_verdict_def pin_def Let_def rbind_eq_Inr cong: if_cong)
    have "getRemoteCert sk = getRemoteCert (sock c)" using k(4) by (simp add: same_peer_def getRemoteCert_def)
    with respond_talk [OF w(1,3) _ o(1)] k(3) e True d o(2,3) show ?thesis
      by (fastforce simp: talking_def add_def)
  qed
qed

subsection \<open>Properties\<close>

text \<open>What the two ends agree on beforehand: the certificates each sees of the other, the hash functions, a nonce each.\<close>

definition pairing_setup :: "'s client_env \<Rightarrow> ('s, 'p, 'a) env \<Rightarrow> 's client \<Rightarrow> 's conn \<Rightarrow> ('p, 'a) server \<Rightarrow> bytes \<Rightarrow> bytes \<Rightarrow> bool" where
  "pairing_setup E S c sc s nonce sn \<longleftrightarrow> ce_proto E = proto_of S \<and> ce_drbg E = (0, 0, nonce) \<and> drbg S (drbg_used sc) = (0, sn) \<and>
     ce_sha384 E = sha384 S \<and> ce_sha512 E = sha512 S \<and> getRemoteCert (cl_conn c) = local_cert s \<and> getRemoteCert (sock sc) = cl_cert c \<and>
     16 \<le> length nonce \<and> length nonce < 2 ^ 31 \<and> 16 \<le> length sn \<and> length sn < 2 ^ 31"

text \<open>C6: pairing, from both ends. Let a client's \<open>doAuth_\<close> and two rounds of the server's connection thread run over a lossless
  channel: what each reads is what the other has written. Then the client has shown exactly one PIN, and the pairing
  succeeds at both ends when the number typed at the server is that PIN, the server then knowing the client's
  certificate and the client the server's, and at neither end otherwise.\<close>

theorem pairing_completes:
  assumes "doAuth E host c = Inr (ok, host', c')" and "run_rounds S 2 (data, sc, s) = Inr (data', sc', s')"
    and "good_wire (proto_of S) cview (pair_packets nonce sn)" and "pairing_setup E S c sc s nonce sn"
    and "list_all (\<lambda>x. fst (sha384 S x) = 0 \<and> length (snd (sha384 S x)) = 48)
      [local_cert s @ cl_cert c @ nonce, local_cert s @ cl_cert c @ sn]"
    and "0 \<le> fst (sha512 S (local_cert s @ cl_cert c @ sn @ nonce))"
    and "talking cview (cl_conn c) outc (drop (length outs) (tls_out (sock sc')))"
    and "talking cview (sock sc) outs (drop (length outc) (tls_out (cl_conn c')))"
  shows "\<exists>entered. enter_pin (typed_line S (lines_used sc)) = Inr entered \<and>
    (let pin = client_computePin (sha512 S) (local_cert s) (cl_cert c) sn nonce in
     ok = (entered = pin) \<and> authorized sc' = (authorized sc \<or> entered = pin) \<and>
     shownPins c' = shownPins c @ (if has_onDisplayPin c then [pin] else []) \<and>
     (if entered = pin
      then \<exists>d1 d2. digest (ce_crypto E) SHA256 (local_cert s) = Inr d1 \<and> host' = host\<lparr>he_certHash := d1\<rparr> \<and>
             digest (crypto_of S) SHA256 (cl_cert c) = Inr d2 \<and> clients (knownClients s') = clients (knownClients s) @ [d2]
      else host' = host \<and> s' = s))"
proof -
  let ?P = "proto_of S"
  let ?ps = "pair_packets nonce sn"
  have ps: "pair_request nonce \<in> ?ps" "pair_commit sn \<in> ?ps" "pair_reveal nonce \<in> ?ps" "pair_answer sn \<in> ?ps"
    "reply (auth_reply AUTH_OK) \<in> ?ps" "reply (auth_reply INCORRECT_PIN) \<in> ?ps" by (auto simp: pair_packets_def)
  from assms(4) have e: "ce_proto E = ?P" "ce_drbg E = (0, 0, nonce)" "drbg S (drbg_used sc) = (0, sn)" "ce_sha384 E = sha384 S"
    "ce_sha512 E = sha512 S" "getRemoteCert (cl_conn c) = local_cert s" "getRemoteCert (sock sc) = cl_cert c"
    "16 \<le> length nonce" "length nonce < 2 ^ 31" "16 \<le> length sn" "length sn < 2 ^ 31" by (auto simp: pairing_setup_def)
  define h where "h = snd (sha384 S (local_cert s @ cl_cert c @ nonce))"
  define ph where "ph = snd (sha384 S (local_cert s @ cl_cert c @ sn))"
  have hash: "sha384 S (local_cert s @ cl_cert c @ nonce) = (0, h)" "length h = 48" "sha384 S (local_cert s @ cl_cert c @ sn) = (0, ph)" "length ph = 48"
    using assms(5) by (auto simp: h_def ph_def prod_eq_iff)
  have wc: "good_wire (ce_proto E) cview ?ps" using assms(3) e(1) by simp
  have hc: "ce_sha384 E (getRemoteCert (cl_conn c) @ cl_cert c @ nonce) = (0, h)" using hash e by simp
  note client = doAuth_talk [OF wc subset_refl e(2,9,10,11) hc hash(2,4) assms(7,1), unfolded e(1)]
  from client(1) obtain x1 where x1: "drop (length outc) (tls_out (cl_conn c')) = enc ?P (pair_request nonce) h @ x1" by auto
  have car1: "carries (pair_request nonce) h" and car2: "carries (pair_reveal nonce) nonce"
    using hash(2) e(9) by (simp_all add: carries_def pair_request_def pair_reveal_def)
  have ne: "h \<noteq> []" "nonce \<noteq> []" using hash(2) e(8) by auto
  have cs: "connected (sock sc)" using assms(8) by (simp add: talking_def)
  from assms(2) cs obtain d1 sc1 s1 where r1: "run_round S (data, sc, s) = Inr (d1, sc1, s1)" "run_rounds S 1 (d1, sc1, s1) = Inr (data', sc', s')"
    by (auto simp: numeral_2_eq_2)
  from server_round_talk [OF assms(3) ps(1) car1 assms(8) [unfolded x1] r1(1)] obtain sk1 where
    k1: "talking cview sk1 outs x1" "same_peer sk1 (sock sc)" "dispatch S (pair_request nonce) h (sc\<lparr>sock := sk1\<rparr>, s) = Inr (sc1, s1)"
    using ne by auto
  have cert1: "getRemoteCert sk1 = cl_cert c" using k1(2) e(7) by (simp add: same_peer_def getRemoteCert_def)
  from server_open_talk [OF assms(3) ps(2) e(8) hash(2) _ _ hash(4) _ k1(3), of outs x1] k1 cert1 e(3) hash(3) obtain sk2 where
    k2: "s1 = s" "talking cview sk2 (outs @ enc ?P (pair_commit sn) ph) x1" "same_peer sk2 sk1"
      "sc1 = sc\<lparr>authState := Some \<lparr>as_hostname = ''localhost'', as_serverCert = local_cert s,
        as_clientCert = cl_cert c, as_nonce = sn, as_clientNonce = replicate (length nonce) None, as_clientPartialHash = h\<rparr>,
        drbg_used := drbg_used sc + 1, sock := sk2\<rparr>" by auto
  from run_rounds_grows [OF r1(2)] k2 obtain y where y: "drop (length outs) (tls_out (sock sc')) = enc ?P (pair_commit sn) ph @ y"
    by (auto simp: grows_def talking_def)
  from client(2) [OF y] x1 obtain x2 where x2: "x1 = enc ?P (pair_reveal nonce) nonce @ x2" by auto
  have t2: "talking cview (sock sc1) (outs @ enc ?P (pair_commit sn) ph) (enc ?P (pair_reveal nonce) nonce @ x2)" using k2 x2 by simp
  have c1: "connected (sock sc1)" using t2 by (simp add: talking_def)
  with r1(2) obtain st2 where r2: "run_round S (d1, sc1, s1) = Inr st2" "st2 = (data', sc', s')" by auto
  from server_round_talk [OF assms(3) ps(3) car2 t2 r2(1) [unfolded r2(2)]] obtain sk3 where
    k3: "talking cview sk3 (outs @ enc ?P (pair_commit sn) ph) x2" "same_peer sk3 (sock sc1)"
      "dispatch S (pair_reveal nonce) nonce (sc1\<lparr>sock := sk3\<rparr>, s) = Inr (sc', s')" using ne k2(1) by auto
  have t3: "talking cview (sock (sc1\<lparr>sock := sk3\<rparr>)) (outs @ enc ?P (pair_commit sn) ph) x2" using k3(1) by simp
  define pin where "pin = client_computePin (sha512 S) (local_cert s) (cl_cert c) sn nonce"
  have cert3: "getRemoteCert sk3 = cl_cert c" using k3(2) k2 k1(2) e(7) by (simp add: same_peer_def getRemoteCert_def)
  from server_answer_talk [OF assms(3) ps(4,5,6) _ _ _ e(11) _ _ t3 k3(3)] hash(1,2) cert3 obtain entered where
    f: "enter_pin (typed_line S (lines_used sc)) = Inr entered"
      "tls_out (sock sc') = (outs @ enc ?P (pair_commit sn) ph) @ enc ?P (pair_answer sn) sn @
         enc ?P (reply (auth_reply (if entered = pin then AUTH_OK else INCORRECT_PIN))) []"
      "authorized sc' = (authorized sc \<or> entered = pin)"
      "if entered = pin then (\<exists>d. digest (crypto_of S) SHA256 (cl_cert c) = Inr d \<and> clients (knownClients s') = clients (knownClients s) @ [d]) else s' = s"
    by (auto simp: k2(4) pin_def cong: if_cong)
  have z: "drop (length outs) (tls_out (sock sc')) = enc ?P (pair_commit sn) ph @ enc ?P (pair_answer sn) sn @
      enc ?P (reply (auth_reply (if entered = pin then AUTH_OK else INCORRECT_PIN))) [] @ []" using f(2) by simp
  from client(3) [OF z] assms(6) e(5,6) f show ?thesis by (auto simp: pin_def [symmetric] Let_def split: if_splits)
qed

text \<open>A pairing on the concrete stream of theory \<open>NetworkSocket\<close>, with hashes of zeros: the PIN is 0.\<close>

abbreviation (input) pair_list :: "packet list" where
  "pair_list \<equiv> [pair_request (replicate 16 6), pair_commit (replicate 16 5), pair_reveal (replicate 16 6), pair_answer (replicate 16 5),
     reply (auth_reply AUTH_OK), reply (auth_reply INCORRECT_PIN)]"

definition pair_proto :: "(bytes \<times> bytes option) proto" where
  "pair_proto = sample_proto pair_list"

lemma pair_proto_ser:
  "SerializeToCodedStream pair_proto \<lparr>extra_data_len = 48, body = AuthRequest ''localhost'' 16\<rparr> = Some [0]"
  "SerializeToCodedStream pair_proto \<lparr>extra_data_len = 48, body = ServerPartialHashNotify 16\<rparr> = Some [1]"
  "SerializeToCodedStream pair_proto \<lparr>extra_data_len = 16, body = ClientNonceNotify\<rparr> = Some [2]"
  "SerializeToCodedStream pair_proto \<lparr>extra_data_len = 16, body = ServerNonceNotify\<rparr> = Some [3]"
  "SerializeToCodedStream pair_proto \<lparr>extra_data_len = 0, body = AuthResponse AUTH_OK []\<rparr> = Some [4]"
  by (simp_all add: pair_proto_def sample_proto_def pair_packet_defs reply_def auth_reply_def position_def)

lemma pair_proto_parse:
  "ParseFromCodedStream pair_proto ([0], ys) = (Some \<lparr>extra_data_len = 48, body = AuthRequest ''localhost'' 16\<rparr>, ([], ys))"
  "ParseFromCodedStream pair_proto ([1], ys) = (Some \<lparr>extra_data_len = 48, body = ServerPartialHashNotify 16\<rparr>, ([], ys))"
  "ParseFromCodedStream pair_proto ([2], ys) = (Some \<lparr>extra_data_len = 16, body = ClientNonceNotify\<rparr>, ([], ys))"
  "ParseFromCodedStream pair_proto ([3], ys) = (Some \<lparr>extra_data_len = 16, body = ServerNonceNotify\<rparr>, ([], ys))"
  "ParseFromCodedStream pair_proto ([4], ys) = (Some \<lparr>extra_data_len = 0, body = AuthResponse AUTH_OK []\<rparr>, ([], ys))"
  by (simp_all add: pair_proto_def sample_proto_def pair_packet_defs reply_def auth_reply_def)

lemma pair_proto_rest:
  "grow_ok pair_proto n" "ByteSizeLong pair_proto p = 1" "WriteVarint64 pair_proto (Suc 0) = [1, 0, 0, 0]"
  "ReadVarintSizeAsInt pair_proto (1 # 0 # 0 # 0 # xs, ys) = (Some 1, (xs, ys))"
  "PushLimit pair_proto 1 (x # xs, ys) = (0, ([x], Some xs))" "ConsumedEntireMessage pair_proto ([], ys)"
  "PopLimit pair_proto l ([], Some zs) = (zs, None)" "ReadRaw pair_proto n d (xs, ys) = ((True, take n xs), (drop n xs, ys))"
  "stream_error pair_proto s = None"
  by (simp_all add: pair_proto_def sample_proto_def four_bytes_def read_four_def)

lemma pair_proto_room: "sz_sub (sz_add (Suc 0) 16) (Suc (Suc (Suc (Suc 0)))) = 13"
  by (simp add: SIZE_T_MOD_def)

lemmas pair_proto_simps = pair_proto_room pair_proto_ser pair_proto_parse pair_proto_rest

definition sample_talk :: "bytes \<Rightarrow> int list \<Rightarrow> bytes \<Rightarrow> (bytes \<times> bytes option) socket" where
  "sample_talk cert answers input = \<lparr>connected = True, has_onDisconnected = False, disconnect_events = [], tls_answers = answers,
     tls_out = [], inputStream = None, incoming = (input, None), peer_cert = Some cert, verify_flags = 8, expectedRemoteCerts = []\<rparr>"

definition sample_client :: "bytes \<Rightarrow> (bytes \<times> bytes option) client" where
  "sample_client input = (client_new (sample_talk [1] [5, 48, 5, 16] input) [7])\<lparr>has_onDisplayPin := True\<rparr>"

definition sample_client_env :: "(bytes \<times> bytes option) client_env" where
  "sample_client_env = \<lparr>ce_proto = pair_proto, ce_crypto = sample_crypto, ce_sha512 = (\<lambda>_. (0, replicate 64 0)),
     ce_sha384 = (\<lambda>_. (0, replicate 48 0)), ce_drbg = (0, 0, replicate 16 6), ce_git_commit = [], ce_not_trusted = 8, ce_missing = 64,
     ce_setup = \<lparr>st_seed = 0, st_defaults = 0, st_net_connect = 0, st_ssl_setup = 0, st_handshake = 0\<rparr>, ce_now = 1\<rparr>"

definition sample_pair_env :: "(bytes \<times> bytes option, bool, bool) env" where
  "sample_pair_env = \<lparr>proto_of = pair_proto, crypto_of = sample_crypto, media_of = onoff_media,
     sha512 = (\<lambda>_. (0, replicate 64 0)), sha384 = (\<lambda>_. (0, replicate 48 0)), drbg = (\<lambda>_. (0, replicate 16 5)),
     typed_line = (\<lambda>_. Some ''0000 0000''), cert_not_trusted = 8, cert_missing = 64, clients_fmt = (\<lambda>k v. v),
     clients_writable = True, git_commit = []\<rparr>"

definition to_client :: bytes where
  "to_client = [1, 0, 0, 0, 1] @ replicate 48 0 @ [1, 0, 0, 0, 3] @ replicate 16 5 @ [1, 0, 0, 0, 4]"

definition to_server :: bytes where
  "to_server = [1, 0, 0, 0, 0] @ replicate 48 0 @ [1, 0, 0, 0, 2] @ replicate 16 6"

lemma sample_doAuth:
  "case doAuth sample_client_env entry_init (sample_client to_client) of
     Inr (ok, h, c) \<Rightarrow> ok \<and> tls_out (cl_conn c) = to_server | _ \<Rightarrow> False"
  by (simp add: doAuth_def auth_open_def auth_rest_def auth_reveal_def auth_show_def auth_finish_def client_send_def client_recv_def
      send_def ssl_write_all_def recv_def recv_from_def recv_extra_def set_stream_def Let_def pair_proto_simps sample_client_env_def
      sample_client_def client_new_def sample_talk_def to_client_def to_server_def getRemoteCert_def client_computePin_def hash_value_def
      digest_def sample_crypto_def sz_of_int_def SIZE_T_MOD_def)

lemma sample_rounds:
  "case run_rounds sample_pair_env 2 ([], conn_new (sample_talk [7] [5, 48, 5, 16, 5] to_server), sample_server False) of
     Inr (d, c, s) \<Rightarrow> authorized c \<and> tls_out (sock c) = to_client | _ \<Rightarrow> False"
  by (simp add: numeral_2_eq_2 run_round_def dispatch_def msg_authRequest_def msg_clientNonceNotify_def auth_verdict_def conn_send_def respond_def reply_def
      auth_reply_def send_def ssl_write_all_def recv_def recv_from_def recv_extra_def set_stream_def Let_def pair_proto_simps sample_pair_env_def
      sample_server_def conn_new_def sample_talk_def to_client_def to_server_def getRemoteCert_def client_computePin_def hash_value_def
      digest_def sample_crypto_def sz_of_int_def SIZE_T_MOD_def secureMemcmp_eq enter_pin_def is_blank_def is_digit_def fits32_def
      saveFile_def kc_init_def add_def getRepr_def intoBase64String_def PREFIX_TABLE_def getLocalCert_def)

lemma pair_proto_good: "good_wire pair_proto (\<lambda>s. s) (pair_packets (replicate 16 6) (replicate 16 5))"
proof -
  have s: "set pair_list = pair_packets (replicate 16 6) (replicate 16 5)" by (simp add: pair_packets_def)
  have "coded_laws pair_proto (\<lambda>s. s) (pair_packets (replicate 16 6) (replicate 16 5))"
    using sample_laws [of pair_list] unfolding s by (simp add: pair_proto_def)
  moreover have "SerializeToCodedStream pair_proto p \<noteq> None" if "p \<in> pair_packets (replicate 16 6) (replicate 16 5)" for p
    using that unfolding s [symmetric] by (simp add: pair_proto_def sample_proto_def)
  ultimately show ?thesis by (simp add: good_wire_def pair_proto_rest)
qed

theorem pairing_completes_witness:
  "\<exists>h c sc s d. doAuth sample_client_env entry_init (sample_client to_client) = Inr (True, h, c) \<and>
     run_rounds sample_pair_env 2 ([], conn_new (sample_talk [7] [5, 48, 5, 16, 5] to_server), sample_server False) = Inr (d, sc, s) \<and>
     authorized sc \<and> shownPins c = [0] \<and> clients (knownClients s) \<noteq> []"
proof -
  obtain h c where c: "doAuth sample_client_env entry_init (sample_client to_client) = Inr (True, h, c)" "tls_out (cl_conn c) = to_server"
    using sample_doAuth by (auto split: sum.splits)
  obtain d sc s where s: "run_rounds sample_pair_env 2 ([], conn_new (sample_talk [7] [5, 48, 5, 16, 5] to_server), sample_server False) = Inr (d, sc, s)"
    "tls_out (sock sc) = to_client" using sample_rounds by (auto split: sum.splits)
  have agreed: "pairing_setup sample_client_env sample_pair_env (sample_client to_client) (conn_new (sample_talk [7] [5, 48, 5, 16, 5] to_server))
      (sample_server False) (replicate 16 6) (replicate 16 5)"
    by (simp add: pairing_setup_def sample_client_env_def sample_pair_env_def sample_client_def client_new_def conn_new_def sample_talk_def
        sample_server_def getRemoteCert_def)
  have t: "talking (\<lambda>s. s) (cl_conn (sample_client to_client)) [] (drop (length ([] :: bytes)) (tls_out (sock sc)))"
    "talking (\<lambda>s. s) (sock (conn_new (sample_talk [7] [5, 48, 5, 16, 5] to_server))) [] (drop (length ([] :: bytes)) (tls_out (cl_conn c)))"
    by (simp_all add: talking_def willing_def sample_client_def client_new_def conn_new_def sample_talk_def next_stream_def c s)
  have g: "good_wire (proto_of sample_pair_env) (\<lambda>s. s) (pair_packets (replicate 16 6) (replicate 16 5))"
    using pair_proto_good by (simp add: sample_pair_env_def)
  have sha: "fst (sha384 sample_pair_env x) = 0 \<and> length (snd (sha384 sample_pair_env x)) = 48" "0 \<le> fst (sha512 sample_pair_env x)" for x
    by (simp_all add: sample_pair_env_def)
  have zero: "client_computePin (sha512 sample_pair_env) a b x y = 0" for a b x y
    by (simp add: sample_pair_env_def client_computePin_def hash_value_def)
  from pairing_completes [OF c(1) s(1) g agreed _ sha(2) t] sha(1) obtain entered where
    e: "True = (entered = 0)" "authorized sc = (authorized (conn_new (sample_talk [7] [5, 48, 5, 16, 5] to_server)) \<or> entered = 0)"
      "shownPins c = shownPins (sample_client to_client) @ (if has_onDisplayPin (sample_client to_client) then [0] else [])"
      "entered = 0 \<longrightarrow> (\<exists>d2. clients (knownClients s) = clients (knownClients (sample_server False)) @ [d2])"
    by (auto simp: zero Let_def cong: if_cong)
  with c s show ?thesis by (auto simp: sample_client_def client_new_def)
qed

end
