(* ===== verification/DecoderFFmpeg.thy ===== *)
theory DecoderFFmpeg
  imports EncoderFFmpeg CircularDeque
begin

text \<open>
  \<open>DecoderFFmpeg\<close> of \<open>src/src/client/platform/software/DecoderFFmpeg.h\<close> and \<open>.cpp\<close>: a packet queue in front of a worker
  thread and a deque of four decoded frames behind it. A key frame pushed while another is queued empties the
  queue; the cursor data of the packets that are dropped moves to the key frame.

  FFmpeg's decoder is the record \<open>av_decoder\<close>. An \<open>AVFramePtr\<close> is \<open>None\<close> while it holds no picture; its move
  assignment swaps. \<open>flagNextFrameAvailable\<close> of the class is never used.
\<close>

datatype 'px decode_result = D_EOF | D_FRAME "'px av_frame" | D_AGAIN | D_ERROR

record av_packet =
  pk_data :: bytes
  pk_pts :: int
  pk_duration :: int
  pk_key :: bool

record ('c, 'px) av_decoder =
  vp8_found :: bool
  da_alloc_context :: bool
  da_open :: "int \<times> 'c"
  da_receive :: "'c \<Rightarrow> 'px decode_result \<times> 'c"
  da_send :: "av_packet \<Rightarrow> 'c \<Rightarrow> int \<times> 'c"

datatype codec_type = CT_INVALID | CT_H264_BASELINE | CT_VP8

definition FRAME_QUEUE_LEN :: nat where
  "FRAME_QUEUE_LEN = 4"

record ('c, 'px) ff_decoder =
  df_flagRun :: bool
  flagKeyInPacket :: bool
  df_codecType :: codec_type
  df_codec :: bool
  df_avctx :: "'c option"
  df_thread :: thread_state
  df_packets :: "bytes frame_of list"
  frameQueue :: "'px av_frame option frame_of circular_deque"
  prevReadFrame :: "'px av_frame option"

subsection \<open>Operations\<close>

definition df_new :: "('c, 'px) ff_decoder" where
  "df_new = \<lparr>df_flagRun = False, flagKeyInPacket = False, df_codecType = CT_INVALID, df_codec = False, df_avctx = None,
     df_thread = Idle, df_packets = [], frameQueue = cd_new FRAME_QUEUE_LEN, prevReadFrame = None\<rparr>"

definition df_destroy :: "('c, 'px) ff_decoder \<Rightarrow> thread_state res" where
  "df_destroy d = rbind (assert_quit (\<not> df_flagRun d) ''Being destructed while running!'') (\<lambda>_. join_thread (df_thread d))"

definition df_enumSupportedCodecs :: "codec_type list" where
  "df_enumSupportedCodecs = [CT_VP8]"

definition df_setVideoResolution :: "int \<Rightarrow> int \<Rightarrow> ('c, 'px) ff_decoder \<Rightarrow> ('c, 'px) ff_decoder res" where
  "df_setVideoResolution w h d =
     rbind (assert_quit (\<not> df_flagRun d) ''Tried to set resolution while running!'') (\<lambda>_. Inr d)"

definition df_init :: "('c, 'px) av_decoder \<Rightarrow> codec_type \<Rightarrow> ('c, 'px) ff_decoder \<Rightarrow> ('c, 'px) ff_decoder res" where
  "df_init A ct d =
     (case ct of
        CT_VP8 \<Rightarrow> rbind (assert_quit (vp8_found A) ''Failed to find ffvp8 decoder'') (\<lambda>_. Inr (d\<lparr>df_codecType := ct, df_codec := True\<rparr>))
      | _ \<Rightarrow> error_quit ''Unknown codec type ({}) requested!'')"

definition df_start :: "('c, 'px) av_decoder \<Rightarrow> ('c, 'px) ff_decoder \<Rightarrow> ('c, 'px) ff_decoder res" where
  "df_start A d =
     rbind (assert_quit (\<not> df_flagRun d) ''Not stopped before start!'') (\<lambda>_.
     rbind (assert_quit (df_codec d) ''Codec not set before start!'') (\<lambda>_.
     rbind (join_thread (df_thread d)) (\<lambda>t.
     let d1 = d\<lparr>df_thread := t, flagKeyInPacket := False, df_avctx := None\<rparr> in
     rbind (assert_quit (da_alloc_context A) ''Failed to allocate codec context'') (\<lambda>_.
     rbind (assert_quit (fst (da_open A) = 0) ''Failed to open codec'') (\<lambda>_.
     rbind (spawn_thread (df_thread d1)) (\<lambda>t.
       Inr (d1\<lparr>df_avctx := Some (snd (da_open A)), df_flagRun := True, df_thread := t\<rparr>)))))))"

definition df_stop :: "('c, 'px) ff_decoder \<Rightarrow> ('c, 'px) ff_decoder res" where
  "df_stop d = rbind (assert_quit (df_flagRun d) ''Not started before stopping!'') (\<lambda>_. Inr (d\<lparr>df_flagRun := False\<rparr>))"

text \<open>The last value that is present, as the loop over the dropped packets leaves it.\<close>

fun last_some :: "'b option list \<Rightarrow> 'b option \<Rightarrow> 'b option" where
  "last_some [] acc = acc"
| "last_some (x # xs) acc = last_some xs (if x \<noteq> None then x else acc)"

definition inherit_cursor :: "bytes frame_of list \<Rightarrow> bytes frame_of \<Rightarrow> bytes frame_of" where
  "inherit_cursor dropped frame =
     (let lastPos = last_some (map cursorPos dropped) None;
          lastShape = last_some (map cursorShape dropped) None;
          frame1 = (if lastPos \<noteq> None \<and> cursorPos frame = None then frame\<lparr>cursorPos := lastPos\<rparr> else frame)
      in if lastShape \<noteq> None \<and> cursorShape frame1 = None then frame1\<lparr>cursorShape := lastShape\<rparr> else frame1)"

definition df_pushData :: "bytes frame_of \<Rightarrow> ('c, 'px) ff_decoder \<Rightarrow> ('c, 'px) ff_decoder" where
  "df_pushData frame d =
     (if isIDR frame
      then (if flagKeyInPacket d
            then d\<lparr>flagKeyInPacket := True, df_packets := [inherit_cursor (df_packets d) frame]\<rparr>
            else d\<lparr>flagKeyInPacket := True, df_packets := df_packets d @ [frame]\<rparr>)
      else d\<lparr>df_packets := df_packets d @ [frame]\<rparr>)"

text \<open>The frame shown before is given back to the queue's slot, which the pop destroys.\<close>

definition df_readSoftware :: "av_image \<Rightarrow> ('c, 'px) ff_decoder \<Rightarrow> ('px texture frame_of option \<times> ('c, 'px) ff_decoder) res" where
  "df_readSoftware av d =
     (if cd_empty (frameQueue d) \<and> df_flagRun d then Inl Blocked
      else if \<not> df_flagRun d then Inr (None, d)
      else rbind (deque_front (frameQueue d)) (\<lambda>f.
        case desktop f of
          None \<Rightarrow> Inl Undef
        | Some pic \<Rightarrow>
            rbind (tex_reference av (fr_pixels pic) [0, 0, 0, 0] (fr_linesize pic) (fr_width pic) (fr_height pic) (fr_format pic)) (\<lambda>tex.
            rbind (pop_front FRAME_QUEUE_LEN (frameQueue d)) (\<lambda>q.
              Inr (Some (getOtherType f tex), d\<lparr>prevReadFrame := Some pic, frameQueue := q\<rparr>)))))"

subsection \<open>The worker thread\<close>

record 'px df_worker =
  dw_pts :: int
  dw_extra :: "int frame_of list"
  dw_out :: "'px av_frame option frame_of option"

definition dw_new :: "'px df_worker" where
  "dw_new = \<lparr>dw_pts = 0, dw_extra = [], dw_out = None\<rparr>"

definition df_picture :: "int \<Rightarrow> 'px av_frame \<Rightarrow> 'px df_worker \<Rightarrow> 'px df_worker res" where
  "df_picture now pic w =
     (case take_first (\<lambda>x. desktop x = fr_pts pic) (dw_extra w) of
        None \<Rightarrow> error_quit ''Failed to find matching extra data for {}''
      | Some (extra, rest) \<Rightarrow>
          rbind (assert_quit (0 \<le> desktop extra) ''Failed to find matching extra data for {}'') (\<lambda>_.
            Inr (w\<lparr>dw_extra := rest, dw_out := Some ((getOtherType extra (Some pic))\<lparr>timeDecoded := now\<rparr>)\<rparr>)))"

definition df_packet :: "bytes frame_of \<Rightarrow> 'px df_worker \<Rightarrow> av_packet \<times> 'px df_worker" where
  "df_packet p w =
     (\<lparr>pk_data = desktop p, pk_pts = dw_pts w, pk_duration = 1, pk_key = isIDR p\<rparr>,
      w\<lparr>dw_pts := dw_pts w + 1, dw_extra := dw_extra w @ [getOtherType p (dw_pts w)]\<rparr>)"

text \<open>
  One round of the loop. A picture is first held by the worker (\<open>dw_out\<close>) and enters the queue when there is room:
  that wait is inside the loop's body, so the two halves are two rounds. The flag says whether the loop goes on.
\<close>

definition df_run_round :: "('c, 'px) av_decoder \<Rightarrow> int \<Rightarrow> ('c, 'px) ff_decoder \<times> 'px df_worker \<Rightarrow>
    (bool \<times> ('c, 'px) ff_decoder \<times> 'px df_worker) res" where
  "df_run_round A now s =
     (case s of (d, w) \<Rightarrow>
      if \<not> df_flagRun d then Inr (False, d, w\<lparr>dw_out := None\<rparr>)
      else (case (dw_out w, df_avctx d) of
          (Some out, _) \<Rightarrow>
            (if cd_full FRAME_QUEUE_LEN (frameQueue d) then Inl Blocked
             else rbind (push_back FRAME_QUEUE_LEN out (frameQueue d)) (\<lambda>q.
               Inr (True, d\<lparr>frameQueue := q\<rparr>, w\<lparr>dw_out := None\<rparr>)))
        | (None, None) \<Rightarrow> Inl Undef
        | (None, Some c) \<Rightarrow>
            (case da_receive A c of
               (D_EOF, c') \<Rightarrow> Inr (False, d\<lparr>df_avctx := Some c'\<rparr>, w)
             | (D_FRAME pic, c') \<Rightarrow> rbind (df_picture now pic w) (\<lambda>w'. Inr (True, d\<lparr>df_avctx := Some c'\<rparr>, w'))
             | (D_AGAIN, c') \<Rightarrow>
                 (case df_packets d of
                    [] \<Rightarrow> Inl Blocked
                  | p # ps \<Rightarrow>
                      (case df_packet p w of
                         (pkt, w') \<Rightarrow>
                           (case da_send A pkt c' of
                              (err, c'') \<Rightarrow>
                                rbind (assert_quit (err = 0) ''Failed to send packet into decoder'') (\<lambda>_.
                                  Inr (True, d\<lparr>df_avctx := Some c'', df_packets := ps,
                                                flagKeyInPacket := (if isIDR p then False else flagKeyInPacket d)\<rparr>, w')))))
             | (D_ERROR, c') \<Rightarrow> error_quit ''Unknown error from encoder!'')))"

text \<open>After the loop every frame is dropped.\<close>

definition df_run_close :: "('c, 'px) ff_decoder \<Rightarrow> ('c, 'px) ff_decoder" where
  "df_run_close d = d\<lparr>frameQueue := cd_clear FRAME_QUEUE_LEN (frameQueue d), prevReadFrame := None, df_thread := Ended\<rparr>"

subsection \<open>The decoder's life\<close>

text \<open>
  \<open>df_life A av (d, w, g)\<close>: a decoder after any calls and rounds, over any number of starts and stops. The
  history \<open>g\<close> holds the packets pushed and those the workers took, ever; and since the last start the packets taken, what
  the codec returned and became, and the frames read. \<open>g_sync\<close>: no start so far found a key frame queued.
\<close>

record 'px df_history =
  g_pushed :: "bytes frame_of list"
  g_taken :: "bytes frame_of list"
  g_now :: "bytes frame_of list"
  g_outs :: "((int \<times> 'px av_frame) \<times> 'px av_frame option frame_of) list"
  g_reads :: "'px texture frame_of list"
  g_sync :: bool

definition no_history :: "'px df_history" where
  "no_history = \<lparr>g_pushed = [], g_taken = [], g_now = [], g_outs = [], g_reads = [], g_sync = True\<rparr>"

definition took :: "('c, 'px) ff_decoder \<Rightarrow> ('c, 'px) ff_decoder \<Rightarrow> bytes frame_of list" where
  "took d d' = (if length (df_packets d') < length (df_packets d) then [hd (df_packets d)] else [])"

definition returned :: "'px df_worker \<Rightarrow> 'px df_worker \<Rightarrow> ((int \<times> 'px av_frame) \<times> 'px av_frame option frame_of) list" where
  "returned w w' =
     (case (dw_out w, dw_out w') of
        (None, Some out) \<Rightarrow> (case desktop out of Some pic \<Rightarrow> [((fr_pts pic, pic), out)] | None \<Rightarrow> [])
      | _ \<Rightarrow> [])"

inductive df_life :: "('c, 'px) av_decoder \<Rightarrow> av_image \<Rightarrow> ('c, 'px) ff_decoder \<times> 'px df_worker \<times> 'px df_history \<Rightarrow> bool"
  for A av where
  life_new: "df_life A av (df_new, dw_new, no_history)"
| life_init: "df_life A av (d, w, g) \<Longrightarrow> df_init A ct d = Inr d' \<Longrightarrow> df_life A av (d', w, g)"
| life_push: "df_life A av (d, w, g) \<Longrightarrow> df_life A av (df_pushData f d, w, g\<lparr>g_pushed := g_pushed g @ [f]\<rparr>)"
| life_start: "df_life A av (d, w, g) \<Longrightarrow> df_start A d = Inr d' \<Longrightarrow>
    df_life A av (d', dw_new, g\<lparr>g_now := [], g_outs := [], g_reads := [],
      g_sync := g_sync g \<and> \<not> list_ex isIDR (df_packets d)\<rparr>)"
| life_stop: "df_life A av (d, w, g) \<Longrightarrow> df_stop d = Inr d' \<Longrightarrow> df_life A av (d', w, g)"
| life_read: "df_life A av (d, w, g) \<Longrightarrow> df_readSoftware av d = Inr (r, d') \<Longrightarrow>
    df_life A av (d', w, g\<lparr>g_reads := g_reads g @ (case r of Some f \<Rightarrow> [f] | None \<Rightarrow> [])\<rparr>)"
| life_round: "df_life A av (d, w, g) \<Longrightarrow> df_thread d = Working \<Longrightarrow> df_run_round A now (d, w) = Inr (True, d', w') \<Longrightarrow>
    df_life A av (d', w', g\<lparr>g_taken := g_taken g @ took d d', g_now := g_now g @ took d d',
      g_outs := g_outs g @ returned w w'\<rparr>)"
| life_ends: "df_life A av (d, w, g) \<Longrightarrow> df_thread d = Working \<Longrightarrow> df_run_round A now (d, w) = Inr (False, d', w') \<Longrightarrow>
    df_life A av (df_run_close d', w', g)"

subsection \<open>Skipping\<close>

text \<open>How the accepted packets come from the pushed ones: each is taken over, or a run at the end of the accepted ones
  is dropped for a key frame, which inherits the cursor.\<close>

inductive skips :: "bytes frame_of list \<Rightarrow> bytes frame_of list \<Rightarrow> bool" where
  skips_none: "skips [] []"
| skips_keep: "skips ps as \<Longrightarrow> skips (ps @ [p]) (as @ [p])"
| skips_drop: "skips ps (as @ ds) \<Longrightarrow> isIDR p \<Longrightarrow> skips (ps @ [p]) (as @ [inherit_cursor ds p])"

lemma last_some_acc: "last_some xs acc = (if last_some xs None = None then acc else last_some xs None)"
proof (induction xs arbitrary: acc)
  case (Cons x xs)
  show ?case using Cons.IH [of "if x \<noteq> None then x else acc"] Cons.IH [of x] by (cases x) auto
qed simp

lemma last_some_append: "last_some (xs @ ys) acc = last_some ys (last_some xs acc)"
  by (induction xs arbitrary: acc) auto

lemma inherit_cursor_simps [simp]:
  "desktop (inherit_cursor ds p) = desktop p" "isIDR (inherit_cursor ds p) = isIDR p"
  "timeCaptured (inherit_cursor ds p) = timeCaptured p" "timeEncoded (inherit_cursor ds p) = timeEncoded p"
  "timeReceived (inherit_cursor ds p) = timeReceived p"
  "cursorPos (inherit_cursor ds p) = (if cursorPos p = None then last_some (map cursorPos ds) None else cursorPos p)"
  "cursorShape (inherit_cursor ds p) = (if cursorShape p = None then last_some (map cursorShape ds) None else cursorShape p)"
  by (auto simp: inherit_cursor_def Let_def)

lemma inherit_last:
  assumes h: "h (inherit_cursor ds p) = (if h p = None then last_some (map h ds) None else h p)"
  shows "last_some (map h (as @ [inherit_cursor ds p])) None = last_some (map h (as @ ds @ [p])) None"
  using h last_some_acc [of "map h ds" "last_some (map h as) None"] by (auto simp: last_some_append)

lemma skips_last: "skips ps as \<Longrightarrow>
    last_some (map cursorPos as) None = last_some (map cursorPos ps) None \<and>
    last_some (map cursorShape as) None = last_some (map cursorShape ps) None"
proof (induction rule: skips.induct)
  case (skips_drop ps as ds p)
  then show ?case using inherit_last [of cursorPos ds p as] inherit_last [of cursorShape ds p as]
    by (auto simp: last_some_append)
qed (auto simp: last_some_append)

definition from_pushed :: "bytes frame_of list \<Rightarrow> bytes frame_of list \<Rightarrow> nat list \<Rightarrow> nat \<Rightarrow> bool" where
  "from_pushed ps as idx k \<longleftrightarrow>
     idx ! k < length ps \<and> desktop (as ! k) = desktop (ps ! (idx ! k)) \<and> isIDR (as ! k) = isIDR (ps ! (idx ! k)) \<and>
     timeCaptured (as ! k) = timeCaptured (ps ! (idx ! k)) \<and>
     (\<not> isIDR (as ! k) \<longrightarrow> as ! k = ps ! (idx ! k) \<and> idx ! k = (if k = 0 then 0 else Suc (idx ! (k - 1))))"

definition follows :: "bytes frame_of list \<Rightarrow> bytes frame_of list \<Rightarrow> nat list \<Rightarrow> bool" where
  "follows ps as idx \<longleftrightarrow> length idx = length as \<and> sorted_wrt (<) idx \<and> (\<forall>k<length as. from_pushed ps as idx k)"

lemma from_pushed_prefix:
  assumes "from_pushed ps (as @ ds) idx k" and "k < length as" and "length as \<le> length idx"
  shows "from_pushed (ps @ qs) (as @ cs) (take (length as) idx @ js) k"
proof -
  have below: "idx ! k < length ps" using assms(1) unfolding from_pushed_def by blast
  have eqs: "(take (length as) idx @ js) ! k = idx ! k" "(take (length as) idx @ js) ! (k - 1) = idx ! (k - 1)"
    "(as @ cs) ! k = as ! k" "(as @ ds) ! k = as ! k" "(ps @ qs) ! (idx ! k) = ps ! (idx ! k)"
    using assms(2,3) below by (auto simp: nth_append)
  show ?thesis using assms(1) unfolding from_pushed_def eqs length_append by (blast intro: trans_less_add1)
qed

lemma follows_snoc:
  assumes f: "follows ps (as @ ds) idx" and q: "desktop q = desktop p" "isIDR q = isIDR p" "timeCaptured q = timeCaptured p"
    and n: "\<not> isIDR p \<Longrightarrow> q = p \<and> ds = [] \<and> (if as = [] then ps = [] else Suc (last idx) = length ps)"
  shows "follows (ps @ [p]) (as @ [q]) (take (length as) idx @ [length ps])"
proof -
  let ?i = "take (length as) idx @ [length ps]"
  have len: "length idx = length as + length ds" and srt: "sorted_wrt (<) idx"
    and old: "\<And>k. k < length as \<Longrightarrow> from_pushed ps (as @ ds) idx k" using f by (auto simp: follows_def)
  have below: "x < length ps" if "x \<in> set (take (length as) idx)" for x
  proof -
    from that len obtain k where k: "k < length as" "x = idx ! k" by (auto simp: in_set_conv_nth)
    from old [OF k(1)] have "idx ! k < length ps" unfolding from_pushed_def by blast
    with k show ?thesis by simp
  qed
  have "sorted_wrt (<) ?i" using sorted_wrt_take [OF srt, of "length as"] below unfolding sorted_wrt_append by simp
  moreover have "from_pushed (ps @ [p]) (as @ [q]) ?i k" if "k < length (as @ [q])" for k
  proof (cases "k < length as")
    case True
    with from_pushed_prefix [OF old [OF True]] len show ?thesis by simp
  next
    case False
    with that have k: "k = length as" by simp
    have i: "?i ! length as = length ps" using len by (simp add: nth_append)
    have tl: "last idx = idx ! (length as - 1)" if "as \<noteq> []" "ds = []" using that len by (subst last_conv_nth) auto
    have "length ps = (if k = 0 then 0 else Suc (?i ! (k - 1)))" if "\<not> isIDR p"
      using n [OF that] len k tl by (cases "as = []") (auto simp: nth_append)
    then obtain j where j: "j = ?i" "j ! length as = length ps" "\<not> isIDR p \<Longrightarrow> length ps = (if k = 0 then 0 else Suc (j ! (k - 1)))"
      using i by blast
    have eqs: "j ! k = length ps" "(as @ [q]) ! k = q" "(ps @ [p]) ! length ps = p" "length ps < length (ps @ [p])"
      using j(2) k by simp_all
    have "\<not> isIDR q \<Longrightarrow> q = p" using n q(2) by blast
    with q j(3) eqs(4) have "from_pushed (ps @ [p]) (as @ [q]) j k" unfolding from_pushed_def eqs(1-3) by blast
    then show ?thesis unfolding j(1) .
  qed
  ultimately show ?thesis using len by (simp add: follows_def)
qed

lemma skips_follows:
  "skips ps as \<Longrightarrow> (as = [] \<longleftrightarrow> ps = []) \<and> (\<exists>idx. follows ps as idx \<and> (as \<noteq> [] \<longrightarrow> Suc (last idx) = length ps))"
proof (induction rule: skips.induct)
  case skips_none
  show ?case by (auto simp: follows_def intro!: exI [of _ "[]"])
next
  case (skips_keep ps as p)
  then obtain idx where "follows ps (as @ []) idx" "as = [] \<longleftrightarrow> ps = []" "as \<noteq> [] \<longrightarrow> Suc (last idx) = length ps" by auto
  then have "follows (ps @ [p]) (as @ [p]) (take (length as) idx @ [length ps])"
    by (intro follows_snoc [where ds = "[]"]) auto
  then show ?case by (auto intro!: exI)
next
  case (skips_drop ps as ds p)
  then obtain idx where "follows ps (as @ ds) idx" by auto
  then have "follows (ps @ [p]) (as @ [inherit_cursor ds p]) (take (length as) idx @ [length ps])"
    using skips_drop.hyps by (intro follows_snoc) auto
  then show ?case by (auto intro!: exI)
qed

lemma df_roundE:
  assumes "df_run_round A now (d, w) = Inr (True, d', w')"
  obtains (queue) out q where "dw_out w = Some out" "push_back FRAME_QUEUE_LEN out (frameQueue d) = Inr q"
      "\<not> cd_full FRAME_QUEUE_LEN (frameQueue d)" "d' = d\<lparr>frameQueue := q\<rparr>" "w' = w\<lparr>dw_out := None\<rparr>"
  | (picture) pic c where "dw_out w = None" "df_picture now pic w = Inr w'" "d' = d\<lparr>df_avctx := Some c\<rparr>"
  | (packet) p ps c where "dw_out w = None" "df_packets d = p # ps" "w' = snd (df_packet p w)"
      "d' = d\<lparr>df_avctx := Some c, df_packets := ps, flagKeyInPacket := (if isIDR p then False else flagKeyInPacket d)\<rparr>"
proof (cases "dw_out w")
  case (Some out)
  with assms queue show ?thesis by (auto simp: df_run_round_def rbind_eq_Inr split: if_splits option.splits)
next
  case None
  with assms obtain c where run: "df_flagRun d" and c: "df_avctx d = Some c"
    by (auto simp: df_run_round_def split: if_splits option.splits)
  obtain r c1 where rc: "da_receive A c = (r, c1)" by fastforce
  show ?thesis
  proof (cases r)
    case D_EOF
    with assms run c rc None show ?thesis by (simp add: df_run_round_def)
  next
    case (D_FRAME pic)
    with assms run c rc None picture show ?thesis by (auto simp: df_run_round_def rbind_eq_Inr)
  next
    case D_AGAIN
    with assms run c rc None obtain p ps where ps: "df_packets d = p # ps" by (auto simp: df_run_round_def split: list.splits)
    obtain pkt w1 where dp: "df_packet p w = (pkt, w1)" by fastforce
    obtain err c2 where "da_send A pkt c1 = (err, c2)" by fastforce
    with assms run c rc None D_AGAIN ps dp have "w' = w1"
      "d' = d\<lparr>df_avctx := Some c2, df_packets := ps, flagKeyInPacket := (if isIDR p then False else flagKeyInPacket d)\<rparr>"
      by (auto simp: df_run_round_def rbind_eq_Inr)
    with packet None ps dp show ?thesis by simp
  next
    case D_ERROR
    with assms run c rc None show ?thesis by (simp add: df_run_round_def error_quit_def)
  qed
qed

lemma df_round_ends:
  assumes "df_run_round A now (d, w) = Inr (False, d', w')"
  shows "df_packets d' = df_packets d \<and> flagKeyInPacket d' = flagKeyInPacket d \<and> frameQueue d' = frameQueue d \<and>
     dw_pts w' = dw_pts w \<and> dw_extra w' = dw_extra w"
proof (cases "df_flagRun d")
  case True
  show ?thesis
  proof (cases "dw_out w")
    case None
    with assms True obtain c where c: "df_avctx d = Some c" by (auto simp: df_run_round_def split: option.splits)
    with assms True None show ?thesis
      by (cases "da_receive A c"; cases "fst (da_receive A c)")
        (auto simp: df_run_round_def rbind_eq_Inr error_quit_def split: list.splits prod.splits)
  qed (use assms True in \<open>auto simp: df_run_round_def rbind_eq_Inr split: if_splits\<close>)
qed (use assms in \<open>auto simp: df_run_round_def\<close>)

lemma df_start_fields: "df_start A d = Inr d' \<Longrightarrow> df_thread d \<noteq> Working \<and> df_thread d' = Working \<and>
    df_packets d' = df_packets d \<and> frameQueue d' = frameQueue d \<and> \<not> flagKeyInPacket d'"
  by (auto simp: df_start_def rbind_eq_Inr join_thread_def spawn_thread_def Let_def split: if_splits)

lemma df_init_fields: "df_init A ct d = Inr d' \<Longrightarrow> df_packets d' = df_packets d \<and> flagKeyInPacket d' = flagKeyInPacket d \<and>
    frameQueue d' = frameQueue d \<and> df_thread d' = df_thread d"
  by (auto simp: df_init_def rbind_eq_Inr error_quit_def split: codec_type.splits)

lemma df_stop_fields: "df_stop d = Inr d' \<Longrightarrow> df_packets d' = df_packets d \<and> flagKeyInPacket d' = flagKeyInPacket d \<and>
    frameQueue d' = frameQueue d \<and> df_thread d' = df_thread d"
  by (auto simp: df_stop_def rbind_eq_Inr)

lemma tex_reference_pixels: "tex_reference av px data ls wd ht fmt = Inr tex \<Longrightarrow> pixels tex = px"
  by (auto simp: tex_reference_def texture_new_def Let_def split: if_splits)

lemma df_readE:
  assumes "df_readSoftware av d = Inr (r, d')"
  obtains (none) "r = None" "d' = d" "\<not> df_flagRun d"
  | (frame) f pic tex q where "deque_front (frameQueue d) = Inr f" "desktop f = Some pic" "pixels tex = fr_pixels pic"
      "pop_front FRAME_QUEUE_LEN (frameQueue d) = Inr q" "r = Some (getOtherType f tex)"
      "d' = d\<lparr>prevReadFrame := Some pic, frameQueue := q\<rparr>"
proof (cases "df_flagRun d")
  case False
  with assms none show ?thesis by (simp add: df_readSoftware_def)
next
  case True
  with assms have "\<not> cd_empty (frameQueue d)" by (auto simp: df_readSoftware_def)
  with assms True obtain f where f: "deque_front (frameQueue d) = Inr f" by (auto simp: df_readSoftware_def rbind_eq_Inr)
  with assms True \<open>\<not> cd_empty (frameQueue d)\<close> obtain pic where pic: "desktop f = Some pic"
    by (auto simp: df_readSoftware_def split: option.splits)
  let ?ref = "tex_reference av (fr_pixels pic) [0, 0, 0, 0] (fr_linesize pic) (fr_width pic) (fr_height pic) (fr_format pic)"
  from assms True \<open>\<not> cd_empty (frameQueue d)\<close> f pic obtain tex q where
    ref: "?ref = Inr tex" and "pop_front FRAME_QUEUE_LEN (frameQueue d) = Inr q"
    "r = Some (getOtherType f tex)" "d' = d\<lparr>prevReadFrame := Some pic, frameQueue := q\<rparr>"
    by (auto simp: df_readSoftware_def rbind_eq_Inr)
  then show ?thesis using frame [OF f pic tex_reference_pixels [OF ref]] by blast
qed

lemmas df_fields = df_start_fields df_init_fields df_stop_fields df_round_ends

lemma df_life_skips: "df_life A av (d, w, g) \<Longrightarrow> skips (g_pushed g) (g_taken g @ df_packets d)"
proof (induction "(d, w, g)" arbitrary: d w g rule: df_life.induct)
  case life_new
  show ?case by (simp add: df_new_def no_history_def skips_none)
next
  case (life_push d w g f)
  then show ?case
    using skips_keep [of "g_pushed g" "g_taken g @ df_packets d" f] skips_drop [of "g_pushed g" "g_taken g" "df_packets d" f]
    by (auto simp: df_pushData_def)
next
  case (life_read d w g r d')
  from life_read(3) show ?case by (cases rule: df_readE) (use life_read(2) in auto)
next
  case (life_round d w g now d' w')
  from life_round(4) show ?case by (cases rule: df_roundE) (use life_round(2) in \<open>auto simp: took_def\<close>)
qed (auto dest!: df_fields simp: df_run_close_def)

subsection \<open>A picture gets its own packet's data\<close>

definition decoded :: "bytes frame_of \<Rightarrow> 'px av_frame \<Rightarrow> 'px av_frame option frame_of \<Rightarrow> bool" where
  "decoded f pic out \<longleftrightarrow> (\<exists>now. out = (getOtherType f (Some pic))\<lparr>timeDecoded := now\<rparr>)"

definition shown :: "'px texture frame_of \<Rightarrow> 'px av_frame option frame_of \<Rightarrow> bool" where
  "shown r out \<longleftrightarrow> (\<exists>pic. desktop out = Some pic \<and> pixels (desktop r) = fr_pixels pic \<and> r = getOtherType out (desktop r))"

lemma shownD:
  assumes "shown r out"
  shows "desktop out = Some pic \<Longrightarrow> pixels (desktop r) = fr_pixels pic" "cursorPos r = cursorPos out"
    "cursorShape r = cursorShape out" "timeCaptured r = timeCaptured out" "timeEncoded r = timeEncoded out"
proof -
  from assms obtain p x where p: "desktop out = Some p" "pixels x = fr_pixels p" "r = getOtherType out x" "x = desktop r"
    unfolding shown_def by blast
  from p(1,2,3) show "desktop out = Some pic \<Longrightarrow> pixels (desktop r) = fr_pixels pic" "cursorPos r = cursorPos out"
    "cursorShape r = cursorShape out" "timeCaptured r = timeCaptured out" "timeEncoded r = timeEncoded out" by simp_all
qed

definition in_stock :: "('c, 'px) ff_decoder \<Rightarrow> 'px df_worker \<Rightarrow> 'px av_frame option frame_of list" where
  "in_stock d w = cd_list FRAME_QUEUE_LEN (frameQueue d) @ (case dw_out w of Some out \<Rightarrow> [out] | None \<Rightarrow> [])"

definition life_inv :: "('c, 'px) ff_decoder \<Rightarrow> 'px df_worker \<Rightarrow> 'px df_history \<Rightarrow> bool" where
  "life_inv d w g \<longleftrightarrow> cd_inv FRAME_QUEUE_LEN (frameQueue d) \<and>
     (df_thread d \<noteq> Working \<longrightarrow> cd_list FRAME_QUEUE_LEN (frameQueue d) = []) \<and>
     sd_inv decoded (dw_pts w) (dw_extra w) (g_now g) (g_outs g) \<and>
     (\<exists>gone rest. map snd (g_outs g) = gone @ rest \<and> list_all2 shown (g_reads g) gone \<and>
        (df_thread d = Working \<longrightarrow> rest = in_stock d w))"

lemma life_invI:
  assumes "cd_inv FRAME_QUEUE_LEN (frameQueue d)" "df_thread d \<noteq> Working \<Longrightarrow> cd_list FRAME_QUEUE_LEN (frameQueue d) = []"
    "sd_inv decoded (dw_pts w) (dw_extra w) (g_now g) (g_outs g)" "map snd (g_outs g) = gone @ rest"
    "list_all2 shown (g_reads g) gone" "df_thread d = Working \<Longrightarrow> rest = in_stock d w"
  shows "life_inv d w g"
  using assms unfolding life_inv_def by blast

lemma df_picture_decoded:
  assumes inv: "sd_inv decoded (dw_pts w) (dw_extra w) now outs" and p: "df_picture t pic w = Inr w'"
  shows "\<exists>out. dw_out w' = Some out \<and> desktop out = Some pic \<and> dw_pts w' = dw_pts w \<and>
    sd_inv decoded (dw_pts w') (dw_extra w') now (outs @ [((fr_pts pic, pic), out)])"
proof -
  from p obtain extra rest where tf: "take_first (\<lambda>x. desktop x = fr_pts pic) (dw_extra w) = Some (extra, rest)"
    and w': "w' = w\<lparr>dw_extra := rest, dw_out := Some ((getOtherType extra (Some pic))\<lparr>timeDecoded := t\<rparr>)\<rparr>"
    by (auto simp: df_picture_def rbind_eq_Inr error_quit_def split: option.splits)
  let ?out = "(getOtherType extra (Some pic))\<lparr>timeDecoded := t\<rparr>"
  have "extra = getOtherType (now ! nat (fr_pts pic)) (fr_pts pic)" using sd_take_extra [OF inv tf] by metis
  then have "decoded (now ! nat (fr_pts pic)) pic ?out" by (auto simp: decoded_def)
  from sd_take [where R = decoded, OF inv tf this] show ?thesis by (simp add: w')
qed

lemma life_inv_cong:
  "life_inv d w g \<Longrightarrow> frameQueue d' = frameQueue d \<Longrightarrow> df_thread d' = df_thread d \<Longrightarrow> g_now g' = g_now g \<Longrightarrow>
    g_outs g' = g_outs g \<Longrightarrow> g_reads g' = g_reads g \<Longrightarrow> life_inv d' w g'"
  by (simp add: life_inv_def in_stock_def)

lemma life_inv_read:
  assumes inv: "life_inv d w g" and r: "df_readSoftware av d = Inr (r, d')"
  shows "life_inv d' w (g\<lparr>g_reads := g_reads g @ (case r of Some f \<Rightarrow> [f] | None \<Rightarrow> [])\<rparr>)"
  using r
proof (cases rule: df_readE)
  case none
  with inv show ?thesis by (simp add: life_inv_cong)
next
  case (frame f pic tex q)
  from inv obtain gone rest where q0: "cd_inv FRAME_QUEUE_LEN (frameQueue d)"
    and idle: "df_thread d \<noteq> Working \<Longrightarrow> cd_list FRAME_QUEUE_LEN (frameQueue d) = []"
    and sd: "sd_inv decoded (dw_pts w) (dw_extra w) (g_now g) (g_outs g)"
    and outs: "map snd (g_outs g) = gone @ rest" "list_all2 shown (g_reads g) gone" "df_thread d = Working \<Longrightarrow> rest = in_stock d w"
    unfolding life_inv_def by blast
  from frame(1) have "cd_list FRAME_QUEUE_LEN (frameQueue d) \<noteq> []"
    by (auto simp: deque_front_def cd_empty_def error_quit_def cd_list_Nil_iff split: if_splits)
  then obtain x xs where l: "cd_list FRAME_QUEUE_LEN (frameQueue d) = x # xs" by (cases "cd_list FRAME_QUEUE_LEN (frameQueue d)") auto
  with front_eq [OF q0 l] frame(1) have x: "x = f" by simp
  from pop_front_inv [OF q0 l] frame(4) have q: "cd_inv FRAME_QUEUE_LEN q" "cd_list FRAME_QUEUE_LEN q = xs" by auto
  from l idle have working: "df_thread d = Working" by auto
  have "shown (getOtherType f tex) f" using frame(2,3) by (simp add: shown_def)
  with outs(2) have "list_all2 shown (g_reads g @ [getOtherType f tex]) (gone @ [f])" by (simp add: list_all2_appendI)
  moreover have "map snd (g_outs g) = (gone @ [f]) @ in_stock d' w" "df_thread d' = Working"
    using outs(1,3) working l x q(2) frame(6) by (simp_all add: in_stock_def)
  ultimately show ?thesis using frame q sd
    by (intro life_invI [where gone = "gone @ [f]" and rest = "in_stock d' w"]) simp_all
qed

lemma life_inv_round:
  assumes inv: "life_inv d w g" and working: "df_thread d = Working" and r: "df_run_round A now (d, w) = Inr (True, d', w')"
  shows "life_inv d' w' (g\<lparr>g_taken := g_taken g @ took d d', g_now := g_now g @ took d d', g_outs := g_outs g @ returned w w'\<rparr>)"
proof -
  from inv working obtain gone where q0: "cd_inv FRAME_QUEUE_LEN (frameQueue d)"
    and sd: "sd_inv decoded (dw_pts w) (dw_extra w) (g_now g) (g_outs g)"
    and outs: "map snd (g_outs g) = gone @ in_stock d w" "list_all2 shown (g_reads g) gone"
    unfolding life_inv_def by blast
  from r show ?thesis
  proof (cases rule: df_roundE)
    case (queue out q)
    then have "dsize (frameQueue d) < FRAME_QUEUE_LEN" by (simp add: cd_full_def)
    from push_back_inv [OF q0 this, of out] queue(2)
    have q: "cd_inv FRAME_QUEUE_LEN q" "cd_list FRAME_QUEUE_LEN q = cd_list FRAME_QUEUE_LEN (frameQueue d) @ [out]" by auto
    then have "in_stock d' w' = in_stock d w" "took d d' = []" "returned w w' = []"
      using queue by (simp_all add: in_stock_def took_def returned_def)
    with queue q sd outs working show ?thesis
      by (intro life_invI [where gone = gone and rest = "in_stock d w"]) simp_all
  next
    case (picture pic c)
    obtain out where out: "dw_out w' = Some out" "desktop out = Some pic" "dw_pts w' = dw_pts w"
      "sd_inv decoded (dw_pts w') (dw_extra w') (g_now g) (g_outs g @ [((fr_pts pic, pic), out)])"
      using df_picture_decoded [OF sd picture(2)] by blast
    then have "in_stock d' w' = in_stock d w @ [out]" "took d d' = []" "returned w w' = [((fr_pts pic, pic), out)]"
      using picture by (simp_all add: in_stock_def took_def returned_def)
    with picture out q0 outs working show ?thesis
      by (intro life_invI [where gone = gone and rest = "in_stock d w @ [out]"]) simp_all
  next
    case (packet p ps c)
    then have "in_stock d' w' = in_stock d w" "took d d' = [p]" "returned w w' = []"
      by (simp_all add: in_stock_def took_def returned_def df_packet_def)
    with packet q0 sd_put [OF sd, of p] outs working show ?thesis
      by (intro life_invI [where gone = gone and rest = "in_stock d w"]) (simp_all add: df_packet_def)
  qed
qed

lemma life_inv_ends:
  assumes inv: "life_inv d w g" and r: "df_run_round A now (d, w) = Inr (False, d', w')"
  shows "life_inv (df_run_close d') w' g"
proof -
  from inv obtain gone rest where "cd_inv FRAME_QUEUE_LEN (frameQueue d)"
    "sd_inv decoded (dw_pts w) (dw_extra w) (g_now g) (g_outs g)"
    "map snd (g_outs g) = gone @ rest" "list_all2 shown (g_reads g) gone"
    unfolding life_inv_def by blast
  then show ?thesis using df_round_ends [OF r] cd_clear_inv [of FRAME_QUEUE_LEN "frameQueue d"]
    by (intro life_invI [where gone = gone and rest = rest]) (simp_all add: df_run_close_def)
qed

lemma life_inv_start:
  assumes inv: "life_inv d w g" and s: "df_start A d = Inr d'"
  shows "life_inv d' dw_new (g\<lparr>g_now := [], g_outs := [], g_reads := [], g_sync := b\<rparr>)"
proof -
  have "cd_inv FRAME_QUEUE_LEN (frameQueue d)" "cd_list FRAME_QUEUE_LEN (frameQueue d) = []"
    using inv df_start_fields [OF s] unfolding life_inv_def by blast+
  then show ?thesis using df_start_fields [OF s]
    by (intro life_invI [where gone = "[]" and rest = "[]"]) (simp_all add: dw_new_def sd_start in_stock_def)
qed

lemma df_life_inv: "df_life A av (d, w, g) \<Longrightarrow> life_inv d w g"
proof (induction "(d, w, g)" arbitrary: d w g rule: df_life.induct)
  case life_new
  show ?case
    by (intro life_invI [where gone = "[]" and rest = "[]"])
      (simp_all add: df_new_def dw_new_def no_history_def sd_start FRAME_QUEUE_LEN_def cd_new_inv)
next
  case (life_push d w g f)
  then show ?case by (auto intro: life_inv_cong simp: df_pushData_def)
next
  case (life_init d w g ct d')
  then show ?case using df_init_fields by (metis life_inv_cong)
next
  case (life_stop d w g d')
  then show ?case using df_stop_fields by (metis life_inv_cong)
next
  case (life_start d w g d')
  show ?case by (rule life_inv_start [OF life_start(2,3)])
next
  case (life_read d w g r d')
  show ?case by (rule life_inv_read [OF life_read(2,3)])
next
  case (life_round d w g now d' w')
  show ?case by (rule life_inv_round [OF life_round(2,3,4)])
next
  case (life_ends d w g now d' w')
  show ?case by (rule life_inv_ends [OF life_ends(2,4)])
qed

subsection \<open>The key frame flag\<close>

definition key_inv :: "('c, 'px) ff_decoder \<Rightarrow> bool" where
  "key_inv d \<longleftrightarrow> flagKeyInPacket d = list_ex isIDR (df_packets d) \<and> length (filter isIDR (df_packets d)) \<le> 1"

lemma key_inv_push: "key_inv d \<Longrightarrow> key_inv (df_pushData f d)"
  by (auto simp: key_inv_def df_pushData_def list_ex_iff filter_empty_conv)

lemma key_inv_cong: "key_inv d \<Longrightarrow> df_packets d' = df_packets d \<Longrightarrow> flagKeyInPacket d' = flagKeyInPacket d \<Longrightarrow> key_inv d'"
  by (simp add: key_inv_def)

lemma key_inv_round:
  assumes "key_inv d" and r: "df_run_round A now (d, w) = Inr (True, d', w')"
  shows "key_inv d'"
  using r by (cases rule: df_roundE) (use assms(1) in \<open>auto simp: key_inv_def list_ex_iff filter_empty_conv\<close>)

lemma df_life_key: "df_life A av (d, w, g) \<Longrightarrow> g_sync g \<Longrightarrow> key_inv d"
proof (induction "(d, w, g)" arbitrary: d w g rule: df_life.induct)
  case (life_start d w g d')
  then show ?case using df_start_fields [OF life_start(3)] by (auto simp: key_inv_def list_ex_iff filter_empty_conv)
next
  case (life_read d w g r d')
  from life_read(3) show ?case by (cases rule: df_readE) (use life_read in \<open>auto intro: key_inv_cong\<close>)
next
  case (life_ends d w g now d' w')
  then show ?case using df_round_ends [OF life_ends(4)] by (auto intro: key_inv_cong simp: df_run_close_def)
next
  case life_new
  show ?case by (simp add: key_inv_def df_new_def)
next
  case (life_init d w g ct d')
  then show ?case using df_init_fields [OF life_init(3)] by (auto intro: key_inv_cong)
next
  case (life_stop d w g d')
  then show ?case using df_stop_fields [OF life_stop(3)] by (auto intro: key_inv_cong)
next
  case (life_push d w g f)
  then show ?case by (simp add: key_inv_push)
next
  case (life_round d w g now d' w')
  then show ?case using key_inv_round by simp
qed

subsection \<open>Properties\<close>

text \<open>C11: over any number of starts and stops, the packets that reach the codec (and those still queued) are pushed packets in
  the order they were pushed; a packet that is no key frame arrives unchanged and directly after the packet that was pushed before it, so
  the codec never lacks its reference; the packet pushed last is never dropped; and the last cursor position and shape among
  the accepted packets are the last among the pushed ones, whatever was dropped. Unless a start found a key frame queued, at
  most one key frame is queued, and the flag tells whether there is one.\<close>

theorem decoder_skips:
  assumes "df_life A av (d, w, g)"
  shows "(\<exists>idx. follows (g_pushed g) (g_taken g @ df_packets d) idx \<and>
            (g_pushed g \<noteq> [] \<longrightarrow> idx \<noteq> [] \<and> Suc (last idx) = length (g_pushed g))) \<and>
    last_some (map cursorPos (g_taken g @ df_packets d)) None = last_some (map cursorPos (g_pushed g)) None \<and>
    last_some (map cursorShape (g_taken g @ df_packets d)) None = last_some (map cursorShape (g_pushed g)) None \<and>
    (g_sync g \<longrightarrow> flagKeyInPacket d = list_ex isIDR (df_packets d) \<and> length (filter isIDR (df_packets d)) \<le> 1)"
proof -
  have "skips (g_pushed g) (g_taken g @ df_packets d)" by (rule df_life_skips [OF assms])
  from skips_follows [OF this] skips_last [OF this] df_life_key [OF assms] show ?thesis
    unfolding key_inv_def by (fastforce simp: follows_def)
qed


subsection \<open>Samples\<close>

text \<open>A codec that shows each packet's first byte, in order; its state is the list of numbers it holds.\<close>

definition decoded_picture :: "int \<Rightarrow> nat av_frame" where
  "decoded_picture n = \<lparr>fr_format = AV_YUV420P, fr_width = 4, fr_height = 2, fr_pts = n, fr_linesize = [4, 2, 2, 0],
     fr_crop_bottom = 0, fr_crop_right = 0, fr_pixels = 5\<rparr>"

definition sample_vp8 :: "(int list, nat) av_decoder" where
  "sample_vp8 = \<lparr>vp8_found = True, da_alloc_context = True, da_open = (0, []),
     da_receive = (\<lambda>c. case c of [] \<Rightarrow> (D_AGAIN, []) | p # ps \<Rightarrow> (D_FRAME (decoded_picture p), ps)),
     da_send = (\<lambda>p c. (0, c @ [pk_pts p]))\<rparr>"

definition sample_key :: "bytes frame_of" where
  "sample_key = (frame_init [1])\<lparr>isIDR := True, timeCaptured := 10\<rparr>"

definition sample_delta :: "bytes frame_of" where
  "sample_delta = (frame_init [2])\<lparr>cursorPos := Some \<lparr>cp_visible = True, cp_x = 3, cp_y = 4\<rparr>, timeCaptured := 20\<rparr>"

definition sample_ready :: "(int list, nat) ff_decoder" where
  "sample_ready = df_new\<lparr>df_codecType := CT_VP8, df_codec := True, df_avctx := Some [], df_flagRun := True, df_thread := Working\<rparr>"

lemma sample_life_start: "df_life sample_vp8 av (sample_ready, dw_new, no_history)"
proof -
  have "df_init sample_vp8 CT_VP8 df_new = Inr (df_new\<lparr>df_codecType := CT_VP8, df_codec := True\<rparr>)"
    by (simp add: df_init_def sample_vp8_def)
  from life_init [OF life_new this]
  have l: "df_life sample_vp8 av (df_new\<lparr>df_codecType := CT_VP8, df_codec := True\<rparr>, dw_new, no_history)" .
  have "df_start sample_vp8 (df_new\<lparr>df_codecType := CT_VP8, df_codec := True\<rparr>) = Inr sample_ready"
    by (simp add: df_start_def sample_ready_def sample_vp8_def df_new_def join_thread_def spawn_thread_def Let_def)
  from life_start [OF l this] show ?thesis by (simp add: df_new_def no_history_def)
qed

lemma decoder_skips_witness:
  "df_packets (df_pushData sample_key (df_pushData sample_delta (df_pushData sample_key sample_ready)))
     = [sample_key\<lparr>cursorPos := cursorPos sample_delta\<rparr>] \<and>
   last_some (map cursorPos [sample_key\<lparr>cursorPos := cursorPos sample_delta\<rparr>]) None = cursorPos sample_delta"
proof -
  let ?d = "df_pushData sample_key (df_pushData sample_delta (df_pushData sample_key sample_ready))"
  have p: "df_packets ?d = [sample_key\<lparr>cursorPos := cursorPos sample_delta\<rparr>]"
    by (simp add: df_pushData_def sample_key_def sample_delta_def sample_ready_def df_new_def inherit_cursor_def frame_init_def Let_def)
  note l = life_push [OF life_push [OF life_push [OF sample_life_start, where f = sample_key], where f = sample_delta], where f = sample_key]
  have "last_some (map cursorPos (df_packets ?d)) None = last_some (map cursorPos [sample_key, sample_delta, sample_key]) None"
    using decoder_skips [OF l] by (simp add: no_history_def)
  then show ?thesis using p by (simp add: sample_key_def sample_delta_def frame_init_def)
qed

lemmas df_eval = sample_ready_def sample_vp8_def sample_key_def decoded_picture_def df_new_def dw_new_def frame_init_def getOtherType_def
  df_run_round_def df_picture_def df_packet_def df_pushData_def df_readSoftware_def cd_new_def cd_full_def cd_empty_def push_back_def
  deque_front_def read_slot_def pop_front_def FRAME_QUEUE_LEN_def tex_reference_def

lemma sample_round:
  "df_life sample_vp8 av (d, w, g) \<Longrightarrow> df_thread d = Working \<Longrightarrow> df_run_round sample_vp8 now (d, w) = Inr (True, d', w') \<Longrightarrow>
   g' = g\<lparr>g_taken := g_taken g @ took d d', g_now := g_now g @ took d d', g_outs := g_outs g @ returned w w'\<rparr> \<Longrightarrow>
   df_life sample_vp8 av (d', w', g')"
  by (simp add: life_round)

lemma replicate_four: "replicate 4 x = [x, x, x, x]"
  by (simp add: numeral_eq_Suc)

lemma sample_life_read:
  "\<exists>d w r. df_life sample_vp8 sample_av (d, w, \<lparr>g_pushed = [sample_key], g_taken = [sample_key], g_now = [sample_key],
     g_outs = [((0, decoded_picture 0), (getOtherType sample_key (Some (decoded_picture 0)))\<lparr>timeDecoded := 50\<rparr>)],
     g_reads = [r], g_sync = True\<rparr>)"
proof -
  let ?out = "(getOtherType sample_key (Some (decoded_picture 0)))\<lparr>timeDecoded := 50\<rparr>"
  let ?g1 = "no_history\<lparr>g_pushed := [sample_key]\<rparr>"
  let ?g2 = "?g1\<lparr>g_taken := [sample_key], g_now := [sample_key]\<rparr>"
  let ?g3 = "?g2\<lparr>g_outs := [((0, decoded_picture 0), ?out)]\<rparr>"
  define d1 where "d1 = df_pushData sample_key sample_ready"
  define d2 where "d2 = d1\<lparr>df_avctx := Some [0], df_packets := [], flagKeyInPacket := False\<rparr>"
  define d3 where "d3 = d2\<lparr>df_avctx := Some []\<rparr>"
  define d4 where "d4 = d3\<lparr>frameQueue := \<lparr>first = 0, dsize = 1, storage = [Some ?out, None, None, None]\<rparr>\<rparr>"
  define w2 :: "nat df_worker" where "w2 = \<lparr>dw_pts = 1, dw_extra = [getOtherType sample_key 0], dw_out = None\<rparr>"
  define w3 :: "nat df_worker" where "w3 = \<lparr>dw_pts = 1, dw_extra = [], dw_out = Some ?out\<rparr>"
  have thr: "df_thread d1 = Working" "df_thread d2 = Working" "df_thread d3 = Working"
    by (simp_all add: d1_def d2_def d3_def df_pushData_def sample_ready_def)
  have l1: "df_life sample_vp8 sample_av (d1, dw_new, ?g1)"
    using life_push [OF sample_life_start, where f = sample_key] by (simp add: d1_def no_history_def)
  have r1: "df_run_round sample_vp8 40 (d1, dw_new) = Inr (True, d2, w2)" by (simp add: d1_def d2_def w2_def df_eval)
  have "took d1 d2 = [sample_key]" "returned dw_new w2 = []"
    by (simp_all add: took_def returned_def d1_def d2_def w2_def df_eval)
  then have l2: "df_life sample_vp8 sample_av (d2, w2, ?g2)"
    by (intro sample_round [OF l1 thr(1) r1]) (simp add: no_history_def)
  have "df_flagRun d2" "df_avctx d2 = Some [0]" "df_picture 50 (decoded_picture 0) w2 = Inr w3"
    by (simp_all add: d1_def d2_def w2_def w3_def df_eval)
  then have r2: "df_run_round sample_vp8 50 (d2, w2) = Inr (True, d3, w3)"
    by (simp add: df_run_round_def d3_def w2_def sample_vp8_def)
  have "took d2 d3 = []" "returned w2 w3 = [((0, decoded_picture 0), ?out)]"
    by (simp_all add: took_def returned_def d2_def d3_def w2_def w3_def decoded_picture_def)
  then have l3: "df_life sample_vp8 sample_av (d3, w3, ?g3)"
    by (intro sample_round [OF l2 thr(2) r2]) (simp add: no_history_def)
  have r3: "df_run_round sample_vp8 60 (d3, w3) = Inr (True, d4, w3\<lparr>dw_out := None\<rparr>)"
  proof -
    have "df_flagRun d3" "frameQueue d3 = cd_new 4" by (simp_all add: d1_def d2_def d3_def df_pushData_def sample_ready_def df_new_def
        sample_key_def frame_init_def FRAME_QUEUE_LEN_def)
    moreover have "push_back 4 x (cd_new 4) = Inr \<lparr>first = 0, dsize = 1, storage = [Some x, None, None, None]\<rparr>" for x :: "nat av_frame option frame_of"
      by (simp add: push_back_def cd_full_def cd_new_def replicate_four)
    ultimately show ?thesis
      by (simp add: df_run_round_def w3_def d4_def FRAME_QUEUE_LEN_def) (simp add: cd_full_def cd_new_def)
  qed
  have "took d3 d4 = []" "returned w3 (w3\<lparr>dw_out := None\<rparr>) = []"
    by (simp_all add: took_def returned_def d3_def d4_def w3_def)
  then have l4: "df_life sample_vp8 sample_av (d4, w3\<lparr>dw_out := None\<rparr>, ?g3)"
    by (intro sample_round [OF l3 thr(3) r3]) (simp add: no_history_def)
  have "\<exists>r d5. df_readSoftware sample_av d4 = Inr (Some r, d5)"
    by (simp add: d1_def d2_def d3_def d4_def df_eval sample_av_def)
  then obtain r d5 where "df_readSoftware sample_av d4 = Inr (Some r, d5)" by blast
  from life_read [OF l4 this] show ?thesis by (auto simp: no_history_def)
qed


text \<open>Starting forgets the queued key frame: the next one does not empty the queue, and two are queued.\<close>

lemma start_forgets_key:
  assumes "df_start A (df_pushData k d) = Inr d'" and "isIDR k" "isIDR k'" and "df_packets d = []" "\<not> flagKeyInPacket d"
  shows "df_packets (df_pushData k' d') = [k, k'] \<and> length (filter isIDR (df_packets (df_pushData k' d'))) = 2"
  using df_start_fields [OF assms(1)] assms(2-) by (simp add: df_pushData_def)

end
