(* ===== verification/D3DView.thy ===== *)
theory D3DView
  imports ScaleSoftware Frame
begin

text \<open>
  What the client draws: \<open>D3DTextureUploader\<close> (a software picture becomes a texture) and \<open>RendererD3D\<close> (the texture and the
  cursor become the window's picture), in \<open>src/src/client/platform/windows/\<close>.

  Direct3D is the record \<open>d3d_view\<close>: which calls succeed, the pitch of a mapped texture of a width, and what fresh texture
  memory holds. A mapped texture is its bytes, \<open>pitch * height\<close> of them; \<open>plane0\<close> is the memory behind the first plane
  of a software picture. The shaders and the drawing of the triangle are Direct3D's; what the code hands to them is the constant
  buffer and the two textures.
\<close>

record d3d_view =
  dv_texture :: "int \<Rightarrow> int \<Rightarrow> bool"
  dv_map :: bool
  dv_pitch :: "int \<Rightarrow> nat"
  dv_fresh :: "nat \<Rightarrow> u8"
  dv_swapChain :: bool
  dv_sampler :: bool
  dv_shader :: bool
  dv_srv :: bool
  dv_buffer :: bool
  dv_present :: bool

record d3d_texture =
  d3_width :: int
  d3_height :: int
  d3_pitch :: nat
  d3_bytes :: bytes

definition create_texture :: "d3d_view \<Rightarrow> int \<Rightarrow> int \<Rightarrow> string \<Rightarrow> d3d_texture res" where
  "create_texture V w h msg =
     rbind (assert_quit (dv_texture V w h) msg) (\<lambda>_.
       Inr \<lparr>d3_width = w, d3_height = h, d3_pitch = dv_pitch V w, d3_bytes = map (dv_fresh V) [0..<dv_pitch V w * nat h]\<rparr>)"

text \<open>The loops that copy a picture row by row: \<open>memcpy(dst, src, len)\<close>, then both pointers move to their next row.\<close>

fun copy_rows :: "nat \<Rightarrow> nat \<Rightarrow> nat \<Rightarrow> nat \<Rightarrow> nat \<Rightarrow> nat \<Rightarrow> bytes \<Rightarrow> bytes \<Rightarrow> bytes res" where
  "copy_rows 0 len dpos dpitch spos spitch src dst = Inr dst"
| "copy_rows (Suc n) len dpos dpitch spos spitch src dst =
     (if length src < spos + len then Inl Undef
      else rbind (blit dst dpos (take len (drop spos src))) (\<lambda>dst'.
        copy_rows n len (dpos + dpitch) dpitch (spos + spitch) spitch src dst'))"

text \<open>\<open>width * 4\<close> is an \<open>int\<close> that becomes the size of a \<open>memcpy\<close>.\<close>

definition row_bytes :: "int \<Rightarrow> nat res" where
  "row_bytes w = (if 2 ^ 31 \<le> w * 4 \<or> w * 4 < - (2 ^ 31) then Inl Undef else Inr (sz_of_int (w * 4)))"

subsection \<open>Uploading\<close>

record uploader =
  up_width :: int
  up_height :: int
  up_staging :: "d3d_texture option"
  up_texture :: "d3d_texture option"

definition up_new :: uploader where
  "up_new = \<lparr>up_width = -1, up_height = -1, up_staging = None, up_texture = None\<rparr>"

definition up_init :: "uploader \<Rightarrow> uploader" where
  "up_init u = u\<lparr>up_staging := None, up_texture := None\<rparr>"

definition up_resize :: "'px texture \<Rightarrow> uploader \<Rightarrow> uploader" where
  "up_resize t u =
     (if up_width u \<noteq> tex_width t \<or> up_height u \<noteq> tex_height t
      then \<lparr>up_width = tex_width t, up_height = tex_height t, up_staging = None, up_texture = None\<rparr> else u)"

definition ensure_texture :: "d3d_view \<Rightarrow> string \<Rightarrow> int \<Rightarrow> int \<Rightarrow> d3d_texture option \<Rightarrow> d3d_texture res" where
  "ensure_texture V msg w h t = (case t of Some x \<Rightarrow> Inr x | None \<Rightarrow> create_texture V w h msg)"

definition upload :: "d3d_view \<Rightarrow> ('px \<Rightarrow> bytes) \<Rightarrow> 'px texture \<Rightarrow> uploader \<Rightarrow> (d3d_texture \<times> uploader) res" where
  "upload V plane0 t u =
     (let u1 = up_resize t u in
      rbind (ensure_texture V ''Failed to create staging texture'' (up_width u1) (up_height u1) (up_staging u1)) (\<lambda>staging.
      rbind (ensure_texture V ''Failed to create texture'' (up_width u1) (up_height u1) (up_texture u1)) (\<lambda>tex.
      rbind (assert_quit (dv_map V) ''Failed to map staging texture'') (\<lambda>_.
      rbind (if up_height u1 \<le> 0 then Inr (d3_bytes staging)
             else rbind (row_bytes (up_width u1)) (\<lambda>len.
                    if tex_linesize t ! 0 < 0 then Inl Undef
                    else copy_rows (nat (up_height u1)) len 0 (d3_pitch staging) 0 (nat (tex_linesize t ! 0)) (plane0 (pixels t)) (d3_bytes staging))) (\<lambda>dst.
      let tex' = tex\<lparr>d3_pitch := d3_pitch staging, d3_bytes := dst\<rparr> in
        Inr (tex', u1\<lparr>up_staging := Some (staging\<lparr>d3_bytes := dst\<rparr>), up_texture := Some tex'\<rparr>))))))"

subsection \<open>Rendering\<close>

text \<open>The constant buffer, with the fractions that the code computes in \<open>float\<close> kept as numerator and denominator.\<close>

record cbuffer =
  cb_cursorPos :: "((int \<times> int) \<times> (int \<times> int)) option"
  cb_cursorSize :: "(int \<times> int) \<times> (int \<times> int)"
  cb_flagCursorVisible :: bool
  cb_flagCursorXOR :: bool

record renderer =
  rd_captureWidth :: int
  rd_captureHeight :: int
  rd_renderWidth :: int
  rd_renderHeight :: int
  cursorTexSize :: int
  hasCursor :: bool
  usingXORCursor :: bool
  cursorTex :: "d3d_texture option"
  rd_swapChain :: bool
  rd_cbuffer :: "cbuffer option"
  rd_shown :: "d3d_texture option"

definition rd_new :: renderer where
  "rd_new = \<lparr>rd_captureWidth = -1, rd_captureHeight = -1, rd_renderWidth = -1, rd_renderHeight = -1, cursorTexSize = 0,
     hasCursor = False, usingXORCursor = False, cursorTex = None, rd_swapChain = False, rd_cbuffer = None, rd_shown = None\<rparr>"

definition recreateCursorTexture :: "d3d_view \<Rightarrow> renderer \<Rightarrow> renderer res" where
  "recreateCursorTexture V r =
     rbind (create_texture V (cursorTexSize r) (cursorTexSize r) ''Failed to allocate cursor texture'') (\<lambda>t.
     rbind (assert_quit (dv_srv V) ''Failed to create cursor SRV'') (\<lambda>_.
       Inr (r\<lparr>hasCursor := False, cursorTex := Some t\<rparr>)))"

definition rd_init :: "d3d_view \<Rightarrow> renderer \<Rightarrow> renderer res" where
  "rd_init V r =
     rbind (assert_quit (0 < rd_captureWidth r \<and> 0 < rd_captureHeight r) ''Capture resolution not set before init!'') (\<lambda>_.
     rbind (assert_quit (dv_swapChain V) ''Failed to create swap chain for hwnd'') (\<lambda>_.
     rbind (assert_quit (dv_sampler V) ''Failed to create sampler state'') (\<lambda>_.
     rbind (recreateCursorTexture V (r\<lparr>hasCursor := False, rd_swapChain := True, cursorTexSize := 128\<rparr>)) (\<lambda>r1.
     rbind (assert_quit (dv_sampler V) ''Failed to create sampler state'') (\<lambda>_.
     rbind (assert_quit (dv_shader V) ''Failed to create vertex shader'') (\<lambda>_.
     rbind (assert_quit (dv_shader V) ''Failed to create pixel shader'') (\<lambda>_. Inr r1)))))))"

definition rd_setCaptureResolution :: "int \<Rightarrow> int \<Rightarrow> renderer \<Rightarrow> renderer" where
  "rd_setCaptureResolution w h r = r\<lparr>rd_captureWidth := w, rd_captureHeight := h\<rparr>"

definition resized :: "int \<Rightarrow> int \<Rightarrow> renderer \<Rightarrow> renderer res" where
  "resized w h r = (if \<not> rd_swapChain r then Inl Undef else Inr (r\<lparr>rd_renderWidth := w, rd_renderHeight := h\<rparr>))"

definition rd_clear :: "d3d_view \<Rightarrow> renderer \<Rightarrow> renderer res" where
  "rd_clear V r =
     (if \<not> rd_swapChain r then Inl Undef
      else rbind (assert_quit (dv_buffer V) ''Failed to get framebuffer'') (\<lambda>_.
           rbind (assert_quit (dv_buffer V) ''Failed to create framebuffer RTV'') (\<lambda>_. Inr r)))"

text \<open>A new cursor shape: the texture grows to the larger side when it is too small, is cleared and filled from its top left corner.\<close>

definition draw_cursor :: "d3d_view \<Rightarrow> cursor_shape \<Rightarrow> renderer \<Rightarrow> renderer res" where
  "draw_cursor V s r =
     rbind (if cursorTexSize r < cs_width s \<or> cursorTexSize r < cs_height s
            then recreateCursorTexture V (r\<lparr>cursorTexSize := max (cs_width s) (cs_height s)\<rparr>) else Inr r) (\<lambda>r1.
     case cursorTex r1 of
       None \<Rightarrow> Inl Undef
     | Some t \<Rightarrow>
         rbind (assert_quit (dv_map V) ''Failed to map cursor texture for writing'') (\<lambda>_.
         let zeros = replicate (d3_pitch t * nat (cursorTexSize r1)) 0 in
         rbind (if cs_height s \<le> 0 then Inr zeros
                else rbind (row_bytes (cs_width s)) (\<lambda>len.
                       copy_rows (nat (cs_height s)) len 0 (d3_pitch t) 0 len (cs_image s) zeros)) (\<lambda>dst.
           Inr (r1\<lparr>cursorTex := Some (t\<lparr>d3_bytes := dst\<rparr>), hasCursor := True,
                   usingXORCursor := (cs_format s = CS_RGBA_XOR)\<rparr>))))"

definition make_cbuffer :: "renderer \<Rightarrow> cursor_pos option \<Rightarrow> cbuffer" where
  "make_cbuffer r pos =
     (case pos of
        None \<Rightarrow> \<lparr>cb_cursorPos = None, cb_cursorSize = ((1, 1), (1, 1)), cb_flagCursorVisible = False, cb_flagCursorXOR = False\<rparr>
      | Some p \<Rightarrow>
          let visible = hasCursor r \<and> cp_visible p in
          if visible
          then \<lparr>cb_cursorPos = Some ((cp_x p, rd_captureWidth r), (cp_y p, rd_captureHeight r)),
                cb_cursorSize = ((cursorTexSize r, rd_captureWidth r), (cursorTexSize r, rd_captureHeight r)),
                cb_flagCursorVisible = True, cb_flagCursorXOR = usingXORCursor r\<rparr>
          else \<lparr>cb_cursorPos = None, cb_cursorSize = ((0, 1), (0, 1)), cb_flagCursorVisible = False,
                cb_flagCursorXOR = usingXORCursor r\<rparr>)"

definition rd_render :: "d3d_view \<Rightarrow> d3d_texture option frame_of \<Rightarrow> renderer \<Rightarrow> renderer res" where
  "rd_render V frame r =
     (if \<not> rd_swapChain r then Inl Undef else
     rbind (case cursorShape frame of None \<Rightarrow> Inr r | Some s \<Rightarrow> draw_cursor V s r) (\<lambda>r1.
     rbind (assert_quit (dv_map V) ''Failed to map cbuffer for writing'') (\<lambda>_.
     let r2 = r1\<lparr>rd_cbuffer := Some (make_cbuffer r1 (cursorPos frame))\<rparr> in
     rbind (rd_clear V r2) (\<lambda>r3.
     let r4 = (case desktop frame of None \<Rightarrow> r3 | Some t \<Rightarrow> r3\<lparr>rd_shown := Some t\<rparr>) in
     rbind (assert_quit (dv_present V) ''Failed to present swapchain'') (\<lambda>_. Inr r4)))))"

subsection \<open>Copying rows\<close>

definition rows_copied :: "nat \<Rightarrow> nat \<Rightarrow> nat \<Rightarrow> nat \<Rightarrow> nat \<Rightarrow> nat \<Rightarrow> bytes \<Rightarrow> bytes \<Rightarrow> bytes \<Rightarrow> bool" where
  "rows_copied n len dpos dpitch spos spitch src dst dst' \<longleftrightarrow>
     length dst' = length dst \<and>
     (\<forall>i<n. \<forall>j<len. dst' ! (dpos + i * dpitch + j) = src ! (spos + i * spitch + j)) \<and>
     (\<forall>k<length dst. (\<forall>i<n. k < dpos + i * dpitch \<or> dpos + i * dpitch + len \<le> k) \<longrightarrow> dst' ! k = dst ! k)"

lemma copy_rows_ok:
  assumes "len \<le> dpitch" and "n = 0 \<or> dpos + (n - 1) * dpitch + len \<le> length dst \<and> spos + (n - 1) * spitch + len \<le> length src"
  shows "\<exists>dst'. copy_rows n len dpos dpitch spos spitch src dst = Inr dst' \<and> rows_copied n len dpos dpitch spos spitch src dst dst'"
  using assms(2)
proof (induction n arbitrary: dpos spos dst)
  case 0
  then show ?case by (simp add: rows_copied_def)
next
  case (Suc n)
  let ?row = "take len (drop spos src)"
  let ?dst = "overwrite dst dpos ?row"
  from Suc.prems have room: "dpos + n * dpitch + len \<le> length dst" "spos + n * spitch + len \<le> length src" by simp_all
  then have fits: "dpos + len \<le> length dst" "spos + len \<le> length src" by linarith+
  then have row: "length ?row = len" by simp
  have len': "length ?dst = length dst" using fits row by simp
  have "n = 0 \<or> dpos + dpitch + (n - 1) * dpitch + len \<le> length ?dst \<and> spos + spitch + (n - 1) * spitch + len \<le> length src"
    using room len' by (cases n) (auto simp: algebra_simps)
  from Suc.IH [OF this] obtain dst' where
    c: "copy_rows n len (dpos + dpitch) dpitch (spos + spitch) spitch src ?dst = Inr dst'"
    and r: "rows_copied n len (dpos + dpitch) dpitch (spos + spitch) spitch src ?dst dst'" by blast
  have keep: "dst' ! k = ?dst ! k" if "k < length dst" "\<forall>i<n. k < dpos + dpitch + i * dpitch \<or> dpos + dpitch + i * dpitch + len \<le> k" for k
    using r that len' unfolding rows_copied_def by simp
  have at: "?dst ! k = (if dpos \<le> k \<and> k < dpos + len then src ! (spos + (k - dpos)) else dst ! k)" if "k < length dst" for k
    using that fits row by (auto simp: nth_overwrite)
  have "dst' ! (dpos + i * dpitch + j) = src ! (spos + i * spitch + j)" if "i < Suc n" "j < len" for i j
  proof (cases i)
    case 0
    have "dpos + j < length dst" "\<forall>i<n. dpos + j < dpos + dpitch + i * dpitch" using that fits assms(1) by auto
    with keep [of "dpos + j"] at [of "dpos + j"] that 0 show ?thesis by simp
  next
    case (Suc m)
    with that r have "dst' ! (dpos + dpitch + m * dpitch + j) = src ! (spos + spitch + m * spitch + j)"
      unfolding rows_copied_def by simp
    with Suc show ?thesis by (simp add: algebra_simps)
  qed
  moreover have "dst' ! k = dst ! k" if "k < length dst" "\<forall>i<Suc n. k < dpos + i * dpitch \<or> dpos + i * dpitch + len \<le> k" for k
  proof -
    have out: "k < dpos \<or> dpos + len \<le> k" using that(2) by (auto dest!: spec [of _ 0])
    have "k < dpos + dpitch + i * dpitch \<or> dpos + dpitch + i * dpitch + len \<le> k" if "i < n" for i
      using \<open>\<forall>i<Suc n. k < dpos + i * dpitch \<or> dpos + i * dpitch + len \<le> k\<close> that by (auto dest!: spec [of _ "Suc i"] simp: algebra_simps)
    with keep [OF that(1)] at [OF that(1)] out show ?thesis by auto
  qed
  moreover have "copy_rows (Suc n) len dpos dpitch spos spitch src dst = Inr dst'" using fits row c by (simp add: blit_Inr)
  moreover have "length dst' = length dst" using r len' by (simp add: rows_copied_def)
  ultimately show ?case unfolding rows_copied_def by blast
qed

subsection \<open>What is drawn\<close>

text \<open>A device that serves every call, with rows wide enough for their pixels.\<close>

definition drawable :: "d3d_view \<Rightarrow> bool" where
  "drawable V \<longleftrightarrow> (\<forall>w h. dv_texture V w h) \<and> dv_map V \<and> dv_srv V \<and> (\<forall>w. nat (4 * w) \<le> dv_pitch V w)"

definition fits_view :: "d3d_view \<Rightarrow> int \<Rightarrow> int \<Rightarrow> d3d_texture \<Rightarrow> bool" where
  "fits_view V w h t \<longleftrightarrow> d3_width t = w \<and> d3_height t = h \<and> d3_pitch t = dv_pitch V w \<and> length (d3_bytes t) = d3_pitch t * nat h"

definition up_inv :: "d3d_view \<Rightarrow> uploader \<Rightarrow> bool" where
  "up_inv V u \<longleftrightarrow> (\<forall>t. up_staging u = Some t \<or> up_texture u = Some t \<longrightarrow> fits_view V (up_width u) (up_height u) t)"

definition cursor_inv :: "d3d_view \<Rightarrow> renderer \<Rightarrow> bool" where
  "cursor_inv V r \<longleftrightarrow> 0 < cursorTexSize r \<and> (\<exists>t. cursorTex r = Some t \<and> fits_view V (cursorTexSize r) (cursorTexSize r) t)"

lemma up_new_inv: "up_inv V up_new"
  by (simp add: up_inv_def up_new_def)

lemma up_resize_inv: "up_inv V u \<Longrightarrow> up_inv V (up_resize t u) \<and> up_width (up_resize t u) = tex_width t \<and> up_height (up_resize t u) = tex_height t"
  by (auto simp: up_inv_def up_resize_def)

lemma ensure_texture_ok:
  assumes "drawable V" and "\<And>x. t = Some x \<Longrightarrow> fits_view V w h x"
  shows "\<exists>x. ensure_texture V msg w h t = Inr x \<and> fits_view V w h x"
  using assms by (cases t) (auto simp: ensure_texture_def create_texture_def drawable_def fits_view_def)

lemma row_bytes_ok: "0 \<le> w \<Longrightarrow> w * 4 < 2 ^ 31 \<Longrightarrow> row_bytes w = Inr (nat (w * 4))"
  by (simp add: row_bytes_def)

lemma last_row: "0 < n \<Longrightarrow> len \<le> pitch \<Longrightarrow> (n - 1) * pitch + len \<le> pitch * n" for n pitch len :: nat
  by (cases n) (auto simp: algebra_simps)

text \<open>C29: an upload copies the picture row by row: byte \<open>x\<close> of row \<open>y\<close> of the texture is byte \<open>x\<close> of row \<open>y\<close> of the software
  picture, whatever the two strides are, nothing is read or written outside the two memories, and the uploader is ready for the next
  picture of any size.\<close>

theorem upload_exact:
  assumes "drawable V" and "up_inv V u"
    and size: "0 \<le> tex_width t" "tex_width t * 4 < 2 ^ 31" "0 < tex_height t" "0 \<le> tex_linesize t ! 0"
    and src: "nat (tex_height t - 1) * nat (tex_linesize t ! 0) + nat (tex_width t * 4) \<le> length (plane0 (pixels t))"
  shows "\<exists>tex u'. upload V plane0 t u = Inr (tex, u') \<and> up_inv V u' \<and> d3_width tex = tex_width t \<and> d3_height tex = tex_height t \<and>
    (\<forall>y<nat (tex_height t). \<forall>x<nat (tex_width t * 4).
       d3_bytes tex ! (y * d3_pitch tex + x) = plane0 (pixels t) ! (y * nat (tex_linesize t ! 0) + x))"
proof -
  let ?u = "up_resize t u" and ?h = "nat (tex_height t)" and ?len = "nat (tex_width t * 4)" and ?ls = "nat (tex_linesize t ! 0)"
  have u: "up_inv V ?u" "up_width ?u = tex_width t" "up_height ?u = tex_height t" using up_resize_inv [OF assms(2), of t] by auto
  obtain stg where stg: "ensure_texture V ''Failed to create staging texture'' (tex_width t) (tex_height t) (up_staging ?u) = Inr stg"
      "fits_view V (tex_width t) (tex_height t) stg"
    using ensure_texture_ok [OF assms(1)] u unfolding up_inv_def by metis
  obtain tx where tx: "ensure_texture V ''Failed to create texture'' (tex_width t) (tex_height t) (up_texture ?u) = Inr tx"
      "fits_view V (tex_width t) (tex_height t) tx"
    using ensure_texture_ok [OF assms(1)] u unfolding up_inv_def by metis
  have pitch: "?len \<le> d3_pitch stg" using assms(1) stg(2) by (simp add: drawable_def fits_view_def mult.commute)
  have "(?h - 1) * d3_pitch stg + ?len \<le> length (d3_bytes stg)"
    using stg(2) last_row [OF _ pitch, of ?h] size by (simp add: fits_view_def)
  moreover have "nat (tex_height t - 1) = ?h - 1" by simp
  ultimately obtain dst where dst: "copy_rows ?h ?len 0 (d3_pitch stg) 0 ?ls (plane0 (pixels t)) (d3_bytes stg) = Inr dst"
      "rows_copied ?h ?len 0 (d3_pitch stg) 0 ?ls (plane0 (pixels t)) (d3_bytes stg) dst"
    using copy_rows_ok [OF pitch, of ?h 0 "d3_bytes stg" 0 ?ls "plane0 (pixels t)"] src by auto
  let ?tex = "tx\<lparr>d3_pitch := d3_pitch stg, d3_bytes := dst\<rparr>"
  let ?u' = "?u\<lparr>up_staging := Some (stg\<lparr>d3_bytes := dst\<rparr>), up_texture := Some ?tex\<rparr>"
  have "upload V plane0 t u = Inr (?tex, ?u')"
    using assms(1) size u stg tx dst by (simp add: upload_def Let_def drawable_def row_bytes_ok)
  moreover have "up_inv V ?u'" using u stg(2) tx(2) dst(2) by (auto simp: up_inv_def fits_view_def rows_copied_def)
  moreover have "d3_width ?tex = tex_width t \<and> d3_height ?tex = tex_height t" using tx(2) by (simp add: fits_view_def)
  moreover have "\<forall>y<?h. \<forall>x<?len. d3_bytes ?tex ! (y * d3_pitch ?tex + x) = plane0 (pixels t) ! (y * ?ls + x)"
    using dst(2) by (simp add: rows_copied_def)
  ultimately show ?thesis by blast
qed

lemma copy_rows_short:
  assumes "0 < n" and "length src < spos + (n - 1) * spitch + len" and "\<forall>m<n. dpos + m * dpitch + len \<le> length dst"
  shows "copy_rows n len dpos dpitch spos spitch src dst = Inl Undef"
  using assms
proof (induction n arbitrary: dpos spos dst)
  case (Suc n)
  show ?case
  proof (cases "length src < spos + len")
    case False
    let ?dst = "overwrite dst dpos (take len (drop spos src))"
    have fits: "dpos + len \<le> length dst" using Suc.prems(3) by (auto dest!: spec [of _ 0])
    have "0 < n" using Suc.prems(2) False by (cases n) auto
    moreover have "length src < spos + spitch + (n - 1) * spitch + len"
      using Suc.prems(2) \<open>0 < n\<close> by (cases n) (auto simp: algebra_simps)
    moreover have "dpos + dpitch + m * dpitch + len \<le> length ?dst" if "m < n" for m
      using Suc.prems(3) that fits by (auto dest!: spec [of _ "Suc m"] simp: algebra_simps)
    ultimately have "copy_rows n len (dpos + dpitch) dpitch (spos + spitch) spitch src ?dst = Inl Undef" by (intro Suc.IH) auto
    then show ?thesis using False fits by (simp add: blit_Inr)
  qed simp
qed simp

lemma draw_cursor_texture:
  assumes "drawable V" and "cursor_inv V r"
  obtains t r1 where "(if cursorTexSize r < cs_width s \<or> cursorTexSize r < cs_height s
            then recreateCursorTexture V (r\<lparr>cursorTexSize := max (cs_width s) (cs_height s)\<rparr>) else Inr r) = Inr r1"
    "cursorTex r1 = Some t" "fits_view V (cursorTexSize r1) (cursorTexSize r1) t" "0 < cursorTexSize r1"
    "cs_width s \<le> cursorTexSize r1" "cs_height s \<le> cursorTexSize r1" "rd_captureWidth r1 = rd_captureWidth r"
proof (cases "cursorTexSize r < cs_width s \<or> cursorTexSize r < cs_height s")
  case True
  let ?n = "max (cs_width s) (cs_height s)"
  let ?t = "\<lparr>d3_width = ?n, d3_height = ?n, d3_pitch = dv_pitch V ?n, d3_bytes = map (dv_fresh V) [0..<dv_pitch V ?n * nat ?n]\<rparr>"
  have "recreateCursorTexture V (r\<lparr>cursorTexSize := ?n\<rparr>) = Inr (r\<lparr>cursorTexSize := ?n, hasCursor := False, cursorTex := Some ?t\<rparr>)"
    using assms(1) by (simp add: recreateCursorTexture_def create_texture_def drawable_def)
  moreover have "0 < ?n" using True assms(2) by (auto simp: cursor_inv_def)
  ultimately show ?thesis using True that [of "r\<lparr>cursorTexSize := ?n, hasCursor := False, cursorTex := Some ?t\<rparr>" ?t]
    by (simp add: fits_view_def)
next
  case False
  with assms(2) that show ?thesis by (auto simp: cursor_inv_def)
qed

lemma top_left:
  assumes rc: "rows_copied h len 0 p 0 len src (replicate (p * n) 0) dst" and len: "len \<le> p" and "y < n" "x < p"
  shows "dst ! (y * p + x) = (if y < h \<and> x < len then src ! (y * len + x) else 0)"
proof (cases "y < h \<and> x < len")
  case True
  with rc show ?thesis by (simp add: rows_copied_def)
next
  case False
  have "y * p + x < Suc y * p" using assms(4) by simp
  also have "\<dots> \<le> n * p" using assms(3) by (intro mult_le_mono1) simp
  finally have k: "y * p + x < p * n" by (simp add: mult.commute)
  have "y * p + x < i * p \<or> i * p + len \<le> y * p + x" if i: "i < h" for i
  proof (cases i y rule: linorder_cases)
    case less
    then have "Suc i * p \<le> y * p" by (intro mult_le_mono1) simp
    with len show ?thesis by simp
  next
    case equal
    with False i show ?thesis by simp
  next
    case greater
    then have "Suc y * p \<le> i * p" by (intro mult_le_mono1) simp
    with assms(4) show ?thesis by simp
  qed
  with rc k have "dst ! (y * p + x) = replicate (p * n) 0 ! (y * p + x)" unfolding rows_copied_def by simp
  with k False show ?thesis by auto
qed


definition sample_view :: d3d_view where
  "sample_view = \<lparr>dv_texture = (\<lambda>_ _. True), dv_map = True, dv_pitch = (\<lambda>w. nat (4 * w) + 4), dv_fresh = (\<lambda>_. 9),
     dv_swapChain = True, dv_sampler = True, dv_shader = True, dv_srv = True, dv_buffer = True, dv_present = True\<rparr>"

lemma sample_view_drawable: "drawable sample_view"
  by (simp add: drawable_def sample_view_def)

definition sample_soft :: "bytes texture" where
  "sample_soft = (texture_new [1, 2, 3, 4, 0, 0, 5, 6, 7, 8])\<lparr>tex_width := 1, tex_height := 2, tex_linesize := [6, 0, 0, 0]\<rparr>"

lemma upload_exact_witness:
  "\<exists>tex u. upload sample_view id sample_soft up_new = Inr (tex, u) \<and> d3_bytes tex ! d3_pitch tex = 5"
proof -
  obtain tex u' where up: "upload sample_view id sample_soft up_new = Inr (tex, u')"
    and rows: "\<forall>y<nat (tex_height sample_soft). \<forall>x<nat (tex_width sample_soft * 4).
       d3_bytes tex ! (y * d3_pitch tex + x) = id (pixels sample_soft) ! (y * nat (tex_linesize sample_soft ! 0) + x)"
    using upload_exact [OF sample_view_drawable up_new_inv, of sample_soft id]
    by (auto simp: sample_soft_def texture_new_def)
  have "d3_bytes tex ! (1 * d3_pitch tex + 0) = id (pixels sample_soft) ! (1 * nat (tex_linesize sample_soft ! 0) + 0)"
    using rows [THEN spec, of 1, THEN mp, THEN spec, of 0] by (simp add: sample_soft_def texture_new_def)
  with up show ?thesis by (simp add: sample_soft_def texture_new_def)
qed

definition sample_shape :: "bytes \<Rightarrow> cursor_shape" where
  "sample_shape img = \<lparr>cs_width = 1, cs_height = 2, cs_hotspotX = 0, cs_hotspotY = 0, cs_format = CS_RGBA, cs_image = img\<rparr>"

definition sample_renderer :: renderer where
  "sample_renderer = rd_new\<lparr>cursorTexSize := 1, cursorTex := Some \<lparr>d3_width = 1, d3_height = 1, d3_pitch = 8, d3_bytes = replicate 8 0\<rparr>\<rparr>"


end
