(* ===== verification/StreamViewer.thy ===== *)
theory StreamViewer
  imports DecoderFFmpeg D3DView StreamClient
begin

text \<open>
  \<open>DecodePipelineSoftD3D\<close> and \<open>StreamViewerD3D\<close> of \<open>src/src/client/platform/windows/\<close>: the packets of the stream go
  through the decoder, the scaler and the uploader to the renderer.

  Two threads work on the viewer: the window's thread calls \<open>resizeEvent\<close>, the client's receiving thread
  \<open>processDesktopFrame\<close> and \<open>processCursorShape\<close>. Whichever sees last that the window has its size and the stream has begun starts the
  pipeline and the render thread. The handlers are composed from the atomic exchanges and loads they are made of, so that
  their interleavings can be taken apart below. The statistics of the render loop go to the log only and are left out.
\<close>

record ('c, 'px) viewer_env =
  ve_decoder :: "('c, 'px) av_decoder"
  ve_av :: av_image
  ve_sws :: "'px sws"
  ve_raw :: 'px
  ve_view :: d3d_view
  ve_plane0 :: "'px \<Rightarrow> bytes"
  ve_of_float :: "u32 \<Rightarrow> int"
  ve_videoRes :: "int \<times> int"
  ve_captureRes :: "int \<times> int"

subsection \<open>The pipeline\<close>

record ('c, 'px) decode_pipeline =
  dp_decoder :: "('c, 'px) ff_decoder"
  dp_uploader :: uploader
  dp_scale :: "'px scaler"
  dp_store :: arenas

definition dp_new :: "'px \<Rightarrow> ('c, 'px) decode_pipeline" where
  "dp_new none = \<lparr>dp_decoder = df_new, dp_uploader = up_init up_new, dp_scale = scaler_new none, dp_store = []\<rparr>"

definition dp_setInputResolution :: "int \<Rightarrow> int \<Rightarrow> ('c, 'px) decode_pipeline \<Rightarrow> ('c, 'px) decode_pipeline res" where
  "dp_setInputResolution w h p = rbind (df_setVideoResolution w h (dp_decoder p)) (\<lambda>d. Inr (p\<lparr>dp_decoder := d\<rparr>))"

definition dp_setOutputResolution :: "int \<Rightarrow> int \<Rightarrow> ('c, 'px) decode_pipeline \<Rightarrow> ('c, 'px) decode_pipeline" where
  "dp_setOutputResolution w h p = p\<lparr>dp_scale := setOutputFormat w h AV_RGBA (dp_scale p)\<rparr>"

definition dp_pushData :: "bytes frame_of \<Rightarrow> ('c, 'px) decode_pipeline \<Rightarrow> ('c, 'px) decode_pipeline" where
  "dp_pushData f p = p\<lparr>dp_decoder := df_pushData f (dp_decoder p)\<rparr>"

definition dp_start :: "('c, 'px) viewer_env \<Rightarrow> ('c, 'px) decode_pipeline \<Rightarrow> ('c, 'px) decode_pipeline res" where
  "dp_start V p = rbind (df_start (ve_decoder V) (dp_decoder p)) (\<lambda>d. Inr (p\<lparr>dp_decoder := d\<rparr>))"

definition dp_stop :: "('c, 'px) decode_pipeline \<Rightarrow> ('c, 'px) decode_pipeline res" where
  "dp_stop p = rbind (df_stop (dp_decoder p)) (\<lambda>d. Inr (p\<lparr>dp_decoder := d\<rparr>))"

text \<open>The texture that \<open>pushInput\<close> swaps out and the one \<open>popOutput\<close> returns die with the frame and the call.\<close>

definition dp_readD3D :: "('c, 'px) viewer_env \<Rightarrow> ('c, 'px) decode_pipeline \<Rightarrow>
    (d3d_texture frame_of option \<times> ('c, 'px) decode_pipeline) res" where
  "dp_readD3D V p =
     rbind (df_readSoftware (ve_av V) (dp_decoder p)) (\<lambda>(r, d).
       let p1 = p\<lparr>dp_decoder := d\<rparr> in
       case r of
         None \<Rightarrow> Inr (None, p1)
       | Some soft \<Rightarrow>
           (case pushInput (desktop soft) (dp_scale p1) of
              (old, sc) \<Rightarrow>
                rbind (popOutput (ve_av V) (ve_sws V) (ve_raw V) sc (dp_store p1)) (\<lambda>(t, sc', st).
                rbind (upload (ve_view V) (ve_plane0 V) t (dp_uploader p1)) (\<lambda>(tex, u).
                rbind (tex_destroy t st) (\<lambda>st'.
                rbind (tex_destroy old st') (\<lambda>st''.
                  Inr (Some (getOtherType soft tex),
                       p1\<lparr>dp_scale := sc', dp_uploader := u, dp_store := st''\<rparr>)))))))"

definition dp_render :: "('c, 'px) viewer_env \<Rightarrow> renderer \<Rightarrow> ('c, 'px) decode_pipeline \<Rightarrow>
    (d3d_texture frame_of option \<times> renderer \<times> ('c, 'px) decode_pipeline) res" where
  "dp_render V r p =
     rbind (dp_readD3D V p) (\<lambda>(f, p1).
       case f of
         None \<Rightarrow> Inr (None, r, p1)
       | Some pic \<Rightarrow>
           rbind (rd_render (ve_view V) (getOtherType pic (Some (desktop pic))) r) (\<lambda>r1. Inr (Some pic, r1, p1)))"

subsection \<open>The viewer\<close>

record ('c, 'px) viewer =
  flagWindowReady :: bool
  flagStreamStarted :: bool
  flagInitialized :: bool
  flagRunRender :: bool
  vw_captureSize :: "int \<times> int"
  vw_pixSize :: "int \<times> int"
  pendingCursorChange :: "cursor_shape option"
  renderThread :: thread_state
  vw_pipeline :: "('c, 'px) decode_pipeline"

definition viewer_new :: "('c, 'px) viewer_env \<Rightarrow> ('c, 'px) viewer res" where
  "viewer_new V =
     rbind (df_init (ve_decoder V) CT_VP8 (dp_decoder (dp_new (ve_raw V)))) (\<lambda>d.
       Inr \<lparr>flagWindowReady = False, flagStreamStarted = False, flagInitialized = False, flagRunRender = False,
            vw_captureSize = (-1, -1), vw_pixSize = (-1, -1), pendingCursorChange = None, renderThread = Idle,
            vw_pipeline = (dp_new (ve_raw V))\<lparr>dp_decoder := d\<rparr>\<rparr>)"

text \<open>The destructor, up to its join and after it.\<close>

definition viewer_destroy :: "('c, 'px) viewer \<Rightarrow> ('c, 'px) viewer res" where
  "viewer_destroy v =
     (if flagInitialized v
      then rbind (dp_stop (vw_pipeline v)) (\<lambda>p.
           rbind (join_or_throw (renderThread v)) (\<lambda>t. Inr (v\<lparr>flagRunRender := False, vw_pipeline := p, renderThread := t\<rparr>)))
      else rbind (assert_quit (\<not> flagRunRender v) ''Renderer running when not initialized!'') (\<lambda>_. Inr v))"

text \<open>\<open>init_\<close> without its exchange of \<open>flagInitialized\<close>.\<close>

definition init_body :: "('c, 'px) viewer_env \<Rightarrow> ('c, 'px) viewer \<Rightarrow> ('c, 'px) viewer res" where
  "init_body V v =
     rbind (dp_setInputResolution (fst (ve_videoRes V)) (snd (ve_videoRes V)) (vw_pipeline v)) (\<lambda>p1.
     let p2 = dp_setOutputResolution (fst (vw_pixSize v)) (snd (vw_pixSize v)) p1 in
     rbind (dp_start V p2) (\<lambda>p3.
     rbind (spawn_thread (renderThread v)) (\<lambda>t.
       Inr (v\<lparr>vw_captureSize := ve_captureRes V, vw_pipeline := p3, flagRunRender := True, renderThread := t\<rparr>))))"

definition viewer_init :: "('c, 'px) viewer_env \<Rightarrow> ('c, 'px) viewer \<Rightarrow> ('c, 'px) viewer res" where
  "viewer_init V v =
     (let prev = flagInitialized v; v1 = v\<lparr>flagInitialized := True\<rparr> in
      if prev then Inr v1 else init_body V v1)"

text \<open>Each handler begins with the exchange of its own flag; then it loads the other one.\<close>

definition resize_exchange :: "int \<Rightarrow> int \<Rightarrow> ('c, 'px) viewer \<Rightarrow> bool \<times> ('c, 'px) viewer" where
  "resize_exchange w h v = (flagWindowReady v, v\<lparr>vw_pixSize := (w, h), flagWindowReady := True\<rparr>)"

definition resizeEvent :: "('c, 'px) viewer_env \<Rightarrow> bool \<Rightarrow> int \<times> int \<times> int \<times> int \<Rightarrow> ('c, 'px) viewer \<Rightarrow> ('c, 'px) viewer res" where
  "resizeEvent V ok rect v =
     (case rect of (l, u, r, b) \<Rightarrow>
      rbind (assert_quit ok ''Failed to retrieve client rect'') (\<lambda>_.
        case resize_exchange (r - l) (b - u) v of
          (was, v1) \<Rightarrow> if \<not> was \<and> flagStreamStarted v1 then viewer_init V v1 else Inr v1))"

definition frame_exchange :: "('c, 'px) viewer \<Rightarrow> bool \<times> ('c, 'px) viewer" where
  "frame_exchange v = (flagStreamStarted v, v\<lparr>flagStreamStarted := True\<rparr>)"

definition frame_of_packet :: "desktop_frame \<Rightarrow> bytes \<Rightarrow> int \<Rightarrow> cursor_shape option \<Rightarrow> bytes frame_of" where
  "frame_of_packet m data now shape =
     (frame_init data)\<lparr>timeCaptured := sint (df_time_captured m), timeEncoded := sint (df_time_encoded m), timeReceived := now,
        isIDR := df_is_idr m,
        cursorPos := Some (if df_cursor_visible m
          then \<lparr>cp_visible = True, cp_x = df_cursor_x m, cp_y = df_cursor_y m\<rparr>
          else \<lparr>cp_visible = False, cp_x = -1, cp_y = -1\<rparr>),
        cursorShape := shape\<rparr>"

text \<open>\<open>data\<close> is the buffer behind \<open>extraData\<close>; \<open>ts\<close> are the readings of the clock, two for the hint and one for the frame.\<close>

definition extra_bytes :: "packet \<Rightarrow> bytes \<Rightarrow> bytes res" where
  "extra_bytes pkt data = (if length data < nat (extra_data_len pkt) then Inl Undef else Inr (take (nat (extra_data_len pkt)) data))"

definition frame_push :: "int \<times> int \<times> int \<Rightarrow> packet \<Rightarrow> desktop_frame \<Rightarrow> bytes \<Rightarrow> network_clock \<times> ('c, 'px) viewer \<Rightarrow>
    (network_clock \<times> ('c, 'px) viewer) res" where
  "frame_push ts pkt m data s =
     (case (ts, s) of ((t1, t2, t3), (clk, v)) \<Rightarrow>
      rbind (monotonicHint t1 t2 (sint (df_time_encoded m)) clk) (\<lambda>clk1.
      rbind (extra_bytes pkt data) (\<lambda>img.
      rbind (nc_time t3 clk1) (\<lambda>now.
        Inr (clk1, v\<lparr>pendingCursorChange := None,
                      vw_pipeline := dp_pushData (frame_of_packet m img now (pendingCursorChange v)) (vw_pipeline v)\<rparr>)))))"

definition processDesktopFrame :: "('c, 'px) viewer_env \<Rightarrow> int \<times> int \<times> int \<Rightarrow> packet \<Rightarrow> desktop_frame \<Rightarrow> bytes \<Rightarrow>
    network_clock \<times> ('c, 'px) viewer \<Rightarrow> (network_clock \<times> ('c, 'px) viewer) res" where
  "processDesktopFrame V ts pkt m data s =
     (case frame_exchange (snd s) of
        (was, v1) \<Rightarrow>
          rbind (if \<not> was \<and> flagWindowReady v1 then viewer_init V v1 else Inr v1) (\<lambda>v2. frame_push ts pkt m data (fst s, v2)))"

definition shape_of_packet :: "('c, 'px) viewer_env \<Rightarrow> cursor_shape_msg \<Rightarrow> bytes \<Rightarrow> cursor_shape" where
  "shape_of_packet V m img =
     \<lparr>cs_width = cm_width m, cs_height = cm_height m, cs_hotspotX = ve_of_float V (cm_hotspot_x m), cs_hotspotY = ve_of_float V (cm_hotspot_y m),
      cs_format = (case cm_format m of RGBA \<Rightarrow> CS_RGBA | RGBA_XOR \<Rightarrow> CS_RGBA_XOR | _ \<Rightarrow> CS_RGBA), cs_image = img\<rparr>"

definition processCursorShape :: "('c, 'px) viewer_env \<Rightarrow> packet \<Rightarrow> cursor_shape_msg \<Rightarrow> bytes \<Rightarrow> ('c, 'px) viewer \<Rightarrow> ('c, 'px) viewer res" where
  "processCursorShape V pkt m data v =
     rbind (extra_bytes pkt data) (\<lambda>img. Inr (v\<lparr>pendingCursorChange := Some (shape_of_packet V m img)\<rparr>))"

text \<open>The render thread: before its loop, and one round.\<close>

definition render_begin :: "('c, 'px) viewer_env \<Rightarrow> ('c, 'px) viewer \<Rightarrow> renderer res" where
  "render_begin V v =
     rbind (rd_init (ve_view V) (rd_setCaptureResolution (fst (vw_captureSize v)) (snd (vw_captureSize v)) rd_new)) (\<lambda>r.
     rbind (resized (fst (vw_pixSize v)) (snd (vw_pixSize v)) r) (\<lambda>r1. rd_clear (ve_view V) r1))"

definition render_round :: "('c, 'px) viewer_env \<Rightarrow> int \<Rightarrow> network_clock \<Rightarrow> renderer \<times> ('c, 'px) viewer \<Rightarrow>
    (d3d_texture frame_of option \<times> renderer \<times> ('c, 'px) viewer) res" where
  "render_round V t clk s =
     (case s of (r, v) \<Rightarrow>
      if \<not> flagRunRender v then Inr (None, r, v\<lparr>renderThread := Ended\<rparr>)
      else rbind (dp_render V r (vw_pipeline v)) (\<lambda>(f, r1, p).
        let v1 = v\<lparr>vw_pipeline := p\<rparr> in
        case f of
          None \<Rightarrow> Inr (None, r1, v1)
        | Some pic \<Rightarrow> rbind (nc_time t clk) (\<lambda>now. Inr (Some (pic\<lparr>timePresented := now\<rparr>), r1, v1))))"

subsection \<open>Whoever comes last starts the pipeline, once\<close>

text \<open>
  How far a handler has come: at rest; after its exchange, with what the exchange returned; about to exchange
  \<open>flagInitialized\<close>; in the rest of \<open>init_\<close>. The state holds the window's handler, the receiving thread's, the number of times the rest of
  \<open>init_\<close> has been run, and the viewer. Any other work on the pipeline may come between.
\<close>

datatype handler = At_rest | Exchanged bool | Enters_init | In_init

definition after_load :: "bool \<Rightarrow> bool \<Rightarrow> handler" where
  "after_load was other = (if \<not> was \<and> other then Enters_init else At_rest)"

definition after_init :: "('c, 'px) viewer \<Rightarrow> handler" where
  "after_init v = (if flagInitialized v then At_rest else In_init)"

inductive viewer_run :: "('c, 'px) viewer_env \<Rightarrow> handler \<times> handler \<times> nat \<times> ('c, 'px) viewer \<Rightarrow> bool" for V where
  vr_new: "viewer_new V = Inr v \<Longrightarrow> viewer_run V (At_rest, At_rest, 0, v)"
| vr_resize: "viewer_run V (At_rest, q, n, v) \<Longrightarrow> resize_exchange w h v = (was, v') \<Longrightarrow> viewer_run V (Exchanged was, q, n, v')"
| vr_resize_load: "viewer_run V (Exchanged was, q, n, v) \<Longrightarrow> viewer_run V (after_load was (flagStreamStarted v), q, n, v)"
| vr_resize_init: "viewer_run V (Enters_init, q, n, v) \<Longrightarrow> viewer_run V (after_init v, q, n, v\<lparr>flagInitialized := True\<rparr>)"
| vr_resize_body: "viewer_run V (In_init, q, n, v) \<Longrightarrow> init_body V v = Inr v' \<Longrightarrow> viewer_run V (At_rest, q, Suc n, v')"
| vr_frame: "viewer_run V (p, At_rest, n, v) \<Longrightarrow> frame_exchange v = (was, v') \<Longrightarrow> viewer_run V (p, Exchanged was, n, v')"
| vr_frame_load: "viewer_run V (p, Exchanged was, n, v) \<Longrightarrow> viewer_run V (p, after_load was (flagWindowReady v), n, v)"
| vr_frame_init: "viewer_run V (p, Enters_init, n, v) \<Longrightarrow> viewer_run V (p, after_init v, n, v\<lparr>flagInitialized := True\<rparr>)"
| vr_frame_body: "viewer_run V (p, In_init, n, v) \<Longrightarrow> init_body V v = Inr v' \<Longrightarrow> viewer_run V (p, At_rest, Suc n, v')"
| vr_push: "viewer_run V (p, At_rest, n, v) \<Longrightarrow> frame_push ts pkt m data (clk, v) = Inr (clk', v') \<Longrightarrow> viewer_run V (p, At_rest, n, v')"
| vr_cursor: "viewer_run V (p, At_rest, n, v) \<Longrightarrow> processCursorShape V pkt c data v = Inr v' \<Longrightarrow> viewer_run V (p, At_rest, n, v')"
| vr_pipeline: "viewer_run V (p, q, n, v) \<Longrightarrow> viewer_run V (p, q, n, v\<lparr>vw_pipeline := pl\<rparr>)"

definition bodies :: "handler \<Rightarrow> nat" where
  "bodies p = (if p = In_init then 1 else 0)"

definition pends :: "handler \<Rightarrow> bool" where
  "pends p \<longleftrightarrow> p = Enters_init \<or> p = Exchanged False"

definition viewer_inv :: "handler \<Rightarrow> handler \<Rightarrow> nat \<Rightarrow> ('c, 'px) viewer \<Rightarrow> bool" where
  "viewer_inv p q n v \<longleftrightarrow>
     n + bodies p + bodies q = (if flagInitialized v then 1 else 0) \<and>
     (flagWindowReady v \<and> flagStreamStarted v \<and> \<not> flagInitialized v \<longrightarrow> pends p \<or> pends q) \<and>
     (n = 1 \<longrightarrow> flagRunRender v) \<and> (flagInitialized v \<longrightarrow> flagWindowReady v \<and> flagStreamStarted v) \<and>
     (p \<noteq> At_rest \<longrightarrow> flagWindowReady v) \<and> (q \<noteq> At_rest \<longrightarrow> flagStreamStarted v) \<and>
     (p = Enters_init \<longrightarrow> flagStreamStarted v) \<and> (q = Enters_init \<longrightarrow> flagWindowReady v)"

lemma init_body_flags: "init_body V v = Inr v' \<Longrightarrow> flagRunRender v' \<and> flagInitialized v' = flagInitialized v \<and>
    flagWindowReady v' = flagWindowReady v \<and> flagStreamStarted v' = flagStreamStarted v"
  by (auto simp: init_body_def rbind_eq_Inr Let_def)

lemma frame_push_flags: "frame_push ts pkt m data (clk, v) = Inr (clk', v') \<Longrightarrow> flagRunRender v' = flagRunRender v \<and>
    flagInitialized v' = flagInitialized v \<and> flagWindowReady v' = flagWindowReady v \<and> flagStreamStarted v' = flagStreamStarted v"
  by (auto simp: frame_push_def rbind_eq_Inr split: prod.splits)

lemma cursor_flags: "processCursorShape V pkt m data v = Inr v' \<Longrightarrow> flagRunRender v' = flagRunRender v \<and>
    flagInitialized v' = flagInitialized v \<and> flagWindowReady v' = flagWindowReady v \<and> flagStreamStarted v' = flagStreamStarted v"
  by (auto simp: processCursorShape_def rbind_eq_Inr)

lemma viewer_inv_flags: "viewer_inv p q n v \<Longrightarrow> flagRunRender v' = flagRunRender v \<Longrightarrow> flagInitialized v' = flagInitialized v \<Longrightarrow>
    flagWindowReady v' = flagWindowReady v \<Longrightarrow> flagStreamStarted v' = flagStreamStarted v \<Longrightarrow> viewer_inv p q n v'"
  by (simp add: viewer_inv_def)

lemmas viewer_steps = viewer_inv_def bodies_def pends_def after_load_def after_init_def resize_exchange_def frame_exchange_def

lemma viewer_run_inv: "viewer_run V (p, q, n, v) \<Longrightarrow> viewer_inv p q n v"
proof (induction "(p, q, n, v)" arbitrary: p q n v rule: viewer_run.induct)
  case (vr_new v)
  then show ?case by (auto simp: viewer_new_def rbind_eq_Inr viewer_steps)
next
  case (vr_resize q n v w h was v')
  then show ?case by (auto simp: viewer_steps split: if_splits)
next
  case (vr_resize_load was q n v)
  then show ?case by (auto simp: viewer_steps split: if_splits)
next
  case (vr_resize_init q n v)
  then show ?case by (auto simp: viewer_steps split: if_splits)
next
  case (vr_resize_body q n v v')
  then show ?case using init_body_flags [OF vr_resize_body(3)] by (auto simp: viewer_steps split: if_splits)
next
  case (vr_frame p n v was v')
  then show ?case by (auto simp: viewer_steps split: if_splits)
next
  case (vr_frame_load p was n v)
  then show ?case by (auto simp: viewer_steps split: if_splits)
next
  case (vr_frame_init p n v)
  then show ?case by (auto simp: viewer_steps split: if_splits)
next
  case (vr_frame_body p n v v')
  then show ?case using init_body_flags [OF vr_frame_body(3)] by (auto simp: viewer_steps split: if_splits)
next
  case (vr_push p n v ts pkt m data clk clk' v')
  then show ?case using frame_push_flags [OF vr_push(3)] viewer_inv_flags by metis
next
  case (vr_cursor p n v pkt c data v')
  then show ?case using cursor_flags [OF vr_cursor(3)] viewer_inv_flags by metis
next
  case (vr_pipeline p q n v pl)
  then show ?case by (auto intro: viewer_inv_flags)
qed

text \<open>The handlers are such sequences of steps.\<close>

lemma resizeEvent_run:
  assumes "viewer_run V (At_rest, q, n, v)" and r: "resizeEvent V ok rect v = Inr v'"
  shows "\<exists>n'. viewer_run V (At_rest, q, n', v')"
proof -
  from r obtain w h was v1 where x: "resize_exchange w h v = (was, v1)"
    and i: "(if \<not> was \<and> flagStreamStarted v1 then viewer_init V v1 else Inr v1) = Inr v'"
    by (auto simp: resizeEvent_def rbind_eq_Inr split: prod.splits)
  have l: "viewer_run V (after_load was (flagStreamStarted v1), q, n, v1)" by (rule vr_resize_load [OF vr_resize [OF assms(1) x]])
  show ?thesis
  proof (cases "\<not> was \<and> flagStreamStarted v1")
    case True
    with l have e: "viewer_run V (after_init v1, q, n, v1\<lparr>flagInitialized := True\<rparr>)"
      using vr_resize_init by (simp add: after_load_def)
    show ?thesis
    proof (cases "flagInitialized v1")
      case True
      with e i \<open>\<not> was \<and> flagStreamStarted v1\<close> show ?thesis by (auto simp: after_init_def viewer_init_def)
    next
      case False
      with e i \<open>\<not> was \<and> flagStreamStarted v1\<close> show ?thesis
        by (auto simp: after_init_def viewer_init_def Let_def intro: vr_resize_body)
    qed
  next
    case False
    then have "v' = v1" "viewer_run V (At_rest, q, n, v1)" using i l by (auto simp: after_load_def)
    then show ?thesis by blast
  qed
qed

lemma processDesktopFrame_run:
  assumes "viewer_run V (p, At_rest, n, v)" and r: "processDesktopFrame V ts pkt m data (clk, v) = Inr (clk', v')"
  shows "\<exists>n'. viewer_run V (p, At_rest, n', v')"
proof -
  obtain was v1 where x: "frame_exchange v = (was, v1)" by fastforce
  with r obtain v2 where i: "(if \<not> was \<and> flagWindowReady v1 then viewer_init V v1 else Inr v1) = Inr v2"
    and push: "frame_push ts pkt m data (clk, v2) = Inr (clk', v')" by (auto simp: processDesktopFrame_def rbind_eq_Inr)
  have l: "viewer_run V (p, after_load was (flagWindowReady v1), n, v1)" by (rule vr_frame_load [OF vr_frame [OF assms(1) x]])
  have "\<exists>n'. viewer_run V (p, At_rest, n', v2)"
  proof (cases "\<not> was \<and> flagWindowReady v1")
    case True
    with l have e: "viewer_run V (p, after_init v1, n, v1\<lparr>flagInitialized := True\<rparr>)"
      using vr_frame_init by (simp add: after_load_def)
    with i True show ?thesis
      by (cases "flagInitialized v1") (auto simp: after_init_def viewer_init_def Let_def intro: vr_frame_body)
  next
    case False
    with i l show ?thesis by (auto simp: after_load_def)
  qed
  then show ?thesis using vr_push [OF _ push] by blast
qed

text \<open>C12: however the window's thread and the receiving thread interleave, the decoder and the render thread are started at
  most once, and only after the window has its size and the first frame has come; and as soon as both have
  happened and no handler is in the middle, they have been started: neither thread leaves the start to the other.\<close>

theorem viewer_starts_once:
  assumes "viewer_run V (p, q, n, v)"
  shows "n \<le> 1 \<and> (n = 1 \<longrightarrow> flagWindowReady v \<and> flagStreamStarted v \<and> flagRunRender v) \<and>
    (p = At_rest \<and> q = At_rest \<and> flagWindowReady v \<and> flagStreamStarted v \<longrightarrow> n = 1)"
  using viewer_run_inv [OF assms] by (auto simp: viewer_steps split: if_splits)

subsection \<open>No cursor shape is lost on the way to the decoder\<close>

text \<open>
  \<open>viewer_life V (v, w, g, shapes)\<close>: a viewer whose handlers ran one after the other, with the history of its decoder and
  the cursor shapes received.
\<close>

definition shape_kept :: "('c, 'px) viewer \<Rightarrow> 'px df_history \<Rightarrow> cursor_shape list \<Rightarrow> bool" where
  "shape_kept v g shapes \<longleftrightarrow>
     last_some (map cursorShape (g_pushed g) @ [pendingCursorChange v]) None = (if shapes = [] then None else Some (last shapes))"

definition started_by :: "('c, 'px) viewer \<Rightarrow> ('c, 'px) viewer \<Rightarrow> 'px df_worker \<times> 'px df_history \<Rightarrow> 'px df_worker \<times> 'px df_history" where
  "started_by v v' wg =
     (if flagInitialized v \<or> \<not> flagInitialized v' then wg
      else (dw_new, (snd wg)\<lparr>g_now := [], g_outs := [], g_reads := [],
              g_sync := g_sync (snd wg) \<and> \<not> list_ex isIDR (df_packets (dp_decoder (vw_pipeline v)))\<rparr>))"

abbreviation decoder_of :: "('c, 'px) viewer \<Rightarrow> ('c, 'px) ff_decoder" where
  "decoder_of v \<equiv> dp_decoder (vw_pipeline v)"

inductive viewer_life ::
  "('c, 'px) viewer_env \<Rightarrow> ('c, 'px) viewer \<times> 'px df_worker \<times> 'px df_history \<times> cursor_shape list \<Rightarrow> bool" for V where
  vl_new: "viewer_new V = Inr v \<Longrightarrow> viewer_life V (v, dw_new, no_history, [])"
| vl_resize: "viewer_life V (v, w, g, shapes) \<Longrightarrow> resizeEvent V ok rect v = Inr v' \<Longrightarrow> (w', g') = started_by v v' (w, g) \<Longrightarrow>
    viewer_life V (v', w', g', shapes)"
| vl_frame: "viewer_life V (v, w, g, shapes) \<Longrightarrow> processDesktopFrame V ts pkt m data (clk, v) = Inr (clk', v') \<Longrightarrow>
    (w', g') = started_by v v' (w, g) \<Longrightarrow>
    extra_bytes pkt data = Inr img \<Longrightarrow> nc_time (snd (snd ts)) clk' = Inr now \<Longrightarrow>
    viewer_life V (v', w', g'\<lparr>g_pushed := g_pushed g' @ [frame_of_packet m img now (pendingCursorChange v)]\<rparr>, shapes)"
| vl_cursor: "viewer_life V (v, w, g, shapes) \<Longrightarrow> processCursorShape V pkt c data v = Inr v' \<Longrightarrow> extra_bytes pkt data = Inr img \<Longrightarrow>
    viewer_life V (v', w, g, shapes @ [shape_of_packet V c img])"
| vl_round: "viewer_life V (v, w, g, shapes) \<Longrightarrow> df_thread (decoder_of v) = Working \<Longrightarrow>
    df_run_round (ve_decoder V) now (decoder_of v, w) = Inr (True, d', w') \<Longrightarrow>
    viewer_life V (v\<lparr>vw_pipeline := (vw_pipeline v)\<lparr>dp_decoder := d'\<rparr>\<rparr>, w',
      g\<lparr>g_taken := g_taken g @ took (decoder_of v) d', g_now := g_now g @ took (decoder_of v) d', g_outs := g_outs g @ returned w w'\<rparr>, shapes)"
| vl_render: "viewer_life V (v, w, g, shapes) \<Longrightarrow> df_readSoftware (ve_av V) (decoder_of v) = Inr (r, d') \<Longrightarrow>
    render_round V t clk (rd, v) = Inr (fr, rd', v') \<Longrightarrow> flagRunRender v \<Longrightarrow>
    viewer_life V (v', w, g\<lparr>g_reads := g_reads g @ (case r of Some f \<Rightarrow> [f] | None \<Rightarrow> [])\<rparr>, shapes)"

lemma init_body_decoder:
  "init_body V v = Inr v' \<Longrightarrow> df_start (ve_decoder V) (decoder_of v) = Inr (decoder_of v') \<and> pendingCursorChange v' = pendingCursorChange v"
  by (auto simp: init_body_def dp_setInputResolution_def df_setVideoResolution_def dp_setOutputResolution_def dp_start_def rbind_eq_Inr Let_def)

lemma viewer_init_life:
  assumes i: "(if c then viewer_init V v else Inr v) = Inr v'" and s: "(w', g') = started_by v v' (w, g)"
    and l: "df_life (ve_decoder V) av (decoder_of v, w, g)"
  shows "df_life (ve_decoder V) av (decoder_of v', w', g') \<and> pendingCursorChange v' = pendingCursorChange v \<and> g_pushed g' = g_pushed g"
proof (cases "c \<and> \<not> flagInitialized v")
  case True
  with i have b: "init_body V (v\<lparr>flagInitialized := True\<rparr>) = Inr v'" by (simp add: viewer_init_def Let_def)
  with True s have "w' = dw_new" "g' = g\<lparr>g_now := [], g_outs := [], g_reads := [],
      g_sync := g_sync g \<and> \<not> list_ex isIDR (df_packets (decoder_of v))\<rparr>"
    using init_body_flags [OF b] by (auto simp: started_by_def)
  with life_start [OF l] init_body_decoder [OF b] show ?thesis by simp
next
  case False
  with i have "decoder_of v' = decoder_of v \<and> pendingCursorChange v' = pendingCursorChange v" "flagInitialized v \<or> v' = v"
    by (auto simp: viewer_init_def Let_def split: if_splits)
  with s l show ?thesis by (auto simp: started_by_def)
qed

lemma frame_push_life:
  assumes f: "frame_push ts pkt m data (clk, v) = Inr (clk', v')" and "extra_bytes pkt data = Inr img" "nc_time (snd (snd ts)) clk' = Inr now"
  shows "decoder_of v' = df_pushData (frame_of_packet m img now (pendingCursorChange v)) (decoder_of v) \<and>
    pendingCursorChange v' = None \<and> flagInitialized v' = flagInitialized v"
  using assms by (auto simp: frame_push_def rbind_eq_Inr dp_pushData_def split: prod.splits)

lemma started_by_cong:
  "flagInitialized v2 = flagInitialized v \<Longrightarrow> decoder_of v2 = decoder_of v \<Longrightarrow> flagInitialized v3 = flagInitialized v' \<Longrightarrow>
   started_by v2 v3 wg = started_by v v' wg"
  by (simp add: started_by_def)

lemma render_round_life:
  assumes "render_round V t clk (rd, v) = Inr (fr, rd', v')" and "flagRunRender v" and "df_readSoftware (ve_av V) (decoder_of v) = Inr (r, d')"
  shows "decoder_of v' = d' \<and> pendingCursorChange v' = pendingCursorChange v"
proof -
  from assms(1,2) obtain f p where dr: "dp_render V rd (vw_pipeline v) = Inr (f, rd', p)"
    and v': "decoder_of v' = dp_decoder p" "pendingCursorChange v' = pendingCursorChange v"
    by (auto simp: render_round_def rbind_eq_Inr Let_def split: option.splits)
  from dr obtain p1 x where "dp_readD3D V (vw_pipeline v) = Inr (x, p1)" "dp_decoder p = dp_decoder p1"
    by (auto simp: dp_render_def rbind_eq_Inr split: option.splits)
  with assms(3) v' show ?thesis
    by (cases r) (auto simp: dp_readD3D_def rbind_eq_Inr Let_def split: prod.splits)
qed

lemma viewer_life_inv:
  "viewer_life V (v, w, g, shapes) \<Longrightarrow> df_life (ve_decoder V) (ve_av V) (decoder_of v, w, g) \<and> shape_kept v g shapes"
proof (induction "(v, w, g, shapes)" arbitrary: v w g shapes rule: viewer_life.induct)
  case (vl_new v)
  then show ?case using life_init [OF life_new]
    by (auto simp: viewer_new_def dp_new_def rbind_eq_Inr shape_kept_def no_history_def)
next
  case (vl_resize v w g shapes ok rect v' w' g')
  from vl_resize(3) obtain x y was v1 where x: "resize_exchange x y v = (was, v1)"
    and i: "(if \<not> was \<and> flagStreamStarted v1 then viewer_init V v1 else Inr v1) = Inr v'"
    by (auto simp: resizeEvent_def rbind_eq_Inr split: prod.splits)
  have v1: "flagInitialized v1 = flagInitialized v" "decoder_of v1 = decoder_of v" "pendingCursorChange v1 = pendingCursorChange v"
    using x by (auto simp: resize_exchange_def)
  then have s: "(w', g') = started_by v1 v' (w, g)" using vl_resize(4) started_by_cong [of v1 v v' v'] by simp
  have l: "df_life (ve_decoder V) (ve_av V) (decoder_of v1, w, g)" using vl_resize(2) v1 by simp
  from viewer_init_life [OF i s l] v1 vl_resize(2) show ?case by (auto simp: shape_kept_def)
next
  case (vl_frame v w g shapes ts pkt m data clk clk' v' w' g' img now)
  obtain was v1 where x: "frame_exchange v = (was, v1)" by fastforce
  with vl_frame(3) obtain v2 where i: "(if \<not> was \<and> flagWindowReady v1 then viewer_init V v1 else Inr v1) = Inr v2"
    and push: "frame_push ts pkt m data (clk, v2) = Inr (clk', v')" by (auto simp: processDesktopFrame_def rbind_eq_Inr)
  have v1: "flagInitialized v1 = flagInitialized v" "decoder_of v1 = decoder_of v" "pendingCursorChange v1 = pendingCursorChange v"
    using x by (auto simp: frame_exchange_def)
  note f = frame_push_life [OF push vl_frame(5,6)]
  have s: "(w', g') = started_by v1 v2 (w, g)" using vl_frame(4) v1 f started_by_cong [of v1 v v2 v'] by simp
  have l1: "df_life (ve_decoder V) (ve_av V) (decoder_of v1, w, g)" using vl_frame(2) v1 by simp
  from viewer_init_life [OF i s l1] v1
  have l2: "df_life (ve_decoder V) (ve_av V) (decoder_of v2, w', g')" "pendingCursorChange v2 = pendingCursorChange v" "g_pushed g' = g_pushed g"
    by auto
  have "shape_kept v g shapes" using vl_frame(2) by blast
  then show ?case using life_push [OF l2(1)] f l2 by (auto simp: shape_kept_def frame_of_packet_def last_some_append)
next
  case (vl_cursor v w g shapes pkt c data v' img)
  then show ?case by (auto simp: processCursorShape_def rbind_eq_Inr shape_kept_def last_some_append)
next
  case (vl_round v w g shapes now d' w')
  then show ?case using life_round by (auto simp: shape_kept_def)
next
  case (vl_render v w g shapes r d' t clk rd fr rd' v')
  then show ?case using render_round_life life_read by (fastforce simp: shape_kept_def)
qed

text \<open>C10: from the network to the codec no cursor shape gets lost, whatever packets the decoder drops: the last shape among the packets
  that reach the codec or wait for it, followed by the one that waits for the next frame, is the last shape that was received.\<close>

theorem cursor_reaches_decoder:
  assumes "viewer_life V (v, w, g, shapes)"
  shows "last_some (map cursorShape (g_taken g @ df_packets (decoder_of v)) @ [pendingCursorChange v]) None =
    (if shapes = [] then None else Some (last shapes))"
  using viewer_life_inv [OF assms] skips_last [OF df_life_skips, of "ve_decoder V" "ve_av V" "decoder_of v" w g]
  by (simp add: shape_kept_def last_some_append)

subsection \<open>Samples\<close>

definition sample_viewer_env :: "(int list, nat) viewer_env" where
  "sample_viewer_env = \<lparr>ve_decoder = sample_vp8, ve_av = sample_av, ve_sws = \<lparr>sws_supports = (\<lambda>_. True), sws_run = (\<lambda>_ x. x)\<rparr>,
     ve_raw = 0, ve_view = sample_view, ve_plane0 = (\<lambda>_. []), ve_of_float = (\<lambda>x. uint x), ve_videoRes = (4, 2), ve_captureRes = (8, 4)\<rparr>"

definition sample_viewer :: "(int list, nat) viewer" where
  "sample_viewer = \<lparr>flagWindowReady = False, flagStreamStarted = False, flagInitialized = False, flagRunRender = False,
     vw_captureSize = (-1, -1), vw_pixSize = (-1, -1), pendingCursorChange = None, renderThread = Idle,
     vw_pipeline = (dp_new 0)\<lparr>dp_decoder := df_new\<lparr>df_codecType := CT_VP8, df_codec := True\<rparr>\<rparr>\<rparr>"

lemma sample_viewer_new: "viewer_new sample_viewer_env = Inr sample_viewer"
  by (simp add: viewer_new_def sample_viewer_env_def sample_viewer_def sample_vp8_def df_init_def dp_new_def)

lemma sample_init_body:
  "\<exists>v'. init_body sample_viewer_env (sample_viewer\<lparr>vw_pixSize := (4, 2), flagWindowReady := True, flagStreamStarted := True, flagInitialized := True\<rparr>)
     = Inr v' \<and> flagRunRender v' \<and> flagInitialized v' \<and> flagWindowReady v'"
  by (simp add: init_body_def sample_viewer_env_def sample_viewer_def dp_setInputResolution_def df_setVideoResolution_def
      dp_setOutputResolution_def dp_start_def df_start_def dp_new_def df_new_def sample_vp8_def join_thread_def spawn_thread_def Let_def)

text \<open>Both handlers exchange before either loads: both enter \<open>init_\<close>, and one of them does the work.\<close>

lemma viewer_starts_once_witness:
  "\<exists>v. viewer_run sample_viewer_env (At_rest, At_rest, 1, v) \<and> flagRunRender v"
proof -
  let ?v1 = "sample_viewer\<lparr>vw_pixSize := (4, 2), flagWindowReady := True\<rparr>"
  let ?v2 = "?v1\<lparr>flagStreamStarted := True\<rparr>"
  have flags: "\<not> flagWindowReady sample_viewer" "\<not> flagStreamStarted ?v1" "\<not> flagInitialized ?v2" by (simp_all add: sample_viewer_def)
  have "resize_exchange 4 2 sample_viewer = (False, ?v1)" "frame_exchange ?v1 = (False, ?v2)"
    using flags by (simp_all add: resize_exchange_def frame_exchange_def)
  from vr_frame [OF vr_resize [OF vr_new [OF sample_viewer_new] this(1)] this(2)]
  have "viewer_run sample_viewer_env (Exchanged False, Exchanged False, 0, ?v2)" .
  from vr_frame_load [OF vr_resize_load [OF this]]
  have "viewer_run sample_viewer_env (Enters_init, Enters_init, 0, ?v2)" by (simp add: after_load_def)
  from vr_resize_init [OF this]
  have i: "viewer_run sample_viewer_env (In_init, Enters_init, 0, ?v2\<lparr>flagInitialized := True\<rparr>)"
    using flags by (simp add: after_init_def)
  obtain v' where v': "init_body sample_viewer_env (?v2\<lparr>flagInitialized := True\<rparr>) = Inr v'" "flagInitialized v'"
    using sample_init_body by auto
  from vr_resize_body [OF i v'(1)] have "viewer_run sample_viewer_env (At_rest, Enters_init, Suc 0, v')" .
  from vr_frame_init [OF this] have r: "viewer_run sample_viewer_env (At_rest, At_rest, Suc 0, v'\<lparr>flagInitialized := True\<rparr>)"
    using v'(2) by (simp add: after_init_def)
  from viewer_starts_once [OF r] have "flagRunRender (v'\<lparr>flagInitialized := True\<rparr>)" by simp
  with r show ?thesis by auto
qed

definition sample_cursor_msg :: cursor_shape_msg where
  "sample_cursor_msg = \<lparr>cm_format = RGBA, cm_width = 1, cm_height = 1, cm_hotspot_x = 0, cm_hotspot_y = 0\<rparr>"

definition sample_frame_msg :: desktop_frame where
  "sample_frame_msg = \<lparr>df_cursor_visible = True, df_cursor_x = 1, df_cursor_y = 2, df_is_idr = True, df_time_captured = 3, df_time_encoded = 4\<rparr>"

lemma cursor_reaches_decoder_witness:
  "\<exists>v w g. viewer_life sample_viewer_env (v, w, g, [shape_of_packet sample_viewer_env sample_cursor_msg [9, 9, 9, 9]]) \<and>
     last_some (map cursorShape (g_taken g @ df_packets (decoder_of v)) @ [pendingCursorChange v]) None =
       Some (shape_of_packet sample_viewer_env sample_cursor_msg [9, 9, 9, 9])"
proof -
  let ?pkt = "\<lparr>extra_data_len = 4, body = CursorShapeMsg sample_cursor_msg\<rparr>"
  let ?shape = "shape_of_packet sample_viewer_env sample_cursor_msg [9, 9, 9, 9]"
  let ?v1 = "sample_viewer\<lparr>pendingCursorChange := Some ?shape\<rparr>"
  have x: "extra_bytes ?pkt [9, 9, 9, 9] = Inr [9, 9, 9, 9]" by (simp add: extra_bytes_def)
  then have "processCursorShape sample_viewer_env ?pkt sample_cursor_msg [9, 9, 9, 9] sample_viewer = Inr ?v1"
    by (simp add: processCursorShape_def)
  from vl_cursor [OF vl_new [OF sample_viewer_new] this x]
  have l1: "viewer_life sample_viewer_env (?v1, dw_new, no_history, [?shape])" by simp
  let ?pkt2 = "\<lparr>extra_data_len = 1, body = DesktopFrameMsg sample_frame_msg\<rparr>"
  have t: "nc_time 5000000 (nc_new 0 0) = Inr 5000" by (simp add: nc_time_def nc_new_def i64_def fits64_def c_div_def)
  then have h: "monotonicHint 5000000 5000000 (sint (4 :: u64)) (nc_new 0 0) = Inr (nc_new 0 0)" by (simp add: monotonicHint_def)
  have x2: "extra_bytes ?pkt2 [1] = Inr [1]" by (simp add: extra_bytes_def)
  obtain v2 where p: "processDesktopFrame sample_viewer_env (5000000, 5000000, 5000000) ?pkt2 sample_frame_msg [1] (nc_new 0 0, ?v1) =
      Inr (nc_new 0 0, v2)" and i: "\<not> flagInitialized v2"
    using t h x2 by (simp add: processDesktopFrame_def frame_exchange_def frame_push_def sample_viewer_def sample_frame_msg_def)
  have s: "(dw_new, no_history) = started_by ?v1 v2 (dw_new, no_history)" using i by (simp add: started_by_def)
  have "nc_time (snd (snd (5000000, 5000000, 5000000))) (nc_new 0 0) = Inr 5000" using t by simp
  from vl_frame [OF l1 p s x2 this] cursor_reaches_decoder [OF vl_frame [OF l1 p s x2 this]]
  show ?thesis by (intro exI conjI) (assumption, simp)
qed

end
