(* ===== verification/StreamWindow.thy ===== *)
theory StreamWindow
  imports StreamViewer RingBuffer
begin

text \<open>
  \<open>StreamWindow\<close> of \<open>src/src/client/StreamWindow.cpp\<close>: hands the packets of a stream to the viewer, the clock and the audio
  queue, waits for the user to close the PIN box, and plays the audio: one thread decodes packets into a ring buffer, the sound
  card's callback takes samples out.

  Samples are of any type; the callback fills up with \<open>zero\<close>. Opus is the parameter \<open>decode\<close>, which answers with a
  status and the samples it wrote; it is called with room for 5760 frames of two samples. Qt's signals that the window sends itself
  are a list.
\<close>

subsection \<open>Playing\<close>

definition AUDIO_SIZE :: nat where
  "AUDIO_SIZE = (case nextPowerOfTwo (5760 * 4) 64 1 of Some v \<Rightarrow> unat v | None \<Rightarrow> 0)"

definition MAX_FRAMES :: nat where
  "MAX_FRAMES = 5760"

record 'f player =
  pl_ring :: "'f ring_buffer"
  flagBufferUnderrun :: bool

text \<open>\<open>data_cb\<close>: the samples written to the output.\<close>

definition data_cb :: "'f \<Rightarrow> int \<Rightarrow> 'f player \<Rightarrow> ('f list \<times> 'f player) res" where
  "data_cb zero nframes p =
     (let requestedLength = wrap32 (nframes * 2);
          readAmount = min requestedLength (int (bufferSize (pl_ring p))) in
      rbind (read_arr AUDIO_SIZE (sz_of_int readAmount) (pl_ring p)) (\<lambda>(xs, rb).
        Inr (xs @ replicate (nat (requestedLength - readAmount)) zero,
             p\<lparr>pl_ring := rb, flagBufferUnderrun := (if readAmount < requestedLength then True else flagBufferUnderrun p)\<rparr>)))"

text \<open>The end of \<open>runAudio_\<close>'s loop: the oldest samples make room for the decoded ones.\<close>

definition store_samples :: "'f list \<Rightarrow> 'f player \<Rightarrow> 'f player res" where
  "store_samples pcm p =
     rbind (if available AUDIO_SIZE (pl_ring p) < length pcm
            then rb_drop AUDIO_SIZE (length pcm - available AUDIO_SIZE (pl_ring p)) (pl_ring p) else Inr (pl_ring p)) (\<lambda>rb.
     rbind (write_arr AUDIO_SIZE pcm rb) (\<lambda>rb'. Inr (p\<lparr>pl_ring := rb'\<rparr>)))"

subsection \<open>The window\<close>

datatype window_signal = ShowLater | CloseLater | DisplayPinLater int

record ('c, 'px) stream_window =
  sw_clock :: network_clock
  sw_viewer :: "('c, 'px) viewer"
  flagPlayAudio :: bool
  flagPinBoxClosed :: bool
  audioThread :: thread_state
  audioData :: "bytes list"
  sw_signals :: "window_signal list"

definition window_new :: "('c, 'px) viewer_env \<Rightarrow> int \<times> int \<Rightarrow> bool \<Rightarrow> ('c, 'px) stream_window res" where
  "window_new V ts playAudio =
     rbind (viewer_new V) (\<lambda>v.
     rbind (if playAudio then spawn_thread Idle else Inr Idle) (\<lambda>t.
       Inr \<lparr>sw_clock = nc_new (fst ts) (snd ts), sw_viewer = v, flagPlayAudio = playAudio, flagPinBoxClosed = False,
            audioThread = t, audioData = [], sw_signals = []\<rparr>))"

text \<open>The destructor after \<open>sc.disconnect()\<close>, up to its join and after it.\<close>

definition window_stop_audio :: "('c, 'px) stream_window \<Rightarrow> ('c, 'px) stream_window" where
  "window_stop_audio w = w\<lparr>flagPlayAudio := False\<rparr>"

definition window_destroy :: "bool \<Rightarrow> ('c, 'px) stream_window \<Rightarrow> ('c, 'px) stream_window res" where
  "window_destroy wasPlayingAudio w =
     (if wasPlayingAudio then rbind (join_or_throw (audioThread w)) (\<lambda>t. Inr (w\<lparr>audioThread := t\<rparr>)) else Inr w)"

text \<open>The receiving thread shows the PIN and waits; the window's thread opens the box and reports that it was closed.\<close>

definition pin_request :: "int \<Rightarrow> ('c, 'px) stream_window \<Rightarrow> ('c, 'px) stream_window" where
  "pin_request pin w = w\<lparr>flagPinBoxClosed := False, sw_signals := sw_signals w @ [DisplayPinLater pin]\<rparr>"

definition pin_wait :: "('c, 'px) stream_window \<Rightarrow> unit res" where
  "pin_wait w = (if flagPinBoxClosed w then Inr () else Inl Blocked)"

definition pin_box_closed :: "('c, 'px) stream_window \<Rightarrow> ('c, 'px) stream_window" where
  "pin_box_closed w = w\<lparr>flagPinBoxClosed := True\<rparr>"

text \<open>\<open>displayPin_\<close>: the text of the box, and what follows when the user has closed it.\<close>

definition pin_box_text :: "int \<Rightarrow> string" where
  "pin_box_text pin = ''Enter following pin in the server: '' @ displayPin (nat pin)"

definition displayPin_slot :: "int \<Rightarrow> ('c, 'px) stream_window \<Rightarrow> string \<times> ('c, 'px) stream_window" where
  "displayPin_slot pin w = (pin_box_text pin, pin_box_closed w)"

definition processStateChange :: "client_state \<Rightarrow> ('c, 'px) stream_window \<Rightarrow> ('c, 'px) stream_window" where
  "processStateChange newState w =
     (case newState of
        CONNECTED \<Rightarrow> w\<lparr>sw_signals := sw_signals w @ [ShowLater]\<rparr>
      | DISCONNECTED \<Rightarrow> w\<lparr>sw_signals := sw_signals w @ [CloseLater]\<rparr>
      | _ \<Rightarrow> w)"

text \<open>\<open>ts\<close> are the readings of the clock that the handlers make.\<close>

definition processNewPacket :: "('c, 'px) viewer_env \<Rightarrow> int \<times> int \<times> int \<Rightarrow> packet \<Rightarrow> bytes \<Rightarrow> ('c, 'px) stream_window \<Rightarrow>
    ('c, 'px) stream_window res" where
  "processNewPacket V ts pkt extraData w =
     (case body pkt of
        DesktopFrameMsg m \<Rightarrow>
          rbind (processDesktopFrame V ts pkt m extraData (sw_clock w, sw_viewer w)) (\<lambda>(clk, v).
            Inr (w\<lparr>sw_clock := clk, sw_viewer := v\<rparr>))
      | CursorShapeMsg m \<Rightarrow>
          rbind (processCursorShape V pkt m extraData (sw_viewer w)) (\<lambda>v. Inr (w\<lparr>sw_viewer := v\<rparr>))
      | PingResponse m \<Rightarrow>
          (case ts of (t0, t1, t2) \<Rightarrow>
             rbind (adjust t0 t1 t2 (ps_id m) (ps_time m) (sw_clock w)) (\<lambda>clk. Inr (w\<lparr>sw_clock := clk\<rparr>)))
      | AudioFrame ch b \<Rightarrow>
          (if \<not> flagPlayAudio w then Inr w
           else rbind (extra_bytes pkt extraData) (\<lambda>buf. Inr (w\<lparr>audioData := audioData w @ [buf]\<rparr>)))
      | _ \<Rightarrow> Inr w)"

text \<open>A round of \<open>runAudio_\<close>; after the loop the queue is cleared.\<close>

definition audio_round :: "('o \<Rightarrow> bytes \<Rightarrow> (int \<times> 'f list) \<times> 'o) \<Rightarrow> 'o \<times> 'f player \<times> ('c, 'px) stream_window \<Rightarrow>
    ('o \<times> 'f player \<times> ('c, 'px) stream_window) res" where
  "audio_round decode s =
     (case s of (o1, p, w) \<Rightarrow>
      if \<not> flagPlayAudio w then Inr (o1, p, w\<lparr>audioData := [], audioThread := Ended\<rparr>)
      else (case audioData w of
          [] \<Rightarrow> Inl Blocked
        | nowData # rest \<Rightarrow>
            (case decode o1 nowData of
               ((stat, pcm), o2) \<Rightarrow>
                 rbind (assert_quit (0 \<le> stat) ''Failed to decode opus stream'') (\<lambda>_.
                 rbind (store_samples (take (2 * nat stat) pcm) p) (\<lambda>p'. Inr (o2, p', w\<lparr>audioData := rest\<rparr>))))))"

text \<open>
  The head of \<open>runAudio_\<close>, which sets up COM, the Opus decoder and the sound card's stream. The answers of these
  libraries are the record \<open>audio_env\<close>; \<open>garbage\<close> is what the members of \<open>CubebUserData\<close> without an initialiser hold.
\<close>

record audio_env =
  au_com :: bool
  au_opus :: bool
  au_cubeb :: bool
  au_latency :: bool
  au_stream :: bool
  au_streamStart :: bool

definition audio_open :: "audio_env \<Rightarrow> 'f player \<Rightarrow> 'f player res" where
  "audio_open A garbage =
     rbind (assert_quit (au_com A) ''Failed to initialize COM in multithreaded mode'') (\<lambda>_.
     rbind (assert_quit (au_opus A) ''Failed to create opus decoder'') (\<lambda>_.
     rbind (assert_quit (au_cubeb A) ''Failed to intialize cubeb'') (\<lambda>_.
     rbind (assert_quit (au_latency A) ''Failed to get minimum latency of cubeb'') (\<lambda>_.
     rbind (assert_quit (au_stream A) ''Failed to init a cubeb stream'') (\<lambda>_.
     rbind (assert_quit (au_streamStart A) ''Failed to start cubeb stream'') (\<lambda>_.
       Inr (garbage\<lparr>pl_ring := rb_clear (pl_ring garbage)\<rparr>)))))))"

text \<open>
  While the PIN is shown the receiving thread waits, and nothing but the end of the box lets it go on: not a packet,
  not a change of state, not the destructor, which joins that thread first.
\<close>

lemma pin_waits:
  "pin_wait (pin_request pin w) = Inl Blocked"
  "processNewPacket V ts pkt extraData w = Inr w' \<Longrightarrow> pin_wait w' = pin_wait w"
  "pin_wait (processStateChange st w) = pin_wait w"
  "pin_wait (window_stop_audio w) = pin_wait w"
  "pin_wait (pin_box_closed w) = Inr ()"
  by (auto simp: pin_wait_def pin_request_def processNewPacket_def processStateChange_def window_stop_audio_def pin_box_closed_def rbind_eq_Inr
      split: msg.splits client_state.splits if_splits prod.splits)

subsection \<open>What is heard\<close>

lemma AUDIO_SIZE_eq: "AUDIO_SIZE = 32768"
proof -
  obtain k where k: "nextPowerOfTwo 23040 64 1 = Some (2 ^ k)" "23040 \<le> (2 :: nat) ^ k" "\<forall>m. 23040 \<le> (2 :: nat) ^ m \<longrightarrow> k \<le> m"
    using nextPowerOfTwo_least [of 23040] by (auto simp: word_le_nat_alt)
  have "k \<le> 15" using k(3) by simp
  moreover have "\<not> k \<le> 14"
  proof
    assume "k \<le> 14"
    then have "(2 :: nat) ^ k \<le> 2 ^ 14" by (intro power_increasing) simp_all
    with k(2) show False by simp
  qed
  ultimately have "k = 15" by simp
  with k(1) show ?thesis by (simp add: AUDIO_SIZE_def)
qed

text \<open>
  The specification: a queue of samples that keeps the newest \<open>AUDIO_SIZE\<close>; the callback takes from its front and
  gets silence for what is missing.
\<close>

datatype 'f audio_op = Decoded "'f list" | Callback int

fun spec_step :: "'f \<Rightarrow> 'f audio_op \<Rightarrow> 'f list \<Rightarrow> 'f list \<times> 'f list" where
  "spec_step zero (Decoded pcm) q = ([], drop (length q + length pcm - AUDIO_SIZE) (q @ pcm))"
| "spec_step zero (Callback n) q =
     (take (nat (2 * n)) q @ replicate (nat (2 * n) - length q) zero, drop (nat (2 * n)) q)"

fun player_step :: "'f \<Rightarrow> 'f audio_op \<Rightarrow> 'f player \<Rightarrow> ('f list \<times> 'f player) res" where
  "player_step zero (Decoded pcm) p = rbind (store_samples pcm p) (\<lambda>p'. Inr ([], p'))"
| "player_step zero (Callback n) p = data_cb zero n p"

fun run_spec :: "'f \<Rightarrow> 'f audio_op list \<Rightarrow> 'f list \<Rightarrow> 'f list list \<times> 'f list" where
  "run_spec zero [] q = ([], q)"
| "run_spec zero (x # xs) q =
     (let (out, q1) = spec_step zero x q; (outs, q2) = run_spec zero xs q1 in (out # outs, q2))"

fun run_player :: "'f \<Rightarrow> 'f audio_op list \<Rightarrow> 'f player \<Rightarrow> ('f list list \<times> 'f player) res" where
  "run_player zero [] p = Inr ([], p)"
| "run_player zero (x # xs) p =
     rbind (player_step zero x p) (\<lambda>(out, p1). rbind (run_player zero xs p1) (\<lambda>(outs, p2). Inr (out # outs, p2)))"

text \<open>What Opus and the sound card keep to: at most \<open>MAX_FRAMES\<close> frames of two samples, and a request that fits an \<open>int\<close>.\<close>

fun op_ok :: "'f audio_op \<Rightarrow> bool" where
  "op_ok (Decoded pcm) \<longleftrightarrow> length pcm \<le> 2 * MAX_FRAMES"
| "op_ok (Callback n) \<longleftrightarrow> 0 \<le> n \<and> n < 2 ^ 30"

lemma store_samples_spec:
  assumes inv: "rb_inv AUDIO_SIZE (pl_ring p)" and pcm: "length pcm \<le> 2 * MAX_FRAMES"
  shows "\<exists>p'. store_samples pcm p = Inr p' \<and> rb_inv AUDIO_SIZE (pl_ring p') \<and>
    rb_list AUDIO_SIZE (pl_ring p') = snd (spec_step zero (Decoded pcm) (rb_list AUDIO_SIZE (pl_ring p)))"
proof -
  let ?rb = "pl_ring p" and ?n = "length pcm"
  have le: "bufferSize ?rb \<le> AUDIO_SIZE" using rb_invD [OF inv] by simp
  then have av: "available AUDIO_SIZE ?rb = AUDIO_SIZE - bufferSize ?rb" by (simp add: available_def)
  have small: "?n \<le> AUDIO_SIZE" using pcm by (simp add: AUDIO_SIZE_eq MAX_FRAMES_def)
  let ?d = "bufferSize ?rb + ?n - AUDIO_SIZE"
  have "\<exists>rb. (if available AUDIO_SIZE ?rb < ?n then rb_drop AUDIO_SIZE (?n - available AUDIO_SIZE ?rb) ?rb else Inr ?rb) = Inr rb \<and>
    rb_inv AUDIO_SIZE rb \<and> rb_list AUDIO_SIZE rb = drop ?d (rb_list AUDIO_SIZE ?rb)"
  proof (cases "available AUDIO_SIZE ?rb < ?n")
    case True
    then have "?n - available AUDIO_SIZE ?rb = ?d" "?d \<le> bufferSize ?rb" using av le small by auto
    with rb_drop_list [OF inv, of ?d] True show ?thesis by auto
  next
    case False
    then have "?d = 0" using av le by simp
    with False inv show ?thesis by simp
  qed
  then obtain rb where rb: "(if available AUDIO_SIZE ?rb < ?n then rb_drop AUDIO_SIZE (?n - available AUDIO_SIZE ?rb) ?rb else Inr ?rb) = Inr rb"
    "rb_inv AUDIO_SIZE rb" "rb_list AUDIO_SIZE rb = drop ?d (rb_list AUDIO_SIZE ?rb)" by blast
  have "bufferSize rb = bufferSize ?rb - ?d" using arg_cong [OF rb(3), of length] by simp
  then have "bufferSize rb + ?n \<le> AUDIO_SIZE" using le small by simp
  from write_arr_list [OF rb(2) this] obtain rb' where w: "write_arr AUDIO_SIZE pcm rb = Inr rb'" "rb_inv AUDIO_SIZE rb'"
    "rb_list AUDIO_SIZE rb' = rb_list AUDIO_SIZE rb @ pcm" by blast
  have "?d \<le> bufferSize ?rb" using small by simp
  then have "snd (spec_step zero (Decoded pcm) (rb_list AUDIO_SIZE ?rb)) = drop ?d (rb_list AUDIO_SIZE ?rb) @ pcm" by simp
  then show ?thesis using rb w by (simp add: store_samples_def)
qed

lemma data_cb_spec:
  assumes inv: "rb_inv AUDIO_SIZE (pl_ring p)" and n: "0 \<le> n" "n < 2 ^ 30"
  shows "\<exists>p'. data_cb zero n p = Inr (fst (spec_step zero (Callback n) (rb_list AUDIO_SIZE (pl_ring p))), p') \<and>
    rb_inv AUDIO_SIZE (pl_ring p') \<and> rb_list AUDIO_SIZE (pl_ring p') = snd (spec_step zero (Callback n) (rb_list AUDIO_SIZE (pl_ring p)))"
proof -
  let ?rb = "pl_ring p"
  let ?r = "min (2 * n) (int (bufferSize ?rb))"
  have req: "wrap32 (n * 2) = 2 * n" using n by (simp add: wrap32_id fits32_def mult.commute)
  have le: "bufferSize ?rb \<le> AUDIO_SIZE" using rb_invD [OF inv] by simp
  have amount: "sz_of_int ?r = nat ?r" using n le by (simp add: AUDIO_SIZE_eq)
  have "nat ?r \<le> bufferSize ?rb" by simp
  from read_arr_list [OF inv this] obtain rb' where r: "read_arr AUDIO_SIZE (nat ?r) ?rb = Inr (take (nat ?r) (rb_list AUDIO_SIZE ?rb), rb')"
    "rb_inv AUDIO_SIZE rb'" "rb_list AUDIO_SIZE rb' = drop (nat ?r) (rb_list AUDIO_SIZE ?rb)" by blast
  have "take (nat ?r) (rb_list AUDIO_SIZE ?rb) = take (nat (2 * n)) (rb_list AUDIO_SIZE ?rb)"
    "drop (nat ?r) (rb_list AUDIO_SIZE ?rb) = drop (nat (2 * n)) (rb_list AUDIO_SIZE ?rb)"
    "nat (2 * n - ?r) = nat (2 * n) - bufferSize ?rb" by (auto simp: min_def)
  with r amount req show ?thesis by (simp add: data_cb_def Let_def)
qed

lemma player_step_spec:
  assumes "rb_inv AUDIO_SIZE (pl_ring p)" and "op_ok x"
  shows "\<exists>p'. player_step zero x p = Inr (fst (spec_step zero x (rb_list AUDIO_SIZE (pl_ring p))), p') \<and>
    rb_inv AUDIO_SIZE (pl_ring p') \<and> rb_list AUDIO_SIZE (pl_ring p') = snd (spec_step zero x (rb_list AUDIO_SIZE (pl_ring p)))"
proof (cases x)
  case (Decoded pcm)
  with store_samples_spec [OF assms(1), of pcm zero] assms(2) show ?thesis by auto
next
  case (Callback n)
  with data_cb_spec [OF assms(1), of n zero] assms(2) show ?thesis by auto
qed

text \<open>C15: playing never fails, and what is heard is what the specification says, for any order in which the decoder and the sound
  card come: the samples decoded last, at most \<open>AUDIO_SIZE\<close> of them, in order, each once, with silence where none are there.\<close>

theorem audio_playback:
  assumes "rb_inv AUDIO_SIZE (pl_ring p)" and "list_all op_ok xs"
  shows "\<exists>p'. run_player zero xs p = Inr (fst (run_spec zero xs (rb_list AUDIO_SIZE (pl_ring p))), p') \<and>
    rb_inv AUDIO_SIZE (pl_ring p') \<and> rb_list AUDIO_SIZE (pl_ring p') = snd (run_spec zero xs (rb_list AUDIO_SIZE (pl_ring p)))"
  using assms
proof (induction xs arbitrary: p)
  case (Cons x xs)
  obtain out q1 where s: "spec_step zero x (rb_list AUDIO_SIZE (pl_ring p)) = (out, q1)" by fastforce
  with player_step_spec [OF Cons.prems(1), of x zero] Cons.prems(2) obtain p1 where
    p1: "player_step zero x p = Inr (out, p1)" "rb_inv AUDIO_SIZE (pl_ring p1)" "rb_list AUDIO_SIZE (pl_ring p1) = q1" by auto
  from Cons.IH [OF p1(2)] Cons.prems(2) p1 s show ?case by (auto simp: split_def Let_def)
qed simp

definition sample_ring :: "nat ring_buffer" where
  "sample_ring = \<lparr>readPos = 0, bufferSize = 0, buffer = replicate AUDIO_SIZE 0\<rparr>"

lemma audio_playback_witness:
  "\<exists>p. run_player 0 [Decoded [1, 2, 3, 4], Callback 1, Callback 2] \<lparr>pl_ring = sample_ring, flagBufferUnderrun = False\<rparr> =
     Inr ([[], [1, 2], [3, 4, 0, 0]], p)"
proof -
  let ?p = "\<lparr>pl_ring = sample_ring, flagBufferUnderrun = False\<rparr>" and ?ops = "[Decoded [1 :: nat, 2, 3, 4], Callback 1, Callback 2]"
  have inv: "rb_inv AUDIO_SIZE (pl_ring ?p)" by (simp add: rb_inv_def sample_ring_def AUDIO_SIZE_eq SIZE_T_MOD_def)
  have ok: "list_all op_ok ?ops" by (simp add: MAX_FRAMES_def)
  have small: "Suc (Suc (Suc (Suc 0))) - AUDIO_SIZE = 0" by (simp add: AUDIO_SIZE_eq)
  have "rb_list AUDIO_SIZE (pl_ring ?p) = []" by (simp add: rb_list_def sample_ring_def)
  then have "run_spec 0 ?ops (rb_list AUDIO_SIZE (pl_ring ?p)) = ([[], [1, 2], [3, 4, 0, 0]], [])"
    using small by (simp add: numeral_eq_Suc)
  with audio_playback [OF inv ok, of 0] show ?thesis by (simp only: fst_conv) blast
qed

end
