(* ===== verification/CertStore.thy ===== *)
theory CertStore
  imports Util Pin
begin

text \<open>
  \<open>Keypair\<close> and \<open>CertStore\<close> of \<open>src/src/common/Keypair.cpp\<close> and \<open>CertStore.cpp\<close>: the RSA key pair and the self-signed
  certificate that both programs load or generate when they start.

  mbedtls is the record \<open>pk_lib\<close>. Its DER writers fill a block from its end: \<open>der_writer\<close> is what such a call
  answers for a block size and what it leaves in the part of the block in front of the DER. A file is the answer of the library's
  parser; what the program writes to a file is returned.
\<close>

datatype der_result = DerTooSmall | DerError int | DerWritten bytes

record der_writer =
  wr_result :: "nat \<Rightarrow> der_result"
  wr_scribble :: "nat \<Rightarrow> nat \<Rightarrow> cell"

subsection \<open>Serialising into a growing buffer\<close>

definition scribbled :: "der_writer \<Rightarrow> bytes \<Rightarrow> byte_buffer \<Rightarrow> byte_buffer" where
  "scribbled W ds b =
     b\<lparr>buf_ptr := Some (overwrite (block b) 0 (map (wr_scribble W (buf_size b)) [0..<buf_size b - length ds] @ map Some ds))\<rparr>"

partial_function (option) der_loop :: "(nat \<Rightarrow> bool) \<Rightarrow> der_writer \<Rightarrow> string \<Rightarrow> byte_buffer \<Rightarrow> (nat \<times> byte_buffer) res option" where
  "der_loop mem W msg b =
     (case wr_result W (buf_size b) of
        DerTooSmall \<Rightarrow>
          (case resize mem (sz_mul (buf_size b) 2) (scribbled W [] b) of
             Inl e \<Rightarrow> Some (Inl e)
           | Inr b' \<Rightarrow> der_loop mem W msg b')
      | DerError e \<Rightarrow> Some (error_quit msg)
      | DerWritten ds \<Rightarrow> Some (if length ds \<le> buf_size b then Inr (length ds, scribbled W ds b) else Inl Undef))"

text \<open>All writers begin with 512 bytes, move the DER to the front and cut the buffer; only some give the rest back.\<close>

definition export_der :: "bool \<Rightarrow> (nat \<Rightarrow> bool) \<Rightarrow> der_writer \<Rightarrow> string \<Rightarrow> byte_buffer res option" where
  "export_der shrink mem W msg =
     (case resize mem 512 bb_empty of
        Inl e \<Rightarrow> Some (Inl e)
      | Inr b \<Rightarrow>
          map_option (\<lambda>r. rbind r (\<lambda>(ret, der).
            rbind (rbind (shiftTowardBegin (buf_size der - ret) der) (resize mem ret)) (\<lambda>der1.
              if shrink then shrinkToFit mem der1 else Inr der1))) (der_loop mem W msg b))"

subsection \<open>Keypair\<close>

record 'k pk_lib =
  pk_empty :: 'k
  parse_keyfile :: "string \<Rightarrow> int \<times> 'k"
  parse_key :: "bytes \<Rightarrow> int \<times> 'k"
  parse_public_key :: "bytes \<Rightarrow> int \<times> 'k"
  pk_setup :: int
  rsa_gen_key :: "int \<times> 'k"
  key_der :: "'k \<Rightarrow> der_writer"
  pubkey_der :: "'k \<Rightarrow> der_writer"
  pk_sha256 :: "bytes \<Rightarrow> int \<times> bytes"
  pk_mem :: "nat \<Rightarrow> bool"
  file_opened :: bool
  file_accept :: "nat \<Rightarrow> nat \<Rightarrow> nat"

text \<open>\<open>bytes_of\<close> is what a library call reads from the buffer; a byte nobody wrote makes the call undefined.\<close>

definition bytes_of :: "byte_buffer \<Rightarrow> bytes res" where
  "bytes_of b = (if list_all (\<lambda>c. c \<noteq> None) (bb_cells b) then Inr (map the (bb_cells b)) else Inl Undef)"

definition privkey :: "'k pk_lib \<Rightarrow> 'k \<Rightarrow> byte_buffer res option" where
  "privkey L k = export_der True (pk_mem L) (key_der L k) ''Failed to serialize private key: {}''"

definition pubkey :: "'k pk_lib \<Rightarrow> 'k \<Rightarrow> byte_buffer res option" where
  "pubkey L k = export_der True (pk_mem L) (pubkey_der L k) ''Failed to serialize public key: {}''"

text \<open>The key and what is written to the file, if anything is.\<close>

definition loadOrGenerate :: "'k pk_lib \<Rightarrow> string \<Rightarrow> ('k \<times> cell list option) res option" where
  "loadOrGenerate L filename =
     (case parse_keyfile L filename of
        (ret, k) \<Rightarrow>
          if 0 \<le> ret then Some (Inr (k, None))
          else if pk_setup L < 0 then Some (error_quit ''Failed to setup pk: {}'')
          else (case rsa_gen_key L of
              (ret, k) \<Rightarrow>
                if ret < 0 then Some (error_quit ''Failed to generate RSA keypair: {}'')
                else map_option (\<lambda>r. rbind r (\<lambda>der.
                       rbind (writeByteBuffer (file_opened L) (file_accept L) der) (\<lambda>(status, cells). Inr (k, Some cells))))
                     (export_der False (pk_mem L) (key_der L k) ''Failed to serialize pk: {}'')))"

definition kp_parse :: "'k pk_lib \<Rightarrow> byte_buffer \<Rightarrow> (bool \<times> 'k) res" where
  "kp_parse L key = rbind (bytes_of key) (\<lambda>bs. case parse_key L bs of (ret, k) \<Rightarrow> Inr (0 \<le> ret, k))"

definition kp_parsePubkey :: "'k pk_lib \<Rightarrow> byte_buffer \<Rightarrow> (bool \<times> 'k) res" where
  "kp_parsePubkey L key = rbind (bytes_of key) (\<lambda>bs. case parse_public_key L bs of (ret, k) \<Rightarrow> Inr (0 \<le> ret, k))"

definition fingerprintSHA256 :: "'k pk_lib \<Rightarrow> 'k \<Rightarrow> byte_buffer res option" where
  "fingerprintSHA256 L k =
     map_option (\<lambda>r. rbind r (\<lambda>key. rbind (bytes_of key) (\<lambda>bs.
       case pk_sha256 L bs of
         (ret, h) \<Rightarrow>
           rbind (assert_quit (0 \<le> ret) ''Failed to compute SHA-265 fingerprint: {}'') (\<lambda>_.
           rbind (resize (pk_mem L) 32 bb_empty) (\<lambda>hash. copy_into hash 0 (map Some (take 32 h))))))) (pubkey L k)"

subsection \<open>CertStore\<close>

record 'k crt_request =
  rq_subject :: string
  rq_issuer :: string
  rq_subject_key :: 'k
  rq_issuer_key :: 'k
  rq_serial :: string
  rq_not_before :: string
  rq_not_after :: string
  rq_ca :: bool
  rq_pathlen :: int

record ('k, 'c) crt_lib =
  crt_empty :: 'c
  crt_parse_file :: "string \<Rightarrow> int \<times> 'c"
  crt_parse_der :: "bytes \<Rightarrow> int \<times> 'c"
  crt_key :: "'c \<Rightarrow> 'k"
  crt_raw :: "'c \<Rightarrow> bytes"
  crt_dn_gets :: "'c \<Rightarrow> nat \<Rightarrow> int \<times> string"
  check_pair :: "'k \<Rightarrow> 'k \<Rightarrow> int"
  rq_accepts :: "'k crt_request \<Rightarrow> int"
  rq_der :: "'k crt_request \<Rightarrow> der_writer"

record tm =
  tm_year :: int
  tm_mon :: nat
  tm_mday :: nat
  tm_hour :: nat
  tm_min :: nat
  tm_sec :: nat

definition two_digits :: "nat \<Rightarrow> string" where
  "two_digits v = [digit (v div 10 mod 10), digit (v mod 10)]"

text \<open>\<open>strftime\<close> with the format of the validity, for years of four digits.\<close>

definition stamp :: "tm \<Rightarrow> string" where
  "stamp t = four_digits (nat (tm_year t + 1900)) @ two_digits (tm_mon t + 1) @ two_digits (tm_mday t)
     @ two_digits (tm_hour t) @ two_digits (tm_min t) @ two_digits (tm_sec t)"

definition request_of :: "tm \<Rightarrow> string \<Rightarrow> string \<Rightarrow> 'k \<Rightarrow> 'k \<Rightarrow> 'k crt_request" where
  "request_of now subjectName issuerName subjectKey issuerKey =
     (let isSelfsign = (subjectName = issuerName);
          t = (if tm_sec now > 59 then now\<lparr>tm_sec := 59\<rparr> else now)
      in \<lparr>rq_subject = subjectName, rq_issuer = issuerName, rq_subject_key = subjectKey, rq_issuer_key = issuerKey,
          rq_serial = ''1'', rq_not_before = stamp t, rq_not_after = stamp (t\<lparr>tm_year := tm_year t + 500\<rparr>),
          rq_ca = isSelfsign, rq_pathlen = (if isSelfsign then 2 else -1)\<rparr>)"

text \<open>\<open>rq_accepts\<close> is the first negative status among the setters, each of which is asserted.\<close>

definition genCert :: "'k pk_lib \<Rightarrow> ('k, 'c) crt_lib \<Rightarrow> tm \<Rightarrow> string \<Rightarrow> string \<Rightarrow> 'k \<Rightarrow> 'k \<Rightarrow> byte_buffer res option" where
  "genCert L C now subjectName issuerName subjectKey issuerKey =
     (let rq = request_of now subjectName issuerName subjectKey issuerKey in
      if rq_accepts C rq < 0 then Some (error_quit ''Failed to set a field: {}'')
      else export_der True (pk_mem L) (rq_der C rq) ''Failed to serialize X.509 certificate: {}'')"

record ('k, 'c) cert_store =
  cs_cert :: 'c
  cs_keypair :: "'k option"

definition cs_new :: "('k, 'c) crt_lib \<Rightarrow> ('k, 'c) cert_store" where
  "cs_new C = \<lparr>cs_cert = crt_empty C, cs_keypair = None\<rparr>"

definition loadKey :: "'k \<Rightarrow> ('k, 'c) cert_store \<Rightarrow> ('k, 'c) cert_store" where
  "loadKey k s = s\<lparr>cs_keypair := Some k\<rparr>"

definition subject_of :: "string \<Rightarrow> string" where
  "subject_of fingerprint = ''O=twilight,OU='' @ fingerprint @ '',CN='' @ ''localhost''"

text \<open>The status after the file was parsed and its key compared; the file \<open>cert.der\<close> that is written whatever file was asked for.\<close>

definition cert_status :: "('k, 'c) crt_lib \<Rightarrow> string \<Rightarrow> 'k \<Rightarrow> int \<times> 'c" where
  "cert_status C filename k =
     (case crt_parse_file C filename of (ret, c) \<Rightarrow> (if ret = 0 then check_pair C (crt_key C c) k else ret, c))"

definition loadCert :: "'k pk_lib \<Rightarrow> ('k, 'c) crt_lib \<Rightarrow> tm \<Rightarrow> string \<Rightarrow> ('k, 'c) cert_store \<Rightarrow>
    (('k, 'c) cert_store \<times> (string \<times> cell list) option) res option" where
  "loadCert L C now filename s =
     (case cs_keypair s of
        None \<Rightarrow> Some (error_quit ''Unable to generate certificate from an empty keypair!'')
      | Some k \<Rightarrow>
          (case cert_status C filename k of
             (ret, c) \<Rightarrow>
               if 0 \<le> ret then Some (Inr (s\<lparr>cs_cert := c\<rparr>, None))
               else Option.bind (fingerprintSHA256 L k) (\<lambda>r.
                 case rbind r intoHexString of
                   Inl e \<Rightarrow> Some (Inl e)
                 | Inr hex \<Rightarrow>
                     map_option (\<lambda>g. rbind g (\<lambda>der. rbind (bytes_of der) (\<lambda>bs.
                       case crt_parse_der C bs of
                         (ret, c) \<Rightarrow>
                           rbind (assert_quit (0 \<le> ret) ''Failed to read generated certificate'') (\<lambda>_.
                           rbind (writeByteBuffer (file_opened L) (file_accept L) der) (\<lambda>(ok, cells).
                             Inr (s\<lparr>cs_cert := c\<rparr>, Some (''cert.der'', cells)))))))
                     (genCert L C now (subject_of hex) (subject_of hex) k k))))"

definition cs_der :: "'k pk_lib \<Rightarrow> ('k, 'c) crt_lib \<Rightarrow> ('k, 'c) cert_store \<Rightarrow> byte_buffer res" where
  "cs_der L C s = append_raw (pk_mem L) (map Some (crt_raw C (cs_cert s))) bb_empty"

text \<open>The issuer's name, in a buffer of \<open>size\<close> characters that is doubled until the name leaves room in it.\<close>

partial_function (option) dn_loop :: "'k pk_lib \<Rightarrow> ('k, 'c) crt_lib \<Rightarrow> 'c \<Rightarrow> nat \<Rightarrow> string res option" where
  "dn_loop L C c bufSize =
     (case crt_dn_gets C c bufSize of
        (ret, name) \<Rightarrow>
          if ret < 0 then Some (error_quit ''Failed to get DN'')
          else if bufSize - 1 \<le> nat ret
          then (if \<not> pk_mem L (sz_mul bufSize 2) then Some (error_quit ''Failed to allocate memory'')
                else dn_loop L C c (sz_mul bufSize 2))
          else Some (Inr (take (nat ret) name)))"

definition signCert :: "'k pk_lib \<Rightarrow> ('k, 'c) crt_lib \<Rightarrow> tm \<Rightarrow> string \<Rightarrow> 'k \<Rightarrow> ('k, 'c) cert_store \<Rightarrow> byte_buffer res option" where
  "signCert L C now subjectName subjectKey s =
     Option.bind (dn_loop L C (cs_cert s) 128) (\<lambda>r.
       case r of
         Inl e \<Rightarrow> Some (Inl e)
       | Inr issuerName \<Rightarrow>
           (case cs_keypair s of
              None \<Rightarrow> Some (Inl Undef)
            | Some k \<Rightarrow> genCert L C now subjectName issuerName subjectKey k))"

subsection \<open>A DER is exported as it is\<close>

text \<open>What mbedtls documents of its writers: a block that is large enough gets the DER at its end.\<close>

definition writes_der :: "der_writer \<Rightarrow> bytes \<Rightarrow> bool" where
  "writes_der W der \<longleftrightarrow> (\<forall>n. wr_result W n = (if length der \<le> n then DerWritten der else DerTooSmall))"

lemma scribbled_tail:
  assumes "bb_inv b" and "length der \<le> buf_size b"
  shows "bb_inv (scribbled W der b) \<and> buf_size (scribbled W der b) = buf_size b \<and>
    drop (buf_size b - length der) (take (buf_size b) (block (scribbled W der b))) = map Some der"
  using assms by (auto simp: scribbled_def bb_inv_def overwrite_def)

lemma der_loop_ok:
  assumes "writes_der W der" and "grants mem (2 * length der)" and "2 * length der < SIZE_T_MOD"
    and "bb_inv b" and "0 < buf_size b"
  shows "\<exists>b'. der_loop mem W msg b = Some (Inr (length der, b')) \<and> bb_inv b' \<and> length der \<le> buf_size b' \<and>
    drop (buf_size b' - length der) (take (buf_size b') (block b')) = map Some der"
  using assms(4,5)
proof (induction "length der - buf_size b" arbitrary: b rule: less_induct)
  case less
  show ?case
  proof (cases "length der \<le> buf_size b")
    case True
    then show ?thesis using assms(1) less.prems scribbled_tail [of b der W]
      by (subst der_loop.simps) (simp add: writes_der_def)
  next
    case False
    let ?n = "buf_size b * 2"
    have n: "sz_mul (buf_size b) 2 = ?n" using False assms(3) by (intro sz_mul_small) simp
    have inv: "bb_inv (scribbled W [] b)" using scribbled_tail [of b "[]" W] less.prems by simp
    have "grants mem ?n" using assms(2) False by (auto simp: grants_def)
    then obtain b1 where b1: "resize mem ?n (scribbled W [] b) = Inr b1" using resize_total by blast
    from resize_size [OF inv b1] have s: "bb_inv b1" "buf_size b1 = ?n" by auto
    have "length der - buf_size b1 < length der - buf_size b" using False less.prems(2) s(2) by linarith
    from less.hyps [OF this s(1)] s(2) less.prems(2)
    obtain b' where "der_loop mem W msg b1 = Some (Inr (length der, b'))" "bb_inv b'" "length der \<le> buf_size b'"
      "drop (buf_size b' - length der) (take (buf_size b') (block b')) = map Some der" by auto
    then show ?thesis using assms(1) False n b1 by (subst der_loop.simps) (simp add: writes_der_def)
  qed
qed

lemma export_der_ok:
  assumes "writes_der W der" and "der \<noteq> []" and "grants mem (max 512 (2 * length der))" and "2 * length der < SIZE_T_MOD"
  shows "\<exists>b. export_der shrink mem W msg = Some (Inr b) \<and> bb_holds b der"
proof -
  have g: "grants mem 512" "grants mem (2 * length der)" using assms(3) by (auto simp: grants_def)
  obtain b0 where b0: "resize mem 512 bb_empty = Inr b0" using resize_total [OF g(1)] by blast
  from resize_size [OF bb_empty_inv b0] have i: "bb_inv b0" "0 < buf_size b0" by auto
  obtain b1 where b1: "der_loop mem W msg b0 = Some (Inr (length der, b1))" "bb_inv b1" "length der \<le> buf_size b1"
    "drop (buf_size b1 - length der) (take (buf_size b1) (block b1)) = map Some der"
    using der_loop_ok [OF assms(1) g(2) assms(4) i] by blast
  obtain b2 where b2: "rbind (shiftTowardBegin (buf_size b1 - length der) b1) (resize mem (length der)) = Inr b2" "bb_holds b2 der"
    using der_tail_holds [OF b1(2) _ b1(3) b1(4)] assms(2) by (cases der) auto
  have "mem (length der)" using g(2) by (simp add: grants_def)
  from shrinkToFit_holds [where mem = mem, OF b2(2) assms(2) this] obtain b3 where "shrinkToFit mem b2 = Inr b3" "bb_holds b3 der" by blast
  with b0 b1(1) b2 show ?thesis by (cases shrink) (simp_all add: export_der_def)
qed

lemma bytes_of_holds: "bb_holds b xs \<Longrightarrow> bytes_of b = Inr xs"
  by (simp add: bytes_of_def bb_holds_def list_all_iff comp_def)

text \<open>C30: exporting a key or a certificate returns: whatever its size is, the growing buffer ends up large enough, and
  what is returned is exactly the DER, with nothing of what the library left in front of it.\<close>

theorem export_exact:
  assumes "writes_der W der" and "der \<noteq> []" and "grants mem (max 512 (2 * length der))" and "2 * length der < SIZE_T_MOD"
  shows "\<exists>b. export_der shrink mem W msg = Some (Inr b) \<and> bb_holds b der \<and> bytes_of b = Inr der"
  using export_der_ok [OF assms] bytes_of_holds by blast

lemma copy_new_holds:
  assumes "grants mem (length xs)" and "xs \<noteq> []"
  shows "\<exists>b. rbind (resize mem (length xs) bb_empty) (\<lambda>hash. copy_into hash 0 (map Some xs)) = Inr b \<and> bb_holds b xs"
proof -
  obtain b0 where b0: "resize mem (length xs) bb_empty = Inr b0" using resize_total [OF assms(1)] by blast
  from resize_size [OF bb_empty_inv b0] have i: "bb_inv b0" "buf_size b0 = length xs" by auto
  then have len: "length xs \<le> length (block b0)" by (simp add: bb_inv_def)
  let ?b = "b0\<lparr>buf_ptr := Some (overwrite (block b0) 0 (map Some xs))\<rparr>"
  have "copy_into b0 0 (map Some xs) = Inr ?b" using assms(2) len by (simp add: copy_into_def)
  moreover have "bb_holds ?b xs" using i len by (simp add: bb_holds_def bb_inv_def bb_cells_def overwrite_def)
  ultimately show ?thesis using b0 by simp
qed

lemma fingerprint_ok:
  assumes "writes_der (pubkey_der L k) pk" and "pk \<noteq> []" and "grants (pk_mem L) (max 512 (2 * length pk))" and "2 * length pk < SIZE_T_MOD"
    and "pk_sha256 L pk = (0, h)" and "length h = 32"
  shows "\<exists>b. fingerprintSHA256 L k = Some (Inr b) \<and> bb_holds b h"
proof -
  obtain key where key: "pubkey L k = Some (Inr key)" "bb_holds key pk"
    using export_der_ok [OF assms(1-4)] unfolding pubkey_def by blast
  have "grants (pk_mem L) (length h)" "h \<noteq> []" using assms(3,6) by (auto simp: grants_def)
  from copy_new_holds [OF this] assms(6) obtain b where
    "rbind (resize (pk_mem L) 32 bb_empty) (\<lambda>hash. copy_into hash 0 (map Some h)) = Inr b" "bb_holds b h" by auto
  then show ?thesis using key bytes_of_holds [OF key(2)] assms(5,6) by (simp add: fingerprintSHA256_def)
qed

text \<open>C21: starting always leaves a certificate for the key. When the file is missing, unreadable or made for another key, \<open>loadCert\<close>
  returns with a new self-signed certificate that carries the fingerprint of the public key as its unit, is a certificate
  authority, and is valid for 500 years from now; what is written to \<open>cert.der\<close> is its DER or, when the disk fails, a prefix of it.\<close>

theorem cert_ready:
  assumes k: "cs_keypair s = Some k" and st: "cert_status C filename k = (ret, c)" "ret < 0"
    and pub: "writes_der (pubkey_der L k) pk" "pk \<noteq> []" "pk_sha256 L pk = (0, h)" "length h = 32"
    and rq: "rq = request_of now (subject_of (hex_of h)) (subject_of (hex_of h)) k k" "0 \<le> rq_accepts C rq"
      "writes_der (rq_der C rq) der" "der \<noteq> []" "crt_parse_der C der = (0, c')"
    and mem: "grants (pk_mem L) (max 512 (2 * max (length pk) (length der)))" "2 * max (length pk) (length der) < SIZE_T_MOD"
    and disk: "file_opened L" "fwrite_ok (file_accept L)"
  shows "\<exists>n. loadCert L C now filename s = Some (Inr (s\<lparr>cs_cert := c'\<rparr>, Some (''cert.der'', map Some (take n der)))) \<and>
    rq_subject rq = ''O=twilight,OU='' @ hex_of h @ '',CN=localhost'' \<and> rq_issuer rq = rq_subject rq \<and>
    rq_subject_key rq = k \<and> rq_issuer_key rq = k \<and> rq_ca rq \<and> rq_pathlen rq = 2 \<and>
    (tm_sec now \<le> 59 \<longrightarrow> rq_not_before rq = stamp now \<and> rq_not_after rq = stamp (now\<lparr>tm_year := tm_year now + 500\<rparr>))"
proof -
  have g: "grants (pk_mem L) (max 512 (2 * length pk))" "grants (pk_mem L) (max 512 (2 * length der))"
    "2 * length pk < SIZE_T_MOD" "2 * length der < SIZE_T_MOD"
    using mem by (auto simp: grants_def)
  obtain fp where fp: "fingerprintSHA256 L k = Some (Inr fp)" "bb_holds fp h"
    using fingerprint_ok [OF pub(1,2) g(1,3) pub(3,4)] by blast
  obtain b where b: "export_der True (pk_mem L) (rq_der C rq) ''Failed to serialize X.509 certificate: {}'' = Some (Inr b)" "bb_holds b der"
    using export_der_ok [OF rq(3,4) g(2,4)] by blast
  obtain n where n: "writeByteBuffer True (file_accept L) b = Inr (n = length der, map Some (take n der))"
    using writeByteBuffer_flag [OF disk(2) b(2)] by blast
  have "genCert L C now (subject_of (hex_of h)) (subject_of (hex_of h)) k k = Some (Inr b)"
    using b(1) rq(1,2) by (simp add: genCert_def Let_def)
  then have "loadCert L C now filename s = Some (Inr (s\<lparr>cs_cert := c'\<rparr>, Some (''cert.der'', map Some (take n der))))"
    using k st fp(1) intoHexString_holds [OF fp(2)] bytes_of_holds [OF b(2)] rq(5) disk(1) n
    by (simp add: loadCert_def split_def)
  moreover have "now\<lparr>tm_sec := tm_sec now\<rparr> = now" by simp
  ultimately show ?thesis by (auto simp: rq(1) request_of_def subject_of_def Let_def)
qed

text \<open>What mbedtls documents of \<open>mbedtls_x509_dn_gets\<close>: the length of the name, or a negative status when the name and its
  terminator do not fit. So the loop that doubles the buffer never gets to do it for a longer name.\<close>

definition gets_dn :: "('k, 'c) crt_lib \<Rightarrow> 'c \<Rightarrow> string \<Rightarrow> bool" where
  "gets_dn C c name \<longleftrightarrow> (\<forall>n. crt_dn_gets C c n = (if length name < n then (int (length name), name) else (-1, [])))"

lemma long_issuer_fatal:
  assumes "gets_dn C (cs_cert s) name"
  shows "length name < 127 \<Longrightarrow> dn_loop L C (cs_cert s) 128 = Some (Inr name)"
    and "128 \<le> length name \<Longrightarrow> signCert L C now subject key s = Some (error_quit ''Failed to get DN'')"
proof -
  have g: "crt_dn_gets C (cs_cert s) 128 = (if length name < 128 then (int (length name), name) else (-1, []))"
    using assms by (simp add: gets_dn_def)
  show "length name < 127 \<Longrightarrow> dn_loop L C (cs_cert s) 128 = Some (Inr name)" by (subst dn_loop.simps) (simp add: g)
  assume "128 \<le> length name"
  then have "dn_loop L C (cs_cert s) 128 = Some (error_quit ''Failed to get DN'')" by (subst dn_loop.simps) (simp add: g)
  then show "signCert L C now subject key s = Some (error_quit ''Failed to get DN'')" by (simp add: signCert_def error_quit_def)
qed

subsection \<open>Samples\<close>

definition sample_writer :: "bytes \<Rightarrow> der_writer" where
  "sample_writer ds = \<lparr>wr_result = (\<lambda>n. if length ds \<le> n then DerWritten ds else DerTooSmall), wr_scribble = (\<lambda>_ _. Some 7)\<rparr>"

lemma sample_writes [simp]: "writes_der (sample_writer ds) ds"
  by (simp add: writes_der_def sample_writer_def)

lemma export_exact_witness:
  "\<exists>b. export_der True (\<lambda>n. n \<le> 4096) (sample_writer (replicate 1200 5)) ''failed'' = Some (Inr b) \<and> bytes_of b = Inr (replicate 1200 5)"
proof -
  have "grants (\<lambda>n. n \<le> 4096) (max 512 (2 * length (replicate 1200 (5 :: u8))))" by (auto simp: grants_def)
  moreover have "2 * length (replicate 1200 (5 :: u8)) < SIZE_T_MOD" by (simp add: SIZE_T_MOD_def)
  moreover have "replicate 1200 (5 :: u8) \<noteq> []" unfolding replicate_empty by simp
  ultimately show ?thesis using export_exact [OF sample_writes] by blast
qed

definition sample_pk_lib :: "nat pk_lib" where
  "sample_pk_lib = \<lparr>pk_empty = 0, parse_keyfile = (\<lambda>_. (-1, 0)), parse_key = (\<lambda>_. (0, 1)), parse_public_key = (\<lambda>_. (0, 1)),
     pk_setup = 0, rsa_gen_key = (0, 1), key_der = (\<lambda>_. sample_writer [1]), pubkey_der = (\<lambda>_. sample_writer [2]),
     pk_sha256 = (\<lambda>_. (0, replicate 32 3)), pk_mem = (\<lambda>_. True), file_opened = True, file_accept = (\<lambda>_ n. n)\<rparr>"

definition sample_crt_lib :: "(nat, nat) crt_lib" where
  "sample_crt_lib = \<lparr>crt_empty = 0, crt_parse_file = (\<lambda>_. (-1, 0)), crt_parse_der = (\<lambda>bs. (0, length bs)), crt_key = (\<lambda>_. 1),
     crt_raw = (\<lambda>_. []), crt_dn_gets = (\<lambda>_ _. (0, [])), check_pair = (\<lambda>_ _. 0), rq_accepts = (\<lambda>_. 0),
     rq_der = (\<lambda>_. sample_writer [4, 5, 6])\<rparr>"

lemma cert_ready_witness:
  "\<exists>n. loadCert sample_pk_lib sample_crt_lib \<lparr>tm_year = 120, tm_mon = 0, tm_mday = 1, tm_hour = 0, tm_min = 0, tm_sec = 0\<rparr> ''cert.der''
     \<lparr>cs_cert = 0, cs_keypair = Some 1\<rparr> = Some (Inr (\<lparr>cs_cert = 3, cs_keypair = Some 1\<rparr>, Some (''cert.der'', map Some (take n [4, 5, 6]))))"
proof -
  let ?now = "\<lparr>tm_year = 120, tm_mon = 0, tm_mday = 1, tm_hour = 0, tm_min = 0, tm_sec = 0\<rparr>"
  let ?s = "\<lparr>cs_cert = 0, cs_keypair = Some 1\<rparr> :: (nat, nat) cert_store"
  have facts: "cs_keypair ?s = Some 1" "cert_status sample_crt_lib ''cert.der'' 1 = (-1, 0)" "(-1 :: int) < 0"
    "writes_der (pubkey_der sample_pk_lib 1) [2]" "[2 :: u8] \<noteq> []" "pk_sha256 sample_pk_lib [2] = (0, replicate 32 3)"
    "length (replicate 32 (3 :: u8)) = 32"
    by (simp_all add: sample_pk_lib_def sample_crt_lib_def cert_status_def)
  have more': "0 \<le> rq_accepts sample_crt_lib rq" "writes_der (rq_der sample_crt_lib rq) [4, 5, 6]" "[4 :: u8, 5, 6] \<noteq> []"
    "crt_parse_der sample_crt_lib [4, 5, 6] = (0, 3)" for rq by (simp_all add: sample_crt_lib_def)
  have rest: "grants (pk_mem sample_pk_lib) (max 512 (2 * max (length [2 :: u8]) (length [4 :: u8, 5, 6])))"
    "2 * max (length [2 :: u8]) (length [4 :: u8, 5, 6]) < SIZE_T_MOD" "file_opened sample_pk_lib" "fwrite_ok (file_accept sample_pk_lib)"
    by (simp_all add: sample_pk_lib_def grants_def SIZE_T_MOD_def fwrite_ok_def)
  show ?thesis using cert_ready [OF facts refl more' rest, of ?now] by auto
qed

end
