(* ===== verification/NetworkServer.thy ===== *)
theory NetworkServer
  imports CertStore NetworkSocket
begin

text \<open>
  \<open>NetworkServer\<close> of \<open>src/src/common/net/NetworkServer.cpp\<close>: the TLS configuration of the host and the thread that accepts
  connections.

  mbedtls and the operating system are the record \<open>net_lib\<close>. A call of \<open>accept\<close> that has not returned is \<open>Blocked\<close>; freeing the
  listening socket makes it return with an error. \<open>flagListen\<close> is not initialised by the constructor, so its first value is
  an argument of it. The connections handed to the callback are counted.
\<close>

record net_lib =
  nl_ciphersuite :: "string \<Rightarrow> int option"
  nl_seed :: int
  nl_own_cert :: int

datatype accept_result = Accepted | Accept_failed | Accept_waits

definition SERVER_CIPHERS :: "string list" where
  "SERVER_CIPHERS =
    [''TLS-ECDHE-ECDSA-WITH-CHACHA20-POLY1305-SHA256'',
     ''TLS-ECDHE-RSA-WITH-CHACHA20-POLY1305-SHA256'',
     ''TLS-ECDHE-ECDSA-WITH-AES-128-GCM-SHA256'',
     ''TLS-ECDHE-RSA-WITH-AES-128-GCM-SHA256'',
     ''TLS-ECDHE-ECDSA-WITH-AES-256-GCM-SHA384'',
     ''TLS-ECDHE-RSA-WITH-AES-256-GCM-SHA384'',
     ''TLS-DHE-RSA-WITH-CHACHA20-POLY1305-SHA256'',
     ''TLS-DHE-RSA-WITH-AES-128-GCM-SHA256'',
     ''TLS-DHE-RSA-WITH-AES-256-GCM-SHA384'']"

text \<open>The one string the code splits at the colons.\<close>

definition ALLOWED_STRING :: string where
  "ALLOWED_STRING = join_with CHR '':'' SERVER_CIPHERS"

record network_server =
  flagListen :: bool
  listenThread :: thread_state
  ns_bound :: bool
  ns_ciphersuites :: "int list"
  ns_connections :: nat

definition ciphersuites :: "net_lib \<Rightarrow> string \<Rightarrow> int list" where
  "ciphersuites N names =
     concat (map (\<lambda>slice. case nl_ciphersuite N slice of Some i \<Rightarrow> [i] | None \<Rightarrow> []) (stringSplit names CHR '':'')) @ [0]"

definition ns_new :: "net_lib \<Rightarrow> bool \<Rightarrow> network_server res" where
  "ns_new N garbage =
     (let ids = ciphersuites N ALLOWED_STRING in
      rbind (assert_quit (0 \<le> nl_seed N) ''Failed to seed ctr_drbg: {}'') (\<lambda>_.
      rbind (assert_quit (0 \<le> nl_own_cert N) ''Failde to set own cert: {}'') (\<lambda>_.
        Inr \<lparr>flagListen = garbage, listenThread = Idle, ns_bound = False, ns_ciphersuites = ids, ns_connections = 0\<rparr>)))"

definition startListen :: "int \<Rightarrow> network_server \<Rightarrow> network_server res" where
  "startListen bind' s =
     (let prev = flagListen s; s1 = s\<lparr>flagListen := True\<rparr> in
      rbind (assert_quit (\<not> prev) ''Starting listening again when already listening'') (\<lambda>_.
      rbind (assert_quit (0 \<le> bind') ''Failed to bind socket'') (\<lambda>_.
      rbind (join_thread (listenThread s1)) (\<lambda>t.
      rbind (spawn_thread t) (\<lambda>t'. Inr (s1\<lparr>ns_bound := True, listenThread := t'\<rparr>))))))"

text \<open>A round of the accepting thread; on a socket that was freed \<open>accept\<close> fails.\<close>

definition accept_round :: "accept_result \<Rightarrow> network_server \<Rightarrow> network_server res" where
  "accept_round r s =
     (if \<not> flagListen s then Inr (s\<lparr>listenThread := Ended\<rparr>)
      else (case (if ns_bound s then r else Accept_failed) of
          Accept_waits \<Rightarrow> Inl Blocked
        | Accept_failed \<Rightarrow> Inr (s\<lparr>listenThread := Ended\<rparr>)
        | Accepted \<Rightarrow> Inr (s\<lparr>ns_connections := ns_connections s + 1\<rparr>)))"

text \<open>\<open>stopListen\<close> and the destructor, up to the join and after it.\<close>

definition listen_stop :: "network_server \<Rightarrow> network_server" where
  "listen_stop s = s\<lparr>flagListen := False, ns_bound := False\<rparr>"

definition listen_join :: "network_server \<Rightarrow> network_server res" where
  "listen_join s = rbind (join_thread (listenThread s)) (\<lambda>t. Inr (s\<lparr>listenThread := t\<rparr>))"

definition stopListen :: "network_server \<Rightarrow> network_server res" where
  "stopListen s = listen_join (listen_stop s)"

definition ns_destroy :: "network_server \<Rightarrow> network_server res" where
  "ns_destroy s = listen_join (listen_stop s)"

text \<open>
  Built with \<open>TWILIGHT_WRITE_SSLKEYLOG\<close>, the server writes the secrets of each session to a file, in the format other tools read.
  A file that cannot be opened is a null pointer given to \<open>fprintf\<close>.
\<close>

definition exportKeysCb :: "(nat \<Rightarrow> bool) \<Rightarrow> bool \<Rightarrow> bytes \<Rightarrow> bytes \<Rightarrow> string res" where
  "exportKeysCb mem opened ms client_random =
     rbind (append_raw mem (map Some (take 32 client_random)) bb_empty) (\<lambda>clientRandom.
     rbind (append_raw mem (map Some (take 48 ms)) bb_empty) (\<lambda>masterKey.
     rbind (intoHexString clientRandom) (\<lambda>r.
     rbind (intoHexString masterKey) (\<lambda>k.
       if \<not> opened then Inl Undef else Inr (''CLIENT_RANDOM '' @ r @ '' '' @ k @ [CHR 0x0A])))))"

lemma exported_line:
  assumes "length client_random = 32" and "length ms = 48" and "grants mem 48"
  shows "exportKeysCb mem True ms client_random = Inr (''CLIENT_RANDOM '' @ hex_of client_random @ '' '' @ hex_of ms @ [CHR 0x0A])"
proof -
  have e: "bb_holds bb_empty []" by (simp add: bb_holds_def bb_inv_def bb_cells_def block_def bb_empty_def)
  have ap: "\<exists>b. append_raw mem (map Some xs) bb_empty = Inr b \<and> bb_holds b xs" if "length xs \<le> 48" for xs
    using append_raw_holds [OF e, of mem xs] that assms(3) by (auto simp: grants_def SIZE_T_MOD_def)
  from ap [of client_random] ap [of ms] obtain b c where "append_raw mem (map Some client_random) bb_empty = Inr b" "bb_holds b client_random"
      "append_raw mem (map Some ms) bb_empty = Inr c" "bb_holds c ms"
    using assms(1,2) by auto
  then show ?thesis using assms intoHexString_holds by (simp add: exportKeysCb_def)
qed

subsection \<open>The life of a server\<close>

inductive server_life :: "net_lib \<Rightarrow> network_server \<Rightarrow> bool" for N where
  sl_new: "ns_new N False = Inr s \<Longrightarrow> server_life N s"
| sl_start: "server_life N s \<Longrightarrow> startListen b s = Inr s' \<Longrightarrow> server_life N s'"
| sl_accept: "server_life N s \<Longrightarrow> listenThread s = Working \<Longrightarrow> accept_round r s = Inr s' \<Longrightarrow> server_life N s'"
| sl_stop: "server_life N s \<Longrightarrow> server_life N (listen_stop s)"
| sl_stopped: "server_life N s \<Longrightarrow> \<not> flagListen s \<Longrightarrow> listen_join s = Inr s' \<Longrightarrow> server_life N s'"

definition listen_inv :: "net_lib \<Rightarrow> network_server \<Rightarrow> bool" where
  "listen_inv N s \<longleftrightarrow> (flagListen s \<longrightarrow> ns_bound s \<and> listenThread s \<noteq> Idle) \<and> (ns_bound s \<longrightarrow> flagListen s) \<and>
     ns_ciphersuites s = ciphersuites N ALLOWED_STRING"

lemma server_life_inv: "server_life N s \<Longrightarrow> listen_inv N s"
proof (induction rule: server_life.induct)
  case (sl_new s)
  then show ?case by (auto simp: ns_new_def listen_inv_def rbind_eq_Inr Let_def)
next
  case (sl_start s b s')
  then show ?case by (auto simp: startListen_def listen_inv_def rbind_eq_Inr spawn_thread_def Let_def split: if_splits)
next
  case (sl_accept s r s')
  then show ?case by (cases r) (auto simp: accept_round_def listen_inv_def split: if_splits)
next
  case (sl_stop s)
  then show ?case by (simp add: listen_stop_def listen_inv_def)
next
  case (sl_stopped s s')
  then show ?case by (auto simp: listen_join_def listen_inv_def rbind_eq_Inr join_thread_def split: if_splits)
qed

lemma ciphers_free: "\<forall>s\<in>set SERVER_CIPHERS. CHR '':'' \<notin> set s"
  by (simp add: SERVER_CIPHERS_def)

lemma ciphersuites_listed:
  "ciphersuites N ALLOWED_STRING = concat (map (\<lambda>c. case nl_ciphersuite N c of Some i \<Rightarrow> [i] | None \<Rightarrow> []) SERVER_CIPHERS) @ [0]"
proof -
  have "stringSplit ALLOWED_STRING CHR '':'' = SERVER_CIPHERS"
    using stringSplit_join_with [OF _ ciphers_free] by (simp add: ALLOWED_STRING_def SERVER_CIPHERS_def)
  then show ?thesis by (simp add: ciphersuites_def)
qed


definition sample_net :: net_lib where
  "sample_net = \<lparr>nl_ciphersuite = (\<lambda>_. Some 5), nl_seed = 0, nl_own_cert = 0\<rparr>"


end
