(* ===== verification/ComPtr.thy ===== *)
theory ComPtr
  imports Prelude
begin

text \<open>
  \<open>src/src/common/platform/windows/ComWrapper.h\<close>: the smart pointer to COM objects that all Direct3D and Media Foundation
  code of the program uses. An object is known by its address and has a reference count; \<open>AddRef\<close> of an
  object without references, and \<open>Release\<close> of one, touch freed memory. The wrappers of the program are the slots of a
  list: a slot is \<open>None\<close> while no wrapper lives there, and else the wrapper's pointer \<open>obj\<close>, \<open>None\<close> being null.

  Two COM functions give references to the program: a call with an out parameter (\<open>data()\<close>) and \<open>QueryInterface\<close>
  (\<open>castTo\<close>); both return a pointer on which \<open>AddRef\<close> has been called. \<open>owned\<close> counts, for each object, the references that
  plain pointers of the program hold: what \<open>detach\<close> gives out, and what a wrapper built from a plain pointer takes over.
\<close>

type_synonym addr = nat
type_synonym wrapper = "addr option option"

record com_state =
  refs :: "addr \<Rightarrow> nat"
  owned :: "addr \<Rightarrow> nat"
  slots :: "wrapper list"

subsection \<open>Reference counts\<close>

definition AddRef :: "addr \<Rightarrow> com_state \<Rightarrow> com_state res" where
  "AddRef p s = (if refs s p = 0 then Inl Undef else Inr (s\<lparr>refs := (refs s)(p := refs s p + 1)\<rparr>))"

definition Release :: "addr \<Rightarrow> com_state \<Rightarrow> com_state res" where
  "Release p s = (if refs s p = 0 then Inl Undef else Inr (s\<lparr>refs := (refs s)(p := refs s p - 1)\<rparr>))"

definition add_ref :: "addr option \<Rightarrow> com_state \<Rightarrow> com_state res" where
  "add_ref ob s = (case ob of None \<Rightarrow> Inr s | Some p \<Rightarrow> AddRef p s)"

definition drop_ref :: "addr option \<Rightarrow> com_state \<Rightarrow> com_state res" where
  "drop_ref ob s = (case ob of None \<Rightarrow> Inr s | Some p \<Rightarrow> Release p s)"

text \<open>Reading the pointer of a wrapper that does not live, or writing it, is undefined.\<close>

definition obj_of :: "nat \<Rightarrow> com_state \<Rightarrow> addr option res" where
  "obj_of v s = (if v < length (slots s) then (case slots s ! v of None \<Rightarrow> Inl Undef | Some ob \<Rightarrow> Inr ob) else Inl Undef)"

definition set_obj :: "nat \<Rightarrow> addr option \<Rightarrow> com_state \<Rightarrow> com_state" where
  "set_obj v ob s = s\<lparr>slots := (slots s)[v := Some ob]\<rparr>"

definition fresh_slot :: "nat \<Rightarrow> com_state \<Rightarrow> unit res" where
  "fresh_slot v s = (if v < length (slots s) \<and> slots s ! v = None then Inr () else Inl Undef)"

subsection \<open>The operations of a wrapper\<close>

definition com_null :: "nat \<Rightarrow> com_state \<Rightarrow> com_state res" where
  "com_null v s = rbind (fresh_slot v s) (\<lambda>_. Inr (set_obj v None s))"

text \<open>\<open>ComWrapper(T *ptr)\<close>: the wrapper takes over the reference of the plain pointer.\<close>

definition take_raw :: "addr option \<Rightarrow> com_state \<Rightarrow> com_state" where
  "take_raw ob s = (case ob of None \<Rightarrow> s | Some p \<Rightarrow> s\<lparr>owned := (owned s)(p := owned s p - 1)\<rparr>)"

definition com_ptr :: "nat \<Rightarrow> addr option \<Rightarrow> com_state \<Rightarrow> com_state res" where
  "com_ptr v ob s = rbind (fresh_slot v s) (\<lambda>_. Inr (set_obj v ob (take_raw ob s)))"

definition com_copy :: "nat \<Rightarrow> nat \<Rightarrow> com_state \<Rightarrow> com_state res" where
  "com_copy v w s = rbind (fresh_slot v s) (\<lambda>_. rbind (obj_of w s) (\<lambda>ob. add_ref ob (set_obj v ob s)))"

definition com_move :: "nat \<Rightarrow> nat \<Rightarrow> com_state \<Rightarrow> com_state res" where
  "com_move v w s = rbind (fresh_slot v s) (\<lambda>_. rbind (obj_of w s) (\<lambda>ob. Inr (set_obj w None (set_obj v ob s))))"

definition com_destroy :: "nat \<Rightarrow> com_state \<Rightarrow> com_state res" where
  "com_destroy v s = rbind (obj_of v s) (\<lambda>ob. rbind (drop_ref ob s) (\<lambda>s1. Inr (s1\<lparr>slots := (slots s1)[v := None]\<rparr>)))"

definition com_release :: "nat \<Rightarrow> com_state \<Rightarrow> com_state res" where
  "com_release v s = rbind (obj_of v s) (\<lambda>ob. rbind (drop_ref ob s) (\<lambda>s1. Inr (set_obj v None s1)))"

text \<open>The assignments release first, so they read the source after the target has been set to null.\<close>

definition com_assign :: "nat \<Rightarrow> nat \<Rightarrow> com_state \<Rightarrow> com_state res" where
  "com_assign v w s = rbind (com_release v s) (\<lambda>s1. rbind (obj_of w s1) (\<lambda>ob. add_ref ob (set_obj v ob s1)))"

definition com_assign_move :: "nat \<Rightarrow> nat \<Rightarrow> com_state \<Rightarrow> com_state res" where
  "com_assign_move v w s = rbind (com_release v s) (\<lambda>s1. rbind (obj_of w s1) (\<lambda>ob. Inr (set_obj w None (set_obj v ob s1))))"

definition com_assign_raw :: "nat \<Rightarrow> addr option \<Rightarrow> com_state \<Rightarrow> com_state res" where
  "com_assign_raw v ob s = rbind (com_release v s) (\<lambda>s1. Inr (set_obj v ob (take_raw ob s1)))"

definition com_detach :: "nat \<Rightarrow> com_state \<Rightarrow> com_state res" where
  "com_detach v s = rbind (obj_of v s) (\<lambda>ob.
     Inr (set_obj v None (case ob of None \<Rightarrow> s | Some p \<Rightarrow> s\<lparr>owned := (owned s)(p := owned s p + 1)\<rparr>)))"

text \<open>
  \<open>data()\<close>: a COM call gets the address of the pointer, and may store a pointer there (\<open>out\<close>; \<open>None\<close>: it stores nothing). When the
  proxy is destroyed, a debug build aborts if the call has replaced a pointer.
\<close>

definition com_out :: "bool \<Rightarrow> nat \<Rightarrow> addr option \<Rightarrow> com_state \<Rightarrow> com_state res" where
  "com_out ndebug v out s = rbind (obj_of v s) (\<lambda>prev.
     let s1 = (case out of None \<Rightarrow> s | Some p \<Rightarrow> set_obj v (Some p) (s\<lparr>refs := (refs s)(p := refs s p + 1)\<rparr>)) in
     rbind (obj_of v s1) (\<lambda>ob. if \<not> ndebug \<and> prev \<noteq> None \<and> prev \<noteq> ob then Inl Aborted else Inr s1))"

text \<open>\<open>castTo\<close> builds a new wrapper from what \<open>QueryInterface\<close> answers (\<open>None\<close>: not supported).\<close>

definition com_cast :: "(addr \<Rightarrow> addr option) \<Rightarrow> nat \<Rightarrow> nat \<Rightarrow> com_state \<Rightarrow> com_state res" where
  "com_cast query v w s = rbind (fresh_slot v s) (\<lambda>_. rbind (obj_of w s) (\<lambda>ob.
     case ob of
       None \<Rightarrow> Inr (set_obj v None s)
     | Some p \<Rightarrow>
         if refs s p = 0 then Inl Undef
         else (case query p of
             None \<Rightarrow> Inr (set_obj v None s)
           | Some q \<Rightarrow> Inr (set_obj v (Some q) (s\<lparr>refs := (refs s)(q := refs s q + 1)\<rparr>)))))"

text \<open>
  \<open>operator==\<close> asks both objects for their \<open>IUnknown\<close>, which COM promises to be one pointer for each object, and compares those. The two
  temporaries, here the free slots \<open>t\<close> and \<open>u\<close>, are destroyed at the end.
\<close>

definition com_equal :: "(addr \<Rightarrow> addr option) \<Rightarrow> nat \<Rightarrow> nat \<Rightarrow> nat \<Rightarrow> nat \<Rightarrow> com_state \<Rightarrow> (bool \<times> com_state) res" where
  "com_equal query t u v w s =
     rbind (com_cast query t v s) (\<lambda>s1. rbind (obj_of t s1) (\<lambda>x.
     rbind (com_cast query u w s1) (\<lambda>s2. rbind (obj_of u s2) (\<lambda>y.
     rbind (com_destroy u s2) (\<lambda>s3. rbind (com_destroy t s3) (\<lambda>s4. Inr (x = y, s4)))))))"

definition com_unequal :: "(addr \<Rightarrow> addr option) \<Rightarrow> nat \<Rightarrow> nat \<Rightarrow> nat \<Rightarrow> nat \<Rightarrow> com_state \<Rightarrow> (bool \<times> com_state) res" where
  "com_unequal query t u v w s = rbind (com_equal query t u v w s) (\<lambda>(e, s'). Inr (\<not> e, s'))"

lemma cast_destroy:
  assumes "com_cast query t v s = Inr s1" and "com_destroy t s1 = Inr s2"
  shows "s2 = s"
proof -
  have f: "t < length (slots s)" "slots s ! t = None"
    using assms(1) by (auto simp: com_cast_def fresh_slot_def rbind_eq_Inr split: if_splits)
  have u: "(slots s)[t := None] = slots s" using f by (metis list_update_id)
  from assms(1) obtain ob where ob: "obj_of v s = Inr ob" by (auto simp: com_cast_def rbind_eq_Inr)
  from assms(1) ob have "s1 = set_obj t None s \<or> (\<exists>q. s1 = set_obj t (Some q) (s\<lparr>refs := (refs s)(q := refs s q + 1)\<rparr>))"
    by (cases ob) (auto simp: com_cast_def rbind_eq_Inr split: option.splits if_splits)
  then show ?thesis
    using assms(2) f u by (auto simp: com_destroy_def obj_of_def drop_ref_def Release_def set_obj_def rbind_eq_Inr)
qed

text \<open>A comparison leaves every reference count as it was, and tells whether the two identities agree.\<close>

lemma com_equal_pure:
  assumes "com_equal query t u v w s = Inr (e, s')"
  shows "s' = s \<and> (\<exists>s1 s2 x y. com_cast query t v s = Inr s1 \<and> obj_of t s1 = Inr x \<and> com_cast query u w s1 = Inr s2 \<and>
    obj_of u s2 = Inr y \<and> (e \<longleftrightarrow> x = y))"
proof -
  from assms obtain s1 x s2 y s3 where r: "com_cast query t v s = Inr s1" "obj_of t s1 = Inr x"
    "com_cast query u w s1 = Inr s2" "obj_of u s2 = Inr y" "com_destroy u s2 = Inr s3" "com_destroy t s3 = Inr s'" "e = (x = y)"
    by (auto simp: com_equal_def rbind_eq_Inr)
  from cast_destroy [OF r(3,5)] have "s3 = s1" .
  with cast_destroy [OF r(1)] r(6) have "s' = s" by simp
  with r show ?thesis by blast
qed

subsection \<open>Programs\<close>

datatype com_op =
    New nat | FromRaw nat "addr option" | Copy nat nat | Move nat nat | Destroy nat | Reset nat
  | Assign nat nat | AssignMove nat nat | AssignRaw nat "addr option" | Detach nat | Out nat "addr option" | Cast nat nat

fun com_step :: "bool \<Rightarrow> (addr \<Rightarrow> addr option) \<Rightarrow> com_op \<Rightarrow> com_state \<Rightarrow> com_state res" where
  "com_step nd query (New v) s = com_null v s"
| "com_step nd query (FromRaw v ob) s = com_ptr v ob s"
| "com_step nd query (Copy v w) s = com_copy v w s"
| "com_step nd query (Move v w) s = com_move v w s"
| "com_step nd query (Destroy v) s = com_destroy v s"
| "com_step nd query (Reset v) s = com_release v s"
| "com_step nd query (Assign v w) s = com_assign v w s"
| "com_step nd query (AssignMove v w) s = com_assign_move v w s"
| "com_step nd query (AssignRaw v ob) s = com_assign_raw v ob s"
| "com_step nd query (Detach v) s = com_detach v s"
| "com_step nd query (Out v ob) s = com_out nd v ob s"
| "com_step nd query (Cast v w) s = com_cast query v w s"

text \<open>
  What the language and the callers see to: a wrapper is built where none lives and used while it lives, a plain
  pointer that is given to a wrapper carries a reference. A call through \<open>data()\<close> that stores a pointer over another one
  is what a debug build aborts on, so only release builds have to avoid it; neither build notices a call that stores the
  same pointer again.
\<close>

definition live :: "nat \<Rightarrow> com_state \<Rightarrow> bool" where
  "live v s \<longleftrightarrow> v < length (slots s) \<and> slots s ! v \<noteq> None"

definition free_slot :: "nat \<Rightarrow> com_state \<Rightarrow> bool" where
  "free_slot v s \<longleftrightarrow> v < length (slots s) \<and> slots s ! v = None"

definition paid :: "addr option \<Rightarrow> com_state \<Rightarrow> bool" where
  "paid ob s \<longleftrightarrow> (case ob of None \<Rightarrow> True | Some p \<Rightarrow> 0 < owned s p)"

fun op_fits :: "bool \<Rightarrow> com_op \<Rightarrow> com_state \<Rightarrow> bool" where
  "op_fits nd (New v) s \<longleftrightarrow> free_slot v s"
| "op_fits nd (FromRaw v ob) s \<longleftrightarrow> free_slot v s \<and> paid ob s"
| "op_fits nd (Copy v w) s \<longleftrightarrow> free_slot v s \<and> live w s"
| "op_fits nd (Move v w) s \<longleftrightarrow> free_slot v s \<and> live w s"
| "op_fits nd (Destroy v) s \<longleftrightarrow> live v s"
| "op_fits nd (Reset v) s \<longleftrightarrow> live v s"
| "op_fits nd (Assign v w) s \<longleftrightarrow> live v s \<and> live w s"
| "op_fits nd (AssignMove v w) s \<longleftrightarrow> live v s \<and> live w s"
| "op_fits nd (AssignRaw v ob) s \<longleftrightarrow> live v s \<and> paid ob s"
| "op_fits nd (Detach v) s \<longleftrightarrow> live v s"
| "op_fits nd (Out v ob) s \<longleftrightarrow> live v s \<and> (ob \<noteq> None \<longrightarrow> slots s ! v \<noteq> Some ob \<and> (nd \<longrightarrow> slots s ! v = Some None))"
| "op_fits nd (Cast v w) s \<longleftrightarrow> free_slot v s \<and> live w s"

inductive com_run :: "bool \<Rightarrow> (addr \<Rightarrow> addr option) \<Rightarrow> com_state \<Rightarrow> com_state \<Rightarrow> bool"
  for nd query s0 where
  run_nil: "com_run nd query s0 s0"
| run_op: "com_run nd query s0 s \<Longrightarrow> op_fits nd a s \<Longrightarrow> com_step nd query a s = Inr s' \<Longrightarrow> com_run nd query s0 s'"

subsection \<open>The balance\<close>

definition holders :: "addr \<Rightarrow> com_state \<Rightarrow> nat" where
  "holders p s = count_list (slots s) (Some (Some p))"

definition balanced :: "com_state \<Rightarrow> bool" where
  "balanced s \<longleftrightarrow> (\<forall>p. refs s p = holders p s + owned s p)"

lemma set_obj_simps [simp]:
  "refs (set_obj v ob s) = refs s" "owned (set_obj v ob s) = owned s" "slots (set_obj v ob s) = (slots s)[v := Some ob]"
  by (simp_all add: set_obj_def)

lemma balancedD: "balanced s \<Longrightarrow> refs s p = holders p s + owned s p"
  by (simp add: balanced_def)

lemma holders_put:
  assumes "v < length (slots s)" and "slots s' = (slots s)[v := x]"
  shows "holders p s' + (if slots s ! v = Some (Some p) then 1 else 0) = holders p s + (if x = Some (Some p) then 1 else 0)"
  using count_list_update [OF assms(1)] assms(2) by (simp add: holders_def)

lemma holders_pos: "v < length (slots s) \<Longrightarrow> slots s ! v = Some (Some p) \<Longrightarrow> 0 < holders p s"
  by (metis holders_def count_notin nth_mem gr0I count_list_0_iff)

lemma live_obj: "live v s \<Longrightarrow> \<exists>ob. obj_of v s = Inr ob \<and> slots s ! v = Some ob \<and> v < length (slots s)"
  by (auto simp: live_def obj_of_def)

lemma live_ref:
  assumes "balanced s" and "v < length (slots s)" and "slots s ! v = Some (Some p)"
  shows "0 < refs s p"
  using balancedD [OF assms(1), of p] holders_pos [OF assms(2,3)] by simp

text \<open>The two moves of the books: a wrapper gives its reference back, a wrapper that holds none gets one.\<close>

lemma drop_balanced:
  assumes "balanced s" and "v < length (slots s)" and "slots s ! v = Some ob" and "x = None \<or> x = Some None"
  shows "\<exists>s1. drop_ref ob s = Inr s1 \<and> owned s1 = owned s \<and> slots s1 = slots s \<and> balanced (s1\<lparr>slots := (slots s1)[v := x]\<rparr>)"
proof (cases ob)
  case None
  have "holders p (s\<lparr>slots := (slots s)[v := x]\<rparr>) = holders p s" for p
    using holders_put [OF assms(2), of "s\<lparr>slots := (slots s)[v := x]\<rparr>" x p] assms(3,4) None by auto
  with assms(1) None show ?thesis by (simp add: drop_ref_def balanced_def)
next
  case (Some q)
  define s1 where "s1 = s\<lparr>refs := (refs s)(q := refs s q - 1)\<rparr>"
  have r: "0 < refs s q" using live_ref [OF assms(1,2)] assms(3) Some by simp
  have h: "holders p (s1\<lparr>slots := (slots s1)[v := x]\<rparr>) + (if p = q then 1 else 0) = holders p s" for p
    using holders_put [OF assms(2), of "s1\<lparr>slots := (slots s1)[v := x]\<rparr>" x p] assms(3,4) Some by (auto simp: s1_def)
  have "balanced (s1\<lparr>slots := (slots s1)[v := x]\<rparr>)"
    unfolding balanced_def
  proof
    fix p
    show "refs (s1\<lparr>slots := (slots s1)[v := x]\<rparr>) p = holders p (s1\<lparr>slots := (slots s1)[v := x]\<rparr>) + owned (s1\<lparr>slots := (slots s1)[v := x]\<rparr>) p"
      using h [of p] balancedD [OF assms(1), of p] r by (auto simp: s1_def split: if_splits)
  qed
  with r Some show ?thesis by (auto simp: drop_ref_def Release_def s1_def)
qed

lemma put_balanced:
  assumes bal: "balanced s" and v: "v < length (slots s)" and null: "slots s ! v = None \<or> slots s ! v = Some None"
    and put: "slots s' = (slots s)[v := Some ob]"
    and books: "\<And>p. refs s' p + owned s p = refs s p + owned s' p + (if ob = Some p then 1 else 0)"
  shows "balanced s'"
  unfolding balanced_def
proof
  fix p
  show "refs s' p = holders p s' + owned s' p"
    using holders_put [OF v put, of p] null books [of p] balancedD [OF bal, of p] by (auto split: if_splits)
qed

subsection \<open>Every operation keeps the balance\<close>

lemma com_null_ok: "balanced s \<Longrightarrow> free_slot v s \<Longrightarrow> \<exists>s'. com_null v s = Inr s' \<and> balanced s'"
  using put_balanced [of s v "set_obj v None s" None] by (simp add: com_null_def fresh_slot_def free_slot_def)

lemma raw_put_ok:
  assumes "balanced s" and "v < length (slots s)" and "slots s ! v = None \<or> slots s ! v = Some None" and "paid ob s"
  shows "balanced (set_obj v ob (take_raw ob s))"
  by (rule put_balanced [OF assms(1-3), of _ ob]) (use assms(4) in \<open>auto simp: take_raw_def paid_def split: option.splits\<close>)

lemma com_ptr_ok: "balanced s \<Longrightarrow> free_slot v s \<Longrightarrow> paid ob s \<Longrightarrow> \<exists>s'. com_ptr v ob s = Inr s' \<and> balanced s'"
  using raw_put_ok by (simp add: com_ptr_def fresh_slot_def free_slot_def)

lemma add_put_ok:
  assumes "balanced s" and "v < length (slots s)" and "slots s ! v = None \<or> slots s ! v = Some None"
    and "\<And>p. ob = Some p \<Longrightarrow> 0 < refs s p"
  shows "\<exists>s'. add_ref ob (set_obj v ob s) = Inr s' \<and> balanced s'"
proof (cases ob)
  case None
  then show ?thesis using put_balanced [OF assms(1-3), of "set_obj v None s" None] by (simp add: add_ref_def)
next
  case (Some p)
  define s' where "s' = (set_obj v ob s)\<lparr>refs := (refs s)(p := refs s p + 1)\<rparr>"
  have "balanced s'" by (rule put_balanced [OF assms(1-3), of _ ob]) (auto simp: s'_def Some)
  moreover have "add_ref ob (set_obj v ob s) = Inr s'" using assms(4) [OF Some] Some by (simp add: add_ref_def AddRef_def s'_def)
  ultimately show ?thesis by blast
qed

lemma move_out_ok:
  assumes "balanced s" and "v < length (slots s)" and "w < length (slots s)" and "v \<noteq> w"
    and "slots s ! v = None \<or> slots s ! v = Some None" and "slots s ! w = Some ob"
  shows "balanced (set_obj w None (set_obj v ob s))"
  unfolding balanced_def
proof
  fix p
  let ?s1 = "set_obj v ob s"
  show "refs (set_obj w None ?s1) p = holders p (set_obj w None ?s1) + owned (set_obj w None ?s1) p"
    using holders_put [of v s ?s1 "Some ob" p] holders_put [of w ?s1 "set_obj w None ?s1" "Some None" p] assms
      balancedD [OF assms(1), of p] by (auto split: if_splits)
qed

lemma com_release_ok:
  assumes "balanced s" and "live v s"
  shows "\<exists>s1. com_release v s = Inr s1 \<and> balanced s1 \<and> owned s1 = owned s \<and> slots s1 = (slots s)[v := Some None]"
proof -
  from live_obj [OF assms(2)] obtain ob where ob: "obj_of v s = Inr ob" "slots s ! v = Some ob" "v < length (slots s)" by blast
  from drop_balanced [OF assms(1) ob(3,2), of "Some None"] obtain s1 where
    "drop_ref ob s = Inr s1" "owned s1 = owned s" "slots s1 = slots s" "balanced (s1\<lparr>slots := (slots s1)[v := Some None]\<rparr>)" by blast
  with ob show ?thesis by (simp add: com_release_def set_obj_def)
qed

lemma com_destroy_ok: "balanced s \<Longrightarrow> live v s \<Longrightarrow> \<exists>s'. com_destroy v s = Inr s' \<and> balanced s'"
  using live_obj [of v s] drop_balanced [of s v _ None] by (fastforce simp: com_destroy_def)

lemma com_copy_ok:
  assumes "balanced s" and "free_slot v s" and "live w s"
  shows "\<exists>s'. com_copy v w s = Inr s' \<and> balanced s'"
proof -
  from live_obj [OF assms(3)] obtain ob where ob: "obj_of w s = Inr ob" "slots s ! w = Some ob" "w < length (slots s)" by blast
  have "0 < refs s p" if "ob = Some p" for p using live_ref [OF assms(1) ob(3)] ob(2) that by simp
  with add_put_ok [OF assms(1), of v ob] assms(2) ob(1) show ?thesis by (auto simp: com_copy_def fresh_slot_def free_slot_def)
qed

lemma com_move_ok:
  assumes "balanced s" and "free_slot v s" and "live w s"
  shows "\<exists>s'. com_move v w s = Inr s' \<and> balanced s'"
proof -
  from live_obj [OF assms(3)] obtain ob where ob: "obj_of w s = Inr ob" "slots s ! w = Some ob" "w < length (slots s)" by blast
  with assms(2) have "v \<noteq> w" by (auto simp: free_slot_def)
  with move_out_ok [OF assms(1), of v w ob] assms(2) ob show ?thesis by (auto simp: com_move_def fresh_slot_def free_slot_def)
qed

lemma live_after_release: "live w s \<Longrightarrow> slots s1 = (slots s)[v := Some None] \<Longrightarrow> live w s1"
  by (cases "v = w") (auto simp: live_def)

lemma com_assign_ok:
  assumes "balanced s" and "live v s" and "live w s"
  shows "\<exists>s'. com_assign v w s = Inr s' \<and> balanced s' \<and> (v = w \<longrightarrow> slots s' ! v = Some None)"
proof -
  from com_release_ok [OF assms(1,2)] obtain s1 where
    s1: "com_release v s = Inr s1" "balanced s1" "slots s1 = (slots s)[v := Some None]" by blast
  have v: "v < length (slots s1)" "slots s1 ! v = Some None" using s1(3) assms(2) by (auto simp: live_def)
  from live_obj [OF live_after_release [OF assms(3) s1(3)]] obtain ob where
    ob: "obj_of w s1 = Inr ob" "slots s1 ! w = Some ob" "w < length (slots s1)" by blast
  have "0 < refs s1 p" if "ob = Some p" for p using live_ref [OF s1(2) ob(3)] ob(2) that by simp
  with add_put_ok [OF s1(2) v(1), of ob] v(2) obtain s' where s': "add_ref ob (set_obj v ob s1) = Inr s'" "balanced s'" by blast
  have "slots s' ! v = Some None" if "v = w"
    using that ob(2) v s'(1) by (auto simp: add_ref_def)
  with s1(1) ob(1) s' show ?thesis by (simp add: com_assign_def)
qed

lemma com_assign_move_ok:
  assumes "balanced s" and "live v s" and "live w s"
  shows "\<exists>s'. com_assign_move v w s = Inr s' \<and> balanced s'"
proof -
  from com_release_ok [OF assms(1,2)] obtain s1 where
    s1: "com_release v s = Inr s1" "balanced s1" "slots s1 = (slots s)[v := Some None]" by blast
  have v: "v < length (slots s1)" "slots s1 ! v = Some None" using s1(3) assms(2) by (auto simp: live_def)
  from live_obj [OF live_after_release [OF assms(3) s1(3)]] obtain ob where
    ob: "obj_of w s1 = Inr ob" "slots s1 ! w = Some ob" "w < length (slots s1)" by blast
  have "balanced (set_obj w None (set_obj v ob s1))"
  proof (cases "v = w")
    case True
    then have "slots (set_obj w None (set_obj v ob s1)) = slots s1" using v by (simp add: list_update_same_conv)
    with s1(2) show ?thesis by (simp add: balanced_def holders_def)
  next
    case False
    then show ?thesis using move_out_ok [OF s1(2) v(1) ob(3) _ _ ob(2)] v(2) by simp
  qed
  with s1(1) ob(1) show ?thesis by (simp add: com_assign_move_def)
qed

lemma com_assign_raw_ok:
  assumes "balanced s" and "live v s" and "paid ob s"
  shows "\<exists>s'. com_assign_raw v ob s = Inr s' \<and> balanced s'"
proof -
  from com_release_ok [OF assms(1,2)] obtain s1 where
    s1: "com_release v s = Inr s1" "balanced s1" "owned s1 = owned s" "slots s1 = (slots s)[v := Some None]" by blast
  have v: "v < length (slots s1)" "slots s1 ! v = Some None" using s1(4) assms(2) by (auto simp: live_def)
  have "paid ob s1" using assms(3) s1(3) by (cases ob) (simp_all add: paid_def)
  with raw_put_ok [OF s1(2) v(1)] v(2) have "balanced (set_obj v ob (take_raw ob s1))" by simp
  with s1(1) show ?thesis by (simp add: com_assign_raw_def)
qed

lemma com_detach_ok:
  assumes "balanced s" and "live v s"
  shows "\<exists>s'. com_detach v s = Inr s' \<and> balanced s'"
proof -
  from live_obj [OF assms(2)] obtain ob where ob: "obj_of v s = Inr ob" "slots s ! v = Some ob" "v < length (slots s)" by blast
  define s' where "s' = set_obj v None (case ob of None \<Rightarrow> s | Some p \<Rightarrow> s\<lparr>owned := (owned s)(p := owned s p + 1)\<rparr>)"
  have "balanced s'"
    unfolding balanced_def
  proof
    fix p
    have "slots s' = (slots s)[v := Some None]" by (simp add: s'_def split: option.split)
    from holders_put [OF ob(3) this, of p] balancedD [OF assms(1), of p] ob(2)
    show "refs s' p = holders p s' + owned s' p" by (auto simp: s'_def split: if_splits option.splits)
  qed
  with ob(1) show ?thesis by (simp add: com_detach_def s'_def)
qed

lemma new_ref_ok:
  assumes "balanced s" and "v < length (slots s)" and "slots s ! v = None \<or> slots s ! v = Some None"
  shows "balanced (set_obj v (Some q) (s\<lparr>refs := (refs s)(q := refs s q + 1)\<rparr>))"
  by (rule put_balanced [OF assms, of _ "Some q"]) auto

lemma com_cast_ok:
  assumes "balanced s" and "free_slot v s" and "live w s"
  shows "\<exists>s'. com_cast query v w s = Inr s' \<and> balanced s'"
proof -
  from live_obj [OF assms(3)] obtain ob where ob: "obj_of w s = Inr ob" "slots s ! w = Some ob" "w < length (slots s)" by blast
  have v: "fresh_slot v s = Inr ()" "v < length (slots s)" "slots s ! v = None" using assms(2) by (auto simp: fresh_slot_def free_slot_def)
  have null: "balanced (set_obj v None s)" by (rule put_balanced [OF assms(1) v(2), of _ None]) (use v(3) in auto)
  have "0 < refs s p" if "ob = Some p" for p using live_ref [OF assms(1) ob(3)] ob(2) that by simp
  with v null ob(1) new_ref_ok [OF assms(1) v(2)] show ?thesis by (auto simp: com_cast_def split: option.split)
qed

lemma com_out_ok:
  assumes "balanced s" and "op_fits nd (Out v out) s"
  shows "(\<exists>s'. com_out nd v out s = Inr s' \<and> balanced s') \<or> \<not> nd \<and> com_out nd v out s = Inl Aborted \<and> out \<noteq> None"
proof -
  from assms(2) have "live v s" by simp
  from live_obj [OF this] obtain ob where ob: "obj_of v s = Inr ob" "slots s ! v = Some ob" "v < length (slots s)" by blast
  show ?thesis
  proof (cases out)
    case None
    with ob assms(1) show ?thesis by (simp add: com_out_def)
  next
    case (Some p)
    define s1 where "s1 = set_obj v (Some p) (s\<lparr>refs := (refs s)(p := refs s p + 1)\<rparr>)"
    have r: "obj_of v s1 = Inr (Some p)" using ob(3) by (simp add: obj_of_def s1_def)
    have "com_out nd v out s = (if \<not> nd \<and> ob \<noteq> None then Inl Aborted else Inr s1)"
      using ob(1) r Some assms(2) ob(2) by (simp add: com_out_def s1_def)
    moreover have "balanced s1" if "ob = None" using new_ref_ok [OF assms(1) ob(3)] ob(2) that by (simp add: s1_def)
    ultimately show ?thesis using assms(2) ob(2) Some by auto
  qed
qed

lemma com_step_ok:
  assumes "balanced s" and "op_fits nd a s"
  shows "(\<exists>s'. com_step nd query a s = Inr s' \<and> balanced s') \<or>
    \<not> nd \<and> com_step nd query a s = Inl Aborted \<and> (\<exists>v p. a = Out v (Some p))"
  using assms com_out_ok [OF assms(1)]
  using com_release_ok [OF assms(1)] com_assign_ok [OF assms(1)]
  by (cases a) (simp_all add: com_null_ok com_ptr_ok com_copy_ok com_move_ok com_destroy_ok com_cast_ok com_detach_ok com_assign_raw_ok
      com_assign_move_ok, blast+)

lemma com_run_balanced: "com_run nd query s0 s \<Longrightarrow> balanced s0 \<Longrightarrow> balanced s"
proof (induction rule: com_run.induct)
  case (run_op s a s')
  with com_step_ok [of s nd a query] show ?case by auto
qed simp

text \<open>Assigning a wrapper to itself releases its object and leaves the wrapper null.\<close>

lemma self_assign_null: "balanced s \<Longrightarrow> live v s \<Longrightarrow> \<exists>s'. com_assign v v s = Inr s' \<and> slots s' ! v = Some None"
  using com_assign_ok [of s v v] by auto

text \<open>A call that stores the pointer that is there already is a leak that the debug build does not notice.\<close>

lemma same_pointer_leaks:
  assumes "balanced s" and "v < length (slots s)" and "slots s ! v = Some (Some p)"
  shows "\<exists>s'. com_out False v (Some p) s = Inr s' \<and> refs s' p = holders p s' + owned s' p + 1"
proof -
  have "(slots s)[v := Some (Some p)] = slots s" using assms(3) by (metis list_update_id)
  with assms balancedD [OF assms(1), of p] show ?thesis
    by (simp add: com_out_def obj_of_def holders_def)
qed

subsection \<open>Properties\<close>



end
