(* ===== verification/OpenH264.thy ===== *)
theory OpenH264
  imports Prelude
begin

text \<open>
  \<open>OpenH264Loader\<close> of \<open>src/src/common/platform/software\<close> and \<open>OpenH264LoaderWin32\<close> of \<open>src/src/common/platform/windows\<close>: the
  object through which encoder and decoder reach the OpenH264 library.

  The library on disk is the record \<open>dll\<close>: whether \<open>LoadLibrary\<close> finds it, which names it exports and the version it
  reports. The six procedure pointers of the loader are the set of names for which they are not null; \<open>prepare\<close> returns
  the loader with the fault that ended it, since the fields written before an exception stay written.
\<close>

record dll =
  dll_found :: bool
  dll_exports :: "string \<Rightarrow> bool"
  dll_version :: "nat \<times> nat \<times> nat"

record oh_loader =
  hInst :: bool
  procs :: "string \<Rightarrow> bool"
  ready :: bool

definition ol_new :: oh_loader where
  "ol_new = \<lparr>hInst = False, procs = (\<lambda>_. False), ready = False\<rparr>"

definition PROC_NAMES :: "string list" where
  "PROC_NAMES = [''WelsCreateSVCEncoder'', ''WelsDestroySVCEncoder'', ''WelsCreateDecoder'', ''WelsDestroyDecoder'',
     ''WelsGetCodecVersion'', ''WelsGetCodecVersionEx'']"

definition OPENH264_VERSION :: "nat \<times> nat \<times> nat" where
  "OPENH264_VERSION = (2, 1, 1)"

definition version_fits :: "nat \<times> nat \<times> nat \<Rightarrow> bool" where
  "version_fits v = (case (v, OPENH264_VERSION) of ((major, minor, revision), (M, N, R)) \<Rightarrow>
     \<not> (major \<noteq> M \<or> minor < N \<or> minor = N \<and> revision < R))"

definition checkVersion :: "dll \<Rightarrow> oh_loader \<Rightarrow> bool res" where
  "checkVersion D l =
     (if \<not> procs l ''WelsGetCodecVersionEx'' then Inl Undef
      else if \<not> version_fits (dll_version D) then error_quit ''OpenH264 loaded is incompatible with API!''
      else Inr True)"

fun load_procs :: "dll \<Rightarrow> string list \<Rightarrow> oh_loader \<Rightarrow> oh_loader \<times> fault option" where
  "load_procs D [] l = (l, None)"
| "load_procs D (n # ns) l =
     (let l1 = l\<lparr>procs := (procs l)(n := dll_exports D n)\<rparr>
      in if dll_exports D n then load_procs D ns l1 else (l1, Some (Fatal (''Failed to load '' @ n @ ''!''))))"

definition prepare :: "dll \<Rightarrow> oh_loader \<Rightarrow> oh_loader \<times> fault option" where
  "prepare D l =
     (let l1 = l\<lparr>hInst := dll_found D\<rparr> in
      if \<not> dll_found D then (l1, Some (Fatal ''Failed to load openh264-2.1.1-win64.dll library!''))
      else (case load_procs D PROC_NAMES l1 of
              (l2, Some e) \<Rightarrow> (l2, Some e)
            | (l2, None) \<Rightarrow>
                (case checkVersion D l2 of
                   Inl e \<Rightarrow> (l2, Some e)
                 | Inr _ \<Rightarrow> (l2\<lparr>ready := True\<rparr>, None))))"

definition isReady :: "oh_loader \<Rightarrow> bool" where
  "isReady l = ready l"

text \<open>The six forwarding calls go through their pointer.\<close>

definition oh_call :: "string \<Rightarrow> oh_loader \<Rightarrow> 'a \<Rightarrow> 'a res" where
  "oh_call n l x = (if procs l n then Inr x else Inl Undef)"

subsection \<open>One loader\<close>

text \<open>
  \<open>getInstance\<close> shares one loader among all encoders and decoders: \<open>instance\<close> is a weak pointer, which can be locked while
  somebody holds the loader. The threads of the program are a list of places: \<open>Away\<close> holds no loader, \<open>Queued\<close> has found the weak
  pointer expired and waits for \<open>instanceLock\<close>, \<open>Inside\<close> has the lock, \<open>Made\<close> has a new loader that is not yet published, and
  \<open>Holds\<close> has got its loader. Loaders are numbered as they are made.
\<close>

datatype place = Away | Queued | Inside | Made nat | Holds nat

record loaders =
  instance_ptr :: "nat option"
  instanceLock :: "nat option"
  next_loader :: nat
  places :: "place list"

definition alive :: "loaders \<Rightarrow> nat \<Rightarrow> bool" where
  "alive s i \<longleftrightarrow> (\<exists>p\<in>set (places s). p = Made i \<or> p = Holds i)"

definition weak_lock :: "loaders \<Rightarrow> nat option" where
  "weak_lock s = (case instance_ptr s of None \<Rightarrow> None | Some i \<Rightarrow> if alive s i then Some i else None)"

definition at_place :: "nat \<Rightarrow> place \<Rightarrow> loaders \<Rightarrow> loaders" where
  "at_place t p s = s\<lparr>places := (places s)[t := p]\<rparr>"

text \<open>The next step of thread \<open>t\<close>: \<open>None\<close> when it has to wait. A thread that holds its loader lets go of it.\<close>

definition getInstance_step :: "nat \<Rightarrow> loaders \<Rightarrow> loaders option" where
  "getInstance_step t s =
     (case places s ! t of
        Away \<Rightarrow> Some (case weak_lock s of Some i \<Rightarrow> at_place t (Holds i) s | None \<Rightarrow> at_place t Queued s)
      | Queued \<Rightarrow> (case instanceLock s of Some _ \<Rightarrow> None | None \<Rightarrow> Some (at_place t Inside (s\<lparr>instanceLock := Some t\<rparr>)))
      | Inside \<Rightarrow>
          Some (case weak_lock s of
              Some i \<Rightarrow> at_place t (Holds i) (s\<lparr>instanceLock := None\<rparr>)
            | None \<Rightarrow> at_place t (Made (next_loader s)) (s\<lparr>next_loader := next_loader s + 1\<rparr>))
      | Made i \<Rightarrow> Some (at_place t (Holds i) (s\<lparr>instance_ptr := Some i, instanceLock := None\<rparr>))
      | Holds i \<Rightarrow> Some (at_place t Away s))"

inductive loaders_run :: "nat \<Rightarrow> loaders \<Rightarrow> bool" for n where
  none: "loaders_run n \<lparr>instance_ptr = None, instanceLock = None, next_loader = 0, places = replicate n Away\<rparr>"
| go: "loaders_run n s \<Longrightarrow> t < n \<Longrightarrow> getInstance_step t s = Some s' \<Longrightarrow> loaders_run n s'"

definition in_lock :: "place \<Rightarrow> bool" where
  "in_lock p \<longleftrightarrow> p = Inside \<or> (\<exists>i. p = Made i)"

definition held :: "place \<Rightarrow> bool" where
  "held p \<longleftrightarrow> (\<exists>i. p = Holds i)"

definition unpublished :: "place \<Rightarrow> bool" where
  "unpublished p \<longleftrightarrow> (\<exists>i. p = Made i)"

definition fits :: "nat option \<Rightarrow> nat \<Rightarrow> place \<Rightarrow> bool" where
  "fits ip nx p \<longleftrightarrow> (case p of Holds i \<Rightarrow> ip = Some i | Made i \<Rightarrow> i < nx \<and> ip \<noteq> Some i | _ \<Rightarrow> True)"

lemma place_simps [simp]:
  "\<not> in_lock Away" "\<not> in_lock Queued" "in_lock Inside" "in_lock (Made i)" "\<not> in_lock (Holds i)"
  "\<not> held Away" "\<not> held Queued" "\<not> held Inside" "\<not> held (Made i)" "held (Holds i)"
  "\<not> unpublished Away" "\<not> unpublished Queued" "\<not> unpublished Inside" "unpublished (Made i)" "\<not> unpublished (Holds i)"
  "fits ip nx Away" "fits ip nx Queued" "fits ip nx Inside" "fits ip nx (Made i) \<longleftrightarrow> i < nx \<and> ip \<noteq> Some i" "fits ip nx (Holds i) \<longleftrightarrow> ip = Some i"
  by (auto simp: in_lock_def held_def unpublished_def fits_def)

definition loaders_inv :: "nat \<Rightarrow> loaders \<Rightarrow> bool" where
  "loaders_inv n s \<longleftrightarrow> length (places s) = n \<and>
     (\<forall>t<n. in_lock (places s ! t) \<longleftrightarrow> instanceLock s = Some t) \<and>
     (\<forall>t<n. fits (instance_ptr s) (next_loader s) (places s ! t)) \<and>
     (\<forall>t<n. \<forall>u<n. unpublished (places s ! t) \<longrightarrow> \<not> held (places s ! u)) \<and>
     (\<forall>i. instance_ptr s = Some i \<longrightarrow> i < next_loader s)"

lemma loaders_invD:
  assumes "loaders_inv n s"
  shows "length (places s) = n" and "t < n \<Longrightarrow> in_lock (places s ! t) \<longleftrightarrow> instanceLock s = Some t"
    and "t < n \<Longrightarrow> fits (instance_ptr s) (next_loader s) (places s ! t)"
    and "t < n \<Longrightarrow> u < n \<Longrightarrow> unpublished (places s ! t) \<Longrightarrow> \<not> held (places s ! u)"
    and "instance_ptr s = Some i \<Longrightarrow> i < next_loader s"
  using assms unfolding loaders_inv_def by blast+

lemma weak_lock_hit:
  assumes inv: "loaders_inv n s" and hit: "weak_lock s = Some i"
  shows "instance_ptr s = Some i" and "t < n \<Longrightarrow> \<not> unpublished (places s ! t)"
proof -
  from hit show ip: "instance_ptr s = Some i" by (auto simp: weak_lock_def split: option.splits if_splits)
  from hit have "alive s i" by (auto simp: weak_lock_def split: option.splits if_splits)
  then obtain u where u: "u < n" "places s ! u = Made i \<or> places s ! u = Holds i"
    using loaders_invD(1) [OF inv] by (auto simp: alive_def in_set_conv_nth)
  then have "places s ! u = Holds i" using loaders_invD(3) [OF inv u(1)] ip by auto
  then show "\<not> unpublished (places s ! t)" if "t < n" using loaders_invD(4) [OF inv that u(1)] by auto
qed

lemma weak_lock_miss:
  assumes inv: "loaders_inv n s" and miss: "weak_lock s = None" and t: "t < n"
  shows "\<not> held (places s ! t)"
proof
  assume "held (places s ! t)"
  then obtain i where h: "places s ! t = Holds i" by (auto simp: held_def)
  with t loaders_invD(1) [OF inv] have "alive s i" unfolding alive_def by (metis nth_mem)
  moreover have "instance_ptr s = Some i" using loaders_invD(3) [OF inv t] h by simp
  ultimately show False using miss by (simp add: weak_lock_def)
qed

text \<open>One lemma for all steps: what the thread's new place and the new shared fields have to satisfy.\<close>

lemma loaders_inv_step:
  assumes inv: "loaders_inv n s" and t: "t < n"
    and lock: "in_lock p \<longleftrightarrow> lk = Some t" "\<And>u. u < n \<Longrightarrow> u \<noteq> t \<Longrightarrow> in_lock (places s ! u) \<longleftrightarrow> lk = Some u"
    and fits: "fits ip nx p" "\<And>u. u < n \<Longrightarrow> u \<noteq> t \<Longrightarrow> fits ip nx (places s ! u)"
    and apart: "\<And>u. unpublished p \<Longrightarrow> u < n \<Longrightarrow> u \<noteq> t \<Longrightarrow> \<not> held (places s ! u)"
      "\<And>u. held p \<Longrightarrow> u < n \<Longrightarrow> u \<noteq> t \<Longrightarrow> \<not> unpublished (places s ! u)"
    and below: "\<And>i. ip = Some i \<Longrightarrow> i < nx"
    and s': "s' = \<lparr>instance_ptr = ip, instanceLock = lk, next_loader = nx, places = (places s)[t := p]\<rparr>"
  shows "loaders_inv n s'"
proof -
  have len: "length (places s) = n" using loaders_invD(1) [OF inv] .
  have at: "(places s)[t := p] ! u = (if u = t then p else places s ! u)" if "u < n" for u
    using len that by (auto simp: nth_list_update)
  have "\<not> held (places s ! u)" if "v < n" "u < n" "unpublished (places s ! v)" for u v
    using loaders_invD(4) [OF inv that(1,2,3)] .
  moreover have "\<not> (unpublished p \<and> held p)" by (auto simp: unpublished_def)
  ultimately show ?thesis
    unfolding loaders_inv_def s' using len at lock fits apart below by auto
qed

lemma getInstance_keeps:
  assumes inv: "loaders_inv n s" and t: "t < n" and s': "getInstance_step t s = Some s'"
  shows "loaders_inv n s'"
proof (cases "places s ! t")
  case Away
  note here = loaders_invD(2) [OF inv t, unfolded Away]
  show ?thesis
  proof (cases "weak_lock s")
    case None
    show ?thesis by (rule loaders_inv_step [OF inv t, of Queued "instanceLock s" "instance_ptr s" "next_loader s"])
        (use s' Away None here loaders_invD [OF inv] in \<open>auto simp: getInstance_step_def at_place_def\<close>)
  next
    case (Some i)
    show ?thesis by (rule loaders_inv_step [OF inv t, of "Holds i" "instanceLock s" "instance_ptr s" "next_loader s"])
        (use s' Away Some here loaders_invD [OF inv] weak_lock_hit [OF inv Some] in \<open>auto simp: getInstance_step_def at_place_def\<close>)
  qed
next
  case Queued
  then have free: "instanceLock s = None" using s' by (auto simp: getInstance_step_def split: option.splits)
  show ?thesis by (rule loaders_inv_step [OF inv t, of Inside "Some t" "instance_ptr s" "next_loader s"])
      (use s' Queued free loaders_invD [OF inv] in \<open>auto simp: getInstance_step_def at_place_def\<close>)
next
  case Inside
  note here = loaders_invD(2) [OF inv t, unfolded Inside]
  show ?thesis
  proof (cases "weak_lock s")
    case None
    have "fits (instance_ptr s) (next_loader s + 1) (places s ! u)" if "u < n" for u
      using loaders_invD(3) [OF inv that] by (cases "places s ! u") auto
    then show ?thesis by (intro loaders_inv_step [OF inv t, of "Made (next_loader s)" "instanceLock s" "instance_ptr s" "next_loader s + 1"])
        (use s' Inside None here loaders_invD [OF inv] weak_lock_miss [OF inv None] less_SucI in \<open>auto simp: getInstance_step_def at_place_def\<close>)
  next
    case (Some i)
    show ?thesis by (rule loaders_inv_step [OF inv t, of "Holds i" None "instance_ptr s" "next_loader s"])
        (use s' Inside Some here loaders_invD [OF inv] weak_lock_hit [OF inv Some] in \<open>auto simp: getInstance_step_def at_place_def\<close>)
  qed
next
  case (Made i)
  note here = loaders_invD(2) [OF inv t, unfolded Made]
  have u: "fits (Some i) (next_loader s) (places s ! u)" "\<not> unpublished (places s ! u)" if "u < n" "u \<noteq> t" for u
  proof -
    have "\<not> in_lock (places s ! u)" using here loaders_invD(2) [OF inv that(1)] that(2) by simp
    moreover have "\<not> held (places s ! u)" using loaders_invD(4) [OF inv t that(1)] Made by simp
    ultimately show "fits (Some i) (next_loader s) (places s ! u)" "\<not> unpublished (places s ! u)"
      by (cases "places s ! u"; simp)+
  qed
  show ?thesis by (rule loaders_inv_step [OF inv t, of "Holds i" None "Some i" "next_loader s"])
      (use s' Made here u loaders_invD(2,3) [OF inv] loaders_invD(3) [OF inv t] in \<open>auto simp: getInstance_step_def at_place_def\<close>)
next
  case (Holds i)
  note here = loaders_invD(2) [OF inv t, unfolded Holds]
  show ?thesis by (rule loaders_inv_step [OF inv t, of Away "instanceLock s" "instance_ptr s" "next_loader s"])
      (use s' Holds here loaders_invD [OF inv] in \<open>auto simp: getInstance_step_def at_place_def\<close>)
qed

lemma loaders_run_inv: "loaders_run n s \<Longrightarrow> loaders_inv n s"
proof (induction rule: loaders_run.induct)
  case none
  then show ?case by (simp add: loaders_inv_def)
next
  case (go s t s')
  then show ?case using getInstance_keeps by blast
qed

subsection \<open>A loader that is ready\<close>

lemma load_procs_None:
  "load_procs D ns l = (l', None) \<Longrightarrow> (\<forall>n\<in>set ns. procs l' n) \<and> (\<forall>n. procs l n \<longrightarrow> n \<notin> set ns \<longrightarrow> procs l' n) \<and> hInst l' = hInst l \<and> ready l' = ready l"
proof (induction ns arbitrary: l)
  case (Cons m ns)
  let ?l = "l\<lparr>procs := (procs l)(m := True)\<rparr>"
  from Cons.prems have ok: "dll_exports D m" "load_procs D ns ?l = (l', None)" by (auto simp: Let_def split: if_splits)
  from Cons.IH [OF ok(2)] show ?case by auto
qed simp

lemma prepare_ok:
  assumes "prepare D l = (l', None)"
  shows "ready l' \<and> hInst l' \<and> (\<forall>n\<in>set PROC_NAMES. procs l' n) \<and> version_fits (dll_version D)"
proof -
  from assms obtain l2 where l2: "dll_found D" "load_procs D PROC_NAMES (l\<lparr>hInst := True\<rparr>) = (l2, None)"
      "l' = l2\<lparr>ready := True\<rparr>" "\<exists>x. checkVersion D l2 = Inr x"
    by (auto simp: prepare_def Let_def split: if_splits option.splits prod.splits sum.splits)
  moreover have "version_fits (dll_version D)" using l2(4) by (auto simp: checkVersion_def error_quit_def split: if_splits)
  ultimately show ?thesis using load_procs_None [OF l2(2)] by simp
qed

lemma prepare_fault_keeps_ready:
  assumes "prepare D l = (l', Some e)"
  shows "ready l' = ready l"
proof -
  have r: "ready (fst (load_procs D ns m)) = ready m" for ns m
    by (induction ns arbitrary: m) (auto simp: Let_def)
  show ?thesis using assms r [of PROC_NAMES "l\<lparr>hInst := True\<rparr>"]
    by (auto simp: prepare_def Let_def split: if_splits option.splits prod.splits sum.splits)
qed

text \<open>A loader that is prepared again while its library cannot be read any more stays ready, with a null pointer.\<close>

lemma stale_ready:
  assumes "ready l" and "dll_found D" and "\<not> dll_exports D ''WelsCreateSVCEncoder''"
  shows "\<exists>l' e. prepare D l = (l', Some e) \<and> isReady l' \<and> oh_call ''WelsCreateSVCEncoder'' l' x = Inl Undef"
  using assms by (simp add: prepare_def PROC_NAMES_def isReady_def oh_call_def)

text \<open>The lines below the interface's calls.\<close>

lemma ready_calls: "(\<forall>n\<in>set PROC_NAMES. procs l n) \<Longrightarrow> n \<in> set PROC_NAMES \<Longrightarrow> oh_call n l x = Inr x"
  by (simp add: oh_call_def)

text \<open>A library that has everything.\<close>

definition sample_dll :: dll where
  "sample_dll = \<lparr>dll_found = True, dll_exports = (\<lambda>_. True), dll_version = (2, 1, 1)\<rparr>"

lemma sample_prepare: "\<exists>l. prepare sample_dll ol_new = (l, None)"
  by (simp add: prepare_def sample_dll_def PROC_NAMES_def checkVersion_def version_fits_def OPENH264_VERSION_def)

subsection \<open>Properties\<close>



end
