(* ===== verification/EncoderOpenH264.thy ===== *)
theory EncoderOpenH264
  imports OpenH264 TextureArena Frame "HOL-Library.Sublist"
begin

text \<open>
  \<open>EncoderOpenH264\<close> of \<open>src/src/server/platform/software\<close>: the producer puts a frame into a slot of one place, the worker
  takes it, encodes it and calls back. OpenH264's encoder is the record \<open>oh_encoder\<close>; what \<open>EncodeFrame\<close> returns is a
  frame type and layers, each a buffer with the lengths of the NAL units in it. Waiting on the condition variable
  is \<open>Blocked\<close>. The first start prepares the loader.
\<close>

datatype oh_frame_type = OH_Skip | OH_IDR | OH_Other

record oh_layer =
  pBsBuf :: bytes
  pNalLengthInByte :: "nat list"

record 'px oh_picture =
  pic_width :: int
  pic_height :: int
  iStride :: "int list"
  pic_content :: 'px

record ('c, 'px) oh_encoder =
  oe_create :: "int \<times> 'c"
  oe_initialize :: "int \<Rightarrow> int \<Rightarrow> 'c \<Rightarrow> int \<times> 'c"
  oe_setI420 :: "'c \<Rightarrow> int \<times> 'c"
  oe_encode :: "'px oh_picture \<Rightarrow> 'c \<Rightarrow> int \<times> (oh_frame_type \<times> oh_layer list) \<times> 'c"

record 'px e264 =
  e6_loader :: "oh_loader option"
  e6_width :: int
  e6_height :: int
  nextFrameAvailable :: bool
  e6_flagRun :: bool
  e6_thread :: thread_state
  nextFrame :: "'px texture frame_of"

definition e6_new :: "'px \<Rightarrow> 'px e264" where
  "e6_new px = \<lparr>e6_loader = None, e6_width = -1, e6_height = -1, nextFrameAvailable = False, e6_flagRun = False,
     e6_thread = Idle, nextFrame = frame_init (texture_new px)\<rparr>"

definition e6_destroy :: "'px e264 \<Rightarrow> thread_state res" where
  "e6_destroy e = join_thread (e6_thread e)"

definition e6_start :: "'px e264 \<Rightarrow> 'px e264 res" where
  "e6_start e =
     rbind (assert_quit (\<not> e6_flagRun e) ''Encoder is already started'') (\<lambda>_.
     rbind (join_thread (e6_thread e)) (\<lambda>t.
     rbind (spawn_thread t) (\<lambda>t.
       Inr (e\<lparr>e6_flagRun := True, e6_thread := t\<rparr>))))"

definition e6_stop :: "'px e264 \<Rightarrow> 'px e264" where
  "e6_stop e = e\<lparr>e6_flagRun := False\<rparr>"

definition e6_setResolution :: "int \<Rightarrow> int \<Rightarrow> 'px e264 \<Rightarrow> 'px e264" where
  "e6_setResolution w h e = e\<lparr>e6_width := w, e6_height := h\<rparr>"

definition e6_pushData :: "'px texture frame_of \<Rightarrow> 'px e264 \<Rightarrow> 'px e264 res" where
  "e6_pushData f e =
     (if nextFrameAvailable e \<and> e6_flagRun e then Inl Blocked
      else Inr (e\<lparr>nextFrameAvailable := True, nextFrame := f\<rparr>))"

subsection \<open>The worker thread\<close>

text \<open>What happens before the loop: the loader, the encoder object and its parameters.\<close>

definition e6_open :: "dll \<Rightarrow> ('c, 'px) oh_encoder \<Rightarrow> 'px e264 \<Rightarrow> ('px e264 \<times> 'c) res" where
  "e6_open D K e =
     rbind (case e6_loader e of
              Some l \<Rightarrow> Inr l
            | None \<Rightarrow> (case prepare D ol_new of (l, Some f) \<Rightarrow> Inl f | (l, None) \<Rightarrow> Inr l)) (\<lambda>l.
     rbind (assert_quit (e6_loader e \<noteq> None \<or> isReady l) ''OpenH264 not ready after prepare()!'') (\<lambda>_.
     rbind (oh_call ''WelsCreateSVCEncoder'' l (oe_create K)) (\<lambda>(err, c).
     rbind (assert_quit (err = 0) ''Failde to create encoder instance'') (\<lambda>_.
       let (err, c1) = oe_initialize K (e6_width e) (e6_height e) c in
     rbind (assert_quit (err = 0) ''Failed to initialize encoder'') (\<lambda>_.
       let (err, c2) = oe_setI420 K c1 in
     rbind (assert_quit (err = 0) ''Failed to set dataformat to {}'') (\<lambda>_.
       Inr (e\<lparr>e6_loader := Some l\<rparr>, c2)))))))"

text \<open>The planes of the picture have to lie behind each other without a gap.\<close>

definition planes_follow :: "int \<Rightarrow> int \<Rightarrow> 'px texture \<Rightarrow> unit res" where
  "planes_follow w h t =
     (case take 3 (tex_data t) of
        [Some p0, Some p1, Some p2] \<Rightarrow>
          rbind (assert_quit (int p1 = int p0 + w * h) ''Requirement #1 unsatisfied'') (\<lambda>_.
            assert_quit (int p2 = int p1 + c_div (w * h) 4) ''Requirement #2 unsatisfied'')
      | _ \<Rightarrow> Inl Undef)"

definition e6_picture :: "'px texture \<Rightarrow> 'px oh_picture" where
  "e6_picture t = \<lparr>pic_width = tex_width t, pic_height = tex_height t, iStride = take 3 (tex_linesize t), pic_content = pixels t\<rparr>"

text \<open>The layers' bytes in a row.\<close>

fun combine_layers :: "oh_layer list \<Rightarrow> bytes \<Rightarrow> bytes res" where
  "combine_layers [] combined = Inr combined"
| "combine_layers (l # ls) combined =
     (let layerSize = sum_list (pNalLengthInByte l) in
      if length (pBsBuf l) < layerSize then Inl Undef
      else combine_layers ls (combined @ take layerSize (pBsBuf l)))"

definition e6_encode :: "('c, 'px) oh_encoder \<Rightarrow> int \<Rightarrow> int \<Rightarrow> int \<Rightarrow> 'px texture frame_of \<Rightarrow> 'c \<Rightarrow> (bytes frame_of option \<times> 'c) res" where
  "e6_encode K w h now cap c =
     rbind (planes_follow w h (desktop cap)) (\<lambda>_.
     let (err, (ty, layers), c') = oe_encode K (e6_picture (desktop cap)) c in
     rbind (assert_quit (err = 0) ''Failed to encode a frame'') (\<lambda>_.
       if ty = OH_Skip then Inr (None, c')
       else rbind (combine_layers layers []) (\<lambda>combined.
              Inr (Some ((getOtherType cap combined)\<lparr>timeEncoded := now, isIDR := (ty = OH_IDR)\<rparr>), c'))))"

text \<open>One round of the loop: whether the loop goes on, the frame taken and what was called back.\<close>

definition e6_round :: "('c, 'px) oh_encoder \<Rightarrow> int \<Rightarrow> 'px e264 \<Rightarrow> 'c \<Rightarrow>
    (bool \<times> 'px e264 \<times> 'c \<times> ('px texture frame_of \<times> bytes frame_of option) list) res" where
  "e6_round K now e c =
     (if \<not> e6_flagRun e then Inr (False, e, c, [])
      else if \<not> nextFrameAvailable e then Inl Blocked
      else rbind (e6_encode K (e6_width e) (e6_height e) now (nextFrame e) c) (\<lambda>(out, c').
             Inr (True, e\<lparr>nextFrameAvailable := False\<rparr>, c', [(nextFrame e, out)])))"

definition e6_close :: "'px e264 \<Rightarrow> 'px e264" where
  "e6_close e = e\<lparr>e6_thread := Ended\<rparr>"

subsection \<open>The slot\<close>

text \<open>
  \<open>e6_life D K (e, c, pushed, done_with, lost)\<close>: an encoder after any calls and rounds. \<open>c\<close> is the running worker's
  encoder object; \<open>pushed\<close> is every frame of the producer, \<open>done_with\<close> what the workers took with what they called back, and
  \<open>lost\<close> the number of frames that another overwrote in the slot.
\<close>

type_synonym ('c, 'px) e6_history =
  "'px e264 \<times> 'c option \<times> 'px texture frame_of list \<times> ('px texture frame_of \<times> bytes frame_of option) list \<times> nat"

inductive e6_life :: "dll \<Rightarrow> ('c, 'px) oh_encoder \<Rightarrow> ('c, 'px) e6_history \<Rightarrow> bool" for D K where
  e6_begin: "e6_life D K (e6_new px, None, [], [], 0)"
| e6_starts: "e6_life D K (e, c, ps, ds, n) \<Longrightarrow> e6_start e = Inr e' \<Longrightarrow> e6_life D K (e', None, ps, ds, n)"
| e6_stops: "e6_life D K (e, c, ps, ds, n) \<Longrightarrow> e6_life D K (e6_stop e, c, ps, ds, n)"
| e6_resolution: "e6_life D K (e, c, ps, ds, n) \<Longrightarrow> e6_life D K (e6_setResolution w h e, c, ps, ds, n)"
| e6_push: "e6_life D K (e, c, ps, ds, n) \<Longrightarrow> e6_pushData f e = Inr e' \<Longrightarrow>
    e6_life D K (e', c, ps @ [f], ds, n + (if nextFrameAvailable e then 1 else 0))"
| e6_opens: "e6_life D K (e, None, ps, ds, n) \<Longrightarrow> e6_thread e = Working \<Longrightarrow> e6_open D K e = Inr (e', c) \<Longrightarrow>
    e6_life D K (e', Some c, ps, ds, n)"
| e6_rounds: "e6_life D K (e, Some c, ps, ds, n) \<Longrightarrow> e6_thread e = Working \<Longrightarrow> e6_round K now e c = Inr (True, e', c', out) \<Longrightarrow>
    e6_life D K (e', Some c', ps, ds @ out, n)"
| e6_ends: "e6_life D K (e, Some c, ps, ds, n) \<Longrightarrow> e6_thread e = Working \<Longrightarrow> e6_round K now e c = Inr (False, e', c', out) \<Longrightarrow>
    e6_life D K (e6_close e', None, ps, ds, n)"

definition slot :: "'px e264 \<Rightarrow> 'px texture frame_of list" where
  "slot e = (if nextFrameAvailable e then [nextFrame e] else [])"

text \<open>What becomes of a frame that is taken.\<close>

definition delivered :: "'px texture frame_of \<times> bytes frame_of option \<Rightarrow> bool" where
  "delivered d = (case snd d of None \<Rightarrow> True
     | Some out \<Rightarrow> cursorPos out = cursorPos (fst d) \<and> cursorShape out = cursorShape (fst d) \<and> timeCaptured out = timeCaptured (fst d))"

definition slot_inv :: "('c, 'px) e6_history \<Rightarrow> bool" where
  "slot_inv h = (case h of (e, c, ps, ds, n) \<Rightarrow>
     subseq (map fst ds @ slot e) ps \<and> length ps = length ds + length (slot e) + n \<and> list_all delivered ds \<and>
     (nextFrameAvailable e \<longrightarrow> ps \<noteq> [] \<and> last ps = nextFrame e))"

lemma e6_encode_delivered: "e6_encode K w h now cap c = Inr (out, c') \<Longrightarrow> delivered (cap, out)"
  by (auto simp: e6_encode_def delivered_def rbind_eq_Inr split: prod.splits if_splits)

lemma e6_round_True:
  assumes "e6_round K now e c = Inr (True, e', c', out)"
  shows "\<exists>o'. nextFrameAvailable e \<and> slot e' = [] \<and> \<not> nextFrameAvailable e' \<and> out = [(nextFrame e, o')] \<and> delivered (nextFrame e, o')"
  using assms by (auto simp: e6_round_def slot_def rbind_eq_Inr split: if_splits dest: e6_encode_delivered)

lemma e6_open_loader: "e6_open D K e = Inr (e', c) \<Longrightarrow> \<exists>l. e' = e\<lparr>e6_loader := Some l\<rparr>"
  by (auto simp: e6_open_def rbind_eq_Inr Let_def split_def)

lemma same_slot: "nextFrameAvailable e' = nextFrameAvailable e \<Longrightarrow> nextFrame e' = nextFrame e \<Longrightarrow>
    slot_inv (e, c, ps, ds, n) \<Longrightarrow> slot_inv (e', c', ps, ds, n)"
  by (cases "nextFrameAvailable e") (simp_all add: slot_inv_def slot_def)

lemma e6_push_inv:
  assumes inv: "slot_inv (e, c, ps, ds, n)" and p: "e6_pushData f e = Inr e'"
  shows "slot_inv (e', c, ps @ [f], ds, n + (if nextFrameAvailable e then 1 else 0))"
proof -
  from p have s: "slot e' = [f]" "nextFrameAvailable e'" "nextFrame e' = f"
    by (auto simp: e6_pushData_def slot_def split: if_splits)
  have "subseq (map fst ds) (map fst ds @ slot e)" by (simp add: list_emb_prefix)
  moreover have "subseq (map fst ds @ slot e) ps" using inv by (simp add: slot_inv_def)
  ultimately have "subseq (map fst ds) ps" by (rule subseq_order.trans)
  then have "subseq (map fst ds @ [f]) (ps @ [f])" by (simp add: list_emb_append_mono)
  with inv s show ?thesis by (auto simp: slot_inv_def slot_def)
qed

lemma e6_life_inv: "e6_life D K h \<Longrightarrow> slot_inv h"
proof (induction rule: e6_life.induct)
  case e6_begin
  then show ?case by (simp add: slot_inv_def slot_def e6_new_def)
next
  case (e6_starts e c ps ds n e')
  then show ?case using same_slot [of e' e] by (auto simp: e6_start_def rbind_eq_Inr)
next
  case (e6_stops e c ps ds n)
  then show ?case using same_slot [of "e6_stop e" e] by (simp add: e6_stop_def)
next
  case (e6_resolution e c ps ds n w h)
  then show ?case using same_slot [of "e6_setResolution w h e" e] by (simp add: e6_setResolution_def)
next
  case (e6_push e c ps ds n f e')
  then show ?case using e6_push_inv by blast
next
  case (e6_opens e ps ds n e' c)
  then show ?case using same_slot [of e' e] e6_open_loader [OF e6_opens.hyps(3)] by auto
next
  case (e6_rounds e c ps ds n now e' c' out)
  then show ?case using e6_round_True [OF e6_rounds.hyps(3)] by (auto simp: slot_inv_def slot_def)
next
  case (e6_ends e c ps ds n now e' c' out)
  then have "e' = e" by (auto simp: e6_round_def split: if_splits)
  with e6_ends show ?case using same_slot [of "e6_close e'" e] by (simp add: e6_close_def)
qed

subsection \<open>The encoded frame\<close>

lemma combine_layers_ok:
  "list_all (\<lambda>l. sum_list (pNalLengthInByte l) \<le> length (pBsBuf l)) ls \<Longrightarrow>
     combine_layers ls acc = Inr (acc @ concat (map (\<lambda>l. take (sum_list (pNalLengthInByte l)) (pBsBuf l)) ls))"
  by (induction ls arbitrary: acc) (auto simp: Let_def)

text \<open>A frame that is left in the slot when the encoder is stopped is the first one of the next stream.\<close>

lemma stopped_frame_stays:
  assumes "nextFrameAvailable e" and "e6_thread e \<noteq> Working"
  shows "\<exists>e'. e6_start (e6_stop e) = Inr e' \<and> slot e' = [nextFrame e]"
  using assms by (auto simp: e6_start_def e6_stop_def join_thread_def spawn_thread_def slot_def)

text \<open>Planes whose rows are padded end the process at the first frame.\<close>

lemma padded_planes_fatal:
  assumes "take 3 (tex_data t) = [Some p0, Some p1, Some p2]" and "int p1 \<noteq> int p0 + w * h"
  shows "planes_follow w h t = Inl (Fatal ''Requirement #1 unsatisfied'')"
  using assms by (simp add: planes_follow_def)

subsection \<open>Properties\<close>

text \<open>C38: the slot loses no frame of a running encoder. In any life of the encoder, over any number of streams, the frames that
  workers took are frames of the producer, in their order, none twice, and the slot holds the newest; every frame
  was taken, waits in the slot or was overwritten there, which a running encoder does not do: the producer
  waits. What is called back has the cursor and the capture time of the frame it was made of.\<close>

theorem slot_keeps_order:
  assumes "e6_life D K (e, c, ps, ds, n)"
  shows "subseq (map fst ds @ slot e) ps \<and> length ps = length ds + length (slot e) + n \<and>
    (n = 0 \<longrightarrow> map fst ds @ slot e = ps) \<and> (slot e \<noteq> [] \<longrightarrow> last ps = nextFrame e) \<and>
    (e6_flagRun e \<longrightarrow> (e6_pushData f e = Inl Blocked \<longleftrightarrow> slot e \<noteq> [])) \<and>
    (\<forall>fr out. (fr, Some out) \<in> set ds \<longrightarrow>
       cursorPos out = cursorPos fr \<and> cursorShape out = cursorShape fr \<and> timeCaptured out = timeCaptured fr)"
proof -
  from e6_life_inv [OF assms] have inv: "subseq (map fst ds @ slot e) ps" "length ps = length ds + length (slot e) + n"
      "list_all delivered ds" "nextFrameAvailable e \<longrightarrow> ps \<noteq> [] \<and> last ps = nextFrame e" by (auto simp: slot_inv_def)
  have "map fst ds @ slot e = ps" if "n = 0"
    by (rule subseq_same_length [OF inv(1)]) (use inv(2) that in simp)
  moreover have "delivered (fr, Some out)" if "(fr, Some out) \<in> set ds" for fr out
    using inv(3) that by (auto simp: list_all_iff)
  ultimately show ?thesis using inv by (auto simp: slot_def e6_pushData_def delivered_def)
qed

definition sample_oh :: "(unit, nat) oh_encoder" where
  "sample_oh = \<lparr>oe_create = (0, ()), oe_initialize = (\<lambda>w h c. (0, ())), oe_setI420 = (\<lambda>c. (0, ())),
     oe_encode = (\<lambda>pic c. (0, (OH_IDR, [\<lparr>pBsBuf = [1, 2, 3], pNalLengthInByte = [1, 1]\<rparr>]), ()))\<rparr>"

definition sample_i420 :: "nat texture frame_of" where
  "sample_i420 = (frame_init ((texture_new 5)\<lparr>tex_width := 4, tex_height := 2, tex_data := [Some 100, Some 108, Some 110, None],
     tex_linesize := [4, 2, 2, 0]\<rparr>))\<lparr>timeCaptured := 9\<rparr>"

theorem slot_keeps_order_witness:
  "\<exists>e out. e6_life sample_dll sample_oh (e, Some (), [sample_i420], [(sample_i420, Some out)], 0) \<and>
     desktop out = [1, 2] \<and> timeCaptured out = 9"
proof -
  let ?e1 = "e6_setResolution 4 2 (e6_new (0 :: nat))"
  let ?e2 = "?e1\<lparr>e6_flagRun := True, e6_thread := Working\<rparr>"
  let ?e3 = "?e2\<lparr>nextFrameAvailable := True, nextFrame := sample_i420\<rparr>"
  from sample_prepare obtain l where l: "prepare sample_dll ol_new = (l, None)" by blast
  have rl: "isReady l" "procs l ''WelsCreateSVCEncoder''" using prepare_ok [OF l] by (auto simp: isReady_def PROC_NAMES_def)
  let ?e4 = "?e3\<lparr>e6_loader := Some l\<rparr>"
  let ?out = "(getOtherType sample_i420 [1, 2])\<lparr>timeEncoded := 50, isIDR := True\<rparr>"
  have "e6_life sample_dll sample_oh (?e1, None, [], [], 0)" by (intro e6_resolution e6_begin)
  then have "e6_life sample_dll sample_oh (?e2, None, [], [], 0)"
    by (rule e6_starts) (simp add: e6_start_def e6_new_def e6_setResolution_def join_thread_def spawn_thread_def)
  from e6_push [OF this, of sample_i420 ?e3] have "e6_life sample_dll sample_oh (?e3, None, [sample_i420], [], 0)"
    by (simp add: e6_pushData_def e6_new_def e6_setResolution_def)
  then have "e6_life sample_dll sample_oh (?e4, Some (), [sample_i420], [], 0)"
    by (rule e6_opens) (simp_all add: e6_open_def e6_new_def e6_setResolution_def l rl oh_call_def sample_oh_def)
  moreover have "e6_round sample_oh 50 ?e4 () = Inr (True, ?e4\<lparr>nextFrameAvailable := False\<rparr>, (), [(sample_i420, Some ?out)])"
    by (simp add: e6_round_def e6_encode_def planes_follow_def sample_i420_def sample_oh_def e6_new_def e6_setResolution_def
        texture_new_def frame_init_def c_div_def numeral_3_eq_3)
  ultimately have r: "e6_life sample_dll sample_oh (?e4\<lparr>nextFrameAvailable := False\<rparr>, Some (), [sample_i420], [(sample_i420, Some ?out)], 0)"
    using e6_rounds [of sample_dll sample_oh ?e4 "()" "[sample_i420]" "[]" 0 50] by simp
  from slot_keeps_order [OF r] have "timeCaptured ?out = timeCaptured sample_i420" by auto
  with r show ?thesis by (intro exI [of _ "?e4\<lparr>nextFrameAvailable := False\<rparr>"] exI [of _ ?out]) (simp add: sample_i420_def)
qed

end
