(* ===== verification/DecoderOpenH264.thy ===== *)
theory DecoderOpenH264
  imports OpenH264 DecoderFFmpeg "HOL-Library.Sublist"
begin

text \<open>
  \<open>DecoderOpenH264\<close> of \<open>src/src/client/platform/software\<close>: a queue of packets, a worker, and a deque of four decoded frames.
  OpenH264's decoder is the record \<open>oh_decoder\<close>; it decodes without delay, so what comes out belongs to the packet that
  went in. The worker copies a picture into a texture of its arena. When the worker's end destroys textures their slots
  return to the arena; that is the business of \<open>TextureArena\<close> and left out here.

  A reader that finds the deque empty waits on \<open>frameCV\<close>. Who notifies it matters here, so whether it is
  waiting is part of the state of \<open>d6_life\<close>.
\<close>

definition FRAME_QUEUE_264 :: nat where
  "FRAME_QUEUE_264 = 4"

definition videoFormatI420 :: int where
  "videoFormatI420 = 23"

record 'px oh_decoded =
  iBufferStatus :: int
  od_width :: int
  od_height :: int
  od_format :: int
  od_stride :: "int list"
  od_framebuffer :: "nat list"
  od_content :: 'px

record ('c, 'px) oh_decoder =
  od_create :: "int \<times> 'c option"
  od_initialize :: "'c \<Rightarrow> int \<times> 'c"
  od_decode :: "bytes \<Rightarrow> 'c \<Rightarrow> int \<times> 'px oh_decoded \<times> 'c"

record 'px d264 =
  d6_clock :: bool
  d6_loader :: "oh_loader option"
  d6_thread :: thread_state
  d6_flagRun :: bool
  d6_width :: int
  d6_height :: int
  d6_packets :: "bytes frame_of list"
  d6_frames :: "'px texture frame_of circular_deque"

record 'c d6_worker =
  d6_codec :: 'c
  d6_arena :: "nat option"

definition d6_new :: "'px d264" where
  "d6_new = \<lparr>d6_clock = False, d6_loader = None, d6_thread = Idle, d6_flagRun = False, d6_width = -1, d6_height = -1,
     d6_packets = [], d6_frames = cd_new FRAME_QUEUE_264\<rparr>"

definition d6_destroy :: "'px d264 \<Rightarrow> thread_state res" where
  "d6_destroy d = rbind (assert_quit (\<not> d6_flagRun d) ''Being destructed without stopping'') (\<lambda>_. join_thread (d6_thread d))"

definition d6_enumSupportedCodecs :: "codec_type list" where
  "d6_enumSupportedCodecs = [CT_H264_BASELINE]"

definition d6_setVideoResolution :: "int \<Rightarrow> int \<Rightarrow> 'px d264 \<Rightarrow> 'px d264 res" where
  "d6_setVideoResolution w h d =
     rbind (assert_quit (\<not> d6_flagRun d) ''Tried to set resolution while running!'') (\<lambda>_. Inr (d\<lparr>d6_width := w, d6_height := h\<rparr>))"

definition d6_init :: "codec_type \<Rightarrow> bool \<Rightarrow> 'px d264 \<Rightarrow> 'px d264 res" where
  "d6_init ct clk d =
     rbind (assert_quit (ct = CT_H264_BASELINE) ''Unsupported codec {} was requested!'') (\<lambda>_. Inr (d\<lparr>d6_clock := clk\<rparr>))"

text \<open>The new thread is assigned without joining an old one.\<close>

definition d6_start :: "dll \<Rightarrow> 'px d264 \<Rightarrow> 'px d264 res" where
  "d6_start D d =
     rbind (assert_quit (d6_clock d) ''Not initialized before start!'') (\<lambda>_.
     rbind (case d6_loader d of
              Some l \<Rightarrow> Inr l
            | None \<Rightarrow> (case prepare D ol_new of (l, Some f) \<Rightarrow> Inl f | (l, None) \<Rightarrow> Inr l)) (\<lambda>l.
     rbind (spawn_thread (d6_thread d)) (\<lambda>t.
       Inr (d\<lparr>d6_loader := Some l, d6_flagRun := True, d6_thread := t\<rparr>))))"

definition d6_stop :: "'px d264 \<Rightarrow> 'px d264" where
  "d6_stop d = d\<lparr>d6_flagRun := False\<rparr>"

definition d6_pushData :: "bytes frame_of \<Rightarrow> 'px d264 \<Rightarrow> 'px d264" where
  "d6_pushData f d = d\<lparr>d6_packets := d6_packets d @ [f]\<rparr>"

definition d6_readSoftware :: "'px d264 \<Rightarrow> ('px texture frame_of option \<times> 'px d264) res" where
  "d6_readSoftware d =
     (if cd_empty (d6_frames d) \<and> d6_flagRun d then Inl Blocked
      else if \<not> d6_flagRun d then Inr (None, d)
      else rbind (take_front FRAME_QUEUE_264 (d6_frames d)) (\<lambda>(f, q). Inr (Some f, d\<lparr>d6_frames := q\<rparr>)))"

subsection \<open>The worker thread\<close>

definition d6_open :: "('c, 'px) oh_decoder \<Rightarrow> 'px d264 \<Rightarrow> 'c d6_worker res" where
  "d6_open A d =
     (case d6_loader d of
        None \<Rightarrow> Inl Undef
      | Some l \<Rightarrow>
          rbind (oh_call ''WelsCreateDecoder'' l (od_create A)) (\<lambda>(err, dec).
            case dec of
              None \<Rightarrow> error_quit ''Failed to create decoder instance''
            | Some c \<Rightarrow>
                rbind (assert_quit (err = 0) ''Failed to create decoder instance'') (\<lambda>_.
                let (err, c1) = od_initialize A c in
                rbind (assert_quit (err = 0) ''Failed to initialize decoder'') (\<lambda>_.
                  Inr \<lparr>d6_codec = c1, d6_arena = None\<rparr>))))"

text \<open>The arena is chosen for the first picture; later ones have to fit it.\<close>

definition d6_texture :: "av_image \<Rightarrow> 'px oh_decoded \<Rightarrow> nat option \<Rightarrow> arenas \<Rightarrow> ('px texture \<times> nat \<times> arenas) res" where
  "d6_texture av r arena st =
     rbind (assert_quit (od_format r = videoFormatI420) ''Unknown OpenH264 video format {}'') (\<lambda>_.
     rbind (case arena of
              None \<Rightarrow> getArena av (od_width r) (od_height r) AV_YUV420P st
            | Some aid \<Rightarrow>
                rbind (assert_quit (checkConfig (od_width r) (od_height r) AV_YUV420P (st ! aid)) ''Texture format changed while running!'')
                  (\<lambda>_. Inr (aid, st))) (\<lambda>(aid, st1).
     if length (od_stride r) < 2 then Inl Undef
     else rbind (tex_reference av (od_content r) (od_framebuffer r)
                   [od_stride r ! 0, od_stride r ! 1, od_stride r ! 1, 0] (od_width r) (od_height r) AV_YUV420P) (\<lambda>t.
          rbind (tex_clone av (Some aid) t st1) (\<lambda>(t', st2). Inr (t', aid, st2)))))"

text \<open>One round: whether the loop goes on, the state and arenas, and the packet taken with the frame made of it.\<close>

definition d6_round :: "('c, 'px) oh_decoder \<Rightarrow> av_image \<Rightarrow> int \<Rightarrow> 'px d264 \<times> 'c d6_worker \<times> arenas \<Rightarrow>
    (bool \<times> ('px d264 \<times> 'c d6_worker \<times> arenas) \<times> (bytes frame_of \<times> 'px texture frame_of option) list) res" where
  "d6_round A av now s =
     (case s of (d, w, st) \<Rightarrow>
      if \<not> d6_flagRun d then Inr (False, s, [])
      else (case d6_packets d of
          [] \<Rightarrow> Inl Blocked
        | p # ps \<Rightarrow>
            let (err, r, c) = od_decode A (desktop p) (d6_codec w); d1 = d\<lparr>d6_packets := ps\<rparr>; w1 = w\<lparr>d6_codec := c\<rparr> in
            rbind (assert_quit (err = 0) ''Failed to decode frame'') (\<lambda>_.
              if iBufferStatus r = 1
              then rbind (d6_texture av r (d6_arena w) st) (\<lambda>(t, aid, st1).
                   let f = (getOtherType p t)\<lparr>timeDecoded := now\<rparr> in
                   rbind (push_back FRAME_QUEUE_264 f (d6_frames d1)) (\<lambda>q.
                     Inr (True, (d1\<lparr>d6_frames := q\<rparr>, w1\<lparr>d6_arena := Some aid\<rparr>, st1), [(p, Some f)])))
              else Inr (True, (d1, w1, st), [(p, None)]))))"

definition d6_close :: "'px d264 \<Rightarrow> 'px d264" where
  "d6_close d = d\<lparr>d6_frames := cd_clear FRAME_QUEUE_264 (d6_frames d), d6_thread := Ended\<rparr>"

subsection \<open>The decoder's life\<close>

text \<open>
  History: the packets pushed, those taken with what became of them, the frames given to the reader. \<open>waits\<close>: the
  reader has called \<open>readSoftware\<close>, found nothing and waits on \<open>frameCV\<close>; only \<open>stop\<close> notifies that variable, so
  only then it looks again.
\<close>

record 'px d6_history =
  h6_pushed :: "bytes frame_of list"
  h6_taken :: "(bytes frame_of \<times> 'px texture frame_of option) list"
  h6_given :: "'px texture frame_of list"
  h6_waits :: bool

definition h6_none :: "'px d6_history" where
  "h6_none = \<lparr>h6_pushed = [], h6_taken = [], h6_given = [], h6_waits = False\<rparr>"

datatype d6_event = E_Call | E_Stop | E_Round

inductive d6_step :: "dll \<Rightarrow> ('c, 'px) oh_decoder \<Rightarrow> av_image \<Rightarrow> d6_event \<Rightarrow>
    'px d264 \<times> ('c d6_worker \<times> arenas) option \<times> 'px d6_history \<Rightarrow> 'px d264 \<times> ('c d6_worker \<times> arenas) option \<times> 'px d6_history \<Rightarrow> bool"
  for D A av where
  s6_init: "d6_init ct clk d = Inr d' \<Longrightarrow> d6_step D A av E_Call (d, w, h) (d', w, h)"
| s6_resolution: "d6_setVideoResolution x y d = Inr d' \<Longrightarrow> d6_step D A av E_Call (d, w, h) (d', w, h)"
| s6_start: "d6_start D d = Inr d' \<Longrightarrow> d6_step D A av E_Call (d, w, h) (d', w, h)"
| s6_push: "d6_step D A av E_Call (d, w, h) (d6_pushData f d, w, h\<lparr>h6_pushed := h6_pushed h @ [f]\<rparr>)"
| s6_read: "\<not> h6_waits h \<Longrightarrow> d6_readSoftware d = Inr (r, d') \<Longrightarrow>
    d6_step D A av E_Call (d, w, h) (d', w, h\<lparr>h6_given := h6_given h @ (case r of Some f \<Rightarrow> [f] | None \<Rightarrow> [])\<rparr>)"
| s6_wait: "\<not> h6_waits h \<Longrightarrow> d6_readSoftware d = Inl Blocked \<Longrightarrow> d6_step D A av E_Call (d, w, h) (d, w, h\<lparr>h6_waits := True\<rparr>)"
| s6_stop: "d6_step D A av E_Stop (d, w, h) (d6_stop d, w, h\<lparr>h6_waits := False\<rparr>)"
| s6_open: "d6_thread d = Working \<Longrightarrow> d6_open A d = Inr w \<Longrightarrow> d6_step D A av E_Round (d, None, h) (d, Some (w, st), h)"
| s6_round: "d6_thread d = Working \<Longrightarrow> d6_round A av now (d, w, st) = Inr (True, (d', w', st'), out) \<Longrightarrow>
    d6_step D A av E_Round (d, Some (w, st), h) (d', Some (w', st'), h\<lparr>h6_taken := h6_taken h @ out\<rparr>)"
| s6_end: "d6_thread d = Working \<Longrightarrow> d6_round A av now (d, w, st) = Inr (False, (d', w', st'), out) \<Longrightarrow>
    d6_step D A av E_Round (d, Some (w, st), h) (d6_close d', None, h)"

inductive d6_life :: "dll \<Rightarrow> ('c, 'px) oh_decoder \<Rightarrow> av_image \<Rightarrow> 'px d264 \<times> ('c d6_worker \<times> arenas) option \<times> 'px d6_history \<Rightarrow> bool"
  for D A av where
  l6_new: "d6_life D A av (d6_new, None, h6_none)"
| l6_step: "d6_life D A av s \<Longrightarrow> d6_step D A av ev s s' \<Longrightarrow> d6_life D A av s'"

text \<open>Frames made of the packets that were taken.\<close>

definition frames_made :: "(bytes frame_of \<times> 'px texture frame_of option) list \<Rightarrow> 'px texture frame_of list" where
  "frames_made ts = List.map_filter snd ts"

definition own_data :: "bytes frame_of \<times> 'px texture frame_of option \<Rightarrow> bool" where
  "own_data t = (case snd t of None \<Rightarrow> True
     | Some f \<Rightarrow> cursorPos f = cursorPos (fst t) \<and> cursorShape f = cursorShape (fst t) \<and> timeCaptured f = timeCaptured (fst t))"

definition d6_inv :: "'px d264 \<times> ('c d6_worker \<times> arenas) option \<times> 'px d6_history \<Rightarrow> bool" where
  "d6_inv s = (case s of (d, w, h) \<Rightarrow>
     cd_inv FRAME_QUEUE_264 (d6_frames d) \<and> h6_pushed h = map fst (h6_taken h) @ d6_packets d \<and> list_all own_data (h6_taken h) \<and>
     (d6_thread d = Working \<longrightarrow> frames_made (h6_taken h) = h6_given h @ cd_list FRAME_QUEUE_264 (d6_frames d)) \<and>
     (d6_thread d = Idle \<longrightarrow> h6_taken h = [] \<and> h6_given h = [] \<and> cd_list FRAME_QUEUE_264 (d6_frames d) = []) \<and>
     (d6_thread d = Ended \<longrightarrow> cd_list FRAME_QUEUE_264 (d6_frames d) = []) \<and>
     prefix (h6_given h) (frames_made (h6_taken h)))"

lemma frames_made_simps [simp]:
  "frames_made [] = []" "frames_made (ts @ us) = frames_made ts @ frames_made us"
  "frames_made [(p, Some f)] = [f]" "frames_made [(p, None)] = []"
  by (simp_all add: frames_made_def map_filter_def)

lemma take_front_fifo:
  assumes "cd_inv FRAME_QUEUE_264 q" and "take_front FRAME_QUEUE_264 q = Inr (f, q')"
  shows "cd_inv FRAME_QUEUE_264 q' \<and> cd_list FRAME_QUEUE_264 q = f # cd_list FRAME_QUEUE_264 q'"
proof (cases "cd_list FRAME_QUEUE_264 q")
  case Nil
  with assms(2) show ?thesis by (simp add: take_front_def deque_front_def cd_empty_def cd_list_Nil_iff error_quit_def)
next
  case (Cons x xs)
  from pop_front_inv [OF assms(1) Cons] front_eq [OF assms(1) Cons] assms(2) show ?thesis by (auto simp: take_front_def Cons)
qed

lemma push_back_fifo:
  assumes "cd_inv FRAME_QUEUE_264 q" and "push_back FRAME_QUEUE_264 f q = Inr q'"
  shows "cd_inv FRAME_QUEUE_264 q' \<and> cd_list FRAME_QUEUE_264 q' = cd_list FRAME_QUEUE_264 q @ [f]"
proof -
  have "dsize q < FRAME_QUEUE_264" using assms(2) by (auto simp: push_back_def cd_full_def error_quit_def split: if_splits)
  from push_back_inv [OF assms(1) this, of f] assms(2) show ?thesis by auto
qed

lemma d6_round_True:
  assumes "d6_round A av now (d, w, st) = Inr (True, (d', w', st'), out)"
  obtains p ps where "d6_flagRun d" "d6_packets d = p # ps" "d6_packets d' = ps" "d6_thread d' = d6_thread d"
    "out = [(p, None)] \<and> d6_frames d' = d6_frames d \<or>
     (\<exists>f. out = [(p, Some f)] \<and> own_data (p, Some f) \<and> push_back FRAME_QUEUE_264 f (d6_frames d) = Inr (d6_frames d'))"
proof -
  from assms obtain p ps where p: "d6_flagRun d" "d6_packets d = p # ps" by (cases "d6_packets d") (auto simp: d6_round_def split: if_splits)
  with assms have "d6_packets d' = ps" "d6_thread d' = d6_thread d" "out = [(p, None)] \<and> d6_frames d' = d6_frames d \<or>
     (\<exists>f. out = [(p, Some f)] \<and> own_data (p, Some f) \<and> push_back FRAME_QUEUE_264 f (d6_frames d) = Inr (d6_frames d'))"
    by (auto simp: d6_round_def rbind_eq_Inr Let_def split_def own_data_def split: if_splits)
  with p that show thesis by blast
qed

lemma d6_round_False: "d6_round A av now (d, w, st) = Inr (False, (d', w', st'), out) \<Longrightarrow> d' = d \<and> \<not> d6_flagRun d"
  by (auto simp: d6_round_def rbind_eq_Inr Let_def split_def split: if_splits list.splits)

lemma d6_round_inv:
  assumes inv: "d6_inv (d, w, h)" and working: "d6_thread d = Working"
    and r: "d6_round A av now (d, wk, st) = Inr (True, (d', wk', st'), out)"
  shows "d6_inv (d', w', h\<lparr>h6_taken := h6_taken h @ out\<rparr>)"
proof -
  from d6_round_True [OF r] obtain p ps where p: "d6_packets d = p # ps" "d6_packets d' = ps" "d6_thread d' = d6_thread d"
    and o: "out = [(p, None)] \<and> d6_frames d' = d6_frames d \<or>
     (\<exists>f. out = [(p, Some f)] \<and> own_data (p, Some f) \<and> push_back FRAME_QUEUE_264 f (d6_frames d) = Inr (d6_frames d'))" by metis
  have q: "cd_inv FRAME_QUEUE_264 (d6_frames d)" "frames_made (h6_taken h) = h6_given h @ cd_list FRAME_QUEUE_264 (d6_frames d)"
    using inv working by (auto simp: d6_inv_def)
  from o q push_back_fifo [OF q(1)] have "cd_inv FRAME_QUEUE_264 (d6_frames d')"
      "frames_made (h6_taken h @ out) = h6_given h @ cd_list FRAME_QUEUE_264 (d6_frames d')" "map fst out = [p]" "list_all own_data out"
    by (auto simp: own_data_def)
  with inv p working show ?thesis by (auto simp: d6_inv_def)
qed

lemma d6_read_inv:
  assumes inv: "d6_inv (d, w, h)" and r: "d6_readSoftware d = Inr (r, d')"
  shows "d6_inv (d', w, h\<lparr>h6_given := h6_given h @ (case r of Some f \<Rightarrow> [f] | None \<Rightarrow> [])\<rparr>)"
proof (cases r)
  case None
  with r have "d' = d" by (auto simp: d6_readSoftware_def rbind_eq_Inr split: if_splits)
  with inv None show ?thesis by (simp add: d6_inv_def)
next
  case (Some f)
  with r have tk: "take_front FRAME_QUEUE_264 (d6_frames d) = Inr (f, d6_frames d')" and d': "d' = d\<lparr>d6_frames := d6_frames d'\<rparr>"
    by (auto simp: d6_readSoftware_def rbind_eq_Inr split: if_splits)
  have q: "cd_inv FRAME_QUEUE_264 (d6_frames d)" using inv by (simp add: d6_inv_def)
  note f = take_front_fifo [OF q tk]
  then have "d6_thread d = Working" using inv by (cases "d6_thread d") (auto simp: d6_inv_def)
  with inv f Some show ?thesis by (subst d') (auto simp: d6_inv_def)
qed

lemma d6_step_inv:
  assumes "d6_step D A av ev s s'" and "d6_inv s"
  shows "d6_inv s'"
  using assms
proof (cases rule: d6_step.cases)
  case (s6_start d d' w h)
  then have "d6_thread d = Idle" "d' = d\<lparr>d6_loader := d6_loader d', d6_flagRun := True, d6_thread := Working\<rparr>"
    by (auto simp: d6_start_def rbind_eq_Inr spawn_thread_def split: if_splits)
  with s6_start assms(2) show ?thesis by (auto simp: d6_inv_def dest: arg_cong [where f = d6_frames] arg_cong [where f = d6_packets])
next
  case (s6_round d now w st d' w' st' out h)
  with d6_round_inv assms(2) show ?thesis by blast
next
  case (s6_read h d r d' w)
  with d6_read_inv assms(2) show ?thesis by blast
next
  case (s6_end d now w st d' w' st' out h)
  with d6_round_False have "d' = d" by blast
  with s6_end assms(2) cd_clear_inv [of FRAME_QUEUE_264 "d6_frames d"] show ?thesis by (auto simp: d6_inv_def d6_close_def)
qed (auto simp: d6_inv_def d6_init_def d6_setVideoResolution_def d6_pushData_def d6_stop_def)

lemma d6_life_inv: "d6_life D A av s \<Longrightarrow> d6_inv s"
proof (induction rule: d6_life.induct)
  case l6_new
  then show ?case using cd_new_inv [of FRAME_QUEUE_264] by (simp add: d6_inv_def d6_new_def h6_none_def FRAME_QUEUE_264_def)
next
  case (l6_step s ev s')
  then show ?case using d6_step_inv by blast
qed

text \<open>A reader that waits is not woken by anything but \<open>stop\<close>, and gets nothing while it waits.\<close>

lemma waits_on:
  "d6_step D A av ev (d, w, h) (d', w', h') \<Longrightarrow> h6_waits h \<Longrightarrow> ev \<noteq> E_Stop \<Longrightarrow> h6_waits h' \<and> h6_given h' = h6_given h"
  by (erule d6_step.cases) auto

lemma never_restarts: "d6_thread d \<noteq> Idle \<Longrightarrow> d6_start D d \<noteq> Inr d'"
  by (auto simp: d6_start_def rbind_eq_Inr spawn_thread_def)

definition unstopped :: "dll \<Rightarrow> ('c, 'px) oh_decoder \<Rightarrow> av_image \<Rightarrow> 'px d264 \<times> ('c d6_worker \<times> arenas) option \<times> 'px d6_history \<Rightarrow>
    'px d264 \<times> ('c d6_worker \<times> arenas) option \<times> 'px d6_history \<Rightarrow> bool" where
  "unstopped D A av s s' \<longleftrightarrow> (\<exists>ev. ev \<noteq> E_Stop \<and> d6_step D A av ev s s')"

lemma starves:
  assumes "(unstopped D A av)\<^sup>*\<^sup>* s s'" and "h6_waits (snd (snd s))"
  shows "h6_waits (snd (snd s')) \<and> h6_given (snd (snd s')) = h6_given (snd (snd s))"
  using assms
proof (induction rule: rtranclp_induct)
  case (step y z)
  then obtain ev where "ev \<noteq> E_Stop" "d6_step D A av ev (fst y, fst (snd y), snd (snd y)) (fst z, fst (snd z), snd (snd z))"
    by (auto simp: unstopped_def)
  with waits_on step show ?case by metis
qed simp

lemma fifth_frame_fatal:
  assumes "d6_flagRun d" and "d6_packets d = p # ps" and "od_decode A (desktop p) (d6_codec w) = (0, r, c)" and "iBufferStatus r = 1"
    and "d6_texture av r (d6_arena w) st = Inr x" and "dsize (d6_frames d) = FRAME_QUEUE_264"
  shows "d6_round A av now (d, w, st) = Inl (Fatal ''push() called on a full queue'')"
  using assms by (cases x) (simp add: d6_round_def push_back_def cd_full_def error_quit_def)

subsection \<open>Properties\<close>


definition sample_od :: "(unit, nat) oh_decoder" where
  "sample_od = \<lparr>od_create = (0, Some ()), od_initialize = (\<lambda>c. (0, ())),
     od_decode = (\<lambda>bs c. (0, \<lparr>iBufferStatus = 0, od_width = 0, od_height = 0, od_format = 0, od_stride = [], od_framebuffer = [], od_content = 0\<rparr>, ()))\<rparr>"


end
