(* ===== verification/FlowLayout.thy ===== *)
theory FlowLayout
  imports Prelude
begin

text \<open>
  \<open>FlowLayout\<close> of \<open>src/src/client/FlowLayout.h\<close> and \<open>.cpp\<close>: the hosts of the hub window in rows, as many to a row as fit. Qt's
  rectangles are records; the right edge of one is its last pixel, \<open>x + width - 1\<close>. What an item asks for, and the spacing
  its widget's style has, are the record \<open>flow_item\<close>; the parent that \<open>smartSpacing\<close> asks is a \<open>parent_object\<close>. Qt keeps
  sizes below \<open>2 ^ 24\<close> (\<open>QWIDGETSIZE_MAX\<close>), so the sums of coordinates are those of integers.
\<close>

record qrect =
  rx :: int
  ry :: int
  rw :: int
  rh :: int

record flow_item =
  hint_w :: int
  hint_h :: int
  min_w :: int
  min_h :: int
  style_hspace :: int
  style_vspace :: int

datatype parent_object = No_parent | Widget_parent int int | Layout_parent int

record flow_layout =
  m_hSpace :: int
  m_vSpace :: int
  itemList :: "flow_item list"
  fl_parent :: parent_object
  margin_left :: int
  margin_top :: int
  margin_right :: int
  margin_bottom :: int

definition fl_new :: "parent_object \<Rightarrow> int \<Rightarrow> int \<Rightarrow> int \<Rightarrow> flow_layout" where
  "fl_new p margin h v = \<lparr>m_hSpace = h, m_vSpace = v, itemList = [], fl_parent = p, margin_left = margin, margin_top = margin,
     margin_right = margin, margin_bottom = margin\<rparr>"

definition addItem :: "flow_item \<Rightarrow> flow_layout \<Rightarrow> flow_layout" where
  "addItem i l = l\<lparr>itemList := itemList l @ [i]\<rparr>"

definition fl_count :: "flow_layout \<Rightarrow> nat" where
  "fl_count l = length (itemList l)"

definition itemAt :: "int \<Rightarrow> flow_layout \<Rightarrow> flow_item option" where
  "itemAt i l = (if 0 \<le> i \<and> nat i < length (itemList l) then Some (itemList l ! nat i) else None)"

definition takeAt :: "int \<Rightarrow> flow_layout \<Rightarrow> flow_item option \<times> flow_layout" where
  "takeAt i l =
     (if 0 \<le> i \<and> i < int (length (itemList l))
      then (Some (itemList l ! nat i), l\<lparr>itemList := take (nat i) (itemList l) @ drop (nat i + 1) (itemList l)\<rparr>)
      else (None, l))"

text \<open>The destructor takes items until there is none; \<open>deleted\<close> is what it deletes.\<close>

function fl_destroy :: "flow_layout \<Rightarrow> flow_item list \<Rightarrow> flow_item list" where
  "fl_destroy l deleted = (case takeAt 0 l of (None, l') \<Rightarrow> deleted | (Some i, l') \<Rightarrow> fl_destroy l' (deleted @ [i]))"
  by pat_completeness auto
termination
  by (relation "measure (\<lambda>(l, _). length (itemList l))") (auto simp: takeAt_def split: if_splits)

definition smartSpacing :: "bool \<Rightarrow> flow_layout \<Rightarrow> int" where
  "smartSpacing horizontal l =
     (case fl_parent l of No_parent \<Rightarrow> -1 | Widget_parent h v \<Rightarrow> if horizontal then h else v | Layout_parent s \<Rightarrow> s)"

definition horizontalSpacing :: "flow_layout \<Rightarrow> int" where
  "horizontalSpacing l = (if 0 \<le> m_hSpace l then m_hSpace l else smartSpacing True l)"

definition verticalSpacing :: "flow_layout \<Rightarrow> int" where
  "verticalSpacing l = (if 0 \<le> m_vSpace l then m_vSpace l else smartSpacing False l)"

definition fl_minimumSize :: "flow_layout \<Rightarrow> int \<times> int" where
  "fl_minimumSize l = (case foldl (\<lambda>(w, h) i. (max w (min_w i), max h (min_h i))) (-1, -1) (itemList l) of
     (w, h) \<Rightarrow> (w + margin_left l + margin_right l, h + margin_top l + margin_bottom l))"

definition fl_sizeHint :: "flow_layout \<Rightarrow> int \<times> int" where
  "fl_sizeHint l = fl_minimumSize l"

subsection \<open>The layout\<close>

record pen =
  pen_x :: int
  pen_y :: int
  lineHeight :: int

definition space_x :: "flow_layout \<Rightarrow> flow_item \<Rightarrow> int" where
  "space_x l i = (if horizontalSpacing l = -1 then style_hspace i else horizontalSpacing l)"

definition space_y :: "flow_layout \<Rightarrow> flow_item \<Rightarrow> int" where
  "space_y l i = (if verticalSpacing l = -1 then style_vspace i else verticalSpacing l)"

definition right_of :: "qrect \<Rightarrow> int" where
  "right_of r = rx r + rw r - 1"

text \<open>One turn of the loop of \<open>doLayout\<close>: the pen afterwards and the rectangle the item gets.\<close>

definition place_item :: "flow_layout \<Rightarrow> qrect \<Rightarrow> flow_item \<Rightarrow> pen \<Rightarrow> pen \<times> qrect" where
  "place_item l eff i p =
     (let nextX = pen_x p + hint_w i + space_x l i;
          wrap = (nextX - space_x l i > right_of eff \<and> lineHeight p > 0);
          x = (if wrap then rx eff else pen_x p);
          y = (if wrap then pen_y p + lineHeight p + space_y l i else pen_y p);
          nextX' = (if wrap then x + hint_w i + space_x l i else nextX);
          lh = (if wrap then 0 else lineHeight p)
      in (\<lparr>pen_x = nextX', pen_y = y, lineHeight = max lh (hint_h i)\<rparr>, \<lparr>rx = x, ry = y, rw = hint_w i, rh = hint_h i\<rparr>))"

fun place_items :: "flow_layout \<Rightarrow> qrect \<Rightarrow> flow_item list \<Rightarrow> pen \<Rightarrow> pen \<times> qrect list" where
  "place_items l eff [] p = (p, [])"
| "place_items l eff (i # is) p =
     (case place_item l eff i p of (p1, r) \<Rightarrow> (case place_items l eff is p1 of (p2, rs) \<Rightarrow> (p2, r # rs)))"

definition effective :: "flow_layout \<Rightarrow> qrect \<Rightarrow> qrect" where
  "effective l r = \<lparr>rx = rx r + margin_left l, ry = ry r + margin_top l,
     rw = rw r - margin_left l - margin_right l, rh = rh r - margin_top l - margin_bottom l\<rparr>"

text \<open>The height that is needed, and the geometries that are set (none when only testing).\<close>

definition doLayout :: "flow_layout \<Rightarrow> qrect \<Rightarrow> bool \<Rightarrow> int \<times> qrect list" where
  "doLayout l r testOnly =
     (let eff = effective l r in
      case place_items l eff (itemList l) \<lparr>pen_x = rx eff, pen_y = ry eff, lineHeight = 0\<rparr> of
        (p, rs) \<Rightarrow> (pen_y p + lineHeight p - ry r + margin_bottom l, if testOnly then [] else rs))"

definition heightForWidth :: "flow_layout \<Rightarrow> int \<Rightarrow> int" where
  "heightForWidth l w = fst (doLayout l \<lparr>rx = 0, ry = 0, rw = w, rh = 0\<rparr> True)"

definition setGeometry :: "flow_layout \<Rightarrow> qrect \<Rightarrow> qrect list" where
  "setGeometry l r = snd (doLayout l r False)"

subsection \<open>Where the items lie\<close>

text \<open>\<open>before a b\<close>: \<open>a\<close> ends to the left of \<open>b\<close> in its row, or above it.\<close>

definition before :: "qrect \<Rightarrow> qrect \<Rightarrow> bool" where
  "before a b \<longleftrightarrow> ry a = ry b \<and> rx a + rw a \<le> rx b \<or> ry a + rh a \<le> ry b"

definition behind_pen :: "pen \<Rightarrow> qrect \<Rightarrow> bool" where
  "behind_pen p r \<longleftrightarrow> ry r + rh r \<le> pen_y p + lineHeight p \<and>
     (ry r = pen_y p \<and> rx r + rw r \<le> pen_x p \<or> ry r + rh r \<le> pen_y p)"

definition spaces_ok :: "flow_layout \<Rightarrow> flow_item list \<Rightarrow> bool" where
  "spaces_ok l is \<longleftrightarrow> (\<forall>i\<in>set is. 0 \<le> space_x l i \<and> 0 \<le> space_y l i \<and> 0 \<le> hint_w i \<and> 0 \<le> hint_h i)"

definition in_width :: "qrect \<Rightarrow> qrect \<Rightarrow> bool" where
  "in_width eff r \<longleftrightarrow> rx eff \<le> rx r \<and> ry eff \<le> ry r"

lemma place_item_rect:
  assumes "place_item l eff i p = (p', r)"
  shows "rw r = hint_w i \<and> rh r = hint_h i \<and> pen_x p' = rx r + rw r + space_x l i \<and> pen_y p' = ry r \<and> rh r \<le> lineHeight p' \<and>
    (rx r = pen_x p \<and> ry r = pen_y p \<and> lineHeight p' = max (lineHeight p) (rh r) \<and> (rx r + rw r \<le> right_of eff \<or> lineHeight p \<le> 0) \<or>
     rx r = rx eff \<and> ry r = pen_y p + lineHeight p + space_y l i \<and> lineHeight p' = max 0 (rh r) \<and>
       pen_x p + rw r > right_of eff \<and> 0 < lineHeight p)"
  using assms by (auto simp: place_item_def Let_def split: if_splits)

lemma place_item_step:
  assumes p: "place_item l eff i p = (p', r)" and ok: "0 \<le> space_x l i" "0 \<le> space_y l i" "0 \<le> hint_w i" "0 \<le> hint_h i"
    and pen: "rx eff \<le> pen_x p" "ry eff \<le> pen_y p" "0 \<le> lineHeight p"
  shows "behind_pen p' r \<and> in_width eff r \<and> rx eff \<le> pen_x p' \<and> ry eff \<le> pen_y p' \<and> 0 \<le> lineHeight p' \<and>
    pen_y p + lineHeight p \<le> pen_y p' + lineHeight p' \<and> (\<forall>a. behind_pen p a \<longrightarrow> before a r \<and> behind_pen p' a)"
  using place_item_rect [OF p] ok pen
  by (elim conjE disjE) (auto simp: behind_pen_def before_def in_width_def max_def)

definition pen_ok :: "qrect \<Rightarrow> pen \<Rightarrow> bool" where
  "pen_ok eff p \<longleftrightarrow> rx eff \<le> pen_x p \<and> ry eff \<le> pen_y p \<and> 0 \<le> lineHeight p"

lemma place_items_rects:
  assumes "place_items l eff is p = (p', rs)" and "spaces_ok l is" and "pen_ok eff p"
  shows "length rs = length is \<and> (\<forall>k<length is. rw (rs ! k) = hint_w (is ! k) \<and> rh (rs ! k) = hint_h (is ! k)) \<and>
    (\<forall>r\<in>set rs. behind_pen p' r \<and> in_width eff r) \<and> sorted_wrt before rs \<and>
    (\<forall>a. behind_pen p a \<longrightarrow> behind_pen p' a \<and> (\<forall>r\<in>set rs. before a r)) \<and>
    pen_y p' + lineHeight p' \<in> insert (pen_y p + lineHeight p) ((\<lambda>r. ry r + rh r) ` set rs)"
  using assms
proof (induction "is" arbitrary: p rs)
  case Nil
  then show ?case by simp
next
  case (Cons i "is")
  obtain p1 r where p1: "place_item l eff i p = (p1, r)" by fastforce
  obtain p2 rs' where p2: "place_items l eff is p1 = (p2, rs')" by fastforce
  with Cons.prems(1) p1 have rs: "rs = r # rs'" and "p2 = p'" by auto
  with p2 have p2: "place_items l eff is p1 = (p', rs')" by simp
  from Cons.prems(2) have ok: "0 \<le> space_x l i" "0 \<le> space_y l i" "0 \<le> hint_w i" "0 \<le> hint_h i" and oks: "spaces_ok l is"
    by (auto simp: spaces_ok_def)
  from Cons.prems(3) have pen: "rx eff \<le> pen_x p" "ry eff \<le> pen_y p" "0 \<le> lineHeight p" by (auto simp: pen_ok_def)
  note s = place_item_step [OF p1 ok pen] and sz = place_item_rect [OF p1]
  then have "pen_ok eff p1" by (simp add: pen_ok_def)
  from Cons.IH [OF p2 oks this] have ih: "length rs' = length is"
      "\<forall>k<length is. rw (rs' ! k) = hint_w (is ! k) \<and> rh (rs' ! k) = hint_h (is ! k)"
      "\<forall>r\<in>set rs'. behind_pen p' r \<and> in_width eff r" "sorted_wrt before rs'"
      "\<forall>a. behind_pen p1 a \<longrightarrow> behind_pen p' a \<and> (\<forall>r\<in>set rs'. before a r)"
      "pen_y p' + lineHeight p' \<in> insert (pen_y p1 + lineHeight p1) ((\<lambda>r. ry r + rh r) ` set rs')" by blast+
  have sizes: "\<forall>k<length (i # is). rw (rs ! k) = hint_w ((i # is) ! k) \<and> rh (rs ! k) = hint_h ((i # is) ! k)"
    using ih(2) sz rs(1) by (auto simp: nth_Cons split: nat.split)
  have "pen_y p1 + lineHeight p1 \<in> {pen_y p + lineHeight p, ry r + rh r}" using sz pen(3) ok(4) by (auto simp: max_def)
  with ih(6) have "pen_y p' + lineHeight p' \<in> insert (pen_y p + lineHeight p) ((\<lambda>r. ry r + rh r) ` set rs)" using rs(1) by auto
  with ih(1,3-5) sizes s rs show ?case by auto
qed

text \<open>The layout does not depend on where the rectangle is.\<close>

definition shifted :: "int \<Rightarrow> int \<Rightarrow> qrect \<Rightarrow> qrect" where
  "shifted dx dy r = r\<lparr>rx := rx r + dx, ry := ry r + dy\<rparr>"

definition pen_shifted :: "int \<Rightarrow> int \<Rightarrow> pen \<Rightarrow> pen" where
  "pen_shifted dx dy p = p\<lparr>pen_x := pen_x p + dx, pen_y := pen_y p + dy\<rparr>"

lemma place_item_shift:
  "place_item l (shifted dx dy eff) i (pen_shifted dx dy p) =
     (case place_item l eff i p of (p', r) \<Rightarrow> (pen_shifted dx dy p', shifted dx dy r))"
  by (simp add: place_item_def shifted_def pen_shifted_def right_of_def Let_def)

lemma place_items_shift:
  "place_items l (shifted dx dy eff) is (pen_shifted dx dy p) =
     (case place_items l eff is p of (p', rs) \<Rightarrow> (pen_shifted dx dy p', map (shifted dx dy) rs))"
  by (induction "is" arbitrary: p) (simp_all add: place_item_shift split: prod.split)

text \<open>Only the width of the rectangle counts.\<close>

lemma place_item_width: "rx eff = rx eff' \<Longrightarrow> rw eff = rw eff' \<Longrightarrow> place_item l eff i p = place_item l eff' i p"
  by (simp add: place_item_def right_of_def Let_def)

lemma place_items_width: "rx eff = rx eff' \<Longrightarrow> rw eff = rw eff' \<Longrightarrow> place_items l eff is p = place_items l eff' is p"
  using place_item_width [of eff eff'] by (induction "is" arbitrary: p) (simp_all split: prod.split)

lemma height_is_used: "fst (doLayout l r testOnly) = heightForWidth l (rw r)"
proof -
  let ?z = "\<lparr>rx = 0, ry = 0, rw = rw r, rh = 0\<rparr>"
  let ?e = "effective l ?z" and ?p = "\<lparr>pen_x = margin_left l, pen_y = margin_top l, lineHeight = 0\<rparr>"
  have "place_items l (effective l r) (itemList l) (pen_shifted (rx r) (ry r) ?p) =
      place_items l (shifted (rx r) (ry r) ?e) (itemList l) (pen_shifted (rx r) (ry r) ?p)"
    by (rule place_items_width) (simp_all add: effective_def shifted_def)
  moreover obtain p' rs where z: "place_items l ?e (itemList l) ?p = (p', rs)" by fastforce
  ultimately have "place_items l (effective l r) (itemList l) (pen_shifted (rx r) (ry r) ?p) =
      (pen_shifted (rx r) (ry r) p', map (shifted (rx r) (ry r)) rs)" by (simp add: place_items_shift)
  moreover have "pen_shifted (rx r) (ry r) ?p = \<lparr>pen_x = rx (effective l r), pen_y = ry (effective l r), lineHeight = 0\<rparr>"
    by (simp add: pen_shifted_def effective_def add.commute)
  moreover have "?p = \<lparr>pen_x = rx ?e, pen_y = ry ?e, lineHeight = 0\<rparr>" by (simp add: effective_def)
  ultimately show ?thesis using z by (simp add: doLayout_def heightForWidth_def Let_def pen_shifted_def)
qed

definition pixels_of :: "qrect \<Rightarrow> (int \<times> int) set" where
  "pixels_of r = {rx r ..< rx r + rw r} \<times> {ry r ..< ry r + rh r}"

lemma before_disjoint: "before a b \<Longrightarrow> pixels_of a \<inter> pixels_of b = {}"
  by (auto simp: before_def pixels_of_def)

subsection \<open>Properties\<close>


definition sample_flow :: flow_layout where
  "sample_flow = foldr addItem (replicate 3 \<lparr>hint_w = 100, hint_h = 150, min_w = 0, min_h = 0, style_hspace = 0, style_vspace = 0\<rparr>)
     (fl_new No_parent 10 7 7)"


end
