(* ===== verification/HubWindow.thy ===== *)
theory HubWindow
  imports FlowLayout HostList
begin

text \<open>
  \<open>HubWindow\<close> and \<open>HubWindowHostItem\<close> of \<open>src/src/client\<close>: the window with the known hosts. A host item is its entry and its
  fixed size; the window keeps its items beside the layout's, so the layout is a list of entries too. What Qt and the
  user do (the dialog's fields, the screens) are arguments.
\<close>

record hub =
  hostList :: "host_entry list"
  hub_items :: "host_entry list"
  hub_layout :: "host_entry list"
  hub_hidden :: bool
  hub_stream :: "host_entry option"

definition item_sizeHint :: "int \<times> int" where
  "item_sizeHint = (100, 150)"

definition hub_sizeHint :: "int \<times> int" where
  "hub_sizeHint = (1280, 720)"

text \<open>An item before \<open>setEntry\<close> has no entry. A click is a signal with its entry.\<close>

record host_item =
  hi_entry :: "host_entry option"
  hi_label :: string

definition item_new :: host_item where
  "item_new = \<lparr>hi_entry = None, hi_label = []\<rparr>"

definition setEntry :: "host_entry \<Rightarrow> host_item \<Rightarrow> host_item" where
  "setEntry e it = it\<lparr>hi_entry := Some e, hi_label := he_nickname e\<rparr>"

definition on_btnConnect_clicked :: "host_item \<Rightarrow> host_entry option" where
  "on_btnConnect_clicked it = hi_entry it"

lemma item_shows: "on_btnConnect_clicked (setEntry e it) = Some e \<and> hi_label (setEntry e it) = he_nickname e"
  by (simp add: on_btnConnect_clicked_def setEntry_def)

text \<open>\<open>reloadItems_\<close> takes every item out of the layout, then makes one for each host.\<close>

definition reloadItems :: "hub \<Rightarrow> hub" where
  "reloadItems h =
     (let l1 = foldl (\<lambda>l i. remove1 i l) (hub_layout h) (hub_items h)
      in h\<lparr>hub_items := hostList h, hub_layout := l1 @ hostList h\<rparr>)"

definition hub_new :: "crypto \<Rightarrow> (parse_error + toml) \<Rightarrow> hub res" where
  "hub_new c parsed =
     rbind (loadFromFile c parsed []) (\<lambda>(ok, hs).
       Inr (reloadItems \<lparr>hostList = hs, hub_items = [], hub_layout = [], hub_hidden = False, hub_stream = None\<rparr>))"

definition hub_destroy :: "crypto \<Rightarrow> toml_printer \<Rightarrow> bool \<Rightarrow> hub \<Rightarrow> (bool \<times> string) res" where
  "hub_destroy c p good h = saveToFile c p good (hostList h)"

text \<open>
  The dialog: both addresses are appended, then an empty first and an empty last one are erased. The nickname is chosen
  before that. The flag says whether the warning about fallback addresses is shown.
\<close>

definition new_entry :: "string \<Rightarrow> string \<Rightarrow> string \<Rightarrow> bool \<times> host_entry" where
  "new_entry nick addr fallback =
     (let a0 = [addr, fallback];
          nickname = (if nick = [] then hd a0 else nick);
          a1 = (if hd a0 = [] then tl a0 else a0);
          a2 = (if last a1 = [] then butlast a1 else a1)
      in (1 < length a2, entry_init\<lparr>he_nickname := nickname, he_addr := a2\<rparr>))"

definition on_btnAddHost_clicked :: "(string \<times> string \<times> string) option \<Rightarrow> hub \<Rightarrow> hub" where
  "on_btnAddHost_clicked answer h =
     (case answer of
        None \<Rightarrow> h
      | Some (nick, addr, fallback) \<Rightarrow>
          (case new_entry nick addr fallback of
             (warn, e) \<Rightarrow> if he_addr e \<noteq> [] then reloadItems (h\<lparr>hostList := hostList h @ [e]\<rparr>) else h))"

text \<open>The stream window takes five sixths of the screen.\<close>

definition connectToEntry :: "int \<times> int \<Rightarrow> host_entry \<Rightarrow> hub \<Rightarrow> (int \<times> int) \<times> hub" where
  "connectToEntry screen e h =
     ((c_div (fst screen * 5) 6, c_div (snd screen * 5) 6), h\<lparr>hub_stream := Some e, hub_hidden := True\<rparr>)"

definition stream_destroyed :: "hub \<Rightarrow> hub" where
  "stream_destroyed h = h\<lparr>hub_stream := None, hub_hidden := False\<rparr>"

text \<open>
  \<open>showCentered\<close> looks for the screen at \<open>pt\<close>, whose \<open>x\<close> is set twice, and dereferences what it finds. The centre of a
  rectangle is that of its first and last pixel.
\<close>

definition rect_center :: "qrect \<Rightarrow> int \<times> int" where
  "rect_center r = (c_div (rx r + (rx r + rw r - 1)) 2, c_div (ry r + (ry r + rh r - 1)) 2)"

definition screen_point :: "qrect \<Rightarrow> int \<times> int" where
  "screen_point geo =
     (let pt0 = (0 :: int, 0 :: int); pt1 = (rx geo + c_div (rw geo) 2, snd pt0); pt2 = (ry geo + c_div (rh geo) 2, snd pt1) in pt2)"

definition showCentered :: "(int \<times> int \<Rightarrow> qrect option) \<Rightarrow> qrect \<Rightarrow> int \<times> int \<Rightarrow> (int \<times> int) res" where
  "showCentered screenAt geo frameSz =
     (case screenAt (screen_point geo) of
        None \<Rightarrow> Inl Undef
      | Some sr \<Rightarrow>
          (let wr = \<lparr>rx = 0, ry = 0, rw = min (fst frameSz) (rw sr), rh = min (snd frameSz) (rh sr)\<rparr>
           in Inr (fst (rect_center sr) - fst (rect_center wr), snd (rect_center sr) - snd (rect_center wr))))"

subsection \<open>The window shows the hosts\<close>

definition hub_inv :: "hub \<Rightarrow> bool" where
  "hub_inv h \<longleftrightarrow> hub_items h = hostList h \<and> hub_layout h = hostList h \<and> (hub_hidden h \<longleftrightarrow> hub_stream h \<noteq> None)"

lemma remove_all: "foldl (\<lambda>l i. remove1 i l) (xs @ ys) xs = ys"
  by (induction xs) auto

lemma reload_shows: "hub_layout h = hub_items h \<Longrightarrow> (hub_hidden h \<longleftrightarrow> hub_stream h \<noteq> None) \<Longrightarrow> hub_inv (reloadItems h)"
  using remove_all [of "hub_items h" "[]"] by (simp add: reloadItems_def hub_inv_def Let_def)

lemma new_entry_addr: "he_addr (snd (new_entry nick addr fallback)) = filter (\<lambda>a. a \<noteq> []) [addr, fallback]"
  by (simp add: new_entry_def Let_def)

inductive hub_run :: "crypto \<Rightarrow> hub \<Rightarrow> bool" for c where
  hub_opens: "hub_new c parsed = Inr h \<Longrightarrow> hub_run c h"
| hub_adds: "hub_run c h \<Longrightarrow> hub_run c (on_btnAddHost_clicked answer h)"
| hub_connects: "hub_run c h \<Longrightarrow> \<not> hub_hidden h \<Longrightarrow> e \<in> set (hub_items h) \<Longrightarrow> hub_run c (snd (connectToEntry screen e h))"
| hub_returns: "hub_run c h \<Longrightarrow> hub_hidden h \<Longrightarrow> hub_run c (stream_destroyed h)"

lemma add_hosts:
  "hostList (on_btnAddHost_clicked answer h) = hostList h \<or>
   (\<exists>e. hostList (on_btnAddHost_clicked answer h) = hostList h @ [e] \<and> he_addr e \<noteq> [] \<and> [] \<notin> set (he_addr e))"
proof (cases answer)
  case None
  then show ?thesis by (simp add: on_btnAddHost_clicked_def)
next
  case (Some a)
  obtain nick addr fallback where a: "a = (nick, addr, fallback)" by (cases a) auto
  obtain w e where e: "new_entry nick addr fallback = (w, e)" by fastforce
  with new_entry_addr [of nick addr fallback] have "[] \<notin> set (he_addr e)" by auto
  with Some a e show ?thesis by (auto simp: on_btnAddHost_clicked_def reloadItems_def Let_def)
qed

lemma hub_run_inv: "hub_run c h \<Longrightarrow> hub_inv h \<and> (\<forall>e. hub_stream h = Some e \<longrightarrow> e \<in> set (hostList h))"
proof (induction rule: hub_run.induct)
  case (hub_opens parsed h)
  then show ?case using reload_shows by (auto simp: hub_new_def rbind_eq_Inr reloadItems_def hub_inv_def Let_def)
next
  case (hub_adds h answer)
  then have "hub_inv (on_btnAddHost_clicked answer h)"
    using reload_shows by (auto simp: on_btnAddHost_clicked_def hub_inv_def split: option.split prod.split)
  moreover have "hub_stream (on_btnAddHost_clicked answer h) = hub_stream h" "set (hostList h) \<subseteq> set (hostList (on_btnAddHost_clicked answer h))"
    by (auto simp: on_btnAddHost_clicked_def reloadItems_def Let_def split: option.split prod.split)
  ultimately show ?case using hub_adds by auto
qed (auto simp: hub_inv_def connectToEntry_def stream_destroyed_def)

text \<open>A host that is given only a fallback address gets no name.\<close>

lemma nameless_host: "addr = [] \<Longrightarrow> he_nickname (snd (new_entry [] addr fallback)) = []"
  by (simp add: new_entry_def Let_def)

text \<open>With one upright screen at the origin, a window that lies far enough down crashes, though it is on the screen.\<close>

lemma centre_off_screen:
  assumes "\<And>x y. screenAt (x, y) = (if 0 \<le> x \<and> x < 1080 \<and> 0 \<le> y \<and> y < 1920 then Some s else None)"
  shows "showCentered screenAt \<lparr>rx = 0, ry = 1000, rw = 800, rh = 600\<rparr> f = Inl Undef"
  using assms by (simp add: showCentered_def screen_point_def Let_def c_div_def)

subsection \<open>Properties\<close>

text \<open>The window shows the hosts it knows. Whatever the user does, there is exactly one item for each host, in their order, in the
  window and in its layout; the window is hidden exactly while the stream to one of these hosts is open; and
  the dialog adds at most one host, at the end, with at least one address and no empty one.\<close>

lemma hub_shows_hosts:
  assumes "hub_run c h"
  shows "hub_items h = hostList h \<and> hub_layout h = hostList h \<and> (hub_hidden h \<longleftrightarrow> (\<exists>e\<in>set (hostList h). hub_stream h = Some e)) \<and>
    (hostList (on_btnAddHost_clicked answer h) = hostList h \<or>
     (\<exists>e. hostList (on_btnAddHost_clicked answer h) = hostList h @ [e] \<and> he_addr e \<noteq> [] \<and> [] \<notin> set (he_addr e)))"
  using hub_run_inv [OF assms] add_hosts [of answer h] by (auto simp: hub_inv_def)

definition empty_hub :: hub where
  "empty_hub = \<lparr>hostList = [], hub_items = [], hub_layout = [], hub_hidden = False, hub_stream = None\<rparr>"

theorem hub_shows_hosts_witness:
  "hub_run c (on_btnAddHost_clicked (Some ([], ''10.0.0.2'', [])) empty_hub) \<and>
     map he_nickname (hub_layout (on_btnAddHost_clicked (Some ([], ''10.0.0.2'', [])) empty_hub)) = [''10.0.0.2'']"
proof -
  let ?h = "on_btnAddHost_clicked (Some ([], ''10.0.0.2'', [])) empty_hub"
  have "hub_new c (Inl (RuntimeError [])) = Inr empty_hub" by (simp add: hub_new_def loadFromFile_def reloadItems_def empty_hub_def)
  then have r: "hub_run c ?h" by (intro hub_adds hub_opens)
  have "hostList ?h = [entry_init\<lparr>he_nickname := ''10.0.0.2'', he_addr := [''10.0.0.2'']\<rparr>]"
    by (simp add: on_btnAddHost_clicked_def new_entry_def reloadItems_def empty_hub_def Let_def)
  with r hub_shows_hosts [OF r] show ?thesis by simp
qed

end
