(* ===== verification/StatisticMixer.thy ===== *)
theory StatisticMixer
  imports Prelude
begin

text \<open>
  \<open>StatisticMixer\<close> of \<open>src/src/common/StatisticMixer.h\<close> and \<open>.cpp\<close>: the last few samples of a latency and their statistics. What
  the hardware computes on floating point numbers is the record \<open>float_ops\<close>: \<open>'f\<close> is \<open>float\<close>, \<open>'d\<close> is \<open>double\<close>.
  \<open>std::min(a, b)\<close> is \<open>b < a ? b : a\<close> and \<open>std::max(a, b)\<close> is \<open>a < b ? b : a\<close>.
\<close>

record ('f, 'd) float_ops =
  f_nan :: 'f
  f_isnan :: "'f \<Rightarrow> bool"
  f_less :: "'f \<Rightarrow> 'f \<Rightarrow> bool"
  FLT_MAX :: 'f
  FLT_MIN :: 'f
  d_zero :: 'd
  d_plus :: "'d \<Rightarrow> 'f \<Rightarrow> 'd"
  d_over :: "'d \<Rightarrow> nat \<Rightarrow> 'f"
  d_square :: "'d \<Rightarrow> 'f \<Rightarrow> 'f \<Rightarrow> 'd"
  d_root :: "'d \<Rightarrow> int \<Rightarrow> 'f"

record 'f mixer =
  sm_arr :: "'f list"
  sm_arrIdx :: nat

record 'f stat =
  st_min :: 'f
  st_avg :: 'f
  st_max :: 'f
  st_stddev :: 'f

definition sm_new :: "('f, 'd) float_ops \<Rightarrow> nat \<Rightarrow> 'f mixer" where
  "sm_new F initialSize = \<lparr>sm_arr = replicate initialSize (f_nan F), sm_arrIdx = 0\<rparr>"

text \<open>\<open>resize\<close> drops at the end, or appends NaN.\<close>

definition setPoolSize :: "('f, 'd) float_ops \<Rightarrow> nat \<Rightarrow> 'f mixer \<Rightarrow> 'f mixer" where
  "setPoolSize F samples m =
     (let prevSize = length (sm_arr m) in
      if prevSize = samples then m
      else if samples < prevSize
      then m\<lparr>sm_arr := take samples (sm_arr m), sm_arrIdx := (if samples \<le> sm_arrIdx m then 0 else sm_arrIdx m)\<rparr>
      else m\<lparr>sm_arr := sm_arr m @ replicate (samples - prevSize) (f_nan F)\<rparr>)"

definition pushValue :: "'f \<Rightarrow> 'f mixer \<Rightarrow> 'f mixer res" where
  "pushValue val m =
     (if length (sm_arr m) \<le> sm_arrIdx m then Inl Undef
      else let i = sm_arrIdx m + 1 in
        Inr (m\<lparr>sm_arr := (sm_arr m)[sm_arrIdx m := val], sm_arrIdx := (if length (sm_arr m) \<le> i then 0 else i)\<rparr>))"

text \<open>The two loops of \<open>calcStat\<close>; both end at the first NaN when told to skip NaN.\<close>

fun extremes :: "('f, 'd) float_ops \<Rightarrow> bool \<Rightarrow> 'f list \<Rightarrow> 'f \<times> 'f \<times> 'd \<Rightarrow> 'f \<times> 'f \<times> 'd" where
  "extremes F skipNaN [] acc = acc"
| "extremes F skipNaN (now # xs) (mn, mx, s) =
     (if skipNaN \<and> f_isnan F now then (mn, mx, s)
      else extremes F skipNaN xs (if f_less F now mn then now else mn, if f_less F mx now then now else mx, d_plus F s now))"

fun deviations :: "('f, 'd) float_ops \<Rightarrow> bool \<Rightarrow> 'f \<Rightarrow> 'f list \<Rightarrow> 'd \<times> nat \<Rightarrow> 'd \<times> nat" where
  "deviations F skipNaN avg [] acc = acc"
| "deviations F skipNaN avg (now # xs) (d, cnt) =
     (if skipNaN \<and> f_isnan F now then (d, cnt) else deviations F skipNaN avg xs (d_square F d avg now, cnt + 1))"

definition calcStat :: "('f, 'd) float_ops \<Rightarrow> bool \<Rightarrow> 'f mixer \<Rightarrow> 'f stat" where
  "calcStat F skipNaN m =
     (let (mn, mx, s) = extremes F skipNaN (sm_arr m) (FLT_MAX F, FLT_MIN F, d_zero F);
          avg = d_over F s (length (sm_arr m));
          (d, cnt) = deviations F skipNaN avg (sm_arr m) (d_zero F, 0)
      in \<lparr>st_min = mn, st_avg = avg, st_max = mx, st_stddev = d_root F d (int cnt - 1)\<rparr>)"

subsection \<open>The window\<close>

text \<open>The samples from the oldest to the newest.\<close>

definition oldest_first :: "'f mixer \<Rightarrow> 'f list" where
  "oldest_first m = drop (sm_arrIdx m) (sm_arr m) @ take (sm_arrIdx m) (sm_arr m)"

definition mixer_ok :: "'f mixer \<Rightarrow> bool" where
  "mixer_ok m \<longleftrightarrow> sm_arrIdx m < length (sm_arr m)"

fun push_samples :: "'f list \<Rightarrow> 'f mixer \<Rightarrow> 'f mixer res" where
  "push_samples [] m = Inr m"
| "push_samples (v # vs) m = rbind (pushValue v m) (push_samples vs)"

lemma pushValue_window:
  assumes "mixer_ok m"
  shows "\<exists>m'. pushValue v m = Inr m' \<and> mixer_ok m' \<and> length (sm_arr m') = length (sm_arr m) \<and> oldest_first m' = tl (oldest_first m) @ [v]"
proof -
  let ?i = "sm_arrIdx m" and ?a = "sm_arr m"
  have i: "?i < length ?a" using assms by (simp add: mixer_ok_def)
  have h: "drop ?i ?a = ?a ! ?i # drop (Suc ?i) ?a" using i by (simp add: Cons_nth_drop_Suc)
  have t: "take (Suc ?i) (?a[?i := v]) = take ?i ?a @ [v]" using i by (simp add: take_Suc_conv_app_nth)
  show ?thesis
  proof (cases "length ?a \<le> Suc ?i")
    case True
    with i have n: "length ?a = Suc ?i" by simp
    then have "?a[?i := v] = take ?i ?a @ [v]" using t by (simp add: take_all)
    with n h i show ?thesis by (simp add: pushValue_def Let_def mixer_ok_def oldest_first_def)
  next
    case False
    with i h t show ?thesis by (simp add: pushValue_def Let_def mixer_ok_def oldest_first_def)
  qed
qed

lemma oldest_first_length [simp]: "length (oldest_first m) = length (sm_arr m)"
  by (simp add: oldest_first_def)

lemma tl_window: "n = length w \<Longrightarrow> 0 < n \<Longrightarrow> drop (length vs) ((tl w @ [v]) @ vs) = drop (length (v # vs)) (w @ v # vs)"
  by (cases w) auto

text \<open>After any samples the window holds the newest ones, in their order; before it is full, the rest is NaN.\<close>

lemma mixer_window:
  "mixer_ok m \<Longrightarrow> \<exists>m'. push_samples vs m = Inr m' \<and> mixer_ok m' \<and> oldest_first m' = drop (length vs) (oldest_first m @ vs)"
proof (induction vs arbitrary: m)
  case (Cons v vs)
  from pushValue_window [OF Cons.prems] obtain m1 where m1: "pushValue v m = Inr m1" "mixer_ok m1"
    "oldest_first m1 = tl (oldest_first m) @ [v]" by blast
  have "0 < length (oldest_first m)" using Cons.prems unfolding oldest_first_length mixer_ok_def by linarith
  then have e: "drop (length vs) (oldest_first m1 @ vs) = drop (length (v # vs)) (oldest_first m @ v # vs)"
    unfolding m1(3) by (rule tl_window [OF refl])
  from Cons.IH [OF m1(2)] m1(1) show ?case unfolding e by simp
qed simp

lemma sm_new_ok: "0 < n \<Longrightarrow> mixer_ok (sm_new F n) \<and> oldest_first (sm_new F n) = replicate n (f_nan F)"
  by (simp add: sm_new_def mixer_ok_def oldest_first_def)

lemma setPoolSize_ok: "mixer_ok m \<Longrightarrow> 0 < samples \<Longrightarrow> mixer_ok (setPoolSize F samples m) \<and> length (sm_arr (setPoolSize F samples m)) = samples"
  by (auto simp: setPoolSize_def mixer_ok_def Let_def)

text \<open>A pool of no samples: the next sample is written beyond it.\<close>

lemma empty_pool: "mixer_ok m \<Longrightarrow> pushValue v (setPoolSize F 0 m) = Inl Undef"
  by (auto simp: setPoolSize_def pushValue_def mixer_ok_def Let_def)

lemma extremes_below:
  assumes "\<forall>x\<in>set xs. \<not> f_less F mx x"
  shows "fst (snd (extremes F False xs (mn, mx, s))) = mx"
  using assms by (induction xs arbitrary: mn s) auto

text \<open>The maximum starts at the least positive number, so it is never below that, whatever the samples are.\<close>

lemma maximum_of_small:
  assumes "\<forall>x\<in>set (sm_arr m). \<not> f_less F (FLT_MIN F) x"
  shows "st_max (calcStat F False m) = FLT_MIN F"
  using extremes_below [of "sm_arr m" F "FLT_MIN F" "FLT_MAX F" "d_zero F"] assms
  by (simp add: calcStat_def Let_def split_def)

subsection \<open>Properties\<close>

text \<open>The statistics are those of the newest samples: a mixer of n samples that got at least n holds the last n of
  them, oldest first from its write position on.\<close>

lemma newest_samples:
  assumes "0 < n" and "n \<le> length vs"
  shows "\<exists>m. push_samples vs (sm_new F n) = Inr m \<and> oldest_first m = drop (length vs - n) vs"
  using mixer_window [of "sm_new F n" vs] sm_new_ok [of n F] assms by auto

end
