(* ===== verification/Spinlock.thy ===== *)
theory Spinlock
  imports Prelude
begin

text \<open>
  The two classes \<open>spinlock\<close> of \<open>src/src/common/util.h\<close>: one over \<open>atomic<bool>\<close>, for platforms where that is lock-free, and one
  over \<open>atomic_flag\<close> for the others. A thread is outside, at the exchange of \<open>lock\<close>, in its inner loop, at the exchange of
  \<open>try_lock\<close>, or holds the lock; each step is one access to the flag. What both have in common is the locale
  \<open>spin_protocol\<close>, in which exclusion is proved once.
\<close>

datatype spin_place = Outside | Exchanging | Pausing | Trying | Holding

record spin =
  af :: bool
  spinners :: "spin_place list"

definition spin_new :: "nat \<Rightarrow> spin" where
  "spin_new n = \<lparr>af = False, spinners = replicate n Outside\<rparr>"

definition spin_to :: "nat \<Rightarrow> bool \<Rightarrow> spin_place \<Rightarrow> spin \<Rightarrow> spin" where
  "spin_to t flag p s = s\<lparr>af := flag, spinners := (spinners s)[t := p]\<rparr>"

datatype spin_call = Lock | Try_lock

text \<open>The call says what a thread that is outside does next; the others go on.\<close>

definition spin_step :: "spin_call \<Rightarrow> nat \<Rightarrow> spin \<Rightarrow> spin" where
  "spin_step c t s =
     (case spinners s ! t of
        Outside \<Rightarrow> (case c of Lock \<Rightarrow> spin_to t (af s) Exchanging s
                   | Try_lock \<Rightarrow> spin_to t (af s) (if \<not> af s then Trying else Outside) s)
      | Exchanging \<Rightarrow> spin_to t True (if \<not> af s then Holding else Pausing) s
      | Pausing \<Rightarrow> spin_to t (af s) (if af s then Pausing else Exchanging) s
      | Trying \<Rightarrow> spin_to t True (if \<not> af s then Holding else Outside) s
      | Holding \<Rightarrow> spin_to t False Outside s)"

text \<open>\<open>test_and_set\<close> in the loop's condition; \<open>try_lock\<close> does not look first. No thread is ever in an inner loop.\<close>

definition flag_step :: "spin_call \<Rightarrow> nat \<Rightarrow> spin \<Rightarrow> spin" where
  "flag_step c t s =
     (case spinners s ! t of
        Outside \<Rightarrow> spin_to t (af s) (case c of Lock \<Rightarrow> Exchanging | Try_lock \<Rightarrow> Trying) s
      | Exchanging \<Rightarrow> spin_to t True (if \<not> af s then Holding else Exchanging) s
      | Pausing \<Rightarrow> s
      | Trying \<Rightarrow> spin_to t True (if \<not> af s then Holding else Outside) s
      | Holding \<Rightarrow> spin_to t False Outside s)"

inductive spin_run :: "(spin_call \<Rightarrow> nat \<Rightarrow> spin \<Rightarrow> spin) \<Rightarrow> nat \<Rightarrow> spin \<Rightarrow> bool" for step n where
  spin_begin: "spin_run step n (spin_new n)"
| spin_goes: "spin_run step n s \<Longrightarrow> t < n \<Longrightarrow> spin_run step n (step c t s)"

definition holds :: "spin \<Rightarrow> nat \<Rightarrow> bool" where
  "holds s t \<longleftrightarrow> spinners s ! t = Holding"

definition spin_inv :: "nat \<Rightarrow> spin \<Rightarrow> bool" where
  "spin_inv n s \<longleftrightarrow> length (spinners s) = n \<and>
     (if af s then \<exists>t<n. \<forall>u<n. holds s u \<longleftrightarrow> u = t else \<forall>u<n. \<not> holds s u)"

lemma spin_to_simps [simp]:
  "af (spin_to t flag p s) = flag" "length (spinners (spin_to t flag p s)) = length (spinners s)"
  "t < length (spinners s) \<Longrightarrow> holds (spin_to t flag p s) u \<longleftrightarrow> (if u = t then p = Holding else holds s u)"
  by (auto simp: spin_to_def holds_def nth_list_update)

lemma spin_to_same: "t < length (spinners s) \<Longrightarrow> spin_to t (af s) (spinners s ! t) s = s"
  by (simp add: spin_to_def)

subsection \<open>The protocol\<close>

text \<open>
  A thread that does not hold the lock leaves the flag as it is and goes on without it, or finds the flag clear, sets it and holds the
  lock; the holder clears the flag and goes. Who stands at the exchange of \<open>lock\<close> when the flag is clear gets the lock by that step.
\<close>

locale spin_protocol =
  fixes step :: "spin_call \<Rightarrow> nat \<Rightarrow> spin \<Rightarrow> spin"
  assumes waits: "t < length (spinners s) \<Longrightarrow> \<not> holds s t \<Longrightarrow>
      (\<exists>p. p \<noteq> Holding \<and> step c t s = spin_to t (af s) p s) \<or> (\<not> af s \<and> step c t s = spin_to t True Holding s)"
    and leaves: "t < length (spinners s) \<Longrightarrow> holds s t \<Longrightarrow> step c t s = spin_to t False Outside s"
    and enters: "spinners s ! t = Exchanging \<Longrightarrow> \<not> af s \<Longrightarrow> step c t s = spin_to t True Holding s"
begin

lemma step_inv:
  assumes inv: "spin_inv n s" and t: "t < n"
  shows "spin_inv n (step c t s)"
proof -
  have len: "t < length (spinners s)" using inv t by (simp add: spin_inv_def)
  show ?thesis
  proof (cases "holds s t")
    case True
    with leaves [OF len True] inv t len show ?thesis by (auto simp: spin_inv_def split: if_splits)
  next
    case False
    from waits [OF len False, of c] show ?thesis
    proof (elim disjE exE conjE)
      fix p
      assume "p \<noteq> Holding" "step c t s = spin_to t (af s) p s"
      with inv t len False show ?thesis by (auto simp: spin_inv_def; metis)
    next
      assume "\<not> af s" "step c t s = spin_to t True Holding s"
      with inv t len show ?thesis by (auto simp: spin_inv_def)
    qed
  qed
qed

lemma run_inv: "spin_run step n s \<Longrightarrow> spin_inv n s"
proof (induction rule: spin_run.induct)
  case spin_begin
  then show ?case by (simp add: spin_inv_def spin_new_def holds_def)
qed (rule step_inv)

text \<open>Mutual exclusion; and while nobody holds the lock, the thread at the exchange gets it.\<close>

lemma exclusive: "spin_run step n s \<Longrightarrow> t < n \<Longrightarrow> u < n \<Longrightarrow> holds s t \<Longrightarrow> holds s u \<Longrightarrow> t = u"
  using run_inv [of n s] by (auto simp: spin_inv_def split: if_splits)

lemma gets:
  assumes "spin_run step n s" and "t < n" and "\<forall>u<n. \<not> holds s u" and "spinners s ! t = Exchanging"
  shows "holds (step Lock t s) t"
proof -
  from run_inv [OF assms(1)] have "length (spinners s) = n" "\<not> af s" using assms(2,3) by (auto simp: spin_inv_def split: if_splits)
  with enters [OF assms(4)] assms(2) show ?thesis by simp
qed

end

interpretation bool_lock: spin_protocol spin_step
  by unfold_locales
    (auto simp: spin_step_def holds_def spin_to_same split: spin_place.split spin_call.split intro: exI [of _ Outside])

interpretation flag_lock: spin_protocol flag_step
proof unfold_locales
  show "(\<exists>p. p \<noteq> Holding \<and> flag_step c t s = spin_to t (af s) p s) \<or> (\<not> af s \<and> flag_step c t s = spin_to t True Holding s)"
    if "t < length (spinners s)" "\<not> holds s t" for t s c
    using that spin_to_same [OF that(1)] by (auto simp: flag_step_def holds_def split: spin_place.split spin_call.split)
qed (auto simp: flag_step_def holds_def)

text \<open>
  In the first class a waiting thread looks at the flag without writing to it, so after the lock has become free it needs at most two of
  its own steps; in the second one it needs one.
\<close>

lemma spin_free:
  assumes "spin_run spin_step n s" and "t < n" and "\<forall>u<n. \<not> holds s u" and "spinners s ! t \<in> {Exchanging, Pausing}"
  shows "holds (spin_step Lock t s) t \<or> holds (spin_step Lock t (spin_step Lock t s)) t"
proof -
  from bool_lock.run_inv [OF assms(1)] have "length (spinners s) = n" "\<not> af s"
    using assms(2,3) by (auto simp: spin_inv_def split: if_splits)
  with assms(2,4) show ?thesis by (auto simp: spin_step_def spin_to_def holds_def)
qed

lemma flag_free:
  assumes "spin_run flag_step n s" and "t < n" and "\<forall>u<n. \<not> holds s u" and "spinners s ! t = Exchanging"
  shows "holds (flag_step Lock t s) t"
  by (rule flag_lock.gets [OF assms])

lemma spin_exclusive:
  "spin_run spin_step n s \<Longrightarrow> t < n \<Longrightarrow> u < n \<Longrightarrow> holds s t \<Longrightarrow> holds s u \<Longrightarrow> t = u"
  "spin_run flag_step n s \<Longrightarrow> t < n \<Longrightarrow> u < n \<Longrightarrow> holds s t \<Longrightarrow> holds s u \<Longrightarrow> t = u"
  by (rule bool_lock.exclusive, assumption+) (rule flag_lock.exclusive, assumption+)

text \<open>\<open>try_lock\<close> of the second class writes to the flag even when the lock is held, which changes nothing.\<close>

lemma flag_try_held: "af s \<Longrightarrow> spinners s ! t = Trying \<Longrightarrow> flag_step c t s = spin_to t (af s) Outside s"
  by (simp add: flag_step_def)

lemma flag_never_pauses: "spin_run flag_step n s \<Longrightarrow> Pausing \<notin> set (spinners s)"
proof (induction rule: spin_run.induct)
  case (spin_goes s t c)
  then show ?case
    by (auto simp: flag_step_def spin_to_def split: spin_place.split spin_call.split dest!: set_update_subset_insert [THEN subsetD])
qed (simp add: spin_new_def)

end
