(* ===== verification/LatencyStats.thy ===== *)
theory LatencyStats
  imports StatisticMixer StreamViewer
begin

text \<open>
  The statistics of the render thread in \<open>StreamViewerD3D::renderLoop_\<close> (\<open>src/src/client/platform/windows/StreamViewerD3D.cpp\<close>): where
  the time of the last 300 frames went, written to the log every five seconds. \<open>to_ms\<close> is the conversion of microseconds to
  floating point milliseconds; times of the steady clock are in milliseconds.
\<close>

record 'f latency_stats =
  lastStatPrint :: int
  totalTime :: "'f mixer"
  encodingTime :: "'f mixer"
  networkTime :: "'f mixer"
  decodingTime :: "'f mixer"

definition stat_valid :: "('f, 'd) float_ops \<Rightarrow> 'f stat \<Rightarrow> bool" where
  "stat_valid F s = (\<not> f_isnan F (st_avg s))"

definition stats_new :: "('f, 'd) float_ops \<Rightarrow> int \<Rightarrow> 'f latency_stats" where
  "stats_new F now =
     \<lparr>lastStatPrint = now, totalTime = sm_new F 300, encodingTime = sm_new F 300, networkTime = sm_new F 300, decodingTime = sm_new F 300\<rparr>"

definition stats_push :: "(int \<Rightarrow> 'f) \<Rightarrow> 'a frame_of \<Rightarrow> 'f latency_stats \<Rightarrow> 'f latency_stats res" where
  "stats_push to_ms fr s =
     rbind (if 0 < timeCaptured fr
            then rbind (pushValue (to_ms (timeEncoded fr - timeCaptured fr)) (encodingTime s)) (\<lambda>enc.
                 rbind (pushValue (to_ms (timePresented fr - timeCaptured fr)) (totalTime s)) (\<lambda>tot.
                   Inr (s\<lparr>encodingTime := enc, totalTime := tot\<rparr>)))
            else Inr s) (\<lambda>s1.
     rbind (pushValue (to_ms (timeReceived fr - timeEncoded fr)) (networkTime s1)) (\<lambda>net.
     rbind (pushValue (to_ms (timeDecoded fr - timeReceived fr)) (decodingTime s1)) (\<lambda>dec.
       Inr (s1\<lparr>networkTime := net, decodingTime := dec\<rparr>))))"

text \<open>What is written to the log: the four means, or nothing.\<close>

definition stats_print :: "('f, 'd) float_ops \<Rightarrow> int \<Rightarrow> 'f latency_stats \<Rightarrow> 'f list \<times> 'f latency_stats" where
  "stats_print F now s =
     (if 5000 \<le> now - lastStatPrint s
      then (let totStat = calcStat F False (totalTime s); encStat = calcStat F False (encodingTime s);
                netStat = calcStat F False (networkTime s); decStat = calcStat F False (decodingTime s) in
            (if stat_valid F encStat \<and> stat_valid F netStat \<and> stat_valid F decStat
             then [st_avg totStat, st_avg encStat, st_avg netStat, st_avg decStat] else [],
             s\<lparr>lastStatPrint := now\<rparr>))
      else ([], s))"

text \<open>One frame that was rendered and stamped.\<close>

definition stats_frame :: "('f, 'd) float_ops \<Rightarrow> (int \<Rightarrow> 'f) \<Rightarrow> int \<Rightarrow> 'a frame_of \<Rightarrow> 'f latency_stats \<Rightarrow> ('f list \<times> 'f latency_stats) res" where
  "stats_frame F to_ms now fr s = rbind (stats_push to_ms fr s) (\<lambda>s1. Inr (stats_print F now s1))"

subsection \<open>The statistics are those of the last frames\<close>

fun stats_frames :: "('f, 'd) float_ops \<Rightarrow> (int \<Rightarrow> 'f) \<Rightarrow> (int \<times> 'a frame_of) list \<Rightarrow> 'f latency_stats \<Rightarrow> ('f list list \<times> 'f latency_stats) res" where
  "stats_frames F to_ms [] s = Inr ([], s)"
| "stats_frames F to_ms ((now, f) # fs) s =
     rbind (stats_frame F to_ms now f s) (\<lambda>(out, s1). rbind (stats_frames F to_ms fs s1) (\<lambda>(outs, s2). Inr (out # outs, s2)))"

definition stats_ok :: "'f latency_stats \<Rightarrow> bool" where
  "stats_ok s \<longleftrightarrow> mixer_ok (totalTime s) \<and> mixer_ok (encodingTime s) \<and> mixer_ok (networkTime s) \<and> mixer_ok (decodingTime s)"

definition timed :: "'a frame_of list \<Rightarrow> 'a frame_of list" where
  "timed fs = filter (\<lambda>f. 0 < timeCaptured f) fs"

text \<open>The latencies that the four mixers get, as functions of a frame.\<close>

definition enc_latency :: "(int \<Rightarrow> 'f) \<Rightarrow> 'a frame_of \<Rightarrow> 'f" where
  "enc_latency to_ms f = to_ms (timeEncoded f - timeCaptured f)"

definition net_latency :: "(int \<Rightarrow> 'f) \<Rightarrow> 'a frame_of \<Rightarrow> 'f" where
  "net_latency to_ms f = to_ms (timeReceived f - timeEncoded f)"

lemma stats_frame_mixers:
  assumes "stats_ok s"
  shows "\<exists>out s'. stats_frame F to_ms now f s = Inr (out, s') \<and> stats_ok s' \<and>
    pushValue (net_latency to_ms f) (networkTime s) = Inr (networkTime s') \<and>
    (if 0 < timeCaptured f then pushValue (enc_latency to_ms f) (encodingTime s) = Inr (encodingTime s') else encodingTime s' = encodingTime s)"
proof -
  from assms pushValue_window obtain t e n d where
    "pushValue (to_ms (timePresented f - timeCaptured f)) (totalTime s) = Inr t" "mixer_ok t"
    "pushValue (to_ms (timeEncoded f - timeCaptured f)) (encodingTime s) = Inr e" "mixer_ok e"
    "pushValue (to_ms (timeReceived f - timeEncoded f)) (networkTime s) = Inr n" "mixer_ok n"
    "pushValue (to_ms (timeDecoded f - timeReceived f)) (decodingTime s) = Inr d" "mixer_ok d"
    unfolding stats_ok_def by metis
  with assms show ?thesis
    by (auto simp: stats_frame_def stats_push_def stats_print_def stats_ok_def enc_latency_def net_latency_def Let_def)
qed

lemma stats_frames_push:
  "stats_ok s \<Longrightarrow> \<exists>outs s'. stats_frames F to_ms fs s = Inr (outs, s') \<and> stats_ok s' \<and>
     push_samples (map (net_latency to_ms \<circ> snd) fs) (networkTime s) = Inr (networkTime s') \<and>
     push_samples (map (enc_latency to_ms) (timed (map snd fs))) (encodingTime s) = Inr (encodingTime s')"
proof (induction fs arbitrary: s)
  case (Cons nf fs)
  obtain now f where nf: "nf = (now, f)" by fastforce
  from stats_frame_mixers [OF Cons.prems, of F to_ms now f] obtain out s1 where s1: "stats_frame F to_ms now f s = Inr (out, s1)" "stats_ok s1"
    "pushValue (net_latency to_ms f) (networkTime s) = Inr (networkTime s1)"
    "if 0 < timeCaptured f then pushValue (enc_latency to_ms f) (encodingTime s) = Inr (encodingTime s1) else encodingTime s1 = encodingTime s"
    by blast
  from Cons.IH [OF s1(2)] s1 show ?case by (auto simp: nf timed_def split: if_splits)
qed (simp add: timed_def)

text \<open>
  No frame makes the statistics fail, and the network statistics are those of the last 300 frames, the encoding
  statistics those of the last 300 frames that carry a capture time.
\<close>

lemma stats_of_last_frames:
  shows "\<exists>outs s. stats_frames F to_ms fs (stats_new F start) = Inr (outs, s) \<and>
    (300 \<le> length fs \<longrightarrow> oldest_first (networkTime s) = map (net_latency to_ms \<circ> snd) (drop (length fs - 300) fs)) \<and>
    (300 \<le> length (timed (map snd fs)) \<longrightarrow>
       oldest_first (encodingTime s) = map (enc_latency to_ms) (drop (length (timed (map snd fs)) - 300) (timed (map snd fs))))"
proof -
  have "stats_ok (stats_new F start)" using sm_new_ok [of 300 F] by (simp add: stats_ok_def stats_new_def)
  from stats_frames_push [OF this, of F to_ms fs] obtain outs s where s: "stats_frames F to_ms fs (stats_new F start) = Inr (outs, s)"
    "push_samples (map (net_latency to_ms \<circ> snd) fs) (sm_new F 300) = Inr (networkTime s)"
    "push_samples (map (enc_latency to_ms) (timed (map snd fs))) (sm_new F 300) = Inr (encodingTime s)"
    by (auto simp: stats_new_def)
  from newest_samples [of 300 "map (net_latency to_ms \<circ> snd) fs" F] newest_samples [of 300 "map (enc_latency to_ms) (timed (map snd fs))" F] s
  show ?thesis by (auto simp: drop_map)
qed

end
