(* ===== verification/TextureMove.thy ===== *)
theory TextureMove
  imports TextureArena
begin

text \<open>
  Moving blocks, textures and arenas (\<open>TextureAllocArena.cpp\<close> and \<open>TextureSoftware.cpp\<close> of
  \<open>src/src/common/platform/software/\<close>). All moves swap. The vector of blocks moves its blocks whenever it grows, so
  \<open>TextureArena\<close> rests on what is shown here of blocks. An arena knows itself by a weak pointer, \<open>ar_self\<close>, which the swap of
  two arenas exchanges, while the number of the last block stays where it is. No other code of the program swaps arenas.
\<close>

subsection \<open>Blocks\<close>

definition block_blank :: arena_block where
  "block_blank = \<lparr>blk_data = 0, blk_size = 0, blk_id = 0, blk_available = replicate BLOCK_SIZE True\<rparr>"

text \<open>The slots are exchanged one by one, each through a temporary (\<open>exchange\<close>).\<close>

fun swap_slots :: "bool list \<Rightarrow> bool list \<Rightarrow> bool list \<times> bool list" where
  "swap_slots (x # xs) (y # ys) =
     (let temp = x; (temp, y') = (y, temp); x' = temp; (xs', ys') = swap_slots xs ys in (x' # xs', y' # ys'))"
| "swap_slots [] ys = ([], ys)"
| "swap_slots (x # xs) [] = (x # xs, [])"

definition block_move_assign :: "arena_block \<Rightarrow> arena_block \<Rightarrow> arena_block \<times> arena_block" where
  "block_move_assign this mv =
     (let (ours, theirs) = swap_slots (blk_available this) (blk_available mv) in
      (\<lparr>blk_data = blk_data mv, blk_size = blk_size mv, blk_id = blk_id mv, blk_available = ours\<rparr>,
       \<lparr>blk_data = blk_data this, blk_size = blk_size this, blk_id = blk_id this, blk_available = theirs\<rparr>))"

definition block_move_construct :: "arena_block \<Rightarrow> arena_block \<times> arena_block" where
  "block_move_construct mv = block_move_assign block_blank mv"

text \<open>A vector that grows moves each block into new storage and destroys what is left of the old one.\<close>

fun regrow :: "arena_block list \<Rightarrow> arena_block list res" where
  "regrow [] = Inr []"
| "regrow (b # bs) =
     (let (b', old) = block_move_construct b in
      rbind (block_destroy old) (\<lambda>_. rbind (regrow bs) (\<lambda>bs'. Inr (b' # bs'))))"

lemma swap_slots_swaps: "length xs = length ys \<Longrightarrow> swap_slots xs ys = (ys, xs)"
  by (induction xs ys rule: swap_slots.induct) auto

lemma block_move_assign_swaps:
  "length (blk_available a) = length (blk_available b) \<Longrightarrow> block_move_assign a b = (b, a)"
  by (simp add: block_move_assign_def swap_slots_swaps)

text \<open>Growing the vector keeps every block and its slots, also while textures use them.\<close>

lemma regrow_keeps: "\<forall>b\<in>set bs. length (blk_available b) = BLOCK_SIZE \<Longrightarrow> regrow bs = Inr bs"
  by (induction bs) (auto simp: block_move_construct_def block_move_assign_swaps block_destroy_def block_blank_def)

subsection \<open>Textures\<close>

definition tex_move_construct :: "'px \<Rightarrow> 'px texture \<Rightarrow> 'px texture \<times> 'px texture" where
  "tex_move_construct none mv = texture_swap (texture_new none, mv)"

definition tex_move_assign :: "'px texture \<Rightarrow> 'px texture \<Rightarrow> 'px texture \<times> 'px texture" where
  "tex_move_assign this mv = texture_swap (this, mv)"

text \<open>A moved-from texture gives no slot back; an assigned one leaves its old slot to the source.\<close>

lemma moved_texture_harmless: "tex_destroy (snd (tex_move_construct px t)) st = Inr st"
  by (simp add: tex_move_construct_def texture_swap_def texture_new_def tex_destroy_def)

lemma assigned_texture_slots: "tex_key (snd (tex_move_assign t u)) = tex_key t" "tex_key (fst (tex_move_assign t u)) = tex_key u"
  by (simp_all add: tex_move_assign_def texture_swap_def)

subsection \<open>Arenas\<close>

record arena_object = arena +
  ar_self :: "nat option"

definition arena_object_new :: arena_object where
  "arena_object_new = \<lparr>ar_width = -1, ar_height = -1, ar_format = AV_NONE, textureSize = 0, lastBlockId = 0, blocks = [],
     ar_self = None\<rparr>"

definition arena_swap :: "arena_object \<times> arena_object \<Rightarrow> arena_object \<times> arena_object" where
  "arena_swap p =
     (let (a, b) = p in
      (a\<lparr>ar_self := ar_self b, ar_width := ar_width b, ar_height := ar_height b, ar_format := ar_format b,
         textureSize := textureSize b, blocks := blocks b\<rparr>,
       b\<lparr>ar_self := ar_self a, ar_width := ar_width a, ar_height := ar_height a, ar_format := ar_format a,
         textureSize := textureSize a, blocks := blocks a\<rparr>))"

definition arena_move_construct :: "arena_object \<Rightarrow> arena_object \<times> arena_object" where
  "arena_move_construct mv = arena_swap (arena_object_new, mv)"

definition arena_move_assign :: "arena_object \<Rightarrow> arena_object \<Rightarrow> arena_object \<times> arena_object" where
  "arena_move_assign this mv = arena_swap (this, mv)"

text \<open>\<open>~TextureAllocArena\<close>: every block is destroyed, which aborts where a slot is in use.\<close>

fun destroy_blocks :: "arena_block list \<Rightarrow> unit res" where
  "destroy_blocks [] = Inr ()"
| "destroy_blocks (b # bs) = rbind (block_destroy b) (\<lambda>_. destroy_blocks bs)"

definition arena_destroy :: "arena_object \<Rightarrow> arena_object res" where
  "arena_destroy a = rbind (destroy_blocks (blocks a)) (\<lambda>_. Inr (a\<lparr>blocks := []\<rparr>))"

lemma destroy_blocks_ok: "destroy_blocks bs = Inr () \<longleftrightarrow> (\<forall>b\<in>set bs. blk_data b = 0 \<or> checkAllEmpty b)"
  by (induction bs) (auto simp: block_destroy_def)

lemma arena_swap_twice: "arena_swap (arena_swap p) = p"
  by (cases p) (simp add: arena_swap_def)

text \<open>
  The number of the last block does not move along. A moved arena therefore counts from the start again: once its blocks are
  full, the next one gets a number that is in use, and the texture in it gives back a slot of the older block, which
  another texture still uses.
\<close>

lemma alloc_in_full: "\<forall>b\<in>set bs. blk_available b = replicate BLOCK_SIZE False \<Longrightarrow> alloc_in bs = None"
  by (induction bs) (auto simp: allocSlot_def BLOCK_SIZE_def numeral_eq_Suc)

lemma moved_arena_numbers:
  assumes full: "\<forall>b\<in>set (blocks a). blk_available b = replicate BLOCK_SIZE False" and b: "findBlock 1 (blocks a) = Some b"
  shows "\<exists>c. alloc_slot av st (arena.truncate (fst (arena_move_construct a))) =
      (1, 0, (arena.truncate (fst (arena_move_construct a)))\<lparr>lastBlockId := 1, blocks := blocks a @ [c]\<rparr>) \<and>
    findBlock 1 (blocks a @ [c]) = Some b \<and> freeSlot 0 b = Inr (b\<lparr>blk_available := (blk_available b)[0 := True]\<rparr>)"
proof -
  have "blk_available b = replicate BLOCK_SIZE False" using full b findBlock_SomeD by blast
  then have "freeSlot 0 b = Inr (b\<lparr>blk_available := (blk_available b)[0 := True]\<rparr>)"
    by (simp add: freeSlot_def BLOCK_SIZE_def)
  moreover have "findBlock 1 (blocks a @ [c]) = Some b" for c using b by (simp add: findBlock_append)
  ultimately show ?thesis using alloc_in_full [OF full]
    by (auto simp: alloc_slot_def arena_move_construct_def arena_swap_def arena_object_new_def arena.truncate_def
        allocSlot_def block_new_def Let_def BLOCK_SIZE_def numeral_eq_Suc)
qed

end
