(* ===== verification/Startup.thy ===== *)
theory Startup
  imports StreamServer NetworkServer StreamClient HubWindow Log
begin

text \<open>
  How the two programs begin and end: \<open>main\<close> of \<open>src/src/server/platform/windows/main.cpp\<close> and of
  \<open>src/src/client/platform/windows/main.cpp\<close>, the parts of the constructors of \<open>NetworkServer\<close> and \<open>StreamClient\<close> that load or make
  the own identity, \<open>StreamServer::start\<close>, \<open>stop\<close> and its destructor over their parts, and \<open>LocalClock\<close> of \<open>src/src/server\<close>.

  A step that loads an identity contains the loops of \<open>CertStore\<close>, so its result is a \<open>res option\<close>: \<open>None\<close> is a
  loop that does not end. What Windows answers is an argument. The server sleeps for an hour between its two halves; what
  happens meanwhile are steps of \<open>StreamServer\<close> and of \<open>NetworkServer\<close>.
\<close>

definition obind :: "'x res option \<Rightarrow> ('x \<Rightarrow> 'y res option) \<Rightarrow> 'y res option" where
  "obind m f = (case m of None \<Rightarrow> None | Some (Inl e) \<Rightarrow> Some (Inl e) | Some (Inr x) \<Rightarrow> f x)"

lemma obind_eq_InrE: "obind m f = Some (Inr y) \<longleftrightarrow> (\<exists>x. m = Some (Inr x) \<and> f x = Some (Inr y))"
  by (auto simp: obind_def split: option.splits sum.splits)

subsection \<open>LocalClock\<close>

text \<open>The steady clock counts nanoseconds; \<open>duration_cast\<close> truncates.\<close>

record local_clock =
  lc_epoch :: int

definition lc_new :: "int \<Rightarrow> local_clock" where
  "lc_new now = \<lparr>lc_epoch = now\<rparr>"

definition lc_time :: "int \<Rightarrow> local_clock \<Rightarrow> int" where
  "lc_time now c = c_div (now - lc_epoch c) 1000"

lemma lc_time_counts:
  assumes "start \<le> now" and "now \<le> later"
  shows "0 \<le> lc_time now (lc_new start) \<and> lc_time now (lc_new start) \<le> lc_time later (lc_new start) \<and>
    1000 * lc_time now (lc_new start) \<le> now - start \<and> now - start < 1000 * (lc_time now (lc_new start) + 1)"
proof -
  have "lc_time t (lc_new start) = (t - start) div 1000" if "start \<le> t" for t
    using that by (cases "t = start") (auto simp: lc_time_def lc_new_def c_div_def)
  then show ?thesis using assms by (auto intro: zdiv_mono1)
qed

subsection \<open>The own identity\<close>

text \<open>Both constructors load the key, then the certificate. The result has what was written to the two files, if anything.\<close>

definition own_identity :: "'k pk_lib \<Rightarrow> ('k, 'c) crt_lib \<Rightarrow> tm \<Rightarrow>
    (('k, 'c) cert_store \<times> cell list option \<times> (string \<times> cell list) option) res option" where
  "own_identity L C now =
     obind (loadOrGenerate L ''privkey.der'') (\<lambda>(k, key_file).
     obind (loadCert L C now ''cert.der'' (loadKey k (cs_new C))) (\<lambda>(s, cert_file).
       Some (Inr (s, key_file, cert_file))))"

text \<open>
  A certificate file is only taken when it fits the key: after a key has been made anew, the old certificate is replaced. A
  file of several certificates of which some do not parse (a positive status) is taken unseen.
\<close>

lemma identity_fits:
  assumes "own_identity L C now = Some (Inr (s, key_file, cert_file))"
  obtains k where "cs_keypair s = Some k"
    and "cert_file = None \<Longrightarrow> 0 < fst (crt_parse_file C ''cert.der'') \<or> 0 \<le> check_pair C (crt_key C (cs_cert s)) k"
proof -
  from assms obtain k where l: "loadCert L C now ''cert.der'' (loadKey k (cs_new C)) = Some (Inr (s, cert_file))"
    by (auto simp: own_identity_def obind_eq_InrE)
  obtain ret c where st: "cert_status C ''cert.der'' k = (ret, c)" by fastforce
  show thesis
  proof (cases "0 \<le> ret")
    case True
    with l st have s: "s = (loadKey k (cs_new C))\<lparr>cs_cert := c\<rparr>" by (auto simp: loadCert_def loadKey_def)
    show thesis
    proof (rule that)
      show "cs_keypair s = Some k" by (simp add: s loadKey_def)
      show "0 < fst (crt_parse_file C ''cert.der'') \<or> 0 \<le> check_pair C (crt_key C (cs_cert s)) k"
        using st True by (auto simp: s cert_status_def split: prod.splits if_splits)
    qed
  next
    case False
    from l st False obtain r where r: "fingerprintSHA256 L k = Some r"
      by (cases "fingerprintSHA256 L k") (auto simp: loadCert_def loadKey_def)
    from l st False r obtain hex where hex: "rbind r intoHexString = Inr hex"
      by (cases "rbind r intoHexString") (auto simp: loadCert_def loadKey_def)
    have "cs_keypair s = Some k \<and> cert_file \<noteq> None"
      using l st False r hex by (auto simp: loadCert_def loadKey_def rbind_eq_Inr case_prod_beta)
    with that show thesis by blast
  qed
qed

text \<open>Two intact files are read and nothing is written, so the fingerprint stays what other machines know.\<close>

lemma restart_keeps_identity:
  assumes "parse_keyfile L ''privkey.der'' = (0, k)" and "crt_parse_file C ''cert.der'' = (0, c)" and "check_pair C (crt_key C c) k = 0"
  shows "own_identity L C now = Some (Inr (\<lparr>cs_cert = c, cs_keypair = Some k\<rparr>, None, None))"
  using assms by (simp add: own_identity_def obind_def loadOrGenerate_def loadCert_def loadKey_def cs_new_def cert_status_def)

text \<open>\<open>StreamClient()\<close> with its certificate.\<close>

definition stream_client_new :: "'k pk_lib \<Rightarrow> ('k, 'c) crt_lib \<Rightarrow> tm \<Rightarrow> 's socket \<Rightarrow> ('s client \<times> ('k, 'c) cert_store) res option" where
  "stream_client_new L C now sk =
     obind (own_identity L C now) (\<lambda>(s, files). Some (Inr (client_new sk (crt_raw C (cs_cert s)), s)))"

subsection \<open>The server program\<close>

definition setDpiAwareness :: "bool option option \<Rightarrow> bool \<Rightarrow> bool" where
  "setDpiAwareness user32 legacy =
     (let success = (case user32 of None \<Rightarrow> False | Some None \<Rightarrow> False | Some (Some r) \<Rightarrow> r)
      in if \<not> success then legacy else success)"

record main_answers =
  ma_user32 :: "bool option option"
  ma_legacy_dpi :: bool
  ma_com :: bool
  ma_mf :: bool
  ma_bind :: int
  ma_garbage :: bool

record ('k, 'c, 's, 'p, 'a) server_program =
  sp_log :: log_setup
  sp_dpi_warning :: bool
  sp_identity :: "('k, 'c) cert_store"
  sp_net :: network_server
  sp_system :: "('s, 'p, 'a) system"

text \<open>\<open>StreamServer::start\<close> listens at the service port; \<open>ma_bind\<close> is the status of binding it.\<close>

definition SERVICE_PORT :: u16 where
  "SERVICE_PORT = 6495"

definition ss_start :: "int \<Rightarrow> ('k, 'c, 's, 'p, 'a) server_program \<Rightarrow> ('k, 'c, 's, 'p, 'a) server_program res" where
  "ss_start bind' P = rbind (startListen bind' (sp_net P)) (\<lambda>n. Inr (P\<lparr>sp_net := n\<rparr>))"

text \<open>\<open>StreamServer::stop\<close>: it stops listening, and then destroys the members, joining each thread under the lock.\<close>

definition ss_stop :: "('k, 'c, 's, 'p, 'a) server_program \<Rightarrow> ('k, 'c, 's, 'p, 'a) server_program res" where
  "ss_stop P =
     rbind (listen_join (listen_stop (sp_net P))) (\<lambda>n.
     let sys = stop_begin (sp_system P) in
     if list_all (\<lambda>m. m_phase m = phase.Ended) (connections sys)
     then Inr (P\<lparr>sp_net := n, sp_system := stop_end sys\<rparr>) else Inl Blocked)"

text \<open>\<open>main\<close> until its sleep; \<open>s0\<close> is the server's state when its constructor has loaded the known clients.\<close>

definition server_main_begin :: "'k pk_lib \<Rightarrow> ('k, 'c) crt_lib \<Rightarrow> tm \<Rightarrow> net_lib \<Rightarrow> main_answers \<Rightarrow> ('p, 'a) server \<Rightarrow> log_setup \<Rightarrow>
    ('k, 'c, 's, 'p, 'a) server_program res option" where
  "server_main_begin L C now N A s0 l =
     obind (Some (setupLogger l)) (\<lambda>l'.
     let warning = \<not> setDpiAwareness (ma_user32 A) (ma_legacy_dpi A) in
     obind (Some (assert_quit (ma_com A) ''Failed to initialize COM'')) (\<lambda>_.
     obind (Some (assert_quit (ma_mf A) ''Failed to start MediaFoundation'')) (\<lambda>_.
     obind (own_identity L C now) (\<lambda>(idn, files).
     obind (Some (ns_new N (ma_garbage A))) (\<lambda>n.
       Some (ss_start (ma_bind A)
         \<lparr>sp_log = l', sp_dpi_warning = warning, sp_identity = idn, sp_net = n, sp_system = system_init s0\<rparr>))))))"

text \<open>\<open>~StreamServer\<close>, up to the join of the deleting thread: it leaves its loop when it next looks at the flag.\<close>

definition ss_destroy :: "('k, 'c, 's, 'p, 'a) server_program \<Rightarrow> ('k, 'c, 's, 'p, 'a) server_program" where
  "ss_destroy P = P\<lparr>sp_system := deleter_quit (sp_system P)\<rparr>"

text \<open>A server whose \<open>main\<close> got to its sleep listens, with its logger set up and nobody connected.\<close>

lemma main_listens:
  assumes "server_main_begin L C now N A s0 l = Some (Inr P)"
  shows "flagListen (sp_net P) \<and> ns_bound (sp_net P) \<and> listenThread (sp_net P) = Working \<and> ls_initialized (sp_log P) \<and>
    connections (sp_system P) = [] \<and> cs_keypair (sp_identity P) \<noteq> None \<and> \<not> ma_garbage A"
proof -
  from assms obtain l' idn files n where
    p: "setupLogger l = Inr l'" "own_identity L C now = Some (Inr (idn, files))" "ns_new N (ma_garbage A) = Inr n"
      "ss_start (ma_bind A) \<lparr>sp_log = l', sp_dpi_warning = \<not> setDpiAwareness (ma_user32 A) (ma_legacy_dpi A), sp_identity = idn,
         sp_net = n, sp_system = system_init s0\<rparr> = Inr P"
    by (auto simp: server_main_begin_def obind_eq_InrE Let_def)
  obtain kf cf where f: "files = (kf, cf)" by fastforce
  from identity_fits [OF p(2) [unfolded f]] have "cs_keypair idn \<noteq> None" by blast
  moreover have "ls_initialized l'" using p(1) by (auto simp: setupLogger_def rbind_eq_Inr Let_def)
  moreover have "flagListen n = ma_garbage A" using p(3) by (auto simp: ns_new_def rbind_eq_Inr Let_def)
  ultimately show ?thesis using p(4)
    by (auto simp: ss_start_def startListen_def rbind_eq_Inr spawn_thread_def system_init_def Let_def split: if_splits)
qed

text \<open>
  \<open>stop\<close> returns only when every member's thread has ended before; with a client connected the program hangs in it, as
  long as it lives.
\<close>

lemma main_stops:
  "ss_stop P = Inr P' \<longleftrightarrow> listenThread (sp_net P) \<noteq> Working \<and> (\<forall>m\<in>set (connections (sp_system P)). m_phase m = phase.Ended) \<and>
     P' = P\<lparr>sp_net := (listen_stop (sp_net P))\<lparr>listenThread := Idle\<rparr>, sp_system := stop_end (stop_begin (sp_system P))\<rparr>"
  by (auto simp: ss_stop_def listen_join_def listen_stop_def join_thread_def rbind_eq_Inr stop_begin_def stop_end_def list_all_iff Let_def)

lemma main_hangs:
  assumes "m \<in> set (connections (sp_system P))" and "m_phase m \<noteq> phase.Ended"
    and "(sys_step E to_float)\<^sup>*\<^sup>* (stop_begin (sp_system P)) sys"
  shows "ss_stop P = Inl Blocked \<and> stop_holds_lock sys \<and> (\<exists>m\<in>set (connections sys). m_phase m \<noteq> phase.Ended)"
proof -
  have "stuck (stop_begin (sp_system P))" using assms(1,2) by (auto simp: stuck_def stop_begin_def)
  from stuck_forever [OF assms(3) this] have "stuck sys" .
  moreover have "\<not> list_all (\<lambda>m. m_phase m = phase.Ended) (connections (stop_begin (sp_system P)))"
    using assms(1,2) by (auto simp: stop_begin_def list_all_iff)
  ultimately show ?thesis
    by (cases "listen_join (listen_stop (sp_net P))")
      (auto simp: stuck_def ss_stop_def listen_join_def join_thread_def rbind_def Let_def split: sum.splits if_splits)
qed

subsection \<open>The client program\<close>

text \<open>\<open>WinMain\<close> until the event loop: the window, and the place it was moved to.\<close>

definition client_main :: "crypto \<Rightarrow> (parse_error + toml) \<Rightarrow> (int \<times> int \<Rightarrow> qrect option) \<Rightarrow> qrect \<Rightarrow> int \<times> int \<Rightarrow> log_setup \<Rightarrow>
    (log_setup \<times> hub \<times> (int \<times> int)) res" where
  "client_main c parsed screenAt geo frameSz l =
     rbind (setupLogger l) (\<lambda>l'. rbind (hub_new c parsed) (\<lambda>h. rbind (showCentered screenAt geo frameSz) (\<lambda>p. Inr (l', h, p))))"

lemma client_opens: "client_main c parsed screenAt geo frameSz l = Inr (l', h, p) \<Longrightarrow> hub_run c h \<and> ls_ffmpeg l'"
  by (auto simp: client_main_def rbind_eq_Inr setupLogger_def Let_def intro: hub_opens)

end
