(* ===== verification/ScaleD3D.thy ===== *)
theory ScaleD3D
  imports Complex_Main CapturePipelineD3DSoft
begin

text \<open>
  \<open>ScaleD3D\<close> of \<open>src/src/server/platform/windows/ScaleD3D.h\<close> and \<open>.cpp\<close> with its subclasses \<open>ScaleD3D_AYUV\<close> and
  \<open>ScaleD3D_NV12\<close>: scaling and colour conversion on the graphics card, by drawing a rectangle that covers the target. The
  shaders are those of \<open>rgb2yuv.hlsl\<close> in the same directory.

  Direct3D is seen from outside. The device (\<open>gpu\<close>) gives each new object the next number, or refuses it; a
  COM pointer of the class is an option or a flag. What the class does to the context is the list of its calls. A
  subclass is a record that extends the base class, and a virtual call a case distinction.
\<close>

datatype surface_format = FMT_UNKNOWN | FMT_AYUV | FMT_NV12 | FMT_R8 | FMT_R8G8 | FMT_R8G8B8A8 | FMT_B8G8R8A8

record tex_desc =
  td_width :: int
  td_height :: int
  td_format :: surface_format
  td_target :: bool
  td_readable :: bool
  td_shared :: bool

record gpu_texture =
  gt_id :: nat
  gt_desc :: tex_desc

record gpu_view =
  gv_texture :: gpu_texture
  gv_format :: surface_format

record gpu =
  made :: nat
  refuses :: "nat \<Rightarrow> bool"

definition CreateTexture2D :: "tex_desc \<Rightarrow> gpu \<Rightarrow> gpu_texture option \<times> gpu" where
  "CreateTexture2D desc g = (if refuses g (made g) then None else Some \<lparr>gt_id = made g, gt_desc = desc\<rparr>, g\<lparr>made := made g + 1\<rparr>)"

text \<open>A view of no texture is refused.\<close>

definition create_view :: "gpu_texture option \<Rightarrow> surface_format \<Rightarrow> gpu \<Rightarrow> gpu_view option \<times> gpu" where
  "create_view tex fmt g =
     ((case tex of None \<Rightarrow> None | Some t \<Rightarrow> if refuses g (made g) then None else Some \<lparr>gv_texture = t, gv_format = fmt\<rparr>), g\<lparr>made := made g + 1\<rparr>)"

definition create_object :: "gpu \<Rightarrow> bool \<times> gpu" where
  "create_object g = (\<not> refuses g (made g), g\<lparr>made := made g + 1\<rparr>)"

datatype pixel_shader = PS_YUV | PS_Y | PS_UV | PS_COPY

definition create_pixel_shader :: "pixel_shader \<Rightarrow> gpu \<Rightarrow> pixel_shader option \<times> gpu" where
  "create_pixel_shader s g = (let (ok, g') = create_object g in (if ok then Some s else None, g'))"

text \<open>The calls on the context that the class makes.\<close>

datatype context_call =
    RSSetViewports int int
  | VSSetShader bool
  | PSSetShader "pixel_shader option"
  | PSSetConstantBuffers bool
  | PSSetShaderResources "gpu_view option"
  | PSSetSamplers bool
  | OMSetRenderTargets "gpu_view option"
  | IASetPrimitiveTopology_TRIANGLESTRIP
  | IASetInputLayout bool
  | IASetVertexBuffers bool
  | Draw nat
  | CopyResource "gpu_texture option" "gpu_texture option"

record scale_d3d =
  sd_ready :: bool
  sd_outType :: scale_type
  sd_in :: "int \<times> int \<times> surface_format"
  sd_outWidth :: int
  sd_outHeight :: int
  sd_outFormat :: surface_format
  sd_outputTex :: "gpu_texture option"
  vertexBuffer :: bool
  sd_cbuffer :: bool
  clampSampler :: bool
  vertexShader :: bool
  inputLayout :: bool
  srInput :: "gpu_view option"

record scale_ayuv = scale_d3d +
  rtOutput :: "gpu_view option"
  ay_shader :: "pixel_shader option"

record scale_nv12 = scale_d3d +
  chromaLargeTex :: "gpu_texture option"
  srChromaLarge :: "gpu_view option"
  rtLuma :: "gpu_view option"
  rtChroma :: "gpu_view option"
  rtChromaLarge :: "gpu_view option"
  pixelShaderY :: "pixel_shader option"
  pixelShaderUV :: "pixel_shader option"
  pixelShaderCopy :: "pixel_shader option"

datatype d3d_scaler = Scale_AYUV scale_ayuv | Scale_NV12 scale_nv12

definition sd_fields :: "int \<Rightarrow> int \<Rightarrow> scale_type \<Rightarrow> scale_d3d" where
  "sd_fields w h type =
     \<lparr>sd_ready = False, sd_outType = type, sd_in = (0, 0, FMT_UNKNOWN), sd_outWidth = w, sd_outHeight = h, sd_outFormat = FMT_UNKNOWN,
      sd_outputTex = None, vertexBuffer = False, sd_cbuffer = False, clampSampler = False, vertexShader = False, inputLayout = False,
      srInput = None\<rparr>"

text \<open>\<open>createInstance\<close>; the error behind its two cases is not reached, since there are two types.\<close>

definition sd_createInstance :: "int \<Rightarrow> int \<Rightarrow> scale_type \<Rightarrow> d3d_scaler" where
  "sd_createInstance w h type =
     (case type of
        AYUV \<Rightarrow> Scale_AYUV (scale_d3d.extend (sd_fields w h AYUV) \<lparr>rtOutput = None, ay_shader = None\<rparr>)
      | NV12 \<Rightarrow> Scale_NV12 (scale_d3d.extend (sd_fields w h NV12) \<lparr>chromaLargeTex = None, srChromaLarge = None, rtLuma = None,
          rtChroma = None, rtChromaLarge = None, pixelShaderY = None, pixelShaderUV = None, pixelShaderCopy = None\<rparr>))"

subsection \<open>Setting up\<close>

definition sd_init :: "gpu \<Rightarrow> 'a scale_d3d_scheme \<Rightarrow> ('a scale_d3d_scheme \<times> gpu) res" where
  "sd_init g0 s =
     (let s1 = s\<lparr>sd_outputTex := None, vertexBuffer := False, sd_cbuffer := False, clampSampler := False, vertexShader := False,
                 inputLayout := False, sd_ready := True\<rparr>;
          (out, g1) = CreateTexture2D \<lparr>td_width = sd_outWidth s, td_height = sd_outHeight s, td_format = sd_outFormat s, td_target = True,
                        td_readable = False, td_shared = False\<rparr> g0;
          (vb, g2) = create_object g1;
          (cb, g3) = create_object g2;
          (sam, g4) = create_object g3;
          (vs, g5) = create_object g4 in
      rbind (assert_quit vs ''Failed to create vertex shader'') (\<lambda>_.
      let (il, g6) = create_object g5 in
        Inr (s1\<lparr>sd_outputTex := out, vertexBuffer := vb, sd_cbuffer := cb, clampSampler := sam, vertexShader := vs, inputLayout := il\<rparr>, g6)))"

definition ay_init :: "gpu \<Rightarrow> scale_ayuv \<Rightarrow> (scale_ayuv \<times> gpu) res" where
  "ay_init g s =
     rbind (sd_init g (s\<lparr>sd_outFormat := FMT_AYUV\<rparr>)) (\<lambda>(s1, g1).
       let (ps, g2) = create_pixel_shader PS_YUV g1;
           (rt, g3) = create_view (sd_outputTex s1) FMT_R8G8B8A8 g2 in
       Inr (s1\<lparr>ay_shader := ps, rtOutput := rt\<rparr>, g3))"

definition nv_init :: "gpu \<Rightarrow> scale_nv12 \<Rightarrow> (scale_nv12 \<times> gpu) res" where
  "nv_init g s =
     (let s0 = s\<lparr>sd_outFormat := FMT_NV12\<rparr> in
      if c_mod (sd_outWidth s0) 2 \<noteq> 0 \<or> c_mod (sd_outHeight s0) 2 \<noteq> 0
      then error_quit ''Dimension not multiple of 2 when using NV12 format''
      else rbind (sd_init g s0) (\<lambda>(s1, g1).
        let (psy, g2) = create_pixel_shader PS_Y g1;
            (psuv, g3) = create_pixel_shader PS_UV g2;
            (psc, g4) = create_pixel_shader PS_COPY g3;
            (large, g5) = CreateTexture2D \<lparr>td_width = sd_outWidth s1, td_height = sd_outHeight s1, td_format = FMT_R8G8, td_target = True,
                            td_readable = True, td_shared = False\<rparr> g4;
            (srl, g6) = create_view large FMT_R8G8 g5;
            (rtl, g7) = create_view large FMT_R8G8 g6;
            (luma, g8) = create_view (sd_outputTex s1) FMT_R8 g7;
            (chroma, g9) = create_view (sd_outputTex s1) FMT_R8G8 g8 in
        Inr (s1\<lparr>pixelShaderY := psy, pixelShaderUV := psuv, pixelShaderCopy := psc, chromaLargeTex := large, srChromaLarge := srl,
                rtChromaLarge := rtl, rtLuma := luma, rtChroma := chroma\<rparr>, g9)))"

definition scaler_init :: "gpu \<Rightarrow> d3d_scaler \<Rightarrow> (d3d_scaler \<times> gpu) res" where
  "scaler_init g s =
     (case s of
        Scale_AYUV a \<Rightarrow> rbind (ay_init g a) (\<lambda>(a', g'). Inr (Scale_AYUV a', g'))
      | Scale_NV12 n \<Rightarrow> rbind (nv_init g n) (\<lambda>(n', g'). Inr (Scale_NV12 n', g')))"

subsection \<open>Converting\<close>

definition ay_convert :: "scale_ayuv \<Rightarrow> context_call list" where
  "ay_convert s =
     [RSSetViewports (sd_outWidth s) (sd_outHeight s),
      VSSetShader (vertexShader s), PSSetShader (ay_shader s),
      PSSetConstantBuffers (sd_cbuffer s), PSSetShaderResources (srInput s), PSSetSamplers (clampSampler s), OMSetRenderTargets (rtOutput s),
      IASetPrimitiveTopology_TRIANGLESTRIP, IASetInputLayout (inputLayout s), IASetVertexBuffers (vertexBuffer s), Draw 4]"

definition nv_convert :: "scale_nv12 \<Rightarrow> context_call list" where
  "nv_convert s =
     [RSSetViewports (sd_outWidth s) (sd_outHeight s),
      VSSetShader (vertexShader s), PSSetShader (pixelShaderUV s),
      PSSetConstantBuffers (sd_cbuffer s), PSSetShaderResources (srInput s), PSSetSamplers (clampSampler s), OMSetRenderTargets (rtChromaLarge s),
      IASetPrimitiveTopology_TRIANGLESTRIP, IASetInputLayout (inputLayout s), IASetVertexBuffers (vertexBuffer s), Draw 4,
      PSSetShader (pixelShaderY s), OMSetRenderTargets (rtLuma s), Draw 4,
      RSSetViewports (c_div (sd_outWidth s) 2) (c_div (sd_outHeight s) 2),
      PSSetShader (pixelShaderCopy s), PSSetShaderResources (srChromaLarge s), OMSetRenderTargets (rtChroma s), Draw 4]"

text \<open>\<open>pushInput\<close> of the base class up to the virtual call.\<close>

definition push_view :: "gpu_texture \<Rightarrow> gpu \<Rightarrow> 'a scale_d3d_scheme \<Rightarrow> ('a scale_d3d_scheme \<times> gpu) res" where
  "push_view tex g s =
     rbind (assert_quit (td_readable (gt_desc tex)) ''Input texture does not have D3D11_BIND_SHADER_RESOURCE'') (\<lambda>_.
     if \<not> sd_ready s then Inl Undef
     else let (v, g') = create_view (Some tex) (td_format (gt_desc tex)) g in
       Inr (s\<lparr>sd_in := (td_width (gt_desc tex), td_height (gt_desc tex), td_format (gt_desc tex)), srInput := v\<rparr>, g'))"

definition sd_pushInput :: "gpu_texture \<Rightarrow> gpu \<Rightarrow> d3d_scaler \<Rightarrow> (context_call list \<times> d3d_scaler \<times> gpu) res" where
  "sd_pushInput tex g s =
     (case s of
        Scale_AYUV a \<Rightarrow> rbind (push_view tex g a) (\<lambda>(a', g'). Inr (ay_convert a', Scale_AYUV a', g'))
      | Scale_NV12 n \<Rightarrow> rbind (push_view tex g n) (\<lambda>(n', g'). Inr (nv_convert n', Scale_NV12 n', g')))"

definition pop_texture :: "gpu \<Rightarrow> 'a scale_d3d_scheme \<Rightarrow> (gpu_texture option \<times> context_call list \<times> gpu) res" where
  "pop_texture g s =
     (if \<not> sd_ready s then Inl Undef
      else let (tex, g') = CreateTexture2D \<lparr>td_width = sd_outWidth s, td_height = sd_outHeight s, td_format = sd_outFormat s,
                  td_target = False, td_readable = False, td_shared = False\<rparr> g in
        Inr (tex, [CopyResource tex (sd_outputTex s)], g'))"

definition sd_popOutput :: "gpu \<Rightarrow> d3d_scaler \<Rightarrow> (gpu_texture option \<times> context_call list \<times> gpu) res" where
  "sd_popOutput g s = (case s of Scale_AYUV a \<Rightarrow> pop_texture g a | Scale_NV12 n \<Rightarrow> pop_texture g n)"


subsection \<open>What is bound at each draw\<close>

record binding =
  b_viewport :: "(int \<times> int) option"
  b_vs :: bool
  b_ps :: "pixel_shader option"
  b_matrix :: bool
  b_in :: "gpu_view option"
  b_sampler :: bool
  b_out :: "gpu_view option"
  b_strip :: bool
  b_layout :: bool
  b_vertices :: bool

definition unbound :: binding where
  "unbound = \<lparr>b_viewport = None, b_vs = False, b_ps = None, b_matrix = False, b_in = None, b_sampler = False, b_out = None,
     b_strip = False, b_layout = False, b_vertices = False\<rparr>"

fun bind_call :: "context_call \<Rightarrow> binding \<Rightarrow> binding" where
  "bind_call (RSSetViewports w h) b = b\<lparr>b_viewport := Some (w, h)\<rparr>"
| "bind_call (VSSetShader v) b = b\<lparr>b_vs := v\<rparr>"
| "bind_call (PSSetShader p) b = b\<lparr>b_ps := p\<rparr>"
| "bind_call (PSSetConstantBuffers c) b = b\<lparr>b_matrix := c\<rparr>"
| "bind_call (PSSetShaderResources v) b = b\<lparr>b_in := v\<rparr>"
| "bind_call (PSSetSamplers s) b = b\<lparr>b_sampler := s\<rparr>"
| "bind_call (OMSetRenderTargets v) b = b\<lparr>b_out := v\<rparr>"
| "bind_call IASetPrimitiveTopology_TRIANGLESTRIP b = b\<lparr>b_strip := True\<rparr>"
| "bind_call (IASetInputLayout l) b = b\<lparr>b_layout := l\<rparr>"
| "bind_call (IASetVertexBuffers v) b = b\<lparr>b_vertices := v\<rparr>"
| "bind_call c b = b"

fun draws :: "binding \<Rightarrow> context_call list \<Rightarrow> binding list" where
  "draws b [] = []"
| "draws b (c # cs) = (case c of Draw n \<Rightarrow> [b] | _ \<Rightarrow> []) @ draws (bind_call c b) cs"

text \<open>Direct3D drops a binding when a texture is bound for reading and as the target at once.\<close>

definition clash :: "binding \<Rightarrow> bool" where
  "clash b = (case (b_in b, b_out b) of (Some i, Some t) \<Rightarrow> gt_id (gv_texture i) = gt_id (gv_texture t) | _ \<Rightarrow> False)"

fun never_clash :: "binding \<Rightarrow> context_call list \<Rightarrow> bool" where
  "never_clash b [] = (\<not> clash b)"
| "never_clash b (c # cs) = (\<not> clash b \<and> never_clash (bind_call c b) cs)"

text \<open>The formats a view of a texture may have, and the size of the plane it shows.\<close>

definition view_fits :: "gpu_view \<Rightarrow> bool" where
  "view_fits v =
     (case td_format (gt_desc (gv_texture v)) of
        FMT_NV12 \<Rightarrow> gv_format v \<in> {FMT_R8, FMT_R8G8}
      | FMT_AYUV \<Rightarrow> gv_format v = FMT_R8G8B8A8
      | f \<Rightarrow> gv_format v = f)"

definition plane_size :: "gpu_view \<Rightarrow> int \<times> int" where
  "plane_size v =
     (let d = gt_desc (gv_texture v) in
      if td_format d = FMT_NV12 \<and> gv_format v = FMT_R8G8 then (td_width d div 2, td_height d div 2) else (td_width d, td_height d))"

fun writes :: "pixel_shader \<Rightarrow> surface_format \<Rightarrow> bool" where
  "writes PS_YUV f = (f = FMT_R8G8B8A8)"
| "writes PS_Y f = (f = FMT_R8)"
| "writes PS_UV f = (f = FMT_R8G8)"
| "writes PS_COPY f = (f = FMT_R8G8)"

definition draw_ok :: "binding \<Rightarrow> bool" where
  "draw_ok b =
     (b_vs b \<and> b_matrix b \<and> b_sampler b \<and> b_strip b \<and> b_layout b \<and> b_vertices b \<and>
      (case (b_in b, b_ps b, b_out b) of
         (Some i, Some p, Some t) \<Rightarrow> view_fits i \<and> td_readable (gt_desc (gv_texture i)) \<and> view_fits t \<and> td_target (gt_desc (gv_texture t)) \<and>
           writes p (gv_format t) \<and> b_viewport b = Some (plane_size t) \<and> gt_id (gv_texture i) \<noteq> gt_id (gv_texture t)
       | _ \<Rightarrow> False))"

fun push_textures :: "gpu_texture list \<Rightarrow> gpu \<Rightarrow> d3d_scaler \<Rightarrow> (context_call list \<times> d3d_scaler \<times> gpu) res" where
  "push_textures [] g s = Inr ([], s, g)"
| "push_textures (t # ts) g s =
     rbind (sd_pushInput t g s) (\<lambda>(c1, s1, g1). rbind (push_textures ts g1 s1) (\<lambda>(c2, s2, g2). Inr (c1 @ c2, s2, g2)))"

lemma draws_append: "draws b (xs @ ys) = draws b xs @ draws (foldl (\<lambda>b c. bind_call c b) b xs) ys"
  by (induction xs arbitrary: b) auto

lemma never_clash_append: "never_clash b (xs @ ys) \<longleftrightarrow> never_clash b xs \<and> never_clash (foldl (\<lambda>b c. bind_call c b) b xs) ys"
proof (induction xs arbitrary: b)
  case Nil
  show ?case by (cases ys) auto
qed auto

text \<open>A scaler whose objects were all made, with numbers from \<open>lo\<close> to below \<open>hi\<close>.\<close>

definition made_texture :: "nat \<Rightarrow> nat \<Rightarrow> int \<Rightarrow> int \<Rightarrow> surface_format \<Rightarrow> bool \<Rightarrow> gpu_texture \<Rightarrow> bool" where
  "made_texture lo hi w h fmt readable t \<longleftrightarrow> lo \<le> gt_id t \<and> gt_id t < hi \<and>
     gt_desc t = \<lparr>td_width = w, td_height = h, td_format = fmt, td_target = True, td_readable = readable, td_shared = False\<rparr>"

definition base_ok :: "int \<Rightarrow> int \<Rightarrow> surface_format \<Rightarrow> 'a scale_d3d_scheme \<Rightarrow> bool" where
  "base_ok w h fmt s \<longleftrightarrow> sd_ready s \<and> vertexBuffer s \<and> sd_cbuffer s \<and> clampSampler s \<and> vertexShader s \<and> inputLayout s \<and>
     sd_outWidth s = w \<and> sd_outHeight s = h \<and> sd_outFormat s = fmt"

definition scaler_ok :: "nat \<Rightarrow> nat \<Rightarrow> int \<Rightarrow> int \<Rightarrow> d3d_scaler \<Rightarrow> bool" where
  "scaler_ok lo hi w h s \<longleftrightarrow>
     (case s of
        Scale_AYUV a \<Rightarrow> \<exists>t. base_ok w h FMT_AYUV a \<and> sd_outputTex a = Some t \<and> made_texture lo hi w h FMT_AYUV False t \<and>
          ay_shader a = Some PS_YUV \<and> rtOutput a = Some \<lparr>gv_texture = t, gv_format = FMT_R8G8B8A8\<rparr>
      | Scale_NV12 n \<Rightarrow> even w \<and> even h \<and> (\<exists>t c. base_ok w h FMT_NV12 n \<and> sd_outputTex n = Some t \<and> made_texture lo hi w h FMT_NV12 False t \<and>
          chromaLargeTex n = Some c \<and> made_texture lo hi w h FMT_R8G8 True c \<and> gt_id c \<noteq> gt_id t \<and>
          pixelShaderY n = Some PS_Y \<and> pixelShaderUV n = Some PS_UV \<and> pixelShaderCopy n = Some PS_COPY \<and>
          srChromaLarge n = Some \<lparr>gv_texture = c, gv_format = FMT_R8G8\<rparr> \<and> rtChromaLarge n = Some \<lparr>gv_texture = c, gv_format = FMT_R8G8\<rparr> \<and>
          rtLuma n = Some \<lparr>gv_texture = t, gv_format = FMT_R8\<rparr> \<and> rtChroma n = Some \<lparr>gv_texture = t, gv_format = FMT_R8G8\<rparr>))"

lemma c_mod_2: "c_mod x 2 = 0 \<longleftrightarrow> even x"
proof -
  have "even \<bar>x\<bar> \<longleftrightarrow> \<bar>x\<bar> - \<bar>x\<bar> div 2 * 2 = 0" by presburger
  moreover have "c_mod x 2 = 0 \<longleftrightarrow> \<bar>x\<bar> - \<bar>x\<bar> div 2 * 2 = 0"
    by (cases "0 \<le> x") (auto simp: c_mod_def c_div_def sgn_if)
  ultimately show ?thesis by simp
qed

lemma c_div_2: "even x \<Longrightarrow> c_div x 2 = x div 2"
  by (auto simp: c_div_def sgn_if abs_if)

lemma scaler_init_ok:
  assumes "scaler_init g (sd_createInstance w h type) = Inr (s, g1)" and "\<And>n. \<not> refuses g n"
  shows "scaler_ok (made g) (made g1) w h s \<and> (\<forall>n. \<not> refuses g1 n) \<and> (case s of Scale_AYUV _ \<Rightarrow> type = AYUV | Scale_NV12 _ \<Rightarrow> type = NV12)"
  using assms
  by (cases type) (auto simp: scaler_init_def sd_createInstance_def ay_init_def nv_init_def sd_init_def rbind_eq_Inr Let_def create_object_def
      create_pixel_shader_def create_view_def CreateTexture2D_def error_quit_def scaler_ok_def base_ok_def made_texture_def sd_fields_def
      scale_d3d.defs c_mod_2 split: if_splits)


subsection \<open>Conversions\<close>

text \<open>An input: readable, no video format, and none of the scaler's own textures.\<close>

definition input_ok :: "nat \<Rightarrow> nat \<Rightarrow> gpu_texture \<Rightarrow> bool" where
  "input_ok lo hi t \<longleftrightarrow> (gt_id t < lo \<or> hi \<le> gt_id t) \<and> td_readable (gt_desc t) \<and> td_format (gt_desc t) \<notin> {FMT_AYUV, FMT_NV12}"

definition between :: "nat \<Rightarrow> nat \<Rightarrow> binding \<Rightarrow> bool" where
  "between lo hi b \<longleftrightarrow> \<not> clash b \<and> (case b_out b of None \<Rightarrow> True | Some v \<Rightarrow> lo \<le> gt_id (gv_texture v) \<and> gt_id (gv_texture v) < hi)"

text \<open>A draw as shader, texture read, texture and format written.\<close>

definition drawn :: "binding \<Rightarrow> pixel_shader option \<times> nat option \<times> (nat \<times> surface_format) option" where
  "drawn b = (b_ps b, map_option (\<lambda>v. gt_id (gv_texture v)) (b_in b), map_option (\<lambda>v. (gt_id (gv_texture v), gv_format v)) (b_out b))"

definition tex_no :: "gpu_texture option \<Rightarrow> nat" where
  "tex_no x = (case x of None \<Rightarrow> 0 | Some t \<Rightarrow> gt_id t)"

definition plan :: "d3d_scaler \<Rightarrow> gpu_texture \<Rightarrow> (pixel_shader option \<times> nat option \<times> (nat \<times> surface_format) option) list" where
  "plan s t =
     (case s of
        Scale_AYUV a \<Rightarrow> [(Some PS_YUV, Some (gt_id t), Some (tex_no (sd_outputTex a), FMT_R8G8B8A8))]
      | Scale_NV12 n \<Rightarrow>
          [(Some PS_UV, Some (gt_id t), Some (tex_no (chromaLargeTex n), FMT_R8G8)),
           (Some PS_Y, Some (gt_id t), Some (tex_no (sd_outputTex n), FMT_R8)),
           (Some PS_COPY, Some (tex_no (chromaLargeTex n)), Some (tex_no (sd_outputTex n), FMT_R8G8))])"

lemma view_fits_input: "input_ok lo hi t \<Longrightarrow> view_fits \<lparr>gv_texture = t, gv_format = td_format (gt_desc t)\<rparr>"
  by (auto simp: input_ok_def view_fits_def split: surface_format.splits)

text \<open>What \<open>pushInput\<close> does to the base class.\<close>

lemma push_viewD:
  assumes "push_view t g s = Inr (s', g')" and "\<And>n. \<not> refuses g n"
  shows "s' = s\<lparr>sd_in := (td_width (gt_desc t), td_height (gt_desc t), td_format (gt_desc t)),
      srInput := Some \<lparr>gv_texture = t, gv_format = td_format (gt_desc t)\<rparr>\<rparr> \<and> (\<forall>n. \<not> refuses g' n)"
  using assms by (auto simp: push_view_def rbind_eq_Inr create_view_def Let_def split: if_splits)

definition push_result :: "nat \<Rightarrow> nat \<Rightarrow> int \<Rightarrow> int \<Rightarrow> d3d_scaler \<Rightarrow> gpu_texture \<Rightarrow> binding \<Rightarrow> context_call list \<Rightarrow> d3d_scaler \<Rightarrow> bool" where
  "push_result lo hi w h s t b calls s' \<longleftrightarrow> scaler_ok lo hi w h s' \<and> plan s' = plan s \<and> between lo hi (foldl (\<lambda>b c. bind_call c b) b calls) \<and>
    never_clash b calls \<and> list_all draw_ok (draws b calls) \<and> map drawn (draws b calls) = plan s t"

lemma ay_push:
  assumes ok: "scaler_ok lo hi w h (Scale_AYUV a)" and i: "input_ok lo hi t" and b: "between lo hi b"
    and a': "a' = a\<lparr>sd_in := x, srInput := Some \<lparr>gv_texture = t, gv_format = td_format (gt_desc t)\<rparr>\<rparr>"
  shows "push_result lo hi w h (Scale_AYUV a) t b (ay_convert a') (Scale_AYUV a')"
proof -
  note v = view_fits_input [OF i]
  from ok obtain t0 where base: "base_ok w h FMT_AYUV a" and o: "sd_outputTex a = Some t0" and t0: "made_texture lo hi w h FMT_AYUV False t0"
    and ps: "ay_shader a = Some PS_YUV" "rtOutput a = Some \<lparr>gv_texture = t0, gv_format = FMT_R8G8B8A8\<rparr>"
    unfolding scaler_ok_def by auto
  have ne: "gt_id t \<noteq> gt_id t0" using i t0 by (auto simp: input_ok_def made_texture_def)
  have nb: "gt_id (gv_texture x) \<noteq> gt_id t" if "b_out b = Some x" for x using b i that by (auto simp: between_def input_ok_def)
  have c0: "\<not> clash b" using b by (simp add: between_def)
  have "scaler_ok lo hi w h (Scale_AYUV a')" using base o t0 ps by (simp add: scaler_ok_def a' base_ok_def)
  moreover have "plan (Scale_AYUV a') = plan (Scale_AYUV a)" by (simp add: plan_def a' fun_eq_iff)
  moreover have "between lo hi (foldl (\<lambda>b c. bind_call c b) b (ay_convert a'))"
    using t0 ne by (simp add: ay_convert_def a' ps between_def clash_def made_texture_def)
  moreover have "never_clash b (ay_convert a')"
    using c0 ne nb by (cases "b_out b") (simp_all add: ay_convert_def a' ps clash_def)
  moreover have "list_all draw_ok (draws b (ay_convert a'))"
    using base t0 ne v i by (simp add: ay_convert_def a' ps draw_ok_def base_ok_def made_texture_def view_fits_def plane_size_def input_ok_def)
  moreover have "map drawn (draws b (ay_convert a')) = plan (Scale_AYUV a) t"
    by (simp add: ay_convert_def a' ps drawn_def plan_def o tex_no_def)
  ultimately show ?thesis by (simp add: push_result_def)
qed

lemma nv_push:
  assumes ok: "scaler_ok lo hi w h (Scale_NV12 a)" and i: "input_ok lo hi t" and b: "between lo hi b"
    and a': "a' = a\<lparr>sd_in := x, srInput := Some \<lparr>gv_texture = t, gv_format = td_format (gt_desc t)\<rparr>\<rparr>"
  shows "push_result lo hi w h (Scale_NV12 a) t b (nv_convert a') (Scale_NV12 a')"
proof -
  note v = view_fits_input [OF i]
  from ok obtain t0 c0 where ev: "even w" "even h" and base: "base_ok w h FMT_NV12 a" and o: "sd_outputTex a = Some t0" "chromaLargeTex a = Some c0"
    and t0: "made_texture lo hi w h FMT_NV12 False t0" and c0: "made_texture lo hi w h FMT_R8G8 True c0" and ne: "gt_id c0 \<noteq> gt_id t0"
    and ps: "pixelShaderY a = Some PS_Y" "pixelShaderUV a = Some PS_UV" "pixelShaderCopy a = Some PS_COPY"
      "srChromaLarge a = Some \<lparr>gv_texture = c0, gv_format = FMT_R8G8\<rparr>" "rtChromaLarge a = Some \<lparr>gv_texture = c0, gv_format = FMT_R8G8\<rparr>"
      "rtLuma a = Some \<lparr>gv_texture = t0, gv_format = FMT_R8\<rparr>" "rtChroma a = Some \<lparr>gv_texture = t0, gv_format = FMT_R8G8\<rparr>"
    unfolding scaler_ok_def by auto
  have ne': "gt_id t \<noteq> gt_id t0" "gt_id t \<noteq> gt_id c0" using i t0 c0 by (auto simp: input_ok_def made_texture_def)
  have nb: "gt_id (gv_texture x) \<noteq> gt_id t" if "b_out b = Some x" for x using b i that by (auto simp: between_def input_ok_def)
  have cl: "\<not> clash b" using b by (simp add: between_def)
  have "scaler_ok lo hi w h (Scale_NV12 a')" using ev base o t0 c0 ne ps by (simp add: scaler_ok_def a' base_ok_def)
  moreover have "plan (Scale_NV12 a') = plan (Scale_NV12 a)" by (simp add: plan_def a' fun_eq_iff)
  moreover have "between lo hi (foldl (\<lambda>b c. bind_call c b) b (nv_convert a'))"
    using t0 ne by (simp add: nv_convert_def a' ps between_def clash_def made_texture_def)
  moreover have "never_clash b (nv_convert a')"
    using cl ne ne' nb by (cases "b_out b") (simp_all add: nv_convert_def a' ps clash_def)
  moreover have "list_all draw_ok (draws b (nv_convert a'))"
    using base t0 c0 ne ne' v i ev
    by (simp add: nv_convert_def a' ps draw_ok_def base_ok_def made_texture_def view_fits_def plane_size_def input_ok_def c_div_2)
  moreover have "map drawn (draws b (nv_convert a')) = plan (Scale_NV12 a) t"
    by (simp add: nv_convert_def a' ps drawn_def plan_def o tex_no_def)
  ultimately show ?thesis by (simp add: push_result_def)
qed

lemma sd_push:
  assumes "scaler_ok lo hi w h s" and "sd_pushInput t g s = Inr (calls, s', g')" and "\<And>n. \<not> refuses g n"
    and "input_ok lo hi t" and "between lo hi b"
  shows "push_result lo hi w h s t b calls s' \<and> (\<forall>n. \<not> refuses g' n)"
proof (cases s)
  case (Scale_AYUV a)
  with assms(2) obtain a' where p: "push_view t g a = Inr (a', g')" and c: "calls = ay_convert a'" "s' = Scale_AYUV a'"
    by (auto simp: sd_pushInput_def rbind_eq_Inr)
  from push_viewD [OF p assms(3)] ay_push [OF assms(1) [unfolded Scale_AYUV] assms(4,5)] show ?thesis by (simp add: Scale_AYUV c)
next
  case (Scale_NV12 a)
  with assms(2) obtain a' where p: "push_view t g a = Inr (a', g')" and c: "calls = nv_convert a'" "s' = Scale_NV12 a'"
    by (auto simp: sd_pushInput_def rbind_eq_Inr)
  from push_viewD [OF p assms(3)] nv_push [OF assms(1) [unfolded Scale_NV12] assms(4,5)] show ?thesis by (simp add: Scale_NV12 c)
qed

lemma push_textures_ok:
  assumes "scaler_ok lo hi w h s" and "push_textures ts g s = Inr (calls, s', g')" and "\<And>n. \<not> refuses g n"
    and "\<forall>t\<in>set ts. input_ok lo hi t" and "between lo hi b"
  shows "scaler_ok lo hi w h s' \<and> never_clash b calls \<and> list_all draw_ok (draws b calls) \<and>
    map drawn (draws b calls) = concat (map (plan s) ts) \<and> (\<forall>n. \<not> refuses g' n)"
  using assms
proof (induction ts arbitrary: s g calls b)
  case Nil
  then show ?case by (auto simp: between_def)
next
  case (Cons t ts)
  from Cons.prems(2) obtain c1 s1 g1 c2 where p: "sd_pushInput t g s = Inr (c1, s1, g1)" "push_textures ts g1 s1 = Inr (c2, s', g')" "calls = c1 @ c2"
    by (auto simp: rbind_eq_Inr)
  have "input_ok lo hi t" using Cons.prems(4) by simp
  from sd_push [OF Cons.prems(1) p(1) Cons.prems(3) this Cons.prems(5)]
  have f: "scaler_ok lo hi w h s1" "plan s1 = plan s" "between lo hi (foldl (\<lambda>b c. bind_call c b) b c1)" "never_clash b c1"
      "list_all draw_ok (draws b c1)" "map drawn (draws b c1) = plan s t" "\<And>n. \<not> refuses g1 n"
    by (simp_all add: push_result_def)
  from Cons.IH [OF f(1) p(2) f(7) _ f(3)] Cons.prems(4) f show ?case
    by (simp add: p(3) draws_append never_clash_append)
qed


lemma push_textures_type:
  "push_textures ts g s = Inr (calls, s', g') \<Longrightarrow> (case s of Scale_AYUV _ \<Rightarrow> True | _ \<Rightarrow> False) = (case s' of Scale_AYUV _ \<Rightarrow> True | _ \<Rightarrow> False)"
proof (induction ts arbitrary: s g calls)
  case (Cons t ts)
  then obtain c1 s1 g1 c2 where p: "sd_pushInput t g s = Inr (c1, s1, g1)" "push_textures ts g1 s1 = Inr (c2, s', g')" by (auto simp: rbind_eq_Inr)
  from p(1) have "(case s of Scale_AYUV _ \<Rightarrow> True | _ \<Rightarrow> False) = (case s1 of Scale_AYUV _ \<Rightarrow> True | _ \<Rightarrow> False)"
    by (auto simp: sd_pushInput_def rbind_eq_Inr split: d3d_scaler.splits)
  with Cons.IH [OF p(2)] show ?case by simp
qed simp

subsection \<open>The colours\<close>

text \<open>
  The matrix as it lies in memory, one line per input channel, and the shaders of \<open>rgb2yuv.hlsl\<close> (Direct3D packs
  matrices by columns, so the shader's row \<open>i\<close> is the column \<open>i\<close> here). Numbers are exact; rounding to \<open>float\<close> is
  not modelled.
\<close>

definition Kb :: rat where "Kb = 722 / 10000"

definition Kr :: rat where "Kr = 2126 / 10000"

definition Kg :: rat where "Kg = 1 - Kr - Kb"

definition color_mat :: "rat list list" where
  "color_mat =
     [[Kr, - (Kr / (2 * (1 - Kb))), 1 / 2, 0],
      [Kg, - (Kg / (2 * (1 - Kb))), - (Kg / (2 * (1 - Kr))), 0],
      [Kb, 1 / 2, - (Kb / (2 * (1 - Kr))), 0],
      [0, 0, 0, 0]]"

definition mat_row :: "nat \<Rightarrow> rat list \<Rightarrow> rat" where
  "mat_row i color = sum_list (map2 (\<lambda>line c. line ! i * c) color_mat color)"

definition clamp01 :: "rat \<Rightarrow> rat" where
  "clamp01 x = min 1 (max 0 x)"

definition ps_y :: "rat list \<Rightarrow> rat" where
  "ps_y color = clamp01 (mat_row 0 color * (219 / 255) + 16 / 255)"

definition ps_uv :: "rat list \<Rightarrow> rat \<times> rat" where
  "ps_uv color = (clamp01 (mat_row 1 color * (224 / 255) + 128 / 255), clamp01 (mat_row 2 color * (224 / 255) + 128 / 255))"

definition ps_yuv :: "rat list \<Rightarrow> rat list" where
  "ps_yuv color =
     (let y = clamp01 (mat_row 0 color * (219 / 255) + 16 / 255);
          u = clamp01 (mat_row 1 color * (224 / 255) + 128 / 255);
          v = clamp01 (mat_row 2 color * (224 / 255) + 128 / 255) in [v, u, y, 1])"

lemma luma_range:
  assumes "0 \<le> r" "r \<le> 1" "0 \<le> g" "g \<le> 1" "0 \<le> b" "b \<le> 1"
  shows "0 \<le> mat_row 0 [r, g, b, a] \<and> mat_row 0 [r, g, b, a] \<le> 1"
proof -
  have m: "mat_row 0 [r, g, b, a] = (1063 * r + 3576 * g + 361 * b) / 5000"
    by (simp add: mat_row_def color_mat_def Kr_def Kg_def Kb_def field_simps)
  show ?thesis using assms unfolding m by (auto simp: field_simps)
qed

lemma chroma_range:
  assumes "0 \<le> r" "r \<le> 1" "0 \<le> g" "g \<le> 1" "0 \<le> b" "b \<le> 1"
  shows "\<bar>mat_row 1 [r, g, b, a]\<bar> \<le> 1 / 2 \<and> \<bar>mat_row 2 [r, g, b, a]\<bar> \<le> 1 / 2"
proof -
  have m: "mat_row 1 [r, g, b, a] = b / 2 - (1063 * r + 3576 * g) / 9278" "mat_row 2 [r, g, b, a] = r / 2 - (3576 * g + 361 * b) / 7874"
    by (simp_all add: mat_row_def color_mat_def Kr_def Kg_def Kb_def field_simps)
  show ?thesis using assms unfolding m by (auto simp: abs_le_iff field_simps)
qed

lemma clamp01_id: "0 \<le> x \<Longrightarrow> x \<le> 1 \<Longrightarrow> clamp01 x = x"
  by (simp add: clamp01_def)

text \<open>A grey pixel has no chroma, whatever its brightness.\<close>

lemma grey_neutral: "0 \<le> x \<Longrightarrow> x \<le> 1 \<Longrightarrow> ps_uv [x, x, x, a] = (128 / 255, 128 / 255) \<and> ps_y [x, x, x, a] = (16 + 219 * x) / 255"
proof -
  assume x: "0 \<le> x" "x \<le> 1"
  have m: "mat_row 0 [x, x, x, a] = x" "mat_row 1 [x, x, x, a] = 0" "mat_row 2 [x, x, x, a] = 0"
    by (simp_all add: mat_row_def color_mat_def Kr_def Kg_def Kb_def field_simps)
  then show ?thesis using x by (simp add: ps_uv_def ps_y_def clamp01_id add_divide_distrib)
qed

text \<open>Both scalers compute the same colour, in the range video uses, where clamping changes nothing.\<close>

lemma video_range:
  assumes "0 \<le> r" "r \<le> 1" "0 \<le> g" "g \<le> 1" "0 \<le> b" "b \<le> 1"
  shows "ps_yuv [r, g, b, a] = [snd (ps_uv [r, g, b, a]), fst (ps_uv [r, g, b, a]), ps_y [r, g, b, a], 1] \<and>
    16 / 255 \<le> ps_y [r, g, b, a] \<and> ps_y [r, g, b, a] \<le> 235 / 255 \<and>
    fst (ps_uv [r, g, b, a]) \<in> {16 / 255..240 / 255} \<and> snd (ps_uv [r, g, b, a]) \<in> {16 / 255..240 / 255}"
  using luma_range [OF assms, of a] chroma_range [OF assms, of a]
  by (auto simp: ps_yuv_def ps_uv_def ps_y_def clamp01_def Let_def abs_le_iff min_def max_def)

subsection \<open>Properties\<close>

text \<open>C33: every draw fits its target. However many pictures are pushed into a scaler whose objects were all made, each draw has
  everything bound, reads a readable texture through a view of its format, writes the channels of the plane it is aimed at with
  a viewport of exactly that plane's size, and no texture is ever bound for reading and writing at once, between the
  pictures included. For NV12 a picture takes three draws: full chroma, luma, and the chroma halved into
  the output. The picture taken out is a new texture that the output can be copied into.\<close>

theorem scaler_draws:
  assumes "scaler_init g (sd_createInstance w h type) = Inr (s, g1)" and "\<And>n. \<not> refuses g n"
    and "push_textures ts g2 s = Inr (calls, s', g3)" and "\<And>n. \<not> refuses g2 n" and "\<forall>t\<in>set ts. input_ok (made g) (made g1) t"
  shows "never_clash unbound calls \<and> list_all draw_ok (draws unbound calls) \<and> map drawn (draws unbound calls) = concat (map (plan s) ts) \<and>
    (\<exists>tex out g4. sd_popOutput g3 s' = Inr (Some tex, [CopyResource (Some tex) (Some out)], g4) \<and> gt_id tex = made g3 \<and>
       td_width (gt_desc tex) = w \<and> td_height (gt_desc tex) = h \<and> td_format (gt_desc tex) = (case type of AYUV \<Rightarrow> FMT_AYUV | NV12 \<Rightarrow> FMT_NV12) \<and>
       gt_desc out = (gt_desc tex)\<lparr>td_target := True\<rparr>)"
proof -
  have b: "between (made g) (made g1) unbound" by (simp add: between_def unbound_def clash_def)
  from scaler_init_ok [OF assms(1,2)] have s: "scaler_ok (made g) (made g1) w h s" by simp
  from push_textures_ok [OF s assms(3,4,5) b]
  have p: "scaler_ok (made g) (made g1) w h s'" "never_clash unbound calls" "list_all draw_ok (draws unbound calls)"
    "map drawn (draws unbound calls) = concat (map (plan s) ts)" "\<And>n. \<not> refuses g3 n" by simp_all
  have ty: "(case s' of Scale_AYUV _ \<Rightarrow> type = AYUV | Scale_NV12 _ \<Rightarrow> type = NV12)"
    using push_textures_type [OF assms(3)] scaler_init_ok [OF assms(1,2)] by (auto split: d3d_scaler.splits)
  show ?thesis using p ty
    by (cases s') (auto simp: scaler_ok_def sd_popOutput_def pop_texture_def base_ok_def CreateTexture2D_def made_texture_def)
qed

definition sample_desktop :: gpu_texture where
  "sample_desktop = \<lparr>gt_id = 100, gt_desc = \<lparr>td_width = 8, td_height = 4, td_format = FMT_B8G8R8A8, td_target = False, td_readable = True,
     td_shared = True\<rparr>\<rparr>"

definition sample_gpu :: gpu where
  "sample_gpu = \<lparr>made = 0, refuses = (\<lambda>_. False)\<rparr>"

lemmas scaler_eval = scaler_init_def sd_createInstance_def nv_init_def sd_init_def create_object_def create_pixel_shader_def create_view_def
  CreateTexture2D_def sd_fields_def scale_d3d.defs c_mod_2 sd_pushInput_def push_view_def sample_gpu_def sample_desktop_def Let_def

definition sample_nv :: "d3d_scaler \<times> gpu" where
  "sample_nv = (case scaler_init sample_gpu (sd_createInstance 4 2 NV12) of Inr x \<Rightarrow> x | Inl _ \<Rightarrow> (sd_createInstance 4 2 NV12, sample_gpu))"

theorem scaler_draws_witness:
  "\<exists>calls s' g3. push_textures [sample_desktop, sample_desktop] (snd sample_nv) (fst sample_nv) = Inr (calls, s', g3) \<and>
     map drawn (draws unbound calls) =
       concat (replicate 2 [(Some PS_UV, Some 100, Some (9, FMT_R8G8)), (Some PS_Y, Some 100, Some (0, FMT_R8)), (Some PS_COPY, Some 9, Some (0, FMT_R8G8))])"
proof -
  have i: "scaler_init sample_gpu (sd_createInstance 4 2 NV12) = Inr (fst sample_nv, snd sample_nv)"
    by (simp add: sample_nv_def scaler_eval)
  have r: "\<not> refuses sample_gpu n" "\<not> refuses (snd sample_nv) n" for n by (simp_all add: sample_nv_def scaler_eval)
  have hi: "made sample_gpu = 0" "made (snd sample_nv) = 14" by (simp_all add: sample_nv_def scaler_eval)
  have ok: "\<forall>t\<in>set [sample_desktop, sample_desktop]. input_ok (made sample_gpu) (made (snd sample_nv)) t"
    unfolding hi by (simp add: input_ok_def sample_desktop_def)
  obtain calls s' g3 where p: "push_textures [sample_desktop, sample_desktop] (snd sample_nv) (fst sample_nv) = Inr (calls, s', g3)"
    by (simp add: sample_nv_def scaler_eval)
  have pl: "plan (fst sample_nv) sample_desktop = [(Some PS_UV, Some 100, Some (9, FMT_R8G8)), (Some PS_Y, Some 100, Some (0, FMT_R8)),
      (Some PS_COPY, Some 9, Some (0, FMT_R8G8))]"
    by (simp add: sample_nv_def scaler_eval plan_def tex_no_def)
  from scaler_draws [OF i r(1) p r(2) ok] have "map drawn (draws unbound calls) = concat (map (plan (fst sample_nv)) [sample_desktop, sample_desktop])"
    by blast
  with p pl show ?thesis by (simp add: numeral_2_eq_2)
qed

end
