(* ===== verification/EncoderMF.thy ===== *)
theory EncoderMF
  imports ScaleD3D
begin

text \<open>
  \<open>EncoderMF\<close> of \<open>src/src/server/platform/windows/EncoderMF.h\<close> and \<open>.cpp\<close>: a hardware encoder of Windows' Media
  Foundation, polled by the encoder thread. Like \<open>EncoderFFmpeg\<close> it remembers each frame's cursor and time stamps, here
  under the frame's sample time.

  Media Foundation is the record \<open>mf\<close>; the encoder object it gives is a machine of type \<open>'c\<close>. A failed call is \<open>False\<close>
  or \<open>None\<close>. Values that are only read after they were written start as 0.
\<close>

subsection \<open>Media Foundation's part\<close>

record 'c mft_candidate =
  ca_activate :: bool
  ca_attributes :: bool
  ca_d3dAware :: nat
  ca_async :: nat
  ca_unlock :: bool
  ca_manager :: bool
  ca_transform :: 'c

datatype stream_ids = IDS_NOTIMPL | IDS_FAILED | IDS nat nat

datatype input_type = TYPE_FAILED | TYPE_NO_GUID | TYPE_NV12 | TYPE_OTHER

datatype mf_event = EV_SHUTDOWN | EV_NONE | EV_FAILED | EV_DRAIN_COMPLETE | EV_NEED_INPUT | EV_HAVE_OUTPUT | EV_OTHER nat

datatype input_result = INPUT_TAKEN | INPUT_NOTACCEPTING | INPUT_FAILED

record mf_buffer =
  mb_get :: bool
  mb_lock :: "bytes option"
  mb_unlock :: bool

record mf_sample =
  sa_time :: int
  sa_cleanPoint :: nat
  sa_buffers :: "mf_buffer list option"
  sa_total :: "nat option"

record 'c mf =
  mf_enum :: "'c mft_candidate list option"
  mf_createManager :: bool
  mf_resetDevice :: bool
  mf_codecApi :: "'c \<Rightarrow> bool"
  mf_setValue :: "string \<Rightarrow> 'c \<Rightarrow> bool \<times> 'c"
  mf_streamCount :: "'c \<Rightarrow> (nat \<times> nat) option"
  mf_streamIDs :: "'c \<Rightarrow> stream_ids"
  mf_outputType :: "'c \<Rightarrow> bool"
  mf_setOutputType :: "int \<Rightarrow> int \<Rightarrow> 'c \<Rightarrow> bool \<times> 'c"
  mf_inputTypes :: "'c \<Rightarrow> input_type list"
  mf_setInputType :: "nat \<Rightarrow> 'c \<Rightarrow> bool \<times> 'c"
  mf_message :: "string \<Rightarrow> 'c \<Rightarrow> 'c"
  mf_eventGen :: "'c \<Rightarrow> bool"
  mf_getEvent :: "'c \<Rightarrow> mf_event \<times> 'c"
  mf_outputInfo :: "'c \<Rightarrow> bool option"
  mf_processOutput :: "'c \<Rightarrow> mf_sample option \<times> 'c"
  mf_surfaceBuffer :: "gpu_texture option \<Rightarrow> bool"
  mf_createSample :: bool
  mf_processInput :: "gpu_texture option \<Rightarrow> int \<Rightarrow> int \<Rightarrow> 'c \<Rightarrow> input_result \<times> 'c"

subsection \<open>Choosing an encoder\<close>

text \<open>One candidate of \<open>getVideoEncoder\<close>'s loop: whether it passes every test.\<close>

definition suitable :: "'c mft_candidate \<Rightarrow> bool" where
  "suitable a = (ca_activate a \<and> ca_attributes a \<and> ca_d3dAware a \<noteq> 0 \<and> ca_async a \<noteq> 0 \<and> ca_unlock a \<and> ca_manager a)"

text \<open>The loop; the list is what becomes of the activation objects, a rejected one is skipped by \<open>continue\<close> and not released.\<close>

fun choose_loop :: "'c mft_candidate list \<Rightarrow> 'c option \<Rightarrow> 'c option \<times> bool list" where
  "choose_loop [] found = (found, [])"
| "choose_loop (a # as) found =
     (if found = None \<and> \<not> suitable a
      then (let (r, rel) = choose_loop as None in (r, False # rel))
      else (let (r, rel) = choose_loop as (if found = None then Some (ca_transform a) else found) in (r, True # rel)))"

definition getVideoEncoder :: "'c mf \<Rightarrow> 'c option" where
  "getVideoEncoder F = fst (choose_loop (case mf_enum F of None \<Rightarrow> [] | Some as \<Rightarrow> as) None)"

subsection \<open>The encoder\<close>

record 'c encoder_mf =
  em_width :: int
  em_height :: int
  frameCnt :: int
  waitingInput :: bool
  initialized :: bool
  em_extraData :: "int frame_of list"
  mfDeviceManager :: bool
  em_encoder :: "'c option"
  em_eventGen :: bool
  inputStreamId :: nat
  outputStreamId :: nat

definition em_new :: "'c encoder_mf" where
  "em_new = \<lparr>em_width = -1, em_height = -1, frameCnt = 0, waitingInput = False, initialized = False, em_extraData = [],
     mfDeviceManager = False, em_encoder = None, em_eventGen = False, inputStreamId = 0, outputStreamId = 0\<rparr>"

definition em_open :: "'c mf \<Rightarrow> 'c encoder_mf \<Rightarrow> 'c encoder_mf res" where
  "em_open F e =
     rbind (assert_quit (mf_createManager F) ''Failed to create MF DXGI device manager'') (\<lambda>_.
     rbind (assert_quit (mf_resetDevice F) ''Failed to reset DXGI device for MF'') (\<lambda>_. Inr (e\<lparr>mfDeviceManager := True\<rparr>)))"

definition em_start :: "'c encoder_mf \<Rightarrow> 'c encoder_mf" where
  "em_start e = e\<lparr>frameCnt := 0, initialized := False, waitingInput := True\<rparr>"

definition em_stop :: "'c mf \<Rightarrow> 'c encoder_mf \<Rightarrow> 'c encoder_mf res" where
  "em_stop F e =
     (case em_encoder e of
        None \<Rightarrow> Inl Undef
      | Some c \<Rightarrow> Inr (e\<lparr>initialized := False,
          em_encoder := Some (mf_message F ''COMMAND_DRAIN'' (mf_message F ''NOTIFY_END_OF_STREAM'' c))\<rparr>))"

text \<open>The input types are asked for until one is NV12; what is left of the list says whether one was found.\<close>

fun type_loop :: "'c mf \<Rightarrow> nat \<Rightarrow> input_type list \<Rightarrow> 'c \<Rightarrow> 'c res" where
  "type_loop F i [] c = error_quit ''No supported input type found''"
| "type_loop F i (ty # tys) c =
     (case ty of
        TYPE_FAILED \<Rightarrow> type_loop F (i + 1) tys c
      | TYPE_NO_GUID \<Rightarrow> error_quit ''Failed to query input type''
      | TYPE_OTHER \<Rightarrow> type_loop F (i + 1) tys c
      | TYPE_NV12 \<Rightarrow> (let (ok, c') = mf_setInputType F i c in rbind (assert_quit ok ''Failed to set input type'') (\<lambda>_. Inr c')))"

text \<open>Setting a property of the codec; the results of four of the six settings are ignored.\<close>

definition set_values :: "'c mf \<Rightarrow> 'c \<Rightarrow> 'c res" where
  "set_values F c0 =
     (let (r1, c1) = mf_setValue F ''ForceSourceScanType'' c0;
          (vbr, c2) = mf_setValue F ''RateControlMode=LowDelayVBR'' c1 in
      rbind (assert_quit vbr ''Failed to set low delay vbr mode'') (\<lambda>_.
      let (rate, c3) = mf_setValue F ''MeanBitRate=8000000'' c2 in
      rbind (assert_quit rate ''Failed to set bitrate to 8Mbps'') (\<lambda>_.
      let (r4, c4) = mf_setValue F ''RealTime'' c3;
          (r5, c5) = mf_setValue F ''LowLatency'' c4;
          (r6, c6) = mf_setValue F ''FrameRateConversion=Disable'' c5 in Inr c6)))"

definition em_setup :: "'c mf \<Rightarrow> 'c encoder_mf \<Rightarrow> 'c encoder_mf res" where
  "em_setup F e =
     (case getVideoEncoder F of
        None \<Rightarrow> error_quit ''Failed to create encoder''
      | Some c0 \<Rightarrow>
          if \<not> mf_codecApi F c0 then Inl Undef
          else rbind (set_values F c0) (\<lambda>c1.
            (case mf_streamCount F c1 of
               None \<Rightarrow> error_quit ''Failed to get stream count''
             | Some (inputStreamCnt, outputStreamCnt) \<Rightarrow>
                 if inputStreamCnt \<noteq> 1 \<or> outputStreamCnt \<noteq> 1 then error_quit ''Invalid number of stream: input={} output={}''
                 else rbind (case mf_streamIDs F c1 of
                       IDS_NOTIMPL \<Rightarrow> Inr (0, 0) | IDS a b \<Rightarrow> Inr (a, b) | IDS_FAILED \<Rightarrow> error_quit ''Failed to duplicate output'') (\<lambda>(inId, outId).
                   rbind (if mf_outputType F c1
                          then (let (ok, c2) = mf_setOutputType F (em_width e) (em_height e) c1 in
                                rbind (assert_quit ok ''Failed to set output type'') (\<lambda>_. Inr c2))
                          else Inr c1) (\<lambda>c2.
                   rbind (type_loop F 0 (mf_inputTypes F c2) c2) (\<lambda>c3.
                     Inr (e\<lparr>em_encoder := Some c3, inputStreamId := inId, outputStreamId := outId\<rparr>)))))))"

subsection \<open>Input\<close>

definition em_pushTexture :: "'c mf \<Rightarrow> gpu_texture option \<Rightarrow> int \<Rightarrow> int \<Rightarrow> 'c encoder_mf \<Rightarrow> 'c encoder_mf res" where
  "em_pushTexture F tex sampleDur sampleTime e =
     rbind (assert_quit (mf_surfaceBuffer F tex) ''Failed to create media buffer containing D3D11 texture'') (\<lambda>_.
     rbind (assert_quit (mf_createSample F) ''Failed to create a sample'') (\<lambda>_.
     case em_encoder e of
       None \<Rightarrow> Inl Undef
     | Some c \<Rightarrow>
         (let (r, c') = mf_processInput F tex sampleDur sampleTime c in
          rbind (assert_quit (r \<noteq> INPUT_FAILED) ''Failed to put input into encoder'') (\<lambda>_. Inr (e\<lparr>em_encoder := Some c'\<rparr>)))))"

definition em_begin :: "'c mf \<Rightarrow> gpu_texture option \<Rightarrow> 'c encoder_mf \<Rightarrow> 'c encoder_mf res" where
  "em_begin F tex e =
     (case tex of
        None \<Rightarrow> Inl Undef
      | Some t \<Rightarrow>
          rbind (em_setup F (e\<lparr>initialized := True, em_width := td_width (gt_desc t), em_height := td_height (gt_desc t)\<rparr>)) (\<lambda>e1.
          case em_encoder e1 of
            None \<Rightarrow> Inl Undef
          | Some c \<Rightarrow> (let c' = mf_message F ''NOTIFY_START_OF_STREAM'' c in Inr (e1\<lparr>em_encoder := Some c', em_eventGen := mf_eventGen F c'\<rparr>))))"

definition em_pushFrame :: "'c mf \<Rightarrow> gpu_texture option frame_of \<Rightarrow> 'c encoder_mf \<Rightarrow> (bool \<times> 'c encoder_mf) res" where
  "em_pushFrame F cap e =
     (if \<not> waitingInput e then Inr (False, e)
      else let e0 = e\<lparr>waitingInput := False\<rparr> in
        rbind (if initialized e0 then Inr e0 else em_begin F (desktop cap) e0) (\<lambda>e1.
        rbind (i64 (frameCnt e1 * 10000000)) (\<lambda>product.
        let sampleDur = c_div (10000000 * 1) 60;
            sampleTime = c_div product 60;
            e2 = e1\<lparr>em_extraData := em_extraData e1 @ [getOtherType cap sampleTime]\<rparr> in
        rbind (em_pushTexture F (desktop cap) sampleDur sampleTime e2) (\<lambda>e3.
          Inr (True, e3\<lparr>frameCnt := frameCnt e3 + 1\<rparr>)))))"

subsection \<open>Output\<close>

fun copy_buffers :: "mf_buffer list \<Rightarrow> nat \<Rightarrow> bytes \<Rightarrow> bytes res" where
  "copy_buffers [] idx data = Inr data"
| "copy_buffers (b # bs) idx data =
     rbind (assert_quit (mb_get b) ''Failed to get buffer'') (\<lambda>_.
     (case mb_lock b of
        None \<Rightarrow> error_quit ''Failed to lock buffer''
      | Some ptr \<Rightarrow>
          rbind (blit data idx ptr) (\<lambda>data'.
          rbind (assert_quit (mb_unlock b) ''Failed to unlock buffer'') (\<lambda>_. copy_buffers bs (idx + length ptr) data'))))"

text \<open>A sample's time, key flag and bytes; the buffer is fresh, so \<open>junk\<close> shows where the sample is shorter than it says.\<close>

definition popEncoderData :: "'c mf \<Rightarrow> (nat \<Rightarrow> u8) \<Rightarrow> 'c \<Rightarrow> ((int \<times> bytes \<times> bool) \<times> 'c) res" where
  "popEncoderData F junk c =
     (case mf_outputInfo F c of
        None \<Rightarrow> error_quit ''Failed to get output stream info''
      | Some provides \<Rightarrow>
          rbind (assert_quit provides ''Allocating output is not implemented yet'') (\<lambda>_.
          (case mf_processOutput F c of
             (None, c') \<Rightarrow> error_quit ''Failed to retrieve output from encoder''
           | (Some sa, c') \<Rightarrow>
               (case sa_buffers sa of
                  None \<Rightarrow> error_quit ''Failed to get buffer count''
                | Some bs \<Rightarrow>
                    (case sa_total sa of
                       None \<Rightarrow> error_quit ''Failed to query total length of sample''
                     | Some totalLen \<Rightarrow>
                         rbind (copy_buffers bs 0 (map junk [0..<totalLen])) (\<lambda>data.
                           Inr ((sa_time sa, data, sa_cleanPoint sa \<noteq> 0), c')))))))"

definition em_output :: "'c mf \<Rightarrow> (nat \<Rightarrow> u8) \<Rightarrow> int \<Rightarrow> 'c encoder_mf \<Rightarrow> (bytes frame_of \<times> 'c encoder_mf) res" where
  "em_output F junk now e =
     (case em_encoder e of
        None \<Rightarrow> Inl Undef
      | Some c \<Rightarrow>
          rbind (popEncoderData F junk c) (\<lambda>((sampleTime, encoded, key), c').
          (case take_first (\<lambda>x. desktop x = sampleTime) (em_extraData e) of
             None \<Rightarrow> error_quit ''Failed to find matching ExtraData (size={}, sampleTime={})''
           | Some (extra, rest) \<Rightarrow>
               Inr (getOtherType (extra\<lparr>timeEncoded := now, isIDR := key\<rparr>) encoded, e\<lparr>em_encoder := Some c', em_extraData := rest\<rparr>))))"

text \<open>One event of \<open>poll\<close>: whether the loop goes on, and what \<open>onDataAvailable\<close> gets.\<close>

definition poll_event :: "'c mf \<Rightarrow> (nat \<Rightarrow> u8) \<Rightarrow> int \<Rightarrow> 'c encoder_mf \<Rightarrow> (bool \<times> bytes frame_of list \<times> 'c encoder_mf) res" where
  "poll_event F junk now e =
     (case em_encoder e of
        None \<Rightarrow> Inl Undef
      | Some c \<Rightarrow>
          if \<not> em_eventGen e then Inl Undef
          else (let (ev, c') = mf_getEvent F c; e1 = e\<lparr>em_encoder := Some c'\<rparr> in
            case ev of
              EV_SHUTDOWN \<Rightarrow> Inr (False, [], e1)
            | EV_NONE \<Rightarrow> Inr (False, [], e1)
            | EV_FAILED \<Rightarrow> error_quit ''Failed to get next event ({})''
            | EV_DRAIN_COMPLETE \<Rightarrow> Inr (True, [], e1)
            | EV_NEED_INPUT \<Rightarrow> Inr (True, [], e1\<lparr>waitingInput := True\<rparr>)
            | EV_HAVE_OUTPUT \<Rightarrow> rbind (em_output F junk now e1) (\<lambda>(out, e2). Inr (True, [out], e2))
            | EV_OTHER n \<Rightarrow> Inr (True, [], e1)))"

text \<open>The clock is read once per event; its readings also bound how many events are followed.\<close>

fun poll_loop :: "'c mf \<Rightarrow> (nat \<Rightarrow> u8) \<Rightarrow> int list \<Rightarrow> 'c encoder_mf \<Rightarrow> (bytes frame_of list \<times> 'c encoder_mf) res" where
  "poll_loop F junk [] e = Inl Blocked"
| "poll_loop F junk (now # nows) e =
     rbind (poll_event F junk now e) (\<lambda>(go, outs, e1).
       if \<not> go then Inr (outs, e1)
       else rbind (poll_loop F junk nows e1) (\<lambda>(outs', e2). Inr (outs @ outs', e2)))"

definition em_poll :: "'c mf \<Rightarrow> (nat \<Rightarrow> u8) \<Rightarrow> int list \<Rightarrow> 'c encoder_mf \<Rightarrow> (bytes frame_of list \<times> 'c encoder_mf) res" where
  "em_poll F junk nows e = (if waitingInput e \<or> \<not> initialized e then Inr ([], e) else poll_loop F junk nows e)"


subsection \<open>Which encoder is chosen\<close>

lemma choose_loop_found: "choose_loop as (Some c) = (Some c, replicate (length as) True)"
  by (induction as) auto

text \<open>The first suitable one; the activation objects before it are never released.\<close>

lemma choose_first: "choose_loop as None =
    (case dropWhile (\<lambda>a. \<not> suitable a) as of [] \<Rightarrow> None | a # _ \<Rightarrow> Some (ca_transform a),
     map (\<lambda>_. False) (takeWhile (\<lambda>a. \<not> suitable a) as) @ map (\<lambda>_. True) (dropWhile (\<lambda>a. \<not> suitable a) as))"
  by (induction as) (auto simp: choose_loop_found map_replicate_const)

subsection \<open>A run of the encoder\<close>

definition sample_stamp :: "int \<Rightarrow> int" where
  "sample_stamp i = i * 10000000 div 60"

lemma sample_stamp_inj: "sample_stamp i = sample_stamp j \<longleftrightarrow> i = j"
  by (auto simp: sample_stamp_def)

definition codec_out :: "'c mf \<Rightarrow> (nat \<Rightarrow> u8) \<Rightarrow> 'c encoder_mf \<Rightarrow> (int \<times> bytes \<times> bool) list" where
  "codec_out F junk e =
     (case em_encoder e of
        None \<Rightarrow> []
      | Some c \<Rightarrow>
          (case mf_getEvent F c of
             (EV_HAVE_OUTPUT, c') \<Rightarrow> (case popEncoderData F junk c' of Inr (s, _) \<Rightarrow> [s] | Inl _ \<Rightarrow> [])
           | _ \<Rightarrow> []))"

definition asks :: "'c mf \<Rightarrow> 'c encoder_mf \<Rightarrow> nat" where
  "asks F e = (case em_encoder e of None \<Rightarrow> 0 | Some c \<Rightarrow> if fst (mf_getEvent F c) = EV_NEED_INPUT then 1 else 0)"

text \<open>
  \<open>em_run F (e, taken, outs, needs)\<close>: the encoder after some calls since \<open>start\<close>, of one that holds no data of an earlier
  stream; \<open>taken\<close> is every frame pushed, \<open>outs\<close> each sample with what it became, \<open>needs\<close> counts the requests for input.
\<close>

inductive em_run :: "'c mf \<Rightarrow> 'c encoder_mf \<times> gpu_texture option frame_of list \<times> ((int \<times> bytes \<times> bool) \<times> bytes frame_of) list \<times> nat \<Rightarrow> bool"
  for F where
  em_begins: "em_extraData e = [] \<Longrightarrow> em_run F (em_start e, [], [], 0)"
| em_pushes: "em_run F (e, taken, outs, needs) \<Longrightarrow> em_pushFrame F cap e = Inr (b, e') \<Longrightarrow>
    em_run F (e', taken @ (if b then [cap] else []), outs, needs)"
| em_polls: "em_run F (e, taken, outs, needs) \<Longrightarrow> poll_event F junk now e = Inr (go, fs, e') \<Longrightarrow>
    em_run F (e', taken, outs @ zip (codec_out F junk e) fs, needs + asks F e)"
| em_stops: "em_run F (e, taken, outs, needs) \<Longrightarrow> em_stop F e = Inr e' \<Longrightarrow> em_run F (e', taken, outs, needs)"

definition em_carried :: "gpu_texture option frame_of \<Rightarrow> bytes \<times> bool \<Rightarrow> bytes frame_of \<Rightarrow> bool" where
  "em_carried f d out \<longleftrightarrow> desktop out = fst d \<and> isIDR out = snd d \<and> cursorPos out = cursorPos f \<and> cursorShape out = cursorShape f \<and>
     timeCaptured out = timeCaptured f"

definition stamped :: "int frame_of \<Rightarrow> int frame_of" where
  "stamped x = getOtherType x (sample_stamp (desktop x))"

definition restamp :: "(int \<times> 'd) \<times> 'o \<Rightarrow> (int \<times> 'd) \<times> 'o" where
  "restamp x = ((sample_stamp (fst (fst x)), snd (fst x)), snd x)"

text \<open>In the terms of \<open>SideData\<close>: frames are numbered from 0, and the stamps are a coding of the numbers.\<close>

definition em_inv :: "'c encoder_mf \<Rightarrow> gpu_texture option frame_of list \<Rightarrow> ((int \<times> bytes \<times> bool) \<times> bytes frame_of) list \<Rightarrow> nat \<Rightarrow> bool" where
  "em_inv e taken outs needs \<longleftrightarrow> length taken + (if waitingInput e then 1 else 0) \<le> needs + 1 \<and>
     (\<exists>xs outs'. em_extraData e = map stamped xs \<and> outs = map restamp outs' \<and> sd_inv em_carried (frameCnt e) xs taken outs')"

lemma take_first_map: "take_first P (map f xs) = map_option (\<lambda>(y, ys). (f y, map f ys)) (take_first (\<lambda>x. P (f x)) xs)"
  by (induction xs) (auto split: option.splits)

lemma em_setup_keeps:
  assumes "em_setup F e = Inr e'"
  shows "em_extraData e' = em_extraData e \<and> frameCnt e' = frameCnt e \<and> waitingInput e' = waitingInput e"
proof -
  from assms obtain c0 c1 where c: "getVideoEncoder F = Some c0" "mf_codecApi F c0" "set_values F c0 = Inr c1"
    by (auto simp: em_setup_def rbind_eq_Inr error_quit_def split: option.splits if_splits)
  with assms obtain a b where n: "mf_streamCount F c1 = Some (a, b)"
    by (cases "mf_streamCount F c1") (auto simp: em_setup_def error_quit_def)
  with assms c have "a = 1" "b = 1" by (auto simp: em_setup_def error_quit_def split: if_splits)
  with assms c n show ?thesis by (auto simp: em_setup_def rbind_eq_Inr split: prod.splits)
qed

lemma em_begin_keeps: "em_begin F tex e = Inr e' \<Longrightarrow> em_extraData e' = em_extraData e \<and> frameCnt e' = frameCnt e \<and> waitingInput e' = waitingInput e"
  by (auto simp: em_begin_def rbind_eq_Inr Let_def dest!: em_setup_keeps split: option.splits)

lemma em_pushTexture_keeps: "em_pushTexture F tex d t e = Inr e' \<Longrightarrow>
    em_extraData e' = em_extraData e \<and> frameCnt e' = frameCnt e \<and> waitingInput e' = waitingInput e"
  by (auto simp: em_pushTexture_def rbind_eq_Inr Let_def split: option.splits prod.splits)

lemma em_pushFrame_InrD:
  assumes "em_pushFrame F cap e = Inr (b, e')"
  shows "(b = waitingInput e) \<and> \<not> waitingInput e' \<and> frameCnt e' = frameCnt e + (if b then 1 else 0) \<and>
    em_extraData e' = em_extraData e @ (if b then [getOtherType cap (c_div (frameCnt e * 10000000) 60)] else [])"
proof (cases "waitingInput e")
  case False
  with assms show ?thesis by (auto simp: em_pushFrame_def)
next
  case True
  with assms obtain e1 e3 where e1: "(if initialized e then Inr (e\<lparr>waitingInput := False\<rparr>) else em_begin F (desktop cap) (e\<lparr>waitingInput := False\<rparr>)) = Inr e1"
    and e3: "em_pushTexture F (desktop cap) (c_div 10000000 60) (c_div (frameCnt e1 * 10000000) 60)
      (e1\<lparr>em_extraData := em_extraData e1 @ [getOtherType cap (c_div (frameCnt e1 * 10000000) 60)]\<rparr>) = Inr e3"
    and r: "b" "e' = e3\<lparr>frameCnt := frameCnt e3 + 1\<rparr>"
    by (auto simp: em_pushFrame_def rbind_eq_Inr i64_Inr Let_def)
  from e1 have "em_extraData e1 = em_extraData e \<and> frameCnt e1 = frameCnt e \<and> \<not> waitingInput e1"
    by (auto split: if_splits dest!: em_begin_keeps)
  with em_pushTexture_keeps [OF e3] r True show ?thesis by simp
qed

lemma em_output_inv:
  assumes inv: "sd_inv em_carried n xs taken outs'" and e: "em_extraData e = map stamped xs" and c: "em_encoder e = Some c"
    and p: "popEncoderData F junk c = Inr (s, c')" and r: "em_output F junk now e = Inr (out, e')"
  shows "\<exists>xs' o'. em_extraData e' = map stamped xs' \<and> (s, out) = restamp o' \<and> sd_inv em_carried n xs' taken (outs' @ [o'])"
proof -
  obtain t data key where s: "s = (t, data, key)" by (cases s)
  from r c p s obtain extra rest where tf: "take_first (\<lambda>x. desktop x = t) (map stamped xs) = Some (extra, rest)"
    and out: "out = getOtherType (extra\<lparr>timeEncoded := now, isIDR := key\<rparr>) data" and e': "em_extraData e' = rest"
    by (auto simp: em_output_def e error_quit_def split: option.splits)
  then obtain y ys where y: "take_first (\<lambda>x. sample_stamp (desktop x) = t) xs = Some (y, ys)" "extra = stamped y" "rest = map stamped ys"
    by (auto simp: take_first_map stamped_def)
  define i where "i = desktop y"
  have i: "sample_stamp i = t" using take_first_SomeD [OF y(1)] by (simp add: i_def)
  have "(\<lambda>x :: int frame_of. sample_stamp (desktop x) = t) = (\<lambda>x. desktop x = i)" using sample_stamp_inj i by auto
  with y(1) have tfi: "take_first (\<lambda>x. desktop x = i) xs = Some (y, ys)" by simp
  have "y = getOtherType (taken ! nat i) i" using sd_take_extra [OF inv tfi] by metis
  then have "em_carried (taken ! nat i) (data, key) out" by (simp add: em_carried_def out y stamped_def getOtherType_def)
  from sd_take [OF inv tfi, of "(data, key)", OF this] have "sd_inv em_carried n ys taken (outs' @ [((i, data, key), out)])" .
  moreover have "(s, out) = restamp ((i, data, key), out)" by (simp add: restamp_def s i)
  ultimately show ?thesis using e' y(3) by blast
qed

lemma em_run_inv: "em_run F (e, taken, outs, needs) \<Longrightarrow> em_inv e taken outs needs"
proof (induction "(e, taken, outs, needs)" arbitrary: e taken outs needs rule: em_run.induct)
  case (em_begins e)
  then show ?case using sd_start [of em_carried] by (auto simp: em_inv_def em_start_def)
next
  case (em_pushes e taken outs needs cap b e')
  then obtain xs outs' where x: "em_extraData e = map stamped xs" "outs = map restamp outs'" "sd_inv em_carried (frameCnt e) xs taken outs'"
    and n: "length taken + (if waitingInput e then 1 else 0) \<le> needs + 1" by (auto simp: em_inv_def)
  have "c_div (frameCnt e * 10000000) 60 = sample_stamp (frameCnt e)" using x(3) by (simp add: sd_inv_def sample_stamp_def c_div_nonneg)
  then have "getOtherType cap (c_div (frameCnt e * 10000000) 60) = stamped (getOtherType cap (frameCnt e))" by (simp add: stamped_def)
  with em_pushFrame_InrD [OF em_pushes(3)] x sd_put [OF x(3), of cap] n show ?case
    by (auto simp: em_inv_def intro: exI [of _ "xs @ [getOtherType cap (frameCnt e)]"] split: if_splits)
next
  case (em_polls e taken outs needs junk now go fs e')
  then obtain xs outs' where x: "em_extraData e = map stamped xs" "outs = map restamp outs'" "sd_inv em_carried (frameCnt e) xs taken outs'"
    and n: "length taken + (if waitingInput e then 1 else 0) \<le> needs + 1" by (auto simp: em_inv_def)
  from em_polls(3) obtain c ev c' where c: "em_encoder e = Some c" "mf_getEvent F c = (ev, c')"
    by (auto simp: poll_event_def split: option.splits if_splits prod.splits)
  show ?case
  proof (cases "ev = EV_HAVE_OUTPUT")
    case False
    with em_polls(3) c have "fs = [] \<and> em_extraData e' = em_extraData e \<and> frameCnt e' = frameCnt e \<and>
        waitingInput e' = (waitingInput e \<or> ev = EV_NEED_INPUT)"
      by (cases ev) (auto simp: poll_event_def error_quit_def Let_def split: if_splits)
    with x n c show ?thesis by (auto simp: em_inv_def asks_def)
  next
    case True
    with em_polls(3) c obtain out where r: "em_output F junk now (e\<lparr>em_encoder := Some c'\<rparr>) = Inr (out, e')" "fs = [out]"
      by (auto simp: poll_event_def rbind_eq_Inr split: if_splits)
    then obtain s c'' where p: "popEncoderData F junk c' = Inr (s, c'')" by (auto simp: em_output_def rbind_eq_Inr)
    have f: "frameCnt e' = frameCnt e" "waitingInput e' = waitingInput e"
      using r by (auto simp: em_output_def rbind_eq_Inr error_quit_def split: option.splits)
    have "codec_out F junk e = [s]" using c True p by (simp add: codec_out_def)
    then have z: "outs @ zip (codec_out F junk e) fs = outs @ [(s, out)]" using r(2) by simp
    have "em_extraData (e\<lparr>em_encoder := Some c'\<rparr>) = map stamped xs" "em_encoder (e\<lparr>em_encoder := Some c'\<rparr>) = Some c'" using x(1) by simp_all
    from em_output_inv [OF x(3) this p r(1)] obtain xs' o' where o: "em_extraData e' = map stamped xs'" "(s, out) = restamp o'"
      "sd_inv em_carried (frameCnt e') xs' taken (outs' @ [o'])" using f(1) by auto
    have "outs @ [(s, out)] = map restamp (outs' @ [o'])" using x(2) o(2) by simp
    with o z have "\<exists>xs outs'. em_extraData e' = map stamped xs \<and> outs @ zip (codec_out F junk e) fs = map restamp outs' \<and>
        sd_inv em_carried (frameCnt e') xs taken outs'" by metis
    moreover have "length taken + (if waitingInput e' then 1 else 0) \<le> needs + asks F e + 1" using n f(2) by simp
    ultimately show ?thesis by (simp add: em_inv_def)
  qed
next
  case (em_stops e taken outs needs e')
  then have "em_extraData e' = em_extraData e \<and> frameCnt e' = frameCnt e \<and> waitingInput e' = waitingInput e"
    by (auto simp: em_stop_def split: option.splits)
  with em_stops(2) show ?case unfolding em_inv_def by simp
qed

subsection \<open>Where the bookkeeping breaks\<close>

text \<open>
  \<open>start\<close> numbers the frames from 0 again but keeps the data of frames the last stream did not get back: the
  first picture of the next stream leaves with the old frame's cursor and time.
\<close>

lemma stale_extra_data:
  assumes "em_extraData e = x # xs" and "desktop x = 0" and "em_pushFrame F cap (em_start e) = Inr (b, e')"
    and "em_encoder e' = Some c" and "popEncoderData F junk c = Inr ((0, data, key), c')"
  shows "\<exists>e''. em_output F junk now e' = Inr (getOtherType (x\<lparr>timeEncoded := now, isIDR := key\<rparr>) data, e'')"
proof -
  have "em_extraData e' = x # (xs @ (if b then [getOtherType cap 0] else []))"
    using em_pushFrame_InrD [OF assms(3)] assms(1) by (simp add: em_start_def c_div_def)
  with assms(2,4,5) show ?thesis by (simp add: em_output_def)
qed

text \<open>Requests are a flag: two in one poll are answered with one frame.\<close>

lemma requests_merge:
  assumes "em_encoder e = Some c0" "em_eventGen e" "initialized e" "\<not> waitingInput e"
    and "mf_getEvent F c0 = (EV_NEED_INPUT, c1)" "mf_getEvent F c1 = (EV_NEED_INPUT, c2)" "mf_getEvent F c2 = (EV_NONE, c3)"
  shows "em_poll F junk (now # now' # now'' # nows) e = Inr ([], e\<lparr>em_encoder := Some c3, waitingInput := True\<rparr>)"
  using assms by (simp add: em_poll_def poll_event_def Let_def)

text \<open>An encoder stopped before its first frame has no object to send the message to.\<close>

lemma stop_before_frame: "em_stop F (em_start em_new) = Inl Undef"
  by (simp add: em_stop_def em_start_def em_new_def)

text \<open>A frame the codec does not accept is dropped, and its data stays.\<close>

lemma dropped_keeps_data:
  assumes "em_pushFrame F cap e = Inr (b, e')" and "waitingInput e"
  shows "getOtherType cap (c_div (frameCnt e * 10000000) 60) \<in> set (em_extraData e')"
  using em_pushFrame_InrD [OF assms(1)] assms(2) by auto

subsection \<open>Properties\<close>


text \<open>A hardware encoder that gives back one byte for each frame, in order; its state is the sample times it holds.\<close>

definition sample_mf :: "int list mf" where
  "sample_mf =
     \<lparr>mf_enum = Some [\<lparr>ca_activate = False, ca_attributes = True, ca_d3dAware = 1, ca_async = 1, ca_unlock = True, ca_manager = True, ca_transform = [5]\<rparr>,
                      \<lparr>ca_activate = True, ca_attributes = True, ca_d3dAware = 1, ca_async = 1, ca_unlock = True, ca_manager = True, ca_transform = []\<rparr>],
      mf_createManager = True, mf_resetDevice = True, mf_codecApi = (\<lambda>_. True), mf_setValue = (\<lambda>_ c. (True, c)), mf_streamCount = (\<lambda>_. Some (1, 1)),
      mf_streamIDs = (\<lambda>_. IDS_NOTIMPL), mf_outputType = (\<lambda>_. True), mf_setOutputType = (\<lambda>_ _ c. (True, c)), mf_inputTypes = (\<lambda>_. [TYPE_OTHER, TYPE_NV12]),
      mf_setInputType = (\<lambda>_ c. (True, c)), mf_message = (\<lambda>_ c. c), mf_eventGen = (\<lambda>_. True),
      mf_getEvent = (\<lambda>c. (if c = [] then EV_NONE else EV_HAVE_OUTPUT, c)), mf_outputInfo = (\<lambda>_. Some True),
      mf_processOutput = (\<lambda>c. (Some \<lparr>sa_time = hd c, sa_cleanPoint = 1, sa_buffers = Some [\<lparr>mb_get = True, mb_lock = Some [7], mb_unlock = True\<rparr>],
         sa_total = Some 1\<rparr>, tl c)), mf_surfaceBuffer = (\<lambda>_. True), mf_createSample = True, mf_processInput = (\<lambda>_ _ t c. (INPUT_TAKEN, c @ [t]))\<rparr>"

definition sample_capture :: "gpu_texture option frame_of" where
  "sample_capture = (frame_init (Some sample_desktop))\<lparr>timeCaptured := 99\<rparr>"


end
