(* ===== verification/CapturePipelineD3DMF.thy ===== *)
theory CapturePipelineD3DMF
  imports EncoderMF
begin

text \<open>
  \<open>CapturePipelineD3DMF\<close> of \<open>src/src/server/platform/windows/CapturePipelineD3DMF.h\<close> and \<open>.cpp\<close>: the pipeline that stays
  on the graphics card. The capture thread copies each picture into a texture that both devices share, the encoder
  thread scales it at the frame rate and hands it to the hardware encoder.

  The loops are rounds; where the encoder thread stands between two rounds is \<open>encode_place\<close>, its local flag \<open>started\<close> a field. What the
  shared texture and the scaler's output show is kept beside them. Windows' answers are the record \<open>mf_platform\<close>, clock
  readings are arguments.
\<close>

record ('d, 'c, 'px) mf_platform =
  mpf_outputs :: nat
  mpf_device :: bool
  mpf_dxgi :: "('d, 'px) dxgi"
  mpf_elapsed :: "int list"
  mpf_fuel :: nat
  mpf_qpcFreq :: u64
  mpf_mf :: "'c mf"
  mpf_junk :: "nat \<Rightarrow> u8"
  mpf_keyedMutex :: bool
  mpf_sharedHandle :: bool
  mpf_device1 :: bool
  mpf_openShared :: bool
  mpf_sharedMutex :: bool
  mpf_acquire :: bool
  mpf_release :: bool

datatype 'px encode_place = AtTimer | Polling | Pushing "gpu_texture option frame_of" "'px option"

record ('d, 'c, 'px) mf_pipeline =
  mp_device :: bool
  captureStagingTex :: "gpu_texture option"
  captureStagingTexMutex :: bool
  captureStagingTexHandle :: bool
  mp_framerate :: rational
  mp_flagRunning :: bool
  mp_lastFrame :: "bool frame_of"
  mp_timer :: qpc_timer
  mp_capture :: "'d capture_d3d"
  mp_scale :: "d3d_scaler option"
  mp_encoder :: "'c encoder_mf"
  mp_captureThread :: thread_state
  mp_encodeThread :: thread_state
  mp_gpu :: gpu
  mp_staged :: "'px option"
  mp_scaled :: "'px option"
  mp_started :: bool
  mp_place :: "'px encode_place"

text \<open>The constructor leaves \<open>flagRunning\<close> uninitialised: \<open>garbage\<close> is what it then holds.\<close>

definition mp_new :: "bool \<Rightarrow> gpu \<Rightarrow> qpc_timer \<Rightarrow> 'd \<Rightarrow> ('d, 'c, 'px) mf_pipeline" where
  "mp_new garbage g timer d =
     \<lparr>mp_device = False, captureStagingTex = None, captureStagingTexMutex = False, captureStagingTexHandle = False, mp_framerate = rat_default,
      mp_flagRunning = garbage, mp_lastFrame = frame_init False, mp_timer = timer, mp_capture = capture_new d, mp_scale = None,
      mp_encoder = em_new, mp_captureThread = Idle, mp_encodeThread = Idle, mp_gpu = g, mp_staged = None, mp_scaled = None, mp_started = False,
      mp_place = AtTimer\<rparr>"

definition mp_destroy :: "('d, 'c, 'px) mf_pipeline \<Rightarrow> unit res" where
  "mp_destroy p =
     rbind (assert_quit (\<not> mp_flagRunning p) ''Destructing without stopping first!'') (\<lambda>_.
     rbind (join_thread (mp_encodeThread p)) (\<lambda>_. rbind (join_thread (mp_captureThread p)) (\<lambda>_. Inr ())))"

definition mp_init :: "('d, 'c, 'px) mf_platform \<Rightarrow> ('d, 'c, 'px) mf_pipeline \<Rightarrow> (bool \<times> ('d, 'c, 'px) mf_pipeline) res" where
  "mp_init P p =
     (if mpf_outputs P = 0 then Inr (False, p)
      else let p1 = p\<lparr>mp_device := mpf_device P\<rparr> in
        if \<not> mp_device p1 then Inr (False, p1)
        else rbind (capture_open (mpf_dxgi P) (mpf_elapsed P) (capture_init (mp_capture p1))) (\<lambda>(ok, c).
             rbind (em_open (mpf_mf P) (mp_encoder p1)) (\<lambda>e. Inr (True, p1\<lparr>mp_capture := c, mp_encoder := e\<rparr>))))"

definition staging_desc :: "int \<Rightarrow> int \<Rightarrow> tex_desc" where
  "staging_desc w h = \<lparr>td_width = w, td_height = h, td_format = FMT_B8G8R8A8, td_target = False, td_readable = True, td_shared = True\<rparr>"

definition mp_start :: "('d, 'c, 'px) mf_platform \<Rightarrow> u64 \<Rightarrow> ('d, 'c, 'px) mf_pipeline \<Rightarrow> ('d, 'c, 'px) mf_pipeline res" where
  "mp_start P qpc_now p =
     rbind (assert_quit (\<not> mp_flagRunning p) ''Starting again without stopping first!'') (\<lambda>_.
     rbind (join_thread (mp_captureThread p)) (\<lambda>_.
     rbind (join_thread (mp_encodeThread p)) (\<lambda>_.
     rbind (getCurrentMode (mpf_dxgi P) (mpf_fuel P) (mp_capture p)) (\<lambda>((w, h, fps), c).
     let timer = setFrequency (mpf_qpcFreq P) qpc_now fps in
     case mp_scale p of
       None \<Rightarrow> Inl Undef
     | Some s \<Rightarrow>
         if \<not> mp_device p then Inl Undef
         else rbind (scaler_init (mp_gpu p) s) (\<lambda>(s', g1).
           let (tex, g2) = CreateTexture2D (staging_desc w h) g1 in
           rbind (assert_quit (tex \<noteq> None) ''Failed to create capture staging texture'') (\<lambda>_.
           rbind (assert_quit (mpf_keyedMutex P) ''Failed to get keyed mutex from texture'') (\<lambda>_.
           rbind (assert_quit (mpf_sharedHandle P) ''Failed to get shared handle for capture staging texture'') (\<lambda>_.
             Inr (p\<lparr>mp_flagRunning := True, mp_timer := timer, mp_scale := Some s', mp_gpu := g2, captureStagingTex := tex,
                    captureStagingTexMutex := True, captureStagingTexHandle := True, mp_lastFrame := frame_init False,
                    mp_encoder := em_start (mp_encoder p), mp_capture := capture_start c,
                    mp_captureThread := Working, mp_encodeThread := Working,
                    mp_staged := None, mp_scaled := None, mp_started := False, mp_place := AtTimer\<rparr>)))))))))"

definition mp_stop :: "('d, 'c, 'px) mf_platform \<Rightarrow> ('d, 'c, 'px) mf_pipeline \<Rightarrow> ('d, 'c, 'px) mf_pipeline res" where
  "mp_stop P p =
     rbind (capture_stop (mpf_dxgi P) (mp_capture p)) (\<lambda>c.
     rbind (em_stop (mpf_mf P) (mp_encoder p)) (\<lambda>e. Inr (p\<lparr>mp_flagRunning := False, mp_capture := c, mp_encoder := e\<rparr>)))"

definition mp_getNativeMode :: "('d, 'c, 'px) mf_platform \<Rightarrow> ('d, 'c, 'px) mf_pipeline \<Rightarrow>
    ((int \<times> int \<times> rational) \<times> ('d, 'c, 'px) mf_pipeline) res" where
  "mp_getNativeMode P p =
     rbind (getCurrentMode (mpf_dxgi P) (mpf_fuel P) (mp_capture p)) (\<lambda>(mode, c). Inr (mode, p\<lparr>mp_capture := c\<rparr>))"

definition mp_setCaptureMode :: "int \<Rightarrow> int \<Rightarrow> rational \<Rightarrow> ('d, 'c, 'px) mf_pipeline \<Rightarrow> bool \<times> ('d, 'c, 'px) mf_pipeline" where
  "mp_setCaptureMode w h fps p = (False, p)"

definition mp_setEncoderMode :: "int \<Rightarrow> int \<Rightarrow> rational \<Rightarrow> ('d, 'c, 'px) mf_pipeline \<Rightarrow> (bool \<times> ('d, 'c, 'px) mf_pipeline) res" where
  "mp_setEncoderMode w h fps p =
     rbind (assert_quit (\<not> mp_flagRunning p) ''Can't change mode while running yet'') (\<lambda>_.
       Inr (True, p\<lparr>mp_scale := Some (sd_createInstance w h NV12), mp_framerate := fps\<rparr>))"

subsection \<open>The capture thread\<close>

definition mp_capture_open :: "('d, 'c, 'px) mf_platform \<Rightarrow> unit res" where
  "mp_capture_open P =
     rbind (assert_quit (mpf_device1 P) ''Capture context device does not implement ID3D11Device1'') (\<lambda>_.
     rbind (assert_quit (mpf_openShared P) ''Failed to open capture staging texture'') (\<lambda>_.
       assert_quit (mpf_sharedMutex P) ''Failed to cast stagingTex into IDXGIKeyedMutex''))"

definition mp_capture_round :: "('d, 'c, 'px) mf_platform \<Rightarrow> int \<Rightarrow> int \<Rightarrow> ('d, 'c, 'px) mf_pipeline \<Rightarrow> ('d, 'c, 'px) mf_pipeline res" where
  "mp_capture_round P now qpc_now p =
     (if \<not> mp_flagRunning p then Inr (p\<lparr>mp_captureThread := Ended\<rparr>)
      else rbind (readD3D (mpf_dxgi P) (mpf_qpcFreq P) now qpc_now (mpf_junk P) (mp_capture p)) (\<lambda>(frame, c).
        let p1 = p\<lparr>mp_capture := c\<rparr> in
        if \<not> mp_flagRunning p1 then Inr p1
        else if desktop frame = None \<and> cursorPos frame = None \<and> cursorShape frame = None then Inr p1
        else rbind (case desktop frame of
               None \<Rightarrow> Inr p1
             | Some t \<Rightarrow>
                 rbind (assert_quit (mpf_acquire P) ''Failed to acquire sync for staging texture'') (\<lambda>_.
                 rbind (assert_quit (mpf_release P) ''Failed to release sync for staging texture'') (\<lambda>_.
                   Inr (p1\<lparr>mp_staged := Some (dt_picture t),
                           mp_lastFrame := (mp_lastFrame p1)\<lparr>desktop := True, timeCaptured := timeCaptured frame\<rparr>\<rparr>)))) (\<lambda>p2.
          Inr (p2\<lparr>mp_lastFrame := merge_cursor frame (mp_lastFrame p2)\<rparr>))))"

subsection \<open>The encoder thread\<close>

text \<open>Under the lock: a new picture goes through the scaler.\<close>

definition mp_scale_picture :: "('d, 'c, 'px) mf_platform \<Rightarrow> ('d, 'c, 'px) mf_pipeline \<Rightarrow> ('d, 'c, 'px) mf_pipeline res" where
  "mp_scale_picture P p =
     rbind (assert_quit (mpf_acquire P) ''Failed to acquire sync for staging texture'') (\<lambda>_.
     (case (mp_scale p, captureStagingTex p) of
        (Some s, Some t) \<Rightarrow>
          rbind (sd_pushInput t (mp_gpu p) s) (\<lambda>(calls, s', g').
          rbind (assert_quit (mpf_release P) ''Failed to release sync for staging texture'') (\<lambda>_.
            Inr (p\<lparr>mp_started := True, mp_scale := Some s', mp_gpu := g', mp_scaled := mp_staged p\<rparr>)))
      | _ \<Rightarrow> Inl Undef))"

text \<open>From the lock to the frame that is to be pushed; with nothing captured yet the loop starts again.\<close>

definition mp_take :: "('d, 'c, 'px) mf_platform \<Rightarrow> int list \<Rightarrow> ('d, 'c, 'px) mf_pipeline \<Rightarrow>
    (bytes frame_of list \<times> ('d, 'c, 'px) mf_pipeline) res" where
  "mp_take P nows p =
     (if \<not> mp_started p \<and> \<not> desktop (mp_lastFrame p) then Inr ([], p\<lparr>mp_place := AtTimer\<rparr>)
      else let (frame, rest) = frame_swap (frame_init False, mp_lastFrame p); p0 = p\<lparr>mp_lastFrame := rest\<rparr> in
        rbind (if desktop frame then mp_scale_picture P p0 else Inr p0) (\<lambda>p1.
        rbind (em_poll (mpf_mf P) (mpf_junk P) nows (mp_encoder p1)) (\<lambda>(outs, e).
        let p2 = p1\<lparr>mp_encoder := e\<rparr> in
        case mp_scale p2 of
          None \<Rightarrow> Inl Undef
        | Some s \<Rightarrow>
            rbind (sd_popOutput (mp_gpu p2) s) (\<lambda>(tex, calls, g).
              Inr (outs, p2\<lparr>mp_gpu := g, mp_place := Pushing (getOtherType frame tex) (mp_scaled p2)\<rparr>)))))"

text \<open>The list is what \<open>writeOutput\<close> gets.\<close>

definition mp_encode_round :: "('d, 'c, 'px) mf_platform \<Rightarrow> u64 \<Rightarrow> int list \<Rightarrow> int list \<Rightarrow> ('d, 'c, 'px) mf_pipeline \<Rightarrow>
    (bytes frame_of list \<times> ('d, 'c, 'px) mf_pipeline) res" where
  "mp_encode_round P qpc_now nows nows' p =
     (case mp_place p of
        AtTimer \<Rightarrow>
          if \<not> mp_flagRunning p then Inr ([], p\<lparr>mp_encodeThread := Ended\<rparr>)
          else rbind (checkInterval qpc_now (mp_timer p)) (\<lambda>(fires, t).
            if fires then mp_take P nows (p\<lparr>mp_timer := t\<rparr>) else Inr ([], p\<lparr>mp_timer := t, mp_place := Polling\<rparr>))
      | Polling \<Rightarrow>
          if \<not> mp_flagRunning p then mp_take P nows p
          else rbind (em_poll (mpf_mf P) (mpf_junk P) nows (mp_encoder p)) (\<lambda>(outs, e).
            rbind (checkInterval qpc_now (mp_timer p)) (\<lambda>(fires, t).
            let p1 = p\<lparr>mp_encoder := e, mp_timer := t\<rparr> in
            if fires then rbind (mp_take P nows' p1) (\<lambda>(outs', p2). Inr (outs @ outs', p2)) else Inr (outs, p1)))
      | Pushing frame pic \<Rightarrow>
          rbind (em_pushFrame (mpf_mf P) frame (mp_encoder p)) (\<lambda>(ok, e).
          let p1 = p\<lparr>mp_encoder := e\<rparr> in
          if ok \<or> \<not> mp_flagRunning p then Inr ([], p1\<lparr>mp_place := AtTimer\<rparr>)
          else rbind (em_poll (mpf_mf P) (mpf_junk P) nows (mp_encoder p1)) (\<lambda>(outs, e'). Inr (outs, p1\<lparr>mp_encoder := e'\<rparr>))))"

subsection \<open>The contract of the server\<close>

definition mf_media :: "('d, 'c, 'px) mf_platform \<Rightarrow> u64 \<Rightarrow> ('a \<Rightarrow> 'a res) \<Rightarrow> ('a \<Rightarrow> 'a res) \<Rightarrow> (('d, 'c, 'px) mf_pipeline, 'a) media" where
  "mf_media P qpc_now astart astop =
     \<lparr>p_init = mp_init P, p_start = mp_start P qpc_now, p_stop = mp_stop P, p_getNativeMode = mp_getNativeMode P,
      p_setEncoderMode = mp_setEncoderMode, a_start = astart, a_stop = astop\<rparr>"

lemma openDuplication_messages: "openDuplication D c = Inl e \<Longrightarrow> e \<in> {Undef, Fatal ''Failed to duplicate output ({:#x})''}"
  by (auto simp: openDuplication_def error_quit_def Let_def split: if_splits prod.splits)

lemma mode_loop_messages: "mode_loop D fuel c = Inl e \<Longrightarrow> e \<in> {Undef, Blocked, Fatal ''Failed to duplicate output ({:#x})''}"
proof (induction fuel arbitrary: c)
  case (Suc n)
  from Suc.prems show ?case
    by (auto simp: rbind_eq_Inl dest!: openDuplication_messages Suc.IH split: if_splits prod.splits)
qed simp

lemma scaler_init_messages:
  "scaler_init g s = Inl e \<Longrightarrow> e \<in> {Fatal ''Failed to create vertex shader'', Fatal ''Dimension not multiple of 2 when using NV12 format''}"
  by (auto simp: scaler_init_def ay_init_def nv_init_def sd_init_def rbind_eq_Inl assert_quit_Inl error_quit_def Let_def split_def
      split: d3d_scaler.splits if_splits)

lemma mp_start_messages:
  assumes "mp_start P qpc_now p = Inl e" "\<not> mp_flagRunning p"
  shows "e \<noteq> Fatal ''Starting without stopping first!''"
proof -
  have "getCurrentMode D f c = Inl e \<Longrightarrow> e \<noteq> Fatal ''Starting without stopping first!''" for D f c
    using mode_loop_messages [of D f c e]
    by (auto simp: getCurrentMode_def rbind_eq_Inl assert_quit_Inl rational_new_def c_assert_def Let_def split: if_splits)
  with assms show ?thesis
    by (auto simp: mp_start_def rbind_eq_Inl assert_quit_Inl join_thread_Inl Let_def split_def split: option.splits if_splits dest: scaler_init_messages)
qed

interpretation hard: switchable mp_flagRunning "mp_start P qpc_now" "mp_stop P"
proof
  fix x x' :: "('a, 'b, 'c) mf_pipeline"
  show "\<not> mp_flagRunning x \<Longrightarrow> mp_start P qpc_now x = Inr x' \<Longrightarrow> mp_flagRunning x'"
    by (auto simp: mp_start_def rbind_eq_Inr Let_def split_def split: option.splits if_splits)
  show "mp_flagRunning x \<Longrightarrow> mp_stop P x = Inr x' \<Longrightarrow> \<not> mp_flagRunning x'"
    by (auto simp: mp_stop_def rbind_eq_Inr)
  show "mp_flagRunning x \<Longrightarrow> mp_stop P x \<noteq> Inl (Fatal ''Stopping when not running!'')"
    by (auto simp: mp_stop_def rbind_eq_Inl em_stop_def split: option.splits dest: capture_stop_messages)
  show "\<not> mp_flagRunning x \<Longrightarrow> mp_start P qpc_now x \<noteq> Inl (Fatal ''Starting without stopping first!'')"
    using mp_start_messages by blast
qed

lemma mp_keeps_flag:
  "mp_setEncoderMode w h f p = Inr (b, p') \<Longrightarrow> mp_flagRunning p' = mp_flagRunning p"
  "mp_init P p = Inr (b, p') \<Longrightarrow> mp_flagRunning p' = mp_flagRunning p"
  "mp_getNativeMode P p = Inr (m, p') \<Longrightarrow> mp_flagRunning p' = mp_flagRunning p"
  by (auto simp: mp_setEncoderMode_def mp_init_def mp_getNativeMode_def rbind_eq_Inr Let_def split: if_splits)

text \<open>Only the constructor breaks it: with the wrong garbage in \<open>flagRunning\<close> the first start ends the program.\<close>

lemma garbage_flag: "mp_start P qpc_now (mp_new garbage g timer d) =
    Inl (Fatal ''Starting again without stopping first!'') \<longleftrightarrow> garbage"
proof
  show "garbage \<Longrightarrow> mp_start P qpc_now (mp_new garbage g timer d) = Inl (Fatal ''Starting again without stopping first!'')"
    by (simp add: mp_start_def mp_new_def)
  show "mp_start P qpc_now (mp_new garbage g timer d) = Inl (Fatal ''Starting again without stopping first!'') \<Longrightarrow> garbage"
    by (rule ccontr) (auto simp: mp_start_def mp_new_def rbind_eq_Inl assert_quit_Inl join_thread_Inl getCurrentMode_def capture_new_def)
qed

subsection \<open>A stream\<close>

text \<open>
  \<open>mp_run P (p, caps, pushed)\<close>: the pipeline after some rounds of its two threads since \<open>start\<close>; \<open>caps\<close> is every frame captured,
  \<open>pushed\<close> every frame the encoder took, with what its texture shows.
\<close>

definition captured :: "('d, 'c, 'px) mf_platform \<Rightarrow> int \<Rightarrow> int \<Rightarrow> ('d, 'c, 'px) mf_pipeline \<Rightarrow> 'px desktop_texture option frame_of list" where
  "captured P now qpc_now p =
     (case readD3D (mpf_dxgi P) (mpf_qpcFreq P) now qpc_now (mpf_junk P) (mp_capture p) of Inr (f, _) \<Rightarrow> [f] | Inl _ \<Rightarrow> [])"

definition accepted :: "('d, 'c, 'px) mf_pipeline \<Rightarrow> (gpu_texture option frame_of \<times> 'px option) list" where
  "accepted p = (case mp_place p of Pushing f pic \<Rightarrow> if waitingInput (mp_encoder p) then [(f, pic)] else [] | _ \<Rightarrow> [])"

inductive mp_run :: "('d, 'c, 'px) mf_platform \<Rightarrow> ('d, 'c, 'px) mf_pipeline \<times> 'px desktop_texture option frame_of list \<times>
    (gpu_texture option frame_of \<times> 'px option) list \<Rightarrow> bool" for P where
  mp_begins: "mp_start P qpc_now p = Inr p' \<Longrightarrow> mp_run P (p', [], [])"
| mp_captures: "mp_run P (p, caps, pushed) \<Longrightarrow> mp_capture_round P now qpc_now p = Inr p' \<Longrightarrow>
    mp_run P (p', caps @ captured P now qpc_now p, pushed)"
| mp_encodes: "mp_run P (p, caps, pushed) \<Longrightarrow> mp_encode_round P qpc_now nows nows' p = Inr (outs, p') \<Longrightarrow>
    mp_run P (p', caps, pushed @ accepted p)"

definition pictures :: "'px desktop_texture option frame_of list \<Rightarrow> 'px list" where
  "pictures caps = concat (map (\<lambda>f. case desktop f of None \<Rightarrow> [] | Some t \<Rightarrow> [dt_picture t]) caps)"

fun newest :: "'a option list \<Rightarrow> 'a option" where
  "newest [] = None"
| "newest (x # xs) = (case newest xs of None \<Rightarrow> x | Some y \<Rightarrow> Some y)"

lemma newest_append: "newest (xs @ ys) = (case newest ys of None \<Rightarrow> newest xs | Some y \<Rightarrow> Some y)"
  by (induction xs) (auto split: option.splits)

lemma newest_merge: "newest cs = newest (pre @ [l]) \<Longrightarrow> newest (cs @ [x]) = newest (pre @ [newest [l, x]])"
  by (cases x) (auto simp: newest_append split: option.splits)

text \<open>What is on its way to the encoder: a frame being pushed, then the frame that collects.\<close>

definition handing :: "('d, 'c, 'px) mf_pipeline \<Rightarrow> (cursor_shape option \<times> cursor_pos option) list" where
  "handing p = (case mp_place p of Pushing f pic \<Rightarrow> [(cursorShape f, cursorPos f)] | _ \<Rightarrow> [])"

definition in_hand :: "('d, 'c, 'px) mf_pipeline \<Rightarrow> (cursor_shape option \<times> cursor_pos option) list" where
  "in_hand p = handing p @ [(cursorShape (mp_lastFrame p), cursorPos (mp_lastFrame p))]"

definition cursors_ok :: "('d, 'c, 'px) mf_pipeline \<Rightarrow> 'px desktop_texture option frame_of list \<Rightarrow> (gpu_texture option frame_of \<times> 'px option) list \<Rightarrow> bool" where
  "cursors_ok p caps pushed \<longleftrightarrow>
     newest (map cursorShape caps) = newest (map (cursorShape \<circ> fst) pushed @ map fst (in_hand p)) \<and>
     newest (map cursorPos caps) = newest (map (cursorPos \<circ> fst) pushed @ map snd (in_hand p))"

text \<open>
  Pictures shown in the order of their capture: \<open>shown\<close> are those pushed, \<open>scaled\<close> the one in the scaler, and \<open>fresh\<close> says
  whether a newer one may be waiting.
\<close>

definition shown_ok :: "'px list \<Rightarrow> 'px option list \<Rightarrow> 'px option \<Rightarrow> bool \<Rightarrow> bool" where
  "shown_ok pics shown scaled fresh \<longleftrightarrow>
     (\<exists>ks j. shown = map (\<lambda>k. Some (pics ! k)) ks \<and> sorted (ks @ [j]) \<and> j < length pics \<and> scaled = Some (pics ! j) \<and>
        (\<not> fresh \<longrightarrow> Suc j = length pics))"

lemma shown_first: "pics \<noteq> [] \<Longrightarrow> shown_ok pics [] (Some (last pics)) False"
  unfolding shown_ok_def by (intro exI [of _ "[]"] exI [of _ "length pics - 1"]) (simp add: last_conv_nth)

lemma shown_scaled: "shown_ok pics shown scaled fresh \<Longrightarrow> shown_ok pics shown (Some (last pics)) False"
proof -
  assume "shown_ok pics shown scaled fresh"
  then obtain ks j where k: "shown = map (\<lambda>k. Some (pics ! k)) ks" "sorted (ks @ [j])" "j < length pics" by (auto simp: shown_ok_def)
  then have "sorted (ks @ [length pics - 1])" by (auto simp: sorted_append)
  with k show ?thesis unfolding shown_ok_def by (intro exI [of _ ks] exI [of _ "length pics - 1"]) (cases pics; auto simp: last_conv_nth)
qed

lemma shown_pushed: "shown_ok pics shown scaled fresh \<Longrightarrow> shown_ok pics (shown @ [scaled]) scaled fresh"
proof -
  assume "shown_ok pics shown scaled fresh"
  then obtain ks j where k: "shown = map (\<lambda>k. Some (pics ! k)) ks" "sorted (ks @ [j])" "j < length pics" "scaled = Some (pics ! j)"
    "\<not> fresh \<longrightarrow> Suc j = length pics" by (auto simp: shown_ok_def)
  then have "sorted ((ks @ [j]) @ [j])" by (auto simp: sorted_append)
  with k show ?thesis unfolding shown_ok_def by (intro exI [of _ "ks @ [j]"] exI [of _ j]) auto
qed

lemma shown_captured: "shown_ok pics shown scaled fresh \<Longrightarrow> shown_ok (pics @ new) shown scaled True"
proof -
  assume "shown_ok pics shown scaled fresh"
  then obtain ks j where k: "shown = map (\<lambda>k. Some (pics ! k)) ks" "sorted (ks @ [j])" "j < length pics" "scaled = Some (pics ! j)"
    by (auto simp: shown_ok_def)
  then have "shown = map (\<lambda>k. Some ((pics @ new) ! k)) ks" by (auto simp: sorted_append nth_append)
  with k show ?thesis unfolding shown_ok_def by (intro exI [of _ ks] exI [of _ j]) (auto simp: nth_append)
qed

definition pictures_ok :: "('d, 'c, 'px) mf_pipeline \<Rightarrow> 'px desktop_texture option frame_of list \<Rightarrow> (gpu_texture option frame_of \<times> 'px option) list \<Rightarrow> bool" where
  "pictures_ok p caps sent \<longleftrightarrow>
     mp_flagRunning p \<and> mp_staged p = (if pictures caps = [] then None else Some (last (pictures caps))) \<and>
     (desktop (mp_lastFrame p) \<longrightarrow> pictures caps \<noteq> []) \<and>
     (if mp_started p then shown_ok (pictures caps) (map snd sent) (mp_scaled p) (desktop (mp_lastFrame p))
      else sent = [] \<and> (desktop (mp_lastFrame p) \<longleftrightarrow> pictures caps \<noteq> [])) \<and>
     (case mp_place p of Pushing f pic \<Rightarrow> mp_started p \<and> pic = mp_scaled p | _ \<Rightarrow> True)"

lemma mp_ok_updates [simp]:
  "pictures_ok (p\<lparr>mp_timer := x\<rparr>) caps sent = pictures_ok p caps sent" "cursors_ok (p\<lparr>mp_timer := x\<rparr>) caps sent = cursors_ok p caps sent"
  "pictures_ok (p\<lparr>mp_encoder := e\<rparr>) caps sent = pictures_ok p caps sent" "cursors_ok (p\<lparr>mp_encoder := e\<rparr>) caps sent = cursors_ok p caps sent"
  by (simp_all add: pictures_ok_def cursors_ok_def in_hand_def handing_def cong: encode_place.case_cong)

lemma mp_ok_place:
  "pictures_ok p caps sent \<Longrightarrow> (\<forall>f pic. pl \<noteq> Pushing f pic) \<Longrightarrow> pictures_ok (p\<lparr>mp_place := pl\<rparr>) caps sent"
  "cursors_ok p caps sent \<Longrightarrow> handing p = [] \<Longrightarrow> (\<forall>f pic. pl \<noteq> Pushing f pic) \<Longrightarrow> cursors_ok (p\<lparr>mp_place := pl\<rparr>) caps sent"
  by (cases pl; simp add: pictures_ok_def cursors_ok_def in_hand_def handing_def)+

lemma mp_take_InrD:
  assumes "mp_take P nows p = Inr (outs, p')"
  shows "mp_flagRunning p' = mp_flagRunning p \<and> mp_staged p' = mp_staged p \<and>
    (if \<not> mp_started p \<and> \<not> desktop (mp_lastFrame p) then p' = p\<lparr>mp_place := AtTimer\<rparr>
     else mp_lastFrame p' = frame_init False \<and> mp_started p' \<and> mp_scaled p' = (if desktop (mp_lastFrame p) then mp_staged p else mp_scaled p) \<and>
       (\<exists>tex. mp_place p' = Pushing (getOtherType (mp_lastFrame p) tex) (mp_scaled p')))"
proof (cases "\<not> mp_started p \<and> \<not> desktop (mp_lastFrame p)")
  case True
  with assms show ?thesis by (auto simp: mp_take_def)
next
  case False
  let ?p0 = "p\<lparr>mp_lastFrame := frame_init False\<rparr>"
  from assms False obtain p1 e s tex g where
    p1: "(if desktop (mp_lastFrame p) then mp_scale_picture P ?p0 else Inr ?p0) = Inr p1"
    and r: "p' = p1\<lparr>mp_encoder := e, mp_gpu := g, mp_place := Pushing (getOtherType (mp_lastFrame p) tex) (mp_scaled p1)\<rparr>"
    by (auto simp: mp_take_def frame_swap_def rbind_eq_Inr Let_def split: option.splits)
  have "mp_flagRunning p1 = mp_flagRunning p \<and> mp_staged p1 = mp_staged p \<and> mp_lastFrame p1 = frame_init False \<and> mp_started p1 \<and>
      mp_scaled p1 = (if desktop (mp_lastFrame p) then mp_staged p else mp_scaled p)"
    using p1 False by (auto simp: mp_scale_picture_def rbind_eq_Inr split: if_splits option.splits)
  with r False show ?thesis by auto
qed

lemma mp_start_inv: "mp_start P qpc_now p = Inr p' \<Longrightarrow> pictures_ok p' [] [] \<and> cursors_ok p' [] []"
  by (auto simp: mp_start_def rbind_eq_Inr Let_def split_def pictures_ok_def cursors_ok_def pictures_def in_hand_def handing_def frame_init_def
      split: option.splits if_splits)

lemma take_inv:
  assumes t: "mp_take P nows p = Inr (outs, p')" and pi: "pictures_ok p caps sent" and cu: "cursors_ok p caps sent"
    and pl: "\<forall>f pic. mp_place p \<noteq> Pushing f pic"
  shows "pictures_ok p' caps sent \<and> cursors_ok p' caps sent"
proof (cases "\<not> mp_started p \<and> \<not> desktop (mp_lastFrame p)")
  case True
  with mp_take_InrD [OF t] have p': "p' = p\<lparr>mp_place := AtTimer\<rparr>" by simp
  have "in_hand p' = in_hand p" using pl by (auto simp: in_hand_def handing_def p' split: encode_place.splits)
  with cu have "cursors_ok p' caps sent" by (simp add: cursors_ok_def)
  with pi True show ?thesis by (auto simp: pictures_ok_def p')
next
  case False
  with mp_take_InrD [OF t] obtain tex where f: "mp_flagRunning p' = mp_flagRunning p" "mp_staged p' = mp_staged p"
    "mp_lastFrame p' = frame_init False" "mp_started p'" "mp_scaled p' = (if desktop (mp_lastFrame p) then mp_staged p else mp_scaled p)"
    "mp_place p' = Pushing (getOtherType (mp_lastFrame p) tex) (mp_scaled p')" by auto
  have "in_hand p = [(cursorShape (mp_lastFrame p), cursorPos (mp_lastFrame p))]" using pl by (auto simp: in_hand_def handing_def split: encode_place.splits)
  moreover have "in_hand p' = in_hand p @ [(None, None)]" using calculation by (simp add: in_hand_def handing_def f frame_init_def)
  ultimately have c: "cursors_ok p' caps sent" using cu by (simp add: cursors_ok_def newest_append)
  have "shown_ok (pictures caps) (map snd sent) (mp_scaled p') False"
  proof (cases "mp_started p")
    case True
    with pi have "shown_ok (pictures caps) (map snd sent) (mp_scaled p) (desktop (mp_lastFrame p))" by (simp add: pictures_ok_def)
    with pi f(5) shown_scaled [OF this] show ?thesis by (cases "desktop (mp_lastFrame p)") (auto simp: pictures_ok_def)
  next
    case ns: False
    with False pi have "sent = []" "pictures caps \<noteq> []" "desktop (mp_lastFrame p)" by (auto simp: pictures_ok_def)
    with pi f(5) shown_first show ?thesis by (auto simp: pictures_ok_def)
  qed
  with f pi c show ?thesis by (simp add: pictures_ok_def frame_init_def)
qed

definition pic_of :: "'px desktop_texture option frame_of \<Rightarrow> 'px list" where
  "pic_of f = (case desktop f of None \<Rightarrow> [] | Some t \<Rightarrow> [dt_picture t])"

lemma pictures_snoc: "pictures (caps @ [f]) = pictures caps @ pic_of f"
  by (simp add: pictures_def pic_of_def)

lemma capture_round_InrD:
  assumes "mp_capture_round P now qpc_now p = Inr p'" and "mp_flagRunning p"
  shows "\<exists>frame. captured P now qpc_now p = [frame] \<and> mp_flagRunning p' \<and> mp_started p' = mp_started p \<and> mp_scaled p' = mp_scaled p \<and>
    mp_place p' = mp_place p \<and> mp_encoder p' = mp_encoder p \<and>
    mp_staged p' = (if pic_of frame = [] then mp_staged p else Some (last (pic_of frame))) \<and>
    desktop (mp_lastFrame p') = (pic_of frame \<noteq> [] \<or> desktop (mp_lastFrame p)) \<and>
    cursorShape (mp_lastFrame p') = newest [cursorShape (mp_lastFrame p), cursorShape frame] \<and>
    cursorPos (mp_lastFrame p') = newest [cursorPos (mp_lastFrame p), cursorPos frame]"
proof -
  from assms obtain frame c where "readD3D (mpf_dxgi P) (mpf_qpcFreq P) now qpc_now (mpf_junk P) (mp_capture p) = Inr (frame, c)"
    by (auto simp: mp_capture_round_def rbind_eq_Inr)
  with assms show ?thesis
    by (auto simp: captured_def mp_capture_round_def rbind_eq_Inr Let_def pic_of_def merge_cursor_def split: if_splits option.splits)
qed

lemma capture_inv:
  assumes r: "mp_capture_round P now qpc_now p = Inr p'" and pi: "pictures_ok p caps sent" and cu: "cursors_ok p caps sent"
  shows "pictures_ok p' (caps @ captured P now qpc_now p) sent \<and> cursors_ok p' (caps @ captured P now qpc_now p) sent"
proof -
  have "mp_flagRunning p" using pi by (simp add: pictures_ok_def)
  from capture_round_InrD [OF r this] obtain frame where ca: "captured P now qpc_now p = [frame]"
    and f: "mp_flagRunning p'" "mp_started p' = mp_started p" "mp_scaled p' = mp_scaled p" "mp_place p' = mp_place p"
      "mp_staged p' = (if pic_of frame = [] then mp_staged p else Some (last (pic_of frame)))"
      "desktop (mp_lastFrame p') = (pic_of frame \<noteq> [] \<or> desktop (mp_lastFrame p))"
      "cursorShape (mp_lastFrame p') = newest [cursorShape (mp_lastFrame p), cursorShape frame]"
      "cursorPos (mp_lastFrame p') = newest [cursorPos (mp_lastFrame p), cursorPos frame]" by blast
  have "cursors_ok p' (caps @ [frame]) sent"
    using cu newest_merge [of "map cursorShape caps" "map (cursorShape \<circ> fst) sent @ map fst (handing p)" "cursorShape (mp_lastFrame p)" "cursorShape frame"]
      newest_merge [of "map cursorPos caps" "map (cursorPos \<circ> fst) sent @ map snd (handing p)" "cursorPos (mp_lastFrame p)" "cursorPos frame"]
    by (simp add: cursors_ok_def in_hand_def f handing_def del: newest.simps)
  moreover have "pictures_ok p' (caps @ [frame]) sent"
  proof (cases "pic_of frame = []")
    case True
    with pi f(1-6) show ?thesis by (simp add: pictures_ok_def pictures_snoc cong: encode_place.case_cong)
  next
    case False
    with pi f(1-6) shown_captured [of "pictures caps" "map snd sent" "mp_scaled p" "desktop (mp_lastFrame p)" "pic_of frame"] show ?thesis
      by (simp add: pictures_ok_def pictures_snoc last_append cong: encode_place.case_cong split: if_splits)
  qed
  ultimately show ?thesis by (simp add: ca)
qed

lemma encode_inv:
  assumes r: "mp_encode_round P qpc_now nows nows' p = Inr (outs, p')" and pi: "pictures_ok p caps sent" and cu: "cursors_ok p caps sent"
  shows "pictures_ok p' caps (sent @ accepted p) \<and> cursors_ok p' caps (sent @ accepted p)"
proof (cases "mp_place p")
  case AtTimer
  have fl: "mp_flagRunning p" using pi by (simp add: pictures_ok_def)
  have 1: "pictures_ok (p\<lparr>mp_timer := x\<rparr>) caps sent \<and> cursors_ok (p\<lparr>mp_timer := x\<rparr>) caps sent" for x
    using pi cu by simp
  have 2: "pictures_ok (p\<lparr>mp_timer := x, mp_place := Polling\<rparr>) caps sent \<and> cursors_ok (p\<lparr>mp_timer := x, mp_place := Polling\<rparr>) caps sent" for x
    using mp_ok_place [of "p\<lparr>mp_timer := x\<rparr>" caps sent Polling] pi cu AtTimer by (simp add: handing_def)
  from r fl AtTimer obtain fires x where "(if fires then mp_take P nows (p\<lparr>mp_timer := x\<rparr>) else Inr ([], p\<lparr>mp_timer := x, mp_place := Polling\<rparr>)) = Inr (outs, p')"
    by (auto simp: mp_encode_round_def rbind_eq_Inr)
  with 1 2 take_inv [of P nows "p\<lparr>mp_timer := x\<rparr>" outs p' caps sent] AtTimer show ?thesis
    by (auto simp: accepted_def split: if_splits)
next
  case Polling
  have fl: "mp_flagRunning p" using pi by (simp add: pictures_ok_def)
  have 1: "pictures_ok (p\<lparr>mp_encoder := e, mp_timer := x\<rparr>) caps sent \<and> cursors_ok (p\<lparr>mp_encoder := e, mp_timer := x\<rparr>) caps sent" for e x
    using pi cu by simp
  from r fl Polling obtain e x where "(\<exists>o'. mp_take P nows' (p\<lparr>mp_encoder := e, mp_timer := x\<rparr>) = Inr (o', p')) \<or> p' = p\<lparr>mp_encoder := e, mp_timer := x\<rparr>"
    by (auto simp: mp_encode_round_def rbind_eq_Inr Let_def split: if_splits)
  with 1 take_inv [of P nows' "p\<lparr>mp_encoder := e, mp_timer := x\<rparr>" _ p' caps sent] Polling show ?thesis
    by (auto simp: accepted_def)
next
  case (Pushing f pic)
  have fl: "mp_flagRunning p" "mp_started p" "pic = mp_scaled p" using pi Pushing by (simp_all add: pictures_ok_def)
  from r Pushing obtain ok e where pu: "em_pushFrame (mpf_mf P) f (mp_encoder p) = Inr (ok, e)" by (auto simp: mp_encode_round_def rbind_eq_Inr)
  from em_pushFrame_InrD [OF pu] have ok: "ok = waitingInput (mp_encoder p)" by simp
  show ?thesis
  proof (cases ok)
    case True
    with r Pushing pu have p': "p' = p\<lparr>mp_encoder := e, mp_place := AtTimer\<rparr>" by (simp add: mp_encode_round_def)
    have ac: "accepted p = [(f, pic)]" using Pushing ok True by (simp add: accepted_def)
    have "cursors_ok p' caps (sent @ [(f, pic)])" using cu Pushing by (simp add: cursors_ok_def in_hand_def handing_def p')
    moreover have "pictures_ok p' caps (sent @ [(f, pic)])"
      using pi fl shown_pushed [of "pictures caps" "map snd sent" "mp_scaled p"] by (simp add: pictures_ok_def p')
    ultimately show ?thesis by (simp add: ac)
  next
    case False
    with r Pushing pu fl(1) obtain e' where p': "p' = p\<lparr>mp_encoder := e'\<rparr>" by (auto simp: mp_encode_round_def rbind_eq_Inr)
    have "accepted p = []" using Pushing ok False by (simp add: accepted_def)
    with pi cu show ?thesis by (simp add: p')
  qed
qed

lemma mp_run_inv: "mp_run P (p, caps, sent) \<Longrightarrow> pictures_ok p caps sent \<and> cursors_ok p caps sent"
proof (induction "(p, caps, sent)" arbitrary: p caps sent rule: mp_run.induct)
  case (mp_begins q p p')
  then show ?case using mp_start_inv by blast
next
  case (mp_captures p caps sent now qpc_now p')
  then show ?case using capture_inv by blast
next
  case (mp_encodes p caps sent qpc_now nows nows' outs p')
  then show ?case using encode_inv by blast
qed

text \<open>The shared texture is one that the scaler takes, so the theorem about its draws applies to every round.\<close>

lemma staging_accepted:
  assumes "mp_start P qpc_now p = Inr p'" and "mp_scale p = Some (sd_createInstance w h NV12)" and "\<And>n. \<not> refuses (mp_gpu p) n"
  shows "\<exists>s t. mp_scale p' = Some s \<and> captureStagingTex p' = Some t \<and>
    (\<exists>hi. scaler_ok (made (mp_gpu p)) hi w h s \<and> input_ok (made (mp_gpu p)) hi t) \<and> (\<forall>n. \<not> refuses (mp_gpu p') n)"
proof -
  from assms(1,2) obtain cw ch s g1 where i: "scaler_init (mp_gpu p) (sd_createInstance w h NV12) = Inr (s, g1)"
    and p': "mp_scale p' = Some s" "captureStagingTex p' = Some \<lparr>gt_id = made g1, gt_desc = staging_desc cw ch\<rparr>" "refuses (mp_gpu p') = refuses g1"
    by (auto simp: mp_start_def rbind_eq_Inr Let_def split_def CreateTexture2D_def split: if_splits)
  from scaler_init_ok [OF i assms(3)] p' show ?thesis
    by (auto simp: staging_desc_def input_ok_def)
qed

subsection \<open>Properties\<close>


text \<open>A pipeline for 4 by 2 pictures on a screen that shows picture 5, and its first round of each thread.\<close>

definition sample_mf_platform :: "(unit, int list, nat) mf_platform" where
  "sample_mf_platform =
     \<lparr>mpf_outputs = 1, mpf_device = True, mpf_dxgi = pf_dxgi sample_platform, mpf_elapsed = [], mpf_fuel = 1, mpf_qpcFreq = 10000000,
      mpf_mf = sample_mf, mpf_junk = (\<lambda>_. 0), mpf_keyedMutex = True, mpf_sharedHandle = True, mpf_device1 = True, mpf_openShared = True,
      mpf_sharedMutex = True, mpf_acquire = True, mpf_release = True\<rparr>"

definition sample_mf_pipeline :: "(unit, int list, nat) mf_pipeline" where
  "sample_mf_pipeline = (mp_new False sample_gpu (setFrequency 10000000 0 \<lparr>num = 60, den = 1\<rparr>) ())
     \<lparr>mp_device := True, mp_scale := Some (sd_createInstance 4 2 NV12), mp_capture := (capture_new ())\<lparr>cap_output := True\<rparr>\<rparr>"

lemmas mf_eval = sample_mf_platform_def sample_mf_pipeline_def sample_platform_def mp_start_def mp_new_def getCurrentMode_def openDuplication_def
  SUCCEEDED_def rational_new_def join_thread_def staging_desc_def mp_capture_round_def capture_eval capture_start_def mp_encode_round_def
  mp_take_def mp_scale_picture_def frame_swap_def checkInterval_def setFrequency_def em_poll_def em_start_def em_new_def sd_popOutput_def pop_texture_def


end
