(* ===== verification/DxgiHelper.thy ===== *)
theory DxgiHelper
  imports Prelude
begin

text \<open>
  \<open>DxgiHelper\<close> of \<open>src/src/common/platform/windows/DxgiHelper.h\<close> and \<open>.cpp\<close>, and the choice of a capture pipeline in
  \<open>src/src/server/CapturePipelineFactory.h\<close> and \<open>.cpp\<close> and \<open>src/src/server/platform/windows/CapturePipelineFactroryWin32.h\<close>
  and \<open>.cpp\<close>.

  What Windows answers is the record \<open>dxgi_factory\<close>: for each adapter, in its order, the list of its outputs, each
  with whether it implements the interface the program needs; enumeration fails after the last one.
\<close>

record dxgi_factory =
  fa_outputs :: "bool list list"
  fa_device :: "nat \<Rightarrow> bool \<Rightarrow> bool"
  fa_multithread :: "nat \<Rightarrow> bool"
  fa_parent :: "nat \<times> nat \<Rightarrow> bool"

definition dxgi_new :: "dxgi_factory option \<Rightarrow> dxgi_factory res" where
  "dxgi_new f = (case f of None \<Rightarrow> error_quit ''Failed to create DXGI factory 5'' | Some f \<Rightarrow> Inr f)"

subsection \<open>Enumeration\<close>

text \<open>An output is its adapter's number and its own.\<close>

fun output_loop :: "nat \<Rightarrow> nat \<Rightarrow> bool list \<Rightarrow> (nat \<times> nat) list" where
  "output_loop i j [] = []"
| "output_loop i j (ok # oks) = (if ok then [(i, j)] else []) @ output_loop i (j + 1) oks"

fun adapter_loop :: "nat \<Rightarrow> bool list list \<Rightarrow> (nat \<times> nat) list" where
  "adapter_loop i [] = []"
| "adapter_loop i (os # as) = output_loop i 0 os @ adapter_loop (i + 1) as"

definition findAllOutput :: "dxgi_factory \<Rightarrow> (nat \<times> nat) list" where
  "findAllOutput f = adapter_loop 0 (fa_outputs f)"

text \<open>
  \<open>createDevice\<close> on an adapter or, without one, the first. The result is whether the device was made, on which
  adapter, and how many references to adapters the call has taken and not given back.
\<close>

definition createDevice :: "dxgi_factory \<Rightarrow> nat option \<Rightarrow> bool \<Rightarrow> (nat option \<times> int) res" where
  "createDevice f adapter requireVideo =
     (let releaseAdapter = (adapter = None) in
      if releaseAdapter \<and> fa_outputs f = [] then Inr (None, 0)
      else let a = (case adapter of None \<Rightarrow> 0 | Some n \<Rightarrow> n); refs = (if releaseAdapter then 1 else 0) in
        if \<not> fa_device f a requireVideo then Inr (None, if releaseAdapter then refs - 1 else refs)
        else if requireVideo \<and> \<not> fa_multithread f a then Inl Undef
        else Inr (Some a, if releaseAdapter then refs - 1 else refs))"

definition getAdapterFromOutput :: "dxgi_factory \<Rightarrow> nat \<times> nat \<Rightarrow> nat option" where
  "getAdapterFromOutput f out = (if fa_parent f out then Some (fst out) else None)"

subsection \<open>Text\<close>

text \<open>\<open>convert text room\<close> is \<open>WideCharToMultiByte\<close>: its result and what it wrote.\<close>

definition intoUTF8 :: "(u16 list \<Rightarrow> nat \<Rightarrow> int \<times> string) \<Rightarrow> u16 list \<Rightarrow> string" where
  "intoUTF8 convert wideStr =
     (let (usedSize, ret) = convert wideStr (length wideStr * 4) in
      if 0 \<le> usedSize then take (nat usedSize) ret
      else if usedSize = 122
      then (let targetSize = nat (fst (convert wideStr 0)); (used, ret2) = convert wideStr targetSize in take (nat used) ret2)
      else ''<Failed to convert wide string into UTF-8>'')"

definition guidString :: "(u16 list \<Rightarrow> nat \<Rightarrow> int \<times> string) \<Rightarrow> int \<times> u16 list \<Rightarrow> string" where
  "guidString convert from_guid =
     (case from_guid of (len, buf) \<Rightarrow> if len \<le> 0 then ''<error>'' else intoUTF8 convert (take (nat (len - 1)) buf))"

subsection \<open>The choice of a pipeline\<close>

datatype pipeline_kind = D3DSoft | D3DMF

definition listCapture :: "string list" where
  "listCapture = [''DirectX 11'']"

definition listEncoder :: "string list" where
  "listEncoder = [''Software (OpenH264) (slowest)'', ''Media Foundation'']"

definition getBestOption :: "dxgi_factory \<Rightarrow> (nat \<times> nat) res" where
  "getBestOption f =
     (case findAllOutput f of
        [] \<Rightarrow> Inr (0, 0)
      | out # _ \<Rightarrow> rbind (createDevice f (getAdapterFromOutput f out) True) (\<lambda>(dev, _).
          if dev = None then Inr (0, 0) else Inr (0, 1)))"

definition getFallbackOption :: "nat \<times> nat" where
  "getFallbackOption = (0, 0)"

definition createPipeline :: "nat \<Rightarrow> nat \<Rightarrow> pipeline_kind option res" where
  "createPipeline captureIdx encoderIdx =
     rbind (if captureIdx = 0 then Inr () else error_quit ''Invalid captureIdx {}'') (\<lambda>_.
     rbind (if encoderIdx = 0 \<or> encoderIdx = 1 then Inr () else error_quit ''Invalid encoderIdx {}'') (\<lambda>_.
       if encoderIdx = 0 then Inr (Some D3DSoft)
       else if encoderIdx = 1 then Inr (Some D3DSoft)
       else Inr None))"

subsection \<open>Properties of the helpers\<close>

lemma output_loop_set: "set (output_loop i j os) = {(i, j + k) | k. k < length os \<and> os ! k}"
proof (induction os arbitrary: j)
  case (Cons ok oks)
  have "{(i, j + k) | k. k < length (ok # oks) \<and> (ok # oks) ! k} = (if ok then {(i, j)} else {}) \<union> {(i, j + 1 + k) | k. k < length oks \<and> oks ! k}"
    by (auto simp: less_Suc_eq_0_disj)
  with Cons show ?case by simp
qed simp

lemma adapter_loop_set: "set (adapter_loop i as) = {(i + a, k) | a k. a < length as \<and> k < length (as ! a) \<and> as ! a ! k}"
proof (induction as arbitrary: i)
  case (Cons os as)
  have "{(i + a, k) | a k. a < length (os # as) \<and> k < length ((os # as) ! a) \<and> (os # as) ! a ! k} =
      {(i, k) | k. k < length os \<and> os ! k} \<union> {(i + 1 + a, k) | a k. a < length as \<and> k < length (as ! a) \<and> as ! a ! k}"
    by (auto simp: less_Suc_eq_0_disj)
  with Cons show ?case by (simp add: output_loop_set)
qed simp

text \<open>Exactly the outputs that can be captured are found, on every adapter.\<close>

lemma findAllOutput_set: "(a, k) \<in> set (findAllOutput f) \<longleftrightarrow> a < length (fa_outputs f) \<and> k < length (fa_outputs f ! a) \<and> fa_outputs f ! a ! k"
  by (auto simp: findAllOutput_def adapter_loop_set)

text \<open>Every path of \<open>createDevice\<close> that returns gives back the reference it took.\<close>

lemma createDevice_balanced: "createDevice f adapter v = Inr (dev, refs) \<Longrightarrow> refs = 0"
  by (auto simp: createDevice_def Let_def split: if_splits)

text \<open>What Windows documents for a failed conversion is the result 0, so the text is empty and the branches for errors are dead.\<close>

lemma intoUTF8_first_branch:
  "0 \<le> fst (convert s (length s * 4)) \<Longrightarrow> intoUTF8 convert s = take (nat (fst (convert s (length s * 4)))) (snd (convert s (length s * 4)))"
  by (simp add: intoUTF8_def split_def Let_def)

text \<open>Exactly the listed options are accepted, the best and the fallback option among them; each gives the software pipeline.\<close>

lemma options_accepted:
  "(\<exists>p. createPipeline c e = Inr p) \<longleftrightarrow> c < length listCapture \<and> e < length listEncoder"
  "getBestOption f = Inr (c, e) \<Longrightarrow> createPipeline c e = Inr (Some D3DSoft)"
  "createPipeline (fst getFallbackOption) (snd getFallbackOption) = Inr (Some D3DSoft)"
  "createPipeline c e = Inr p \<Longrightarrow> p = Some D3DSoft"
  by (auto simp: createPipeline_def listCapture_def listEncoder_def getBestOption_def getFallbackOption_def error_quit_def rbind_eq_Inr
      less_2_cases_iff numeral_2_eq_2 split: list.splits if_splits)

end
