(* ===== verification/AvPtr.thy ===== *)
theory AvPtr
  imports Prelude
begin

text \<open>
  \<open>AVFramePtr\<close> and \<open>AVPacketPtr\<close> of \<open>src/src/common/ffmpeg-headers.h\<close>: two classes of the same text that own what
  \<open>av_frame_alloc\<close> and \<open>av_packet_alloc\<close> return. The kind of object is an argument here. \<open>av_live\<close> says which addresses
  hold an object and of which kind; to free any other pointer is undefined. The wrappers of the program are the slots of a
  list: \<open>None\<close> while no wrapper lives there, else its kind and its pointer, \<open>None\<close> being null. What an allocation returns is an
  argument, \<open>None\<close> when there is no memory.
\<close>

type_synonym av_addr = nat

datatype av_kind = AV_FRAME | AV_PACKET

record av_heap =
  av_live :: "av_addr \<Rightarrow> av_kind option"
  av_slots :: "(av_kind \<times> av_addr option) option list"

subsection \<open>FFmpeg's functions\<close>

text \<open>An allocation gives a null pointer or the address of a new object.\<close>

definition av_alloc :: "av_kind \<Rightarrow> av_addr option \<Rightarrow> av_heap \<Rightarrow> av_heap" where
  "av_alloc k out s = (case out of None \<Rightarrow> s | Some p \<Rightarrow> s\<lparr>av_live := (av_live s)(p \<mapsto> k)\<rparr>)"

definition av_object_free :: "av_kind \<Rightarrow> av_addr option \<Rightarrow> av_heap \<Rightarrow> av_heap res" where
  "av_object_free k ob s =
     (case ob of
        None \<Rightarrow> Inr s
      | Some p \<Rightarrow> if av_live s p = Some k then Inr (s\<lparr>av_live := (av_live s)(p := None)\<rparr>) else Inl Undef)"

subsection \<open>The operations of a wrapper\<close>

definition av_get :: "av_kind \<Rightarrow> nat \<Rightarrow> av_heap \<Rightarrow> av_addr option res" where
  "av_get k v s =
     (if v < length (av_slots s)
      then (case av_slots s ! v of Some (k', ob) \<Rightarrow> if k' = k then Inr ob else Inl Undef | None \<Rightarrow> Inl Undef) else Inl Undef)"

definition av_set :: "av_kind \<Rightarrow> nat \<Rightarrow> av_addr option \<Rightarrow> av_heap \<Rightarrow> av_heap" where
  "av_set k v ob s = s\<lparr>av_slots := (av_slots s)[v := Some (k, ob)]\<rparr>"

definition av_unused :: "nat \<Rightarrow> av_heap \<Rightarrow> unit res" where
  "av_unused v s = (if v < length (av_slots s) \<and> av_slots s ! v = None then Inr () else Inl Undef)"

definition av_new :: "av_kind \<Rightarrow> nat \<Rightarrow> av_addr option \<Rightarrow> av_heap \<Rightarrow> av_heap res" where
  "av_new k v out s = rbind (av_unused v s) (\<lambda>_. Inr (av_set k v out (av_alloc k out s)))"

text \<open>The move constructor swaps a null pointer with the source, the move assignment swaps the two pointers.\<close>

definition av_move :: "av_kind \<Rightarrow> nat \<Rightarrow> nat \<Rightarrow> av_heap \<Rightarrow> av_heap res" where
  "av_move k v w s = rbind (av_unused v s) (\<lambda>_. rbind (av_get k w s) (\<lambda>ob. Inr (av_set k w None (av_set k v ob s))))"

definition av_assign :: "av_kind \<Rightarrow> nat \<Rightarrow> nat \<Rightarrow> av_heap \<Rightarrow> av_heap res" where
  "av_assign k v w s = rbind (av_get k v s) (\<lambda>a. rbind (av_get k w s) (\<lambda>b. Inr (av_set k w a (av_set k v b s))))"

definition av_destroy :: "av_kind \<Rightarrow> nat \<Rightarrow> av_heap \<Rightarrow> av_heap res" where
  "av_destroy k v s =
     rbind (av_get k v s) (\<lambda>ob. rbind (av_object_free k ob s) (\<lambda>s1. Inr (s1\<lparr>av_slots := (av_slots s1)[v := None]\<rparr>)))"

text \<open>The methods \<open>alloc\<close> and \<open>free\<close>.\<close>

definition av_ensure :: "av_kind \<Rightarrow> nat \<Rightarrow> av_addr option \<Rightarrow> av_heap \<Rightarrow> av_heap res" where
  "av_ensure k v out s = rbind (av_get k v s) (\<lambda>ob. if ob = None then Inr (av_set k v out (av_alloc k out s)) else Inr s)"

definition av_reset :: "av_kind \<Rightarrow> nat \<Rightarrow> av_heap \<Rightarrow> av_heap res" where
  "av_reset k v s = rbind (av_get k v s) (\<lambda>ob. rbind (av_object_free k ob s) (\<lambda>s1. Inr (av_set k v None s1)))"

text \<open>\<open>data()\<close>: a library function stores a new object through the address of the pointer.\<close>

definition av_store :: "av_kind \<Rightarrow> nat \<Rightarrow> av_addr option \<Rightarrow> av_heap \<Rightarrow> av_heap res" where
  "av_store k v out s = rbind (av_get k v s) (\<lambda>_. Inr (av_set k v out (av_alloc k out s)))"

subsection \<open>Ownership\<close>

text \<open>Every object is held by exactly one wrapper, every wrapper holds an object or nothing.\<close>

definition av_holders :: "av_kind \<Rightarrow> av_addr \<Rightarrow> av_heap \<Rightarrow> nat" where
  "av_holders k p s = count_list (av_slots s) (Some (k, Some p))"

definition av_owned :: "av_heap \<Rightarrow> bool" where
  "av_owned s \<longleftrightarrow> (\<forall>k p. av_holders k p s = (if av_live s p = Some k then 1 else 0))"

definition av_is :: "av_kind \<Rightarrow> nat \<Rightarrow> av_heap \<Rightarrow> bool" where
  "av_is k v s \<longleftrightarrow> v < length (av_slots s) \<and> (\<exists>ob. av_slots s ! v = Some (k, ob))"

definition av_free_slot :: "nat \<Rightarrow> av_heap \<Rightarrow> bool" where
  "av_free_slot v s \<longleftrightarrow> v < length (av_slots s) \<and> av_slots s ! v = None"

definition av_new_object :: "av_addr option \<Rightarrow> av_heap \<Rightarrow> bool" where
  "av_new_object out s \<longleftrightarrow> (\<forall>p. out = Some p \<longrightarrow> av_live s p = None)"

lemma av_set_simps [simp]:
  "av_live (av_set k v ob s) = av_live s" "av_slots (av_set k v ob s) = (av_slots s)[v := Some (k, ob)]"
  by (simp_all add: av_set_def)

lemma av_alloc_simps [simp]:
  "av_slots (av_alloc k out s) = av_slots s"
  "av_live (av_alloc k out s) = (case out of None \<Rightarrow> av_live s | Some p \<Rightarrow> (av_live s)(p \<mapsto> k))"
  by (simp_all add: av_alloc_def split: option.split)

lemma av_isE:
  assumes "av_is k v s"
  obtains ob where "av_get k v s = Inr ob" "av_slots s ! v = Some (k, ob)" "v < length (av_slots s)"
  using assms by (auto simp: av_is_def av_get_def)

lemma av_holders_put:
  assumes "v < length (av_slots s)" and "av_slots s' = (av_slots s)[v := x]"
  shows "av_holders k p s' + (if av_slots s ! v = Some (k, Some p) then 1 else 0) = av_holders k p s + (if x = Some (k, Some p) then 1 else 0)"
  using count_list_update [OF assms(1)] assms(2) by (simp add: av_holders_def)

lemma av_owned_held:
  assumes "av_owned s" and "v < length (av_slots s)" and "av_slots s ! v = Some (k, Some p)"
  shows "av_live s p = Some k"
proof (rule ccontr)
  assume "av_live s p \<noteq> Some k"
  then have "av_holders k p s = 0" using assms(1) by (simp add: av_owned_def)
  then have "Some (k, Some p) \<notin> set (av_slots s)" by (simp add: av_holders_def count_list_0_iff)
  with assms(2,3) show False using nth_mem by metis
qed

text \<open>A wrapper that holds nothing gets a new object.\<close>

lemma av_fill_owned:
  assumes "av_owned s" and "v < length (av_slots s)" and "av_slots s ! v = None \<or> av_slots s ! v = Some (k0, None)" and "av_new_object out s"
  shows "av_owned (av_set k v out (av_alloc k out s))"
  unfolding av_owned_def
proof (intro allI)
  fix j p
  show "av_holders j p (av_set k v out (av_alloc k out s)) = (if av_live (av_set k v out (av_alloc k out s)) p = Some j then 1 else 0)"
    using av_holders_put [OF assms(2), of "av_set k v out (av_alloc k out s)" "Some (k, out)" j p] assms(1,3,4)
    by (auto simp: av_owned_def av_new_object_def split: option.splits if_splits)
qed

text \<open>A wrapper gives its object up, and holds nothing or is gone.\<close>

lemma av_drop_owned:
  assumes "av_owned s" and "v < length (av_slots s)" and "av_slots s ! v = Some (k, ob)" and "x = None \<or> x = Some (k, None)"
  shows "\<exists>s1. av_object_free k ob s = Inr s1 \<and> av_slots s1 = av_slots s \<and> av_owned (s1\<lparr>av_slots := (av_slots s1)[v := x]\<rparr>)"
proof -
  let ?s1 = "case ob of None \<Rightarrow> s | Some p \<Rightarrow> s\<lparr>av_live := (av_live s)(p := None)\<rparr>"
  have f: "av_object_free k ob s = Inr ?s1"
    using av_owned_held [OF assms(1,2)] assms(3) by (cases ob) (simp_all add: av_object_free_def)
  have sl: "av_slots ?s1 = av_slots s" by (simp split: option.split)
  have "av_owned (?s1\<lparr>av_slots := (av_slots ?s1)[v := x]\<rparr>)"
    unfolding av_owned_def
  proof (intro allI)
    fix j p
    show "av_holders j p (?s1\<lparr>av_slots := (av_slots ?s1)[v := x]\<rparr>) =
      (if av_live (?s1\<lparr>av_slots := (av_slots ?s1)[v := x]\<rparr>) p = Some j then 1 else 0)"
      using av_holders_put [OF assms(2), of "?s1\<lparr>av_slots := (av_slots ?s1)[v := x]\<rparr>" x j p] sl assms av_owned_held [OF assms(1,2)]
      by (cases ob) (auto simp: av_owned_def split: if_splits)
  qed
  with f sl show ?thesis by blast
qed

text \<open>Two wrappers of one kind swap.\<close>

lemma av_swap_owned:
  assumes "av_owned s" and "v < length (av_slots s)" "w < length (av_slots s)" and "av_slots s ! w = Some (k, b)"
    and "av_slots s ! v = Some (k, a) \<or> av_slots s ! v = None \<and> a = None \<and> v \<noteq> w"
  shows "av_owned (av_set k w a (av_set k v b s))"
  unfolding av_owned_def
proof (intro allI)
  fix j p
  let ?s1 = "av_set k v b s"
  show "av_holders j p (av_set k w a ?s1) = (if av_live (av_set k w a ?s1) p = Some j then 1 else 0)"
    using av_holders_put [OF assms(2), of ?s1 "Some (k, b)" j p] av_holders_put [of w ?s1 "av_set k w a ?s1" "Some (k, a)" j p] assms
    by (cases "v = w") (auto simp: av_owned_def nth_list_update split: if_splits)
qed

subsection \<open>Programs\<close>

datatype av_op =
    AvNew av_kind nat "av_addr option" | AvMove av_kind nat nat | AvAssign av_kind nat nat | AvDestroy av_kind nat
  | AvEnsure av_kind nat "av_addr option" | AvReset av_kind nat | AvStore av_kind nat "av_addr option"

fun av_step :: "av_op \<Rightarrow> av_heap \<Rightarrow> av_heap res" where
  "av_step (AvNew k v out) s = av_new k v out s"
| "av_step (AvMove k v w) s = av_move k v w s"
| "av_step (AvAssign k v w) s = av_assign k v w s"
| "av_step (AvDestroy k v) s = av_destroy k v s"
| "av_step (AvEnsure k v out) s = av_ensure k v out s"
| "av_step (AvReset k v) s = av_reset k v s"
| "av_step (AvStore k v out) s = av_store k v out s"

fun av_run :: "av_op list \<Rightarrow> av_heap \<Rightarrow> av_heap res" where
  "av_run [] s = Inr s"
| "av_run (a # as) s = rbind (av_step a s) (av_run as)"

text \<open>
  What the language and the library see to: a wrapper is built where none lives and used while it lives, a new object is where none was.
  The caller of \<open>data()\<close> has to see to it that nothing is overwritten.
\<close>

fun av_fits :: "av_op \<Rightarrow> av_heap \<Rightarrow> bool" where
  "av_fits (AvNew k v out) s \<longleftrightarrow> av_free_slot v s \<and> av_new_object out s"
| "av_fits (AvMove k v w) s \<longleftrightarrow> av_free_slot v s \<and> av_is k w s"
| "av_fits (AvAssign k v w) s \<longleftrightarrow> av_is k v s \<and> av_is k w s"
| "av_fits (AvDestroy k v) s \<longleftrightarrow> av_is k v s"
| "av_fits (AvEnsure k v out) s \<longleftrightarrow> av_is k v s \<and> av_new_object out s"
| "av_fits (AvReset k v) s \<longleftrightarrow> av_is k v s"
| "av_fits (AvStore k v out) s \<longleftrightarrow> v < length (av_slots s) \<and> av_slots s ! v = Some (k, None) \<and> av_new_object out s"

lemma av_step_owned:
  assumes o: "av_owned s" and "av_fits a s"
  shows "\<exists>s'. av_step a s = Inr s' \<and> av_owned s'"
  using assms(2)
proof (cases a)
  case (AvNew k v out)
  with assms av_fill_owned [OF o, of v k out k] show ?thesis by (simp add: av_new_def av_unused_def av_free_slot_def)
next
  case (AvMove k v w)
  with assms have f: "av_free_slot v s" "av_is k w s" by simp_all
  from av_isE [OF f(2)] obtain b where b: "av_get k w s = Inr b" "av_slots s ! w = Some (k, b)" "w < length (av_slots s)" .
  with f(1) have "v \<noteq> w" by (auto simp: av_free_slot_def)
  with av_swap_owned [OF o _ b(3,2), of v None] f(1) b AvMove show ?thesis by (simp add: av_move_def av_unused_def av_free_slot_def)
next
  case (AvAssign k v w)
  with assms have f: "av_is k v s" "av_is k w s" by simp_all
  from av_isE [OF f(1)] obtain x where x: "av_get k v s = Inr x" "av_slots s ! v = Some (k, x)" "v < length (av_slots s)" .
  from av_isE [OF f(2)] obtain b where b: "av_get k w s = Inr b" "av_slots s ! w = Some (k, b)" "w < length (av_slots s)" .
  from av_swap_owned [OF o x(3) b(3,2), of x] x b AvAssign show ?thesis by (simp add: av_assign_def)
next
  case (AvDestroy k v)
  with assms have "av_is k v s" by simp
  then obtain x where x: "av_get k v s = Inr x" "av_slots s ! v = Some (k, x)" "v < length (av_slots s)" by (rule av_isE)
  from av_drop_owned [OF o x(3,2), of None] x AvDestroy show ?thesis by (auto simp: av_destroy_def)
next
  case (AvEnsure k v out)
  with assms have f: "av_is k v s" "av_new_object out s" by simp_all
  from av_isE [OF f(1)] obtain x where x: "av_get k v s = Inr x" "av_slots s ! v = Some (k, x)" "v < length (av_slots s)" .
  with av_fill_owned [OF o x(3), of k out k] f(2) o AvEnsure show ?thesis by (cases x) (simp_all add: av_ensure_def)
next
  case (AvReset k v)
  with assms have "av_is k v s" by simp
  then obtain x where x: "av_get k v s = Inr x" "av_slots s ! v = Some (k, x)" "v < length (av_slots s)" by (rule av_isE)
  from av_drop_owned [OF o x(3,2), of "Some (k, None)"] x AvReset show ?thesis by (auto simp: av_reset_def av_set_def)
next
  case (AvStore k v out)
  with assms av_fill_owned [OF o, of v k out k] show ?thesis by (simp add: av_store_def av_get_def)
qed

fun av_fits_all :: "av_op list \<Rightarrow> av_heap \<Rightarrow> bool" where
  "av_fits_all [] s \<longleftrightarrow> True"
| "av_fits_all (a # as) s \<longleftrightarrow> av_fits a s \<and> (\<forall>s'. av_step a s = Inr s' \<longrightarrow> av_fits_all as s')"

text \<open>No program frees an object twice or loses one.\<close>

lemma av_run_owned: "av_owned s \<Longrightarrow> av_fits_all as s \<Longrightarrow> \<exists>s'. av_run as s = Inr s' \<and> av_owned s'"
proof (induction as arbitrary: s)
  case (Cons a as)
  from Cons.prems(2) have "av_fits a s" by simp
  from av_step_owned [OF Cons.prems(1) this] obtain s1 where s1: "av_step a s = Inr s1" "av_owned s1" by blast
  with Cons.prems(2) Cons.IH [OF s1(2)] show ?case by simp
qed simp

lemma av_no_leak:
  assumes "av_owned s" and "\<And>v k p. v < length (av_slots s) \<Longrightarrow> av_slots s ! v \<noteq> Some (k, Some p)"
  shows "av_live s p = None"
proof (rule ccontr)
  assume "av_live s p \<noteq> None"
  then obtain k where "av_live s p = Some k" by auto
  with assms(1) have "av_holders k p s = 1" by (simp add: av_owned_def)
  then have "Some (k, Some p) \<in> set (av_slots s)" by (metis av_holders_def count_notin zero_neq_one)
  then obtain v where "v < length (av_slots s)" "av_slots s ! v = Some (k, Some p)" by (auto simp: in_set_conv_nth)
  with assms(2) show False by blast
qed

text \<open>\<open>data()\<close> on a pointer that is not null loses the object behind it; nothing in the class prevents that.\<close>

lemma av_store_leaks:
  assumes "av_owned s" and "v < length (av_slots s)" "av_slots s ! v = Some (k, Some p)" and "q \<noteq> p"
  shows "\<exists>s'. av_store k v (Some q) s = Inr s' \<and> av_live s' p = Some k \<and> av_holders k p s' = 0"
proof -
  have l: "av_live s p = Some k" by (rule av_owned_held [OF assms(1-3)])
  then have "av_holders k p s = 1" using assms(1) by (simp add: av_owned_def)
  with av_holders_put [OF assms(2), of "av_set k v (Some q) (av_alloc k (Some q) s)" "Some (k, Some q)" k p] assms l show ?thesis
    by (simp add: av_store_def av_get_def)
qed

subsection \<open>The pictures of \<open>DecoderFFmpeg\<close>\<close>

text \<open>
  How \<open>DecoderFFmpeg\<close> hands its pictures on. Slot 0 is the \<open>fr\<close> of \<open>run_\<close>, slot 1 \<open>prevReadFrame\<close>, slot 2 the local \<open>output\<close>, the
  others are the places of \<open>frameQueue\<close>. \<open>output\<close> is built with a new frame, which the assignment in \<open>getOtherType\<close> swaps with the
  decoded one, so that \<open>fr\<close> has one for the next call of the codec. \<open>readSoftware\<close> swaps too, and its \<open>pop_front\<close> destroys what
  was shown before.
\<close>

datatype frame_event =
    Worker_begins av_addr | Decoded nat av_addr | Discarded av_addr | Shown nat | Worker_ends "nat list"

fun frame_program :: "frame_event \<Rightarrow> av_op list" where
  "frame_program (Worker_begins new) = [AvNew AV_FRAME 0 (Some new)]"
| "frame_program (Decoded q new) =
     [AvNew AV_FRAME 2 (Some new), AvAssign AV_FRAME 2 0, AvMove AV_FRAME q 2, AvDestroy AV_FRAME 2]"
| "frame_program (Discarded new) = [AvNew AV_FRAME 2 (Some new), AvAssign AV_FRAME 2 0, AvDestroy AV_FRAME 2]"
| "frame_program (Shown q) = [AvAssign AV_FRAME 1 q, AvDestroy AV_FRAME q]"
| "frame_program (Worker_ends qs) = map (AvDestroy AV_FRAME) qs @ [AvReset AV_FRAME 1, AvDestroy AV_FRAME 0]"

definition holds_frame :: "nat \<Rightarrow> av_heap \<Rightarrow> bool" where
  "holds_frame v s \<longleftrightarrow> (\<exists>p. av_slots s ! v = Some (AV_FRAME, Some p))"

definition frames_ok :: "nat \<Rightarrow> av_heap \<Rightarrow> bool" where
  "frames_ok n s \<longleftrightarrow> av_owned s \<and> length (av_slots s) = 3 + n \<and> av_is AV_FRAME 1 s \<and> av_slots s ! 2 = None \<and>
     (\<forall>v<3 + n. v \<noteq> 1 \<longrightarrow> av_slots s ! v = None \<or> holds_frame v s)"

text \<open>When the thread does this: with a frame of its own while it runs, into a free place, out of a full one.\<close>

fun frame_possible :: "nat \<Rightarrow> frame_event \<Rightarrow> av_heap \<Rightarrow> bool" where
  "frame_possible n (Worker_begins new) s \<longleftrightarrow> av_slots s ! 0 = None \<and> av_live s new = None"
| "frame_possible n (Decoded q new) s \<longleftrightarrow> holds_frame 0 s \<and> 3 \<le> q \<and> q < 3 + n \<and> av_slots s ! q = None \<and> av_live s new = None"
| "frame_possible n (Discarded new) s \<longleftrightarrow> holds_frame 0 s \<and> av_live s new = None"
| "frame_possible n (Shown q) s \<longleftrightarrow> 3 \<le> q \<and> q < 3 + n \<and> holds_frame q s"
| "frame_possible n (Worker_ends qs) s \<longleftrightarrow>
     holds_frame 0 s \<and> distinct qs \<and> (\<forall>v. v \<in> set qs \<longleftrightarrow> 3 \<le> v \<and> v < 3 + n \<and> holds_frame v s)"

lemma av_run_append: "av_run (as @ bs) s = rbind (av_run as s) (av_run bs)"
  by (induction as arbitrary: s) (auto simp: rbind_assoc intro!: rbind_cong)

lemma av_object_free_slots: "av_object_free k ob s = Inr s' \<Longrightarrow> av_slots s' = av_slots s"
  by (auto simp: av_object_free_def split: option.splits if_splits)

lemma destroy_all:
  "av_owned s \<Longrightarrow> distinct qs \<Longrightarrow> \<forall>q\<in>set qs. av_is k q s \<Longrightarrow>
     \<exists>s'. av_run (map (AvDestroy k) qs) s = Inr s' \<and> av_fits_all (map (AvDestroy k) qs) s \<and> av_owned s' \<and>
       length (av_slots s') = length (av_slots s) \<and> (\<forall>v. av_slots s' ! v = (if v \<in> set qs then None else av_slots s ! v))"
proof (induction qs arbitrary: s)
  case (Cons q qs)
  have i: "av_is k q s" using Cons.prems(3) by simp
  then obtain ob where ob: "av_get k q s = Inr ob" "av_slots s ! q = Some (k, ob)" "q < length (av_slots s)" by (rule av_isE)
  from av_step_owned [OF Cons.prems(1), of "AvDestroy k q"] i obtain s1 where s1: "av_destroy k q s = Inr s1" "av_owned s1" by auto
  have sl: "av_slots s1 = (av_slots s)[q := None]"
    using s1(1) by (auto simp: av_destroy_def rbind_eq_Inr dest: av_object_free_slots)
  have "\<forall>x\<in>set qs. av_is k x s1" using Cons.prems(2,3) by (auto simp: av_is_def sl nth_list_update)
  from Cons.IH [OF s1(2) _ this] Cons.prems(2) obtain s' where s': "av_run (map (AvDestroy k) qs) s1 = Inr s'"
    "av_fits_all (map (AvDestroy k) qs) s1" "av_owned s'" "length (av_slots s') = length (av_slots s1)"
    "\<forall>v. av_slots s' ! v = (if v \<in> set qs then None else av_slots s1 ! v)" by auto
  have "av_slots s' ! v = (if v \<in> set (q # qs) then None else av_slots s ! v)" for v
    using s'(5) ob(3) by (cases "v = q") (auto simp: sl)
  with s' s1(1) i sl show ?case by auto
qed simp

text \<open>
  Whatever the two threads do, one event after the other under \<open>frameLock\<close>, no frame is lost or freed twice, and between its rounds the
  worker has a frame for the codec; when it ends, every frame has been freed.
\<close>

lemma frame_event_ok:
  assumes ok: "frames_ok n s" and p: "frame_possible n ev s"
  shows "\<exists>s'. av_run (frame_program ev) s = Inr s' \<and> frames_ok n s' \<and>
    (case ev of Shown q \<Rightarrow> av_slots s' ! 1 = av_slots s ! q
     | Decoded q new \<Rightarrow> av_slots s' ! q = av_slots s ! 0 \<and> holds_frame 0 s'
     | Worker_ends qs \<Rightarrow> (\<forall>p. av_live s' p = None) | _ \<Rightarrow> holds_frame 0 s')"
proof -
  have o: "av_owned s" and len: "length (av_slots s) = 3 + n" and one: "av_is AV_FRAME 1 s" and two: "av_slots s ! 2 = None"
    and rest: "\<And>v. v < 3 + n \<Longrightarrow> v \<noteq> 1 \<Longrightarrow> av_slots s ! v = None \<or> holds_frame v s" using ok by (auto simp: frames_ok_def)
  obtain x where x: "av_slots s ! 1 = Some (AV_FRAME, x)" using one by (auto simp: av_is_def)
  note evs = av_new_def av_assign_def av_move_def av_unused_def av_get_def av_new_object_def av_free_slot_def av_is_def holds_frame_def
    nth_list_update
  show ?thesis
  proof (cases ev)
    case (Worker_begins new)
    have f: "av_fits_all (frame_program ev) s" using p len by (auto simp: Worker_begins evs)
    from av_run_owned [OF o f] obtain s' where s': "av_run (frame_program ev) s = Inr s'" "av_owned s'" by blast
    then have "av_slots s' = (av_slots s)[0 := Some (AV_FRAME, Some new)]" using p len by (auto simp: Worker_begins evs)
    with s' len one two rest show ?thesis by (auto simp: Worker_begins frames_ok_def evs)
  next
    case (Decoded q new)
    obtain a where a: "av_slots s ! 0 = Some (AV_FRAME, Some a)" using p by (auto simp: Decoded holds_frame_def)
    have q: "3 \<le> q" "q < 3 + n" "av_slots s ! q = None" "av_live s new = None" using p by (auto simp: Decoded)
    have ne: "q \<noteq> 0" "q \<noteq> 1" "q \<noteq> 2" using q(1) by auto
    have f: "av_fits_all (frame_program ev) s" using a q(2-4) ne len two by (auto simp: Decoded evs)
    from av_run_owned [OF o f] obtain s' where s': "av_run (frame_program ev) s = Inr s'" "av_owned s'" by blast
    then have "av_slots s' = (av_slots s)[2 := Some (AV_FRAME, Some new), 2 := Some (AV_FRAME, Some a), 0 := Some (AV_FRAME, Some new),
        q := Some (AV_FRAME, Some a), 2 := Some (AV_FRAME, None), 2 := None]"
      using a q(2-4) ne len two by (auto simp: Decoded evs av_destroy_def av_object_free_def)
    with s' len one two rest a ne q(2) show ?thesis by (auto simp: Decoded frames_ok_def evs)
  next
    case (Discarded new)
    obtain a where a: "av_slots s ! 0 = Some (AV_FRAME, Some a)" "av_live s new = None" using p by (auto simp: Discarded holds_frame_def)
    have f: "av_fits_all (frame_program ev) s" using a len two by (auto simp: Discarded evs)
    from av_run_owned [OF o f] obtain s' where s': "av_run (frame_program ev) s = Inr s'" "av_owned s'" by blast
    then have "av_slots s' = (av_slots s)[2 := Some (AV_FRAME, Some new), 2 := Some (AV_FRAME, Some a), 0 := Some (AV_FRAME, Some new), 2 := None]"
      using a len two by (auto simp: Discarded evs av_destroy_def rbind_eq_Inr dest: av_object_free_slots)
    with s' len one two rest show ?thesis by (auto simp: Discarded frames_ok_def evs)
  next
    case (Shown q)
    obtain a where a: "av_slots s ! q = Some (AV_FRAME, Some a)" "3 \<le> q" "q < 3 + n" using p by (auto simp: Shown holds_frame_def)
    have f: "av_fits_all (frame_program ev) s" using a len x by (auto simp: Shown evs)
    from av_run_owned [OF o f] obtain s' where s': "av_run (frame_program ev) s = Inr s'" "av_owned s'" by blast
    then have "av_slots s' = (av_slots s)[1 := Some (AV_FRAME, Some a), q := Some (AV_FRAME, x), q := None]"
      using a len x by (auto simp: Shown evs av_destroy_def rbind_eq_Inr dest: av_object_free_slots)
    with s' len two rest a show ?thesis by (auto simp: Shown frames_ok_def evs)
  next
    case (Worker_ends qs)
    have q: "distinct qs" "\<And>v. v \<in> set qs \<longleftrightarrow> 3 \<le> v \<and> v < 3 + n \<and> holds_frame v s" "holds_frame 0 s" using p by (auto simp: Worker_ends)
    have "\<forall>v\<in>set qs. av_is AV_FRAME v s" using q(2) len by (auto simp: evs)
    from destroy_all [OF o q(1) this] obtain s1 where s1: "av_run (map (AvDestroy AV_FRAME) qs) s = Inr s1"
      "av_fits_all (map (AvDestroy AV_FRAME) qs) s" "av_owned s1" "length (av_slots s1) = 3 + n"
      "\<And>v. av_slots s1 ! v = (if v \<in> set qs then None else av_slots s ! v)" using len by auto
    have z: "av_slots s1 ! 0 = av_slots s ! 0" "av_slots s1 ! 1 = av_slots s ! 1" using q(2) [of 0] q(2) [of 1] by (simp_all add: s1(5))
    have i: "av_is AV_FRAME 1 s1" using z(2) x s1(4) by (simp add: av_is_def)
    from av_step_owned [OF s1(3), of "AvReset AV_FRAME 1"] i obtain s2 where s2: "av_reset AV_FRAME 1 s1 = Inr s2" "av_owned s2" by auto
    have sl2: "av_slots s2 = (av_slots s1)[1 := Some (AV_FRAME, None)]"
      using s2(1) by (auto simp: av_reset_def rbind_eq_Inr av_set_def dest: av_object_free_slots)
    have i2: "av_is AV_FRAME 0 s2" using q(3) z(1) s1(4) by (auto simp: sl2 av_is_def holds_frame_def)
    from av_step_owned [OF s2(2), of "AvDestroy AV_FRAME 0"] i2 obtain s3 where s3: "av_destroy AV_FRAME 0 s2 = Inr s3" "av_owned s3" by auto
    have sl3: "av_slots s3 = (av_slots s2)[0 := None]"
      using s3(1) by (auto simp: av_destroy_def rbind_eq_Inr dest: av_object_free_slots)
    have "frames_ok n s3"
      using s3(2) s1(4,5) two rest q(2) by (auto simp: frames_ok_def sl3 sl2 av_is_def holds_frame_def nth_list_update)
    moreover have "av_run (frame_program ev) s = Inr s3" using s1(1) s2(1) s3(1) by (simp add: Worker_ends av_run_append)
    moreover have "av_slots s3 ! v \<noteq> Some (k, Some r)" if "v < length (av_slots s3)" for v k r
      using that s1(4,5) two rest [of v] q(2) [of v] by (cases "v = 0 \<or> v = 1 \<or> v = 2") (auto simp: sl3 sl2 nth_list_update)
    then have "av_live s3 r = None" for r by (rule av_no_leak [OF s3(2)])
    ultimately show ?thesis by (simp add: Worker_ends)
  qed
qed

text \<open>
  The picture that \<open>readSoftware\<close> has just returned a reference to does not outlive the worker: \<open>stop()\<close> makes \<open>run_\<close> end and free it
  while the reader may still be scaling it, since \<open>~StreamViewerD3D\<close> stops the decoder before it joins the render thread.
\<close>

lemma shown_frame_freed:
  assumes "frames_ok n s" and "frame_possible n (Shown q) s" and "av_slots s ! q = Some (AV_FRAME, Some p)"
    and "av_run (frame_program (Shown q)) s = Inr s1" and "frame_possible n (Worker_ends qs) s1"
  shows "av_live s1 p = Some AV_FRAME \<and> (\<exists>s2. av_run (frame_program (Worker_ends qs)) s1 = Inr s2 \<and> av_live s2 p = None)"
proof -
  from frame_event_ok [OF assms(1,2)] assms(3,4) have s1: "frames_ok n s1" "av_slots s1 ! 1 = Some (AV_FRAME, Some p)" by auto
  then have "av_live s1 p = Some AV_FRAME" by (intro av_owned_held [of s1 1]) (auto simp: frames_ok_def)
  with frame_event_ok [OF s1(1) assms(5)] show ?thesis by auto
qed

end
