(* ===== verification/Transmission.thy ===== *)
theory Transmission
  imports StreamServer StreamWindow
begin

text \<open>
  A stream from end to end: \<open>StreamServer::processOutput_\<close> and its audio callback broadcast what the encoders produce, the
  packets cross the sockets, and \<open>StreamClient::runRecv_\<close> hands them to \<open>StreamWindow::processNewPacket_\<close>, which gives
  the sent_pictures to the decoder and the sound to the audio queue. The theory composes the definitions of both ends with the
  framing of theory \<open>NetworkSocket\<close>.
\<close>

subsection \<open>The server's end\<close>

datatype stream_event = Picture "bytes frame_of" | Sound bytes

fun produce :: "('s, 'p, 'a) env \<Rightarrow> (int \<Rightarrow> u32) \<Rightarrow> stream_event list \<Rightarrow> ('s, 'p, 'a) system \<Rightarrow> ('s, 'p, 'a) system res" where
  "produce E to_float [] sys = Inr sys"
| "produce E to_float (Picture cap # es) sys = rbind (processOutput E to_float cap sys) (produce E to_float es)"
| "produce E to_float (Sound data # es) sys = rbind (onAudioData E data sys) (produce E to_float es)"

text \<open>What each client is sent.\<close>

fun stream_packets :: "(int \<Rightarrow> u32) \<Rightarrow> cursor_pos option \<Rightarrow> stream_event list \<Rightarrow> (packet \<times> bytes) list res" where
  "stream_packets to_float pos [] = Inr []"
| "stream_packets to_float pos (Picture cap # es) =
     rbind (output_packets to_float pos cap) (\<lambda>ps. rbind (stream_packets to_float (next_cursor pos cap) es) (\<lambda>qs. Inr (ps @ qs)))"
| "stream_packets to_float pos (Sound data # es) =
     rbind (stream_packets to_float pos es) (\<lambda>qs. Inr ((audio_packet data, data) # qs))"

text \<open>The calls on one client's socket; their results are ignored.\<close>

fun sends :: "'s proto \<Rightarrow> (packet \<times> bytes) list \<Rightarrow> 's socket \<Rightarrow> 's socket res" where
  "sends P [] sk = Inr sk"
| "sends P (m # ms) sk = rbind (send P (fst m) (Some (snd m)) sk) (\<lambda>(ok, sk1). sends P ms sk1)"

lemma sends_append: "sends P (ms @ ns) sk = rbind (sends P ms sk) (sends P ns)"
  by (induction ms arbitrary: sk) (auto simp: rbind_assoc intro!: rbind_cong)

definition sent_to :: "'s proto \<Rightarrow> (packet \<times> bytes) list \<Rightarrow> 's member \<Rightarrow> 's member \<Rightarrow> bool" where
  "sent_to P ps m m' \<longleftrightarrow> (\<exists>sk. sends P ps (sock (m_conn m)) = Inr sk \<and> m' = m\<lparr>m_conn := (m_conn m)\<lparr>sock := sk\<rparr>\<rparr>)"

lemma sent_to_nil [simp]: "sent_to P [] m m"
  by (simp add: sent_to_def)

lemma sent_to_append: "sent_to P ps m1 m2 \<Longrightarrow> sent_to P qs m2 m3 \<Longrightarrow> sent_to P (ps @ qs) m1 m3"
  by (auto simp: sent_to_def sends_append)

lemma list_all2_sent_append:
  "list_all2 (sent_to P ps) xs ys \<Longrightarrow> list_all2 (sent_to P qs) ys zs \<Longrightarrow> list_all2 (sent_to P (ps @ qs)) xs zs"
  by (rule list_all2_trans [of "sent_to P ps" "sent_to P qs"]) (auto intro: sent_to_append)

lemma broadcast_sent: "broadcast E p x ms = Inr ms' \<Longrightarrow> list_all2 (sent_to (proto_of E) [(p, x)]) ms ms'"
  by (induction ms arbitrary: ms') (auto simp: rbind_eq_Inr sent_to_def)

lemma broadcast_all_sent: "broadcast_all E ps ms = Inr ms' \<Longrightarrow> list_all2 (sent_to (proto_of E) ps) ms ms'"
proof (induction ps arbitrary: ms)
  case Nil
  then show ?case by (simp add: list_all2_same)
next
  case (Cons p ps)
  then obtain ms1 where b: "broadcast E (fst p) (snd p) ms = Inr ms1" and r: "broadcast_all E ps ms1 = Inr ms'" by auto
  from list_all2_sent_append [OF broadcast_sent [OF b] Cons.IH [OF r]] show ?case by simp
qed

text \<open>Every client's socket gets the same packets in the same order, those that are gone included.\<close>

lemma produce_sent:
  "produce E to_float es sys = Inr sys' \<Longrightarrow>
     \<exists>ps. stream_packets to_float (srv_cursorPos (srv sys)) es = Inr ps \<and> list_all2 (sent_to (proto_of E) ps) (connections sys) (connections sys')"
proof (induction E to_float es sys rule: produce.induct)
  case (1 E to_float sys)
  then show ?case by (simp add: list_all2_same)
next
  case (2 E to_float cap es sys)
  then obtain sys1 where o: "processOutput E to_float cap sys = Inr sys1" and r: "produce E to_float es sys1 = Inr sys'" by auto
  from o obtain ps where ps: "output_packets to_float (srv_cursorPos (srv sys)) cap = Inr ps"
    "broadcast_all E ps (connections sys) = Inr (connections sys1)" "srv_cursorPos (srv sys1) = next_cursor (srv_cursorPos (srv sys)) cap"
    by (auto simp: processOutput_def Let_def rbind_eq_Inr)
  from 2(1) [OF o r] obtain qs where "stream_packets to_float (srv_cursorPos (srv sys1)) es = Inr qs"
    "list_all2 (sent_to (proto_of E) qs) (connections sys1) (connections sys')" by blast
  with ps list_all2_sent_append [OF broadcast_all_sent [OF ps(2)]] show ?case by auto
next
  case (3 E to_float data es sys)
  then obtain sys1 where o: "onAudioData E data sys = Inr sys1" and r: "produce E to_float es sys1 = Inr sys'" by auto
  from o have b: "broadcast E (audio_packet data) data (connections sys) = Inr (connections sys1)" "srv sys1 = srv sys"
    by (auto simp: onAudioData_def rbind_eq_Inr)
  from 3(1) [OF o r] b(2) obtain qs where "stream_packets to_float (srv_cursorPos (srv sys)) es = Inr qs"
    "list_all2 (sent_to (proto_of E) qs) (connections sys1) (connections sys')" by auto
  with list_all2_sent_append [OF broadcast_sent [OF b(1)]] show ?case by auto
qed

subsection \<open>On the wire\<close>

text \<open>A packet that protobuf can serialise, behind a length of at most 16 bytes.\<close>

definition serialisable :: "'s proto \<Rightarrow> packet \<times> bytes \<Rightarrow> bool" where
  "serialisable P m \<longleftrightarrow> sendable P m \<and> SerializeToCodedStream P (fst m) \<noteq> None \<and> length (WriteVarint64 P (ByteSizeLong P (fst m))) \<le> 16"

lemma ssl_write_all_failed:
  assumes "ssl_write_all P d n sk = Inr (ok, sk')" and "\<not> ok \<or> \<not> connected sk"
  shows "\<not> connected sk'"
proof -
  from assms(1) obtain err answers out where
    "(case err of None \<Rightarrow> Inr (True, sk\<lparr>tls_answers := answers, tls_out := out\<rparr>)
      | Some r \<Rightarrow> Inr (False, reportDisconnected P r (sk\<lparr>tls_answers := answers, tls_out := out\<rparr>))) = (Inr (ok, sk') :: (bool \<times> 'a socket) res)"
    by (auto simp: ssl_write_all_def Let_def rbind_eq_Inr)
  with assms(2) show ?thesis by (cases err) auto
qed

lemma send_failed:
  assumes "serialisable P m" and "send P (fst m) x sk = Inr (ok, sk')" and "connected sk'"
  shows "ok"
proof (rule ccontr)
  assume "\<not> ok"
  moreover have "\<not> sz_sub (sz_add (ByteSizeLong P (fst m)) 16) (length (WriteVarint64 P (ByteSizeLong P (fst m)))) < ByteSizeLong P (fst m)"
    using assms(1) by (auto simp: serialisable_def sendable_def sz_sub_def sz_add_def SIZE_T_MOD_def)
  ultimately show False
    using assms by (auto simp: send_def Let_def serialisable_def rbind_eq_Inr error_quit_def split: option.splits if_splits
        dest: ssl_write_all_failed)
qed

lemma send_closed: "send P p x sk = Inr (ok, sk') \<Longrightarrow> \<not> connected sk \<Longrightarrow> \<not> connected sk'"
  by (auto simp: send_def Let_def rbind_eq_Inr error_quit_def split: option.splits if_splits dest!: ssl_write_all_failed)

lemma sends_closed: "sends P ms sk = Inr sk' \<Longrightarrow> \<not> connected sk \<Longrightarrow> \<not> connected sk'"
  by (induction ms arbitrary: sk) (auto simp: rbind_eq_Inr dest: send_closed)

text \<open>Who is still connected at the end missed nothing.\<close>

lemma sends_complete:
  "sends P ms sk = Inr sk' \<Longrightarrow> connected sk' \<Longrightarrow> \<forall>m\<in>set ms. serialisable P m \<Longrightarrow> send_seq P ms sk = Inr (True, sk')"
proof (induction ms arbitrary: sk)
  case (Cons m ms)
  then obtain ok sk1 where s: "send P (fst m) (Some (snd m)) sk = Inr (ok, sk1)" "sends P ms sk1 = Inr sk'" by auto
  then have "connected sk1" using sends_closed Cons.prems(2) by blast
  with send_failed [OF _ s(1)] Cons.prems(3) have ok by simp
  with s Cons.IH [OF s(2)] Cons.prems(2,3) show ?case by simp
qed simp

subsection \<open>The client's end\<close>

text \<open>
  \<open>runRecv_\<close>: one round for each element of \<open>ts\<close>, the readings of the clock in the handler, with \<open>onNextPacket\<close> bound to the
  window's \<open>processNewPacket_\<close>.
\<close>

fun runRecv :: "'s client_env \<Rightarrow> ('c, 'px) viewer_env \<Rightarrow> (int \<times> int \<times> int) list \<Rightarrow> bytes \<Rightarrow> 's client \<times> ('c, 'px) stream_window \<Rightarrow>
    (bytes \<times> 's client \<times> ('c, 'px) stream_window) res" where
  "runRecv C V [] d s = Inr (d, s)"
| "runRecv C V (t # ts) d (c, w) =
     rbind (recv_round C d c) (\<lambda>((p, d1), c1).
       (case p of
          None \<Rightarrow> Inr (d1, c1, w)
        | Some pkt \<Rightarrow> rbind (processNewPacket V t pkt d1 w) (\<lambda>w1. runRecv C V ts d1 (c1, w1))))"

text \<open>The handlers alone.\<close>

fun handle_all :: "('c, 'px) viewer_env \<Rightarrow> (int \<times> int \<times> int) list \<Rightarrow> (packet \<times> bytes) list \<Rightarrow> ('c, 'px) stream_window \<Rightarrow>
    ('c, 'px) stream_window res" where
  "handle_all V (t # ts) (m # ms) w = rbind (processNewPacket V t (fst m) (snd m) w) (handle_all V ts ms)"
| "handle_all V ts ms w = Inr w"

lemma handle_all_append:
  "length ts = length ms \<Longrightarrow> handle_all V (ts @ us) (ms @ ns) w = rbind (handle_all V ts ms w) (handle_all V us ns)"
  by (induction ts ms arbitrary: w rule: list_induct2) (auto simp: rbind_assoc intro!: rbind_cong)

text \<open>A packet without extra data leaves the buffer of the round before it, which no handler looks at.\<close>

lemma processNewPacket_buffer:
  "extra_data_len p = int (length ds) \<Longrightarrow> processNewPacket V t p (if ds = [] then d else ds) w = processNewPacket V t p ds w"
  by (auto simp: processNewPacket_def processDesktopFrame_def frame_push_def processCursorShape_def extra_bytes_def split: msg.splits)

lemma runRecv_handle_all:
  "coded_laws P cview ps \<Longrightarrow> fst ` set ms \<subseteq> ps \<Longrightarrow> \<forall>m\<in>set ms. sendable P m \<Longrightarrow> wire P ms = Some x \<Longrightarrow> ce_proto C = P \<Longrightarrow>
     length ts = length ms \<Longrightarrow> connected (cl_conn c) \<Longrightarrow> cview (next_stream (cl_conn c)) = (x @ rest, None) \<Longrightarrow>
     handle_all V ts ms w = Inr w' \<Longrightarrow>
     \<exists>d' c'. runRecv C V ts d (c, w) = Inr (d', c', w') \<and> connected (cl_conn c') \<and> cview (next_stream (cl_conn c')) = (rest, None)"
proof (induction ms arbitrary: ts d c w x)
  case Nil
  then show ?case by auto
next
  case (Cons m ms)
  obtain p ds where m: "m = (p, ds)" by (cases m)
  from Cons.prems(6) obtain t us where ts: "ts = t # us" "length us = length ms" by (cases ts) auto
  from Cons.prems(4) obtain ser v where ser: "SerializeToCodedStream P p = Some ser" "wire P ms = Some v"
    "x = frame P p ser ds @ v" by (auto simp: m split: option.splits)
  have p: "p \<in> ps" "sendable P (p, ds)" using Cons.prems(2,3) by (auto simp: m)
  have view: "cview (next_stream (cl_conn c)) = (frame P p ser ds @ v @ rest, None)" using Cons.prems(8) ser(3) by simp
  let ?d = "if ds = [] then d else ds"
  from recv_frame [OF Cons.prems(1) p ser(1) Cons.prems(7) view, of d] obtain sk1 where
    sk1: "recv P (Some d) (cl_conn c) = Inr ((Some p, Some ?d), sk1)" "connected sk1" "cview (next_stream sk1) = (v @ rest, None)" by blast
  from Cons.prems(9) ts m obtain w1 where w1: "processNewPacket V t p ds w = Inr w1" "handle_all V us ms w1 = Inr w'" by auto
  have "processNewPacket V t p ?d w = Inr w1" 
    using processNewPacket_buffer [of p ds V t d w] p(2) w1(1) by (simp add: sendable_def del: if_split)
  then have r: "runRecv C V ts d (c, w) = runRecv C V us ?d (c\<lparr>cl_conn := sk1\<rparr>, w1)"
    using sk1(1) Cons.prems(5) by (simp add: ts recv_round_def client_recv_def)
  from Cons.IH [OF Cons.prems(1) _ _ ser(2) Cons.prems(5) ts(2) _ _ w1(2), of "c\<lparr>cl_conn := sk1\<rparr>" ?d] Cons.prems(2,3) sk1(2,3) r
  show ?case by auto
qed

subsection \<open>The clock\<close>

text \<open>
  Bounds under which the corrections do not overflow: readings of the steady clock below \<open>2 ^ 60\<close> nanoseconds, over 36 years after the
  machine was started, and time stamps below that many as well.
\<close>

definition reading_ok :: "int \<times> int \<times> int \<Rightarrow> bool" where
  "reading_ok ts \<longleftrightarrow> (case ts of (t1, t2, t3) \<Rightarrow> {t1, t2, t3} \<subseteq> {0..<2 ^ 60})"

definition clock_ok :: "network_clock \<Rightarrow> bool" where
  "clock_ok c \<longleftrightarrow> \<bar>nc_epoch c\<bar> \<le> 2 ^ 61"

definition stamp_ok :: "int \<Rightarrow> bool" where
  "stamp_ok h \<longleftrightarrow> 0 \<le> h \<and> h * 1000 < 2 ^ 60"

lemma c_div_1000: "\<bar>c_div x 1000 * 1000 - x\<bar> < 1000"
proof -
  have "\<bar>x\<bar> = \<bar>x\<bar> div 1000 * 1000 + \<bar>x\<bar> mod 1000" "0 \<le> \<bar>x\<bar> mod 1000" "\<bar>x\<bar> mod 1000 < 1000" by simp_all
  then have "\<bar>\<bar>x\<bar> div 1000 * 1000 - \<bar>x\<bar>\<bar> < 1000" by linarith
  then show ?thesis by (cases x "0 :: int" rule: linorder_cases) (auto simp: c_div_def)
qed

lemma nc_time_ok: "clock_ok c \<Longrightarrow> 0 \<le> t \<Longrightarrow> t < 2 ^ 60 \<Longrightarrow> nc_time t c = Inr (c_div (t - nc_epoch c) 1000)"
  by (auto simp: nc_time_def clock_ok_def i64_def fits64_def)

lemma monotonicHint_ok:
  assumes "clock_ok c" and "0 \<le> t1" "t1 < 2 ^ 60" "0 \<le> t2" "t2 < 2 ^ 60" and "stamp_ok h"
  shows "\<exists>c'. monotonicHint t1 t2 h c = Inr c' \<and> clock_ok c'"
proof (cases "h \<le> c_div (t1 - nc_epoch c) 1000")
  case True
  with assms show ?thesis by (simp add: monotonicHint_def nc_time_ok)
next
  case False
  let ?a = "c_div (t2 - nc_epoch c) 1000"
  have a: "\<bar>?a * 1000 - (t2 - nc_epoch c)\<bar> < 1000" by (rule c_div_1000)
  have e: "\<bar>nc_epoch c\<bar> \<le> 2 ^ 61" "0 \<le> h" "h * 1000 < 2 ^ 60" using assms by (auto simp: clock_ok_def stamp_ok_def)
  have f: "fits64 (h - ?a)" "fits64 ((h - ?a) * 1000)" "fits64 (nc_epoch c - (h - ?a) * 1000)"
    and b: "\<bar>nc_epoch c - (h - ?a) * 1000\<bar> \<le> 2 ^ 61"
    using a e assms(4,5) by (auto simp: fits64_def)
  then have "monotonicHint t1 t2 h c = Inr (c\<lparr>nc_epoch := nc_epoch c - (h - ?a) * 1000\<rparr>)"
    using assms False by (simp add: monotonicHint_def nc_time_ok i64_def wrap64_id)
  with b show ?thesis by (simp add: clock_ok_def)
qed

subsection \<open>What arrives\<close>

text \<open>
  The specification. A picture is shown with the last known position of the cursor; the sound is the chunks as they are. A frame that
  arrives is the frame that was sent, up to the client's own time stamps.
\<close>

definition cursor_hidden :: cursor_pos where
  "cursor_hidden = \<lparr>cp_visible = False, cp_x = -1, cp_y = -1\<rparr>"

definition cursor_shown :: "cursor_pos option \<Rightarrow> cursor_pos" where
  "cursor_shown pos = (case pos of None \<Rightarrow> cursor_hidden | Some p \<Rightarrow> if cp_visible p then p else cursor_hidden)"

fun sent_pictures :: "cursor_pos option \<Rightarrow> stream_event list \<Rightarrow> bytes frame_of list" where
  "sent_pictures pos [] = []"
| "sent_pictures pos (Picture cap # es) = cap\<lparr>cursorPos := Some (cursor_shown (next_cursor pos cap))\<rparr> # sent_pictures (next_cursor pos cap) es"
| "sent_pictures pos (Sound data # es) = sent_pictures pos es"

fun sent_sounds :: "stream_event list \<Rightarrow> bytes list" where
  "sent_sounds [] = []"
| "sent_sounds (Picture cap # es) = sent_sounds es"
| "sent_sounds (Sound data # es) = data # sent_sounds es"

definition arrived_as :: "bytes frame_of \<Rightarrow> bytes frame_of \<Rightarrow> bool" where
  "arrived_as cap fr \<longleftrightarrow> (\<exists>now. fr = cap\<lparr>timeReceived := now, timeDecoded := -1, timePresented := -1\<rparr>)"

text \<open>Time stamps in range, and hotspots that the two conversions between \<open>int\<close> and \<open>float\<close> preserve, as they do up to \<open>2 ^ 24\<close>.\<close>

fun event_ok :: "('c, 'px) viewer_env \<Rightarrow> (int \<Rightarrow> u32) \<Rightarrow> stream_event \<Rightarrow> bool" where
  "event_ok V to_float (Picture cap) \<longleftrightarrow> fits64 (timeCaptured cap) \<and> stamp_ok (timeEncoded cap) \<and>
     (case cursorShape cap of None \<Rightarrow> True
      | Some sh \<Rightarrow> ve_of_float V (to_float (cs_hotspotX sh)) = cs_hotspotX sh \<and> ve_of_float V (to_float (cs_hotspotY sh)) = cs_hotspotY sh)"
| "event_ok V to_float (Sound data) \<longleftrightarrow> True"

lemma sint_word_of_int: "fits64 x \<Longrightarrow> sint (word_of_int x :: u64) = x"
  by (simp add: sint_sbintrunc' signed_take_bit_int_eq_self fits64_def)

lemma frame_arrives:
  assumes "event_ok V to_float (Picture cap)" and "m = (case body (fst (desktop_packet pos cap)) of DesktopFrameMsg x \<Rightarrow> x | _ \<Rightarrow> undefined)"
  shows "arrived_as (cap\<lparr>cursorPos := Some (cursor_shown pos)\<rparr>) (frame_of_packet m (desktop cap) now (cursorShape cap))"
proof -
  have "fits64 (timeEncoded cap)" using assms(1) by (auto simp: stamp_ok_def fits64_def)
  with assms show ?thesis
    by (cases cap; cases pos)
      (auto simp: arrived_as_def frame_of_packet_def frame_init_def desktop_packet_def sint_word_of_int cursor_shown_def cursor_hidden_def
        intro!: exI [of _ now] cursor_pos.equality)
qed

text \<open>The viewer of a window that is receiving: its stream has started and no cursor shape waits for a picture.\<close>

definition receiving :: "('c, 'px) stream_window \<Rightarrow> bool" where
  "receiving w \<longleftrightarrow> flagStreamStarted (sw_viewer w) \<and> pendingCursorChange (sw_viewer w) = None \<and> clock_ok (sw_clock w)"

lemma handle_shape:
  assumes "cursor_packet to_float sh = Inr q" and "event_ok V to_float (Picture cap)" and "cursorShape cap = Some sh"
  shows "processNewPacket V t (fst q) (snd q) w = Inr (w\<lparr>sw_viewer := (sw_viewer w)\<lparr>pendingCursorChange := Some sh\<rparr>\<rparr>)"
  using assms
  by (cases "cs_format sh")
    (auto simp: cursor_packet_def processNewPacket_def processCursorShape_def extra_bytes_def shape_of_packet_def error_quit_def
      intro!: cursor_shape.equality)

lemma handle_picture:
  assumes "flagStreamStarted (sw_viewer w)" "clock_ok (sw_clock w)" "pendingCursorChange (sw_viewer w) = cursorShape cap"
    and "reading_ok t" and "event_ok V to_float (Picture cap)"
  shows "\<exists>w' fr. processNewPacket V t (fst (desktop_packet pos cap)) (snd (desktop_packet pos cap)) w = Inr w' \<and> receiving w' \<and>
    arrived_as (cap\<lparr>cursorPos := Some (cursor_shown pos)\<rparr>) fr \<and> decoder_of (sw_viewer w') = df_pushData fr (decoder_of (sw_viewer w)) \<and>
    audioData w' = audioData w \<and> flagPlayAudio w' = flagPlayAudio w"
proof -
  obtain t1 t2 t3 where t: "t = (t1, t2, t3)" by (cases t)
  have r: "0 \<le> t1" "t1 < 2 ^ 60" "0 \<le> t2" "t2 < 2 ^ 60" "0 \<le> t3" "t3 < 2 ^ 60" using assms(4) by (auto simp: reading_ok_def t)
  obtain m where m: "body (fst (desktop_packet pos cap)) = DesktopFrameMsg m" "df_time_encoded m = word_of_int (timeEncoded cap)"
    "extra_data_len (fst (desktop_packet pos cap)) = int (length (desktop cap))" "snd (desktop_packet pos cap) = desktop cap"
    by (simp add: desktop_packet_def case_prod_beta)
  have s: "stamp_ok (timeEncoded cap)" "fits64 (timeEncoded cap)" using assms(5) by (auto simp: stamp_ok_def fits64_def)
  then have e: "sint (df_time_encoded m) = timeEncoded cap" using m(2) by (simp add: sint_word_of_int)
  from monotonicHint_ok [OF assms(2) r(1-4) s(1)] obtain clk where
    h: "monotonicHint t1 t2 (timeEncoded cap) (sw_clock w) = Inr clk" "clock_ok clk" by blast
  let ?now = "c_div (t3 - nc_epoch clk) 1000"
  let ?fr = "frame_of_packet m (desktop cap) ?now (cursorShape cap)"
  have n: "nc_time t3 clk = Inr ?now" by (rule nc_time_ok [OF h(2) r(5,6)])
  let ?w = "w\<lparr>sw_clock := clk, sw_viewer := (sw_viewer w)\<lparr>flagStreamStarted := True, pendingCursorChange := None,
      vw_pipeline := dp_pushData ?fr (vw_pipeline (sw_viewer w))\<rparr>\<rparr>"
  have "processNewPacket V t (fst (desktop_packet pos cap)) (snd (desktop_packet pos cap)) w = Inr ?w"
    using assms(1,3) m h(1) n e
    by (simp add: processNewPacket_def processDesktopFrame_def frame_exchange_def frame_push_def extra_bytes_def t)
  moreover have "arrived_as (cap\<lparr>cursorPos := Some (cursor_shown pos)\<rparr>) ?fr" by (rule frame_arrives [OF assms(5)]) (simp add: m(1))
  moreover have "receiving ?w" using h(2) by (simp add: receiving_def)
  ultimately show ?thesis by (intro exI [of _ ?w] exI [of _ ?fr]) (simp add: dp_pushData_def)
qed

lemma handle_sound:
  "processNewPacket V t (audio_packet data) data w = Inr (if flagPlayAudio w then w\<lparr>audioData := audioData w @ [data]\<rparr> else w)"
  by (simp add: processNewPacket_def audio_packet_def extra_bytes_def)

text \<open>One event after the other, in packets.\<close>

lemma handle_event_shape:
  assumes "receiving w" and "event_ok V to_float (Picture cap)" and "output_packets to_float pos cap = Inr ps"
  shows "\<exists>qs w1. ps = qs @ [desktop_packet (next_cursor pos cap) cap] \<and>
    (\<forall>us. length us = length qs \<longrightarrow> handle_all V us qs w = Inr w1) \<and>
    w1 = w\<lparr>sw_viewer := (sw_viewer w)\<lparr>pendingCursorChange := cursorShape cap\<rparr>\<rparr>"
proof (cases "cursorShape cap")
  case None
  then have "w = w\<lparr>sw_viewer := (sw_viewer w)\<lparr>pendingCursorChange := cursorShape cap\<rparr>\<rparr>" using assms(1) by (simp add: receiving_def)
  with None assms(3) show ?thesis by (intro exI [of _ "[]"] exI [of _ w]) (simp add: output_packets_def)
next
  case (Some sh)
  with assms(3) obtain q where q: "cursor_packet to_float sh = Inr q" "ps = [q] @ [desktop_packet (next_cursor pos cap) cap]"
    by (auto simp: output_packets_def rbind_eq_Inr)
  with handle_shape [OF q(1) assms(2) Some] Some show ?thesis
    by (intro exI [of _ "[q]"] exI [of _ "w\<lparr>sw_viewer := (sw_viewer w)\<lparr>pendingCursorChange := cursorShape cap\<rparr>\<rparr>"])
      (auto simp: length_Suc_conv)
qed

lemma handle_all_events:
  "receiving w \<Longrightarrow> \<forall>e\<in>set es. event_ok V to_float e \<Longrightarrow> stream_packets to_float pos es = Inr ps \<Longrightarrow> length ts = length ps \<Longrightarrow>
     \<forall>t\<in>set ts. reading_ok t \<Longrightarrow>
     \<exists>w' frs. handle_all V ts ps w = Inr w' \<and> list_all2 arrived_as (sent_pictures pos es) frs \<and>
       decoder_of (sw_viewer w') = fold df_pushData frs (decoder_of (sw_viewer w)) \<and>
       audioData w' = audioData w @ (if flagPlayAudio w then sent_sounds es else [])"
proof (induction es arbitrary: pos ps ts w)
  case Nil
  then show ?case by auto
next
  case (Cons ev es)
  show ?case
  proof (cases ev)
    case (Picture cap)
    let ?pos = "next_cursor pos cap"
    from Cons.prems(3) Picture obtain as qs where ps: "output_packets to_float pos cap = Inr as" "stream_packets to_float ?pos es = Inr qs"
      "ps = as @ qs" by (auto simp: rbind_eq_Inr)
    have ok: "event_ok V to_float (Picture cap)" using Cons.prems(2) Picture by auto
    from handle_event_shape [OF Cons.prems(1) ok ps(1)] obtain bs w1 where bs: "as = bs @ [desktop_packet ?pos cap]"
      "\<And>us. length us = length bs \<Longrightarrow> handle_all V us bs w = Inr w1"
      "w1 = w\<lparr>sw_viewer := (sw_viewer w)\<lparr>pendingCursorChange := cursorShape cap\<rparr>\<rparr>" by blast
    obtain us t vs where ts: "ts = us @ t # vs" "length us = length bs" "length vs = length qs"
    proof (rule that [of "take (length bs) ts" "ts ! length bs" "drop (Suc (length bs)) ts"])
    qed (use Cons.prems(4) ps(3) bs(1) in \<open>auto simp: id_take_nth_drop [symmetric]\<close>)
    have r: "reading_ok t" "\<forall>t\<in>set vs. reading_ok t" using Cons.prems(5) ts(1) by auto
    have st: "flagStreamStarted (sw_viewer w1)" "clock_ok (sw_clock w1)" "pendingCursorChange (sw_viewer w1) = cursorShape cap"
      using Cons.prems(1) by (simp_all add: bs(3) receiving_def)
    from handle_picture [OF st r(1) ok, of ?pos] obtain w2 fr where
      w2: "processNewPacket V t (fst (desktop_packet ?pos cap)) (snd (desktop_packet ?pos cap)) w1 = Inr w2" "receiving w2"
      "arrived_as (cap\<lparr>cursorPos := Some (cursor_shown ?pos)\<rparr>) fr" "decoder_of (sw_viewer w2) = df_pushData fr (decoder_of (sw_viewer w1))"
      "audioData w2 = audioData w1" "flagPlayAudio w2 = flagPlayAudio w1" by blast
    have "\<forall>e\<in>set es. event_ok V to_float e" using Cons.prems(2) by simp
    from Cons.IH [OF w2(2) this ps(2) ts(3) r(2)] obtain w' frs where rest: "handle_all V vs qs w2 = Inr w'"
      "list_all2 arrived_as (sent_pictures ?pos es) frs" "decoder_of (sw_viewer w') = fold df_pushData frs (decoder_of (sw_viewer w2))"
      "audioData w' = audioData w2 @ (if flagPlayAudio w2 then sent_sounds es else [])" by blast
    have "handle_all V ts ps w = Inr w'"
      using handle_all_append [OF ts(2), of V "t # vs" "desktop_packet ?pos cap # qs" w] bs(2) [OF ts(2)] w2(1) rest(1)
      by (simp add: ps(3) bs(1) ts(1))
    moreover have "list_all2 arrived_as (sent_pictures pos (ev # es)) (fr # frs)" using Picture w2(3) rest(2) by simp
    ultimately show ?thesis using Picture rest(3,4) w2(4,5,6) bs(3) by (intro exI [of _ w'] exI [of _ "fr # frs"]) simp
  next
    case (Sound data)
    from Cons.prems(3) Sound obtain qs where ps: "stream_packets to_float pos es = Inr qs" "ps = (audio_packet data, data) # qs"
      by (auto simp: rbind_eq_Inr)
    with Cons.prems(4) obtain t vs where ts: "ts = t # vs" "length vs = length qs" by (cases ts) auto
    let ?w = "if flagPlayAudio w then w\<lparr>audioData := audioData w @ [data]\<rparr> else w"
    have "receiving ?w" using Cons.prems(1) by (simp add: receiving_def)
    from Cons.IH [OF this _ ps(1) ts(2)] Cons.prems(2,5) ts(1) obtain w' frs where rest: "handle_all V vs qs ?w = Inr w'"
      "list_all2 arrived_as (sent_pictures pos es) frs" "decoder_of (sw_viewer w') = fold df_pushData frs (decoder_of (sw_viewer ?w))"
      "audioData w' = audioData ?w @ (if flagPlayAudio ?w then sent_sounds es else [])" by auto
    then show ?thesis using Sound by (intro exI [of _ w'] exI [of _ frs]) (auto simp: ps(2) ts(1) handle_sound)
  qed
qed

subsection \<open>Property\<close>

text \<open>C3: a stream arrives. Whatever the encoders produced, a client that the server has not disconnected by then, and that reads what
  was put on its socket, gives the decoder every picture, in order, each once, with its data, its key frame flag and the server's time
  stamps, with the cursor's last known position and with its own cursor shape, and queues every piece of sound, in order; no step of the
  client fails, and nothing of what follows on the socket is consumed.\<close>

theorem stream_arrives:
  assumes "produce E to_float es sys = Inr sys'" and "stream_packets to_float (srv_cursorPos (srv sys)) es = Inr ps"
    and "i < length (connections sys)" and "connected (sock (m_conn (connections sys' ! i)))"
    and "\<forall>m\<in>set ps. serialisable (proto_of E) m" and "coded_laws (proto_of E) cview (fst ` set ps)"
    and "ce_proto C = proto_of E" and "connected (cl_conn c)"
    and "cview (next_stream (cl_conn c)) =
      (drop (length (tls_out (sock (m_conn (connections sys ! i))))) (tls_out (sock (m_conn (connections sys' ! i)))) @ rest, None)"
    and "receiving w" and "\<forall>e\<in>set es. event_ok V to_float e" and "length ts = length ps" and "\<forall>t\<in>set ts. reading_ok t"
  shows "\<exists>d' c' w' frs. runRecv C V ts d (c, w) = Inr (d', c', w') \<and> cview (next_stream (cl_conn c')) = (rest, None) \<and>
    list_all2 arrived_as (sent_pictures (srv_cursorPos (srv sys)) es) frs \<and>
    decoder_of (sw_viewer w') = fold df_pushData frs (decoder_of (sw_viewer w)) \<and>
    audioData w' = audioData w @ (if flagPlayAudio w then sent_sounds es else [])"
proof -
  from produce_sent [OF assms(1)] assms(2) have "list_all2 (sent_to (proto_of E) ps) (connections sys) (connections sys')" by auto
  then have "sent_to (proto_of E) ps (connections sys ! i) (connections sys' ! i)" using assms(3) by (simp add: list_all2_conv_all_nth)
  then have "sends (proto_of E) ps (sock (m_conn (connections sys ! i))) = Inr (sock (m_conn (connections sys' ! i)))"
    by (auto simp: sent_to_def)
  from send_seq_wire [OF sends_complete [OF this assms(4,5)]] obtain x where x: "wire (proto_of E) ps = Some x"
    "tls_out (sock (m_conn (connections sys' ! i))) = tls_out (sock (m_conn (connections sys ! i))) @ x" by blast
  from handle_all_events [OF assms(10,11,2,12,13)] obtain w' frs where h: "handle_all V ts ps w = Inr w'"
    "list_all2 arrived_as (sent_pictures (srv_cursorPos (srv sys)) es) frs"
    "decoder_of (sw_viewer w') = fold df_pushData frs (decoder_of (sw_viewer w))"
    "audioData w' = audioData w @ (if flagPlayAudio w then sent_sounds es else [])" by blast
  have "\<forall>m\<in>set ps. sendable (proto_of E) m" using assms(5) by (simp add: serialisable_def)
  from runRecv_handle_all [OF assms(6) subset_refl this x(1) assms(7,12,8) _ h(1), of rest d] assms(9) x(2) h(2-4)
  show ?thesis by auto
qed

subsection \<open>A sample stream\<close>

definition stream_shape :: cursor_shape where
  "stream_shape = \<lparr>cs_width = 1, cs_height = 1, cs_hotspotX = 2, cs_hotspotY = 3, cs_format = CS_RGBA_XOR, cs_image = [9, 8, 7, 6]\<rparr>"

definition stream_picture :: "bytes frame_of" where
  "stream_picture = (frame_init [1, 2])\<lparr>cursorPos := Some \<lparr>cp_visible = True, cp_x = 5, cp_y = 6\<rparr>, cursorShape := Some stream_shape,
     timeCaptured := 3, timeEncoded := 4, isIDR := True\<rparr>"

definition stream_events :: "stream_event list" where
  "stream_events = [Picture stream_picture, Sound [7]]"

definition stream_sample :: "(packet \<times> bytes) list" where
  "stream_sample = (case stream_packets word_of_int None stream_events of Inr ps \<Rightarrow> ps | Inl e \<Rightarrow> [])"

definition stream_env :: "((bytes \<times> bytes option), bool, bool) env" where
  "stream_env = \<lparr>proto_of = sample_proto (map fst stream_sample), crypto_of = sample_crypto, media_of = onoff_media,
     sha512 = (\<lambda>_. (0, [])), sha384 = (\<lambda>_. (0, [])), drbg = (\<lambda>_. (0, [])), typed_line = (\<lambda>_. None), cert_not_trusted = 8,
     cert_missing = 64, clients_fmt = (\<lambda>k v. v), clients_writable = True, git_commit = []\<rparr>"

definition stream_socket :: "int list \<Rightarrow> bytes \<times> bytes option \<Rightarrow> (bytes \<times> bytes option) socket" where
  "stream_socket answers input = \<lparr>connected = True, has_onDisconnected = False, disconnect_events = [], tls_answers = answers, tls_out = [],
     inputStream = None, incoming = input, peer_cert = None, verify_flags = 0, expectedRemoteCerts = []\<rparr>"

definition stream_system :: "(bytes \<times> bytes option, bool, bool) system" where
  "stream_system = (system_init (sample_server True))\<lparr>connections :=
     [\<lparr>m_id = 0, m_phase = Looping, m_data = [], m_conn = conn_new (stream_socket [5, 4, 5, 2, 5, 1] ([], None))\<rparr>]\<rparr>"

definition stream_client_env :: "(bytes \<times> bytes option) client_env" where
  "stream_client_env = \<lparr>ce_proto = proto_of stream_env, ce_crypto = sample_crypto, ce_sha512 = (\<lambda>_. (0, [])), ce_sha384 = (\<lambda>_. (0, [])),
     ce_drbg = (0, 0, []), ce_git_commit = [], ce_not_trusted = 8, ce_missing = 64, ce_setup = \<lparr>st_seed = 0, st_defaults = 0,
     st_net_connect = 0, st_ssl_setup = 0, st_handshake = 0\<rparr>, ce_now = 0\<rparr>"

definition stream_sample_window :: "(int list, nat) stream_window" where
  "stream_sample_window = \<lparr>sw_clock = nc_new 0 0, sw_viewer = sample_viewer\<lparr>flagStreamStarted := True\<rparr>, flagPlayAudio = True,
     flagPinBoxClosed = False, audioThread = Idle, audioData = [], sw_signals = []\<rparr>"

lemma stream_sample_eq:
  "stream_packets word_of_int None stream_events = Inr stream_sample"
  "stream_sample = [(\<lparr>extra_data_len = 4, body = CursorShapeMsg \<lparr>cm_format = RGBA_XOR, cm_width = 1, cm_height = 1, cm_hotspot_x = 2,
       cm_hotspot_y = 3\<rparr>\<rparr>, [9, 8, 7, 6]),
     (\<lparr>extra_data_len = 2, body = DesktopFrameMsg \<lparr>df_cursor_visible = True, df_cursor_x = 5, df_cursor_y = 6, df_is_idr = True,
       df_time_captured = 3, df_time_encoded = 4\<rparr>\<rparr>, [1, 2]),
     (\<lparr>extra_data_len = 1, body = AudioFrame 2 False\<rparr>, [7])]"
  by (simp_all add: stream_sample_def stream_events_def stream_picture_def stream_shape_def output_packets_def cursor_packet_def
      next_cursor_def desktop_packet_def audio_packet_def frame_init_def)

lemma stream_system_produce:
  "\<exists>sys' m. produce stream_env word_of_int stream_events stream_system = Inr sys' \<and> connections sys' = [m] \<and> connected (sock (m_conn m)) \<and>
    \<not> authorized (m_conn m)"
  by (simp add: stream_events_def processOutput_def onAudioData_def stream_picture_def stream_shape_def output_packets_def cursor_packet_def
      next_cursor_def desktop_packet_def audio_packet_def frame_init_def stream_system_def system_init_def sample_server_def conn_new_def
      send_def sz_of_int_def sample_proto_def ssl_write_all_def stream_socket_def four_bytes_def position_def SIZE_T_MOD_def
      sz_add_def sz_sub_def stream_env_def stream_sample_eq(2) Let_def rbind_def)

theorem stream_arrives_witness:
  "\<exists>sys' m d' c' w' fr. produce stream_env word_of_int stream_events stream_system = Inr sys' \<and> connections sys' = [m] \<and> \<not> authorized (m_conn m) \<and>
     runRecv stream_client_env sample_viewer_env (replicate 3 (5000, 5000, 6000)) []
       (client_new (stream_socket [] (tls_out (sock (m_conn m)), None)) [], stream_sample_window) = Inr (d', c', w') \<and>
     decoder_of (sw_viewer w') = df_pushData fr (decoder_of sample_viewer) \<and> desktop fr = [1, 2] \<and> cursorShape fr = Some stream_shape \<and>
     audioData w' = [[7]]"
proof -
  obtain sys' m where p: "produce stream_env word_of_int stream_events stream_system = Inr sys'" "connections sys' = [m]"
    "connected (sock (m_conn m))" "\<not> authorized (m_conn m)" using stream_system_produce by blast
  let ?c = "client_new (stream_socket [] (tls_out (sock (m_conn m)), None)) []"
  have pos: "srv_cursorPos (srv stream_system) = None" by (simp add: stream_system_def system_init_def sample_server_def)
  have s: "stream_packets word_of_int (srv_cursorPos (srv stream_system)) stream_events = Inr stream_sample"
    using stream_sample_eq(1) by (simp add: pos)
  have i: "0 < length (connections stream_system)" by (simp add: stream_system_def)
  have ser: "\<forall>m\<in>set stream_sample. serialisable (proto_of stream_env) m"
    by (auto simp: serialisable_def sendable_def stream_env_def sample_proto_def stream_sample_eq(2) four_bytes_def)
  have laws: "coded_laws (proto_of stream_env) (\<lambda>s. s) (fst ` set stream_sample)"
    using sample_laws [of "map fst stream_sample"] by (simp add: stream_env_def stream_sample_eq(2))
  have view: "next_stream (cl_conn ?c) = (drop (length (tls_out (sock (m_conn (connections stream_system ! 0)))))
      (tls_out (sock (m_conn (connections sys' ! 0)))) @ [], None)"
    using p(2) by (simp add: client_new_def stream_socket_def next_stream_def stream_system_def conn_new_def)
  have w: "receiving stream_sample_window"
    by (simp add: receiving_def stream_sample_window_def sample_viewer_def clock_ok_def nc_new_def)
  have ok: "\<forall>e\<in>set stream_events. event_ok sample_viewer_env word_of_int e"
    by (simp add: stream_events_def stream_picture_def stream_shape_def sample_viewer_env_def stamp_ok_def fits64_def frame_init_def)
  have len: "length (replicate 3 (5000 :: int, 5000 :: int, 6000 :: int)) = length stream_sample" by (simp add: stream_sample_eq(2))
  have r: "\<forall>t\<in>set (replicate 3 (5000, 5000, 6000)). reading_ok t" by (simp add: reading_ok_def)
  have c: "ce_proto stream_client_env = proto_of stream_env" "connected (cl_conn ?c)" "connected (sock (m_conn (connections sys' ! 0)))"
    using p(2,3) by (simp_all add: stream_client_env_def client_new_def stream_socket_def)
  from stream_arrives [OF p(1) s i c(3) ser laws c(1,2) view w ok len r, of "[]"] obtain d' c' w' frs where
    f: "runRecv stream_client_env sample_viewer_env (replicate 3 (5000, 5000, 6000)) [] (?c, stream_sample_window) = Inr (d', c', w')"
    "list_all2 arrived_as (sent_pictures None stream_events) frs"
    "decoder_of (sw_viewer w') = fold df_pushData frs (decoder_of (sw_viewer stream_sample_window))"
    "audioData w' = audioData stream_sample_window @ (if flagPlayAudio stream_sample_window then sent_sounds stream_events else [])"
    unfolding pos by blast
  from f(2) obtain fr where fr: "frs = [fr]" "arrived_as (stream_picture\<lparr>cursorPos := Some (cursor_shown (next_cursor None stream_picture))\<rparr>) fr"
    by (auto simp: stream_events_def list_all2_Cons1)
  have "desktop fr = [1, 2]" "cursorShape fr = Some stream_shape"
    using fr(2) by (auto simp: arrived_as_def stream_picture_def frame_init_def)
  with p f fr(1) show ?thesis by (auto simp: stream_sample_window_def stream_events_def)
qed

end
