(* ===== verification/Negotiation.thy ===== *)
theory Negotiation
  imports Pairing
begin

text \<open>
  \<open>StreamClient::doIntro_\<close> against the handlers of \<open>Connection\<close>, for a client that the server already knows: four requests
  and their answers over the lossless channel of theory \<open>Pairing\<close>, after which the stream runs.
\<close>

subsection \<open>Requests and answers\<close>

lemma request_grows: "request E p c = Inr (r, c') \<Longrightarrow> grows (cl_conn c) (cl_conn c')"
  by (auto simp: request_def rbind_eq_Inr split: if_splits dest!: client_send_grows client_recv_grows intro: grows_trans)

lemma recv_without_buffer:
  assumes "recv P (Some d) sk = Inr ((Some p, e), sk')" and "extra_data_len p = 0"
  shows "recv P None sk = Inr ((Some p, None), sk')"
proof -
  have x: "recv_extra P q None s sk1 = Inr ((Some p, None), sk2)" if "recv_extra P q (Some d) s sk1 = Inr ((Some p, e), sk2)" for q s sk1 sk2
    using that assms(2) by (cases "q = p") (auto simp: recv_extra_def Let_def rbind_eq_Inr split: prod.splits if_splits)
  show ?thesis
    using assms(1) by (auto simp: recv_def recv_from_def Let_def split: option.splits prod.splits if_splits intro: x)
qed

text \<open>A request, by how much of the answer can be read.\<close>

lemma request_talk:
  assumes w: "good_wire (ce_proto E) cview ps" and p: "p \<in> ps" "carries p []" and q: "request E p c = Inr (r, c1)"
    and t: "talking cview (cl_conn c) out rest"
  shows "tls_out (cl_conn c1) = out @ enc (ce_proto E) p []"
    and "rest = enc (ce_proto E) a [] @ tl9 \<Longrightarrow> a \<in> ps \<Longrightarrow> carries a [] \<Longrightarrow>
      r = Some a \<and> (\<exists>sk. c1 = c\<lparr>cl_conn := sk\<rparr> \<and> talking cview sk (out @ enc (ce_proto E) p []) tl9)"
proof -
  from q obtain ok0 c0 where s: "client_send E p None c = Inr (ok0, c0)" by (auto simp: request_def rbind_eq_Inr)
  from client_send_talk [OF w p _ t s] obtain sk0 where s0: "ok0" "c0 = c\<lparr>cl_conn := sk0\<rparr>"
    "talking cview sk0 (out @ enc (ce_proto E) p []) rest" by auto
  from q s s0(1) obtain x where rc: "client_recv E None c0 = Inr ((r, x), c1)" by (auto simp: request_def rbind_eq_Inr)
  then obtain sk1 where sk1: "recv (ce_proto E) None sk0 = Inr ((r, x), sk1)" "c1 = c0\<lparr>cl_conn := sk1\<rparr>"
    by (auto simp: client_recv_def rbind_eq_Inr s0(2))
  from recv_keeps [OF sk1(1)] s0(3) show "tls_out (cl_conn c1) = out @ enc (ce_proto E) p []" by (simp add: sk1(2) talking_def)
  assume a: "rest = enc (ce_proto E) a [] @ tl9" "a \<in> ps" "carries a []"
  from talk_recv_step [OF w a(2,3) s0(3) [unfolded a(1)], of "[]"] obtain sk2 where
    k: "recv (ce_proto E) (Some []) sk0 = Inr ((Some a, Some []), sk2)" "talking cview sk2 (out @ enc (ce_proto E) p []) tl9" by auto
  have "extra_data_len a = 0" using a(3) by (simp add: carries_def)
  from recv_without_buffer [OF k(1) this] sk1 k(2) s0(2)
  show "r = Some a \<and> (\<exists>sk. c1 = c\<lparr>cl_conn := sk\<rparr> \<and> talking cview sk (out @ enc (ce_proto E) p []) tl9)" by auto
qed

text \<open>
  The state of a conversation in which it is the client's turn: \<open>c\<close> and \<open>sc\<close> are the two ends now, \<open>fc\<close> and \<open>fs\<close> at the end,
  and each will have read what the other will have written.
\<close>

definition turn :: "('s \<Rightarrow> bytes \<times> bytes option) \<Rightarrow> 's socket \<Rightarrow> 's socket \<Rightarrow> 's socket \<Rightarrow> 's socket \<Rightarrow> bool" where
  "turn cview c sc fc fs \<longleftrightarrow> (\<exists>out outs x y. talking cview c out y \<and> talking cview sc outs x \<and> tls_out fc = out @ x \<and> tls_out fs = outs @ y)"

text \<open>
  One request, one round of the server's thread, one answer. \<open>handled\<close> says what the handler leaves behind (\<open>c0\<close> and \<open>s0\<close>)
  before it answers with \<open>m\<close>.
\<close>

lemma exchange:
  assumes w: "good_wire (proto_of S) cview ps" "ce_proto E = proto_of S"
    and p: "reply q \<in> ps" "request E (reply q) c = Inr (r, c1)" "grows (cl_conn c1) fc"
    and t: "turn cview (cl_conn c) (sock sc) fc (sock fs)"
    and rounds: "run_rounds S (Suc n) (d, sc, s) = Inr (d', fs, s')"
    and handled: "\<And>sk st. dispatch S (reply q) d (sc\<lparr>sock := sk\<rparr>, s) = Inr st \<Longrightarrow>
      \<exists>m c0 s0. reply m \<in> ps \<and> Q m c0 s0 \<and> respond S m (c0\<lparr>sock := sk\<rparr>, s0) = Inr st"
  shows "\<exists>m c0 s0 skc sks. Q m c0 s0 \<and> r = Some (reply m) \<and> c1 = c\<lparr>cl_conn := skc\<rparr> \<and>
    run_rounds S n (d, c0\<lparr>sock := sks\<rparr>, s0) = Inr (d', fs, s') \<and> turn cview skc sks fc (sock fs)"
proof -
  let ?P = "proto_of S"
  from t obtain out outs x y where t: "talking cview (cl_conn c) out y" "talking cview (sock sc) outs x"
    "tls_out fc = out @ x" "tls_out (sock fs) = outs @ y" by (auto simp: turn_def)
  have car: "carries (reply m) []" for m by (simp add: carries_def reply_def)
  have wc: "good_wire (ce_proto E) cview ps" using w by simp
  note req = request_talk [OF wc p(1) car p(2) t(1), unfolded w(2)]
  from req(1) p(3) t(3) obtain x1 where x: "x = enc ?P (reply q) [] @ x1" by (auto simp: grows_def)
  have "connected (sock sc)" using t(2) by (simp add: talking_def)
  with rounds obtain st1 where r1: "run_round S (d, sc, s) = Inr st1" "run_rounds S n st1 = Inr (d', fs, s')" by auto
  obtain d1 sc1 s1 where st1: "st1 = (d1, sc1, s1)" by (cases st1) auto
  from server_round_talk [OF w(1) p(1) car t(2) [unfolded x] r1(1) [unfolded st1]] obtain sk where
    k: "talking cview sk outs x1" "d1 = d" "dispatch S (reply q) d (sc\<lparr>sock := sk\<rparr>, s) = Inr (sc1, s1)" by auto
  from handled [OF k(3)] obtain m c0 s0 where m: "reply m \<in> ps" "Q m c0 s0" "respond S m (c0\<lparr>sock := sk\<rparr>, s0) = Inr (sc1, s1)" by blast
  from respond_talk [OF w(1) m(1) _ m(3)] k(1) obtain sks where
    a: "sc1 = c0\<lparr>sock := sks\<rparr>" "s1 = s0" "talking cview sks (outs @ enc ?P (reply m) []) x1" by auto
  from run_rounds_grows [OF r1(2)] a(1,3) t(4) obtain y1 where y: "y = enc ?P (reply m) [] @ y1"
    by (auto simp: grows_def st1 talking_def)
  from req(2) [OF y m(1) car] obtain skc where c: "r = Some (reply m)" "c1 = c\<lparr>cl_conn := skc\<rparr>"
    "talking cview skc (out @ enc ?P (reply q) []) y1" by blast
  have "turn cview skc sks fc (sock fs)" unfolding turn_def
    by (intro exI conjI, rule c(3), rule a(3)) (simp_all add: t(3,4) x y)
  with m(2) c(1,2) r1(2) a(1,2) k(2) st1 show ?thesis by blast
qed

text \<open>The same when the answer does not depend on what the handler meets.\<close>

lemma exchange_to:
  assumes "good_wire (proto_of S) cview ps" "ce_proto E = proto_of S"
    and "reply q \<in> ps" "request E (reply q) c = Inr (r, c1)" "grows (cl_conn c1) fc"
    and "turn cview (cl_conn c) (sock sc) fc (sock fs)"
    and "run_rounds S (Suc n) (d, sc, s) = Inr (d', fs, s')"
    and "\<And>sk st. dispatch S (reply q) d (sc\<lparr>sock := sk\<rparr>, s) = Inr st \<Longrightarrow> respond S m (c0\<lparr>sock := sk\<rparr>, s0) = Inr st"
    and "reply m \<in> ps"
  shows "r = Some (reply m)"
    and "\<exists>skc sc1. c1 = c\<lparr>cl_conn := skc\<rparr> \<and> authorized sc1 = authorized c0 \<and> conn_streaming sc1 = conn_streaming c0 \<and>
      run_rounds S n (d, sc1, s0) = Inr (d', fs, s') \<and> turn cview (cl_conn c1) (sock sc1) fc (sock fs)"
proof -
  from exchange [OF assms(1-7), where Q = "\<lambda>m' c0' s0'. m' = m \<and> c0' = c0 \<and> s0' = s0"] assms(8,9)
  obtain skc sks where x: "r = Some (reply m)" "c1 = c\<lparr>cl_conn := skc\<rparr>" "run_rounds S n (d, c0\<lparr>sock := sks\<rparr>, s0) = Inr (d', fs, s')"
    "turn cview skc sks fc (sock fs)" by metis
  from x(1) show "r = Some (reply m)" .
  from x show "\<exists>skc sc1. c1 = c\<lparr>cl_conn := skc\<rparr> \<and> authorized sc1 = authorized c0 \<and> conn_streaming sc1 = conn_streaming c0 \<and>
      run_rounds S n (d, sc1, s0) = Inr (d', fs, s') \<and> turn cview (cl_conn c1) (sock sc1) fc (sock fs)"
    by (intro exI [of _ skc] exI [of _ "c0\<lparr>sock := sks\<rparr>"]) simp
qed

subsection \<open>The messages\<close>

definition hello_request :: "'s client_env \<Rightarrow> msg" where
  "hello_request E = ClientIntro \<lparr>ci_protocol_version = CLIENT_PROTOCOL_VERSION, ci_commit_name = ce_git_commit E\<rparr>"

definition hello_answer :: "('s, 'p, 'a) env \<Rightarrow> msg" where
  "hello_answer S = ServerIntro \<lparr>si_protocol_version = PROTOCOL_VERSION, si_commit_name = git_commit S, si_status = INTRO_OK\<rparr>"

definition caps_answer :: "int \<Rightarrow> int \<Rightarrow> rational \<Rightarrow> host_caps" where
  "caps_answer w h fps = host_caps_init\<lparr>hc_native_width := w, hc_native_height := h, hc_native_fps_num := num fps, hc_native_fps_den := den fps,
     hc_status := CAPS_OK, hc_max_height := 16384, hc_max_width := 16384, hc_max_fps_num := num fps, hc_max_fps_den := den fps\<rparr>"

definition mode_request :: "int \<Rightarrow> int \<Rightarrow> rational \<Rightarrow> msg" where
  "mode_request w h fps = ConfigureStreamRequest \<lparr>cr_codec = H264_BASELINE, cr_width = w, cr_height = h, cr_fps_num = num fps, cr_fps_den = den fps\<rparr>"

definition mode_answer :: "int \<Rightarrow> int \<Rightarrow> int \<Rightarrow> int \<Rightarrow> configure_response" where
  "mode_answer cw ch w h = configure_response_init\<lparr>cs_status := CONFIG_OK, cs_capture_width := cw, cs_capture_height := ch,
     cs_video_width := w, cs_video_height := h\<rparr>"

definition intro_packets :: "'s client_env \<Rightarrow> ('s, 'p, 'a) env \<Rightarrow> int \<Rightarrow> int \<Rightarrow> rational \<Rightarrow> int \<Rightarrow> int \<Rightarrow> packet list" where
  "intro_packets E S w h fps cw ch = map reply
     [hello_request E, hello_answer S, QueryHostCapsRequest H264_BASELINE, QueryHostCapsResponse (caps_answer w h fps),
      mode_request w h fps, ConfigureStreamResponse (mode_answer cw ch w h),
      StartStreamRequest, StartStreamResponse START_OK, StartStreamResponse START_UNKNOWN]"

text \<open>What the server's capture pipeline says about the screen, when asked for the native mode and then for the resolution.\<close>

definition screen_is :: "('p, 'a) media \<Rightarrow> ('p, 'a) server \<Rightarrow> int \<Rightarrow> int \<Rightarrow> rational \<Rightarrow> int \<Rightarrow> int \<Rightarrow> bool" where
  "screen_is M s w h fps cw ch \<longleftrightarrow> 0 < w \<and> 0 < h \<and> 0 < num fps \<and> 0 < den fps \<and>
     (\<exists>s1 s2. getNativeMode M s = Inr ((w, h, fps), s1) \<and> getCaptureResolution M (configureStream w h fps s1) = Inr ((cw, ch), s2))"

subsection \<open>The server's half\<close>

lemma sock_last:
  "c\<lparr>sock := sk, authState := a\<rparr> = c\<lparr>authState := a, sock := sk\<rparr>"
  "c\<lparr>sock := sk, conn_streaming := b\<rparr> = c\<lparr>conn_streaming := b, sock := sk\<rparr>"
  by (cases c; simp)+

lemma hello_handled:
  assumes "dispatch S (reply (hello_request E)) d (sc\<lparr>sock := sk\<rparr>, s) = Inr st" and "authorized sc"
  shows "respond S (hello_answer S) (sc\<lparr>authState := None, sock := sk\<rparr>, s) = Inr st"
  using assms by (simp add: dispatch_def hello_request_def hello_answer_def msg_clientIntro_def reply_def PROTOCOL_VERSION_def
      CLIENT_PROTOCOL_VERSION_def sock_last)

lemma caps_handled:
  assumes "dispatch S (reply (QueryHostCapsRequest H264_BASELINE)) d (sc\<lparr>sock := sk\<rparr>, s) = Inr st" and "authorized sc"
    and "getNativeMode (media_of S) s = Inr ((w, h, fps), s1)"
  shows "respond S (QueryHostCapsResponse (caps_answer w h fps)) (sc\<lparr>authState := None, sock := sk\<rparr>, s1) = Inr st"
  using assms by (simp add: dispatch_def msg_queryHostCapsRequest_def reply_def caps_answer_def sock_last Let_def)

lemma mode_handled:
  assumes "dispatch S (reply (mode_request w h fps)) d (sc\<lparr>sock := sk\<rparr>, s1) = Inr st" and "authorized sc" and "\<not> conn_streaming sc"
    and "0 < w" "0 < h" "0 < num fps" "0 < den fps"
    and "getCaptureResolution (media_of S) (configureStream w h fps s1) = Inr ((cw, ch), s2)"
  shows "respond S (ConfigureStreamResponse (mode_answer cw ch w h)) (sc\<lparr>authState := None, sock := sk\<rparr>, s2) = Inr st"
proof -
  have f: "rational_new (num fps) (den fps) = Inr fps" using assms(6,7) by (simp add: rational_new_def)
  have "requestedWidth s2 = w" "requestedHeight s2 = h"
    using assms(8) by (auto simp: getCaptureResolution_def configureStream_def rbind_eq_Inr)
  with assms f show ?thesis
    by (simp add: dispatch_def mode_request_def msg_configureStreamRequest_def reply_def mode_answer_def getVideoResolution_def sock_last Let_def)
qed

lemma start_handled:
  assumes "dispatch S (reply StartStreamRequest) d (sc\<lparr>sock := sk\<rparr>, s2) = Inr st" and "authorized sc"
  shows "\<exists>ok s3. startStream (media_of S) s2 = Inr (ok, s3) \<and>
    respond S (StartStreamResponse (if ok then START_OK else START_UNKNOWN))
      ((if ok then sc\<lparr>authState := None, conn_streaming := True\<rparr> else sc\<lparr>authState := None\<rparr>)\<lparr>sock := sk\<rparr>, s3) = Inr st"
proof -
  from assms have r: "rbind (startStream (media_of S) s2) (\<lambda>(ok, s3).
      respond S (StartStreamResponse (if ok then START_OK else START_UNKNOWN))
        (if ok then sc\<lparr>authState := None, conn_streaming := True, sock := sk\<rparr> else sc\<lparr>authState := None, sock := sk\<rparr>, s3)) = Inr st"
    by (simp add: dispatch_def msg_startStreamRequest_def reply_def Let_def sock_last cong: if_cong)
  then obtain ok s3 where "startStream (media_of S) s2 = Inr (ok, s3)" by (auto simp: rbind_eq_Inr)
  with r show ?thesis by (intro exI [of _ ok] exI [of _ s3]) (cases ok; simp)
qed

lemma startStream_state:
  "startStream M s2 = Inr (ok, s3) \<Longrightarrow> ok = (\<not> srv_streaming s2) \<and> srv_streaming s3 \<and> requestedWidth s3 = requestedWidth s2 \<and>
     requestedHeight s3 = requestedHeight s2 \<and> requestedFramerate s3 = requestedFramerate s2"
  by (auto simp: startStream_def rbind_eq_Inr split: if_splits)

subsection \<open>The client's half\<close>

lemma intro_start_after:
  assumes "intro_start E p c = Inr (r, c')"
  shows "\<exists>q. request E (p\<lparr>body := StartStreamRequest\<rparr>) c = Inr (q, c')"
proof -
  from assms obtain q c1 where q: "request E (p\<lparr>body := StartStreamRequest\<rparr>) c = Inr (q, c1)" by (auto simp: intro_start_def rbind_eq_Inr)
  with assms show ?thesis by (auto simp: intro_start_def error_quit_def split: option.splits)
qed

lemma intro_configure_after:
  assumes "intro_configure E p hc c = Inr (r, c')" and "request E (p\<lparr>body := mode_request (hc_native_width hc) (hc_native_height hc)
      \<lparr>num = hc_native_fps_num hc, den = hc_native_fps_den hc\<rparr>\<rparr>) c = Inr (q, c1)"
  shows "cl_conn c' = cl_conn c1"
  using assms by (auto simp: intro_configure_def mode_request_def error_quit_def split: option.splits config_status.splits)

lemma intro_caps_after:
  assumes "intro_caps E p c = Inr (r, c')" and "request E (p\<lparr>body := QueryHostCapsRequest H264_BASELINE\<rparr>) c = Inr (q, c1)"
  shows "c' = c1"
  using assms by (auto simp: intro_caps_def error_quit_def split: option.splits if_splits)

lemma intro_start_grows: "intro_start E p c = Inr (r, c') \<Longrightarrow> grows (cl_conn c) (cl_conn c')"
  using intro_start_after [of E p c r c'] by (auto dest: request_grows)

lemma intro_configure_grows:
  assumes "intro_configure E p hc c = Inr (r, c')"
  shows "grows (cl_conn c) (cl_conn c')"
proof -
  from assms obtain q c1 where q: "request E (p\<lparr>body := mode_request (hc_native_width hc) (hc_native_height hc)
      \<lparr>num = hc_native_fps_num hc, den = hc_native_fps_den hc\<rparr>\<rparr>) c = Inr (q, c1)"
    by (auto simp: intro_configure_def mode_request_def rbind_eq_Inr)
  from request_grows [OF q] intro_configure_after [OF assms q] show ?thesis by simp
qed

text \<open>What follows the answer about the capabilities, and the whole of \<open>intro_stream\<close>.\<close>

definition intro_later :: "'s client_env \<Rightarrow> (packet \<times> host_caps) option \<Rightarrow> 's client \<Rightarrow> (bool \<times> 's client) res" where
  "intro_later E r c = (case r of
      None \<Rightarrow> Inr (False, c)
    | Some (p, hostcaps) \<Rightarrow> rbind (intro_configure E p hostcaps c) (\<lambda>(r2, c2). case r2 of None \<Rightarrow> Inr (False, c2) | Some p2 \<Rightarrow> intro_start E p2 c2))"

lemma intro_stream_later: "intro_stream E p c = rbind (intro_caps E p c) (\<lambda>(r, c1). intro_later E r c1)"
  by (simp add: intro_stream_def intro_later_def)

lemma configured_grows:
  assumes "(case r2 of None \<Rightarrow> Inr (False, c2) | Some p2 \<Rightarrow> intro_start E p2 c2) = Inr (ok, c')"
  shows "grows (cl_conn c2) (cl_conn c')"
  using assms by (cases r2) (auto dest: intro_start_grows)

lemma intro_later_grows:
  assumes "intro_later E r c = Inr (ok, c')"
  shows "grows (cl_conn c) (cl_conn c')"
proof (cases r)
  case None
  with assms show ?thesis by (simp add: intro_later_def)
next
  case (Some x)
  with assms obtain r2 c2 where "intro_configure E (fst x) (snd x) c = Inr (r2, c2)"
    "(case r2 of None \<Rightarrow> Inr (False, c2) | Some p2 \<Rightarrow> intro_start E p2 c2) = Inr (ok, c')"
    by (cases x) (auto simp: intro_later_def rbind_eq_Inr)
  from grows_trans [OF intro_configure_grows [OF this(1)] configured_grows [OF this(2)]] show ?thesis .
qed

lemma intro_stream_grows:
  assumes "intro_stream E p c = Inr (ok, c')"
  shows "grows (cl_conn c) (cl_conn c')"
proof -
  from assms obtain r c1 where c1: "intro_caps E p c = Inr (r, c1)" "intro_later E r c1 = Inr (ok, c')"
    by (auto simp: intro_stream_later rbind_eq_Inr)
  from c1(1) obtain q c0 where q: "request E (p\<lparr>body := QueryHostCapsRequest H264_BASELINE\<rparr>) c = Inr (q, c0)"
    by (auto simp: intro_caps_def rbind_eq_Inr)
  from grows_trans [OF request_grows [OF q]] intro_caps_after [OF c1(1) q] intro_later_grows [OF c1(2)] show ?thesis by simp
qed

lemma auth_open_grows:
  assumes "auth_open E n sc c = Inr (ok, c')"
  shows "grows (cl_conn c) (cl_conn c')"
  using assms
  by (auto simp: auth_open_def rbind_eq_Inr Let_def split: if_splits prod.splits dest!: client_send_grows client_recv_grows intro: grows_trans)

lemma doAuth_grows:
  assumes "doAuth E host c = Inr (ok, host', c')"
  shows "grows (cl_conn c) (cl_conn c')"
proof -
  from assms obtain n sc pl ok1 c1 where o: "auth_open E n sc c = Inr (ok1, c1)"
    "(if \<not> ok1 then Inr (False, host, c1) else auth_rest E n sc pl host c1) = Inr (ok, host', c')"
    by (auto simp: doAuth_def rbind_eq_Inr split: prod.splits)
  have "grows (cl_conn c1) (cl_conn c')" using o(2) by (cases ok1) (auto dest: auth_rest_grows)
  with auth_open_grows [OF o(1)] show ?thesis by (rule grows_trans)
qed

definition after_hello :: "'s client_env \<Rightarrow> host_entry \<Rightarrow> (packet \<times> bool) option \<Rightarrow> 's client \<Rightarrow> (bool \<times> host_entry \<times> 's client) res" where
  "after_hello E host r c = (case r of
      None \<Rightarrow> Inr (False, host, c)
    | Some (pkt, authRequired) \<Rightarrow>
        rbind (if authRequired then doAuth E host c else Inr (True, host, c)) (\<lambda>(ok, host', c2).
          if \<not> ok then Inr (False, host', c2) else rbind (intro_stream E pkt c2) (\<lambda>(good, c3). Inr (good, host', c3))))"

lemma doIntro_later: "doIntro E host f c = rbind (intro_hello E f c) (\<lambda>(r, c1). after_hello E host r c1)"
  by (simp add: doIntro_def after_hello_def)

lemma after_hello_grows:
  assumes "after_hello E host r c = Inr (ok, host', c')"
  shows "grows (cl_conn c) (cl_conn c')"
proof (cases r)
  case None
  with assms show ?thesis by (simp add: after_hello_def)
next
  case (Some x)
  obtain pkt au where x: "x = (pkt, au)" by (cases x)
  with Some assms obtain ok1 h1 c2 where a: "(if au then doAuth E host c else Inr (True, host, c)) = Inr (ok1, h1, c2)"
    "(if \<not> ok1 then Inr (False, h1, c2) else rbind (intro_stream E pkt c2) (\<lambda>(good, c3). Inr (good, h1, c3))) = Inr (ok, host', c')"
    by (auto simp: after_hello_def rbind_eq_Inr)
  have "grows (cl_conn c) (cl_conn c2)" using a(1) by (cases au) (auto dest: doAuth_grows)
  moreover have "grows (cl_conn c2) (cl_conn c')" using a(2) by (cases ok1) (auto simp: rbind_eq_Inr dest: intro_stream_grows)
  ultimately show ?thesis by (rule grows_trans)
qed

lemma intro_hello_after:
  assumes "intro_hello E f c = Inr (r, c')" and "request E (reply (hello_request E)) c = Inr (q, c1)"
  shows "c' = c1"
  using assms by (auto simp: intro_hello_def hello_request_def error_quit_def split: option.splits intro_status.splits)

text \<open>The client's steps, one answer after the other.\<close>

lemma client_after_hello:
  assumes "intro_hello E False c = Inr (r1, c1)" and "after_hello E host r1 c1 = Inr (ok, host', c')"
    and "request E (reply (hello_request E)) c = Inr (Some (reply (hello_answer S)), c1)"
  shows "\<exists>q2 r2 c2. host' = host \<and> request E (reply (QueryHostCapsRequest H264_BASELINE)) c1 = Inr (q2, c2) \<and>
    intro_caps E (reply (hello_answer S)) c1 = Inr (r2, c2) \<and> intro_later E r2 c2 = Inr (ok, c')"
proof -
  have "r1 = Some (reply (hello_answer S), False)" using assms(1,3)
    by (auto simp: intro_hello_def hello_request_def hello_answer_def server_intro_of_def reply_def)
  with assms(2) obtain r2 c2 where c: "host' = host" "intro_caps E (reply (hello_answer S)) c1 = Inr (r2, c2)" "intro_later E r2 c2 = Inr (ok, c')"
    by (auto simp: after_hello_def intro_stream_later rbind_eq_Inr)
  then obtain q2 c2' where "request E (reply (QueryHostCapsRequest H264_BASELINE)) c1 = Inr (q2, c2')"
    by (auto simp: intro_caps_def rbind_eq_Inr reply_def)
  with intro_caps_after [OF c(2), of q2 c2'] c show ?thesis by (auto simp: reply_def)
qed

lemma client_after_caps:
  assumes "intro_caps E (reply m) c1 = Inr (r2, c2)" and "intro_later E r2 c2 = Inr (ok, c')"
    and "request E (reply (QueryHostCapsRequest H264_BASELINE)) c1 = Inr (Some (reply (QueryHostCapsResponse (caps_answer w h fps))), c2)"
  shows "\<exists>q3 r3 c3 c3'. request E (reply (mode_request w h fps)) c2 = Inr (q3, c3') \<and> cl_conn c3 = cl_conn c3' \<and>
    intro_configure E (reply (QueryHostCapsResponse (caps_answer w h fps))) (caps_answer w h fps) c2 = Inr (r3, c3) \<and>
    (case r3 of None \<Rightarrow> Inr (False, c3) | Some p2 \<Rightarrow> intro_start E p2 c3) = Inr (ok, c')"
proof -
  let ?a = "reply (QueryHostCapsResponse (caps_answer w h fps))"
  have "r2 = Some (?a, caps_answer w h fps)" using assms(1,3)
    by (auto simp: intro_caps_def reply_def host_caps_of_def caps_answer_def)
  with assms(2) obtain r3 c3 where c: "intro_configure E ?a (caps_answer w h fps) c2 = Inr (r3, c3)"
    "(case r3 of None \<Rightarrow> Inr (False, c3) | Some p2 \<Rightarrow> intro_start E p2 c3) = Inr (ok, c')"
    by (auto simp: intro_later_def rbind_eq_Inr)
  have m: "?a\<lparr>body := mode_request (hc_native_width (caps_answer w h fps)) (hc_native_height (caps_answer w h fps))
      \<lparr>num = hc_native_fps_num (caps_answer w h fps), den = hc_native_fps_den (caps_answer w h fps)\<rparr>\<rparr> = reply (mode_request w h fps)"
    by (simp add: reply_def caps_answer_def mode_request_def)
  from c(1) obtain q3 c3' where q: "request E (reply (mode_request w h fps)) c2 = Inr (q3, c3')"
    by (auto simp: intro_configure_def rbind_eq_Inr reply_def caps_answer_def mode_request_def)
  with intro_configure_after [OF c(1), of q3 c3'] m c show ?thesis by auto
qed

lemma client_after_mode:
  assumes "intro_configure E (reply m) (caps_answer w h fps) c2 = Inr (r3, c3)"
    and "(case r3 of None \<Rightarrow> Inr (False, c3) | Some p2 \<Rightarrow> intro_start E p2 c3) = Inr (ok, c')"
    and "request E (reply (mode_request w h fps)) c2 = Inr (Some (reply (ConfigureStreamResponse (mode_answer cw ch w h))), c3')"
  shows "\<exists>q4. c3 = c3'\<lparr>captureWidth := cw, captureHeight := ch, videoWidth := w, videoHeight := h\<rparr> \<and>
    request E (reply StartStreamRequest) c3 = Inr (q4, c') \<and> ok = (case q4 of None \<Rightarrow> False | Some p \<Rightarrow> start_status_of p = Some START_OK)"
proof -
  let ?a = "reply (ConfigureStreamResponse (mode_answer cw ch w h))"
  have r: "r3 = Some ?a" "c3 = c3'\<lparr>captureWidth := cw, captureHeight := ch, videoWidth := w, videoHeight := h\<rparr>" using assms(1,3)
    by (auto simp: intro_configure_def reply_def caps_answer_def mode_request_def configure_response_of_def mode_answer_def)
  with assms(2) have i: "intro_start E ?a c3 = Inr (ok, c')" by simp
  from intro_start_after [OF this] obtain q4 where q: "request E (reply StartStreamRequest) c3 = Inr (q4, c')" by (auto simp: reply_def)
  with i have "ok = (case q4 of None \<Rightarrow> False | Some p \<Rightarrow> start_status_of p = Some START_OK)"
    by (auto simp: intro_start_def reply_def error_quit_def split: option.splits)
  with q r(2) show ?thesis by blast
qed

subsection \<open>The last two exchanges\<close>

lemma start_exchange:
  assumes w: "good_wire (proto_of S) cview ps" "ce_proto E = proto_of S"
    and ps: "reply StartStreamRequest \<in> ps" "reply (StartStreamResponse START_OK) \<in> ps" "reply (StartStreamResponse START_UNKNOWN) \<in> ps"
    and q: "request E (reply StartStreamRequest) c3 = Inr (q4, c')"
    and k: "authorized sc3" "\<not> conn_streaming sc3" "run_rounds S (Suc 0) (data, sc3, s2) = Inr (data', sc', s')"
      "turn cview (cl_conn c3) (sock sc3) (cl_conn c') (sock sc')"
  shows "\<exists>good skc. startStream (media_of S) s2 = Inr (good, s') \<and> q4 = Some (reply (StartStreamResponse (if good then START_OK else START_UNKNOWN))) \<and>
    c' = c3\<lparr>cl_conn := skc\<rparr> \<and> authorized sc' \<and> conn_streaming sc' = good"
proof -
  let ?Q = "\<lambda>m c0 s0. \<exists>good. startStream (media_of S) s2 = Inr (good, s0) \<and> m = StartStreamResponse (if good then START_OK else START_UNKNOWN) \<and>
      authorized c0 \<and> conn_streaming c0 = good"
  have d4: "\<exists>m c0 s0. reply m \<in> ps \<and> ?Q m c0 s0 \<and> respond S m (c0\<lparr>sock := sk\<rparr>, s0) = Inr st"
    if d: "dispatch S (reply StartStreamRequest) data (sc3\<lparr>sock := sk\<rparr>, s2) = Inr st" for sk st
  proof -
    from start_handled [OF d k(1)] obtain good s3 where x: "startStream (media_of S) s2 = Inr (good, s3)"
      "respond S (StartStreamResponse (if good then START_OK else START_UNKNOWN))
        ((if good then sc3\<lparr>authState := None, conn_streaming := True\<rparr> else sc3\<lparr>authState := None\<rparr>)\<lparr>sock := sk\<rparr>, s3) = Inr st" by blast
    show ?thesis
      by (rule exI, rule exI, rule exI, rule conjI [OF _ conjI [OF _ x(2)]])
        (use ps(2,3) x(1) k(1,2) in \<open>auto split: if_splits\<close>)
  qed
  from exchange [OF w ps(1) q grows_refl k(4,3) d4] obtain good m c0 s0 skc sks where x4:
    "startStream (media_of S) s2 = Inr (good, s0)" "m = StartStreamResponse (if good then START_OK else START_UNKNOWN)" "authorized c0" "conn_streaming c0 = good"
    "q4 = Some (reply m)" "c' = c3\<lparr>cl_conn := skc\<rparr>" "run_rounds S 0 (data, c0\<lparr>sock := sks\<rparr>, s0) = Inr (data', sc', s')" by blast
  then show ?thesis by auto
qed

lemma mode_and_start:
  assumes w: "good_wire (proto_of S) cview ps" "ce_proto E = proto_of S"
    and ps: "reply (mode_request w h fps) \<in> ps" "reply (ConfigureStreamResponse (mode_answer cw ch w h)) \<in> ps"
      "reply StartStreamRequest \<in> ps" "reply (StartStreamResponse START_OK) \<in> ps" "reply (StartStreamResponse START_UNKNOWN) \<in> ps"
    and scr: "0 < w" "0 < h" "0 < num fps" "0 < den fps" "getCaptureResolution (media_of S) (configureStream w h fps s1) = Inr ((cw, ch), s2)"
    and h3: "request E (reply (mode_request w h fps)) c2 = Inr (q3, c3')" "cl_conn c3 = cl_conn c3'"
      "intro_configure E (reply (QueryHostCapsResponse (caps_answer w h fps))) (caps_answer w h fps) c2 = Inr (r3, c3)"
      "(case r3 of None \<Rightarrow> Inr (False, c3) | Some p2 \<Rightarrow> intro_start E p2 c3) = Inr (ok, c')"
    and k2: "authorized sc2" "\<not> conn_streaming sc2" "run_rounds S (Suc (Suc 0)) (data, sc2, s1) = Inr (data', sc', s')"
      "turn cview (cl_conn c2) (sock sc2) (cl_conn c') (sock sc')"
  shows "startStream (media_of S) s2 = Inr (ok, s') \<and> authorized sc' \<and> conn_streaming sc' = ok \<and>
    captureWidth c' = cw \<and> captureHeight c' = ch \<and> videoWidth c' = w \<and> videoHeight c' = h"
proof -
  have d3: "dispatch S (reply (mode_request w h fps)) data (sc2\<lparr>sock := sk\<rparr>, s1) = Inr st \<Longrightarrow>
      respond S (ConfigureStreamResponse (mode_answer cw ch w h)) (sc2\<lparr>authState := None\<rparr>\<lparr>sock := sk\<rparr>, s2) = Inr st" for sk st
    by (drule mode_handled [OF _ k2(1,2) scr]) simp
  note x3 = exchange_to [OF w ps(1) h3(1) configured_grows [OF h3(4), unfolded h3(2)] k2(4,3) d3 ps(2)]
  from x3(2) k2(1,2) h3(2) obtain sc3 where k3: "authorized sc3" "\<not> conn_streaming sc3"
    "run_rounds S (Suc 0) (data, sc3, s2) = Inr (data', sc', s')" "turn cview (cl_conn c3) (sock sc3) (cl_conn c') (sock sc')" by auto
  from client_after_mode [OF h3(3,4) trans [OF h3(1) arg_cong [where f = "\<lambda>q. Inr (q, c3')", OF x3(1)]]] obtain q4 where h4:
    "c3 = c3'\<lparr>captureWidth := cw, captureHeight := ch, videoWidth := w, videoHeight := h\<rparr>"
    "request E (reply StartStreamRequest) c3 = Inr (q4, c')" "ok = (case q4 of None \<Rightarrow> False | Some p \<Rightarrow> start_status_of p = Some START_OK)" by blast
  from start_exchange [OF w ps(3-5) h4(2) k3] h4(1,3) show ?thesis by (auto simp: start_status_of_def reply_def)
qed

subsection \<open>Property\<close>

text \<open>C4: from connecting to streaming. Let a client that the server knows run \<open>doIntro_\<close> against four rounds of its connection's thread over a
  lossless channel, with a screen of a positive size. Then the client ends with the server's resolutions, the server is set to the
  mode that it offered itself, the stream runs at the end and the host entry is unchanged; but the client goes on only if it is the one
  that started the stream: to a server that streams already, every further client that it knows fails to connect.\<close>

theorem stream_negotiated:
  assumes "doIntro E host False c = Inr (ok, host', c')" and "run_rounds S 4 (data, sc, s) = Inr (data', sc', s')"
    and "screen_is (media_of S) s w h fps cw ch" and "good_wire (proto_of S) cview (set (intro_packets E S w h fps cw ch))"
    and "ce_proto E = proto_of S" and "authorized sc" and "\<not> conn_streaming sc"
    and "talking cview (cl_conn c) outc (drop (length outs) (tls_out (sock sc')))"
    and "talking cview (sock sc) outs (drop (length outc) (tls_out (cl_conn c')))"
  shows "ok = (\<not> srv_streaming s) \<and> host' = host \<and> srv_streaming s' \<and> conn_streaming sc' = ok \<and> authorized sc' \<and>
    captureWidth c' = cw \<and> captureHeight c' = ch \<and> videoWidth c' = w \<and> videoHeight c' = h \<and>
    requestedWidth s' = w \<and> requestedHeight s' = h \<and> requestedFramerate s' = fps"
proof -
  let ?ps = "set (intro_packets E S w h fps cw ch)"
  have ps: "reply (hello_request E) \<in> ?ps" "reply (hello_answer S) \<in> ?ps" "reply (QueryHostCapsRequest H264_BASELINE) \<in> ?ps"
    "reply (QueryHostCapsResponse (caps_answer w h fps)) \<in> ?ps" "reply (mode_request w h fps) \<in> ?ps"
    "reply (ConfigureStreamResponse (mode_answer cw ch w h)) \<in> ?ps" "reply StartStreamRequest \<in> ?ps"
    "reply (StartStreamResponse START_OK) \<in> ?ps" "reply (StartStreamResponse START_UNKNOWN) \<in> ?ps"
    by (simp_all add: intro_packets_def)
  from assms(3) obtain s1 s2 where scr: "0 < w" "0 < h" "0 < num fps" "0 < den fps" "getNativeMode (media_of S) s = Inr ((w, h, fps), s1)"
    "getCaptureResolution (media_of S) (configureStream w h fps s1) = Inr ((cw, ch), s2)" by (auto simp: screen_is_def)
  from assms(1) obtain r1 c1 where h1: "intro_hello E False c = Inr (r1, c1)" "after_hello E host r1 c1 = Inr (ok, host', c')"
    by (auto simp: doIntro_later rbind_eq_Inr)
  from h1(1) obtain q1 d1 where "request E (reply (hello_request E)) c = Inr (q1, d1)" by (auto simp: intro_hello_def hello_request_def rbind_eq_Inr)
  with intro_hello_after [OF h1(1)] have q1: "request E (reply (hello_request E)) c = Inr (q1, c1)" by simp
  have g1: "grows (cl_conn c1) (cl_conn c')" by (rule after_hello_grows [OF h1(2)])
  have "turn cview (cl_conn c) (sock sc) (cl_conn c') (sock sc')"
    using assms(8,9) run_rounds_grows [OF assms(2)] grows_trans [OF request_grows [OF q1] g1]
    by (fastforce simp: turn_def grows_def talking_def)
  then have t1: "turn cview (cl_conn c) (sock sc) (cl_conn c') (sock sc')" .
  have n4: "run_rounds S (Suc (Suc (Suc (Suc 0)))) (data, sc, s) = Inr (data', sc', s')" using assms(2) by (simp add: eval_nat_numeral)
  note step = exchange_to [OF assms(4,5)]
  have d1: "dispatch S (reply (hello_request E)) data (sc\<lparr>sock := sk\<rparr>, s) = Inr st \<Longrightarrow>
      respond S (hello_answer S) (sc\<lparr>authState := None\<rparr>\<lparr>sock := sk\<rparr>, s) = Inr st" for sk st
    by (drule hello_handled [OF _ assms(6)]) simp
  note x1 = step [OF ps(1) q1 g1 t1 n4 d1 ps(2)]
  from x1(2) assms(6,7) obtain sc1 where k1: "authorized sc1" "\<not> conn_streaming sc1"
    "run_rounds S (Suc (Suc (Suc 0))) (data, sc1, s) = Inr (data', sc', s')" "turn cview (cl_conn c1) (sock sc1) (cl_conn c') (sock sc')" by auto
  from client_after_hello [OF h1 trans [OF q1 arg_cong [where f = "\<lambda>q. Inr (q, c1)", OF x1(1)]]] obtain q2 r2 c2 where h2:
    "host' = host" "request E (reply (QueryHostCapsRequest H264_BASELINE)) c1 = Inr (q2, c2)" "intro_caps E (reply (hello_answer S)) c1 = Inr (r2, c2)"
    "intro_later E r2 c2 = Inr (ok, c')" by blast
  have d2: "dispatch S (reply (QueryHostCapsRequest H264_BASELINE)) data (sc1\<lparr>sock := sk\<rparr>, s) = Inr st \<Longrightarrow>
      respond S (QueryHostCapsResponse (caps_answer w h fps)) (sc1\<lparr>authState := None\<rparr>\<lparr>sock := sk\<rparr>, s1) = Inr st" for sk st
    by (drule caps_handled [OF _ k1(1) scr(5)]) simp
  note x2 = step [OF ps(3) h2(2) intro_later_grows [OF h2(4)] k1(4,3) d2 ps(4)]
  from x2(2) k1(1,2) obtain sc2 where k2: "authorized sc2" "\<not> conn_streaming sc2"
    "run_rounds S (Suc (Suc 0)) (data, sc2, s1) = Inr (data', sc', s')" "turn cview (cl_conn c2) (sock sc2) (cl_conn c') (sock sc')" by auto
  from client_after_caps [OF h2(3,4) trans [OF h2(2) arg_cong [where f = "\<lambda>q. Inr (q, c2)", OF x2(1)]]] obtain q3 r3 c3 c3' where h3:
    "request E (reply (mode_request w h fps)) c2 = Inr (q3, c3')" "cl_conn c3 = cl_conn c3'"
    "intro_configure E (reply (QueryHostCapsResponse (caps_answer w h fps))) (caps_answer w h fps) c2 = Inr (r3, c3)"
    "(case r3 of None \<Rightarrow> Inr (False, c3) | Some p2 \<Rightarrow> intro_start E p2 c3) = Inr (ok, c')" by blast
  from mode_and_start [OF assms(4,5) ps(5-9) scr(1-4,6) h3 k2] startStream_state [of "media_of S" s2 ok s'] scr(5,6) h2(1)
  show ?thesis by (auto simp: getNativeMode_def getCaptureResolution_def configureStream_def rbind_eq_Inr)
qed

text \<open>Both outcomes on the concrete stream of theory \<open>NetworkSocket\<close>: the screen is 1920 by 1080, the server idle or streaming.\<close>

definition intro_env :: "(bytes \<times> bytes option) proto \<Rightarrow> (bytes \<times> bytes option, bool, bool) env" where
  "intro_env P = sample_pair_env\<lparr>proto_of := P\<rparr>"

abbreviation (input) screen_packets :: "packet list" where
  "screen_packets \<equiv> intro_packets sample_client_env sample_pair_env 1920 1080 \<lparr>num = 60, den = 1\<rparr> 1920 1080"

definition intro_proto :: "(bytes \<times> bytes option) proto" where
  "intro_proto = sample_proto screen_packets"

lemma intro_packets_env: "intro_packets (sample_client_env\<lparr>ce_proto := P\<rparr>) (intro_env Q) = intro_packets sample_client_env sample_pair_env"
  by (intro ext) (simp add: intro_packets_def hello_request_def hello_answer_def intro_env_def)

lemmas intro_message_defs = hello_request_def hello_answer_def caps_answer_def mode_request_def mode_answer_def reply_def
  sample_client_env_def sample_pair_env_def host_caps_init_def configure_response_init_def CLIENT_PROTOCOL_VERSION_def PROTOCOL_VERSION_def

lemma intro_proto_ser [unfolded intro_packets_def intro_message_defs, simplified]:
  "SerializeToCodedStream intro_proto (screen_packets ! 0) = Some [0]"
  "SerializeToCodedStream intro_proto (screen_packets ! 1) = Some [1]"
  "SerializeToCodedStream intro_proto (screen_packets ! 2) = Some [2]"
  "SerializeToCodedStream intro_proto (screen_packets ! 3) = Some [3]"
  "SerializeToCodedStream intro_proto (screen_packets ! 4) = Some [4]"
  "SerializeToCodedStream intro_proto (screen_packets ! 5) = Some [5]"
  "SerializeToCodedStream intro_proto (screen_packets ! 6) = Some [6]"
  "SerializeToCodedStream intro_proto (screen_packets ! 7) = Some [7]"
  "SerializeToCodedStream intro_proto (screen_packets ! 8) = Some [8]"
  by (simp_all add: intro_proto_def sample_proto_def intro_packets_def intro_message_defs position_def)

lemma intro_proto_parse [unfolded intro_packets_def intro_message_defs, simplified]:
  "ParseFromCodedStream intro_proto ([0], ys) = (Some (screen_packets ! 0), ([], ys))"
  "ParseFromCodedStream intro_proto ([1], ys) = (Some (screen_packets ! 1), ([], ys))"
  "ParseFromCodedStream intro_proto ([2], ys) = (Some (screen_packets ! 2), ([], ys))"
  "ParseFromCodedStream intro_proto ([3], ys) = (Some (screen_packets ! 3), ([], ys))"
  "ParseFromCodedStream intro_proto ([4], ys) = (Some (screen_packets ! 4), ([], ys))"
  "ParseFromCodedStream intro_proto ([5], ys) = (Some (screen_packets ! 5), ([], ys))"
  "ParseFromCodedStream intro_proto ([6], ys) = (Some (screen_packets ! 6), ([], ys))"
  "ParseFromCodedStream intro_proto ([7], ys) = (Some (screen_packets ! 7), ([], ys))"
  "ParseFromCodedStream intro_proto ([8], ys) = (Some (screen_packets ! 8), ([], ys))"
  by (simp_all add: intro_proto_def sample_proto_def intro_packets_def)

lemma intro_proto_rest:
  "grow_ok intro_proto n" "ByteSizeLong intro_proto p = 1" "WriteVarint64 intro_proto (Suc 0) = [1, 0, 0, 0]"
  "ReadVarintSizeAsInt intro_proto (1 # 0 # 0 # 0 # xs, ys) = (Some 1, (xs, ys))"
  "PushLimit intro_proto 1 (x # xs, ys) = (0, ([x], Some xs))" "ConsumedEntireMessage intro_proto ([], ys)"
  "PopLimit intro_proto l ([], Some zs) = (zs, None)" "stream_error intro_proto s = None"
  by (simp_all add: intro_proto_def sample_proto_def four_bytes_def read_four_def)

lemmas intro_proto_simps = pair_proto_room intro_proto_ser intro_proto_parse intro_proto_rest

definition four_frames :: "u8 list \<Rightarrow> bytes" where
  "four_frames ks = concat (map (\<lambda>k. [1, 0, 0, 0, k]) ks)"

definition known_client :: "bytes \<Rightarrow> (bytes \<times> bytes option) client" where
  "known_client input = client_new (sample_talk [1] [5, 5, 5, 5] input) [7]"

definition known_conn :: "bytes \<Rightarrow> (bytes \<times> bytes option) conn" where
  "known_conn input = (conn_new (sample_talk [7] [5, 5, 5, 5] input))\<lparr>authorized := True\<rparr>"

definition known_env :: "(bytes \<times> bytes option) client_env" where
  "known_env = sample_client_env\<lparr>ce_proto := intro_proto\<rparr>"

lemma sample_intro:
  "case doIntro known_env entry_init False (known_client (four_frames [1, 3, 5, if b then 8 else 7])) of
     Inr (ok, h, c) \<Rightarrow> ok = (\<not> b) \<and> tls_out (cl_conn c) = four_frames [0, 2, 4, 6] | _ \<Rightarrow> False"
  by (cases b; simp add: doIntro_def intro_hello_def intro_stream_def intro_caps_def intro_configure_def intro_start_def request_def client_send_def client_recv_def
      server_intro_of_def host_caps_of_def configure_response_of_def start_status_of_def reply_def CLIENT_PROTOCOL_VERSION_def
      send_def ssl_write_all_def recv_def recv_from_def recv_extra_def set_stream_def Let_def intro_proto_simps known_env_def sample_client_env_def
      known_client_def client_new_def sample_talk_def four_frames_def sz_of_int_def SIZE_T_MOD_def)

lemma four_is: "(4 :: nat) = Suc (Suc (Suc (Suc 0)))"
  by simp

lemma sample_intro_rounds:
  "case run_rounds (intro_env intro_proto) 4 ([], known_conn (four_frames [0, 2, 4, 6]), sample_server b) of
     Inr (d, c, s) \<Rightarrow> tls_out (sock c) = four_frames [1, 3, 5, if b then 8 else 7] | _ \<Rightarrow> False"
  unfolding four_is
  by (cases b; simp add: run_round_def dispatch_def handler_defs conn_send_def respond_def reply_def send_def ssl_write_all_def recv_def
      recv_from_def recv_extra_def set_stream_def Let_def intro_proto_simps intro_env_def sample_pair_env_def onoff_media_def sample_server_def known_conn_def
      conn_new_def sample_talk_def four_frames_def sz_of_int_def SIZE_T_MOD_def getNativeMode_def getCaptureResolution_def getVideoResolution_def
      configureStream_def startStream_def rational_new_def PROTOCOL_VERSION_def host_caps_init_def configure_response_init_def)

lemma intro_proto_good: "good_wire intro_proto (\<lambda>s. s) (set screen_packets)"
proof -
  have "coded_laws intro_proto (\<lambda>s. s) (set screen_packets)"
    using sample_laws [of screen_packets] by (simp add: intro_proto_def) (simp add: intro_packets_def)
  moreover have "SerializeToCodedStream intro_proto p \<noteq> None" if "p \<in> set screen_packets" for p
    using that by (simp add: intro_proto_def sample_proto_def)
  ultimately show ?thesis by (simp add: good_wire_def intro_proto_rest)
qed

theorem stream_negotiated_witness:
  "\<forall>b. \<exists>h c d sc s. doIntro known_env entry_init False (known_client (four_frames [1, 3, 5, if b then 8 else 7])) = Inr (\<not> b, h, c) \<and>
     run_rounds (intro_env intro_proto) 4 ([], known_conn (four_frames [0, 2, 4, 6]), sample_server b) = Inr (d, sc, s) \<and>
     srv_streaming s \<and> conn_streaming sc = (\<not> b) \<and> videoWidth c = 1920 \<and> requestedHeight s = 1080"
proof
  fix b
  obtain h c where c: "doIntro known_env entry_init False (known_client (four_frames [1, 3, 5, if b then 8 else 7])) = Inr (\<not> b, h, c)"
    "tls_out (cl_conn c) = four_frames [0, 2, 4, 6]" using sample_intro [of b] by (auto split: sum.splits)
  obtain d sc s where s: "run_rounds (intro_env intro_proto) 4 ([], known_conn (four_frames [0, 2, 4, 6]), sample_server b) = Inr (d, sc, s)"
    "tls_out (sock sc) = four_frames [1, 3, 5, if b then 8 else 7]" using sample_intro_rounds [of b] by (auto split: sum.splits)
  have screen: "screen_is (media_of (intro_env intro_proto)) (sample_server b) 1920 1080 \<lparr>num = 60, den = 1\<rparr> 1920 1080"
    by (simp add: screen_is_def intro_env_def sample_pair_env_def onoff_media_def sample_server_def getNativeMode_def getCaptureResolution_def configureStream_def)
  have g: "good_wire (proto_of (intro_env intro_proto)) (\<lambda>s. s)
      (set (intro_packets known_env (intro_env intro_proto) 1920 1080 \<lparr>num = 60, den = 1\<rparr> 1920 1080))"
    using intro_proto_good by (simp add: intro_packets_env known_env_def) (simp add: intro_env_def)
  have ready: "ce_proto known_env = proto_of (intro_env intro_proto)" "authorized (known_conn x)" "\<not> conn_streaming (known_conn x)" for x
    by (simp_all add: known_env_def intro_env_def known_conn_def conn_new_def)
  have t: "talking (\<lambda>s. s) (cl_conn (known_client (four_frames [1, 3, 5, if b then 8 else 7]))) [] (drop (length ([] :: bytes)) (tls_out (sock sc)))"
    "talking (\<lambda>s. s) (sock (known_conn (four_frames [0, 2, 4, 6]))) [] (drop (length ([] :: bytes)) (tls_out (cl_conn c)))"
    by (simp_all add: talking_def willing_def known_client_def known_conn_def client_new_def conn_new_def sample_talk_def next_stream_def c s)
  from stream_negotiated [OF c(1) s(1) screen g ready t] c(1) s(1)
  show "\<exists>h c d sc s. doIntro known_env entry_init False (known_client (four_frames [1, 3, 5, if b then 8 else 7])) = Inr (\<not> b, h, c) \<and>
     run_rounds (intro_env intro_proto) 4 ([], known_conn (four_frames [0, 2, 4, 6]), sample_server b) = Inr (d, sc, s) \<and>
     srv_streaming s \<and> conn_streaming sc = (\<not> b) \<and> videoWidth c = 1920 \<and> requestedHeight s = 1080" by auto
qed

end
