(* ===== verification/Spec2Isabelle.thy ===== *)
theory Spec2Isabelle
  imports ByteBuffer Fifo CircularDeque RingBuffer Util MinMax RationalNum Log CertHash Packet Frame
    KnownClients HostList Pin NetworkSocket ServerCore Connection StreamServer
    TextureArena ScaleSoftware EncoderFFmpeg QPCTimer CaptureD3D CapturePipelineD3DSoft AudioEncoder
    NetworkClock StreamClient Pairing SideData DecoderFFmpeg D3DView StreamViewer StreamWindow CertStore NetworkServer
    ComPtr OpenH264 EncoderOpenH264 DecoderOpenH264 FlowLayout HubWindow StatisticMixer Spinlock LatencyStats TextureMove Startup
    ScaleD3D EncoderMF CapturePipelineD3DMF DxgiHelper AvPtr Transmission Negotiation
begin

text \<open>
  Twilight is a remote desktop program in C++: a server captures the screen and the sound of a Windows machine,
  encodes both and sends them to clients; a client decodes, shows and plays them. The two talk over TLS with
  protobuf messages, know each other by the SHA-256 fingerprints of their certificates, and pair by a PIN that the
  client shows and the user types at the server. This library models the program's own code in \<open>src/src\<close>. Each
  theory names its source files; every definition has the name of the function or type that it translates, with a
  prefix where two classes share a name.

  \<^bold>\<open>How the parts interact, and which theory holds them.\<close>

  \<^item> Bytes and containers. \<open>ByteBuffer\<close>, \<open>CircularDeque\<close> and \<open>RingBuffer\<close> (\<open>common/\<close>, headers of these names), the
    last two against the queue interface of \<open>Fifo\<close>; \<open>Util\<close>, \<open>MinMax\<close> and \<open>Spinlock\<close> (\<open>common/util\<close>), \<open>RationalNum\<close>
    (\<open>common/Rational\<close>), \<open>StatisticMixer\<close>, \<open>Log\<close> (\<open>common/log\<close>), \<open>Frame\<close> (\<open>common/DesktopFrame.h\<close>).
  \<^item> Identity. \<open>CertHash\<close> (\<open>common/CertHash\<close>) is the fingerprint, \<open>CertStore\<close> (\<open>common/Keypair\<close>, \<open>common/CertStore\<close>) the
    own key and certificate, \<open>KnownClients\<close> and \<open>HostList\<close> the files in which each side keeps whom it trusts, \<open>Pin\<close> the
    two computations of the PIN.
  \<^item> Transport. \<open>Packet\<close> is the messages of \<open>common/protobuf\<close> as data, \<open>NetworkSocket\<close> and \<open>NetworkServer\<close>
    (\<open>common/net\<close>) send and receive them with their extra bytes.
  \<^item> Memory that is shared. \<open>TextureArena\<close> and \<open>TextureMove\<close> (\<open>common/platform/software\<close>) are the software pictures, \<open>ComPtr\<close>
    (\<open>common/platform/windows/ComWrapper.h\<close>) the pointers to the objects of Windows, \<open>AvPtr\<close> (\<open>common/ffmpeg-headers.h\<close>) those
    to the frames and packets of FFmpeg; \<open>DxgiHelper\<close> makes the devices.
  \<^item> The server. \<open>Connection\<close> answers the messages of one client; \<open>ServerCore\<close> is the state of \<open>StreamServer\<close> that its
    handlers use, and \<open>StreamServer\<close> the whole of it, its threads a step relation. It drives a capture pipeline that
    \<open>CapturePipelineFactoryWin32\<close> (in \<open>DxgiHelper\<close>) builds, and the \<open>AudioEncoder\<close> over \<open>AudioCapture\<close> (\<open>AudioCaptureWASAPI\<close>).
    \<open>CapturePipelineD3DSoft\<close> runs \<open>CaptureD3D\<close>, \<open>ScaleSoftware\<close>, \<open>EncoderFFmpeg\<close> and \<open>QPCTimer\<close>; \<open>CapturePipelineD3DMF\<close> runs
    \<open>CaptureD3D\<close>, the graphics card's \<open>ScaleD3D\<close> and the hardware encoder \<open>EncoderMF\<close>.
  \<^item> The client. \<open>HubWindow\<close> with its \<open>FlowLayout\<close> shows the hosts, \<open>StreamClient\<close> connects, pairs and receives, \<open>NetworkClock\<close>
    follows the server's clock, \<open>StreamWindow\<close> dispatches packets and plays sound, \<open>StreamViewer\<close> (with
    \<open>DecodePipelineSoftD3D\<close>) passes frames to \<open>DecoderFFmpeg\<close>, shows them through \<open>D3DView\<close> (\<open>D3DTextureUploader\<close>,
    \<open>RendererD3D\<close>) and reports their delays (\<open>LatencyStats\<close>).
  \<^item> Both ends together, over a channel on which each reads what the other has written. \<open>Pairing\<close> runs the two halves of the PIN
    exchange against each other, \<open>Negotiation\<close> the introduction of a known client up to the running stream, and
    \<open>Transmission\<close> the stream itself, from the server's encoders to the client's decoder and audio queue.
  \<^item> Encoders and decoders beside these. \<open>OpenH264\<close> loads the library of that name for \<open>EncoderOpenH264\<close> and \<open>DecoderOpenH264\<close>;
    \<open>SideData\<close> is the bookkeeping that the FFmpeg encoder and decoder share.
  \<^item> The two programs. \<open>Startup\<close> has their \<open>main\<close> functions, the loading of the own identity, and \<open>LocalClock\<close>.

  \<^bold>\<open>How code becomes definitions.\<close> A class is a record of its fields and a method a function that returns the
  updated record. \<open>Prelude\<close> has the type of results: an operation ends in a value or in a fault, and a fault is the
  exception of \<open>assert_quit\<close>, a call of \<open>abort\<close>, undefined behaviour, or a call that does not return. Sizes are 64-bit
  with the wrap-around written out, protocol integers and counters words. A \<open>std::thread\<close> is whether it runs or
  can be joined, the body of its loop one definition per round, and a history relation (\<open>sys_step\<close>,
  \<open>df_life\<close>, \<open>viewer_run\<close> and others) interleaves rounds and calls. Locks appear as atomic steps, except where their order
  is what matters. mbedtls, protobuf, FFmpeg, Opus, Direct3D, Windows audio, the TOML parser and the C file
  functions are parameters, records of functions; what is used of them is a hypothesis of the theorem or a
  field of a named predicate.

  \<^bold>\<open>What the lemmas show.\<close> For the containers, an invariant that every operation keeps and agreement with lists; for
  files and messages, round trips; for each connection, what an unauthorized client can reach, how pairing ends, and
  that authorization is always recorded; for both ends together, that an introduction ends with the same mode at both and that
  every picture and sound arrives once and in order; for the server, that its flag tells what its media do, and when they stop;
  for every encoder and decoder, that each picture keeps its own cursor and time stamps, that pictures stay in order, and that
  dropping packets loses no cursor; for textures, uploads and the draws of the graphics card, that memory is disjoint,
  copies are in bounds and every draw fits its target; for COM pointers, that reference counts balance, for
  FFmpeg's, that each object has one owner; for the host window, that no two items overlap; for clocks and timers, their arithmetic. Where the code fails, a theorem gives the run
  that fails.

  \<^bold>\<open>Interfaces.\<close> \<open>byte_store\<close>, \<open>fifo\<close>, \<open>spin_protocol\<close>, \<open>switchable\<close> (start and stop of a running part) and \<open>stream_media\<close> are
  the locales. \<open>spin_protocol\<close> is interpreted on both spinlocks, \<open>fifo\<close> on both queues, \<open>switchable\<close> on both
  pipelines and the audio encoder, \<open>stream_media\<close> on each pipeline together with that encoder; the server's invariant over its own media is assembled below.

  \<^bold>\<open>Bounds and fuel.\<close> No definition is cut off by fuel that the code lacks. Loops that wait for the outside run
  over an explicit list of what the outside does, so a theorem about them holds for every such list; the loop of
  \<open>mbedtls_pk_write_key_der\<close> is a \<open>partial_function\<close>, and that it returns is proved.

  \<^bold>\<open>Not modelled.\<close> Qt's widgets and event loop and the ui classes generated for them, the headers of OpenH264 under
  \<open>src/external\<close>, lists of includes, and classes with virtual functions only. Floating point is a parameter (the statistics, the
  conversions of \<open>Rational\<close>). The \<open>View\<close> template of \<open>ByteBuffer\<close> is used nowhere and cannot be instantiated. The manifest
  lists every part with its reason.
\<close>

section \<open>The server with its own media\<close>

text \<open>The contract that connections and the deleter rely on holds for the pipeline and the audio encoder the program has.\<close>

abbreviation server_media ::
  "('d, 'c, 'px) platform \<Rightarrow> u64 \<Rightarrow> (('d, 'c, 'px) soft_pipeline, ('r, 'e) audio_encoder) media" where
  "server_media P qpc_now \<equiv> soft_media P qpc_now ae_start ae_stop"

lemma server_media_simps [simp]:
  "p_start (server_media P qpc_now) = sp_start P qpc_now" "p_stop (server_media P qpc_now) = sp_stop P"
  "a_start (server_media P qpc_now) = ae_start" "a_stop (server_media P qpc_now) = ae_stop"
  "p_setEncoderMode (server_media P qpc_now) = sp_setEncoderMode" "p_init (server_media P qpc_now) = sp_init P"
  "p_getNativeMode (server_media P qpc_now) = sp_getNativeMode P"
  by (simp_all add: soft_media_def)

interpretation served: stream_media sp_flagRun ae_run "server_media P qpc_now"
  by unfold_locales
    (auto simp: soft.stop_ok soft.start_ok audio.stop_ok audio.start_ok
      dest: soft.start_running soft.stop_stopped audio.start_running audio.stop_stopped sp_mode_keeps sp_init_keeps sp_native_keeps)

text \<open>The other pipeline keeps the same contract, so the server could run on it.\<close>

interpretation served_hard: stream_media mp_flagRunning ae_run "mf_media P qpc_now ae_start ae_stop"
  by unfold_locales
    (auto simp: mf_media_def hard.stop_ok hard.start_ok audio.stop_ok audio.start_ok
      dest: hard.start_running hard.stop_stopped audio.start_running audio.stop_stopped mp_keeps_flag)

lemma hardware_stream_flag:
  assumes "reachable E to_float s0 sys" and "media_of E = mf_media P qpc_now ae_start ae_stop"
    and "\<not> srv_streaming s0 \<and> \<not> mp_flagRunning (capture s0) \<and> \<not> ae_run (audioEncoder s0)"
  shows "mp_flagRunning (capture (srv sys)) = srv_streaming (srv sys) \<and> ae_run (audioEncoder (srv sys)) = srv_streaming (srv sys)"
proof -
  have "stream_inv mp_flagRunning ae_run s0" using assms(3) by (simp add: stream_inv_def)
  from served_hard.reachable_inv [OF assms(1,2) this] show ?thesis by (simp add: stream_inv_def)
qed


text \<open>A server as its constructor leaves it, with the sample platform of the pipeline's theory.\<close>

definition idle_audio :: "(unit, unit) audio_encoder" where
  "idle_audio = \<lparr>ae_run = False, ae_cap = \<lparr>ac_run = False, ac_record = Idle, ac_playback = Idle\<rparr>, ae_worker = Idle,
     ae_swr = None, ae_enc = None, ae_buffer = [], samplingRate = 0, ae_channels = 0\<rparr>"

definition idle_pipeline :: "(unit, int list, nat) soft_pipeline" where
  "idle_pipeline = (case sp_new sample_platform (setFrequency 1 0 rat_default) () of Inr p \<Rightarrow> p | Inl _ \<Rightarrow> sample_pipeline)"

definition idle_server :: "((unit, int list, nat) soft_pipeline, (unit, unit) audio_encoder) server" where
  "idle_server = \<lparr>knownClients = kc_init, clients_file = None, requestedWidth = 0, requestedHeight = 0,
     requestedFramerate = rat_default, srv_streaming = False, srv_clock = 0, local_cert = [1], capture = idle_pipeline,
     audioEncoder = idle_audio, srv_cursorPos = None\<rparr>"

definition real_env :: "packet \<Rightarrow> (unit, (unit, int list, nat) soft_pipeline, (unit, unit) audio_encoder) env" where
  "real_env p = \<lparr>proto_of = talk_proto p [], crypto_of = sample_crypto, media_of = server_media sample_platform 0,
     sha512 = (\<lambda>_. (0, replicate 64 0)), sha384 = (\<lambda>_. (0, replicate 48 0)), drbg = (\<lambda>_. (0, [])),
     typed_line = (\<lambda>_. None), cert_not_trusted = 8, cert_missing = 64, clients_fmt = (\<lambda>k v. v),
     clients_writable = True, git_commit = []\<rparr>"

lemma idle_server_idle: "\<not> srv_streaming idle_server \<and> \<not> sp_flagRun (capture idle_server) \<and> \<not> ae_run (audioEncoder idle_server)"
  by (simp add: idle_server_def idle_audio_def idle_pipeline_def sp_new_def ff_new_def)


text \<open>A client that starts the stream before any client has configured it takes the server down. With the width
  still 0, as the constructor leaves it, an authorized StartStreamRequest reaches the encoder's assertion; the
  exception leaves the connection's thread.\<close>

lemma start_unconfigured_fatal:
  assumes "media_of E = server_media P qpc_now" and "authorized c" and "\<not> srv_streaming s" and "requestedWidth s \<le> 0 \<or> requestedHeight s \<le> 0"
    and "\<not> sp_flagRun (capture s)" and "sp_captureThread (capture s) \<noteq> Working" and "sp_encodeThread (capture s) \<noteq> Working"
  shows "dispatch E \<lparr>extra_data_len = n, body = StartStreamRequest\<rparr> data (c, s) = Inl (Fatal ''Size not set before start!'')"
  using assms by (auto simp: dispatch_def msg_startStreamRequest_def startStream_def sp_setEncoderMode_def sp_start_def
      join_thread_def ff_start_def ff_setMode_def)

theorem start_unconfigured_fatal_witness:
  "dispatch (real_env (reply StartStreamRequest)) (reply StartStreamRequest) []
     ((conn_new (sample_socket [7]))\<lparr>authorized := True\<rparr>, idle_server) = Inl (Fatal ''Size not set before start!'')"
  using start_unconfigured_fatal [of "real_env (reply StartStreamRequest)" sample_platform 0 "(conn_new (sample_socket [7]))\<lparr>authorized := True\<rparr>"
      idle_server 0 "[]"]
  by (simp add: real_env_def reply_def idle_server_def idle_pipeline_def sp_new_def ff_new_def)

end
